(* ===== verification/Line_Diff.thy ===== *)
theory Line_Diff
  imports Js_Base
begin

text \<open>
  The diffs of \<open>pages/pending.js\<close>: \<open>computeLineDiff\<close> over the lines of two rulesets and
  \<open>computeCharDiff\<close> over the characters of two lines. Both fill a table of longest common
  subsequences, with a direction in each cell, and walk it back from its last cell; they differ in
  their size limits and in that the second merges its steps.

  The tables of the browser are typed arrays: their lengths fit, since a side has at most 6000
  lines. A failed allocation, which \<open>computeLineDiff\<close> answers like a text too large, is not modelled.
\<close>

section \<open>The table\<close>

datatype 'a diff_op = Equal 'a 'a | Insert 'a | Delete 'a

text \<open>One row, from left to right: the length in each cell and its direction.\<close>

fun fill_row :: "'a \<Rightarrow> 'a list \<Rightarrow> nat list \<Rightarrow> nat \<Rightarrow> (nat \<times> nat) list" where
  "fill_row x (y # ys) (diag # up # ups) left =
     (let c = (if x = y then (diag + 1, 1) else if up \<ge> left then (up, 2) else (left, 3)) in
      c # fill_row x ys (up # ups) (fst c))"
| "fill_row x _ _ left = []"

fun fill_table :: "'a list \<Rightarrow> 'a list \<Rightarrow> (nat \<times> nat) list \<Rightarrow> (nat \<times> nat) list list" where
  "fill_table [] news prev = [prev]"
| "fill_table (x # xs) news prev = prev # fill_table xs news ((0, 0) # fill_row x news (map fst prev) 0)"

definition diff_table :: "'a list \<Rightarrow> 'a list \<Rightarrow> (nat \<times> nat) list list" where
  "diff_table olds news = fill_table olds news (replicate (length news + 1) (0, 0))"

text \<open>The walk back; \<open>unshift\<close> puts each step before those found so far.\<close>

function trace_back :: "(nat \<times> nat) list list \<Rightarrow> 'a list \<Rightarrow> 'a list \<Rightarrow> nat \<Rightarrow> nat \<Rightarrow> 'a diff_op list \<Rightarrow> 'a diff_op list" where
  "trace_back table olds news i j ops =
     (if i = 0 \<and> j = 0 then ops
      else (let d = snd (table ! i ! j) in
        if i > 0 \<and> j > 0 \<and> d = 1
        then trace_back table olds news (i - 1) (j - 1) (Equal (olds ! (i - 1)) (news ! (j - 1)) # ops)
        else if j > 0 \<and> (i = 0 \<or> d = 3) then trace_back table olds news i (j - 1) (Insert (news ! (j - 1)) # ops)
        else if i > 0 then trace_back table olds news (i - 1) j (Delete (olds ! (i - 1)) # ops)
        else ops))"
  by pat_completeness auto
termination by (relation "measure (\<lambda>(_, _, _, i, j, _). i + j)") auto

declare trace_back.simps [simp del]

definition diff_ops :: "'a list \<Rightarrow> 'a list \<Rightarrow> 'a diff_op list" where
  "diff_ops olds news = trace_back (diff_table olds news) olds news (length olds) (length news) []"

definition LINE_DIFF_MAX_CELLS :: nat where "LINE_DIFF_MAX_CELLS = 12000000"
definition LINE_DIFF_MAX_SIDE :: nat where "LINE_DIFF_MAX_SIDE = 6000"
definition CHAR_DIFF_MAX_CELLS :: nat where "CHAR_DIFF_MAX_CELLS = 500000"
definition CHAR_DIFF_MAX_LEN :: nat where "CHAR_DIFF_MAX_LEN = 4096"

definition too_large :: "nat \<Rightarrow> nat \<Rightarrow> nat \<Rightarrow> nat \<Rightarrow> bool" where
  "too_large side cells m n \<longleftrightarrow> m > side \<or> n > side \<or> m * n > cells"

definition compute_line_diff :: "string list \<Rightarrow> string list \<Rightarrow> string diff_op list option" where
  "compute_line_diff oldLines newLines =
     (if too_large LINE_DIFF_MAX_SIDE LINE_DIFF_MAX_CELLS (length oldLines) (length newLines) then None
      else Some (diff_ops oldLines newLines))"

text \<open>Runs of the same step, with their text.\<close>

datatype char_op = EqualText string | InsertText string | DeleteText string

definition char_op_of :: "char diff_op \<Rightarrow> char_op" where
  "char_op_of x = (case x of Equal c _ \<Rightarrow> EqualText [c] | Insert c \<Rightarrow> InsertText [c] | Delete c \<Rightarrow> DeleteText [c])"

fun add_char_op :: "char_op list \<Rightarrow> char_op \<Rightarrow> char_op list" where
  "add_char_op [] x = [x]"
| "add_char_op [EqualText s] (EqualText t) = [EqualText (s @ t)]"
| "add_char_op [InsertText s] (InsertText t) = [InsertText (s @ t)]"
| "add_char_op [DeleteText s] (DeleteText t) = [DeleteText (s @ t)]"
| "add_char_op [y] x = [y, x]"
| "add_char_op (y # z # zs) x = y # add_char_op (z # zs) x"

definition merge_char_ops :: "char_op list \<Rightarrow> char_op list" where
  "merge_char_ops ops = foldl add_char_op [] ops"

definition compute_char_diff :: "string \<Rightarrow> string \<Rightarrow> char_op list option" where
  "compute_char_diff oldStr newStr =
     (if too_large CHAR_DIFF_MAX_LEN CHAR_DIFF_MAX_CELLS (length oldStr) (length newStr) then None
      else Some (merge_char_ops (map char_op_of (diff_ops oldStr newStr))))"

section \<open>What the table holds\<close>

fun cell :: "'a list \<Rightarrow> 'a list \<Rightarrow> nat \<Rightarrow> nat \<Rightarrow> nat \<times> nat" where
  "cell os ns 0 j = (0, 0)"
| "cell os ns (Suc i) 0 = (0, 0)"
| "cell os ns (Suc i) (Suc j) =
     (if os ! i = ns ! j then (fst (cell os ns i j) + 1, 1)
      else if fst (cell os ns i (Suc j)) \<ge> fst (cell os ns (Suc i) j) then (fst (cell os ns i (Suc j)), 2)
      else (fst (cell os ns (Suc i) j), 3))"

lemma fill_row_cells:
  "j \<le> length ns \<Longrightarrow>
     fill_row (os ! i) (drop j ns) (map (\<lambda>k. fst (cell os ns i k)) [j..<Suc (length ns)]) (fst (cell os ns (Suc i) j)) =
       map (cell os ns (Suc i)) [Suc j..<Suc (length ns)]"
proof (induction "length ns - j" arbitrary: j)
  case 0
  then show ?case by simp
next
  case (Suc n)
  then have j: "j < length ns" by simp
  then have d: "drop j ns = ns ! j # drop (Suc j) ns" by (simp add: Cons_nth_drop_Suc)
  have u: "[j..<Suc (length ns)] = j # Suc j # [Suc (Suc j)..<Suc (length ns)]" "[Suc j..<Suc (length ns)] = Suc j # [Suc (Suc j)..<Suc (length ns)]"
    using j by (simp_all add: upt_rec)
  have "n = length ns - Suc j" using Suc.hyps(2) by simp
  from Suc.hyps(1) [OF this] j have ih: "fill_row (os ! i) (drop (Suc j) ns) (map (\<lambda>k. fst (cell os ns i k)) [Suc j..<Suc (length ns)])
      (fst (cell os ns (Suc i) (Suc j))) = map (cell os ns (Suc i)) [Suc (Suc j)..<Suc (length ns)]" by simp
  show ?case
    using ih unfolding d u by (simp add: Let_def del: upt_Suc)
qed

lemma next_row_cells:
  "(0, 0) # fill_row (os ! i) ns (map fst (map (cell os ns i) [0..<Suc (length ns)])) 0 = map (cell os ns (Suc i)) [0..<Suc (length ns)]"
  using fill_row_cells [of 0 ns os i] by (simp add: comp_def upt_conv_Cons del: upt_Suc)

lemma fill_table_cells:
  "i \<le> length os \<Longrightarrow> fill_table (drop i os) ns (map (cell os ns i) [0..<Suc (length ns)]) =
     map (\<lambda>k. map (cell os ns k) [0..<Suc (length ns)]) [i..<Suc (length os)]"
proof (induction "length os - i" arbitrary: i)
  case 0
  then have "i = length os" by simp
  then show ?case by (simp add: upt_rec [of "length os"] del: upt_Suc)
next
  case (Suc n)
  then have i: "i < length os" by simp
  then have d: "drop i os = os ! i # drop (Suc i) os" by (simp add: Cons_nth_drop_Suc)
  have "n = length os - Suc i" using Suc.hyps(2) by simp
  from Suc.hyps(1) [OF this] i show ?case
    unfolding d fill_table.simps next_row_cells by (simp add: upt_rec [of i] del: upt_Suc)
qed

lemma diff_table_cells: "i \<le> length os \<Longrightarrow> j \<le> length ns \<Longrightarrow> diff_table os ns ! i ! j = cell os ns i j"
proof -
  have "map (cell os ns 0) xs = replicate (length xs) (0, 0)" for xs
    by (induction xs) auto
  from this [of "[0..<Suc (length ns)]"]
  have "replicate (length ns + 1) (0, 0) = map (cell os ns 0) [0..<Suc (length ns)]"
    by (simp del: upt_Suc)
  then have "diff_table os ns = map (\<lambda>k. map (cell os ns k) [0..<Suc (length ns)]) [0..<Suc (length os)]"
    using fill_table_cells [of 0 os ns] by (simp add: diff_table_def del: upt_Suc)
  then show "i \<le> length os \<Longrightarrow> j \<le> length ns \<Longrightarrow> diff_table os ns ! i ! j = cell os ns i j"
    by (simp del: upt_Suc)
qed


section \<open>A longest common subsequence\<close>

lemma subseq_one_iff: "subseq zs [x] \<longleftrightarrow> zs = [] \<or> zs = [x]"
  by (cases zs; simp add: subseq_append_le_same_iff [of _ "[]", simplified])

lemma subseq_snoc_iff: "subseq zs (xs @ [x]) \<longleftrightarrow> subseq zs xs \<or> (\<exists>ys. zs = ys @ [x] \<and> subseq ys xs)"
  by (auto simp: subseq_append_iff subseq_one_iff)

lemma subseq_both_snoc: "subseq (ys @ [y]) (xs @ [x]) \<Longrightarrow> subseq ys xs"
  by (auto simp: subseq_snoc_iff dest: subseq_order.trans [OF subseq_rev_drop_many [OF subseq_order.refl]])

lemma cell_is_reached:
  "i \<le> length os \<Longrightarrow> j \<le> length ns \<Longrightarrow>
     \<exists>zs. subseq zs (take i os) \<and> subseq zs (take j ns) \<and> length zs = fst (cell os ns i j)"
proof (induction os ns i j rule: cell.induct)
  case (3 os ns i j)
  then have t: "take (Suc i) os = take i os @ [os ! i]" "take (Suc j) ns = take j ns @ [ns ! j]"
    by (simp_all add: take_Suc_conv_app_nth)
  show ?case
  proof (cases "os ! i = ns ! j")
    case True
    with 3(1) [OF True] 3(6,7) obtain zs where "subseq zs (take i os)" "subseq zs (take j ns)" "length zs = fst (cell os ns i j)" by auto
    with True t show ?thesis by (intro exI [of _ "zs @ [ns ! j]"]) simp
  next
    case False
    show ?thesis
    proof (cases "fst (cell os ns i (Suc j)) \<ge> fst (cell os ns (Suc i) j)")
      case True
      with 3(3) [OF False] 3(6,7) obtain zs where "subseq zs (take i os)" "subseq zs (take (Suc j) ns)" "length zs = fst (cell os ns i (Suc j))"
        by auto
      with True False show ?thesis unfolding t(1) by (intro exI [of _ zs]) auto
    next
      case less: False
      with 3(2) [OF False] 3(6,7) obtain zs where "subseq zs (take (Suc i) os)" "subseq zs (take j ns)" "length zs = fst (cell os ns (Suc i) j)"
        by auto
      with less False show ?thesis unfolding t(2) by (intro exI [of _ zs]) auto
    qed
  qed
qed auto

lemma cell_bounds_common:
  "i \<le> length os \<Longrightarrow> j \<le> length ns \<Longrightarrow> subseq zs (take i os) \<Longrightarrow> subseq zs (take j ns) \<Longrightarrow> length zs \<le> fst (cell os ns i j)"
proof (induction os ns i j arbitrary: zs rule: cell.induct)
  case (3 os ns i j)
  then have t: "take (Suc i) os = take i os @ [os ! i]" "take (Suc j) ns = take j ns @ [ns ! j]"
    by (simp_all add: take_Suc_conv_app_nth)
  show ?case
  proof (cases "os ! i = ns ! j")
    case True
    show ?thesis
    proof (cases zs rule: rev_cases)
      case (snoc ys z)
      then have "subseq ys (take i os)" "subseq ys (take j ns)"
        using 3(8,9) unfolding t by (auto intro: subseq_both_snoc)
      with 3(1) [OF True, of ys] 3(6,7) True snoc show ?thesis by simp
    qed simp
  next
    case False
    then consider (old) "subseq zs (take i os)" | (new) "subseq zs (take j ns)"
      using 3(8,9) unfolding t subseq_snoc_iff by auto
    then show ?thesis
    proof cases
      case old
      with 3(3) [OF False, of zs] 3(6-9) False show ?thesis by auto
    next
      case new
      with 3(2) [OF False, of zs] 3(6-9) False show ?thesis by auto
    qed
  qed
qed simp_all

section \<open>The steps\<close>

fun old_side :: "'a diff_op list \<Rightarrow> 'a list" where
  "old_side [] = []"
| "old_side (Equal x y # ops) = x # old_side ops"
| "old_side (Insert y # ops) = old_side ops"
| "old_side (Delete x # ops) = x # old_side ops"

fun new_side :: "'a diff_op list \<Rightarrow> 'a list" where
  "new_side [] = []"
| "new_side (Equal x y # ops) = y # new_side ops"
| "new_side (Insert y # ops) = y # new_side ops"
| "new_side (Delete x # ops) = new_side ops"

fun kept_pairs :: "'a diff_op list \<Rightarrow> ('a \<times> 'a) list" where
  "kept_pairs [] = []"
| "kept_pairs (Equal x y # ops) = (x, y) # kept_pairs ops"
| "kept_pairs (Insert y # ops) = kept_pairs ops"
| "kept_pairs (Delete x # ops) = kept_pairs ops"

text \<open>Whether some deletion stands right before an insertion.\<close>

fun pairs_up :: "'a diff_op list \<Rightarrow> bool" where
  "pairs_up (Delete x # Insert y # ops) = True"
| "pairs_up (x # ops) = pairs_up ops"
| "pairs_up [] = False"

text \<open>The walk back, one step at a time, from a cell of the table.\<close>

lemma trace_cases:
  assumes "i \<le> length os" and "j \<le> length ns"
  obtains (stop) "i = 0" "j = 0" "trace_back (diff_table os ns) os ns i j ops = ops"
    | (equal) i' j' where "i = Suc i'" "j = Suc j'" "os ! i' = ns ! j'" "snd (cell os ns i j) = 1"
        "trace_back (diff_table os ns) os ns i j ops = trace_back (diff_table os ns) os ns i' j' (Equal (os ! i') (ns ! j') # ops)"
    | (insert) j' where "j = Suc j'" "i = 0 \<or> snd (cell os ns i j) = 3"
        "trace_back (diff_table os ns) os ns i j ops = trace_back (diff_table os ns) os ns i j' (Insert (ns ! j') # ops)"
    | (delete) i' where "i = Suc i'" "j = 0 \<or> snd (cell os ns i j) = 2"
        "trace_back (diff_table os ns) os ns i j ops = trace_back (diff_table os ns) os ns i' j (Delete (os ! i') # ops)"
proof (cases i)
  case 0
  with assms that show ?thesis
    by (cases j) (simp_all add: trace_back.simps [of _ os ns] diff_table_cells)
next
  case i: (Suc i')
  show ?thesis
  proof (cases j)
    case 0
    with i assms show ?thesis by (intro delete) (simp_all add: trace_back.simps [of _ os ns "Suc i'"] diff_table_cells)
  next
    case j: (Suc j')
    let ?up = "fst (cell os ns i' (Suc j'))" and ?left = "fst (cell os ns (Suc i') j')"
    have d: "diff_table os ns ! Suc i' ! Suc j' = cell os ns (Suc i') (Suc j')"
      using assms i j by (simp add: diff_table_cells del: cell.simps)
    consider "os ! i' = ns ! j'" | "os ! i' \<noteq> ns ! j'" "?left \<le> ?up" | "os ! i' \<noteq> ns ! j'" "\<not> ?left \<le> ?up" by blast
    then show ?thesis
    proof cases
      case 1
      with i j d show ?thesis by (intro equal [of i' j']) (simp_all add: trace_back.simps [of _ os ns "Suc i'"])
    next
      case 2
      with i j d show ?thesis by (intro delete [of i']) (simp_all add: trace_back.simps [of _ os ns "Suc i'"])
    next
      case 3
      with i j d show ?thesis by (intro insert [of j']) (simp_all add: trace_back.simps [of _ os ns "Suc i'"])
    qed
  qed
qed

text \<open>An induction over the walk, with a property that each step keeps.\<close>

lemma trace_induct [consumes 2, case_names stop equal insert delete]:
  assumes "i \<le> length os" and "j \<le> length ns"
    and "\<And>ops. P 0 0 ops ops"
    and "\<And>i j ops r. Suc i \<le> length os \<Longrightarrow> Suc j \<le> length ns \<Longrightarrow> os ! i = ns ! j \<Longrightarrow> snd (cell os ns (Suc i) (Suc j)) = 1 \<Longrightarrow>
           P i j (Equal (os ! i) (ns ! j) # ops) r \<Longrightarrow> P (Suc i) (Suc j) ops r"
    and "\<And>i j ops r. i \<le> length os \<Longrightarrow> Suc j \<le> length ns \<Longrightarrow> i = 0 \<or> snd (cell os ns i (Suc j)) = 3 \<Longrightarrow>
           P i j (Insert (ns ! j) # ops) r \<Longrightarrow> P i (Suc j) ops r"
    and "\<And>i j ops r. Suc i \<le> length os \<Longrightarrow> j \<le> length ns \<Longrightarrow> j = 0 \<or> snd (cell os ns (Suc i) j) = 2 \<Longrightarrow>
           P i j (Delete (os ! i) # ops) r \<Longrightarrow> P (Suc i) j ops r"
  shows "P i j ops (trace_back (diff_table os ns) os ns i j ops)"
  using assms(1,2)
proof (induction "i + j" arbitrary: i j ops rule: less_induct)
  case less
  from less.prems show ?case
  proof (cases rule: trace_cases [of i os j ns ops])
    case stop
    then show ?thesis by (simp add: assms(3))
  next
    case (equal i' j')
    with less show ?thesis by (auto intro!: assms(4))
  next
    case (insert j')
    with less show ?thesis by (auto intro!: assms(5))
  next
    case (delete i')
    with less show ?thesis by (auto intro!: assms(6))
  qed
qed

lemma trace_sides:
  assumes "i \<le> length os" and "j \<le> length ns"
  shows "old_side (trace_back (diff_table os ns) os ns i j ops) = take i os @ old_side ops"
    and "new_side (trace_back (diff_table os ns) os ns i j ops) = take j ns @ new_side ops"
  using assms by (induction rule: trace_induct) (simp_all add: take_Suc_conv_app_nth)

lemma cell_0 [simp]: "cell os ns i 0 = (0, 0)"
  by (cases i) simp_all

lemma trace_kept:
  assumes "i \<le> length os" and "j \<le> length ns" and "\<forall>(x, y) \<in> set (kept_pairs ops). x = y"
  shows "length (kept_pairs (trace_back (diff_table os ns) os ns i j ops)) = fst (cell os ns i j) + length (kept_pairs ops)
    \<and> (\<forall>(x, y) \<in> set (kept_pairs (trace_back (diff_table os ns) os ns i j ops)). x = y)"
  using assms
proof (induction rule: trace_induct)
  case (insert i j ops r)
  then show ?case by (cases i) (auto split: if_splits)
next
  case (delete i j ops r)
  then show ?case by (cases j) (auto split: if_splits)
qed auto

lemma cell_widens: "i \<le> length os \<Longrightarrow> Suc j \<le> length ns \<Longrightarrow> fst (cell os ns i j) \<le> fst (cell os ns i (Suc j))"
  using cell_is_reached [of i os j ns] cell_bounds_common [of i os "Suc j" ns]
  by (fastforce simp: take_Suc_conv_app_nth subseq_snoc_iff)

lemma left_after_up_is_impossible:
  assumes "Suc i \<le> length os" "Suc j \<le> length ns" "snd (cell os ns (Suc i) (Suc j)) = 3" "j = 0 \<or> snd (cell os ns (Suc i) j) = 2"
  shows False
proof -
  have less: "fst (cell os ns i (Suc j)) < fst (cell os ns (Suc i) j)"
    using assms(3) by (auto split: if_splits)
  show False
  proof (cases j)
    case 0
    with less show False by simp
  next
    case (Suc j')
    with assms(4) have "fst (cell os ns (Suc i) j) = fst (cell os ns i j)" by (auto split: if_splits)
    with less cell_widens [of i os j ns] assms(1,2) show False by simp
  qed
qed

fun starts_insert :: "'a diff_op list \<Rightarrow> bool" where
  "starts_insert (Insert y # ops) = True"
| "starts_insert ops = False"

lemma pairs_up_Cons:
  "pairs_up (Equal x y # ops) = pairs_up ops" "pairs_up (Insert y # ops) = pairs_up ops"
  "pairs_up (Delete x # ops) \<longleftrightarrow> starts_insert ops \<or> pairs_up ops"
proof -
  show "pairs_up (Delete x # ops) \<longleftrightarrow> starts_insert ops \<or> pairs_up ops"
    by (cases ops; cases "hd ops") auto
qed simp_all

lemma trace_never_pairs_up:
  assumes "i \<le> length os" and "j \<le> length ns"
    and "\<not> pairs_up ops" and "starts_insert ops \<longrightarrow> Suc j \<le> length ns \<and> (i = 0 \<or> snd (cell os ns i (Suc j)) = 3)"
  shows "\<not> pairs_up (trace_back (diff_table os ns) os ns i j ops)"
  using assms
proof (induction rule: trace_induct)
  case (delete i j ops r)
  then have "\<not> starts_insert ops" using left_after_up_is_impossible [of i os j ns] by blast
  with delete show ?case by (simp add: pairs_up_Cons)
qed (simp_all add: pairs_up_Cons)

lemmas diff_ops_sides = trace_sides [of "length os" os "length ns" ns "[]" for os ns, simplified, folded diff_ops_def]

lemma diff_ops_kept: "length (kept_pairs (diff_ops os ns)) = fst (cell os ns (length os) (length ns))" "(x, y) \<in> set (kept_pairs (diff_ops os ns)) \<Longrightarrow> x = y"
  using trace_kept [of "length os" os "length ns" ns "[]"] by (auto simp: diff_ops_def)

lemma diff_ops_never_pair_up: "\<not> pairs_up (diff_ops os ns)"
  using trace_never_pairs_up [of "length os" os "length ns" ns "[]"] by (simp add: diff_ops_def)

lemma compute_line_diff_small:
  "diff_ops os ns = ops \<Longrightarrow> length os \<le> 10 \<Longrightarrow> length ns \<le> 10 \<Longrightarrow> compute_line_diff os ns = Some ops"
  using mult_le_mono [of "length os" 10 "length ns" 10]
  by (simp add: compute_line_diff_def too_large_def LINE_DIFF_MAX_CELLS_def LINE_DIFF_MAX_SIDE_def)

text \<open>
  C13. A line diff that is computed is one of the old lines to the new lines, keeps only lines that are
  the same on both sides, and keeps as many as any common subsequence of the two could.
\<close>
theorem line_diff_keeps_all_it_can:
  assumes "compute_line_diff os ns = Some ops"
  shows "old_side ops = os \<and> new_side ops = ns \<and> (\<forall>(x, y) \<in> set (kept_pairs ops). x = y) \<and>
    (\<forall>zs. subseq zs os \<and> subseq zs ns \<longrightarrow> length zs \<le> length (kept_pairs ops))"
proof -
  from assms have ops: "ops = diff_ops os ns" by (simp add: compute_line_diff_def split: if_splits)
  show ?thesis
    using cell_bounds_common [of "length os" os "length ns" ns] by (auto simp: ops diff_ops_sides diff_ops_kept)
qed

lemma line_diff_keeps_all_it_can_witness:
  "length (kept_pairs (the (compute_line_diff [''a'', ''b'', ''c''] [''b'', ''x'', ''c'']))) \<ge> length [''b'', ''c'']"
proof -
  obtain ops where ops: "compute_line_diff [''a'', ''b'', ''c''] [''b'', ''x'', ''c''] = Some ops"
    by (simp add: compute_line_diff_def too_large_def LINE_DIFF_MAX_CELLS_def LINE_DIFF_MAX_SIDE_def)
  have "subseq [''b'', ''c''] [''a'', ''b'', ''c'']" "subseq [''b'', ''c''] [''b'', ''x'', ''c'']" by simp_all
  with line_diff_keeps_all_it_can [OF ops] ops show ?thesis by auto
qed

section \<open>The characters of two lines\<close>

fun op_texts :: "char_op \<Rightarrow> string \<times> string" where
  "op_texts (EqualText t) = (t, t)"
| "op_texts (InsertText t) = ([], t)"
| "op_texts (DeleteText t) = (t, [])"

definition ops_texts :: "char_op list \<Rightarrow> string \<times> string" where
  "ops_texts ops = (concat (map (fst \<circ> op_texts) ops), concat (map (snd \<circ> op_texts) ops))"

fun op_kind :: "char_op \<Rightarrow> nat" where
  "op_kind (EqualText t) = 0"
| "op_kind (InsertText t) = 1"
| "op_kind (DeleteText t) = 2"

lemma add_char_op_texts: "ops_texts (add_char_op ops x) = ops_texts (ops @ [x])"
  by (induction ops x rule: add_char_op.induct) (auto simp: ops_texts_def)

lemma merge_char_ops_texts: "ops_texts (merge_char_ops ops) = ops_texts ops"
proof -
  have "ops_texts (foldl add_char_op acc ops) = ops_texts (acc @ ops)" for acc
  proof (induction ops arbitrary: acc)
    case (Cons x ops)
    show ?case using Cons [of "add_char_op acc x"] add_char_op_texts [of acc x] by (simp add: ops_texts_def)
  qed simp
  then show ?thesis by (simp add: merge_char_ops_def)
qed

lemma char_ops_texts: "\<forall>(x, y) \<in> set (kept_pairs ops). x = y \<Longrightarrow> ops_texts (map char_op_of ops) = (old_side ops, new_side ops)"
  by (induction ops rule: old_side.induct) (auto simp: ops_texts_def char_op_of_def)

text \<open>Joining runs keeps the texts of both lines, and no two steps of the same kind stand side by side.\<close>

lemma add_char_op_alternates:
  "successively (\<lambda>x y. op_kind x \<noteq> op_kind y) ops \<Longrightarrow> successively (\<lambda>x y. op_kind x \<noteq> op_kind y) (add_char_op ops x)"
  "ops \<noteq> [] \<Longrightarrow> add_char_op ops x \<noteq> [] \<and> op_kind (hd (add_char_op ops x)) = op_kind (hd ops)"
  by (induction ops x rule: add_char_op.induct) (auto simp: successively_Cons)

theorem char_diff_reads_back:
  assumes "compute_char_diff s t = Some ops"
  shows "ops_texts ops = (s, t) \<and> successively (\<lambda>x y. op_kind x \<noteq> op_kind y) ops"
proof -
  have ops: "ops = merge_char_ops (map char_op_of (diff_ops s t))" using assms by (simp add: compute_char_diff_def split: if_splits)
  have "successively (\<lambda>x y. op_kind x \<noteq> op_kind y) (foldl add_char_op acc xs)"
    if "successively (\<lambda>x y. op_kind x \<noteq> op_kind y) acc" for acc xs
    using that by (induction xs arbitrary: acc) (simp_all add: add_char_op_alternates(1))
  from this [of "[]"] show ?thesis
    using char_ops_texts [of "diff_ops s t"] diff_ops_kept(2) [of _ _ s t]
    by (auto simp: ops merge_char_ops_def merge_char_ops_texts [unfolded merge_char_ops_def] diff_ops_sides)
qed

end
