(* ===== verification/Js_Json.thy ===== *)
theory Js_Json
  imports Js_Base
begin

text \<open>
  JSON values as the admin UI holds them, and the JavaScript operations on them: truthiness,
  \<open>String(v)\<close>, member access, \<open>JSON.stringify\<close>.

  An object is its list of members in insertion order, as \<open>JSON.parse\<close> builds it (its keys are
  distinct, and none looks like an array index). A number is an integer: every number of the
  config and of the API bodies read here is one. \<open>undefined\<close> is the \<open>None\<close> of a
  \<open>json option\<close>.
\<close>

datatype json =
    JNull
  | JBool bool
  | JNum int
  | JStr string
  | JArr "json list"
  | JObj "(string \<times> json) list"

type_synonym jsval = "json option"

section \<open>Truthiness and conversion to text\<close>

fun truthy_json :: "json \<Rightarrow> bool" where
  "truthy_json JNull = False"
| "truthy_json (JBool b) = b"
| "truthy_json (JNum n) = (n \<noteq> 0)"
| "truthy_json (JStr s) = (s \<noteq> [])"
| "truthy_json (JArr xs) = True"
| "truthy_json (JObj kvs) = True"

definition truthy :: "jsval \<Rightarrow> bool" where
  "truthy v = (case v of None \<Rightarrow> False | Some j \<Rightarrow> truthy_json j)"

text \<open>\<open>String(v)\<close>; an array joins its elements with commas, null ones as nothing.\<close>

primrec js_string :: "json \<Rightarrow> string" where
  "js_string JNull = ''null''"
| "js_string (JBool b) = (if b then ''true'' else ''false'')"
| "js_string (JNum n) = show_int n"
| "js_string (JStr s) = s"
| "js_string (JArr xs) =
     join '','' (map (\<lambda>(x, s). if x = JNull then [] else s) (zip xs (map js_string xs)))"
| "js_string (JObj kvs) = ''[object Object]''"

text \<open>\<open>v || d\<close> and the idiom \<open>String(v || "")\<close>.\<close>

definition js_or :: "jsval \<Rightarrow> jsval \<Rightarrow> jsval" where
  "js_or v d = (if truthy v then v else d)"

definition str_or_empty :: "jsval \<Rightarrow> string" where
  "str_or_empty v = (if truthy v then (case v of Some j \<Rightarrow> js_string j | None \<Rightarrow> []) else [])"

text \<open>\<open>String(v ?? "")\<close>: only null and undefined read as nothing.\<close>

definition str_or_nothing :: "jsval \<Rightarrow> string" where
  "str_or_nothing v = (case v of None \<Rightarrow> [] | Some JNull \<Rightarrow> [] | Some j \<Rightarrow> js_string j)"

lemma str_or_empty_None [simp]: "str_or_empty None = []"
  by (simp add: str_or_empty_def truthy_def)

lemma str_or_empty_JStr [simp]: "str_or_empty (Some (JStr s)) = s"
  by (simp add: str_or_empty_def truthy_def)

section \<open>Objects\<close>

fun put_key :: "string \<Rightarrow> 'a \<Rightarrow> (string \<times> 'a) list \<Rightarrow> (string \<times> 'a) list" where
  "put_key k v [] = [(k, v)]"
| "put_key k v ((k', v') # kvs) = (if k' = k then (k, v) # kvs else (k', v') # put_key k v kvs)"

definition del_key :: "string \<Rightarrow> (string \<times> 'a) list \<Rightarrow> (string \<times> 'a) list" where
  "del_key k kvs = filter (\<lambda>(k', _). k' \<noteq> k) kvs"

lemma map_of_put_key [simp]: "map_of (put_key k v kvs) = (map_of kvs)(k \<mapsto> v)"
  by (induction kvs) (auto simp: fun_eq_iff)

lemma map_of_del_key: "map_of (del_key k kvs) = (map_of kvs)(k := None)"
  by (induction kvs) (auto simp: fun_eq_iff del_key_def)

lemma keys_put_key:
  "map fst (put_key k v kvs) = (if k \<in> fst ` set kvs then map fst kvs else map fst kvs @ [k])"
  by (induction kvs) force+

lemma distinct_put_key: "distinct (map fst kvs) \<Longrightarrow> distinct (map fst (put_key k v kvs))"
  by (simp add: keys_put_key)

lemma distinct_del_key: "distinct (map fst kvs) \<Longrightarrow> distinct (map fst (del_key k kvs))"
  unfolding del_key_def by (rule distinct_map_filter)

text \<open>\<open>v.k\<close> for a \<open>v\<close> that is neither null nor undefined: only an object has the members read here.\<close>

fun member_json :: "json \<Rightarrow> string \<Rightarrow> jsval" where
  "member_json (JObj kvs) k = map_of kvs k"
| "member_json _ k = None"

definition keys_json :: "json \<Rightarrow> string list" where
  "keys_json v = (case v of JObj kvs \<Rightarrow> map fst kvs | _ \<Rightarrow> [])"

text \<open>\<open>{...v, k: x}\<close>.\<close>

definition with_key :: "json \<Rightarrow> string \<Rightarrow> json \<Rightarrow> json" where
  "with_key v k x = (case v of JObj kvs \<Rightarrow> JObj (put_key k x kvs) | _ \<Rightarrow> JObj [(k, x)])"

definition is_array :: "jsval \<Rightarrow> bool" where
  "is_array v = (case v of Some (JArr _) \<Rightarrow> True | _ \<Rightarrow> False)"

definition is_string :: "jsval \<Rightarrow> bool" where
  "is_string v = (case v of Some (JStr _) \<Rightarrow> True | _ \<Rightarrow> False)"

definition is_boolean :: "jsval \<Rightarrow> bool" where
  "is_boolean v = (case v of Some (JBool _) \<Rightarrow> True | _ \<Rightarrow> False)"

text \<open>\<open>v == null\<close>.\<close>

definition is_nullish :: "jsval \<Rightarrow> bool" where
  "is_nullish v = (v = None \<or> v = Some JNull)"

text \<open>Distinct keys at every level: what \<open>JSON.parse\<close> returns.\<close>

primrec wf_json :: "json \<Rightarrow> bool" where
  "wf_json JNull = True"
| "wf_json (JBool b) = True"
| "wf_json (JNum n) = True"
| "wf_json (JStr s) = True"
| "wf_json (JArr xs) = list_all id (map wf_json xs)"
| "wf_json (JObj kvs) = (distinct (map fst kvs) \<and> list_all snd (map (map_prod id wf_json) kvs))"

section \<open>\<open>JSON.stringify\<close>\<close>

definition hex_char :: "nat \<Rightarrow> char" where
  "hex_char n = (if n < 10 then digit_char n else char_of (87 + n))"

definition hex_val :: "char \<Rightarrow> nat" where
  "hex_val c = (let n = of_char c :: nat in if n < 58 then n - 48 else n - 87)"

definition esc_char :: "char \<Rightarrow> string" where
  "esc_char c = (let n = of_char c :: nat in
     if c = CHR 0x22 \<or> c = CHR 0x5C then [CHR 0x5C, c]
     else if c = CHR 0x08 then [CHR 0x5C, CHR ''b'']
     else if c = CHR 0x0C then [CHR 0x5C, CHR ''f'']
     else if c = CHR 0x0A then [CHR 0x5C, CHR ''n'']
     else if c = CHR 0x0D then [CHR 0x5C, CHR ''r'']
     else if c = CHR 0x09 then [CHR 0x5C, CHR ''t'']
     else if n < 32 then [CHR 0x5C, CHR ''u'', CHR ''0'', CHR ''0'', hex_char (n div 16), hex_char (n mod 16)]
     else [c])"

definition quote_str :: "string \<Rightarrow> string" where
  "quote_str s = CHR 0x22 # concat (map esc_char s) @ [CHR 0x22]"

primrec stringify :: "json \<Rightarrow> string" where
  "stringify JNull = ''null''"
| "stringify (JBool b) = (if b then ''true'' else ''false'')"
| "stringify (JNum n) = show_int n"
| "stringify (JStr s) = quote_str s"
| "stringify (JArr xs) = CHR ''['' # join '','' (map stringify xs) @ '']''"
| "stringify (JObj kvs) = CHR ''{'' #
     join '','' (map (\<lambda>(k, s). quote_str k @ CHR '':'' # s) (map (map_prod id stringify) kvs)) @ ''}''"


text \<open>
  A serialised value can be read back from the front of any text that goes on with a
  separator, so \<open>JSON.stringify\<close> never gives two values the same text.
\<close>

fun unesc :: "string \<Rightarrow> (char \<times> string) option" where
  "unesc [] = None"
| "unesc (c # r) =
     (if c \<noteq> CHR 0x5C then Some (c, r)
      else (case r of
          [] \<Rightarrow> None
        | e # r' \<Rightarrow>
            if e = CHR ''b'' then Some (CHR 0x08, r')
            else if e = CHR ''f'' then Some (CHR 0x0C, r')
            else if e = CHR ''n'' then Some (CHR 0x0A, r')
            else if e = CHR ''r'' then Some (CHR 0x0D, r')
            else if e = CHR ''t'' then Some (CHR 0x09, r')
            else if e = CHR ''u'' then
              (case r' of _ # _ # h # l # r'' \<Rightarrow> Some (char_of (16 * hex_val h + hex_val l), r'') | _ \<Rightarrow> None)
            else Some (e, r')))"

lemma hex_val_hex_char [simp]: "n < 16 \<Longrightarrow> hex_val (hex_char n) = n"
  by (auto simp: hex_val_def hex_char_def digit_char_def Let_def)

lemma unesc_esc_char [simp]: "unesc (esc_char c @ r) = Some (c, r)"
proof -
  have 16: "n < 32 \<Longrightarrow> n div 16 < 16" for n :: nat by simp
  show ?thesis by (auto simp: esc_char_def Let_def 16)
qed

lemma esc_char_not_quote: "esc_char c = e # r \<Longrightarrow> e \<noteq> CHR 0x22"
  by (auto simp: esc_char_def Let_def split: if_splits)

lemma esc_char_nonempty [simp]: "esc_char c \<noteq> []"
  by (simp add: esc_char_def Let_def)

lemma esc_chars_prefix_free:
  "concat (map esc_char s) @ CHR 0x22 # r = concat (map esc_char t) @ CHR 0x22 # u \<Longrightarrow> s = t \<and> r = u"
proof (induction s arbitrary: t)
  case Nil
  then show ?case
  proof (cases t)
    case (Cons d t')
    obtain e x where e: "esc_char d = e # x" by (cases "esc_char d") auto
    with Nil Cons have "e = CHR 0x22" by simp
    with esc_char_not_quote [OF e] show ?thesis by simp
  qed simp
next
  case (Cons c s)
  show ?case
  proof (cases t)
    case Nil
    obtain e x where e: "esc_char c = e # x" by (cases "esc_char c") auto
    with Cons.prems Nil have "e = CHR 0x22" by simp
    with esc_char_not_quote [OF e] show ?thesis by simp
  next
    case (Cons d t')
    from Cons.prems Cons
    have eq: "esc_char c @ (concat (map esc_char s) @ CHR 0x22 # r)
        = esc_char d @ (concat (map esc_char t') @ CHR 0x22 # u)" by simp
    then have "Some (c, concat (map esc_char s) @ CHR 0x22 # r)
        = Some (d, concat (map esc_char t') @ CHR 0x22 # u)" by (metis unesc_esc_char)
    then have "c = d" and "concat (map esc_char s) @ CHR 0x22 # r = concat (map esc_char t') @ CHR 0x22 # u"
      by simp_all
    with Cons.IH [of t'] Cons show ?thesis by simp
  qed
qed

lemma quote_str_prefix_free: "quote_str s @ r = quote_str t @ u \<longleftrightarrow> s = t \<and> r = u"
  using esc_chars_prefix_free [of s r t u] by (auto simp: quote_str_def)


text \<open>What may follow a value inside a serialised text.\<close>

definition ends_value :: "string \<Rightarrow> bool" where
  "ends_value r \<longleftrightarrow> (case r of [] \<Rightarrow> True | c # _ \<Rightarrow> c \<in> {CHR '','', CHR '']'', CHR ''}''})"

lemma ends_value_simps [simp]:
  "ends_value []" "ends_value (CHR '','' # r)" "ends_value (CHR '']'' # r)" "ends_value (CHR ''}'' # r)"
  by (simp_all add: ends_value_def)

lemma takeWhile_digits: "ends_value r \<Longrightarrow> takeWhile is_digit (show_nat n @ r) = show_nat n"
  using show_nat_digits [of n]
  by (auto simp: takeWhile_append ends_value_def is_digit_def Let_def split: list.splits)

lemma minus_not_digit [simp]: "\<not> is_digit (CHR ''-'')"
  by (simp add: is_digit_def Let_def)

lemma show_nat_prefix_free:
  "ends_value r \<Longrightarrow> ends_value u \<Longrightarrow> show_nat m @ r = show_nat n @ u \<Longrightarrow> m = n \<and> r = u"
  by (metis takeWhile_digits show_nat_inject same_append_eq)

lemma show_int_prefix_free:
  assumes "ends_value r" "ends_value u" "show_int i @ r = show_int j @ u"
  shows "i = j \<and> r = u"
proof -
  have nd: "CHR ''-'' # x \<noteq> show_nat n @ y" for x y n
  proof
    assume "CHR ''-'' # x = show_nat n @ y"
    then have "hd (show_nat n) = CHR ''-''" by (metis hd_append2 list.sel(1) show_nat_nonempty)
    with hd_show_nat [of n] show False by simp
  qed
  note pf = show_nat_prefix_free [OF assms(1,2)]
  show ?thesis
  proof (cases "i < 0")
    case True
    with assms(3) nd have "j < 0" by (metis append_Cons show_int_def)
    with True assms(3) pf [of "nat (- i)" "nat (- j)"] show ?thesis by (auto simp: show_int_def)
  next
    case False
    with assms(3) nd have "\<not> j < 0" by (metis append_Cons show_int_def)
    with False assms(3) pf [of "nat i" "nat j"] show ?thesis by (auto simp: show_int_def)
  qed
qed

fun first_char :: "json \<Rightarrow> char" where
  "first_char JNull = CHR ''n''"
| "first_char (JBool b) = (if b then CHR ''t'' else CHR ''f'')"
| "first_char (JNum n) = hd (show_int n)"
| "first_char (JStr s) = CHR 0x22"
| "first_char (JArr xs) = CHR ''[''"
| "first_char (JObj kvs) = CHR ''{''"

lemma stringify_first: "\<exists>t. stringify v = first_char v # t"
proof (cases v)
  case (JNum n)
  then show ?thesis by (cases "show_int n") (auto simp: show_int_def split: if_splits)
qed (auto simp: quote_str_def)

lemma first_char_num: "c = hd (show_int n) \<Longrightarrow> c = CHR ''-'' \<or> is_digit c"
  using hd_show_nat by (auto simp: show_int_def)

lemma first_char_not_close [simp]:
  "first_char v \<noteq> CHR '']''" "first_char v \<noteq> CHR ''}''" "first_char v \<noteq> CHR '',''"
  by (cases v; auto simp: is_digit_def Let_def dest!: first_char_num [OF sym])+

definition prefix_free :: "('a \<Rightarrow> string) \<Rightarrow> 'a \<Rightarrow> bool" where
  "prefix_free f x \<longleftrightarrow> (\<forall>y r u. ends_value r \<longrightarrow> ends_value u \<longrightarrow> f x @ r = f y @ u \<longrightarrow> x = y \<and> r = u)"

lemma join_prefix_free:
  assumes "\<And>x. x \<in> set xs \<Longrightarrow> prefix_free f x"
    and ne: "\<And>y. f y \<noteq> [] \<and> hd (f y) \<noteq> c" and c: "c = CHR '']'' \<or> c = CHR ''}''"
    and "join '','' (map f xs) @ c # r = join '','' (map f ys) @ c # u"
  shows "xs = ys \<and> r = u"
  using assms(1,4)
proof (induction xs arbitrary: ys)
  case Nil
  then show ?case
  proof (cases ys)
    case (Cons y ys')
    then have "hd (join '','' (map f ys)) = hd (f y)" "join '','' (map f ys) \<noteq> []"
      using ne [of y] by (cases ys'; simp)+
    with Nil ne [of y] show ?thesis by (metis hd_append2 join.simps(1) list.map(1) list.sel(1) append_Nil)
  qed simp
next
  case (Cons x xs)
  have pf: "prefix_free f x" using Cons.prems by simp
  have ends: "ends_value (c # v)" for v using c by auto
  have hdx: "hd (join '','' (map f (x # xs)) @ v) = hd (f x)" for v
    using ne [of x] by (cases xs) auto
  show ?case
  proof (cases ys)
    case Nil
    with Cons.prems hdx [of "c # r"] ne [of x] show ?thesis by simp
  next
    case ys: (Cons y ys')
    define restx where "restx = (case xs of [] \<Rightarrow> c # r | _ \<Rightarrow> CHR '','' # join '','' (map f xs) @ c # r)"
    define resty where "resty = (case ys' of [] \<Rightarrow> c # u | _ \<Rightarrow> CHR '','' # join '','' (map f ys') @ c # u)"
    have "f x @ restx = f y @ resty"
      using Cons.prems(2) ys by (cases xs; cases ys') (simp_all add: restx_def resty_def)
    moreover have "ends_value restx" "ends_value resty"
      using ends by (auto simp: restx_def resty_def split: list.splits)
    ultimately have xy: "x = y" and "restx = resty" using pf by (auto simp: prefix_free_def)
    then have "(xs = [] \<longleftrightarrow> ys' = []) \<and> join '','' (map f xs) @ c # r = join '','' (map f ys') @ c # u"
      using c by (cases xs; cases ys') (auto simp: restx_def resty_def)
    with Cons.IH [of ys'] Cons.prems(1) xy ys show ?thesis by simp
  qed
qed


text \<open>The first character tells the kind of value.\<close>

lemma first_char_kind:
  "first_char w = CHR ''n'' \<Longrightarrow> w = JNull"
  "first_char w = CHR ''t'' \<Longrightarrow> w = JBool True"
  "first_char w = CHR ''f'' \<Longrightarrow> w = JBool False"
  "first_char w = CHR 0x22 \<Longrightarrow> \<exists>t. w = JStr t"
  "first_char w = CHR ''['' \<Longrightarrow> \<exists>ys. w = JArr ys"
  "first_char w = CHR ''{'' \<Longrightarrow> \<exists>ms. w = JObj ms"
  by (cases w; auto simp: is_digit_def Let_def dest!: first_char_num [OF sym] split: if_splits)+

lemma first_char_kind_num: "first_char w = hd (show_int n) \<Longrightarrow> \<exists>m. w = JNum m"
  by (drule first_char_num) (cases w; auto simp: is_digit_def Let_def split: if_splits)

lemma stringify_append_first: "stringify v @ r = stringify w @ u \<Longrightarrow> first_char w = first_char v"
  by (metis append_Cons list.sel(1) stringify_first)

lemma prefix_freeI:
  "(\<And>w r u. ends_value r \<Longrightarrow> ends_value u \<Longrightarrow> first_char w = first_char v \<Longrightarrow>
     stringify v @ r = stringify w @ u \<Longrightarrow> v = w \<and> r = u) \<Longrightarrow> prefix_free stringify v"
  unfolding prefix_free_def using stringify_append_first by blast

lemma prefix_free_scalar:
  "prefix_free stringify JNull" "prefix_free stringify (JBool b)"
  "prefix_free stringify (JNum n)" "prefix_free stringify (JStr s)"
proof -
  show "prefix_free stringify JNull"
    by (rule prefix_freeI) (use first_char_kind(1) in fastforce)
  show "prefix_free stringify (JBool b)"
    by (rule prefix_freeI) (use first_char_kind(2,3) in \<open>fastforce split: if_splits\<close>)
  show "prefix_free stringify (JStr s)"
    by (rule prefix_freeI) (auto dest!: first_char_kind(4) simp: quote_str_prefix_free)
  show "prefix_free stringify (JNum n)"
  proof (rule prefix_freeI)
    fix w r u
    assume e: "ends_value r" "ends_value u" and f: "first_char w = first_char (JNum n)"
      and eq: "stringify (JNum n) @ r = stringify w @ u"
    from f obtain m where w: "w = JNum m" using first_char_kind_num by auto
    with eq show_int_prefix_free [OF e, of n m] show "JNum n = w \<and> r = u" by simp
  qed
qed

lemma prefix_free_array:
  assumes "\<And>x. x \<in> set xs \<Longrightarrow> prefix_free stringify x"
  shows "prefix_free stringify (JArr xs)"
proof (rule prefix_freeI)
  have ne: "stringify y \<noteq> [] \<and> hd (stringify y) \<noteq> CHR '']''" for y
    using stringify_first [of y] first_char_not_close(1) [of y] by auto
  fix w r u
  assume "first_char w = first_char (JArr xs)" and eq: "stringify (JArr xs) @ r = stringify w @ u"
  then obtain ys where w: "w = JArr ys" using first_char_kind(5) by auto
  with eq join_prefix_free [of xs stringify "CHR '']''" r ys u] assms ne
  show "JArr xs = w \<and> r = u" by simp
qed

lemma prefix_free_object:
  assumes "\<And>k v. (k, v) \<in> set kvs \<Longrightarrow> prefix_free stringify v"
  shows "prefix_free stringify (JObj kvs)"
proof (rule prefix_freeI)
  let ?f = "\<lambda>(k, v). quote_str k @ CHR '':'' # stringify v"
  have map_eq: "map (\<lambda>(k, s). quote_str k @ CHR '':'' # s) (map (map_prod id stringify) ms) = map ?f ms" for ms
    by auto
  have ne: "?f y \<noteq> [] \<and> hd (?f y) \<noteq> CHR ''}''" for y
    by (cases y) (simp add: quote_str_def)
  have pf: "prefix_free ?f x" if "x \<in> set kvs" for x
    using assms [of "fst x" "snd x"] that by (cases x) (auto simp: prefix_free_def quote_str_prefix_free)
  fix w r u
  assume "first_char w = first_char (JObj kvs)" and eq: "stringify (JObj kvs) @ r = stringify w @ u"
  then obtain ms where w: "w = JObj ms" using first_char_kind(6) by auto
  with eq have "join '','' (map ?f kvs) @ CHR ''}'' # r = join '','' (map ?f ms) @ CHR ''}'' # u"
    by (simp only: stringify.simps map_eq) simp
  with join_prefix_free [of kvs ?f "CHR ''}''" r ms u] pf ne w
  show "JObj kvs = w \<and> r = u" by simp
qed

lemma stringify_prefix_free: "prefix_free stringify v"
proof (induction v)
  case (JArr xs)
  then show ?case by (rule prefix_free_array)
next
  case (JObj kvs)
  show ?case by (rule prefix_free_object) (auto intro: JObj)
qed (rule prefix_free_scalar)+

text \<open>\<open>JSON.stringify\<close> is injective on JSON values.\<close>

lemma stringify_inject [simp]: "stringify v = stringify w \<longleftrightarrow> v = w"
proof
  assume "stringify v = stringify w"
  then have "stringify v @ [] = stringify w @ []" by simp
  then show "v = w" using stringify_prefix_free [of v] ends_value_simps(1) unfolding prefix_free_def by blast
qed simp

lemma stringify_not_null [simp]: "stringify v = ''null'' \<longleftrightarrow> v = JNull"
  using stringify_inject [of v JNull] by simp

end
