(* ===== verification/Text_Output.thy ===== *)
theory Text_Output
  imports Js_Json Complex_Main
begin

text \<open>
  What the UI writes out: HTML escaping, shortened text and the CSV exports of \<open>core/dom.js\<close>,
  and the wording of \<open>core/format.js\<close>. The locale-dependent number and date formats of the
  browser are left as the value they are given (\<open>rel_time\<close>, a size with its unit).
\<close>

section \<open>Escaping and shortening (dom.js)\<close>

definition escape_html :: "string \<Rightarrow> string" where
  "escape_html s =
     replace_char (CHR ''/'') ''&#47;''
       (replace_char (CHR 0x27) ''&#39;''
         (replace_char (CHR 0x22) ''&quot;''
           (replace_char (CHR ''>'') ''&gt;''
             (replace_char (CHR ''<'') ''&lt;''
               (replace_char (CHR ''&'') ''&amp;'' s)))))"

text \<open>\<open>s.slice(-k)\<close> is the whole text for \<open>k = 0\<close>.\<close>

definition slice_end :: "nat \<Rightarrow> string \<Rightarrow> string" where
  "slice_end k s = (if k = 0 then s else drop (length s - k) s)"

definition trunc :: "string \<Rightarrow> nat \<Rightarrow> string" where
  "trunc s n = (if length s \<le> n then s
     else take (n div 2) s @ ellipsis @ slice_end (n div 3) s)"

section \<open>CSV exports (dom.js)\<close>

definition csv_special :: "char \<Rightarrow> bool" where
  "csv_special c \<longleftrightarrow> c = CHR 0x22 \<or> c = CHR '','' \<or> c = CHR 0x0A \<or> c = CHR 0x0D"

definition csv_escape_cell :: "string \<Rightarrow> string" where
  "csv_escape_cell t = (if list_ex csv_special t
     then CHR 0x22 # replace_char (CHR 0x22) [CHR 0x22, CHR 0x22] t @ [CHR 0x22] else t)"

definition csv_rows :: "string list list \<Rightarrow> string" where
  "csv_rows rows = join [CHR 0x0A] (map (\<lambda>r. join '','' (map csv_escape_cell r)) rows) @ [CHR 0x0A]"

definition text_or_empty :: "jsval \<Rightarrow> string" where
  "text_or_empty v = str_or_nothing (js_or v (Some (JStr [])))"

definition event_row :: "json \<Rightarrow> string list" where
  "event_row e = map (\<lambda>k. text_or_empty (member_json e k)) [''ts'', ''event'', ''detail'', ''error_code'']"

definition events_to_csv :: "json list \<Rightarrow> string" where
  "events_to_csv events = csv_rows ([''ts'', ''event'', ''detail'', ''error_code''] # map event_row events)"

definition metrics_peer_row :: "json \<Rightarrow> string list" where
  "metrics_peer_row p =
     [text_or_empty (member_json p ''name''),
      text_or_empty (member_json p ''tunnel_ip''),
      (if member_json p ''ok'' = Some (JBool True) then ''true''
       else if member_json p ''ok'' = Some (JBool False) then ''false'' else []),
      str_or_nothing (member_json p ''latency_ms''),
      text_or_empty (member_json p ''ts_utc'')]"

definition metrics_peers_to_csv :: "json list \<Rightarrow> string" where
  "metrics_peers_to_csv peers =
     csv_rows ([''name'', ''tunnel_ip'', ''ok'', ''latency_ms'', ''ts_utc''] # map metrics_peer_row peers)"

section \<open>Rate limit fields (dom.js)\<close>

text \<open>\<open>parseInt(s, 10)\<close>: leading white space, a sign, then as many digits as there are.\<close>

definition parse_int :: "string \<Rightarrow> int option" where
  "parse_int s = (let t = trim_start s;
       neg = (t \<noteq> [] \<and> hd t = CHR ''-'');
       u = (if t \<noteq> [] \<and> (hd t = CHR ''-'' \<or> hd t = CHR ''+'') then tl t else t);
       ds = takeWhile is_digit u in
     if ds = [] then None else Some ((if neg then -1 else 1) * int (parse_digits ds)))"

text \<open>The form's inputs by element id; a missing element is \<open>None\<close>.\<close>

type_synonym inputs = "string \<Rightarrow> string option"

definition read_rate_limit_field :: "inputs \<Rightarrow> string \<Rightarrow> int \<Rightarrow> int" where
  "read_rate_limit_field f fid mx = (case f fid of
     None \<Rightarrow> 0
   | Some v \<Rightarrow> (let raw = trim v in
       if raw = [] then 0
       else (case parse_int raw of
           None \<Rightarrow> 0
         | Some n \<Rightarrow> if n < 0 then 0 else if mx > 0 \<and> n > mx then mx else n)))"

record rate_limit =
  tcp_syn_per_second :: int
  max_conn_per_ip :: int
  udp_per_second :: int

text \<open>A field the object leaves out is 0, as \<open>o.tcp_syn_per_second || 0\<close> reads it.\<close>

definition rate_prefix :: "string \<Rightarrow> string" where
  "rate_prefix p = (if p = ''route'' then ''route-f-rate-'' else ''geo-f-rate-'')"

definition write_field :: "string \<Rightarrow> int \<Rightarrow> inputs \<Rightarrow> inputs" where
  "write_field fid val f = (case f fid of None \<Rightarrow> f
     | Some _ \<Rightarrow> f(fid \<mapsto> (if val > 0 then show_int val else [])))"

definition write_rate_limit_fields :: "string \<Rightarrow> rate_limit option \<Rightarrow> inputs \<Rightarrow> inputs" where
  "write_rate_limit_fields pfx rl f = (let
       g = (\<lambda>sel. case rl of None \<Rightarrow> 0 | Some r \<Rightarrow> sel r) in
     write_field (rate_prefix pfx @ ''udp'') (g udp_per_second)
       (write_field (rate_prefix pfx @ ''max-conn'') (g max_conn_per_ip)
         (write_field (rate_prefix pfx @ ''tcp-syn'') (g tcp_syn_per_second) f)))"

definition read_rate_limit_from_form :: "string \<Rightarrow> inputs \<Rightarrow> rate_limit option" where
  "read_rate_limit_from_form pfx f = (let
       tcp = read_rate_limit_field f (rate_prefix pfx @ ''tcp-syn'') 10000;
       mc = read_rate_limit_field f (rate_prefix pfx @ ''max-conn'') 65535;
       udp = read_rate_limit_field f (rate_prefix pfx @ ''udp'') 100000 in
     if tcp = 0 \<and> mc = 0 \<and> udp = 0 then None
     else Some \<lparr>tcp_syn_per_second = tcp, max_conn_per_ip = mc, udp_per_second = udp\<rparr>)"

definition client_ip_source_label :: "string \<Rightarrow> string" where
  "client_ip_source_label src =
     (if src = ''direct'' then ''direct'' else if src = ''xff'' then ''via proxy header'' else ''unknown'')"

section \<open>Times, sizes and wording (format.js)\<close>

definition MINUTE_MS :: int where "MINUTE_MS = 60 * 1000"
definition HOUR_MS :: int where "HOUR_MS = 60 * MINUTE_MS"
definition DAY_MS :: int where "DAY_MS = 24 * HOUR_MS"
definition WEEK_MS :: int where "WEEK_MS = 7 * DAY_MS"

datatype time_unit = Minute | Hour | Day
datatype rel_time = AbsoluteDate | JustNow | Relative int time_unit

definition format_relative_time :: "int \<Rightarrow> int \<Rightarrow> rel_time" where
  "format_relative_time date now = (let age = now - date in
     if age \<ge> WEEK_MS then AbsoluteDate
     else if age < MINUTE_MS then JustNow
     else if age < HOUR_MS then Relative (- (age div MINUTE_MS)) Minute
     else if age < DAY_MS then Relative (- (age div HOUR_MS)) Hour
     else Relative (- (age div DAY_MS)) Day)"

definition BYTE_UNITS :: "string list" where
  "BYTE_UNITS = [''B'', ''KiB'', ''MiB'', ''GiB'', ''TiB'', ''PiB'']"

text \<open>The loop of \<open>formatBytes\<close>, from a size and the index of its unit.\<close>

function scale_bytes :: "rat \<Rightarrow> nat \<Rightarrow> rat \<times> nat" where
  "scale_bytes sz unit =
     (if sz \<ge> 1024 \<and> unit < length BYTE_UNITS - 1 then scale_bytes (sz / 1024) (unit + 1)
      else (sz, unit))"
  by pat_completeness auto
termination
  by (relation "measure (\<lambda>(_, u). length BYTE_UNITS - u)") auto

declare scale_bytes.simps [simp del]

text \<open>\<open>None\<close> stands for a missing or non-finite number, which reads as a dash.\<close>

definition format_bytes :: "rat option \<Rightarrow> (rat \<times> string) option" where
  "format_bytes v = (case v of None \<Rightarrow> None
     | Some n \<Rightarrow> (let (sz, unit) = scale_bytes n 0 in Some (sz, BYTE_UNITS ! unit)))"

definition EVENT_LABELS :: "(string \<times> string) list" where
  "EVENT_LABELS =
    [(''reload_started'', ''Apply started''), (''reload_ok'', ''Applied config''),
     (''reload_failed'', ''Apply failed''), (''apply_confirmed'', ''Kept applied config''),
     (''apply_reverted'', ''Reverted Apply''), (''apply_revert_failed'', ''Revert failed''),
     (''config_put_ok'', ''Saved config''), (''config_put_failed'', ''Save failed''),
     (''config_discard_ok'', ''Discarded pending changes''), (''config_discard_failed'', ''Discard failed''),
     (''config_restore_previous_ok'', ''Restored previous config''),
     (''config_restore_previous_failed'', ''Restore of previous config failed''),
     (''update_geo_ok'', ''Updated geo lists''), (''update_geo_failed'', ''Geo list update failed''),
     (''backup_ok'', ''Created backup''), (''backup_failed'', ''Backup failed''),
     (''restore_ok'', ''Restored backup''), (''restore_failed'', ''Backup restore failed''),
     (''route_auto_paused'', ''Route auto-paused''), (''route_auto_resumed'', ''Route auto-resumed'')]"

definition event_label :: "string \<Rightarrow> string" where
  "event_label raw = (case map_of EVENT_LABELS raw of
     Some l \<Rightarrow> l
   | None \<Rightarrow> (let words = replace_char (CHR ''_'') '' '' raw in upper (take 1 words) @ drop 1 words))"

definition event_detail :: "json \<Rightarrow> string" where
  "event_detail e = (if member_json e ''detail'' = Some (JStr ''reload'') then []
     else str_or_empty (member_json e ''detail''))"

definition apply_error_text :: "string \<Rightarrow> string" where
  "apply_error_text message = (if message = ''reload failed'' then ''Apply failed'' else message)"

definition geo_updated_message :: "jsval \<Rightarrow> string" where
  "geo_updated_message res =
     (if truthy res \<and> truthy (member_json (the res) ''geo_changes_held_back'')
      then ''Geo lists updated. Your unapplied geo changes go live when you Apply.''
      else ''Geo lists updated on host'')"

definition geo_source_label :: "string \<Rightarrow> string" where
  "geo_source_label source = (if source = ''reload'' then ''Apply'' else source)"


section \<open>Facts about escaping\<close>

lemma replace_char_append: "replace_char c t (a @ b) = replace_char c t a @ replace_char c t b"
  by (simp add: replace_char_def)

lemma escape_html_Cons: "escape_html (x # s) = escape_html [x] @ escape_html s"
proof -
  have "escape_html ([x] @ s) = escape_html [x] @ escape_html s"
    unfolding escape_html_def replace_char_append ..
  then show ?thesis by simp
qed

lemma escape_html_Nil [simp]: "escape_html [] = []"
  by (simp add: escape_html_def replace_char_def)

lemma escape_html_char:
  "escape_html [x] =
     (if x = CHR ''&'' then ''&amp;'' else if x = CHR ''<'' then ''&lt;'' else if x = CHR ''>'' then ''&gt;''
      else if x = CHR 0x22 then ''&quot;'' else if x = CHR 0x27 then ''&#39;''
      else if x = CHR ''/'' then ''&#47;'' else [x])"
  by (simp add: escape_html_def replace_char_def)

text \<open>What a browser makes of the six entities.\<close>

function html_decode :: "string \<Rightarrow> string" where
  "html_decode [] = []"
| "html_decode (c # r) =
     (if c \<noteq> CHR ''&'' then c # html_decode r
      else if prefix ''amp;'' r then CHR ''&'' # html_decode (drop 4 r)
      else if prefix ''lt;'' r then CHR ''<'' # html_decode (drop 3 r)
      else if prefix ''gt;'' r then CHR ''>'' # html_decode (drop 3 r)
      else if prefix ''quot;'' r then CHR 0x22 # html_decode (drop 5 r)
      else if prefix ''#39;'' r then CHR 0x27 # html_decode (drop 4 r)
      else if prefix ''#47;'' r then CHR ''/'' # html_decode (drop 4 r)
      else c # html_decode r)"
  by pat_completeness auto
termination
  by (relation "measure length") auto

lemma html_decode_escape: "html_decode (escape_html s) = s"
proof (induction s)
  case (Cons x s)
  then show ?case
    by (subst escape_html_Cons) (simp add: escape_html_char)
qed simp

definition html_special :: "char set" where
  "html_special = {CHR ''<'', CHR ''>'', CHR 0x22, CHR 0x27, CHR ''/''}"

lemma escape_html_no_special: "set (escape_html s) \<inter> html_special = {}"
proof (induction s)
  case (Cons x s)
  then show ?case
    by (subst escape_html_Cons) (auto simp: escape_html_char html_special_def split: if_splits)
qed simp

lemma trunc_length: "3 \<le> n \<Longrightarrow> length (trunc s n) \<le> n"
  by (auto simp: trunc_def slice_end_def ellipsis_def)

section \<open>Reading a CSV export back\<close>

text \<open>A reader for CSV with quoted cells and line feeds between rows, independent of the writer.\<close>

datatype csv_mode = Plain | Quoted | Closing

fun csv_read :: "csv_mode \<Rightarrow> string \<Rightarrow> string list \<Rightarrow> string \<Rightarrow> string list list" where
  "csv_read m cell row [] = (if cell = [] \<and> row = [] then [] else [row @ [cell]])"
| "csv_read Plain cell row (c # s) =
     (if c = CHR '','' then csv_read Plain [] (row @ [cell]) s
      else if c = CHR 0x0A then (row @ [cell]) # csv_read Plain [] [] s
      else if c = CHR 0x22 \<and> cell = [] then csv_read Quoted [] row s
      else csv_read Plain (cell @ [c]) row s)"
| "csv_read Quoted cell row (c # s) =
     (if c = CHR 0x22 then csv_read Closing cell row s else csv_read Quoted (cell @ [c]) row s)"
| "csv_read Closing cell row (c # s) =
     (if c = CHR 0x22 then csv_read Quoted (cell @ [c]) row s
      else if c = CHR '','' then csv_read Plain [] (row @ [cell]) s
      else if c = CHR 0x0A then (row @ [cell]) # csv_read Plain [] [] s
      else csv_read Closing (cell @ [c]) row s)"

definition csv_parse :: "string \<Rightarrow> string list list" where
  "csv_parse s = csv_read Plain [] [] s"

lemma csv_read_plain_text:
  "\<not> list_ex csv_special t \<Longrightarrow> csv_read Plain cell row (t @ s) = csv_read Plain (cell @ t) row s"
  by (induction t arbitrary: cell) (auto simp: csv_special_def)

lemma csv_read_quoted_text:
  "csv_read Quoted cell row (replace_char (CHR 0x22) [CHR 0x22, CHR 0x22] t @ CHR 0x22 # s)
     = csv_read Closing (cell @ t) row s"
  by (induction t arbitrary: cell) (auto simp: replace_char_def)

lemma csv_read_cell:
  "csv_read Plain [] row (csv_escape_cell t @ CHR '','' # s) = csv_read Plain [] (row @ [t]) s"
  "csv_read Plain [] row (csv_escape_cell t @ CHR 0x0A # s) = (row @ [t]) # csv_read Plain [] [] s"
  by (cases "list_ex csv_special t";
      simp add: csv_escape_cell_def csv_read_plain_text csv_read_quoted_text)+

lemma csv_read_row:
  "r \<noteq> [] \<Longrightarrow> csv_read Plain [] row (join '','' (map csv_escape_cell r) @ CHR 0x0A # s)
     = (row @ r) # csv_read Plain [] [] s"
proof (induction r arbitrary: row)
  case (Cons t r)
  then show ?case by (cases r) (simp_all add: csv_read_cell)
qed simp

lemma csv_parse_rows: "rows \<noteq> [] \<Longrightarrow> [] \<notin> set rows \<Longrightarrow> csv_parse (csv_rows rows) = rows"
proof (induction rows)
  case (Cons r rows)
  then show ?case
    by (cases rows) (auto simp: csv_parse_def csv_rows_def csv_read_row)
qed simp


section \<open>Facts about the rate limit fields and the wording\<close>

lemma parse_int_show_nat [simp]: "parse_int (show_nat n) = Some (int n)"
proof -
  have h: "is_digit (hd (show_nat n))" by (rule hd_show_nat)
  then have "hd (show_nat n) \<noteq> CHR ''-''" "hd (show_nat n) \<noteq> CHR ''+''"
    by (auto simp: is_digit_def Let_def)
  moreover have "trim_start (show_nat n) = show_nat n"
    using h is_digit_not_ws by (cases "show_nat n") (auto simp: trim_start_def)
  ultimately show ?thesis by (simp add: parse_int_def Let_def)
qed

lemma read_written_field:
  assumes "f fid \<noteq> None" "0 \<le> v" "v \<le> mx"
  shows "read_rate_limit_field (write_field fid v f) fid mx = v"
  using assms by (cases "v = 0") (auto simp: read_rate_limit_field_def write_field_def show_int_def Let_def)

lemma read_other_field: "fid \<noteq> k \<Longrightarrow>
    read_rate_limit_field (write_field k v f) fid mx = read_rate_limit_field f fid mx"
  by (simp add: read_rate_limit_field_def write_field_def split: option.split)

lemma write_field_exists: "write_field fid v f k = None \<longleftrightarrow> f k = None"
  by (auto simp: write_field_def split: option.split)

lemma read_field_bounds: "0 \<le> mx \<Longrightarrow> 0 \<le> read_rate_limit_field f fid mx \<and>
    (0 < mx \<longrightarrow> read_rate_limit_field f fid mx \<le> mx)"
  by (auto simp: read_rate_limit_field_def Let_def split: option.splits)

definition rate_limit_ok :: "rate_limit \<Rightarrow> bool" where
  "rate_limit_ok r \<longleftrightarrow>
     0 \<le> tcp_syn_per_second r \<and> tcp_syn_per_second r \<le> 10000 \<and>
     0 \<le> max_conn_per_ip r \<and> max_conn_per_ip r \<le> 65535 \<and>
     0 \<le> udp_per_second r \<and> udp_per_second r \<le> 100000 \<and>
     \<not> (tcp_syn_per_second r = 0 \<and> max_conn_per_ip r = 0 \<and> udp_per_second r = 0)"

definition rate_inputs_exist :: "string \<Rightarrow> inputs \<Rightarrow> bool" where
  "rate_inputs_exist pfx f \<longleftrightarrow> list_all (\<lambda>k. f (rate_prefix pfx @ k) \<noteq> None) [''tcp-syn'', ''max-conn'', ''udp'']"

lemma read_write_rate_limit:
  assumes "rate_inputs_exist pfx f" "\<forall>r. rl = Some r \<longrightarrow> rate_limit_ok r"
  shows "read_rate_limit_from_form pfx (write_rate_limit_fields pfx rl f) = rl"
proof -
  define g where "g sel = (case rl of None \<Rightarrow> 0 | Some r \<Rightarrow> sel r)" for sel :: "rate_limit \<Rightarrow> int"
  let ?w = "write_rate_limit_fields pfx rl f"
  have bounds: "0 \<le> g tcp_syn_per_second" "g tcp_syn_per_second \<le> 10000" "0 \<le> g max_conn_per_ip"
    "g max_conn_per_ip \<le> 65535" "0 \<le> g udp_per_second" "g udp_per_second \<le> 100000"
    using assms(2) by (auto simp: g_def rate_limit_ok_def split: option.split)
  have ids: "rate_prefix pfx @ ''tcp-syn'' \<noteq> rate_prefix pfx @ ''max-conn''"
    "rate_prefix pfx @ ''tcp-syn'' \<noteq> rate_prefix pfx @ ''udp''"
    "rate_prefix pfx @ ''max-conn'' \<noteq> rate_prefix pfx @ ''udp''" by simp_all
  have w: "?w = write_field (rate_prefix pfx @ ''udp'') (g udp_per_second)
      (write_field (rate_prefix pfx @ ''max-conn'') (g max_conn_per_ip)
        (write_field (rate_prefix pfx @ ''tcp-syn'') (g tcp_syn_per_second) f))"
    by (simp add: write_rate_limit_fields_def Let_def g_def)
  have ex: "f (rate_prefix pfx @ ''tcp-syn'') \<noteq> None" "f (rate_prefix pfx @ ''max-conn'') \<noteq> None"
    "f (rate_prefix pfx @ ''udp'') \<noteq> None"
    using assms(1) by (simp_all add: rate_inputs_exist_def)
  have reads:
    "read_rate_limit_field ?w (rate_prefix pfx @ ''tcp-syn'') 10000 = g tcp_syn_per_second"
    "read_rate_limit_field ?w (rate_prefix pfx @ ''max-conn'') 65535 = g max_conn_per_ip"
    "read_rate_limit_field ?w (rate_prefix pfx @ ''udp'') 100000 = g udp_per_second"
    unfolding w using bounds ids ids [symmetric] ex
    by (simp_all only: read_other_field read_written_field write_field_exists not_False_eq_True)
  show ?thesis
    unfolding read_rate_limit_from_form_def Let_def reads using assms(2)
    by (cases rl) (auto simp: g_def rate_limit_ok_def)
qed

lemma scale_bytes_spec:
  "0 \<le> sz \<Longrightarrow> unit < length BYTE_UNITS \<Longrightarrow> scale_bytes sz unit = (sz', u) \<Longrightarrow>
     unit \<le> u \<and> u < length BYTE_UNITS \<and> sz' * 1024 ^ u = sz * 1024 ^ unit \<and>
     (sz' < 1024 \<or> u = length BYTE_UNITS - 1) \<and> (unit < u \<longrightarrow> 1 \<le> sz')"
proof (induction sz unit rule: scale_bytes.induct)
  case (1 sz unit)
  show ?case
  proof (cases "sz \<ge> 1024 \<and> unit < length BYTE_UNITS - 1")
    case True
    then have eq: "scale_bytes (sz / 1024) (unit + 1) = (sz', u)"
      using "1.prems"(3) by (simp add: scale_bytes.simps [of sz unit])
    have less: "unit + 1 < length BYTE_UNITS" using True by arith
    have "unit + 1 \<le> u \<and> u < length BYTE_UNITS \<and> sz' * 1024 ^ u = sz / 1024 * 1024 ^ (unit + 1) \<and>
       (sz' < 1024 \<or> u = length BYTE_UNITS - 1) \<and> (unit + 1 < u \<longrightarrow> 1 \<le> sz')"
      using "1.IH" [OF True _ less eq] "1.prems"(1) by simp
    moreover have "unit + 1 = u \<Longrightarrow> 1 \<le> sz'"
      using calculation True by simp
    ultimately show ?thesis by (cases "unit + 1 = u") auto
  next
    case False
    with "1.prems" show ?thesis by (auto simp: scale_bytes.simps [of sz unit])
  qed
qed


section \<open>Properties\<close>

text \<open>
  \<open>escapeHtml\<close> is safe and loses nothing: its output has none of the characters that
  could end a text node or an attribute value, and a browser decodes it back to the original.
\<close>

theorem escape_html_safe_and_lossless:
  "set (escape_html s) \<inter> html_special = {} \<and> html_decode (escape_html s) = s"
  using escape_html_no_special html_decode_escape by blast

text \<open>
  The event export is read back exactly by a CSV reader: the header, then one row per
  event with its four fields, whatever commas, quotes and line breaks they hold.
\<close>

theorem events_csv_roundtrip:
  "csv_parse (events_to_csv events) =
     [''ts'', ''event'', ''detail'', ''error_code''] # map event_row events"
  unfolding events_to_csv_def by (rule csv_parse_rows) (auto simp: event_row_def)

text \<open>
  the rate limit form is a faithful editor: for every limit the form can hold, loading it
  into the inputs and reading the inputs back gives the same limit, and no limit stays no limit.
\<close>

theorem rate_limit_form_roundtrip:
  assumes "rate_inputs_exist pfx f" "\<forall>r. rl = Some r \<longrightarrow> rate_limit_ok r"
  shows "read_rate_limit_from_form pfx (write_rate_limit_fields pfx rl f) = rl"
  using assms by (rule read_write_rate_limit)

theorem rate_limit_form_roundtrip_witness:
  "read_rate_limit_from_form ''route'' (write_rate_limit_fields ''route''
      (Some \<lparr>tcp_syn_per_second = 50, max_conn_per_ip = 0, udp_per_second = 900\<rparr>) (\<lambda>_. Some ''7''))
    = Some \<lparr>tcp_syn_per_second = 50, max_conn_per_ip = 0, udp_per_second = 900\<rparr>"
  by (rule rate_limit_form_roundtrip) (simp_all add: rate_inputs_exist_def rate_limit_ok_def)

text \<open>
  \<open>formatBytes\<close> ends for every size and picks the right unit: the shown number times
  1024 to the unit's index is the size, and it is below 1024 unless the unit is the largest.
\<close>

theorem format_bytes_scales:
  assumes "0 \<le> n"
  shows "\<exists>sz u. format_bytes (Some n) = Some (sz, BYTE_UNITS ! u) \<and> u < length BYTE_UNITS \<and>
    sz * 1024 ^ u = n \<and> (sz < 1024 \<or> u = length BYTE_UNITS - 1)"
proof -
  obtain sz u where eq: "scale_bytes n 0 = (sz, u)" by fastforce
  then have "u < length BYTE_UNITS \<and> sz * 1024 ^ u = n \<and> (sz < 1024 \<or> u = length BYTE_UNITS - 1)"
    using scale_bytes_spec [of n 0 sz u] assms by (simp add: BYTE_UNITS_def)
  with eq show ?thesis by (auto simp: format_bytes_def)
qed

theorem format_bytes_scales_witness:
  "\<exists>sz u. format_bytes (Some 5546) = Some (sz, BYTE_UNITS ! u) \<and> u < length BYTE_UNITS \<and>
    sz * 1024 ^ u = 5546 \<and> (sz < 1024 \<or> u = length BYTE_UNITS - 1)"
  by (rule format_bytes_scales) simp

text \<open>
  The relative wording of a time less than a week old never shows zero or a full larger unit.
\<close>

lemma format_relative_time_range:
  "format_relative_time date now = Relative n u \<Longrightarrow>
     (case u of Minute \<Rightarrow> -59 \<le> n | Hour \<Rightarrow> -23 \<le> n | Day \<Rightarrow> -6 \<le> n) \<and> n \<le> -1"
  by (auto simp: format_relative_time_def Let_def WEEK_MS_def DAY_MS_def HOUR_MS_def MINUTE_MS_def
      split: if_splits)

end
