(* ===== verification/Table_Sort.thy ===== *)
theory Table_Sort
  imports Text_Output "HOL-Library.Multiset"
begin

text \<open>
  \<open>core/table_sort.js\<close>: the order a config table is drawn in, and from \<open>core/dom.js\<close> the row that takes
  focus beside a changed or removed one.

  \<open>Array.prototype.sort\<close> is stable; it is modelled as the stable insertion sort by the comparison's
  sign. \<open>coll\<close> stands for the browser's \<open>Intl.Collator\<close>.
\<close>

section \<open>Stable sorting by a comparison function\<close>

type_synonym 'a comparing = "'a \<Rightarrow> 'a \<Rightarrow> rat"

fun js_insert :: "'a comparing \<Rightarrow> 'a \<Rightarrow> 'a list \<Rightarrow> 'a list" where
  "js_insert cmp x [] = [x]"
| "js_insert cmp x (y # ys) = (if cmp x y \<le> 0 then x # y # ys else y # js_insert cmp x ys)"

definition js_sort :: "'a comparing \<Rightarrow> 'a list \<Rightarrow> 'a list" where
  "js_sort cmp xs = foldr (js_insert cmp) xs []"

text \<open>What the standard asks of a comparison function: a total preorder by its sign.\<close>

definition orders :: "'a comparing \<Rightarrow> 'a set \<Rightarrow> bool" where
  "orders cmp A \<longleftrightarrow> (\<forall>x\<in>A. \<forall>y\<in>A. cmp x y \<le> 0 \<longleftrightarrow> 0 \<le> cmp y x) \<and>
     (\<forall>x\<in>A. \<forall>y\<in>A. \<forall>z\<in>A. cmp x y \<le> 0 \<longrightarrow> cmp y z \<le> 0 \<longrightarrow> cmp x z \<le> 0)"

locale comparing_fn =
  fixes cmp :: "'a comparing" and A :: "'a set"
  assumes orders: "orders cmp A"
begin

lemma turn: "\<lbrakk>x \<in> A; y \<in> A\<rbrakk> \<Longrightarrow> cmp x y \<le> 0 \<longleftrightarrow> 0 \<le> cmp y x"
  using orders by (simp add: orders_def)

lemma trans: "\<lbrakk>x \<in> A; y \<in> A; z \<in> A; cmp x y \<le> 0; cmp y z \<le> 0\<rbrakk> \<Longrightarrow> cmp x z \<le> 0"
  using orders unfolding orders_def by blast

lemma self: "x \<in> A \<Longrightarrow> cmp x x = 0"
  using turn [of x x] by (cases "cmp x x \<le> 0") auto

lemma tie: "\<lbrakk>x \<in> A; y \<in> A; cmp x y = 0\<rbrakk> \<Longrightarrow> cmp y x = 0"
  using turn [of x y] turn [of y x] by auto

lemma tie_trans:
  assumes "x \<in> A" "y \<in> A" "z \<in> A" "cmp x y = 0" "cmp x z = 0"
  shows "cmp y z = 0"
proof -
  have "cmp y x = 0" "cmp z x = 0" using assms tie by blast+
  then have "cmp y z \<le> 0" "cmp z y \<le> 0" using assms trans [of y x z] trans [of z x y] by auto
  then show ?thesis using turn [of z y] assms(2,3) by auto
qed

lemma mset_js_insert: "mset (js_insert cmp x ys) = add_mset x (mset ys)"
  by (induction ys) auto

lemma mset_js_sort: "mset (js_sort cmp xs) = mset xs"
  by (induction xs) (simp_all add: js_sort_def mset_js_insert)

lemma set_js_insert: "set (js_insert cmp x ys) = insert x (set ys)"
  by (induction ys) auto

lemma insert_sorted:
  assumes "sorted_wrt (\<lambda>x y. cmp x y \<le> 0) ys" "x \<in> A" "set ys \<subseteq> A"
  shows "sorted_wrt (\<lambda>x y. cmp x y \<le> 0) (js_insert cmp x ys)"
  using assms
proof (induction ys)
  case (Cons y ys)
  show ?case
  proof (cases "cmp x y \<le> 0")
    case True
    with Cons.prems show ?thesis by (auto intro: trans [of x y])
  next
    case False
    then have "cmp y x \<le> 0" using turn [of x y] turn [of y x] Cons.prems by force
    with False Cons show ?thesis by (auto simp: set_js_insert)
  qed
qed simp

lemma sorted_js_sort: "set xs \<subseteq> A \<Longrightarrow> sorted_wrt (\<lambda>x y. cmp x y \<le> 0) (js_sort cmp xs)"
proof (induction xs)
  case (Cons x xs)
  have "set (js_sort cmp xs) = set xs" by (metis mset_js_sort set_mset_mset)
  with Cons insert_sorted [of "js_sort cmp xs" x] show ?case by (simp add: js_sort_def)
qed (simp add: js_sort_def)

text \<open>Stability: the values that tie with a given one keep their order.\<close>

lemma insert_ties:
  assumes "sorted_wrt (\<lambda>x y. cmp x y \<le> 0) ys" "x \<in> A" "set ys \<subseteq> A" "k \<in> A"
  shows "filter (\<lambda>y. cmp k y = 0) (js_insert cmp x ys) = filter (\<lambda>y. cmp k y = 0) (x # ys)"
  using assms
proof (induction ys)
  case (Cons y ys)
  show ?case
  proof (cases "cmp x y \<le> 0")
    case False
    have "\<not> (cmp k x = 0 \<and> cmp k y = 0)" using False tie_trans [of k x y] Cons.prems by auto
    with False Cons show ?thesis by auto
  qed simp
qed simp

lemma js_sort_stable:
  "\<lbrakk>set xs \<subseteq> A; k \<in> A\<rbrakk> \<Longrightarrow> filter (\<lambda>y. cmp k y = 0) (js_sort cmp xs) = filter (\<lambda>y. cmp k y = 0) xs"
proof (induction xs)
  case (Cons x xs)
  have "set (js_sort cmp xs) = set xs" by (metis mset_js_sort set_mset_mset)
  with Cons insert_ties [of "js_sort cmp xs" x k] sorted_js_sort [of xs] show ?case by (simp add: js_sort_def)
qed (simp add: js_sort_def)

end

section \<open>Sorted tables\<close>

datatype sort_key = KNull | KNum rat | KText string

definition is_empty_key :: "sort_key \<Rightarrow> bool" where
  "is_empty_key v \<longleftrightarrow> v = KNull \<or> v = KText []"

datatype sort_dir = Asc | Desc

type_synonym sorts = "string \<Rightarrow> (string \<times> sort_dir) option"

text \<open>\<open>String(v)\<close>, for the comparison of a number with a text; \<open>str\<close> writes the number.\<close>

fun key_string :: "(rat \<Rightarrow> string) \<Rightarrow> sort_key \<Rightarrow> string" where
  "key_string str KNull = ''null''"
| "key_string str (KNum x) = str x"
| "key_string str (KText t) = t"

definition compare_values :: "string comparing \<Rightarrow> (rat \<Rightarrow> string) \<Rightarrow> sort_key comparing" where
  "compare_values coll str a b = (case (a, b) of (KNum x, KNum y) \<Rightarrow> x - y | _ \<Rightarrow> coll (key_string str a) (key_string str b))"

definition compare_keys :: "string comparing \<Rightarrow> (rat \<Rightarrow> string) \<Rightarrow> sort_dir \<Rightarrow> sort_key comparing" where
  "compare_keys coll str dir x y =
     (let xEmpty = is_empty_key x; yEmpty = is_empty_key y in
      if xEmpty \<or> yEmpty then (if xEmpty = yEmpty then 0 else if xEmpty then 1 else - 1)
      else (case dir of Asc \<Rightarrow> 1 | Desc \<Rightarrow> - 1) * compare_values coll str x y)"

definition sorted_rows :: "string comparing \<Rightarrow> (rat \<Rightarrow> string) \<Rightarrow> sorts \<Rightarrow> string \<Rightarrow> 'a list \<Rightarrow>
    (string \<times> ('a \<Rightarrow> sort_key)) list \<Rightarrow> ('a \<times> nat) list" where
  "sorted_rows coll str sorts tableId items columns =
     (let rows = zip items [0..<length items] in
      case sorts tableId of
        None \<Rightarrow> rows
      | Some (col, dir) \<Rightarrow> (case map_of columns col of
          None \<Rightarrow> rows
        | Some val \<Rightarrow>
           (let keyed = map (\<lambda>row. (row, val (fst row))) rows in
            map fst (js_sort (\<lambda>x y. compare_keys coll str dir (snd x) (snd y)) keyed))))"

definition is_sorted_by :: "sorts \<Rightarrow> string \<Rightarrow> string \<Rightarrow> bool" where
  "is_sorted_by sorts tableId col = (case sorts tableId of Some (c, _) \<Rightarrow> c = col | None \<Rightarrow> False)"

definition sort_header_html :: "sorts \<Rightarrow> string \<Rightarrow> string \<Rightarrow> string \<Rightarrow> string" where
  "sort_header_html sorts tableId col label =
     (let ariaSort = (case sorts tableId of
          Some (c, d) \<Rightarrow> if c = col
            then '' aria-sort=\"'' @ (if d = Desc then ''descending'' else ''ascending'') @ ''\"'' else []
        | None \<Rightarrow> []) in
      ''<th scope=\"col\"'' @ ariaSort @ ''><button type=\"button\" class=\"table-sort\" data-sort-col=\"'' @ escape_html col @ ''\">'' @
      escape_html label @ ''<span class=\"table-sort__icon\" aria-hidden=\"true\"></span></button></th>'')"

text \<open>A click on a column's header.\<close>

definition click_sort_header :: "string \<Rightarrow> string \<Rightarrow> sorts \<Rightarrow> sorts" where
  "click_sort_header tableId col sorts = (case sorts tableId of
     None \<Rightarrow> sorts(tableId \<mapsto> (col, Asc))
   | Some (c, d) \<Rightarrow>
       if c \<noteq> col then sorts(tableId \<mapsto> (col, Asc))
       else if d = Asc then sorts(tableId \<mapsto> (col, Desc))
       else sorts(tableId := None))"

text \<open>The card labels of one table row: the column's name, but not on a cell across several columns.\<close>

definition card_labels :: "string list \<Rightarrow> nat list \<Rightarrow> string option list" where
  "card_labels headers colSpans =
     map (\<lambda>(i, span). if span = 1 \<and> i < length headers then Some (trim (headers ! i)) else None)
       (zip [0..<length colSpans] colSpans)"

section \<open>Focus beside a row\<close>

text \<open>
  The visible rows as drawn, each by its config index. Without one, focus goes to the button of the empty
  list or to the fallback.
\<close>

definition focus_table_row :: "nat list \<Rightarrow> nat \<Rightarrow> nat option" where
  "focus_table_row rows index =
     (if index \<in> set rows then Some index
      else (case filter (\<lambda>r. index \<le> r) rows of
          r # _ \<Rightarrow> Some r
        | [] \<Rightarrow> if rows = [] then None else Some (last rows)))"

definition row_index_after_removal :: "nat list \<Rightarrow> nat option \<Rightarrow> nat \<Rightarrow> nat" where
  "row_index_after_removal rows pos removedAt =
     (let neighbour = (case pos of
          Some k \<Rightarrow> if Suc k < length rows then Some (rows ! Suc k) else if 0 < k \<and> k \<le> length rows then Some (rows ! (k - 1)) else None
        | None \<Rightarrow> None) in
      case neighbour of None \<Rightarrow> removedAt | Some i \<Rightarrow> if i > removedAt then i - 1 else i)"

section \<open>Errors under their rows\<close>

type_synonym row_errors = "string \<Rightarrow> (nat \<times> string) option"

definition set_row_error :: "string \<Rightarrow> nat \<Rightarrow> string \<Rightarrow> row_errors \<Rightarrow> row_errors" where
  "set_row_error dataAttr index msg errs = errs(dataAttr \<mapsto> (index, msg))"

definition clear_row_error :: "string \<Rightarrow> row_errors \<Rightarrow> row_errors" where
  "clear_row_error dataAttr errs = errs(dataAttr := None)"

definition row_error_html :: "row_errors \<Rightarrow> string \<Rightarrow> nat \<Rightarrow> nat \<Rightarrow> string" where
  "row_error_html errs dataAttr index colspan = (case errs dataAttr of
     None \<Rightarrow> []
   | Some (i, m) \<Rightarrow> if i \<noteq> index then []
       else ''<tr class=\"row-error\"><td colspan=\"'' @ show_nat colspan @ ''\"><div class=\"msg err\" role=\"alert\">'' @
         escape_html m @ ''</div></td></tr>'')"

definition table_disabled_toggle_cell :: "string \<Rightarrow> nat \<Rightarrow> bool \<Rightarrow> string \<Rightarrow> string" where
  "table_disabled_toggle_cell dataAttr index disabled ariaLabel =
     ''<td class=\"cell-disabled-toggle\"><label class=\"evu-switch toggle-switch\" aria-label=\"'' @ escape_html ariaLabel @ ''\">'' @
     ''<input type=\"checkbox\" class=\"evu-switch__input toggle-switch-input\" '' @ dataAttr @ ''=\"'' @ show_nat index @ ''\"'' @
     (if disabled then [] else '' checked'') @ '' />'' @
     ''<span class=\"evu-switch__track toggle-switch-track\" aria-hidden=\"true\"></span>'' @ ''</label></td>''"

section \<open>What sorting a table does\<close>

definition is_num :: "sort_key \<Rightarrow> bool" where
  "is_num k = (case k of KNum _ \<Rightarrow> True | _ \<Rightarrow> False)"

text \<open>A column holds numbers or it holds texts, apart from its gaps.\<close>

definition one_kind :: "sort_key set \<Rightarrow> bool" where
  "one_kind K \<longleftrightarrow> (\<forall>k\<in>K. is_empty_key k \<or> is_num k) \<or> (\<forall>k\<in>K. is_empty_key k \<or> \<not> is_num k)"

lemma compare_values_orders:
  assumes "orders coll UNIV" "(\<forall>k\<in>K. is_num k) \<or> (\<forall>k\<in>K. \<not> is_num k)"
  shows "orders (compare_values coll str) K"
  using assms(2)
proof
  assume n: "\<forall>k\<in>K. is_num k"
  define num where "num = (\<lambda>k. case k of KNum x \<Rightarrow> x | _ \<Rightarrow> 0)"
  have v: "compare_values coll str a b = num a - num b" if "a \<in> K" "b \<in> K" for a b
  proof -
    have "is_num a" "is_num b" using n that by blast+
    then show ?thesis by (cases a; cases b) (simp_all add: compare_values_def is_num_def num_def)
  qed
  show ?thesis unfolding orders_def by (simp add: v)
next
  assume n: "\<forall>k\<in>K. \<not> is_num k"
  have v: "compare_values coll str a b = coll (key_string str a) (key_string str b)" if "a \<in> K" for a b
  proof -
    have "\<not> is_num a" using n that by blast
    then show ?thesis by (cases a) (simp_all add: compare_values_def is_num_def)
  qed
  show ?thesis using assms(1) unfolding orders_def by (simp add: v) blast
qed

lemma orders_minus:
  assumes "orders f A"
  shows "orders (\<lambda>x y. - f x y) A"
proof -
  have t: "f x y \<le> 0 \<longleftrightarrow> 0 \<le> f y x" if "x \<in> A" "y \<in> A" for x y using assms that by (simp add: orders_def)
  have "0 \<le> f x z" if "x \<in> A" "y \<in> A" "z \<in> A" "0 \<le> f x y" "0 \<le> f y z" for x y z
  proof -
    have "f y x \<le> 0" "f z y \<le> 0" using t that by blast+
    then have "f z x \<le> 0" using assms that unfolding orders_def by blast
    with t that show ?thesis by blast
  qed
  with t show ?thesis unfolding orders_def neg_le_0_iff_le neg_0_le_iff_le by blast
qed

lemma orders_gaps_last:
  assumes "orders f {k \<in> K. \<not> E k}"
  shows "orders (\<lambda>x y. if E x \<or> E y then if E x = E y then 0 else if E x then 1 else - 1 else f x y) K"
    (is "orders ?g K")
proof -
  have t: "f x y \<le> 0 \<longleftrightarrow> 0 \<le> f y x" if "x \<in> K" "y \<in> K" "\<not> E x" "\<not> E y" for x y
    using assms that by (simp add: orders_def)
  have tr: "f x z \<le> 0" if "x \<in> K" "y \<in> K" "z \<in> K" "\<not> E x" "\<not> E y" "\<not> E z" "f x y \<le> 0" "f y z \<le> 0" for x y z
    using assms that unfolding orders_def by blast
  have "?g x y \<le> 0 \<longleftrightarrow> 0 \<le> ?g y x" if "x \<in> K" "y \<in> K" for x y
    using t [OF that] by (cases "E x"; cases "E y") simp_all
  moreover have "?g x z \<le> 0" if "x \<in> K" "y \<in> K" "z \<in> K" "?g x y \<le> 0" "?g y z \<le> 0" for x y z
    using tr [OF that(1-3)] that(4,5) by (cases "E x"; cases "E y"; cases "E z") simp_all
  ultimately show ?thesis unfolding orders_def by blast
qed

lemma compare_keys_orders:
  assumes "orders coll UNIV" "one_kind K"
  shows "orders (compare_keys coll str dir) K"
proof -
  have v: "orders (compare_values coll str) {k \<in> K. \<not> is_empty_key k}"
    using assms(2) by (intro compare_values_orders [OF assms(1)]) (auto simp: one_kind_def)
  have "orders (\<lambda>x y. (case dir of Asc \<Rightarrow> 1 | Desc \<Rightarrow> - 1) * compare_values coll str x y) {k \<in> K. \<not> is_empty_key k}"
    using v orders_minus [OF v] by (cases dir) simp_all
  from orders_gaps_last [OF this] show ?thesis unfolding compare_keys_def Let_def .
qed

text \<open>A column of numbers needs no collator.\<close>

interpretation numbers: comparing_fn "compare_keys (\<lambda>_ _. 0) (\<lambda>_. []) dir" "insert KNull (range KNum)" for dir
  by unfold_locales
    (rule compare_keys_orders, simp add: orders_def, auto simp: one_kind_def is_num_def is_empty_key_def)

lemma orders_pullback: "orders cmp (f ` A) \<Longrightarrow> orders (\<lambda>x y. cmp (f x) (f y)) A"
  unfolding orders_def by blast

lemma sorted_rows_by_comparator:
  fixes items :: "'a list"
  assumes "orders coll UNIV" "sorts tableId = Some (col, dir)" "map_of columns col = Some val"
    "one_kind (val ` set items)"
  shows "let rows = sorted_rows coll str sorts tableId items columns;
             cmp = (\<lambda>x y. compare_keys coll str dir (val (fst x)) (val (fst y))) in
     mset rows = mset (zip items [0..<length items]) \<and>
     sorted_wrt (\<lambda>x y. cmp x y \<le> 0) rows \<and>
     sorted_wrt (\<lambda>x y. is_empty_key (val (fst x)) \<longrightarrow> is_empty_key (val (fst y))) rows \<and>
     (\<forall>r \<in> set rows. filter (\<lambda>y. cmp r y = 0) rows = filter (\<lambda>y. cmp r y = 0) (zip items [0..<length items]))"
proof -
  define rows where "rows = zip items [0..<length items]"
  define cmp where "cmp = (\<lambda>(x :: 'a \<times> nat) (y :: 'a \<times> nat). compare_keys coll str dir (val (fst x)) (val (fst y)))"
  define keyed where "keyed = map (\<lambda>row. (row, val (fst row))) rows"
  define kcmp where "kcmp = (\<lambda>(x :: ('a \<times> nat) \<times> sort_key) (y :: ('a \<times> nat) \<times> sort_key). compare_keys coll str dir (snd x) (snd y))"
  have "snd ` set keyed \<subseteq> val ` set items" by (auto simp: keyed_def rows_def dest: set_zip_leftD)
  then have "one_kind (snd ` set keyed)" using assms(4) unfolding one_kind_def by blast
  then have ko: "orders kcmp (set keyed)"
    unfolding kcmp_def by (rule orders_pullback [OF compare_keys_orders [OF assms(1)]])
  have cf: "comparing_fn kcmp (set keyed)" using ko by (rule comparing_fn.intro)
  have fst_keyed: "map fst keyed = rows" by (simp add: keyed_def comp_def)
  have key: "snd e = val (fst (fst e))" if "e \<in> set keyed" for e using that by (auto simp: keyed_def)
  have r: "sorted_rows coll str sorts tableId items columns = map fst (js_sort kcmp keyed)"
    using assms(2,3) by (simp add: sorted_rows_def rows_def [symmetric] keyed_def [symmetric] kcmp_def [symmetric] Let_def)
  have ms: "mset (js_sort kcmp keyed) = mset keyed" by (rule comparing_fn.mset_js_sort [OF cf])
  then have st: "set (js_sort kcmp keyed) = set keyed" by (metis set_mset_mset)
  have kc: "kcmp e f = cmp (fst e) (fst f)" if "e \<in> set keyed" "f \<in> set keyed" for e f
    using that key by (simp add: kcmp_def cmp_def)
  have m: "mset (map fst (js_sort kcmp keyed)) = mset rows" using ms fst_keyed by (metis mset_map)
  have s: "sorted_wrt (\<lambda>x y. cmp x y \<le> 0) (map fst (js_sort kcmp keyed))"
    unfolding sorted_wrt_map
    by (rule sorted_wrt_mono_rel [OF _ comparing_fn.sorted_js_sort [OF cf subset_refl]]) (simp add: kc st)
  have e: "sorted_wrt (\<lambda>x y. is_empty_key (val (fst x)) \<longrightarrow> is_empty_key (val (fst y))) (map fst (js_sort kcmp keyed))"
    by (rule sorted_wrt_mono_rel [OF _ s]) (auto simp: cmp_def compare_keys_def Let_def split: if_splits)
  have t: "filter (\<lambda>y. cmp x y = 0) (map fst (js_sort kcmp keyed)) = filter (\<lambda>y. cmp x y = 0) rows"
    if x: "x \<in> set (map fst (js_sort kcmp keyed))" for x
  proof -
    obtain k where k: "k \<in> set keyed" "x = fst k" using x st by auto
    have "filter (\<lambda>y. cmp x y = 0) (map fst L) = map fst (filter (\<lambda>f. kcmp k f = 0) L)" if "set L \<subseteq> set keyed" for L
      unfolding filter_map comp_def
      by (rule arg_cong [where f = "map fst"], rule filter_cong [OF refl]) (use that kc [OF k(1)] k(2) in auto)
    from this [of "js_sort kcmp keyed"] this [of keyed] comparing_fn.js_sort_stable [OF cf subset_refl k(1)]
    show ?thesis using st fst_keyed by simp
  qed
  show ?thesis using m s e t unfolding Let_def r rows_def cmp_def by blast
qed

text \<open>
  The order a reader of the table expects, without the comparison function: \<open>a\<close> may stand above \<open>b\<close>. Numbers go by size and
  texts as the collator has them, from the top down or from the bottom up; a row without a value may only stand above another one.
\<close>

fun may_stand_above :: "string comparing \<Rightarrow> sort_dir \<Rightarrow> sort_key \<Rightarrow> sort_key \<Rightarrow> bool" where
  "may_stand_above coll Asc (KNum x) (KNum y) \<longleftrightarrow> x \<le> y"
| "may_stand_above coll Desc (KNum x) (KNum y) \<longleftrightarrow> y \<le> x"
| "may_stand_above coll Asc (KText t) (KText u) \<longleftrightarrow> u = [] \<or> t \<noteq> [] \<and> coll t u \<le> 0"
| "may_stand_above coll Desc (KText t) (KText u) \<longleftrightarrow> u = [] \<or> t \<noteq> [] \<and> coll u t \<le> 0"
| "may_stand_above coll _ a b \<longleftrightarrow> b = KNull \<or> b = KText []"

definition tie :: "string comparing \<Rightarrow> sort_key \<Rightarrow> sort_key \<Rightarrow> bool" where
  "tie coll a b \<longleftrightarrow> may_stand_above coll Asc a b \<and> may_stand_above coll Asc b a"

lemma compared_is_above:
  assumes "orders coll UNIV" "one_kind {a, b}"
  shows "compare_keys coll str dir a b \<le> 0 \<longleftrightarrow> may_stand_above coll dir a b"
    "compare_keys coll str dir a b = 0 \<longleftrightarrow> tie coll a b"
proof -
  have t: "coll x y \<le> 0 \<longleftrightarrow> 0 \<le> coll y x" for x y using assms(1) by (simp add: orders_def)
  then have t0: "coll x y = 0 \<longleftrightarrow> coll x y \<le> 0 \<and> coll y x \<le> 0" for x y by (metis order_antisym order_refl)
  show "compare_keys coll str dir a b \<le> 0 \<longleftrightarrow> may_stand_above coll dir a b"
    using assms(2) t by (cases dir; cases a; cases b) (auto simp: compare_keys_def compare_values_def is_empty_key_def one_kind_def is_num_def Let_def)
  show "compare_keys coll str dir a b = 0 \<longleftrightarrow> tie coll a b"
    using assms(2) t0
    by (cases dir; cases a; cases b) (auto simp: compare_keys_def compare_values_def is_empty_key_def one_kind_def is_num_def tie_def Let_def)
qed

text \<open>C39
  Sorting a table only changes the order its rows are drawn in. Every row is drawn once and keeps its
  config index; of two rows with numbers the smaller stands above in ascending order and the larger in descending order, of two with texts
  the one the collator puts first, or last; rows without a value come last in both directions; and rows with the same value keep the order
  they have in the config.
\<close>

theorem sorted_rows_is_a_stable_sort:
  fixes items :: "'a list"
  assumes "orders coll UNIV" "sorts tableId = Some (col, dir)" "map_of columns col = Some val"
    "one_kind (val ` set items)"
  shows "let rows = sorted_rows coll str sorts tableId items columns; key = (\<lambda>row. val (fst row)) in
     mset rows = mset (zip items [0..<length items]) \<and>
     sorted_wrt (\<lambda>x y. may_stand_above coll dir (key x) (key y)) rows \<and>
     (\<forall>r \<in> set rows. filter (\<lambda>y. tie coll (key r) (key y)) rows = filter (\<lambda>y. tie coll (key r) (key y)) (zip items [0..<length items]))"
proof -
  define rows where "rows = sorted_rows coll str sorts tableId items columns"
  note by_cmp = sorted_rows_by_comparator [where sorts = sorts, OF assms, of str, unfolded Let_def, folded rows_def]
  have all: "set rows = set (zip items [0..<length items])" using by_cmp by (metis set_mset_mset)
  have keys: "one_kind {val (fst x), val (fst y)}" if "x \<in> set rows" "y \<in> set rows" for x y
  proof -
    have "fst x \<in> set items" "fst y \<in> set items" using that unfolding all by (metis prod.collapse set_zip_leftD)+
    then show ?thesis using assms(4) unfolding one_kind_def by blast
  qed
  note spec = compared_is_above [OF assms(1) keys]
  have "sorted_wrt (\<lambda>x y. may_stand_above coll dir (val (fst x)) (val (fst y))) rows"
    by (rule sorted_wrt_mono_rel [of _ "\<lambda>x y. compare_keys coll str dir (val (fst x)) (val (fst y)) \<le> 0"])
      (use by_cmp spec(1) in blast)+
  moreover have "filter (\<lambda>y. tie coll (val (fst r)) (val (fst y))) xs = filter (\<lambda>y. compare_keys coll str dir (val (fst r)) (val (fst y)) = 0) xs"
    if "r \<in> set rows" "set xs = set rows" for r xs
    by (rule filter_cong [OF refl]) (use that spec(2) in blast)
  ultimately show ?thesis using by_cmp all unfolding Let_def rows_def [symmetric] by simp
qed

definition toy_ping :: "nat \<Rightarrow> sort_key" where
  "toy_ping n = (if n = 0 then KNull else KNum (of_nat n))"

definition toy_sorts :: sorts where
  "toy_sorts = (\<lambda>_. None)(''peers-table'' := Some (''ping'', Asc))"

theorem sorted_rows_is_a_stable_sort_witness:
  "let rows = sorted_rows (\<lambda>_ _. 0) (\<lambda>_. []) toy_sorts ''peers-table'' [2, 0, 1] [(''ping'', toy_ping)] in
     sorted_wrt (\<lambda>x y. may_stand_above (\<lambda>_ _. 0) Asc (toy_ping (fst x)) (toy_ping (fst y))) rows \<and>
     mset rows = mset (zip [2, 0, 1] [0..<3])"
proof -
  have 1: "orders (\<lambda>_ _. 0) UNIV" by (simp add: orders_def)
  have 2: "toy_sorts ''peers-table'' = Some (''ping'', Asc)" by (simp add: toy_sorts_def)
  have 3: "map_of [(''ping'', toy_ping)] ''ping'' = Some toy_ping" by simp
  have 4: "one_kind (toy_ping ` set [2, 0, 1])" by (simp add: one_kind_def is_empty_key_def is_num_def toy_ping_def)
  have "length [2, 0, 1 :: nat] = 3" by simp
  with sorted_rows_is_a_stable_sort [where sorts = toy_sorts and items = "[2, 0, 1]" and val = toy_ping and str = "\<lambda>_. []", OF 1 2 3 4, unfolded Let_def]
  show ?thesis unfolding Let_def by metis
qed

text \<open>The third click on a header returns to config order.\<close>

lemma third_click_restores_config_order:
  "sorts tableId = None \<Longrightarrow> (click_sort_header tableId col ^^ 3) sorts = sorts"
  by (auto simp: click_sort_header_def numeral_3_eq_3)

lemma unsorted_rows_in_config_order:
  "sorts tableId = None \<Longrightarrow> sorted_rows coll str sorts tableId items columns = zip items [0..<length items]"
  by (simp add: sorted_rows_def)

text \<open>
  Once a row is gone, its neighbour's index still names the neighbour: the row found beside the removed
  one is the row that was drawn after it, or before it at the end.
\<close>

lemma focus_moves_to_the_neighbour:
  assumes "distinct rows" "k < length rows" "Suc k < length rows \<or> 0 < k"
  shows "row_index_after_removal rows (Some k) (rows ! k) \<in>
     (\<lambda>r. if rows ! k < r then r - 1 else r) ` (set rows - {rows ! k})"
proof (cases "Suc k < length rows")
  case True
  then have "rows ! Suc k \<in> set rows - {rows ! k}" using assms by (simp add: nth_eq_iff_index_eq)
  with True show ?thesis by (simp add: row_index_after_removal_def)
next
  case False
  then have "rows ! (k - 1) \<in> set rows - {rows ! k}" using assms by (auto simp: nth_eq_iff_index_eq)
  with False assms show ?thesis by (simp add: row_index_after_removal_def)
qed

end
