(* ===== verification/Net.thy ===== *)
theory Net
  imports Js_Base "HOL-Library.Word"
begin

unbundle bit_operations_syntax

text \<open>
  \<open>core/net.js\<close>: IPv4 addresses as 32-bit integers, CIDR ranges, tunnel addresses, and the
  list inputs of the forms. The bitwise operators of JavaScript work on 32-bit integers, so an
  address is a \<open>32 word\<close>; every result the source makes unsigned with \<open>>>> 0\<close> is one too.
\<close>

type_synonym ipv4 = "32 word"

section \<open>\<open>Number(s)\<close> of a string\<close>

text \<open>
  \<open>Decimal m e\<close> is \<open>m * 10 ^ e\<close>. The value is exact, where the browser rounds a literal with a
  fraction or an exponent to the nearest double.
\<close>

datatype jsnum = NaN | Infinite | Decimal int int

definition radix_digit :: "nat \<Rightarrow> char \<Rightarrow> bool" where
  "radix_digit b c \<longleftrightarrow> (let n = of_char c :: nat in
     (48 \<le> n \<and> n \<le> 57 \<and> n - 48 < b) \<or> (b = 16 \<and> (97 \<le> n \<and> n \<le> 102 \<or> 65 \<le> n \<and> n \<le> 70)))"

definition radix_val :: "char \<Rightarrow> nat" where
  "radix_val c = (let n = of_char c :: nat in if n \<le> 57 then n - 48 else if n \<le> 70 then n - 55 else n - 87)"

definition radix_number :: "nat \<Rightarrow> string \<Rightarrow> jsnum" where
  "radix_number b ds =
     (if ds \<noteq> [] \<and> list_all (radix_digit b) ds
      then Decimal (int (foldl (\<lambda>n d. b * n + radix_val d) 0 ds)) 0 else NaN)"

definition signed_part :: "string \<Rightarrow> bool \<times> string" where
  "signed_part s = (case s of
     [] \<Rightarrow> (False, [])
   | c # r \<Rightarrow> if c = CHR ''-'' then (True, r) else if c = CHR ''+'' then (False, r) else (False, s))"

definition signed_digits :: "string \<Rightarrow> int option" where
  "signed_digits s = (let (neg, ds) = signed_part s in
     if ds \<noteq> [] \<and> list_all is_digit ds
     then Some ((if neg then -1 else 1) * int (parse_digits ds)) else None)"

definition fraction_part :: "string \<Rightarrow> string \<times> string" where
  "fraction_part r = (case r of
     [] \<Rightarrow> ([], [])
   | c # r' \<Rightarrow> if c = CHR ''.'' then (takeWhile is_digit r', dropWhile is_digit r') else ([], r))"

definition decimal_number :: "string \<Rightarrow> jsnum" where
  "decimal_number s = (let (neg, u) = signed_part s; ds = takeWhile is_digit u;
       (fs, r) = fraction_part (dropWhile is_digit u);
       m = (if neg then -1 else 1) * int (parse_digits (ds @ fs)) in
     if u = ''Infinity'' then Infinite
     else if ds @ fs = [] then NaN
     else (case r of
         [] \<Rightarrow> Decimal m (- int (length fs))
       | c # ex \<Rightarrow>
           if c = CHR ''e'' \<or> c = CHR ''E''
           then (case signed_digits ex of Some k \<Rightarrow> Decimal m (k - int (length fs)) | None \<Rightarrow> NaN) else NaN))"

definition js_number :: "string \<Rightarrow> jsnum" where
  "js_number s = (let t = trim s in
     if t = [] then Decimal 0 0
     else if take 2 t \<in> {''0x'', ''0X''} then radix_number 16 (drop 2 t)
     else if take 2 t \<in> {''0o'', ''0O''} then radix_number 8 (drop 2 t)
     else if take 2 t \<in> {''0b'', ''0B''} then radix_number 2 (drop 2 t)
     else decimal_number t)"

section \<open>Addresses\<close>

text \<open>The test \<open>x !== (x | 0) || x < 0 || x > 255\<close>: an integer from 0 to 255 passes.\<close>

definition octet :: "jsnum \<Rightarrow> nat option" where
  "octet x = (case x of
     Decimal m e \<Rightarrow>
       (if e < 0 \<and> m mod 10 ^ nat (- e) \<noteq> 0 then None
        else (let v = (if e < 0 then m div 10 ^ nat (- e) else m * 10 ^ nat e) in
          if v < 0 \<or> v > 255 then None else Some (nat v)))
   | _ \<Rightarrow> None)"

fun shift_octets :: "string list \<Rightarrow> ipv4 \<Rightarrow> ipv4 option" where
  "shift_octets [] n = Some n"
| "shift_octets (p # ps) n =
     (case octet (js_number p) of
        None \<Rightarrow> None
      | Some x \<Rightarrow> shift_octets ps (push_bit 8 n OR of_nat x))"

definition ipv4_to_int :: "string \<Rightarrow> ipv4 option" where
  "ipv4_to_int s = (let p = split_on (CHR ''.'') (trim s) in
     if length p \<noteq> 4 then None else shift_octets p 0)"

definition int_to_ipv4 :: "ipv4 \<Rightarrow> string" where
  "int_to_ipv4 n = join ''.''
     [show_nat (unat (drop_bit 24 n AND 255)), show_nat (unat (drop_bit 16 n AND 255)),
      show_nat (unat (drop_bit 8 n AND 255)), show_nat (unat (n AND 255))]"

definition iface_char :: "char \<Rightarrow> bool" where
  "iface_char c \<longleftrightarrow> (let n = of_char c :: nat in
     (97 \<le> n \<and> n \<le> 122) \<or> (65 \<le> n \<and> n \<le> 90) \<or> (48 \<le> n \<and> n \<le> 57)
     \<or> c \<in> {CHR ''.'', CHR ''_'', CHR ''-''})"

definition valid_linux_iface_name :: "string \<Rightarrow> string" where
  "valid_linux_iface_name name = (let s = trim name in
     if 1 \<le> length s \<and> length s \<le> 15 \<and> list_all iface_char s then s else [])"

section \<open>Ranges\<close>

record cidr =
  network :: ipv4
  broadcast :: ipv4
  prefix_len :: nat
  netmask :: ipv4

definition addr_char :: "char \<Rightarrow> bool" where
  "addr_char c \<longleftrightarrow> is_digit c \<or> c = CHR ''.''"

text \<open>The match of \<open>/^([\d.]+)\/(\d+)$/\<close>.\<close>

definition cidr_parts :: "string \<Rightarrow> (string \<times> string) option" where
  "cidr_parts s = (let a = takeWhile addr_char s; r = dropWhile addr_char s in
     if a = [] then None
     else (case r of
         [] \<Rightarrow> None
       | c # ds \<Rightarrow> if c = CHR ''/'' \<and> ds \<noteq> [] \<and> list_all is_digit ds then Some (a, ds) else None))"

definition parse_ipv4_cidr :: "string \<Rightarrow> cidr option" where
  "parse_ipv4_cidr s = (case cidr_parts (trim s) of
     None \<Rightarrow> None
   | Some (a, ds) \<Rightarrow> (let pfx = parse_digits ds in
       if pfx > 32 then None
       else (case ipv4_to_int a of
           None \<Rightarrow> None
         | Some ip \<Rightarrow>
             if pfx = 32 then
               Some \<lparr>network = ip, broadcast = ip, prefix_len = pfx, netmask = 0xffffffff\<rparr>
             else if pfx = 0 then
               Some \<lparr>network = 0, broadcast = 0xffffffff, prefix_len = pfx, netmask = 0\<rparr>
             else (let m = push_bit (32 - pfx) (-1); nw = ip AND m in
               Some \<lparr>network = nw, broadcast = nw OR NOT m, prefix_len = pfx, netmask = m\<rparr>))))"

definition ip_in_cidr :: "ipv4 \<Rightarrow> cidr \<Rightarrow> bool" where
  "ip_in_cidr ip c \<longleftrightarrow> ip \<ge> network c \<and> ip \<le> broadcast c"

fun covered_by :: "ipv4 \<Rightarrow> string list \<Rightarrow> bool" where
  "covered_by ip [] = False"
| "covered_by ip (raw # rest) = (let s = trim raw in
     if s = [] then covered_by ip rest
     else if includes_str s ''/'' then
       (case parse_ipv4_cidr s of
          Some c \<Rightarrow> if ip_in_cidr ip c then True else covered_by ip rest
        | None \<Rightarrow> covered_by ip rest)
     else if ipv4_to_int s = Some ip then True
     else covered_by ip rest)"

definition ipv4_covered_by_cidr_list :: "string \<Rightarrow> string list \<Rightarrow> bool" where
  "ipv4_covered_by_cidr_list ip entries = (case ipv4_to_int ip of
     None \<Rightarrow> False | Some n \<Rightarrow> covered_by n entries)"

section \<open>Tunnel addresses and list inputs\<close>

definition tunnel_host_only :: "string \<Rightarrow> string" where
  "tunnel_host_only tip = takeWhile addr_char (trim tip)"

definition tunnel_ip_without_suffix :: "string \<Rightarrow> string" where
  "tunnel_ip_without_suffix tip = (let s = trim tip in
     if s = [] then [] else trim (before_char (CHR ''/'') s))"

definition tunnel_to_host :: "string \<Rightarrow> string" where
  "tunnel_to_host tip = (let s = trim tip; a = takeWhile addr_char s; r = dropWhile addr_char s in
     if a \<noteq> [] \<and> (r = [] \<or> (hd r = CHR ''/'' \<and> tl r \<noteq> [] \<and> list_all is_digit (tl r))) then a else [])"

definition parse_ports_list :: "string \<Rightarrow> string list" where
  "parse_ports_list s = nonempty (map trim (split_class (\<lambda>c. c = CHR '','') s))"

definition parse_source_allow_list_input :: "string \<Rightarrow> string list" where
  "parse_source_allow_list_input raw = (let s = trim raw in
     if s = [] then []
     else nonempty (map trim (split_class (\<lambda>c. is_ws c \<or> c = CHR '','') s)))"

definition route_proto_plain_text :: "string \<Rightarrow> string" where
  "route_proto_plain_text p = (let raw = trim p; s = lower raw in
     if raw = [] then mdash
     else if s = ''both'' then ''tcp, udp''
     else (let parts = nonempty (map trim (split_class (\<lambda>c. c = CHR '','' \<or> c = CHR ''+'' \<or> is_ws c) s));
               tcp = (s = ''tcp'' \<or> ''tcp'' \<in> set parts); udp = (s = ''udp'' \<or> ''udp'' \<in> set parts) in
       if tcp \<and> udp then ''tcp, udp'' else if tcp then ''tcp'' else if udp then ''udp'' else raw))"


section \<open>Facts\<close>

lemma js_number_show_nat [simp]: "js_number (show_nat k) = Decimal (int k) 0"
proof -
  let ?t = "show_nat k"
  have dig: "\<And>c. c \<in> set ?t \<Longrightarrow> is_digit c" using show_nat_digits by blast
  have trim: "trim ?t = ?t" by (rule trim_all_not_ws) (use dig is_digit_not_ws in blast)
  have not_in: "\<not> is_digit x \<Longrightarrow> take 2 ?t \<noteq> [c, x]" for c x
    using dig by (metis in_set_takeD list.set_intros(1,2))
  have u: "signed_part ?t = (False, ?t)"
    using hd_show_nat [of k] by (cases ?t) (auto simp: signed_part_def is_digit_def Let_def)
  have inf: "?t \<noteq> ''Infinity''"
    using hd_show_nat [of k] by (auto simp: is_digit_def Let_def)
  have tw: "takeWhile is_digit ?t = ?t" "dropWhile is_digit ?t = []"
    using dig by (auto simp: takeWhile_eq_all_conv)
  show ?thesis
    unfolding js_number_def
    by (simp add: trim Let_def not_in is_digit_def [of "CHR ''x''"] is_digit_def [of "CHR ''X''"]
        is_digit_def [of "CHR ''o''"] is_digit_def [of "CHR ''O''"] is_digit_def [of "CHR ''b''"]
        is_digit_def [of "CHR ''B''"] decimal_number_def fraction_part_def u inf tw)
qed

lemma octet_nat: "k < 256 \<Longrightarrow> octet (Decimal (int k) 0) = Some k"
  by (simp add: octet_def Let_def)

lemma unat_octet_less: "unat (w AND 255 :: ipv4) < 256"
proof -
  have "w AND 255 \<le> 255" by (rule word_and_le1)
  then show ?thesis by (simp add: word_le_nat_alt)
qed

lemma octets_of_word:
  "push_bit 8 (push_bit 8 (push_bit 8 (drop_bit 24 n AND 255) OR (drop_bit 16 n AND 255)) OR (drop_bit 8 n AND 255))
     OR (n AND 255) = (n :: ipv4)"
proof -
  have m: "(255 :: ipv4) = mask 8" by (simp add: mask_eq_exp_minus_1)
  have byte: "i < 8 \<or> (8 \<le> i \<and> i < 16) \<or> (16 \<le> i \<and> i < 24) \<or> 24 \<le> i" for i :: nat by arith
  show ?thesis
    unfolding m
  proof (rule bit_word_eqI)
    fix i assume "i < LENGTH(32)"
    with byte [of i] show "bit (push_bit 8 (push_bit 8 (push_bit 8 (drop_bit 24 n AND mask 8)
        OR drop_bit 16 n AND mask 8) OR drop_bit 8 n AND mask 8) OR n AND mask 8) i = bit n i"
      by (elim disjE conjE) (auto simp: bit_simps)
  qed
qed

lemma show_nat_no_dot: "CHR ''.'' \<notin> set (show_nat k)"
  using show_nat_digits [of k] by (auto simp: is_digit_def Let_def)

text \<open>Printing an address and reading it back gives the address.\<close>

lemma ipv4_to_int_of_show:
  assumes "a < 256" "b < 256" "c < 256" "d < 256"
  shows "ipv4_to_int (join ''.'' [show_nat a, show_nat b, show_nat c, show_nat d])
    = Some (push_bit 8 (push_bit 8 (push_bit 8 (of_nat a) OR of_nat b) OR of_nat c) OR of_nat d)"
proof -
  let ?ps = "[show_nat a, show_nat b, show_nat c, show_nat d]"
  have "set (join ''.'' ?ps) \<subseteq> insert (CHR ''.'') (\<Union> (set ` set ?ps))" by auto
  moreover have "\<not> is_ws x" if "x \<in> insert (CHR ''.'') (\<Union> (set ` set ?ps))" for x
    using that show_nat_digits is_digit_not_ws by (auto simp: is_ws_def Let_def)
  ultimately have "trim (join ''.'' ?ps) = join ''.'' ?ps" by (intro trim_all_not_ws) blast
  moreover have "split_on (CHR ''.'') (join ''.'' ?ps) = ?ps"
    by (rule split_on_join) (use show_nat_no_dot in auto)
  ultimately show ?thesis
    using assms by (simp add: ipv4_to_int_def Let_def octet_nat)
qed

lemma ipv4_to_int_int_to_ipv4: "ipv4_to_int (int_to_ipv4 n) = Some n"
proof -
  have of_nat_unat: "of_nat (unat w) = w" for w :: ipv4 by simp
  show ?thesis
    unfolding int_to_ipv4_def
    by (subst ipv4_to_int_of_show) (simp_all only: unat_octet_less of_nat_unat octets_of_word)
qed


lemma drop_bit_mono_word: "x \<le> y \<Longrightarrow> drop_bit k x \<le> drop_bit k (y :: ipv4)"
  by (simp add: word_le_nat_alt unsigned_drop_bit_eq drop_bit_eq_div take_bit_nat_eq_self_iff
      div_le_mono unat_div)

lemma bit_beyond_word: "bit (y :: ipv4) i \<Longrightarrow> i < 32"
  using bit_imp_le_length [of y i] by simp

lemma drop_bit_masked:
  "drop_bit k ((y :: ipv4) AND NOT (mask k)) = drop_bit k y"
  "drop_bit k ((y AND NOT (mask k)) OR mask k) = drop_bit k (y :: ipv4)"
  by (rule bit_word_eqI; auto simp: bit_simps dest: bit_beyond_word)+

lemma masked_eq_iff: "(x :: ipv4) AND NOT (mask k) = y AND NOT (mask k) \<longleftrightarrow> drop_bit k x = drop_bit k y"
proof
  assume "x AND NOT (mask k) = y AND NOT (mask k)"
  then show "drop_bit k x = drop_bit k y" by (metis drop_bit_masked(1))
next
  have push_drop: "w AND NOT (mask k) = push_bit k (drop_bit k w)" for w :: ipv4
    by (rule bit_word_eqI) (auto simp: bit_simps)
  assume "drop_bit k x = drop_bit k y"
  then show "x AND NOT (mask k) = y AND NOT (mask k)" by (simp only: push_drop)
qed

lemma range_iff_masked:
  fixes x y :: ipv4
  shows "y AND NOT (mask k) \<le> x \<and> x \<le> (y AND NOT (mask k)) OR mask k
    \<longleftrightarrow> x AND NOT (mask k) = y AND NOT (mask k)"
proof
  assume "y AND NOT (mask k) \<le> x \<and> x \<le> (y AND NOT (mask k)) OR mask k"
  then have "drop_bit k y \<le> drop_bit k x" "drop_bit k x \<le> drop_bit k y"
    using drop_bit_mono_word drop_bit_masked by metis+
  then show "x AND NOT (mask k) = y AND NOT (mask k)"
    unfolding masked_eq_iff by (metis order_antisym)
next
  assume eq: "x AND NOT (mask k) = y AND NOT (mask k)"
  have "x = ((x AND NOT (mask k)) OR mask k) AND x"
    by (rule bit_word_eqI) (auto simp: bit_simps)
  then have "x \<le> (x AND NOT (mask k)) OR mask k" by (metis word_and_le2)
  moreover have "x AND NOT (mask k) \<le> x" by (rule word_and_le2)
  ultimately show "y AND NOT (mask k) \<le> x \<and> x \<le> (y AND NOT (mask k)) OR mask k"
    by (simp add: eq)
qed

text \<open>A parsed range is the set of addresses that agree with its network on the masked bits.\<close>

lemma ip_in_parsed_cidr:
  assumes "parse_ipv4_cidr s = Some c"
  shows "ip_in_cidr ip c \<longleftrightarrow> ip AND netmask c = network c"
proof -
  have full: "(0xffffffff :: ipv4) = -1" by simp
  have range: "ip_in_cidr ip \<lparr>network = n AND NOT (mask k), broadcast = (n AND NOT (mask k)) OR mask k,
      prefix_len = p, netmask = NOT (mask k)\<rparr> \<longleftrightarrow> ip AND NOT (mask k) = n AND NOT (mask k)" for n k p
    using range_iff_masked [of n k ip] by (simp add: ip_in_cidr_def)
  show ?thesis
    using assms
    by (auto simp: parse_ipv4_cidr_def Let_def range split: option.splits if_splits)
      (auto simp: ip_in_cidr_def full)
qed


text \<open>
  What a list entry says, without the parser's case split: a range entry covers the addresses
  that agree with it on the masked bits, a bare entry covers itself.
\<close>

definition entry_covers :: "ipv4 \<Rightarrow> string \<Rightarrow> bool" where
  "entry_covers ip e \<longleftrightarrow> trim e \<noteq> [] \<and>
     (if includes_str (trim e) ''/''
      then (case parse_ipv4_cidr (trim e) of None \<Rightarrow> False | Some c \<Rightarrow> ip AND netmask c = network c)
      else ipv4_to_int (trim e) = Some ip)"

lemma covered_by_iff: "covered_by ip es \<longleftrightarrow> list_ex (entry_covers ip) es"
  by (induction es) (auto simp: Let_def entry_covers_def ip_in_parsed_cidr split: option.splits)

section \<open>Properties\<close>

text \<open>
  \<open>intToIpv4\<close> and \<open>ipv4ToInt\<close> are inverse on every 32-bit address: what the UI
  prints for an address (a suggested tunnel IP, for instance) reads back as that address.
\<close>

theorem ipv4_print_parse: "ipv4_to_int (int_to_ipv4 n) = Some n"
  by (rule ipv4_to_int_int_to_ipv4)

text \<open>
  A range accepted by \<open>parseIPv4CIDR\<close> contains exactly the addresses that share its
  network bits, for every prefix length from 0 to 32, although the code tests an unsigned
  interval and treats the lengths 0 and 32 apart.
\<close>

theorem cidr_interval_is_mask_class:
  assumes "parse_ipv4_cidr s = Some c"
  shows "ip_in_cidr ip c \<longleftrightarrow> ip AND netmask c = network c"
  using assms by (rule ip_in_parsed_cidr)

theorem cidr_interval_is_mask_class_witness:
  "parse_ipv4_cidr ''10.100.0.7/24'' \<noteq> None \<and>
   ip_in_cidr 0x0A6400FF (the (parse_ipv4_cidr ''10.100.0.7/24'')) \<and>
   \<not> ip_in_cidr 0x0A640100 (the (parse_ipv4_cidr ''10.100.0.7/24''))"
proof -
  have p: "parse_ipv4_cidr ''10.100.0.7/24'' = Some \<lparr>network = 0x0A640000, broadcast = 0x0A6400FF,
      prefix_len = 24, netmask = 0xFFFFFF00\<rparr>" by code_simp
  from cidr_interval_is_mask_class [OF p, of "0x0A6400FF"] cidr_interval_is_mask_class [OF p, of "0x0A640100"]
  show ?thesis by (simp add: p)
qed

text \<open>
  \<open>ipv4CoveredByCIDRList\<close> decides membership: it answers true exactly when the address
  parses and some entry covers it, whatever unreadable entries the list also has.
\<close>

theorem covered_list_iff_some_entry:
  "ipv4_covered_by_cidr_list ip entries \<longleftrightarrow>
     (\<exists>n. ipv4_to_int ip = Some n \<and> list_ex (entry_covers n) entries)"
  by (simp add: ipv4_covered_by_cidr_list_def covered_by_iff split: option.split)

text \<open>The parser is lenient: an address whose last octet is missing reads as octet 0.\<close>

theorem empty_octet_reads_as_zero:
  "ipv4_to_int ''10.100.0.'' = ipv4_to_int ''10.100.0.0'' \<and> ipv4_to_int ''...'' = Some 0"
  by code_simp

end
