(* ===== verification/Table_Cells.thy ===== *)
theory Table_Cells
  imports Table_Sort Net
begin

text \<open>
  The cells that the config tables share (\<open>core/dom.js\<close>), as the HTML they are written as, and what
  keeps a value from becoming markup: of the characters that open and close tags and attributes, a
  written cell has exactly its template's.
\<close>

section \<open>Cells\<close>

definition copy_button_html :: "string \<Rightarrow> string \<Rightarrow> string \<Rightarrow> string" where
  "copy_button_html val ariaLabel title =
     ''<button type=\"button\" class=\"evu-btn evu-btn--outline btn-tunnel-ip-copy\" data-tunnel-ip-copy=\"'' @ escape_html val @
     ''\" aria-label=\"'' @ escape_html ariaLabel @ ''\" title=\"'' @ escape_html title @
     ''\"><svg xmlns=\"http://www.w3.org/2000/svg\" width=\"14\" height=\"14\" viewBox=\"0 0 24 24\" fill=\"none\" stroke=\"currentColor\" stroke-width=\"2\" stroke-linecap=\"round\" stroke-linejoin=\"round\" aria-hidden=\"true\"><rect x=\"9\" y=\"9\" width=\"13\" height=\"13\" rx=\"2\" ry=\"2\" /><path d=\"M5 15H4a2 2 0 0 1-2-2V4a2 2 0 0 1 2-2h9a2 2 0 0 1 2 2v1\" /></svg></button>''"

definition public_key_cell_html :: "string \<Rightarrow> string \<Rightarrow> string" where
  "public_key_cell_html val peerName =
     (let raw = trim val in
      if raw = [] then ''<td class=\"mono\">'' @ mdash @ ''</td>''
      else (let label = ''Copy public key'' @ (if peerName \<noteq> [] then '' of '' @ peerName else []) in
        ''<td class=\"mono public-key-cell\"><span class=\"tunnel-ip-inner\"><span class=\"public-key-text\" title=\"'' @
        escape_html raw @ ''\">'' @ escape_html (trunc raw 20) @ ''</span>'' @ copy_button_html raw label ''Copy public key'' @
        ''</span></td>''))"

definition mono_ip_copy_cell_html :: "string \<Rightarrow> string \<Rightarrow> string" where
  "mono_ip_copy_cell_html val displayName =
     (let raw = trim val;
          copyVal = tunnel_ip_without_suffix raw;
          copyBtn = (if copyVal \<noteq> [] then copy_button_html copyVal ''Copy IP address'' ''Copy IP (without subnet mask)'' else []);
          label = trim displayName;
          labelHtml = (if label \<noteq> [] then ''<span class=\"route-target-name\">'' @ escape_html label @ ''</span>'' else []);
          cellClass = (if label \<noteq> [] then ''mono tunnel-ip-cell route-target-cell'' else ''mono tunnel-ip-cell'') in
      ''<td class=\"'' @ cellClass @ ''\">'' @ labelHtml @ ''<span class=\"tunnel-ip-inner\"><span class=\"tunnel-ip-text\">'' @
      escape_html raw @ ''</span>'' @ copyBtn @ ''</span></td>'')"

section \<open>Markup\<close>

definition markup_char :: "char \<Rightarrow> bool" where
  "markup_char c \<longleftrightarrow> c = CHR ''<'' \<or> c = CHR ''>'' \<or> c = CHR 0x22 \<or> c = CHR 0x27"

text \<open>The characters of a text that have a meaning in HTML: those of tags and of quoted attributes.\<close>

definition markup :: "string \<Rightarrow> string" where
  "markup s = filter markup_char s"

named_theorems markup_simps "what is left of a written text"

lemma markup_append [markup_simps]: "markup (s @ t) = markup s @ markup t"
  by (simp add: markup_def)

lemma markup_Nil [markup_simps]: "markup [] = []"
  by (simp add: markup_def)

lemma markup_escape [markup_simps]: "markup (escape_html s) = []"
proof (induction s)
  case (Cons x s)
  then show ?case by (subst escape_html_Cons) (simp add: markup_append escape_html_char markup_def markup_char_def)
qed (simp add: markup_def)

lemma markup_show_nat [markup_simps]: "markup (show_nat n) = []"
  using show_nat_digits [of n] by (auto simp: markup_def filter_empty_conv markup_char_def is_digit_def)

lemma markup_if [markup_simps]: "markup (if b then s else t) = (if b then markup s else markup t)"
  by simp

lemma markup_letters [markup_simps]: "\<not> markup_char c \<Longrightarrow> markup (c # s) = markup s"
  "markup_char c \<Longrightarrow> markup (c # s) = c # markup s"
  by (simp_all add: markup_def)

text \<open>A written cell has its template's markup, whatever the texts in it.\<close>

lemma markup_copy_button [markup_simps]: "markup (copy_button_html v a t) = markup (copy_button_html [] [] [])"
  by (simp only: copy_button_html_def markup_append markup_escape)

lemma markup_public_key_cell [markup_simps]:
  "markup (public_key_cell_html v n) = markup (if trim v = [] then public_key_cell_html [] [] else public_key_cell_html ''k'' [])"
proof (cases "trim v = []")
  case False
  have "trim ''k'' \<noteq> []" by code_simp
  with False show ?thesis
    unfolding public_key_cell_html_def Let_def
    by (simp only: if_False markup_append markup_escape markup_copy_button [of "trim v"] markup_copy_button [of "trim ''k''"])
qed (simp add: public_key_cell_html_def)

lemma markup_mono_ip_cell [markup_simps]:
  "markup (mono_ip_copy_cell_html v n) =
     markup (mono_ip_copy_cell_html (if tunnel_ip_without_suffix (trim v) = [] then [] else ''k'') (if trim n = [] then [] else ''n''))"
proof -
  have t: "trim ''n'' = ''n''" "tunnel_ip_without_suffix (trim ''k'') = ''k''" "tunnel_ip_without_suffix [] = []" by code_simp+
  show ?thesis
    unfolding mono_ip_copy_cell_html_def Let_def
    by (cases "trim n = []"; cases "tunnel_ip_without_suffix (trim v) = []")
      (simp_all only: t trim_nil if_True if_False simp_thms list.distinct markup_append markup_escape markup_Nil
        markup_copy_button [of "tunnel_ip_without_suffix (trim v)"] markup_copy_button [of "''k''"])
qed

lemmas markup_eval = markup_def markup_char_def

lemma markup_dash: "markup mdash = []" "markup ellipsis = []"
  by (simp_all add: markup_eval mdash_def ellipsis_def)

lemma markup_toggle_cell:
  "markup (table_disabled_toggle_cell a i b l) = markup (table_disabled_toggle_cell a 0 False [])"
proof -
  have "markup '' checked'' = []" by (simp add: markup_eval)
  then show ?thesis
    unfolding table_disabled_toggle_cell_def
    by (simp only: markup_append markup_escape markup_show_nat markup_if markup_Nil if_cancel)
qed

lemma markup_row_error:
  assumes "(\<exists>m. errs a = Some (i, m)) \<longleftrightarrow> (\<exists>m. errs' a = Some (i', m))"
  shows "markup (row_error_html errs a i n) = markup (row_error_html errs' a i' n')"
proof -
  have none: "row_error_html es a k c = []" if "\<not> (\<exists>m. es a = Some (k, m))" for es k c
    using that by (auto simp: row_error_html_def split: option.split)
  have some: "markup (row_error_html es a k c) = markup ''<tr class=\"row-error\"><td colspan=\"'' @
      markup ''\"><div class=\"msg err\" role=\"alert\">'' @ markup ''</div></td></tr>''" if "es a = Some (k, m)" for es k c m
    unfolding row_error_html_def that option.case prod.case
    by (simp only: simp_thms if_False markup_append markup_escape markup_show_nat append_Nil)
  show ?thesis
  proof (cases "\<exists>m. errs a = Some (i, m)")
    case True
    with assms obtain m m' where "errs a = Some (i, m)" "errs' a = Some (i', m')" by blast
    then show ?thesis by (simp only: some)
  next
    case False
    with assms none show ?thesis by metis
  qed
qed

end
