(* ===== verification/Pending_Diff.thy ===== *)
theory Pending_Diff
  imports Line_Diff Table_Cells
begin

text \<open>
  How \<open>pages/pending.js\<close> draws the difference between the ruleset on the host and the one the saved
  config gives: one table, two panes side by side, or both texts in full when they are too large to
  compare. The HTML is the text that the page assigns to \<open>innerHTML\<close>.
\<close>

section \<open>The mode\<close>

text \<open>The argument is what \<open>sessionStorage\<close> holds, \<open>None\<close> also when it cannot be read.\<close>

definition get_pending_diff_mode :: "string option \<Rightarrow> string" where
  "get_pending_diff_mode stored =
     (if stored = Some ''split'' \<or> stored = Some ''unified'' then the stored else ''unified'')"

definition set_pending_diff_mode :: "bool \<Rightarrow> string \<Rightarrow> string option \<Rightarrow> string option" where
  "set_pending_diff_mode writable mode stored = (if writable then Some mode else stored)"

section \<open>Lines\<close>

fun crlf_to_lf :: "string \<Rightarrow> string" where
  "crlf_to_lf [] = []"
| "crlf_to_lf [c] = [c]"
| "crlf_to_lf (c # d # s) = (if c = CHR 0x0D \<and> d = CHR 0x0A then CHR 0x0A # crlf_to_lf s else c # crlf_to_lf (d # s))"

definition split_lines :: "string \<Rightarrow> string list" where
  "split_lines text = (if length text = 0 then [] else split_on (CHR 0x0A) (crlf_to_lf text))"

section \<open>One changed line against another\<close>

definition strong_del :: "string \<Rightarrow> string" where
  "strong_del t = ''<span class=\"diff-ch-strong diff-ch-del\">'' @ escape_html t @ ''</span>''"

definition strong_ins :: "string \<Rightarrow> string" where
  "strong_ins t = ''<span class=\"diff-ch-strong diff-ch-ins\">'' @ escape_html t @ ''</span>''"

fun intraline_html :: "char_op list \<Rightarrow> string \<times> string \<Rightarrow> string \<times> string" where
  "intraline_html [] (delH, insH) = (delH, insH)"
| "intraline_html (EqualText t # ops) (delH, insH) = intraline_html ops (delH @ escape_html t, insH @ escape_html t)"
| "intraline_html (DeleteText t # ops) (delH, insH) = intraline_html ops (delH @ strong_del t, insH)"
| "intraline_html (InsertText t # ops) (delH, insH) = intraline_html ops (delH, insH @ strong_ins t)"

definition intraline_pair_html :: "string \<Rightarrow> string \<Rightarrow> string \<times> string" where
  "intraline_pair_html oldLine newLine =
     (if oldLine = newLine then (escape_html oldLine, escape_html oldLine)
      else if oldLine = [] then ([], strong_ins newLine)
      else if newLine = [] then (strong_del oldLine, [])
      else (case compute_char_diff oldLine newLine of
          None \<Rightarrow> (escape_html oldLine, escape_html newLine)
        | Some ops \<Rightarrow> intraline_html ops ([], [])))"

section \<open>One table\<close>

definition unified_ctx :: "nat \<Rightarrow> nat \<Rightarrow> string \<Rightarrow> string" where
  "unified_ctx a b t = ''<tr class=\"diff-row-ctx\"><td class=\"diff-ln\">'' @ show_nat a @ ''</td><td class=\"diff-ln\">'' @ show_nat b @
     ''</td><td class=\"diff-sign\"></td><td class=\"diff-code\">'' @ escape_html t @ ''</td></tr>''"

definition unified_del :: "nat \<Rightarrow> string \<Rightarrow> string" where
  "unified_del a h = ''<tr class=\"diff-row-diff-del\"><td class=\"diff-ln\">'' @ show_nat a @
     ''</td><td class=\"diff-ln\"></td><td class=\"diff-sign\">-</td><td class=\"diff-code\">'' @ h @ ''</td></tr>''"

definition unified_ins :: "nat \<Rightarrow> string \<Rightarrow> string" where
  "unified_ins b h = ''<tr class=\"diff-row-diff-ins\"><td class=\"diff-ln\"></td><td class=\"diff-ln\">'' @ show_nat b @
     ''</td><td class=\"diff-sign\">+</td><td class=\"diff-code\">'' @ h @ ''</td></tr>''"

fun unified_rows :: "nat \<Rightarrow> nat \<Rightarrow> string diff_op list \<Rightarrow> string list" where
  "unified_rows a b [] = []"
| "unified_rows a b (Equal x y # ops) = unified_ctx (a + 1) (b + 1) x # unified_rows (a + 1) (b + 1) ops"
| "unified_rows a b (Delete x # Insert y # ops) =
     (case intraline_pair_html x y of (delHtml, insHtml) \<Rightarrow>
       unified_del (a + 1) delHtml # unified_ins (b + 1) insHtml # unified_rows (a + 1) (b + 1) ops)"
| "unified_rows a b (Delete x # ops) = unified_del (a + 1) (escape_html x) # unified_rows (a + 1) b ops"
| "unified_rows a b (Insert y # ops) = unified_ins (b + 1) (escape_html y) # unified_rows a (b + 1) ops"

definition render_unified_diff_html :: "string diff_op list \<Rightarrow> string" where
  "render_unified_diff_html ops =
     ''<div class=\"pending-diff-scroll scroll-thin\" tabindex=\"0\" role=\"group\" aria-label=\"Unified diff\"><table class=\"pending-diff-unified\"><tbody>'' @
     concat (unified_rows 0 0 ops) @ ''</tbody></table></div>''"

section \<open>Two panes\<close>

definition SPLIT_GAP :: string where
  "SPLIT_GAP = ''<tr class=\"diff-split-row diff-split-row-gap\"><td class=\"diff-split-ln\"></td><td class=\"diff-split-code diff-split-pad\">&nbsp;</td></tr>''"

definition split_row :: "string \<Rightarrow> nat \<Rightarrow> string \<Rightarrow> string" where
  "split_row cls k h = ''<tr class=\"diff-split-row diff-split-row-'' @ cls @ ''\"><td class=\"diff-split-ln\">'' @ show_nat k @
     ''</td><td class=\"diff-split-code\">'' @ h @ ''</td></tr>''"

text \<open>The rows of the left and of the right pane, side by side.\<close>

fun split_diff_rows :: "nat \<Rightarrow> nat \<Rightarrow> string diff_op list \<Rightarrow> (string \<times> string) list" where
  "split_diff_rows a b [] = []"
| "split_diff_rows a b (Equal x y # ops) =
     (split_row ''ctx'' (a + 1) (escape_html x), split_row ''ctx'' (b + 1) (escape_html y)) # split_diff_rows (a + 1) (b + 1) ops"
| "split_diff_rows a b (Delete x # Insert y # ops) =
     (case intraline_pair_html x y of (delHtml, insHtml) \<Rightarrow>
       (split_row ''both-l'' (a + 1) delHtml, split_row ''both-r'' (b + 1) insHtml) # split_diff_rows (a + 1) (b + 1) ops)"
| "split_diff_rows a b (Delete x # ops) = (split_row ''del'' (a + 1) (escape_html x), SPLIT_GAP) # split_diff_rows (a + 1) b ops"
| "split_diff_rows a b (Insert y # ops) = (SPLIT_GAP, split_row ''ins'' (b + 1) (escape_html y)) # split_diff_rows a (b + 1) ops"

definition split_pane :: "string \<Rightarrow> string \<Rightarrow> string list \<Rightarrow> string" where
  "split_pane side label rows =
     ''<div class=\"pending-diff-split-pane scroll-thin\" data-pending-split-pane=\"'' @ side @
     ''\" tabindex=\"0\" role=\"group\" aria-label=\"'' @ label @ ''\"><table class=\"pending-diff-split-side\"><tbody>'' @ concat rows @
     ''</tbody></table></div>''"

definition render_split_diff_html :: "string diff_op list \<Rightarrow> string" where
  "render_split_diff_html ops =
     ''<div class=\"pending-diff-split-view\">'' @ split_pane ''left'' ''Current version'' (map fst (split_diff_rows 0 0 ops)) @
     split_pane ''right'' ''After apply'' (map snd (split_diff_rows 0 0 ops)) @ ''</div>''"

text \<open>Scrolling one pane moves the other; the second pane's own scroll event then finds nothing to do.\<close>

definition sync_from :: "int \<Rightarrow> int \<Rightarrow> int option" where
  "sync_from srcTop dstTop = (if dstTop = srcTop then None else Some srcTop)"

section \<open>The panel\<close>

definition full_text_pre :: "string \<Rightarrow> string" where
  "full_text_pre t = ''<pre class=\"code-block pending-nft-pre\" tabindex=\"0\">'' @ escape_html t @ ''</pre>''"

definition raw_pane :: "string \<Rightarrow> string \<Rightarrow> string" where
  "raw_pane side t = ''<div class=\"pending-diff-split-pane scroll-thin\" data-pending-split-pane=\"'' @ side @
     ''\" tabindex=\"-1\"><pre class=\"code-block pending-raw-diff-pre\" tabindex=\"0\">'' @ escape_html t @ ''</pre></div>''"

definition render_pending_diff_too_large :: "string \<Rightarrow> string \<Rightarrow> string \<Rightarrow> nat \<Rightarrow> nat \<Rightarrow> string" where
  "render_pending_diff_too_large oldText newText mode oldLineCount newLineCount =
     (let lc = '' ('' @ show_nat oldLineCount @ '' vs '' @ show_nat newLineCount @ '' lines '' @ mdash @ '' product exceeds browser limit).'';
          hint = ''<p class=\"hint pending-diff-same\">Diff too large to compute in the browser'' @ lc @
            '' Showing full texts below; use an external diff if you need line-level detail.</p>'' in
      if mode = ''split''
      then hint @ ''<div class=\"pending-diff-split-view\">'' @ raw_pane ''left'' oldText @ raw_pane ''right'' newText @ ''</div>''
      else hint @ ''<h4 class=\"pending-diff-raw-h\">Baseline (<code>generated/nftables.nft</code>)</h4>'' @ full_text_pre oldText @
        ''<h4 class=\"pending-diff-raw-h\">Proposed (current saved config)</h4>'' @ full_text_pre newText)"

definition BASELINE_HINT :: string where
  "BASELINE_HINT = ''<p class=\"hint pending-diff-baseline-missing\">No readable on-disk <code class=\"inline\">generated/nftables.nft</code> (missing, unreadable, or API older than baseline support). The left column compares against an empty baseline; a successful Apply populates the file.</p>''"

text \<open>The panel's HTML, and whether the scrolling of its panes is then linked.\<close>

definition render_pending_diff_panel :: "string \<Rightarrow> string \<Rightarrow> string \<Rightarrow> string \<times> bool" where
  "render_pending_diff_panel mode oldText newText =
     (let baselineHint = (if oldText = [] \<and> newText \<noteq> [] then BASELINE_HINT else []) in
      if oldText = newText
      then (''<p class=\"hint pending-diff-same\">No differences.</p>'' @ (if newText \<noteq> [] then full_text_pre newText else []), False)
      else (let oldLines = split_lines oldText; newLines = split_lines newText in
        case compute_line_diff oldLines newLines of
          None \<Rightarrow> (baselineHint @ render_pending_diff_too_large oldText newText mode (length oldLines) (length newLines), mode = ''split'')
        | Some ops \<Rightarrow>
            if mode = ''split'' then (baselineHint @ render_split_diff_html ops, True)
            else (baselineHint @ render_unified_diff_html ops, False)))"

section \<open>What the rows show\<close>

text \<open>The rows when no deletion is paired with an insertion: each step is drawn on its own.\<close>

fun plain_rows :: "nat \<Rightarrow> nat \<Rightarrow> string diff_op list \<Rightarrow> string list" where
  "plain_rows a b [] = []"
| "plain_rows a b (Equal x y # ops) = unified_ctx (a + 1) (b + 1) x # plain_rows (a + 1) (b + 1) ops"
| "plain_rows a b (Delete x # ops) = unified_del (a + 1) (escape_html x) # plain_rows (a + 1) b ops"
| "plain_rows a b (Insert y # ops) = unified_ins (b + 1) (escape_html y) # plain_rows a (b + 1) ops"

fun plain_split_rows :: "nat \<Rightarrow> nat \<Rightarrow> string diff_op list \<Rightarrow> (string \<times> string) list" where
  "plain_split_rows a b [] = []"
| "plain_split_rows a b (Equal x y # ops) =
     (split_row ''ctx'' (a + 1) (escape_html x), split_row ''ctx'' (b + 1) (escape_html y)) # plain_split_rows (a + 1) (b + 1) ops"
| "plain_split_rows a b (Delete x # ops) = (split_row ''del'' (a + 1) (escape_html x), SPLIT_GAP) # plain_split_rows (a + 1) b ops"
| "plain_split_rows a b (Insert y # ops) = (SPLIT_GAP, split_row ''ins'' (b + 1) (escape_html y)) # plain_split_rows a (b + 1) ops"

lemma rows_are_plain:
  "\<not> pairs_up ops \<Longrightarrow> unified_rows a b ops = plain_rows a b ops"
  "\<not> pairs_up ops \<Longrightarrow> split_diff_rows a b ops = plain_split_rows a b ops"
  by (induction a b ops rule: unified_rows.induct) simp_all

text \<open>A changed line is in the table under its number, and so is a line that stayed.\<close>

lemma old_lines_shown:
  "k < length (old_side ops) \<Longrightarrow> unified_del (Suc a + k) (escape_html (old_side ops ! k)) \<in> set (plain_rows a b ops)
    \<or> (\<exists>m. unified_ctx (Suc a + k) m (old_side ops ! k) \<in> set (plain_rows a b ops))"
proof (induction a b ops arbitrary: k rule: plain_rows.induct)
  case (2 a b x y ops)
  then show ?case by (cases k) fastforce+
next
  case (3 a b x ops)
  then show ?case by (cases k) fastforce+
next
  case (4 a b y ops)
  then show ?case by fastforce
qed simp

lemma new_lines_shown:
  "k < length (new_side ops) \<Longrightarrow> \<forall>(x, y) \<in> set (kept_pairs ops). x = y \<Longrightarrow>
    unified_ins (Suc b + k) (escape_html (new_side ops ! k)) \<in> set (plain_rows a b ops)
    \<or> (\<exists>m. unified_ctx m (Suc b + k) (new_side ops ! k) \<in> set (plain_rows a b ops))"
proof (induction a b ops arbitrary: k rule: plain_rows.induct)
  case (2 a b x y ops)
  then show ?case by (cases k) fastforce+
next
  case (3 a b x ops)
  then show ?case by fastforce
next
  case (4 a b y ops)
  then show ?case by (cases k) fastforce+
qed simp

lemma pairs_up_tail: "pairs_up ops \<Longrightarrow> pairs_up (op # ops)"
  by (cases op) (simp_all add: pairs_up_Cons)

lemma line_diff_facts:
  assumes "compute_line_diff os ns = Some ops"
  shows "\<not> pairs_up ops" "old_side ops = os" "new_side ops = ns" "\<forall>(x, y) \<in> set (kept_pairs ops). x = y"
  using assms diff_ops_never_pair_up [of os ns] by (auto simp: compute_line_diff_def diff_ops_sides diff_ops_kept split: if_splits)

text \<open>
  In the unified view each line of the old text and each line of the new one has its row, under
  its own line number and on its own side, changed lines signed and unchanged ones in both columns,
  and there is no other row.
\<close>

theorem unified_diff_numbers_every_line:
  assumes "compute_line_diff os ns = Some ops"
  shows "length (unified_rows 0 0 ops) + length (kept_pairs ops) = length os + length ns \<and>
    (\<forall>k < length os. unified_del (k + 1) (escape_html (os ! k)) \<in> set (unified_rows 0 0 ops)
      \<or> (\<exists>m. unified_ctx (k + 1) m (os ! k) \<in> set (unified_rows 0 0 ops))) \<and>
    (\<forall>k < length ns. unified_ins (k + 1) (escape_html (ns ! k)) \<in> set (unified_rows 0 0 ops)
      \<or> (\<exists>m. unified_ctx m (k + 1) (ns ! k) \<in> set (unified_rows 0 0 ops)))"
proof -
  note f = line_diff_facts [OF assms]
  have "length (plain_rows a b xs) + length (kept_pairs xs) = length (old_side xs) + length (new_side xs)" for a b xs
    by (induction a b xs rule: plain_rows.induct) auto
  with f old_lines_shown [of _ ops 0 0] new_lines_shown [of _ ops 0 0] show ?thesis by (simp add: rows_are_plain)
qed

lemma unified_diff_numbers_every_line_witness:
  "unified_rows 0 0 (the (compute_line_diff [''a'', ''b''] [''b'', ''c''])) =
     [unified_del 1 ''a'', unified_ctx (Suc 1) 1 ''b'', unified_ins (Suc 1) ''c''] \<and>
   length (unified_rows 0 0 (the (compute_line_diff [''a'', ''b''] [''b'', ''c'']))) + 1 = length [''a'', ''b''] + length [''b'', ''c'']"
proof -
  have ops: "compute_line_diff [''a'', ''b''] [''b'', ''c''] = Some [Delete ''a'', Equal ''b'' ''b'', Insert ''c'']"
    by (rule compute_line_diff_small; code_simp)
  from unified_diff_numbers_every_line [OF ops] show ?thesis by (simp add: ops escape_html_char)
qed

text \<open>
  A line that was replaced is never compared with its replacement: the walk back takes the
  old line before the new one, so that its insertion comes first, while the two views look for an
  insertion right after a deletion. The side by side view therefore shows a gap opposite every changed line.
\<close>

theorem replaced_lines_are_never_compared:
  assumes "compute_line_diff os ns = Some ops"
  shows "\<not> (\<exists>pre x y post. ops = pre @ Delete x # Insert y # post) \<and>
    (\<forall>(l, r) \<in> set (split_diff_rows 0 0 ops). l = SPLIT_GAP \<or> r = SPLIT_GAP
      \<or> (\<exists>i j x. l = split_row ''ctx'' i (escape_html x) \<and> r = split_row ''ctx'' j (escape_html x)))"
proof -
  note f = line_diff_facts [OF assms]
  have p: "pairs_up (pre @ Delete x # Insert y # post)" for pre post and x y :: string
    by (induction pre) (simp_all add: pairs_up_tail)
  have q: "\<forall>(x, y) \<in> set (kept_pairs xs). x = y \<Longrightarrow> \<forall>(l, r) \<in> set (plain_split_rows a b xs). l = SPLIT_GAP \<or> r = SPLIT_GAP
      \<or> (\<exists>i j x. l = split_row ''ctx'' i (escape_html x) \<and> r = split_row ''ctx'' j (escape_html x))" for a b xs
  proof (induction a b xs rule: plain_split_rows.induct)
    case (2 a b x y xs)
    then have "x = y" "\<forall>(x, y) \<in> set (kept_pairs xs). x = y" by auto
    with "2.IH" show ?case unfolding plain_split_rows.simps list.set ball_simps prod.case by blast
  qed simp_all
  from p f(1) have "\<not> (\<exists>pre x y post. ops = pre @ Delete x # Insert y # post)" by blast
  with q [OF f(4)] f(1) show ?thesis by (simp add: rows_are_plain)
qed

lemma replaced_lines_are_never_compared_witness:
  "compute_line_diff [''accept tcp''] [''accept udp''] = Some [Insert ''accept udp'', Delete ''accept tcp''] \<and>
   \<not> (\<exists>pre x y post. [Insert ''accept udp'', Delete ''accept tcp''] = pre @ Delete x # Insert y # post)"
proof -
  have ops: "compute_line_diff [''accept tcp''] [''accept udp''] = Some [Insert ''accept udp'', Delete ''accept tcp'']"
    by (rule compute_line_diff_small; code_simp)
  from conjunct1 [OF replaced_lines_are_never_compared [OF ops]] ops show ?thesis by blast
qed

section \<open>Texts in the rows\<close>

text \<open>What a step looks like does not depend on its texts: no line of a ruleset becomes markup.\<close>

fun blank_op :: "string diff_op \<Rightarrow> string diff_op" where
  "blank_op (Equal x y) = Equal [] []"
| "blank_op (Insert y) = Insert []"
| "blank_op (Delete x) = Delete []"

lemma markup_row [markup_simps]:
  "markup (unified_ctx a b x) = markup (unified_ctx 0 0 [])"
  "markup (unified_del a (escape_html x)) = markup (unified_del 0 (escape_html []))"
  "markup (unified_ins a (escape_html x)) = markup (unified_ins 0 (escape_html []))"
  unfolding unified_ctx_def unified_del_def unified_ins_def by (simp_all only: markup_append markup_escape markup_show_nat)

lemma markup_plain_rows: "markup (concat (plain_rows a b ops)) = markup (concat (plain_rows 0 0 (map blank_op ops)))"
proof -
  have "markup (concat (plain_rows a b ops)) = markup (concat (plain_rows c d (map blank_op ops)))" for c d
  proof (induction a b ops arbitrary: c d rule: plain_rows.induct)
    case (2 a b x y ops)
    show ?case
      by (simp only: list.map blank_op.simps plain_rows.simps concat.simps markup_append "2.IH" [of "c + 1" "d + 1"]
          markup_row(1) [of "a + 1"] markup_row(1) [of "c + 1"])
  next
    case (3 a b x ops)
    show ?case
      by (simp only: list.map blank_op.simps plain_rows.simps concat.simps markup_append "3.IH" [of "c + 1" d]
          markup_row(2) [of "a + 1"] markup_row(2) [of "c + 1"])
  next
    case (4 a b y ops)
    show ?case
      by (simp only: list.map blank_op.simps plain_rows.simps concat.simps markup_append "4.IH" [of c "d + 1"]
          markup_row(3) [of "b + 1"] markup_row(3) [of "d + 1"])
  qed simp
  then show ?thesis .
qed

text \<open>A pane's scroll is not sent back, and panes are linked exactly when two are drawn.\<close>

lemma scroll_echo_stops: "sync_from srcTop dstTop = Some newTop \<Longrightarrow> sync_from newTop srcTop = None"
  by (simp add: sync_from_def split: if_splits)

lemma panes_linked_only_in_split: "snd (render_pending_diff_panel mode oldText newText) \<longleftrightarrow> oldText \<noteq> newText \<and> mode = ''split''"
  by (simp add: render_pending_diff_panel_def Let_def split: option.split)

end
