(* ===== verification/Json_Canon.thy ===== *)
theory Json_Canon
  imports Js_Json "HOL-Library.Multiset"
begin

text \<open>
  The comparison of config values in \<open>core/config_changes.js\<close>: \<open>stripEmpty\<close>, \<open>canonical\<close>,
  \<open>same\<close>, and reading and writing a value at a path. The API omits empty values
  (\<open>disabled: false\<close>) and a client may send them, so an empty value and a missing one compare
  equal, and so do objects that differ in the order of their keys.
\<close>

primrec is_empty_json :: "json \<Rightarrow> bool" where
  "is_empty_json JNull = True"
| "is_empty_json (JBool b) = (\<not> b)"
| "is_empty_json (JNum n) = (n = 0)"
| "is_empty_json (JStr s) = (s = [])"
| "is_empty_json (JArr xs) = (xs = [])"
| "is_empty_json (JObj kvs) = (kvs = [])"

definition is_empty_value :: "jsval \<Rightarrow> bool" where
  "is_empty_value v = (case v of None \<Rightarrow> True | Some j \<Rightarrow> is_empty_json j)"

definition nonempty_members :: "(string \<times> json) list \<Rightarrow> (string \<times> json) list" where
  "nonempty_members kvs = filter (\<lambda>(k, v). \<not> is_empty_json v) (sort_key fst kvs)"

primrec strip_json :: "json \<Rightarrow> json" where
  "strip_json JNull = JNull"
| "strip_json (JBool b) = JBool b"
| "strip_json (JNum n) = JNum n"
| "strip_json (JStr s) = JStr s"
| "strip_json (JArr xs) = JArr (map strip_json xs)"
| "strip_json (JObj kvs) = JObj (nonempty_members (map (map_prod id strip_json) kvs))"

definition canonical :: "jsval \<Rightarrow> string" where
  "canonical v = (case v of
     None \<Rightarrow> ''null''
   | Some j \<Rightarrow> if is_empty_json (strip_json j) then ''null'' else stringify (strip_json j))"

definition same :: "jsval \<Rightarrow> jsval \<Rightarrow> bool" where
  "same a b \<longleftrightarrow> canonical a = canonical b"

definition same_row :: "json \<Rightarrow> json \<Rightarrow> bool" where
  "same_row a b = same (Some a) (Some b)"

definition count_of :: "json list \<Rightarrow> json \<Rightarrow> nat" where
  "count_of rows row = length (filter (\<lambda>r. same_row r row) rows)"

section \<open>Paths\<close>

fun get_path :: "jsval \<Rightarrow> string list \<Rightarrow> jsval" where
  "get_path v [] = v"
| "get_path v (k # ks) =
     get_path (case v of None \<Rightarrow> None | Some JNull \<Rightarrow> None | Some j \<Rightarrow> member_json j k) ks"

definition is_object :: "json \<Rightarrow> bool" where
  "is_object j = (case j of JObj _ \<Rightarrow> True | _ \<Rightarrow> False)"

text \<open>
  \<open>None\<close> is the TypeError of setting a property on a primitive value. A property of that name
  set on an array is not part of its JSON. Paths are never empty.
\<close>

fun set_path :: "json \<Rightarrow> string list \<Rightarrow> jsval \<Rightarrow> json option" where
  "set_path obj [] value = None"
| "set_path (JObj kvs) [k] value =
     Some (JObj (case value of None \<Rightarrow> del_key k kvs | Some x \<Rightarrow> put_key k x kvs))"
| "set_path (JObj kvs) (k # k' # ks) value =
     (case set_path (if truthy (map_of kvs k) then the (map_of kvs k) else JObj []) (k' # ks) value of
        None \<Rightarrow> None
      | Some child \<Rightarrow> Some (JObj (put_key k child kvs)))"
| "set_path (JArr xs) (k # ks) value = Some (JArr xs)"
| "set_path obj (k # ks) value = (if ks = [] \<and> value = None \<and> obj \<noteq> JNull then Some obj else None)"

definition list_at :: "json \<Rightarrow> string list \<Rightarrow> json list" where
  "list_at obj path = (case get_path (Some obj) path of Some (JArr rows) \<Rightarrow> rows | _ \<Rightarrow> [])"

section \<open>Two values compare equal when they strip to the same value\<close>

definition norm :: "jsval \<Rightarrow> jsval" where
  "norm v = (case v of None \<Rightarrow> None
     | Some j \<Rightarrow> if is_empty_json (strip_json j) then None else Some (strip_json j))"

lemma canonical_norm: "canonical v = (case norm v of None \<Rightarrow> ''null'' | Some s \<Rightarrow> stringify s)"
  by (simp add: canonical_def norm_def split: option.split)

lemma norm_not_null: "norm v \<noteq> Some JNull"
  by (auto simp: norm_def split: option.split)

lemma same_iff_norm: "same a b \<longleftrightarrow> norm a = norm b"
proof -
  have "stringify s \<noteq> ''null''" if "norm v = Some s" for v s
    using norm_not_null [of v] that by simp
  then show ?thesis
    unfolding same_def canonical_norm by (metis (no_types) option.case_eq_if option.collapse stringify_inject)
qed

lemma same_refl [simp]: "same a a"
  by (simp add: same_def)

lemma same_sym: "same a b \<Longrightarrow> same b a"
  by (simp add: same_def)

lemma same_trans [trans]: "same a b \<Longrightarrow> same b c \<Longrightarrow> same a c"
  by (simp add: same_def)

lemma same_row_iff: "same_row a b \<longleftrightarrow> canonical (Some a) = canonical (Some b)"
  by (simp add: same_row_def same_def)

lemma is_empty_strip: "is_empty_json j \<Longrightarrow> is_empty_json (strip_json j)"
  by (cases j) (auto simp: nonempty_members_def)

lemma norm_empty: "is_empty_value v \<Longrightarrow> norm v = None"
  by (auto simp: is_empty_value_def norm_def is_empty_strip split: option.splits)

lemma norm_Some_None: "norm (Some j) = None \<longleftrightarrow> is_empty_json (strip_json j)"
  by (simp add: norm_def)

lemma count_of_eq: "count_of rows row = count_list (map (\<lambda>r. canonical (Some r)) rows) (canonical (Some row))"
  by (induction rows) (auto simp: count_of_def same_row_iff)

text \<open>An object compares key by key.\<close>

lemma distinct_keys_sort: "distinct (map fst (sort_key fst kvs)) \<longleftrightarrow> distinct (map fst (kvs :: (string \<times> json) list))"
  by (rule mset_eq_imp_distinct_iff) simp

lemma keys_nonempty_members:
  assumes "distinct (map fst kvs)"
  shows "sorted (map fst (nonempty_members kvs))" and "distinct (map fst (nonempty_members kvs))"
  using assms unfolding nonempty_members_def
  by (auto intro!: sorted_filter distinct_map_filter simp: distinct_keys_sort)

lemma map_of_filter_value:
  "distinct (map fst kvs) \<Longrightarrow>
     map_of (filter (\<lambda>(k, v). P v) kvs) k = (case map_of kvs k of Some v \<Rightarrow> if P v then Some v else None | None \<Rightarrow> None)"
  by (induction kvs) (auto split: option.splits simp: map_of_eq_None_iff dest: map_of_SomeD)

lemma map_of_nonempty_members:
  assumes "distinct (map fst kvs)"
  shows "map_of (nonempty_members kvs) k = (case map_of kvs k of Some v \<Rightarrow> if is_empty_json v then None else Some v | None \<Rightarrow> None)"
proof -
  have "map_of (sort_key fst kvs) = map_of kvs"
    using assms by (subst map_of_inject_set) (auto simp: distinct_keys_sort)
  with assms show ?thesis
    unfolding nonempty_members_def
    by (subst map_of_filter_value) (auto simp: distinct_keys_sort split: option.split)
qed

lemma nonempty_members_eq_iff:
  assumes "distinct (map fst kvs)" "distinct (map fst ms)"
  shows "nonempty_members kvs = nonempty_members ms \<longleftrightarrow> map_of (nonempty_members kvs) = map_of (nonempty_members ms)"
proof
  note k = keys_nonempty_members [OF assms(1)] and m = keys_nonempty_members [OF assms(2)]
  assume "map_of (nonempty_members kvs) = map_of (nonempty_members ms)"
  with k(2) m(2) have eq: "set (nonempty_members kvs) = set (nonempty_members ms)"
    by (simp add: map_of_inject_set)
  with k(2) have "inj_on fst (set (nonempty_members kvs) \<union> set (nonempty_members ms))"
    by (simp add: distinct_map)
  with k m eq show "nonempty_members kvs = nonempty_members ms"
    by (intro map_sorted_distinct_set_unique)
qed simp

abbreviation stripped :: "(string \<times> json) list \<Rightarrow> (string \<times> json) list" where
  "stripped kvs \<equiv> nonempty_members (map (map_prod id strip_json) kvs)"

lemma map_of_stripped:
  assumes "distinct (map fst kvs)"
  shows "map_of (stripped kvs) k = norm (map_of kvs k)"
proof -
  have "map_of (map (map_prod id strip_json) kvs) k = map_option strip_json (map_of kvs k)"
    by (induction kvs) auto
  moreover have "distinct (map fst (map (map_prod id strip_json) kvs))" using assms by (simp add: comp_def)
  ultimately show ?thesis
    by (subst map_of_nonempty_members) (auto simp: norm_def split: option.splits)
qed

text \<open>The members of a value: an object's, or none.\<close>

lemma norm_object: "norm (Some (JObj kvs)) = (if stripped kvs = [] then None else Some (JObj (stripped kvs)))"
  by (simp add: norm_def)

lemma norm_object_iff:
  assumes "distinct (map fst kvs)" "distinct (map fst ms)"
  shows "norm (Some (JObj kvs)) = norm (Some (JObj ms)) \<longleftrightarrow> (\<forall>k. norm (map_of kvs k) = norm (map_of ms k))"
proof -
  have dk: "distinct (map fst (map (map_prod id strip_json) kvs))" and dm: "distinct (map fst (map (map_prod id strip_json) ms))"
    using assms by (simp_all add: comp_def)
  have "norm (Some (JObj kvs)) = norm (Some (JObj ms)) \<longleftrightarrow> stripped kvs = stripped ms"
    by (auto simp: norm_object)
  also have "\<dots> \<longleftrightarrow> map_of (stripped kvs) = map_of (stripped ms)"
    by (rule nonempty_members_eq_iff [OF dk dm])
  finally show ?thesis using assms by (simp add: fun_eq_iff map_of_stripped)
qed

lemma same_object_iff:
  assumes "distinct (map fst kvs)" "distinct (map fst ms)"
  shows "same (Some (JObj kvs)) (Some (JObj ms)) \<longleftrightarrow> (\<forall>k. same (map_of kvs k) (map_of ms k))"
  using norm_object_iff [OF assms] by (simp add: same_iff_norm)

lemma norm_array: "norm (Some (JArr xs)) = (if xs = [] then None else Some (JArr (map strip_json xs)))"
  by (simp add: norm_def)

text \<open>Lists without empty elements compare element by element.\<close>

definition no_empty_elem :: "json list \<Rightarrow> bool" where
  "no_empty_elem xs \<longleftrightarrow> list_all (\<lambda>x. \<not> is_empty_json (strip_json x)) xs"

lemma same_row_strip:
  "\<not> is_empty_json (strip_json a) \<Longrightarrow> same_row a b \<Longrightarrow> strip_json a = strip_json b"
  by (auto simp: same_row_def same_iff_norm norm_def split: if_splits)

lemma same_array:
  assumes "no_empty_elem xs" "list_all2 same_row xs ys"
  shows "same (Some (JArr xs)) (Some (JArr ys))"
proof -
  from assms(2,1) have "map strip_json xs = map strip_json ys"
    by (induction rule: list_all2_induct) (auto simp: no_empty_elem_def dest: same_row_strip)
  moreover have "xs = [] \<longleftrightarrow> ys = []" using assms(2) by auto
  ultimately show ?thesis by (simp add: same_iff_norm norm_array)
qed

section \<open>Reading back what was written\<close>

lemma get_path_None [simp]: "get_path None ks = None"
  by (induction ks) auto

lemma get_set_path: "set_path obj path v = Some obj' \<Longrightarrow> is_object obj \<Longrightarrow>
    (\<forall>ks. ks \<noteq> [] \<longrightarrow> prefix ks path \<longrightarrow> ks \<noteq> path \<longrightarrow> \<not> is_array (get_path (Some obj) ks)) \<Longrightarrow>
    get_path (Some obj') path = v"
proof (induction obj path v arbitrary: obj' rule: set_path.induct)
  case (2 kvs k v)
  then show ?case by (auto simp: map_of_del_key split: option.splits)
next
  case (3 kvs k k' ks v)
  let ?c = "if truthy (map_of kvs k) then the (map_of kvs k) else JObj []"
  from "3.prems"(1) obtain child where c: "set_path ?c (k' # ks) v = Some child"
    and obj': "obj' = JObj (put_key k child kvs)" by (auto split: option.splits)
  have na: "\<not> is_array (get_path (map_of kvs k) qs)" if "prefix qs (k' # ks)" "qs \<noteq> k' # ks" for qs
    using "3.prems"(3) [rule_format, of "k # qs"] that by simp
  have "get_path (Some child) (k' # ks) = v"
  proof (cases ?c)
    case (JObj cs)
    have "is_object ?c" by (simp add: JObj is_object_def)
    moreover have "\<not> is_array (get_path (Some ?c) qs)" if "qs \<noteq> []" "prefix qs (k' # ks)" "qs \<noteq> k' # ks" for qs
    proof (cases "truthy (map_of kvs k)")
      case True
      then have "Some ?c = map_of kvs k" by (auto simp: truthy_def split: option.splits)
      with na [OF that(2,3)] show ?thesis by simp
    next
      case False
      with that(1) show ?thesis by (cases qs) (auto simp: is_array_def)
    qed
    ultimately show ?thesis using "3.IH" [OF c] by blast
  next
    case (JArr xs)
    then have "is_array (map_of kvs k)"
      by (auto simp: truthy_def is_array_def split: if_splits option.splits)
    with na [of "[]"] show ?thesis by simp
  qed (use c in \<open>auto split: if_splits json.splits\<close>)
  then show ?case by (simp add: obj')
qed (auto simp: is_object_def split: if_splits)


text \<open>Writing at a path leaves every value on another branch as it was.\<close>

lemma get_path_falsy: "\<not> truthy v \<Longrightarrow> ks \<noteq> [] \<Longrightarrow> get_path v ks = None"
  by (cases ks) (auto simp: truthy_def split: option.splits json.splits)

lemma get_path_other: "set_path obj path v = Some obj' \<Longrightarrow> \<not> prefix path q \<Longrightarrow> \<not> prefix q path \<Longrightarrow>
    get_path (Some obj') q = get_path (Some obj) q"
proof (induction obj path v arbitrary: obj' q rule: set_path.induct)
  case (2 kvs k v)
  then show ?case
    by (cases q) (auto simp: map_of_del_key split: option.splits)
next
  case (3 kvs k k' ks v)
  let ?c = "if truthy (map_of kvs k) then the (map_of kvs k) else JObj []"
  from "3.prems"(1) obtain child where c: "set_path ?c (k' # ks) v = Some child"
    and obj': "obj' = JObj (put_key k child kvs)" by (auto split: option.splits)
  from "3.prems"(3) obtain q0 qs where q: "q = q0 # qs" by (cases q) auto
  show ?case
  proof (cases "q0 = k")
    case True
    with "3.prems" q have np: "\<not> prefix (k' # ks) qs" "\<not> prefix qs (k' # ks)" by auto
    then have "qs \<noteq> []" by auto
    have "get_path (Some child) qs = get_path (Some ?c) qs" by (rule "3.IH" [OF c np])
    also have "\<dots> = get_path (map_of kvs k) qs"
    proof (cases "truthy (map_of kvs k)")
      case True
      then show ?thesis by (auto simp: truthy_def split: option.splits)
    next
      case False
      then have "get_path (map_of kvs k) qs = None" using \<open>qs \<noteq> []\<close> by (rule get_path_falsy)
      with False \<open>qs \<noteq> []\<close> show ?thesis by (cases qs) auto
    qed
    finally show ?thesis using True q obj' by simp
  qed (use q obj' in simp)
qed (auto split: if_splits)

lemma set_path_is_object: "set_path obj path v = Some obj' \<Longrightarrow> is_object obj \<Longrightarrow> is_object obj'"
  by (cases "(obj, path, v)" rule: set_path.cases) (auto simp: is_object_def split: option.splits if_splits)

end
