(* ===== verification/Config_Save.thy ===== *)
theory Config_Save
  imports Js_Json "HOL-Library.Word"
begin

text \<open>
  \<open>core/config_save.js\<close>: saving the config without losing changes made elsewhere, together with
  the API's side of the protocol (\<open>internal/api/config_handlers.go\<close> and
  \<open>internal/apply/config_yaml.go\<close>): a revision per file, sent as an ETag and checked on save.

  A \<open>host\<close> is the host's config file as one browser tab reaches it. Other tabs, the CLI and the
  network act between the tab's requests: \<open>schedule\<close> says, request by request, which files others wrote just
  before it arrives and what becomes of it. YAML, validation and SHA-256 are parameters
  (\<open>config_io\<close>).
\<close>

section \<open>Errors\<close>

record api_error =
  message :: string
  status :: "nat option"
  error_code :: "string option"

datatype save_error = MergeError string | ApiError api_error

definition REVISION_MISMATCH :: string where
  "REVISION_MISMATCH = ''config_revision_mismatch''"

definition MAX_SAVE_ATTEMPTS :: nat where
  "MAX_SAVE_ATTEMPTS = 3"

definition is_config_revision_mismatch :: "api_error \<Rightarrow> bool" where
  "is_config_revision_mismatch e \<longleftrightarrow> error_code e = Some REVISION_MISMATCH"

definition no_answer_error :: api_error where
  "no_answer_error = \<lparr>message = ''No answer from the EvuProxy API.'', status = None, error_code = None\<rparr>"

section \<open>The host: revisions and the conditional save (Go)\<close>

type_synonym digest = "256 word"

record config_io =
  sha256 :: "string \<Rightarrow> digest"
  load_yaml :: "string \<Rightarrow> json option"
  encode_yaml :: "json \<Rightarrow> api_error + string"

text \<open>\<open>hex.EncodeToString\<close> of the digest, and the quoted ETag.\<close>

fun hex_digits :: "nat \<Rightarrow> digest \<Rightarrow> string" where
  "hex_digits 0 d = []"
| "hex_digits (Suc n) d = hex_digits n (drop_bit 4 d) @ [hex_char (unat (take_bit 4 d))]"

definition revision_of :: "config_io \<Rightarrow> string \<Rightarrow> string" where
  "revision_of io f = hex_digits 64 (sha256 io f)"

definition etag_of :: "config_io \<Rightarrow> string \<Rightarrow> string" where
  "etag_of io f = CHR 0x22 # revision_of io f @ [CHR 0x22]"

definition trim_quotes :: "string \<Rightarrow> string" where
  "trim_quotes s = rev (dropWhile (\<lambda>c. c = CHR 0x22) (rev (dropWhile (\<lambda>c. c = CHR 0x22) s)))"

definition if_match_tag :: "string \<Rightarrow> string" where
  "if_match_tag tag = trim_quotes (if starts_with tag ''W/'' then drop 2 tag else tag)"

text \<open>
  \<open>parseIfMatch\<close>: the revisions a PUT may overwrite, or \<open>None\<close> for an unconditional save. The
  argument lists the request's If-Match headers.
\<close>

definition parse_if_match :: "string list \<Rightarrow> string list option" where
  "parse_if_match values =
     (if values = [] then None
      else (let tags = map trim (concat (map (split_on (CHR '','')) values)) in
        if ''*'' \<in> set tags then None else Some (nonempty (map if_match_tag tags))))"

text \<open>
  \<open>SaveConfigYAMLIfMatch\<close>, under the apply lock: the revision check comes before validation.
  The result is the new file, or the error the handler answers with.
\<close>

definition save_config_yaml_if_match ::
  "config_io \<Rightarrow> string \<Rightarrow> json \<Rightarrow> string list option \<Rightarrow> api_error + string" where
  "save_config_yaml_if_match io cur cfg revisions =
     (case revisions of
        Some rs \<Rightarrow>
          if revision_of io cur \<notin> set rs
          then Inl \<lparr>message = ''configuration changed since it was loaded; fetch it again and reapply your change'',
                    status = Some 409, error_code = Some REVISION_MISMATCH\<rparr>
          else encode_yaml io cfg
      | None \<Rightarrow> encode_yaml io cfg)"

section \<open>Requests\<close>

text \<open>
  What becomes of a request: handled, lost on the way, handled with its answer lost, or refused
  before its handler acts (another operation in progress, a rejected token, a gateway error).
\<close>

datatype fate = Delivered | LostRequest | LostAnswer | Refused api_error

record turn =
  foreign :: "string list"
  fate :: fate

text \<open>A parsed config and the ETag it came with, "" if there was none.\<close>

record snapshot =
  body :: json
  etag :: string

record host =
  host_file :: string
  schedule :: "turn list"
  writes :: "(string \<times> string) list"  \<comment> \<open>this tab's saves: the file replaced, the file written\<close>
  sent_puts :: nat

definition arrive :: "host \<Rightarrow> fate \<times> host" where
  "arrive s = (case schedule s of
     [] \<Rightarrow> (Delivered, s)
   | t # ts \<Rightarrow> (fate t, s\<lparr>host_file := last (host_file s # foreign t), schedule := ts\<rparr>))"

definition api_get_config :: "config_io \<Rightarrow> host \<Rightarrow> (api_error + snapshot) \<times> host" where
  "api_get_config io s0 = (case arrive s0 of (f, s) \<Rightarrow>
     (case f of
        LostRequest \<Rightarrow> (Inl no_answer_error, s)
      | LostAnswer \<Rightarrow> (Inl no_answer_error, s)
      | Refused e \<Rightarrow> (Inl e, s)
      | Delivered \<Rightarrow>
          (case load_yaml io (host_file s) of
             None \<Rightarrow> (Inl \<lparr>message = ''could not read configuration'', status = Some 500, error_code = None\<rparr>, s)
           | Some j \<Rightarrow> (Inr \<lparr>body = j, etag = etag_of io (host_file s)\<rparr>, s))))"

text \<open>PUT /v1/config. \<open>if_match\<close> lists the If-Match headers sent: none when there is no revision.\<close>

definition api_put_config ::
  "config_io \<Rightarrow> json \<Rightarrow> string list \<Rightarrow> host \<Rightarrow> (api_error + unit) \<times> host" where
  "api_put_config io cfg if_match s0 = (case arrive (s0\<lparr>sent_puts := Suc (sent_puts s0)\<rparr>) of (f, s) \<Rightarrow>
     (case f of
        LostRequest \<Rightarrow> (Inl no_answer_error, s)
      | Refused e \<Rightarrow> (Inl e, s)
      | _ \<Rightarrow>
          (case save_config_yaml_if_match io (host_file s) cfg (parse_if_match if_match) of
             Inl e \<Rightarrow> (Inl (if f = LostAnswer then no_answer_error else e), s)
           | Inr new \<Rightarrow>
               (if f = LostAnswer then Inl no_answer_error else Inr (),
                s\<lparr>host_file := new, writes := writes s @ [(host_file s, new)]\<rparr>))))"

section \<open>Saving an edit\<close>

text \<open>
  The functions below call the API through \<open>get\<close> and \<open>put\<close>, over any state \<open>'w\<close> of the world
  outside the tab, and return the new \<open>state.lastConfig\<close> with their result.
\<close>

type_synonym 'w getter = "'w \<Rightarrow> (api_error + snapshot) \<times> 'w"
type_synonym 'w putter = "json \<Rightarrow> string list \<Rightarrow> 'w \<Rightarrow> (api_error + unit) \<times> 'w"

definition put_config_at_revision ::
  "'w getter \<Rightarrow> 'w putter \<Rightarrow> json \<Rightarrow> string \<Rightarrow> 'w \<Rightarrow> (api_error + snapshot) \<times> 'w" where
  "put_config_at_revision get put cfg revision w =
     (case put cfg (if revision \<noteq> [] then [revision] else []) w of
        (Inl e, w1) \<Rightarrow> (Inl e, w1)
      | (Inr _, w1) \<Rightarrow>
          (case get w1 of
             (Inr snap, w2) \<Rightarrow> (Inr snap, w2)
           | (Inl _, w2) \<Rightarrow> (Inr \<lparr>body = cfg, etag = []\<rparr>, w2)))"

text \<open>
  An edit works on a copy of the config. It throws a \<open>ConfigMergeError\<close>, or leaves a changed
  copy; the flag is false when it returned \<open>false\<close>, which skips the save.
\<close>

type_synonym edit = "json \<Rightarrow> string + (bool \<times> json)"

definition KEPT_CHANGING :: string where
  "KEPT_CHANGING = ''The saved config kept changing elsewhere, so your change was not saved. Try again.''"

text \<open>The loop of \<open>saveConfigEdit\<close> with \<open>n\<close> attempts left, from \<open>state.lastConfig = base\<close>.\<close>

fun save_attempts ::
  "'w getter \<Rightarrow> 'w putter \<Rightarrow> edit \<Rightarrow> nat \<Rightarrow> snapshot \<Rightarrow> 'w \<Rightarrow> (save_error + snapshot) \<times> snapshot \<times> 'w" where
  "save_attempts get put edit 0 base w = (Inl (MergeError KEPT_CHANGING), base, w)"
| "save_attempts get put edit (Suc n) base w =
     (case edit (body base) of
        Inl e \<Rightarrow> (Inl (MergeError e), base, w)
      | Inr (changed, draft) \<Rightarrow>
          if \<not> changed then (Inr base, base, w)
          else (case put_config_at_revision get put draft (etag base) w of
             (Inr snap, w1) \<Rightarrow> (Inr snap, snap, w1)
           | (Inl e, w1) \<Rightarrow>
               if \<not> is_config_revision_mismatch e then (Inl (ApiError e), base, w1)
               else (case get w1 of
                   (Inl e', w2) \<Rightarrow> (Inl (ApiError e'), base, w2)
                 | (Inr snap, w2) \<Rightarrow> save_attempts get put edit n snap w2)))"

definition save_config_edit ::
  "'w getter \<Rightarrow> 'w putter \<Rightarrow> edit \<Rightarrow> snapshot option \<Rightarrow> 'w \<Rightarrow>
     (save_error + snapshot) \<times> snapshot option \<times> 'w" where
  "save_config_edit get put edit lc w =
     (let run = (\<lambda>b w1. case save_attempts get put edit MAX_SAVE_ATTEMPTS b w1 of (r, b', w2) \<Rightarrow> (r, Some b', w2)) in
      case lc of
        Some b \<Rightarrow>
          if etag b \<noteq> [] then run b w
          else (case get w of (Inl e, w1) \<Rightarrow> (Inl (ApiError e), lc, w1) | (Inr snap, w1) \<Rightarrow> run snap w1)
      | None \<Rightarrow> (case get w of (Inl e, w1) \<Rightarrow> (Inl (ApiError e), lc, w1) | (Inr snap, w1) \<Rightarrow> run snap w1))"

section \<open>Finding the row the user acted on\<close>

text \<open>The result is an index, -1 for no match, or -2 for an ambiguous one.\<close>

definition resolve_list_index :: "json list option \<Rightarrow> int \<Rightarrow> string \<Rightarrow> (json \<Rightarrow> string) \<Rightarrow> int" where
  "resolve_list_index lst openIndex identity identityOf = (case lst of
     None \<Rightarrow> -1
   | Some rows \<Rightarrow>
       if 0 \<le> openIndex \<and> openIndex < int (length rows) \<and> rows ! nat openIndex \<noteq> JNull
          \<and> identityOf (rows ! nat openIndex) = identity
       then openIndex
       else (case filter (\<lambda>i. identityOf (rows ! i) = identity) [0..<length rows] of
           [] \<Rightarrow> -1
         | [i] \<Rightarrow> int i
         | _ \<Rightarrow> -2))"

text \<open>\<open>(r.ports || []).join(",")\<close>.\<close>

definition join_or_empty :: "jsval \<Rightarrow> string" where
  "join_or_empty v = (case js_or v (Some (JArr [])) of Some (JArr xs) \<Rightarrow> js_string (JArr xs) | _ \<Rightarrow> [])"

definition route_identity :: "json \<Rightarrow> string" where
  "route_identity r =
     lower (str_or_empty (member_json r ''proto'')) @ [CHR 0x00] @
     join_or_empty (member_json r ''ports'') @ [CHR 0x00] @
     str_or_empty (member_json r ''target_ip'')"

definition find_config_row ::
  "json list option \<Rightarrow> int \<Rightarrow> string \<Rightarrow> (json \<Rightarrow> string) \<Rightarrow> string \<Rightarrow> string + nat" where
  "find_config_row lst openIndex identity identityOf what =
     (let i = resolve_list_index lst openIndex identity identityOf in
      if i = -1 then Inl (''That '' @ what @ '' was changed or removed elsewhere, so your change was not saved.'')
      else if i = -2 then Inl (''Could not uniquely identify that '' @ what @ ''; refresh and try again.'')
      else Inr (nat i))"


section \<open>The interface: a store with revisions\<close>

text \<open>
  What saving relies on: reading gives a config with the tag of some stored file, and a save
  that names a tag only ever replaces a file with the same digest.
\<close>

locale revision_store =
  fixes get :: "'w getter"
    and put :: "'w putter"
    and view :: "'f \<Rightarrow> json option"
    and digest_of :: "'f \<Rightarrow> 'd"
    and tag_of :: "'f \<Rightarrow> string"
    and stores :: "json \<Rightarrow> 'f \<Rightarrow> bool"
    and saved :: "'w \<Rightarrow> ('f \<times> 'f) list"
  assumes tag_nonempty: "tag_of f \<noteq> []"
    and get_snapshot: "get w = (Inr snap, w') \<Longrightarrow> \<exists>f. view f = Some (body snap) \<and> etag snap = tag_of f"
    and get_saves_nothing: "get w = (r, w') \<Longrightarrow> saved w' = saved w"
    and put_replaces_tagged: "put cfg [tag_of f] w = (q, w') \<Longrightarrow> saved w' \<noteq> saved w \<Longrightarrow>
      \<exists>old new. saved w' = saved w @ [(old, new)] \<and> digest_of old = digest_of f \<and> stores cfg new"
    and put_accepted: "put cfg tags w = (Inr u, w') \<Longrightarrow> saved w' \<noteq> saved w"
    and put_mismatch: "put cfg tags w = (Inl e, w') \<Longrightarrow> is_config_revision_mismatch e \<Longrightarrow> saved w' = saved w"
begin

definition snapshot_ok :: "snapshot \<Rightarrow> bool" where
  "snapshot_ok snap \<longleftrightarrow> etag snap = [] \<or> (\<exists>f. view f = Some (body snap) \<and> etag snap = tag_of f)"

text \<open>A save made by \<open>edit\<close>: the edit of the file it replaced, up to the digest of that file.\<close>

definition rebased :: "edit \<Rightarrow> 'f \<times> 'f \<Rightarrow> bool" where
  "rebased edit p \<longleftrightarrow> (\<exists>f base draft. digest_of (fst p) = digest_of f \<and> view f = Some base \<and>
     edit base = Inr (True, draft) \<and> stores draft (snd p))"

lemma get_ok: "get w = (Inr snap, w') \<Longrightarrow> snapshot_ok snap \<and> etag snap \<noteq> [] \<and> saved w' = saved w"
  using get_snapshot get_saves_nothing tag_nonempty unfolding snapshot_ok_def by fastforce

lemma put_config_log:
  assumes "put_config_at_revision get put draft (tag_of f) w = (r, w')"
  shows "saved w' = saved w \<or> (\<exists>old new. saved w' = saved w @ [(old, new)] \<and> digest_of old = digest_of f \<and> stores draft new)"
    and "\<exists>snap. r = Inr snap \<Longrightarrow> saved w' \<noteq> saved w"
    and "r = Inl e \<Longrightarrow> is_config_revision_mismatch e \<Longrightarrow> saved w' = saved w"
    and "r = Inr snap \<Longrightarrow> snapshot_ok snap"
proof -
  obtain p w1 where p: "put draft [tag_of f] w = (p, w1)" by fastforce
  have same: "\<And>r2 w2. get w1 = (r2, w2) \<Longrightarrow> saved w2 = saved w1" using get_saves_nothing by blast
  have logs: "saved w' = saved w1"
    using assms p same tag_nonempty by (auto simp: put_config_at_revision_def split: sum.splits prod.splits)
  show "saved w' = saved w \<or> (\<exists>old new. saved w' = saved w @ [(old, new)] \<and> digest_of old = digest_of f \<and> stores draft new)"
    using put_replaces_tagged [OF p] logs by auto
  show "\<exists>snap. r = Inr snap \<Longrightarrow> saved w' \<noteq> saved w"
    using assms p tag_nonempty put_accepted logs
    by (auto simp: put_config_at_revision_def split: sum.splits prod.splits)
  show "r = Inl e \<Longrightarrow> is_config_revision_mismatch e \<Longrightarrow> saved w' = saved w"
    using assms p tag_nonempty put_mismatch logs
    by (auto simp: put_config_at_revision_def split: sum.splits prod.splits)
  show "r = Inr snap \<Longrightarrow> snapshot_ok snap"
    using assms p tag_nonempty
    by (auto simp: put_config_at_revision_def snapshot_ok_def split: sum.splits prod.splits dest!: get_snapshot)
qed

definition at_most_one_rebased :: "edit \<Rightarrow> 'w \<Rightarrow> 'w \<Rightarrow> bool" where
  "at_most_one_rebased edit w w' \<longleftrightarrow> saved w' = saved w \<or> (\<exists>p. saved w' = saved w @ [p] \<and> rebased edit p)"

text \<open>An attempt that goes wrong for another reason than a mismatch is the last one.\<close>

lemma save_attempts_saves:
  "snapshot_ok base \<Longrightarrow> etag base \<noteq> [] \<Longrightarrow> save_attempts get put edit n base w = (r, b, w') \<Longrightarrow>
     at_most_one_rebased edit w w' \<and> snapshot_ok b \<and>
     (\<forall>snap. r = Inr snap \<longrightarrow> saved w' \<noteq> saved w \<or> (\<exists>d. edit (body b) = Inr (False, d)))"
proof (induction n arbitrary: base w)
  case 0
  then show ?case by (auto simp: at_most_one_rebased_def)
next
  case (Suc n)
  obtain f where f: "view f = Some (body base)" "etag base = tag_of f"
    using Suc.prems(1,2) by (auto simp: snapshot_ok_def)
  show ?case
  proof (cases "\<exists>draft. edit (body base) = Inr (True, draft)")
    case False
    with Suc.prems show ?thesis
      by (auto simp: at_most_one_rebased_def split: sum.splits prod.splits bool.splits)
  next
    case True
    then obtain draft where draft: "edit (body base) = Inr (True, draft)" ..
    obtain q w1 where q: "put_config_at_revision get put draft (tag_of f) w = (q, w1)" by fastforce
    note log = put_config_log [OF q]
    have one: "at_most_one_rebased edit w w1"
      using log(1) draft f unfolding at_most_one_rebased_def rebased_def by force
    show ?thesis
    proof (cases q)
      case (Inr snap)
      with Suc.prems(3) draft f q one log(2,4) show ?thesis by auto
    next
      case (Inl e)
      show ?thesis
      proof (cases "is_config_revision_mismatch e")
        case False
        with Suc.prems draft f q one Inl show ?thesis by auto
      next
        case True
        obtain g w2 where g: "get w1 = (g, w2)" by fastforce
        have same: "saved w2 = saved w"
          using log(3) [OF Inl True] get_saves_nothing [OF g] by simp
        show ?thesis
        proof (cases g)
          case (Inl e')
          with Suc.prems draft f q \<open>q = Inl e\<close> True g same show ?thesis
            by (auto simp: at_most_one_rebased_def)
        next
          case (Inr snap)
          then have rec: "save_attempts get put edit n snap w2 = (r, b, w')"
            using Suc.prems(3) draft f q Inl True g by auto
          have "snapshot_ok snap" "etag snap \<noteq> []" using get_ok g Inr by blast+
          with Suc.IH [OF _ _ rec] same show ?thesis by (simp add: at_most_one_rebased_def)
        qed
      qed
    qed
  qed
qed

lemma save_config_edit_saves:
  assumes "\<And>b. lc = Some b \<Longrightarrow> snapshot_ok b" "save_config_edit get put edit lc w = (r, lc', w')"
  shows "at_most_one_rebased edit w w' \<and> (\<forall>b. lc' = Some b \<longrightarrow> snapshot_ok b) \<and>
    (\<forall>snap. r = Inr snap \<longrightarrow> saved w' \<noteq> saved w \<or> (\<exists>b d. lc' = Some b \<and> edit (body b) = Inr (False, d)))"
proof -
  have run: "at_most_one_rebased edit w w' \<and> (\<forall>b. lc' = Some b \<longrightarrow> snapshot_ok b) \<and>
    (\<forall>snap. r = Inr snap \<longrightarrow> saved w' \<noteq> saved w \<or> (\<exists>b d. lc' = Some b \<and> edit (body b) = Inr (False, d)))"
    if "save_attempts get put edit MAX_SAVE_ATTEMPTS b w1 = (r, b', w')" "lc' = Some b'" "saved w1 = saved w"
      "snapshot_ok b" "etag b \<noteq> []" for b b' w1
    using save_attempts_saves [OF that(4,5,1)] that(2,3) by (simp add: at_most_one_rebased_def)
  show ?thesis
  proof (cases "\<exists>b. lc = Some b \<and> etag b \<noteq> []")
    case True
    then show ?thesis
      using assms run by (auto simp: save_config_edit_def Let_def split: prod.splits)
  next
    case False
    obtain g w1 where g: "get w = (g, w1)" by fastforce
    from False assms(2) have eq: "(case g of Inl e \<Rightarrow> (Inl (ApiError e), lc, w1)
        | Inr snap \<Rightarrow> (case save_attempts get put edit MAX_SAVE_ATTEMPTS snap w1 of (r, b', w2) \<Rightarrow> (r, Some b', w2)))
        = (r, lc', w')"
      by (auto simp: save_config_edit_def Let_def g split: option.splits sum.splits)
    show ?thesis
    proof (cases g)
      case (Inl e)
      with eq g assms(1) get_saves_nothing show ?thesis by (auto simp: at_most_one_rebased_def)
    next
      case (Inr snap)
      with eq obtain b' where "save_attempts get put edit MAX_SAVE_ATTEMPTS snap w1 = (r, b', w')" "lc' = Some b'"
        by (auto split: prod.splits)
      with run get_ok [OF g [unfolded Inr]] show ?thesis by blast
    qed
  qed
qed

end


text \<open>A store that counts the saves it is asked for, accepted or not.\<close>

locale counted_store = revision_store +
  fixes puts :: "'a \<Rightarrow> nat"
  assumes get_count: "get w = (g, w') \<Longrightarrow> puts w' = puts w"
    and put_count: "put cfg tags w = (q, w') \<Longrightarrow> puts w' = Suc (puts w)"
begin

lemma put_config_count: "put_config_at_revision get put cfg tag w = (r, w') \<Longrightarrow> puts w' = Suc (puts w)"
  using get_count put_count
  by (fastforce simp: put_config_at_revision_def split: sum.splits prod.splits)

lemma save_attempts_count: "save_attempts get put edit n base w = (r, b, w') \<Longrightarrow> puts w' \<le> puts w + n"
proof (induction n arbitrary: base w)
  case (Suc n)
  show ?case
  proof (cases "\<exists>draft. edit (body base) = Inr (True, draft)")
    case False
    with Suc.prems show ?thesis by (auto split: sum.splits prod.splits bool.splits)
  next
    case True
    then obtain draft q w1 where draft: "edit (body base) = Inr (True, draft)"
      and q: "put_config_at_revision get put draft (etag base) w = (q, w1)" by fastforce
    obtain g w2 where g: "get w1 = (g, w2)" by fastforce
    have "puts w1 = Suc (puts w)" "puts w2 = Suc (puts w)"
      using put_config_count [OF q] get_count [OF g] by simp_all
    then show ?thesis
      using Suc.prems draft q g Suc.IH
      by (cases q; cases g) (fastforce split: if_splits)+
  qed
qed simp

lemma save_config_edit_count:
  "save_config_edit get put edit lc w = (r, lc', w') \<Longrightarrow> puts w' \<le> puts w + MAX_SAVE_ATTEMPTS"
  using save_attempts_count get_count
  by (fastforce simp: save_config_edit_def Let_def split: option.splits sum.splits prod.splits if_splits)

end

section \<open>The host is such a store\<close>

lemma hex_char_plain:
  "n < 16 \<Longrightarrow> \<not> is_ws (hex_char n) \<and> hex_char n \<noteq> CHR '','' \<and> hex_char n \<noteq> CHR 0x22 \<and> hex_char n \<noteq> CHR ''*''"
proof -
  assume n: "n < 16"
  have code: "of_char (hex_char n) = (if n < 10 then 48 + n else 87 + n)"
    using n by (simp add: hex_char_def digit_char_def)
  have low: "hex_char n \<noteq> c" if "(of_char c :: nat) < 48" for c
  proof
    assume "hex_char n = c"
    with code that show False by (simp split: if_splits)
  qed
  have "\<not> is_ws (hex_char n)" using n by (simp add: is_ws_def Let_def code)
  with low show ?thesis by simp
qed

lemma hex_digits_chars: "c \<in> set (hex_digits n d) \<Longrightarrow> \<exists>k<16. c = hex_char k"
proof (induction n arbitrary: d)
  case (Suc n)
  have "unat (take_bit 4 d) < 16"
    using take_bit_nat_less_exp [of 4 "unat d"] by (simp add: unsigned_take_bit_eq)
  with Suc show ?case by auto
qed simp

lemma length_hex_digits [simp]: "length (hex_digits n d) = n"
  by (induction n arbitrary: d) auto

lemma hex_char_inject: "m < 16 \<Longrightarrow> n < 16 \<Longrightarrow> hex_char m = hex_char n \<Longrightarrow> m = n"
  by (metis hex_val_hex_char)

lemma take_bit_4_bound: "unat (take_bit 4 (d :: digest)) < 16"
  using take_bit_nat_less_exp [of 4 "unat d"] by (simp add: unsigned_take_bit_eq)

lemma hex_digits_inject: "hex_digits n d = hex_digits n e \<Longrightarrow> take_bit (4 * n) d = take_bit (4 * n) e"
proof (induction n arbitrary: d e)
  case (Suc n)
  then have "hex_digits n (drop_bit 4 d) = hex_digits n (drop_bit 4 e)"
    and "hex_char (unat (take_bit 4 d)) = hex_char (unat (take_bit 4 e))" by simp_all
  then have "take_bit (4 * n) (drop_bit 4 d) = take_bit (4 * n) (drop_bit 4 e)"
    and "take_bit 4 d = take_bit 4 e"
    by (blast intro: Suc.IH, metis hex_char_inject take_bit_4_bound word_unat_eq_iff)
  then have eqs: "bit (take_bit (4 * n) (drop_bit 4 d)) i = bit (take_bit (4 * n) (drop_bit 4 e)) i"
    "bit (take_bit 4 d) i = bit (take_bit 4 e) i" for i by simp_all
  have hi: "bit d (4 + i) = bit e (4 + i)" if "i < 4 * n" for i
    using eqs(1) [of i] that by (simp only: bit_take_bit_iff bit_drop_bit_eq comp_apply simp_thms)
  have lo: "bit d i = bit e i" if "i < 4" for i
    using eqs(2) [of i] that by (simp only: bit_take_bit_iff simp_thms)
  show ?case
  proof (rule bit_word_eqI)
    fix i assume "i < LENGTH(256)"
    then show "bit (take_bit (4 * Suc n) d) i = bit (take_bit (4 * Suc n) e) i"
      using hi [of "i - 4"] lo [of i] by (cases "i < 4") (auto simp: bit_simps)
  qed
qed simp

lemma revision_of_inject: "revision_of io f = revision_of io g \<longleftrightarrow> sha256 io f = sha256 io g"
proof
  assume "revision_of io f = revision_of io g"
  then have "take_bit (4 * 64) (sha256 io f) = take_bit (4 * 64) (sha256 io g)"
    unfolding revision_of_def by (rule hex_digits_inject)
  then show "sha256 io f = sha256 io g" by (simp add: take_bit_word_eq_self)
qed (simp add: revision_of_def)

text \<open>The ETag the host sends comes back as the one revision it names.\<close>

lemma parse_if_match_etag: "parse_if_match [etag_of io f] = Some [revision_of io f]"
proof -
  let ?r = "revision_of io f"
  have plain: "\<not> is_ws c \<and> c \<noteq> CHR '','' \<and> c \<noteq> CHR 0x22 \<and> c \<noteq> CHR ''*''" if "c \<in> set ?r" for c
    using that hex_digits_chars hex_char_plain unfolding revision_of_def by metis
  have len: "length ?r = 64" by (simp add: revision_of_def)
  then have ne: "?r \<noteq> []" by auto
  have split: "split_on (CHR '','') (etag_of io f) = [etag_of io f]"
    by (rule split_on_no_sep) (use plain in \<open>auto simp: etag_of_def\<close>)
  have trim: "trim (etag_of io f) = etag_of io f"
    by (rule trim_no_ws_ends) (simp add: etag_of_def is_ws_def Let_def)
  have noq: "dropWhile (\<lambda>c. c = CHR 0x22) (?r @ x) = ?r @ x" for x
    using ne plain hd_in_set by (subst dropWhile_eq_self_iff) (auto simp: hd_append)
  have noqr: "dropWhile (\<lambda>c. c = CHR 0x22) (rev ?r) = rev ?r"
    using ne plain last_in_set by (subst dropWhile_eq_self_iff) (auto simp: hd_rev)
  have "if_match_tag (etag_of io f) = ?r"
    by (simp add: if_match_tag_def starts_with_def etag_of_def trim_quotes_def noq noqr)
  moreover have "etag_of io f \<noteq> ''*''" by (simp add: etag_of_def)
  ultimately show ?thesis
    using ne by (simp add: parse_if_match_def Let_def split trim nonempty_def)
qed

lemma arrive_writes [simp]: "arrive s = (f, s') \<Longrightarrow> writes s' = writes s"
  by (auto simp: arrive_def split: list.splits)

lemma api_get_config_writes: "api_get_config io s = (r, s') \<Longrightarrow> writes s' = writes s"
  by (auto simp: api_get_config_def split: prod.splits fate.splits option.splits)

lemma api_get_config_snapshot:
  "api_get_config io s = (Inr snap, s') \<Longrightarrow> \<exists>f. load_yaml io f = Some (body snap) \<and> etag snap = etag_of io f"
  by (auto simp: api_get_config_def split: prod.splits fate.splits option.splits)

lemma api_put_config_cases:
  assumes "api_put_config io cfg tags s = (r, s')"
  shows "(writes s' = writes s \<and> (\<exists>e. r = Inl e)) \<or>
    (\<exists>old new. writes s' = writes s @ [(old, new)] \<and> (r = Inr () \<or> r = Inl no_answer_error) \<and>
       save_config_yaml_if_match io old cfg (parse_if_match tags) = Inr new)"
  using assms by (force simp: api_put_config_def split: prod.splits fate.splits sum.splits if_splits)

lemma arrive_sent_puts [simp]: "arrive s = (f, s') \<Longrightarrow> sent_puts s' = sent_puts s"
  by (auto simp: arrive_def split: list.splits)

lemma api_get_config_sent: "api_get_config io s = (r, s') \<Longrightarrow> sent_puts s' = sent_puts s"
  by (auto simp: api_get_config_def split: prod.splits fate.splits option.splits)

lemma api_put_config_sent: "api_put_config io cfg tags s = (r, s') \<Longrightarrow> sent_puts s' = Suc (sent_puts s)"
  by (auto simp: api_put_config_def split: prod.splits fate.splits sum.splits if_splits dest!: arrive_sent_puts)

interpretation host: counted_store "api_get_config io" "api_put_config io" "load_yaml io" "sha256 io"
  "etag_of io" "\<lambda>cfg f. encode_yaml io cfg = Inr f" writes sent_puts for io
proof unfold_locales
  show "sent_puts w' = sent_puts w" if "api_get_config io w = (g, w')" for w g w'
    using that by (rule api_get_config_sent)
  show "sent_puts w' = Suc (sent_puts w)" if "api_put_config io cfg tags w = (q, w')" for cfg tags w q w'
    using that by (rule api_put_config_sent)
  show "etag_of io f \<noteq> []" for f by (simp add: etag_of_def)
  show "\<exists>f. load_yaml io f = Some (body snap) \<and> etag snap = etag_of io f"
    if "api_get_config io w = (Inr snap, w')" for w snap w' using that by (rule api_get_config_snapshot)
  show "writes w' = writes w" if "api_get_config io w = (r, w')" for w r w'
    using that by (rule api_get_config_writes)
  show "\<exists>old new. writes w' = writes w @ [(old, new)] \<and> sha256 io old = sha256 io f \<and> encode_yaml io cfg = Inr new"
    if "api_put_config io cfg [etag_of io f] w = (q, w')" "writes w' \<noteq> writes w" for cfg f w q w'
    using api_put_config_cases [OF that(1)] that(2)
    by (auto simp: parse_if_match_etag save_config_yaml_if_match_def revision_of_inject split: if_splits)
  show "writes w' \<noteq> writes w" if "api_put_config io cfg tags w = (Inr u, w')" for cfg tags w u w'
    using api_put_config_cases [OF that] by auto
  show "writes w' = writes w"
    if "api_put_config io cfg tags w = (Inl e, w')" "is_config_revision_mismatch e" for cfg tags w e w'
    using api_put_config_cases [OF that(1)] that(2)
    by (auto simp: is_config_revision_mismatch_def no_answer_error_def)
qed


section \<open>Saving on a quiet host\<close>

lemma arrive_quiet: "schedule s = [] \<Longrightarrow> arrive s = (Delivered, s)"
  by (simp add: arrive_def)

lemma get_quiet:
  "schedule s = [] \<Longrightarrow> load_yaml io (host_file s) = Some j \<Longrightarrow>
     api_get_config io s = (Inr \<lparr>body = j, etag = etag_of io (host_file s)\<rparr>, s)"
  by (simp add: api_get_config_def arrive_quiet)

lemma put_quiet_current:
  assumes "schedule s = []" "encode_yaml io d = Inr f" "load_yaml io f = Some j'"
    and "sha256 io g = sha256 io (host_file s)"
  shows "\<exists>s'. put_config_at_revision (api_get_config io) (api_put_config io) d (etag_of io g) s
      = (Inr \<lparr>body = j', etag = etag_of io f\<rparr>, s') \<and> host_file s' = f"
  using assms
  by (simp add: put_config_at_revision_def api_put_config_def arrive_quiet parse_if_match_etag host.tag_nonempty
      save_config_yaml_if_match_def revision_of_inject api_get_config_def)

lemma put_quiet_stale:
  assumes "schedule s = []" "sha256 io g \<noteq> sha256 io (host_file s)"
  shows "\<exists>e s'. put_config_at_revision (api_get_config io) (api_put_config io) d (etag_of io g) s
      = (Inl e, s') \<and> is_config_revision_mismatch e \<and> schedule s' = [] \<and> host_file s' = host_file s"
  using assms
  by (simp add: put_config_at_revision_def api_put_config_def arrive_quiet parse_if_match_etag host.tag_nonempty
      save_config_yaml_if_match_def revision_of_inject is_config_revision_mismatch_def)

lemma save_attempts_current:
  assumes "schedule s = []" "edit j = Inr (True, d)" "encode_yaml io d = Inr f" "load_yaml io f = Some j'"
    and "sha256 io g = sha256 io (host_file s)"
  shows "\<exists>s'. save_attempts (api_get_config io) (api_put_config io) edit (Suc n) \<lparr>body = j, etag = etag_of io g\<rparr> s
      = (Inr \<lparr>body = j', etag = etag_of io f\<rparr>, \<lparr>body = j', etag = etag_of io f\<rparr>, s') \<and> host_file s' = f"
  using put_quiet_current [OF assms(1,3,4,5)] assms(2) by auto

lemma save_attempts_stale:
  assumes "schedule s = []" "load_yaml io (host_file s) = Some j"
    and "edit j = Inr (True, d)" "encode_yaml io d = Inr f" "load_yaml io f = Some j'"
    and "edit j0 = Inr (True, d0)" "sha256 io g \<noteq> sha256 io (host_file s)"
  shows "\<exists>s'. save_attempts (api_get_config io) (api_put_config io) edit (Suc (Suc n)) \<lparr>body = j0, etag = etag_of io g\<rparr> s
      = (Inr \<lparr>body = j', etag = etag_of io f\<rparr>, \<lparr>body = j', etag = etag_of io f\<rparr>, s') \<and> host_file s' = f"
proof -
  obtain e s1 where p: "put_config_at_revision (api_get_config io) (api_put_config io) d0 (etag_of io g) s = (Inl e, s1)"
    and e: "is_config_revision_mismatch e" and q: "schedule s1 = []" and same: "host_file s1 = host_file s"
    using put_quiet_stale [OF assms(1,7), of d0] by blast
  have get: "api_get_config io s1 = (Inr \<lparr>body = j, etag = etag_of io (host_file s1)\<rparr>, s1)"
    by (rule get_quiet [OF q]) (simp add: same assms(2))
  from save_attempts_current [where edit = edit and n = n, OF q assms(3,4,5) refl]
  show ?thesis
    by (subst save_attempts.simps) (simp add: assms(6) p e get del: save_attempts.simps)
qed

section \<open>Properties\<close>

text \<open>A config the tab may remember: one without a revision, or some file of the host with its ETag.\<close>

definition remembered :: "config_io \<Rightarrow> snapshot \<Rightarrow> bool" where
  "remembered io b \<longleftrightarrow> etag b = [] \<or> (\<exists>f. load_yaml io f = Some (body b) \<and> etag b = etag_of io f)"

lemma remembered_host: "remembered io b = host.snapshot_ok io b"
  by (simp add: remembered_def host.snapshot_ok_def)

text \<open>
  A host to try the properties on: a file holds the one string its config is, its digest is its
  length, and an empty string is not a valid config.
\<close>

definition toy_io :: config_io where
  "toy_io = \<lparr>sha256 = (\<lambda>f. of_nat (length f)), load_yaml = (\<lambda>f. Some (JStr f)),
     encode_yaml = (\<lambda>j. case j of JStr s \<Rightarrow> if s = [] then Inl no_answer_error else Inr s | _ \<Rightarrow> Inl no_answer_error)\<rparr>"

definition toy_edit :: edit where
  "toy_edit j = (case j of JStr s \<Rightarrow> Inr (True, JStr (s @ ''!'')) | _ \<Rightarrow> Inl ''no text'')"

text \<open>
  C2: no save loses someone else's change. Whatever other tabs and the CLI write between the
  requests, and whatever requests and answers get lost, one \<open>saveConfigEdit\<close> makes at most one
  save, and that save is the edit applied to the very file it replaced (up to a collision of
  SHA-256), re-encoded. A call that resolves has either saved or been told there is nothing to do.
\<close>

theorem save_never_loses_an_update:
  assumes "\<And>b. lc = Some b \<Longrightarrow> remembered io b"
    and "save_config_edit (api_get_config io) (api_put_config io) edit lc w = (r, lc', w')"
  shows "(writes w' = writes w \<or>
       (\<exists>old new f base draft. writes w' = writes w @ [(old, new)] \<and> sha256 io old = sha256 io f \<and>
          load_yaml io f = Some base \<and> edit base = Inr (True, draft) \<and> encode_yaml io draft = Inr new))
    \<and> (\<forall>snap. r = Inr snap \<longrightarrow> writes w' \<noteq> writes w \<or> (\<exists>b d. lc' = Some b \<and> edit (body b) = Inr (False, d)))
    \<and> (\<forall>b. lc' = Some b \<longrightarrow> remembered io b)"
  using host.save_config_edit_saves [OF assms [unfolded remembered_host]]
  unfolding host.at_most_one_rebased_def host.rebased_def remembered_host by fastforce

theorem save_never_loses_an_update_witness:
  "\<exists>r lc' w'. save_config_edit (api_get_config toy_io) (api_put_config toy_io) toy_edit
       (Some \<lparr>body = JStr ''old'', etag = etag_of toy_io ''old''\<rparr>)
       \<lparr>host_file = ''other'', schedule = [\<lparr>foreign = [''newest''], fate = LostAnswer\<rparr>], writes = [], sent_puts = 0\<rparr>
       = (r, lc', w') \<and>
     (writes w' = [] \<or> (\<exists>old new f base draft. writes w' = [(old, new)] \<and> sha256 toy_io old = sha256 toy_io f \<and>
        load_yaml toy_io f = Some base \<and> toy_edit base = Inr (True, draft) \<and> encode_yaml toy_io draft = Inr new))"
  (is "\<exists>r lc' w'. save_config_edit _ _ _ ?lc ?w = _ \<and> _")
proof -
  obtain r lc' w' where run: "save_config_edit (api_get_config toy_io) (api_put_config toy_io) toy_edit ?lc ?w = (r, lc', w')"
    by (metis prod_cases3)
  have "remembered toy_io b" if "?lc = Some b" for b
    using that by (auto simp: remembered_def toy_io_def)
  from save_never_loses_an_update [OF this run] run show ?thesis by auto
qed

text \<open>
  A save ends after at most three PUT requests, however often others get there first.
\<close>

theorem save_sends_at_most_three_puts:
  assumes "save_config_edit (api_get_config io) (api_put_config io) edit lc w = (r, lc', w')"
  shows "sent_puts w' \<le> sent_puts w + 3"
  using host.save_config_edit_count [OF assms] by (simp add: MAX_SAVE_ATTEMPTS_def)

theorem save_sends_at_most_three_puts_witness:
  "\<exists>r lc' w'. save_config_edit (api_get_config toy_io) (api_put_config toy_io) toy_edit None
       \<lparr>host_file = ''a'', schedule = [], writes = [], sent_puts = 0\<rparr> = (r, lc', w') \<and> sent_puts w' \<le> 0 + 3"
proof -
  let ?w = "\<lparr>host_file = ''a'', schedule = [], writes = [], sent_puts = 0\<rparr>"
  obtain r lc' w' where run: "save_config_edit (api_get_config toy_io) (api_put_config toy_io) toy_edit None ?w = (r, lc', w')"
    by (metis prod_cases3)
  from save_sends_at_most_three_puts [OF run] run show ?thesis by auto
qed

text \<open>
  A stale tab still saves. When nobody interferes, an edit made on any older config the
  tab remembers is applied to the host's current config, which becomes the host's file and the
  tab's config, provided the edit applies to both configs and the host accepts the result.
\<close>

theorem stale_tab_saves_onto_current_config:
  assumes quiet: "schedule s = []"
    and cur: "load_yaml io (host_file s) = Some j" "edit j = Inr (True, d)"
    and acc: "encode_yaml io d = Inr f" "load_yaml io f = Some j'"
    and old: "load_yaml io g = Some j0" "edit j0 = Inr (True, d0)"
    and nocoll: "sha256 io g = sha256 io (host_file s) \<Longrightarrow> g = host_file s"
  shows "\<exists>s'. save_config_edit (api_get_config io) (api_put_config io) edit (Some \<lparr>body = j0, etag = etag_of io g\<rparr>) s
      = (Inr \<lparr>body = j', etag = etag_of io f\<rparr>, Some \<lparr>body = j', etag = etag_of io f\<rparr>, s') \<and> host_file s' = f"
proof (cases "g = host_file s")
  case True
  with cur(1) old(1) have "j0 = j" by simp
  with save_attempts_current [where n = 2 and g = g and edit = edit, OF quiet cur(2) acc] True show ?thesis
    by (auto simp: save_config_edit_def Let_def host.tag_nonempty MAX_SAVE_ATTEMPTS_def numeral_3_eq_3 numeral_2_eq_2
        simp del: save_attempts.simps)
next
  case False
  then have "sha256 io g \<noteq> sha256 io (host_file s)" using nocoll by blast
  from save_attempts_stale [where n = 1 and edit = edit, OF quiet cur acc old(2) this] show ?thesis
    by (auto simp: save_config_edit_def Let_def host.tag_nonempty MAX_SAVE_ATTEMPTS_def numeral_3_eq_3
        simp del: save_attempts.simps)
qed


theorem stale_tab_saves_onto_current_config_witness:
  "\<exists>s'. save_config_edit (api_get_config toy_io) (api_put_config toy_io) toy_edit
       (Some \<lparr>body = JStr ''old'', etag = etag_of toy_io ''old''\<rparr>)
       \<lparr>host_file = ''newer'', schedule = [], writes = [], sent_puts = 0\<rparr>
     = (Inr \<lparr>body = JStr ''newer!'', etag = etag_of toy_io ''newer!''\<rparr>,
        Some \<lparr>body = JStr ''newer!'', etag = etag_of toy_io ''newer!''\<rparr>, s') \<and> host_file s' = ''newer!''"
  by (rule stale_tab_saves_onto_current_config [where j = "JStr ''newer''" and d = "JStr ''newer!''"
        and d0 = "JStr ''old!''"]) (simp_all add: toy_io_def toy_edit_def)

end
