(* ===== verification/Config_Changes.thy ===== *)
theory Config_Changes
  imports Json_Canon Config_Save Net
begin

text \<open>
  \<open>core/config_changes.js\<close>, first half: what differs between the applied config and the saved
  one, as a list of changes in plain language, each with the steps that make it.
\<close>

section \<open>Pairing the rows of two lists\<close>

text \<open>A key of a row: a text, or its position (\<open>atSameIndex\<close>). An empty text matches nothing.\<close>

datatype row_key = TextKey string | PosKey nat

type_synonym keying = "json \<Rightarrow> nat \<Rightarrow> row_key"

text \<open>
  One pass of \<open>matchRows\<close>: the free rows of \<open>before\<close> in order, each taking the first free row of
  \<open>after\<close> with the same key. The result has the pairs and the rows still free on both sides.
\<close>

fun match_pass ::
  "keying \<Rightarrow> json list \<Rightarrow> json list \<Rightarrow> nat list \<Rightarrow> nat list \<Rightarrow> (nat \<times> nat) list \<times> nat list \<times> nat list" where
  "match_pass keyOf before after [] fa = ([], [], fa)"
| "match_pass keyOf before after (b # fb) fa =
     (let key = keyOf (before ! b) b in
      if key = TextKey [] then
        (let (ps, rb, ra) = match_pass keyOf before after fb fa in (ps, b # rb, ra))
      else (case find (\<lambda>a. keyOf (after ! a) a = key) fa of
          None \<Rightarrow> (let (ps, rb, ra) = match_pass keyOf before after fb fa in (ps, b # rb, ra))
        | Some a \<Rightarrow> (let (ps, rb, ra) = match_pass keyOf before after fb (remove1 a fa) in ((b, a) # ps, rb, ra))))"

fun match_passes ::
  "keying list \<Rightarrow> json list \<Rightarrow> json list \<Rightarrow> nat list \<Rightarrow> nat list \<Rightarrow> (nat \<times> nat) list \<times> nat list \<times> nat list" where
  "match_passes [] before after fb fa = ([], fb, fa)"
| "match_passes (key # ks) before after fb fa =
     (let (ps, rb, ra) = match_pass key before after fb fa;
          (qs, rb', ra') = match_passes ks before after rb ra in (ps @ qs, rb', ra'))"

record matching =
  kept :: "(nat \<times> nat) list"
  edited :: "(nat \<times> nat) list"
  removed :: "nat list"
  added :: "nat list"

definition match_rows :: "json list \<Rightarrow> json list \<Rightarrow> keying list \<Rightarrow> matching" where
  "match_rows before after ks =
     (let (kp, fb, fa) = match_pass (\<lambda>r _. TextKey (canonical (Some r))) before after
            [0..<length before] [0..<length after];
          (ed, rb, ra) = match_passes ks before after fb fa in
      \<lparr>kept = kp, edited = ed, removed = rb, added = ra\<rparr>)"

section \<open>Wording\<close>

text \<open>\<open>s.replace(", ", "+")\<close>: the first one only.\<close>

fun replace_comma_space :: "string \<Rightarrow> string" where
  "replace_comma_space [] = []"
| "replace_comma_space (c # s) =
     (if prefix '', '' (c # s) then CHR ''+'' # drop 1 s else c # replace_comma_space s)"

definition proto_label :: "jsval \<Rightarrow> string" where
  "proto_label proto = replace_comma_space (upper (route_proto_plain_text (str_or_empty proto)))"

definition elem_text :: "json \<Rightarrow> string" where
  "elem_text x = (if x = JNull then [] else js_string x)"

definition joined :: "jsval \<Rightarrow> string" where
  "joined v = (case v of Some (JArr xs) \<Rightarrow> join '', '' (map elem_text xs) | _ \<Rightarrow> str_or_nothing v)"

definition format_value :: "jsval \<Rightarrow> string" where
  "format_value v = (if is_empty_value v then ''none'' else joined v)"

definition or_dash :: "string \<Rightarrow> string" where
  "or_dash s = (if s = [] then mdash else s)"

type_synonym names = "string \<Rightarrow> string option"

definition add_peer_name :: "names \<Rightarrow> json \<Rightarrow> names" where
  "add_peer_name names p =
     (let host = tunnel_host_only (str_or_empty (member_json p ''tunnel_ip''));
          name = trim (str_or_empty (member_json p ''name'')) in
      if host \<noteq> [] \<and> name \<noteq> [] then names(host \<mapsto> name) else names)"

definition peers_of :: "json \<Rightarrow> json list" where
  "peers_of cfg = (case member_json cfg ''peers'' of Some (JArr ps) \<Rightarrow> ps | _ \<Rightarrow> [])"

definition peer_names :: "json \<Rightarrow> json \<Rightarrow> names" where
  "peer_names applied saved = foldl add_peer_name Map.empty (peers_of applied @ peers_of saved)"

definition route_target :: "jsval \<Rightarrow> names \<Rightarrow> string" where
  "route_target host names =
     (let ip = trim (str_or_empty host) in case names ip of Some n \<Rightarrow> n | None \<Rightarrow> or_dash ip)"

definition route_ports :: "json \<Rightarrow> string" where
  "route_ports r = proto_label (member_json r ''proto'') @ '' '' @ or_dash (joined (member_json r ''ports''))"

definition peer_label :: "json \<Rightarrow> string" where
  "peer_label p =
     (let name = trim (str_or_empty (member_json p ''name''));
          host = tunnel_host_only (str_or_empty (member_json p ''tunnel_ip'')) in
      if name \<noteq> [] then name else if host \<noteq> [] then host
      else or_dash (take 8 (str_or_empty (member_json p ''public_key''))))"

definition inbound_label :: "json \<Rightarrow> string" where
  "inbound_label r =
     (let port = or_dash (trim (filter (\<lambda>c. c \<noteq> CHR ''{'' \<and> c \<noteq> CHR ''}'') (str_or_empty (member_json r ''dport''))));
          nt = trim (str_or_empty (member_json r ''note'')) in
      proto_label (member_json r ''proto'') @ '' '' @ port @ (if nt \<noteq> [] then '' ('' @ nt @ '')'' else []))"

section \<open>The lists shown row by row\<close>

text \<open>How the value of a field is written: as any value, not at all, or by its own format.\<close>

datatype field_format = AnyValue | HideValue | FormatAs "jsval \<Rightarrow> string"

record row_list =
  row_path :: "string list"
  row_what :: string
  row_plural :: string
  row_label :: "json \<Rightarrow> string"
  row_keys :: "keying list"
  row_fields :: "(string \<times> string \<times> field_format) list"

definition text_key :: "(json \<Rightarrow> string) \<Rightarrow> keying" where
  "text_key f r i = TextKey (f r)"

definition at_same_index :: keying where
  "at_same_index r i = PosKey i"

definition route_ports_key :: "json \<Rightarrow> string" where
  "route_ports_key r = joined (member_json r ''ports'')"

definition route_target_key :: "json \<Rightarrow> string" where
  "route_target_key r = trim (str_or_empty (member_json r ''target_ip''))"

definition trimmed_member :: "string \<Rightarrow> json \<Rightarrow> string" where
  "trimmed_member k r = trim (str_or_empty (member_json r k))"

definition peer_list :: row_list where
  "peer_list = \<lparr>row_path = [''peers''], row_what = ''peer'', row_plural = ''peers'', row_label = peer_label,
     row_keys = [text_key (\<lambda>p. str_or_empty (member_json p ''public_key'')), text_key (trimmed_member ''name''),
                 text_key (\<lambda>p. tunnel_host_only (str_or_empty (member_json p ''tunnel_ip'')))],
     row_fields = [(''name'', ''name'', AnyValue), (''tunnel_ip'', ''tunnel IP'', AnyValue),
               (''public_key'', ''public key'', HideValue)]\<rparr>"

definition route_list :: "names \<Rightarrow> row_list" where
  "route_list names = \<lparr>row_path = [''forwarding'', ''routes''], row_what = ''route'', row_plural = ''routes'',
     row_label = (\<lambda>r. route_ports r @ '' '' @ arrow @ '' '' @ route_target (member_json r ''target_ip'') names),
     row_keys = [text_key route_identity, text_key route_ports_key, text_key route_target_key, at_same_index],
     row_fields = [(''proto'', ''protocol'', FormatAs proto_label), (''ports'', ''ports'', AnyValue),
               (''target_ip'', ''target'', FormatAs (\<lambda>v. route_target v names)),
               (''source_allow_cidrs'', ''allowed sources'', AnyValue),
               (''source_deny_cidrs'', ''blocked sources'', AnyValue),
               (''port_maps'', ''port mapping'', HideValue), (''geo_mode'', ''geo mode'', AnyValue),
               (''geo_countries'', ''geo countries'', AnyValue), (''rate_limit'', ''rate limit'', HideValue),
               (''pause_when_peer_offline'', ''pause when peer is offline'', HideValue)]\<rparr>"

text \<open>A missing port joins as the text "undefined", as \<open>+\<close> on strings has it.\<close>

definition plus_text :: "jsval \<Rightarrow> string" where
  "plus_text v = (case v of None \<Rightarrow> ''undefined'' | Some j \<Rightarrow> js_string j)"

definition inbound_list :: row_list where
  "inbound_list = \<lparr>row_path = [''input_allows''], row_what = ''inbound rule'', row_plural = ''inbound rules'', row_label = inbound_label,
     row_keys = [text_key (\<lambda>r. proto_label (member_json r ''proto'') @ '' '' @ plus_text (member_json r ''dport'')),
                 text_key (\<lambda>r. str_or_empty (member_json r ''dport'')), text_key (trimmed_member ''note''), at_same_index],
     row_fields = [(''proto'', ''protocol'', FormatAs proto_label), (''dport'', ''port'', AnyValue), (''note'', ''note'', AnyValue)]\<rparr>"

definition row_lists :: "names \<Rightarrow> row_list list" where
  "row_lists names = [peer_list, route_list names, inbound_list]"

section \<open>Changes and their steps\<close>

datatype step =
    RowStep "string list" jsval jsval int int "json list" "json list"
  | OrderStep "string list" "json list" "json list"
  | ValueStep "string list" jsval jsval

record change =
  change_text :: string
  change_steps :: "step list"
  change_row :: "(json option \<times> json option) option"

text \<open>\<open>new Set([...])\<close>: the first occurrence of each.\<close>

definition first_occurrences :: "string list \<Rightarrow> string list" where
  "first_occurrences ks = rev (remdups (rev ks))"

definition underscores_to_spaces :: "string \<Rightarrow> string" where
  "underscores_to_spaces s = replace_char (CHR ''_'') '' '' s"

definition field_change :: "(string \<times> string \<times> field_format) list \<Rightarrow> json \<Rightarrow> json \<Rightarrow> string \<Rightarrow> string option" where
  "field_change fs before after k =
     (let b = member_json before k; a = member_json after k in
      if k = ''disabled'' \<or> same b a then None
      else (let (label, fmt) = (case map_of fs k of Some f \<Rightarrow> f | None \<Rightarrow> (underscores_to_spaces k, AnyValue));
                show_as = (\<lambda>f v. if is_empty_value v then ''none'' else f v) in
        case fmt of
          HideValue \<Rightarrow> Some (label @ '' changed'')
        | AnyValue \<Rightarrow> Some (label @ '' '' @ show_as format_value b @ '' to '' @ show_as format_value a)
        | FormatAs f \<Rightarrow> Some (label @ '' '' @ show_as f b @ '' to '' @ show_as f a)))"

definition field_changes :: "json \<Rightarrow> json \<Rightarrow> (string \<times> string \<times> field_format) list \<Rightarrow> string list" where
  "field_changes before after fs =
     List.map_filter (field_change fs before after)
       (first_occurrences (map fst fs @ keys_json before @ keys_json after)) @
     (let b = truthy (member_json before ''disabled''); a = truthy (member_json after ''disabled'') in
      if b \<noteq> a then [if a then ''now disabled'' else ''now enabled''] else [])"

definition disabled :: "json \<Rightarrow> bool" where
  "disabled r = truthy (member_json r ''disabled'')"

definition same_but :: "string \<Rightarrow> json \<Rightarrow> json \<Rightarrow> json \<Rightarrow> bool" where
  "same_but k x a b = same_row (with_key a k x) (with_key b k x)"

definition edited_row_text :: "row_list \<Rightarrow> json \<Rightarrow> json \<Rightarrow> string" where
  "edited_row_text l before after =
     (if disabled before \<noteq> disabled after \<and> same_but ''disabled'' (JNum 0) before after
      then (if disabled after then ''Disabled '' else ''Enabled '') @ row_what l @ '' '' @ row_label l after
      else if row_what l = ''peer'' \<and> same_but ''name'' (JStr []) before after
      then ''Renamed peer '' @ row_label l before @ '' to '' @ row_label l after
      else ''Changed '' @ row_what l @ '' '' @ row_label l before @ '': '' @
        join ''; '' (field_changes before after (row_fields l)))"

text \<open>\<open>inOrder.every(...)\<close> compares each pair with the one before it.\<close>

fun increasing :: "nat list \<Rightarrow> bool" where
  "increasing [] = True"
| "increasing [x] = True"
| "increasing (x # y # zs) = (x < y \<and> increasing (y # zs))"

definition order_change :: "string list \<Rightarrow> string \<Rightarrow> json list \<Rightarrow> json list \<Rightarrow> (nat \<times> nat) list \<Rightarrow> change list" where
  "order_change pth plur before after kp =
     (let inOrder = sort_key fst kp in
      if increasing (map snd inOrder) then []
      else (let byAfter = sort_key snd kp in
        [\<lparr>change_text = ''Changed the order of '' @ plur,
          change_steps = [OrderStep pth (map (\<lambda>(b, _). before ! b) inOrder) (map (\<lambda>(_, a). after ! a) byAfter)],
          change_row = None\<rparr>]))"

definition describe_row_list :: "row_list \<Rightarrow> json \<Rightarrow> json \<Rightarrow> change list" where
  "describe_row_list l applied saved =
     (let before = list_at applied (row_path l); after = list_at saved (row_path l);
          m = match_rows before after (row_keys l) in
      map (\<lambda>b. \<lparr>change_text = ''Removed '' @ row_what l @ '' '' @ row_label l (before ! b),
                change_steps = [RowStep (row_path l) (Some (before ! b)) None (int b) (-1) before after],
                change_row = Some (Some (before ! b), None)\<rparr>) (removed m) @
      map (\<lambda>(b, a). \<lparr>change_text = edited_row_text l (before ! b) (after ! a),
                change_steps = [RowStep (row_path l) (Some (before ! b)) (Some (after ! a)) (int b) (int a) before after],
                change_row = Some (Some (before ! b), Some (after ! a))\<rparr>) (edited m) @
      map (\<lambda>a. \<lparr>change_text = ''Added '' @ row_what l @ '' '' @ row_label l (after ! a) @
                    (if disabled (after ! a) then '' (disabled)'' else []),
                change_steps = [RowStep (row_path l) None (Some (after ! a)) (-1) (int a) before after],
                change_row = Some (None, Some (after ! a))\<rparr>) (added m) @
      order_change (row_path l) (row_plural l) before after (kept m))"


section \<open>Disabling a peer along with its routes\<close>

definition cascaded :: "string \<Rightarrow> change \<Rightarrow> bool" where
  "cascaded host c = (case change_row c of
     Some (Some b, Some a) \<Rightarrow>
       \<not> disabled b \<and> disabled a \<and> same_but ''disabled'' (JNum 0) b a \<and> route_target_key b = host
   | _ \<Rightarrow> False)"

text \<open>
  One turn of the loop over the peer changes: the change, with the route changes folded into it,
  and the route changes left.
\<close>

definition before_ports :: "change \<Rightarrow> string" where
  "before_ports c = (case change_row c of Some (Some b, _) \<Rightarrow> route_ports b | _ \<Rightarrow> [])"

definition fold_cascade :: "change \<Rightarrow> change list \<Rightarrow> change \<times> change list" where
  "fold_cascade c routes = (case change_row c of
     Some (Some b, a) \<Rightarrow>
       if disabled b \<or> (case a of None \<Rightarrow> False | Some r \<Rightarrow> \<not> disabled r) then (c, routes)
       else (let host = tunnel_host_only (str_or_empty (member_json b ''tunnel_ip''));
                 cs = filter (cascaded host) routes in
         if host = [] \<or> cs = [] then (c, routes)
         else (c\<lparr>change_text := change_text c @ '' and disabled '' @
                   (if length cs = 1 then ''route '' else show_nat (length cs) @ '' routes: '') @
                   join '', '' (map before_ports cs),
                 change_steps := change_steps c @ concat (map change_steps cs)\<rparr>,
               filter (\<lambda>r. \<not> cascaded host r) routes))
   | _ \<Rightarrow> (c, routes))"

fun fold_cascades :: "change list \<Rightarrow> change list \<Rightarrow> change list \<times> change list" where
  "fold_cascades [] routes = ([], routes)"
| "fold_cascades (c # cs) routes =
     (let (c', routes') = fold_cascade c routes; (cs', routes'') = fold_cascades cs routes' in (c' # cs', routes''))"

section \<open>Settings\<close>

definition SETTING_LABELS :: "(string \<times> string) list" where
  "SETTING_LABELS =
    [(''wireguard.interface'', ''WireGuard interface''), (''wireguard.listen_port'', ''WireGuard listen port''),
     (''wireguard.private_key_file'', ''WireGuard private key file''), (''wireguard.address'', ''WireGuard address''),
     (''network.public_interface'', ''public interface''), (''network.admin_tcp_ports'', ''admin TCP ports''),
     (''network.forward_allow_docker_bridges'', ''Docker bridge forwarding''),
     (''network.forward_extra_local_cidrs'', ''extra local CIDRs''),
     (''forwarding.source_deny_cidrs'', ''blocked sources''), (''forwarding.maintenance_mode'', ''maintenance mode''),
     (''forwarding.rate_limit.tcp_syn_per_second'', ''TCP SYN rate limit''),
     (''forwarding.rate_limit.max_conn_per_ip'', ''connections per IP limit''),
     (''forwarding.rate_limit.udp_per_second'', ''UDP rate limit''), (''geo.enabled'', ''geoblocking''),
     (''geo.mode'', ''geoblocking mode''), (''geo.set_name'', ''geoblocking set name''),
     (''geo.countries'', ''geoblocking countries''), (''geo.zone_dir'', ''geoblocking zone directory''),
     (''geo.apply_to_input_allows'', ''geoblocking on inbound rules''), (''geo.break_glass_cidrs'', ''break-glass''),
     (''crowdsec.enabled'', ''CrowdSec''), (''apply.confirm'', ''revert Apply unless confirmed''),
     (''apply.confirm_timeout_seconds'', ''seconds to confirm an Apply''),
     (''auto_pause.failures_to_pause'', ''failures to auto-pause''),
     (''auto_pause.successes_to_resume'', ''successes to auto-resume''), (''auto_pause.interval'', ''auto-pause interval''),
     (''auto_pause.icmp_fallback'', ''auto-pause ICMP fallback'')]"

definition setting_label :: "string list \<Rightarrow> string" where
  "setting_label pth = (case map_of SETTING_LABELS (join ''.'' pth) of
     Some l \<Rightarrow> l | None \<Rightarrow> underscores_to_spaces (join '' '' pth))"

definition is_plain_object :: "jsval \<Rightarrow> bool" where
  "is_plain_object v = (case v of Some (JObj _) \<Rightarrow> True | _ \<Rightarrow> False)"

definition is_scalar :: "json \<Rightarrow> bool" where
  "is_scalar x = (case x of JArr _ \<Rightarrow> False | JObj _ \<Rightarrow> False | _ \<Rightarrow> True)"

definition is_scalar_list :: "jsval \<Rightarrow> bool" where
  "is_scalar_list v \<longleftrightarrow> is_empty_value v \<or> (case v of Some (JArr xs) \<Rightarrow> list_all is_scalar xs | _ \<Rightarrow> False)"

definition rows_of :: "jsval \<Rightarrow> json list" where
  "rows_of v = (case v of Some (JArr xs) \<Rightarrow> xs | _ \<Rightarrow> [])"

text \<open>\<open>before\<close> and \<open>after\<close> are the values of \<open>applied\<close> and \<open>saved\<close> at \<open>pth\<close>.\<close>

definition describe_scalar_list :: "string list \<Rightarrow> string \<Rightarrow> jsval \<Rightarrow> jsval \<Rightarrow> change list" where
  "describe_scalar_list pth label vb va =
     (let before = rows_of vb; after = rows_of va; m = match_rows before after [] in
      map (\<lambda>b. \<lparr>change_text = ''Removed '' @ js_string (before ! b) @ '' from '' @ label,
                change_steps = [RowStep pth (Some (before ! b)) None (int b) (-1) before after], change_row = None\<rparr>) (removed m) @
      map (\<lambda>a. \<lparr>change_text = ''Added '' @ js_string (after ! a) @ '' to '' @ label,
                change_steps = [RowStep pth None (Some (after ! a)) (-1) (int a) before after], change_row = None\<rparr>) (added m) @
      order_change pth label before after (kept m))"

definition describe_value :: "string list \<Rightarrow> jsval \<Rightarrow> jsval \<Rightarrow> change" where
  "describe_value pth before after =
     (let label = setting_label pth;
          show_set = (\<lambda>v. if is_empty_value v then ''not set'' else plus_text v) in
      \<lparr>change_text =
        (if is_boolean before \<or> is_boolean after then (if truthy after then ''Turned on '' else ''Turned off '') @ label
         else if is_array before \<or> is_array after \<or> is_plain_object before \<or> is_plain_object after
         then ''Changed '' @ label
         else ''Changed '' @ label @ '' from '' @ show_set before @ '' to '' @ show_set after),
       change_steps = [ValueStep pth before after], change_row = None\<rparr>)"

definition object_keys :: "jsval \<Rightarrow> string list" where
  "object_keys v = (case v of Some j \<Rightarrow> keys_json j | None \<Rightarrow> [])"

definition walks_down :: "jsval \<Rightarrow> jsval \<Rightarrow> bool" where
  "walks_down before after \<longleftrightarrow> (is_plain_object before \<or> is_empty_value before) \<and>
     (is_plain_object after \<or> is_empty_value after) \<and> (is_plain_object before \<or> is_plain_object after)"

definition at_key :: "string \<Rightarrow> jsval \<Rightarrow> jsval" where
  "at_key k v = get_path v [k]"

definition depth :: "jsval \<Rightarrow> nat" where
  "depth v = (case v of None \<Rightarrow> 0 | Some j \<Rightarrow> size j)"

lemma depth_at_key: "is_plain_object v \<Longrightarrow> depth (at_key k v) < depth v"
  "\<not> is_plain_object v \<Longrightarrow> depth (at_key k v) = 0"
proof -
  have mem: "map_of kvs k = Some x \<Longrightarrow> size x < Suc (size_list (\<lambda>p. Suc (size (snd p))) kvs)" for kvs x
    by (induction kvs) (auto split: if_splits)
  have "size (JObj kvs) = Suc (size_list (size_prod (\<lambda>_. 0) size) kvs)" for kvs by simp
  moreover have "size_prod (\<lambda>_. 0) size = (\<lambda>p :: string \<times> json. Suc (size (snd p)))"
    by (auto simp: fun_eq_iff)
  ultimately show "is_plain_object v \<Longrightarrow> depth (at_key k v) < depth v"
    using mem by (auto simp: is_plain_object_def at_key_def depth_def split: option.splits json.splits)
  show "\<not> is_plain_object v \<Longrightarrow> depth (at_key k v) = 0"
    by (auto simp: is_plain_object_def at_key_def depth_def split: option.splits json.splits)
qed

function describe_settings :: "string list \<Rightarrow> string list \<Rightarrow> jsval \<Rightarrow> jsval \<Rightarrow> change list" where
  "describe_settings row_paths pth before after =
     (if join ''.'' pth \<in> set row_paths \<or> same before after then []
      else if walks_down before after
      then concat (map (\<lambda>k. describe_settings row_paths (pth @ [k]) (at_key k before) (at_key k after))
             (first_occurrences (object_keys before @ object_keys after)))
      else if is_scalar_list before \<and> is_scalar_list after
      then describe_scalar_list pth (setting_label pth) before after
      else [describe_value pth before after])"
  by pat_completeness auto
termination
proof (relation "measure (\<lambda>(_, _, b, a). depth b + depth a)")
  fix row_paths pth before after k
  assume w: "walks_down before after"
  then show "((row_paths, pth @ [k], at_key k before, at_key k after), row_paths, pth, before, after)
      \<in> measure (\<lambda>(_, _, b, a). depth b + depth a)"
    using depth_at_key [of before k] depth_at_key [of after k]
    by (cases "is_plain_object before"; cases "is_plain_object after") (auto simp: walks_down_def)
qed simp

declare describe_settings.simps [simp del]

section \<open>The changes that turn one config into the other\<close>

definition ROW_PATHS :: "string list" where
  "ROW_PATHS = [''peers'', ''forwarding.routes'', ''input_allows'']"

definition describe_config_changes :: "json \<Rightarrow> json \<Rightarrow> change list" where
  "describe_config_changes applied saved =
     (let names = peer_names applied saved;
          peers = describe_row_list peer_list applied saved;
          routes = describe_row_list (route_list names) applied saved;
          inbound = describe_row_list inbound_list applied saved;
          (peers', routes') = fold_cascades peers routes in
      peers' @ routes' @ inbound @ describe_settings ROW_PATHS [] (Some applied) (Some saved))"

end
