(* ===== verification/Config_Review.thy ===== *)
theory Config_Review
  imports Config_Changes "HOL-Library.Sublist"
begin

text \<open>
  What the list of changes promises: pairing rows loses none and pairs none twice, and the list
  is complete, so a config that differs from the applied one always shows a change.
\<close>

lemma canonical_nonempty: "canonical v \<noteq> []"
proof -
  have "stringify j \<noteq> []" for j using stringify_first [of j] by auto
  then show ?thesis by (simp add: canonical_def split: option.split)
qed

section \<open>Pairing\<close>

lemma find_SomeD: "find P xs = Some x \<Longrightarrow> x \<in> set xs \<and> P x"
  by (induction xs) (auto split: if_splits)

text \<open>A free row stays free, or is paired with the first free row that has its key.\<close>

lemma match_pass_Cons:
  assumes "match_pass k bs as (b # fb) fa = (ps, rb, ra)"
  obtains (free) rb' where "match_pass k bs as fb fa = (ps, rb', ra)" "rb = b # rb'"
      "k (bs ! b) b = TextKey [] \<or> (\<forall>a \<in> set fa. k (as ! a) a \<noteq> k (bs ! b) b)"
  | (paired) a ps' where "a \<in> set fa" "k (bs ! b) b = k (as ! a) a"
      "match_pass k bs as fb (remove1 a fa) = (ps', rb, ra)" "ps = (b, a) # ps'"
  using assms by (auto simp: Let_def find_None_iff split: prod.splits if_splits option.splits dest!: find_SomeD)

lemma match_pass_partition:
  "match_pass k bs as fb fa = (ps, rb, ra) \<Longrightarrow>
     mset (map fst ps) + mset rb = mset fb \<and> mset (map snd ps) + mset ra = mset fa \<and>
     (\<forall>(b, a) \<in> set ps. k (bs ! b) b = k (as ! a) a)"
proof (induction fb arbitrary: fa ps rb ra)
  case (Cons b fb)
  from Cons.prems show ?case
  proof (cases rule: match_pass_Cons)
    case (free rb')
    with Cons.IH [OF free(1)] show ?thesis by simp
  next
    case (paired a ps')
    with Cons.IH [OF paired(3)] show ?thesis by auto
  qed
qed simp

lemma match_pass_subseq: "match_pass k bs as fb fa = (ps, rb, ra) \<Longrightarrow> subseq (map fst ps) fb"
proof (induction fb arbitrary: fa ps rb ra)
  case (Cons b fb)
  from Cons.prems show ?case
    by (cases rule: match_pass_Cons) (auto dest!: Cons.IH)
qed simp

text \<open>No two rows with the same key are left over.\<close>

lemma match_pass_maximal: "match_pass k bs as fb fa = (ps, rb, ra) \<Longrightarrow>
    b \<in> set rb \<Longrightarrow> a \<in> set ra \<Longrightarrow> k (bs ! b) b \<noteq> TextKey [] \<Longrightarrow> k (as ! a) a \<noteq> k (bs ! b) b"
proof (induction fb arbitrary: fa ps rb ra)
  case (Cons b' fb)
  from Cons.prems(1) show ?case
  proof (cases rule: match_pass_Cons)
    case (free rb')
    have "mset ra \<subseteq># mset fa" using match_pass_partition [OF free(1)] by (metis mset_subset_eq_add_right)
    then have "a \<in> set fa" using Cons.prems(3) by (metis mset_subset_eqD set_mset_mset)
    with free Cons.IH [OF free(1)] Cons.prems show ?thesis by auto
  next
    case (paired a' ps')
    with Cons show ?thesis by blast
  qed
qed simp

lemma match_passes_partition:
  "match_passes ks bs as fb fa = (ps, rb, ra) \<Longrightarrow>
     mset (map fst ps) + mset rb = mset fb \<and> mset (map snd ps) + mset ra = mset fa"
proof (induction ks bs as fb fa arbitrary: ps rb ra rule: match_passes.induct)
  case (2 key ks bs as fb fa)
  obtain p1 b1 a1 where 1: "match_pass key bs as fb fa = (p1, b1, a1)" by (metis prod_cases3)
  obtain p2 where 2: "match_passes ks bs as b1 a1 = (p2, rb, ra)" "ps = p1 @ p2"
    using "2.prems" 1 by (auto split: prod.splits)
  from match_pass_partition [OF 1] "2.IH" [OF 1 [symmetric] refl refl 2(1)] 2(2) show ?case
    by (metis (no_types, lifting) add.assoc map_append mset_append)
qed auto

lemma match_rows_partition:
  assumes "m = match_rows before after ks"
  shows "mset (map fst (kept m @ edited m) @ removed m) = mset [0..<length before]"
    and "mset (map snd (kept m @ edited m) @ added m) = mset [0..<length after]"
    and "\<And>b a. (b, a) \<in> set (kept m) \<Longrightarrow> same_row (before ! b) (after ! a)"
    and "subseq (map fst (kept m)) [0..<length before]"
proof -
  obtain kp fb fa where 1: "match_pass (\<lambda>r _. TextKey (canonical (Some r))) before after
      [0..<length before] [0..<length after] = (kp, fb, fa)" by (metis prod_cases3)
  obtain ed rb ra where 2: "match_passes ks before after fb fa = (ed, rb, ra)" by (metis prod_cases3)
  have m: "m = \<lparr>kept = kp, edited = ed, removed = rb, added = ra\<rparr>"
    by (simp add: assms match_rows_def 1 2)
  note p1 = match_pass_partition [OF 1] and p2 = match_passes_partition [OF 2]
  show "mset (map fst (kept m @ edited m) @ removed m) = mset [0..<length before]"
    using p1 p2 m by (metis (no_types, lifting) add.assoc map_append mset_append matching.select_convs)
  show "mset (map snd (kept m @ edited m) @ added m) = mset [0..<length after]"
    using p1 p2 m by (metis (no_types, lifting) add.assoc map_append mset_append matching.select_convs)
  show "\<And>b a. (b, a) \<in> set (kept m) \<Longrightarrow> same_row (before ! b) (after ! a)"
    using p1 m by (auto simp: same_row_iff)
  show "subseq (map fst (kept m)) [0..<length before]"
    using match_pass_subseq [OF 1] m by simp
qed

text \<open>
  Pairing the rows of two lists accounts for every row once: each row of the applied list is kept,
  edited or removed, each row of the saved list kept, edited or added; a kept pair is the same row
  on both sides, and no removed row is the same as an added one.
\<close>

theorem match_rows_accounts_for_every_row:
  "let m = match_rows before after ks in
     mset (map fst (kept m @ edited m) @ removed m) = mset [0..<length before] \<and>
     mset (map snd (kept m @ edited m) @ added m) = mset [0..<length after] \<and>
     list_all (\<lambda>(b, a). same_row (before ! b) (after ! a)) (kept m) \<and>
     list_all (\<lambda>b. list_all (\<lambda>a. \<not> same_row (before ! b) (after ! a)) (added m)) (removed m)"
proof -
  obtain kp fb fa where 1: "match_pass (\<lambda>r _. TextKey (canonical (Some r))) before after
      [0..<length before] [0..<length after] = (kp, fb, fa)" by (metis prod_cases3)
  obtain ed rb ra where 2: "match_passes ks before after fb fa = (ed, rb, ra)" by (metis prod_cases3)
  have m: "match_rows before after ks = \<lparr>kept = kp, edited = ed, removed = rb, added = ra\<rparr>"
    by (simp add: match_rows_def 1 2)
  from match_passes_partition [OF 2] have "mset rb \<subseteq># mset fb" "mset ra \<subseteq># mset fa"
    by (metis mset_subset_eq_add_right)+
  then have "set rb \<subseteq> set fb" "set ra \<subseteq> set fa" by (metis set_mset_mono set_mset_mset)+
  with match_pass_maximal [OF 1] have "\<not> same_row (before ! b) (after ! a)"
    if "b \<in> set rb" "a \<in> set ra" for b a
    using that by (fastforce simp: same_row_iff canonical_nonempty)
  with match_rows_partition [of "match_rows before after ks" before after ks, OF refl] show ?thesis
    by (auto simp: m list_all_iff)
qed

section \<open>Nothing changed: the rows are the same, in the same order\<close>

lemma increasing_iff: "increasing xs \<longleftrightarrow> sorted_wrt (<) xs"
  by (induction xs rule: increasing.induct) (auto simp: less_trans)

lemma sorted_upt_unique:
  "sorted_wrt (<) xs \<Longrightarrow> mset xs = mset [0..<n] \<Longrightarrow> xs = [0..<n]"
  by (metis properties_for_sort sorted_upt sort_upt strict_sorted_iff sorted_sort_id)

lemma subseq_sorted_wrt: "subseq xs ys \<Longrightarrow> sorted_wrt P ys \<Longrightarrow> sorted_wrt P xs"
  by (induction rule: list_emb.induct) (auto dest: list_emb_set)

lemma unchanged_rows:
  assumes m: "m = match_rows before after ks"
    and none: "removed m = []" "edited m = []" "added m = []" "order_change pth plur before after (kept m) = []"
  shows "list_all2 same_row before after"
proof -
  note part = match_rows_partition [OF m]
  have fst: "mset (map fst (kept m)) = mset [0..<length before]" and snd: "mset (map snd (kept m)) = mset [0..<length after]"
    using part(1,2) none by simp_all
  have "sorted_wrt (<) (map fst (kept m))"
    using part(4) by (metis subseq_sorted_wrt sorted_wrt_upt)
  then have f: "map fst (kept m) = [0..<length before]" using fst by (rule sorted_upt_unique)
  have "sort_key fst (kept m) = kept m" by (rule sort_key_id_if_sorted) (simp add: f)
  with none(4) have "sorted_wrt (<) (map snd (kept m))"
    by (simp add: order_change_def Let_def increasing_iff split: if_splits)
  then have s: "map snd (kept m) = [0..<length after]" using snd by (rule sorted_upt_unique)
  have len: "length before = length after" by (metis f s length_map length_upt diff_zero)
  have "kept m = zip [0..<length before] [0..<length after]" by (metis f s zip_map_fst_snd)
  then have "same_row (before ! i) (after ! i)" if "i < length before" for i
    using part(3) [of i i] that len by (force simp: set_zip)
  with len show ?thesis by (simp add: list_all2_conv_all_nth)
qed

lemma describe_row_list_Nil:
  "describe_row_list l applied saved = [] \<Longrightarrow>
     list_all2 same_row (list_at applied (row_path l)) (list_at saved (row_path l))"
  unfolding describe_row_list_def Let_def by (rule unchanged_rows [OF refl]) auto

lemma describe_scalar_list_Nil:
  "describe_scalar_list pth label vb va = [] \<Longrightarrow> edited (match_rows (rows_of vb) (rows_of va) []) = [] \<Longrightarrow>
     list_all2 same_row (rows_of vb) (rows_of va)"
  unfolding describe_scalar_list_def Let_def by (rule unchanged_rows [OF refl]) auto

lemma match_rows_no_keys: "edited (match_rows bs as []) = []"
  by (auto simp: match_rows_def split: prod.splits)

lemma match_pass_same:
  "\<forall>b \<in> set fb. k (bs ! b) b = k (as ! b) b \<and> k (bs ! b) b \<noteq> TextKey [] \<Longrightarrow>
     match_pass k bs as fb fb = (zip fb fb, [], [])"
proof (induction fb)
  case (Cons b fb)
  then have "match_pass k bs as fb fb = (zip fb fb, [], [])" by (meson list.set_intros(2))
  moreover have "k (bs ! b) b = k (as ! b) b" "k (as ! b) b \<noteq> TextKey []"
    using Cons.prems by (metis list.set_intros(1))+
  ultimately show ?case by simp
qed simp

lemma increasing_upt: "increasing [m..<n]"
  by (simp add: increasing_iff)

text \<open>Rows that stayed the same, in the same order, show nothing.\<close>

lemma match_rows_same:
  assumes "list_all2 same_row bs as"
  shows "match_rows bs as ks = \<lparr>kept = zip [0..<length bs] [0..<length bs], edited = [], removed = [], added = []\<rparr>"
proof -
  have "match_pass (\<lambda>r _. TextKey (canonical (Some r))) bs as [0..<length bs] [0..<length bs]
      = (zip [0..<length bs] [0..<length bs], [], [])"
    using assms by (intro match_pass_same) (auto simp: list_all2_conv_all_nth same_row_iff canonical_nonempty)
  moreover have "match_passes ks bs as [] [] = ([], [], [])"
    by (induction ks) auto
  ultimately show ?thesis
    using list_all2_lengthD [OF assms] by (simp add: match_rows_def)
qed

lemma order_change_same:
  "order_change pth plur bs as (zip [0..<n] [0..<n]) = []"
proof -
  have "sort_key fst (zip [0..<n] [0..<n]) = zip [0..<n] [0..<n]"
    by (rule sort_key_id_if_sorted) simp
  then show ?thesis by (simp add: order_change_def increasing_upt)
qed

lemma describe_row_list_same:
  "list_all2 same_row (list_at applied (row_path l)) (list_at saved (row_path l)) \<Longrightarrow>
     describe_row_list l applied saved = []"
  by (simp add: describe_row_list_def Let_def match_rows_same order_change_same)

section \<open>Configs without repeated keys or empty list elements\<close>

text \<open>
  What the API returns: objects with distinct keys, and lists of rows, texts and numbers, none of
  them empty. An empty element is where the comparison is blind: \<open>[0]\<close> and \<open>[""]\<close> both read as a
  list of one empty value row by row.
\<close>

primrec clean :: "json \<Rightarrow> bool" where
  "clean JNull = True"
| "clean (JBool b) = True"
| "clean (JNum n) = True"
| "clean (JStr s) = True"
| "clean (JArr xs) = (no_empty_elem xs \<and> list_all id (map clean xs))"
| "clean (JObj kvs) = (distinct (map fst kvs) \<and> list_all snd (map (map_prod id clean) kvs))"

definition clean_value :: "jsval \<Rightarrow> bool" where
  "clean_value v = (case v of None \<Rightarrow> True | Some j \<Rightarrow> clean j)"

lemma clean_value_simps [simp]: "clean_value None" "clean_value (Some j) = clean j"
  by (simp_all add: clean_value_def)

definition members_of :: "jsval \<Rightarrow> (string \<times> json) list" where
  "members_of v = (case v of Some (JObj kvs) \<Rightarrow> kvs | _ \<Rightarrow> [])"

lemma at_key_members: "at_key k v = map_of (members_of v) k"
  by (auto simp: at_key_def members_of_def split: option.splits json.splits)

lemma object_keys_members: "object_keys v = map fst (members_of v)"
  by (auto simp: object_keys_def members_of_def keys_json_def split: option.splits json.splits)

lemma clean_members: "clean_value v \<Longrightarrow> distinct (map fst (members_of v))"
  by (auto simp: members_of_def split: option.splits json.splits)

lemma clean_at_key: "clean_value v \<Longrightarrow> clean_value (at_key k v)"
proof -
  have "list_all snd (map (map_prod id clean) kvs) \<Longrightarrow> map_of kvs k = Some x \<Longrightarrow> clean x" for kvs x
    by (induction kvs) (auto split: if_splits)
  then show "clean_value v \<Longrightarrow> clean_value (at_key k v)"
    by (auto simp: at_key_members members_of_def clean_value_def split: option.splits json.splits)
qed

text \<open>An object, or an empty value in its place.\<close>

definition object_like :: "jsval \<Rightarrow> bool" where
  "object_like v \<longleftrightarrow> is_plain_object v \<or> is_empty_value v"

lemma norm_members: "object_like v \<Longrightarrow> norm v = norm (Some (JObj (members_of v)))"
  by (auto simp: object_like_def is_plain_object_def members_of_def norm_empty is_empty_value_def
      split: option.splits json.splits)

lemma same_members:
  "clean_value v \<Longrightarrow> clean_value w \<Longrightarrow> object_like v \<Longrightarrow> object_like w \<Longrightarrow>
     same v w \<longleftrightarrow> (\<forall>k. same (at_key k v) (at_key k w))"
  using norm_object_iff [OF clean_members clean_members, of v w]
  by (simp add: same_iff_norm norm_members at_key_members)


text \<open>Same values have the same lists, element by element.\<close>

lemma same_at_key:
  assumes "clean_value v" "clean_value w" "same v w"
  shows "same (at_key k v) (at_key k w)"
proof (cases "object_like v \<and> object_like w")
  case True
  with same_members assms show ?thesis by blast
next
  case False
  have "norm x = None \<Longrightarrow> object_like x \<or> (\<exists>xs. x = Some (JArr xs))" for x
    by (cases x; cases "the x") (auto simp: norm_def object_like_def is_plain_object_def is_empty_value_def split: if_splits)
  with False assms(3) have "\<not> is_plain_object v" "\<not> is_plain_object w"
    by (auto simp: same_iff_norm norm_def object_like_def is_plain_object_def is_empty_value_def
        split: option.splits json.splits if_splits)
  then show ?thesis by (auto simp: at_key_members members_of_def is_plain_object_def split: option.splits json.splits)
qed

lemma get_path_at_key: "get_path v (k # ks) = get_path (at_key k v) ks"
  by (simp add: at_key_def)

lemma same_get_path:
  "clean_value v \<Longrightarrow> clean_value w \<Longrightarrow> same v w \<Longrightarrow> same (get_path v ks) (get_path w ks)"
  by (induction ks arbitrary: v w) (simp_all del: get_path.simps(2) add: get_path_at_key clean_at_key same_at_key)

lemma clean_get_path: "clean_value v \<Longrightarrow> clean_value (get_path v ks)"
  by (induction ks arbitrary: v) (simp_all del: get_path.simps(2) add: get_path_at_key clean_at_key)

definition array_like :: "jsval \<Rightarrow> bool" where
  "array_like v \<longleftrightarrow> is_array v \<or> is_empty_value v"

lemma norm_rows: "array_like v \<Longrightarrow> norm v = norm (Some (JArr (rows_of v)))"
  by (auto simp: array_like_def is_array_def rows_of_def norm_empty is_empty_value_def
      split: option.splits json.splits)

lemma clean_rows: "clean_value v \<Longrightarrow> no_empty_elem (rows_of v)"
  by (auto simp: rows_of_def no_empty_elem_def split: option.splits json.splits)

lemma same_rows_iff:
  assumes "clean_value v" "array_like v" "array_like w"
  shows "same v w \<longleftrightarrow> list_all2 same_row (rows_of v) (rows_of w)"
proof
  assume "same v w"
  then have "norm (Some (JArr (rows_of v))) = norm (Some (JArr (rows_of w)))"
    using assms by (simp add: same_iff_norm norm_rows)
  then have "map strip_json (rows_of v) = map strip_json (rows_of w)"
    by (auto simp: norm_array split: if_splits)
  then show "list_all2 same_row (rows_of v) (rows_of w)"
    by (simp add: list_all2_conv_all_nth list_eq_iff_nth_eq same_row_iff canonical_def)
next
  assume "list_all2 same_row (rows_of v) (rows_of w)"
  from same_array [OF clean_rows [OF assms(1)] this] show "same v w"
    using assms by (simp add: same_iff_norm norm_rows)
qed


section \<open>The settings\<close>

lemma describe_scalar_list_none:
  assumes "clean_value before" "is_scalar_list before" "is_scalar_list after"
  shows "describe_scalar_list pth label before after = [] \<longleftrightarrow> same before after"
proof -
  have a: "array_like v" if "is_scalar_list v" for v
    using that by (auto simp: is_scalar_list_def array_like_def is_array_def split: option.splits json.splits)
  show ?thesis
  proof
    assume "describe_scalar_list pth label before after = []"
    then have "list_all2 same_row (rows_of before) (rows_of after)"
      by (rule describe_scalar_list_Nil) (rule match_rows_no_keys)
    with same_rows_iff assms a show "same before after" by blast
  next
    assume "same before after"
    then have "list_all2 same_row (rows_of before) (rows_of after)"
      using same_rows_iff assms a by blast
    then show "describe_scalar_list pth label before after = []"
      by (simp add: describe_scalar_list_def match_rows_same order_change_same)
  qed
qed

lemma walks_down_like: "walks_down v w \<Longrightarrow> object_like v \<and> object_like w"
  by (auto simp: walks_down_def object_like_def)

lemma set_first_occurrences [simp]: "set (first_occurrences ks) = set ks"
  by (simp add: first_occurrences_def)

lemma at_key_unlisted: "k \<notin> set (object_keys v) \<Longrightarrow> at_key k v = None"
  by (simp add: object_keys_members at_key_members map_of_eq_None_iff)

text \<open>The walk shows nothing only when the values are the same, the rows it skips taken care of.\<close>

lemma describe_settings_Nil:
  "describe_settings R pth before after = [] \<Longrightarrow> clean_value before \<Longrightarrow> clean_value after \<Longrightarrow>
     (\<And>ks. join ''.'' (pth @ ks) \<in> set R \<Longrightarrow> same (get_path before ks) (get_path after ks)) \<Longrightarrow>
     same before after"
proof (induction R pth before after rule: describe_settings.induct)
  case (1 R pth before after)
  let ?skip = "join ''.'' pth \<in> set R \<or> same before after"
  consider "?skip" | "\<not> ?skip" "walks_down before after"
    | "\<not> ?skip" "\<not> walks_down before after" by blast
  then show ?case
  proof cases
    case 1
    with "1.prems"(4) [of "[]"] show ?thesis by auto
  next
    case 2
    have "same (at_key k before) (at_key k after)" for k
    proof (cases "k \<in> set (object_keys before @ object_keys after)")
      case True
      then have "describe_settings R (pth @ [k]) (at_key k before) (at_key k after) = []"
        using "1.prems"(1) 2 by (subst (asm) describe_settings.simps) auto
      moreover have "same (get_path (at_key k before) ks) (get_path (at_key k after) ks)"
        if "join ''.'' ((pth @ [k]) @ ks) \<in> set R" for ks
        using "1.prems"(4) [of "k # ks"] that by (simp del: get_path.simps add: get_path_at_key)
      ultimately show ?thesis
        using "1.IH" [of k] 2 True "1.prems"(2,3) by (simp add: clean_at_key)
    next
      case False
      then show ?thesis by (simp add: at_key_unlisted)
    qed
    with same_members walks_down_like [OF 2(2)] "1.prems"(2,3) show ?thesis by blast
  next
    case 3
    then have "is_scalar_list before \<and> is_scalar_list after \<and>
        describe_scalar_list pth (setting_label pth) before after = []"
      using "1.prems"(1) by (subst (asm) describe_settings.simps) (auto split: if_splits)
    with describe_scalar_list_none "1.prems"(2) show ?thesis by blast
  qed
qed


section \<open>The list of changes is complete\<close>

lemma split_on_append: "split_on c (s @ c # t) = split_on c s @ split_on c t"
  by (induction s) (auto split: list.splits)

lemma split_on_join_keys: "ks \<noteq> [] \<Longrightarrow> split_on c (join [c] ks) = concat (map (split_on c) ks)"
  by (induction "[c]" ks rule: join.induct) (auto simp: split_on_append)

lemma split_on_single: "split_on c s = [t] \<Longrightarrow> s = t"
  by (metis join.simps(2) join_split_on)

lemma row_path_keys:
  assumes "join ''.'' ks \<in> set ROW_PATHS"
  shows "ks \<in> {[''peers''], [''input_allows''], [''forwarding'', ''routes''], [''forwarding.routes'']}"
proof -
  have ne: "ks \<noteq> []" using assms by (auto simp: ROW_PATHS_def)
  obtain k ks' where ks: "ks = k # ks'" using ne by (cases ks) auto
  have sp: "concat (map (split_on CHR ''.'') ks) = split_on CHR ''.'' (join ''.'' ks)"
    using split_on_join_keys [OF ne] by simp
  have cat: "concat (map (split_on c) xs) = [] \<longleftrightarrow> xs = []" for c xs by (cases xs) auto
  have one: "split_on CHR ''.'' k @ concat (map (split_on CHR ''.'') ks') = [t] \<Longrightarrow> k = t \<and> ks' = []" for t
    by (cases "split_on CHR ''.'' k") (auto simp: cat dest: split_on_single)
  from assms consider "join ''.'' ks = ''peers''" | "join ''.'' ks = ''input_allows''" | "join ''.'' ks = ''forwarding.routes''"
    by (auto simp: ROW_PATHS_def)
  then show ?thesis
  proof cases
    case 3
    have two: "split_on CHR ''.'' k @ concat (map (split_on CHR ''.'') ks') = [''forwarding'', ''routes'']"
      using sp 3 ks by simp
    show ?thesis
    proof (cases ks')
      case Nil
      with 3 ks show ?thesis by simp
    next
      case (Cons k' ks'')
      from two have "split_on CHR ''.'' k = [''forwarding''] \<and> concat (map (split_on CHR ''.'') ks') = [''routes'']"
        by (cases "split_on CHR ''.'' k"; cases "tl (split_on CHR ''.'' k)") (auto simp: cat Cons)
      then have "k = ''forwarding''" "split_on CHR ''.'' k' @ concat (map (split_on CHR ''.'') ks'') = [''routes'']"
        using Cons split_on_single by auto
      moreover then have "k' = ''routes'' \<and> ks'' = []"
        by (cases "split_on CHR ''.'' k'") (auto simp: cat dest: split_on_single)
      ultimately show ?thesis using ks Cons by simp
    qed
  qed (use sp ks one in auto)
qed

lemma fold_cascades_length: "length (fst (fold_cascades cs rs)) = length cs"
  by (induction cs rs rule: fold_cascades.induct) (auto split: prod.splits)

lemma fold_cascades_none [simp]: "fold_cascades [] rs = ([], rs)"
  by simp

text \<open>The row lists of a config hold rows, and no key of it reads like a row path.\<close>

definition row_shaped :: "json \<Rightarrow> bool" where
  "row_shaped cfg \<longleftrightarrow> (\<forall>p \<in> {[''peers''], [''input_allows''], [''forwarding'', ''routes'']}. array_like (get_path (Some cfg) p)) \<and>
     get_path (Some cfg) [''forwarding.routes''] = None"

lemma list_at_rows: "list_at cfg pth = rows_of (get_path (Some cfg) pth)"
  by (simp add: list_at_def rows_of_def)

lemma describe_row_list_none:
  assumes "clean applied" "row_shaped applied" "row_shaped saved"
    and "row_path l \<in> {[''peers''], [''input_allows''], [''forwarding'', ''routes'']}"
  shows "describe_row_list l applied saved = [] \<longleftrightarrow>
    same (get_path (Some applied) (row_path l)) (get_path (Some saved) (row_path l))"
proof -
  have "same (get_path (Some applied) (row_path l)) (get_path (Some saved) (row_path l)) \<longleftrightarrow>
      list_all2 same_row (list_at applied (row_path l)) (list_at saved (row_path l))"
    unfolding list_at_rows using assms
    by (intro same_rows_iff) (auto simp: row_shaped_def intro: clean_get_path)
  then show ?thesis using describe_row_list_Nil describe_row_list_same by blast
qed

lemmas row_list_paths = peer_list_def route_list_def inbound_list_def

text \<open>C4
  The review of what Apply will send is complete and quiet: for configs as the API returns them, no
  change is listed exactly when the saved config compares equal to the applied one, whichever rows,
  their order or settings could differ.
\<close>

theorem changes_listed_iff_configs_differ:
  assumes "clean applied" "clean saved" "row_shaped applied" "row_shaped saved"
  shows "describe_config_changes applied saved = [] \<longleftrightarrow> same (Some applied) (Some saved)"
proof
  assume none: "describe_config_changes applied saved = []"
  let ?ns = "peer_names applied saved"
  obtain ps rs where f: "fold_cascades (describe_row_list peer_list applied saved)
      (describe_row_list (route_list ?ns) applied saved) = (ps, rs)" by force
  with none have z: "ps = []" "rs = []" "describe_row_list inbound_list applied saved = []"
      "describe_settings ROW_PATHS [] (Some applied) (Some saved) = []"
    by (simp_all add: describe_config_changes_def Let_def)
  with f fold_cascades_length [of "describe_row_list peer_list applied saved"
        "describe_row_list (route_list ?ns) applied saved"]
  have "describe_row_list peer_list applied saved = []" by simp
  moreover with f z have "describe_row_list (route_list ?ns) applied saved = []" by simp
  ultimately have rows: "same (get_path (Some applied) ks) (get_path (Some saved) ks)"
    if "ks \<in> {[''peers''], [''input_allows''], [''forwarding'', ''routes'']}" for ks
    using that z(3) describe_row_list_none [OF assms(1,3,4), of peer_list] describe_row_list_none [OF assms(1,3,4), of inbound_list]
      describe_row_list_none [OF assms(1,3,4), of "route_list ?ns"]
    by (auto simp: row_list_paths simp del: get_path.simps)
  have "same (get_path (Some applied) ks) (get_path (Some saved) ks)" if "join ''.'' ([] @ ks) \<in> set ROW_PATHS" for ks
  proof (cases "ks = [''forwarding.routes'']")
    case True
    with assms(3,4) show ?thesis by (simp add: row_shaped_def)
  next
    case False
    with rows row_path_keys that show ?thesis by (auto simp del: get_path.simps)
  qed
  with describe_settings_Nil [OF z(4)] assms(1,2) show "same (Some applied) (Some saved)" by simp
next
  assume s: "same (Some applied) (Some saved)"
  then have "same (get_path (Some applied) ks) (get_path (Some saved) ks)" for ks
    using same_get_path assms(1,2) clean_value_simps(2) by blast
  then have "describe_row_list l applied saved = []"
    if "row_path l \<in> {[''peers''], [''input_allows''], [''forwarding'', ''routes'']}" for l
    using describe_row_list_none [OF assms(1,3,4) that] by blast
  then have "describe_row_list peer_list applied saved = []" "describe_row_list inbound_list applied saved = []"
      "\<And>ns. describe_row_list (route_list ns) applied saved = []"
    by (simp_all add: row_list_paths)
  with s show "describe_config_changes applied saved = []"
    by (simp add: describe_config_changes_def Let_def describe_settings.simps)
qed


definition toy_peer :: "string \<Rightarrow> string \<Rightarrow> json" where
  "toy_peer nm ip = JObj [(''name'', JStr nm), (''tunnel_ip'', JStr ip), (''public_key'', JStr (nm @ ''=''))]"

definition toy_config :: "json list \<Rightarrow> bool \<Rightarrow> json" where
  "toy_config ps on = JObj [(''peers'', JArr ps), (''geo'', JObj [(''enabled'', JBool on)])]"

lemma toy_clean: "clean (toy_config [toy_peer ''nas'' ''10.0.0.2/32''] b)"
  by (simp add: toy_config_def toy_peer_def no_empty_elem_def nonempty_members_def list_all_iff)

lemma toy_row_shaped: "row_shaped (toy_config ps b)"
  by (simp add: toy_config_def row_shaped_def array_like_def is_array_def is_empty_value_def)

theorem changes_listed_iff_configs_differ_witness:
  "describe_config_changes (toy_config [toy_peer ''nas'' ''10.0.0.2/32''] True) (toy_config [toy_peer ''nas'' ''10.0.0.2/32''] False) \<noteq> []"
  using changes_listed_iff_configs_differ [OF toy_clean [of True] toy_clean [of False] toy_row_shaped toy_row_shaped]
  by (simp add: same_iff_norm norm_def toy_config_def toy_peer_def nonempty_members_def)

end
