(* ===== verification/Config_Revert.thy ===== *)
theory Config_Revert
  imports Config_Review
begin

text \<open>
  \<open>core/config_changes.js\<close>, second half: a listed change taken back out of the config, or put
  back. Both are edits for \<open>saveConfigEdit\<close>, applied to the config as it is when they run: they
  return false when there is nothing left to do, and throw when what they name has moved on.
\<close>

section \<open>The steps\<close>

definition STALE :: string where
  "STALE = ''That change was edited elsewhere after it was listed, so it was not reverted.''"

text \<open>The error of reading or setting a property JavaScript has no object for.\<close>

definition TYPE_ERROR :: string where
  "TYPE_ERROR = ''TypeError''"

definition write_path :: "json \<Rightarrow> string list \<Rightarrow> jsval \<Rightarrow> string + json" where
  "write_path obj pth v = (case set_path obj pth v of None \<Rightarrow> Inl TYPE_ERROR | Some obj' \<Rightarrow> Inr obj')"

fun first_index :: "('a \<Rightarrow> bool) \<Rightarrow> 'a list \<Rightarrow> nat option" where
  "first_index P [] = None"
| "first_index P (x # xs) = (if P x then Some 0 else map_option Suc (first_index P xs))"

text \<open>\<open>a === b\<close>: two objects read from different documents are never the same one.\<close>

definition strict_equal :: "json \<Rightarrow> jsval \<Rightarrow> bool" where
  "strict_equal a b \<longleftrightarrow> is_scalar a \<and> b = Some a"

text \<open>\<open>rows.some((r) => r.public_key === key)\<close>; a null row throws.\<close>

fun key_taken :: "json \<Rightarrow> json list \<Rightarrow> string + bool" where
  "key_taken key [] = Inr False"
| "key_taken key (r # rs) =
     (if r = JNull then Inl TYPE_ERROR
      else if strict_equal key (member_json r ''public_key'') then Inr True else key_taken key rs)"

definition BACK_ALREADY :: string where
  "BACK_ALREADY = '' is already back in the config with other settings, so it was not restored.''"

definition insert_at :: "int \<Rightarrow> 'a \<Rightarrow> 'a list \<Rightarrow> 'a list" where
  "insert_at i x xs = (let n = (if i < 0 then length xs - nat (- i) else min (nat i) (length xs)) in
     take n xs @ x # drop n xs)"

definition remove_at :: "nat \<Rightarrow> 'a list \<Rightarrow> 'a list" where
  "remove_at i xs = take i xs @ drop (Suc i) xs"

text \<open>\<open>countOf\<close> of no row at all, which nothing the list of changes holds asks for.\<close>

definition count_absent :: "json list \<Rightarrow> nat" where
  "count_absent rows = length (filter (\<lambda>r. same (Some r) None) rows)"

text \<open>What \<open>moveRow\<close> does to the rows of the list.\<close>

definition move_rows :: "json list \<Rightarrow> jsval \<Rightarrow> jsval \<Rightarrow> int \<Rightarrow> json list \<Rightarrow> string + (bool \<times> json list)" where
  "move_rows rows have wanted wantAt wantRows = (case (have, wanted) of
     (None, None) \<Rightarrow> if count_absent rows \<ge> count_absent wantRows then Inr (False, rows) else Inl TYPE_ERROR
   | (None, Some w) \<Rightarrow>
       if count_of rows w \<ge> count_of wantRows w then Inr (False, rows)
       else if w = JNull then Inl TYPE_ERROR
       else (case (if truthy (member_json w ''public_key'') then key_taken (the (member_json w ''public_key'')) rows
                   else Inr False) of
           Inl e \<Rightarrow> Inl e
         | Inr True \<Rightarrow> Inl ((if truthy (member_json w ''name'') then js_string (the (member_json w ''name'')) else ''That peer'') @ BACK_ALREADY)
         | Inr False \<Rightarrow> Inr (True, insert_at wantAt w rows))
   | (Some h, None) \<Rightarrow>
       if count_of rows h \<le> count_of wantRows h then Inr (False, rows)
       else (case first_index (\<lambda>r. same_row r h) rows of
           Some i \<Rightarrow> Inr (True, remove_at i rows)
         | None \<Rightarrow> Inr (True, butlast rows))
   | (Some h, Some w) \<Rightarrow>
       (case first_index (\<lambda>r. same_row r h) rows of
           Some i \<Rightarrow> Inr (True, rows[i := w])
         | None \<Rightarrow> if list_ex (\<lambda>r. same_row r w) rows then Inr (False, rows) else Inl STALE))"

definition move_row ::
  "json \<Rightarrow> string list \<Rightarrow> jsval \<Rightarrow> jsval \<Rightarrow> int \<Rightarrow> json list \<Rightarrow> string + (bool \<times> json)" where
  "move_row draft pth have wanted wantAt wantRows =
     (case (if is_array (get_path (Some draft) pth) then Inr draft else write_path draft pth (Some (JArr []))) of
        Inl e \<Rightarrow> Inl e
      | Inr draft1 \<Rightarrow>
          (case move_rows (list_at draft1 pth) have wanted wantAt wantRows of
             Inl e \<Rightarrow> Inl e
           | Inr (changed, rows) \<Rightarrow>
               if \<not> changed then Inr (False, draft1)
               else (case write_path draft1 pth (Some (JArr rows)) of
                   Inl e \<Rightarrow> Inl e | Inr draft2 \<Rightarrow> Inr (True, draft2))))"

text \<open>
  \<open>setRowOrder\<close>: each wanted row claims the first unclaimed row that is the same, and the claimed
  slots, in order, get the wanted rows.
\<close>

fun claim_slots :: "string option list \<Rightarrow> json list \<Rightarrow> (json \<times> nat) list" where
  "claim_slots unclaimed [] = []"
| "claim_slots unclaimed (row # wanted) =
     (case first_index (\<lambda>c. c = Some (canonical (Some row))) unclaimed of
        None \<Rightarrow> claim_slots unclaimed wanted
      | Some i \<Rightarrow> (row, i) # claim_slots (unclaimed[i := None]) wanted)"

fun fill_slots :: "'a list \<Rightarrow> (nat \<times> 'a) list \<Rightarrow> 'a list" where
  "fill_slots rows [] = rows"
| "fill_slots rows ((i, x) # ps) = fill_slots (rows[i := x]) ps"

definition set_row_order :: "json list \<Rightarrow> json list \<Rightarrow> bool \<times> json list" where
  "set_row_order rows wanted =
     (let claimed = claim_slots (map (\<lambda>r. Some (canonical (Some r))) rows) wanted;
          placed = zip (sort (map snd claimed)) (map fst claimed) in
      (list_ex (\<lambda>(i, x). \<not> same_row (rows ! i) x) placed, fill_slots rows placed))"

definition apply_step :: "json \<Rightarrow> step \<Rightarrow> bool \<Rightarrow> string + (bool \<times> json)" where
  "apply_step draft st toApplied = (case st of
     ValueStep pth before after \<Rightarrow>
       (let have = (if toApplied then after else before); wanted = (if toApplied then before else after);
            cur = get_path (Some draft) pth in
        if same cur wanted then Inr (False, draft)
        else if \<not> same cur have then Inl STALE
        else (case write_path draft pth wanted of Inl e \<Rightarrow> Inl e | Inr draft' \<Rightarrow> Inr (True, draft')))
   | OrderStep pth before after \<Rightarrow>
       (let (moved, rows) = set_row_order (list_at draft pth) (if toApplied then before else after) in
        if is_array (get_path (Some draft) pth)
        then (case write_path draft pth (Some (JArr rows)) of Inl e \<Rightarrow> Inl e | Inr draft' \<Rightarrow> Inr (moved, draft'))
        else Inr (moved, draft))
   | RowStep pth before after beforeAt afterAt beforeRows afterRows \<Rightarrow>
       move_row draft pth (if toApplied then after else before) (if toApplied then before else after)
         (if toApplied then beforeAt else afterAt) (if toApplied then beforeRows else afterRows))"

fun apply_steps :: "json \<Rightarrow> step list \<Rightarrow> bool \<Rightarrow> string + (bool \<times> json)" where
  "apply_steps draft [] toApplied = Inr (False, draft)"
| "apply_steps draft (st # sts) toApplied =
     (case apply_step draft st toApplied of
        Inl e \<Rightarrow> Inl e
      | Inr (changed, draft') \<Rightarrow>
          (case apply_steps draft' sts toApplied of
             Inl e \<Rightarrow> Inl e | Inr (changed', draft'') \<Rightarrow> Inr (changed \<or> changed', draft'')))"

definition apply_change :: "change \<Rightarrow> bool \<Rightarrow> edit" where
  "apply_change c toApplied draft = apply_steps draft (change_steps c) toApplied"

definition revert_change :: "change \<Rightarrow> edit" where
  "revert_change c = apply_change c True"

definition reapply_change :: "change \<Rightarrow> edit" where
  "reapply_change c = apply_change c False"


section \<open>Rows are neither lost nor duplicated\<close>

abbreviation texts :: "json list \<Rightarrow> string list" where
  "texts rows \<equiv> map (\<lambda>r. canonical (Some r)) rows"

text \<open>A row a step speaks of, as a multiset of none or one.\<close>

definition row_text :: "jsval \<Rightarrow> string multiset" where
  "row_text v = (case v of None \<Rightarrow> {#} | Some r \<Rightarrow> {#canonical (Some r)#})"

lemma first_index_Some: "first_index P xs = Some i \<Longrightarrow> i < length xs \<and> P (xs ! i)"
  by (induction xs arbitrary: i) (auto split: if_splits)

lemma first_index_None: "first_index P xs = None \<longleftrightarrow> (\<forall>x \<in> set xs. \<not> P x)"
  by (induction xs) auto

lemma mset_insert_at: "mset (insert_at i x xs) = add_mset x (mset xs)"
proof -
  have "mset (take n xs @ x # drop n xs) = add_mset x (mset xs)" for n
    by (metis append_take_drop_id mset_append mset.simps(2) union_mset_add_mset_right)
  then show ?thesis unfolding insert_at_def Let_def .
qed

lemma map_insert_at: "map f (insert_at i x xs) = insert_at i (f x) (map f xs)"
  by (simp add: insert_at_def Let_def take_map drop_map)

lemma mset_remove_at: "i < length xs \<Longrightarrow> add_mset (xs ! i) (mset (remove_at i xs)) = mset xs"
  by (metis add_mset_add_single append_take_drop_id Cons_nth_drop_Suc mset.simps(2) mset_append remove_at_def
      union_mset_add_mset_right)

lemma map_remove_at: "map f (remove_at i xs) = remove_at i (map f xs)"
  by (simp add: remove_at_def take_map drop_map)

lemma mset_list_update: "i < length xs \<Longrightarrow> add_mset (xs ! i) (mset (xs[i := y])) = add_mset y (mset xs)"
  by (simp add: mset_update)

lemma count_of_pos: "0 < count_of rows r \<Longrightarrow> first_index (\<lambda>x. same_row x r) rows \<noteq> None"
  unfolding first_index_None count_of_def by (metis (mono_tags, lifting) filter_False less_irrefl list.size(3))

lemma move_rows_accounts:
  assumes "move_rows rows have wanted at wantRows = Inr (changed, rows')"
  shows "if changed then mset (texts rows') + row_text have = mset (texts rows) + row_text wanted else rows' = rows"
proof (cases "have"; cases "wanted")
  fix w assume h: "have = None" "wanted = Some w"
  with assms have "rows' = (if changed then insert_at at w rows else rows)"
    by (auto simp: move_rows_def split: if_splits sum.splits bool.splits)
  with h show ?thesis by (simp add: row_text_def map_insert_at mset_insert_at)
next
  fix h assume h: "have = Some h" "wanted = None"
  show ?thesis
  proof (cases changed)
    case True
    with assms h have "0 < count_of rows h" by (auto simp: move_rows_def split: if_splits)
    from count_of_pos [OF this] assms h True obtain i where i: "first_index (\<lambda>r. same_row r h) rows = Some i" "rows' = remove_at i rows"
      by (auto simp: move_rows_def split: if_splits option.splits)
    with first_index_Some [OF i(1)] mset_remove_at [of i "texts rows"] h True show ?thesis
      by (simp add: row_text_def map_remove_at same_row_iff)
  qed (use assms h in \<open>auto simp: move_rows_def split: if_splits option.splits\<close>)
next
  fix h w assume h: "have = Some h" "wanted = Some w"
  show ?thesis
  proof (cases "first_index (\<lambda>r. same_row r h) rows")
    case None
    with assms h show ?thesis by (auto simp: move_rows_def split: if_splits)
  next
    case (Some i)
    then have i: "i < length rows" "texts rows ! i = canonical (Some h)"
      by (auto dest!: first_index_Some simp: same_row_iff)
    with mset_list_update [of i "texts rows" "canonical (Some w)"]
    have "add_mset (canonical (Some h)) (mset (texts (rows[i := w]))) = add_mset (canonical (Some w)) (mset (texts rows))"
      by (simp only: map_update length_map)
    with Some assms h show ?thesis by (auto simp: move_rows_def row_text_def)
  qed
qed (use assms in \<open>auto simp: move_rows_def split: if_splits\<close>)


section \<open>Putting rows in order\<close>

lemma claim_slots_ok:
  "ps = claim_slots cs wanted \<Longrightarrow>
     distinct (map snd ps) \<and> (\<forall>(r, i) \<in> set ps. i < length cs \<and> cs ! i = Some (canonical (Some r)))"
proof (induction cs wanted arbitrary: ps rule: claim_slots.induct)
  case (2 cs row wanted)
  show ?case
  proof (cases "first_index (\<lambda>c. c = Some (canonical (Some row))) cs")
    case None
    with 2 show ?thesis by simp
  next
    case (Some i)
    note i = first_index_Some [OF Some]
    define qs where "qs = claim_slots (cs[i := None]) wanted"
    from "2.IH"(2) [OF Some qs_def] have qs: "distinct (map snd qs)"
        "(r, j) \<in> set qs \<Longrightarrow> j < length cs \<and> cs[i := None] ! j = Some (canonical (Some r))" for r j by auto
    have ne: "j \<noteq> i" if "(r, j) \<in> set qs" for r j using qs(2) [OF that] i by auto
    with qs i "2.prems" Some show ?thesis by (fastforce simp: qs_def [symmetric])
  qed
qed simp

lemma fill_slots_length [simp]: "length (fill_slots xs ps) = length xs"
  by (induction xs ps rule: fill_slots.induct) auto

lemma fill_slots_other: "i \<notin> fst ` set ps \<Longrightarrow> fill_slots xs ps ! i = xs ! i"
  by (induction xs ps rule: fill_slots.induct) auto

lemma fill_slots_at: "distinct (map fst ps) \<Longrightarrow> (i, x) \<in> set ps \<Longrightarrow> i < length xs \<Longrightarrow> fill_slots xs ps ! i = x"
proof (induction xs ps rule: fill_slots.induct)
  case (2 rows j y ps)
  then show ?case using fill_slots_other [of j ps "rows[j := y]"] by auto
qed simp

lemma map_fill_slots: "map f (fill_slots xs ps) = fill_slots (map f xs) (map (map_prod id f) ps)"
  by (induction xs ps rule: fill_slots.induct) (auto simp: map_update)

lemma mset_fill_slots:
  "distinct (map fst ps) \<Longrightarrow> (\<forall>(i, x) \<in> set ps. i < length xs) \<Longrightarrow>
     mset (fill_slots xs ps) + mset (map (\<lambda>(i, _). xs ! i) ps) = mset xs + mset (map snd ps)"
proof (induction xs ps rule: fill_slots.induct)
  case (2 rows i x ps)
  have "map (\<lambda>(j, _). rows[i := x] ! j) ps = map (\<lambda>(j, _). rows ! j) ps"
    using "2.prems"(1) by (intro map_cong [OF refl]) (auto simp: nth_list_update image_iff)
  with 2 mset_list_update [of i rows x]
  have "mset (fill_slots (rows[i := x]) ps) + mset (map (\<lambda>(i, _). rows ! i) ps) = mset (rows[i := x]) + mset (map snd ps)"
    by auto
  with mset_list_update [of i rows x] "2.prems" show ?case
    by simp
qed simp


text \<open>What a claim pairs up: a slot and the wanted row put there.\<close>

definition placed_rows :: "json list \<Rightarrow> json list \<Rightarrow> (nat \<times> json) list" where
  "placed_rows rows wanted = (let claimed = claim_slots (map Some (texts rows)) wanted in
     zip (sort (map snd claimed)) (map fst claimed))"

lemma set_row_order_placed:
  "set_row_order rows wanted = (list_ex (\<lambda>(i, x). \<not> same_row (rows ! i) x) (placed_rows rows wanted),
     fill_slots rows (placed_rows rows wanted))"
  by (simp add: set_row_order_def placed_rows_def Let_def comp_def)

lemma map_zip_left: "length xs = length ys \<Longrightarrow> map (\<lambda>(i, _). f i) (zip xs ys) = map f xs"
  by (induction rule: list_induct2) auto

lemma placed_rows_ok:
  shows "distinct (map fst (placed_rows rows wanted))"
    and "\<forall>(i, x) \<in> set (placed_rows rows wanted). i < length rows"
    and "mset (map (\<lambda>(i, _). texts rows ! i) (placed_rows rows wanted)) = mset (texts (map snd (placed_rows rows wanted)))"
proof -
  define cl where "cl = claim_slots (map Some (texts rows)) wanted"
  have pr: "placed_rows rows wanted = zip (sort (map snd cl)) (map fst cl)"
    by (simp add: placed_rows_def cl_def Let_def)
  from claim_slots_ok [OF cl_def] have cl: "distinct (map snd cl)"
    "\<And>r i. (r, i) \<in> set cl \<Longrightarrow> i < length rows \<and> texts rows ! i = canonical (Some r)" by auto
  show "distinct (map fst (placed_rows rows wanted))" using cl(1) by (simp add: pr)
  show "\<forall>(i, x) \<in> set (placed_rows rows wanted). i < length rows"
    using cl(2) by (auto simp: pr dest!: set_zip_leftD)
  have "map (\<lambda>(i, _). texts rows ! i) (placed_rows rows wanted) = map (\<lambda>i. texts rows ! i) (sort (map snd cl))"
    by (simp add: pr map_zip_left)
  then have "mset (map (\<lambda>(i, _). texts rows ! i) (placed_rows rows wanted)) = mset (map (\<lambda>i. texts rows ! i) (map snd cl))"
    by (metis mset_map mset_sort)
  also have "map (\<lambda>i. texts rows ! i) (map snd cl) = texts (map fst cl)"
    using cl(2) by (auto simp: comp_def)
  finally show "mset (map (\<lambda>(i, _). texts rows ! i) (placed_rows rows wanted)) = mset (texts (map snd (placed_rows rows wanted)))"
    by (simp add: pr map_snd_zip)
qed


lemma set_row_order_mset: "mset (texts (snd (set_row_order rows wanted))) = mset (texts rows)"
proof -
  let ?ps = "map (map_prod id (\<lambda>r. canonical (Some r))) (placed_rows rows wanted)"
  have "mset (fill_slots (texts rows) ?ps) + mset (map (\<lambda>(i, _). texts rows ! i) ?ps) = mset (texts rows) + mset (map snd ?ps)"
    using placed_rows_ok(1,2) [of rows wanted] by (intro mset_fill_slots) (auto simp: comp_def)
  moreover have "map (\<lambda>(i, _). texts rows ! i) ?ps = map (\<lambda>(i, _). texts rows ! i) (placed_rows rows wanted)"
    by auto
  moreover have "map snd ?ps = texts (map snd (placed_rows rows wanted))" by simp
  ultimately show ?thesis
    using placed_rows_ok(3) [of rows wanted]
    by (simp only: set_row_order_placed snd_conv map_fill_slots add_right_cancel)
qed

lemma set_row_order_moved: "fst (set_row_order rows wanted) \<longleftrightarrow> texts (snd (set_row_order rows wanted)) \<noteq> texts rows"
proof -
  let ?ps = "placed_rows rows wanted"
  have at: "fill_slots rows ?ps ! i = x" if "(i, x) \<in> set ?ps" for i x
    using that placed_rows_ok(1,2) [of rows wanted] by (intro fill_slots_at) auto
  have "texts (fill_slots rows ?ps) = texts rows \<longleftrightarrow> (\<forall>i < length rows. same_row (rows ! i) (fill_slots rows ?ps ! i))"
    by (auto simp: list_eq_iff_nth_eq same_row_iff)
  also have "\<dots> \<longleftrightarrow> (\<forall>(i, x) \<in> set ?ps. same_row (rows ! i) x)"
  proof safe
    fix i x assume "\<forall>i < length rows. same_row (rows ! i) (fill_slots rows ?ps ! i)" "(i, x) \<in> set ?ps"
    then show "same_row (rows ! i) x" using at placed_rows_ok(2) [of rows wanted] by fastforce
  next
    fix i assume s: "\<forall>(i, x) \<in> set ?ps. same_row (rows ! i) x" and "i < length rows"
    show "same_row (rows ! i) (fill_slots rows ?ps ! i)"
    proof (cases "i \<in> fst ` set ?ps")
      case True
      with at s show ?thesis by auto
    next
      case False
      then show ?thesis by (simp add: fill_slots_other same_row_iff)
    qed
  qed
  finally show ?thesis by (auto simp: set_row_order_placed list_ex_iff)
qed

text \<open>When the wanted rows are the rows there are, every one of them finds its slot.\<close>

lemma claim_slots_all:
  "mset (map Some (texts wanted)) \<subseteq># mset cs \<Longrightarrow> map fst (claim_slots cs wanted) = wanted"
proof (induction cs wanted rule: claim_slots.induct)
  case (2 cs row wanted)
  have "Some (canonical (Some row)) \<in> set cs"
    using mset_subset_eqD [OF "2.prems", of "Some (canonical (Some row))"] by simp
  then obtain i where i: "first_index (\<lambda>c. c = Some (canonical (Some row))) cs = Some i"
    using first_index_None [of "\<lambda>c. c = Some (canonical (Some row))" cs] by auto
  have "i < length cs" "cs ! i = Some (canonical (Some row))" using first_index_Some [OF i] by simp_all
  then have "add_mset (Some (canonical (Some row))) (mset (cs[i := None])) = add_mset None (mset cs)"
    by (metis mset_list_update)
  moreover have "mset cs \<subseteq># add_mset None (mset cs)" by simp
  moreover have "add_mset (Some (canonical (Some row))) (mset (map Some (texts wanted))) \<subseteq># mset cs"
    using "2.prems" by simp
  ultimately have "add_mset (Some (canonical (Some row))) (mset (map Some (texts wanted))) \<subseteq>#
      add_mset (Some (canonical (Some row))) (mset (cs[i := None]))"
    by (metis subset_mset.order_trans)
  then have "mset (map Some (texts wanted)) \<subseteq># mset (cs[i := None])"
    by simp
  with "2.IH"(2) [OF i] i show ?case by simp
qed simp

lemma set_row_order_restores:
  assumes "mset (texts wanted) = mset (texts rows)"
  shows "snd (set_row_order rows wanted) = wanted"
proof -
  define cl where "cl = claim_slots (map Some (texts rows)) wanted"
  have "mset (map Some (texts wanted)) = mset (map Some (texts rows))"
    using assms by (metis mset_map)
  then have w: "map fst cl = wanted" unfolding cl_def by (intro claim_slots_all) simp
  have len: "length wanted = length rows" using assms by (metis length_map size_mset)
  from claim_slots_ok [OF cl_def] have cl: "distinct (map snd cl)" "set (map snd cl) \<subseteq> {0..<length rows}" by auto
  moreover have "length (map snd cl) = length rows" using w len by (metis length_map)
  ultimately have "set (map snd cl) = {0..<length rows}"
    by (metis card_atLeastLessThan card_subset_eq diff_zero distinct_card finite_atLeastLessThan)
  with cl(1) have "sort (map snd cl) = [0..<length rows]"
    by (metis atLeastLessThan_upt distinct_sort distinct_upt set_sort sorted_distinct_set_unique sorted_sort sorted_upt)
  then have pr: "placed_rows rows wanted = zip [0..<length rows] wanted"
    unfolding placed_rows_def Let_def cl_def [symmetric] w by simp
  show ?thesis
  proof (rule nth_equalityI)
    fix i assume "i < length (snd (set_row_order rows wanted))"
    then have "(i, wanted ! i) \<in> set (zip [0..<length rows] wanted)" "i < length rows"
      using len by (auto simp: set_row_order_placed set_zip intro!: exI [of _ i])
    then show "snd (set_row_order rows wanted) ! i = wanted ! i"
      using len by (auto simp: set_row_order_placed pr intro!: fill_slots_at)
  qed (simp add: set_row_order_placed len)
qed


section \<open>Steps on a config\<close>

text \<open>An object whose path runs through no list.\<close>

definition plain_path :: "json \<Rightarrow> string list \<Rightarrow> bool" where
  "plain_path obj pth \<longleftrightarrow> is_object obj \<and>
     list_all (\<lambda>n. \<not> is_array (get_path (Some obj) (take n pth))) [1..<length pth]"

lemma plain_pathD:
  assumes "plain_path obj pth" "ks \<noteq> []" "prefix ks pth" "ks \<noteq> pth"
  shows "\<not> is_array (get_path (Some obj) ks)"
proof -
  from assms(3) obtain zs where "pth = ks @ zs" by (auto simp: prefix_def)
  with assms(2,4) have "ks = take (length ks) pth" "length ks \<in> set [1..<length pth]" by (auto simp: Suc_le_eq)
  with assms(1) show ?thesis unfolding plain_path_def list_all_iff by metis
qed

lemma write_path_reads:
  assumes "plain_path obj pth" "write_path obj pth v = Inr obj'"
  shows "get_path (Some obj') pth = v"
    and "\<And>q. \<not> prefix pth q \<Longrightarrow> \<not> prefix q pth \<Longrightarrow> get_path (Some obj') q = get_path (Some obj) q"
    and "is_object obj'"
proof -
  have set: "set_path obj pth v = Some obj'" and obj: "is_object obj"
    using assms by (auto simp: write_path_def plain_path_def split: option.splits)
  show "get_path (Some obj') pth = v"
    using plain_pathD [OF assms(1)] by (intro get_set_path [OF set obj]) blast
  show "\<And>q. \<not> prefix pth q \<Longrightarrow> \<not> prefix q pth \<Longrightarrow> get_path (Some obj') q = get_path (Some obj) q"
    by (rule get_path_other [OF set])
  show "is_object obj'" by (rule set_path_is_object [OF set obj])
qed

lemma set_path_prefixes: "set_path obj path v = Some obj' \<Longrightarrow> is_object obj \<Longrightarrow>
    (\<forall>ks. ks \<noteq> [] \<longrightarrow> prefix ks path \<longrightarrow> ks \<noteq> path \<longrightarrow> \<not> is_array (get_path (Some obj) ks)) \<Longrightarrow>
    prefix ks path \<Longrightarrow> ks \<noteq> path \<Longrightarrow> \<not> is_array (get_path (Some obj') ks)"
proof (induction obj path v arbitrary: obj' ks rule: set_path.induct)
  case (2 kvs k v)
  then show ?case by (auto simp: is_array_def prefix_Cons)
next
  case (3 kvs k k' ks' v)
  let ?c = "if truthy (map_of kvs k) then the (map_of kvs k) else JObj []"
  from "3.prems"(1) obtain child where c: "set_path ?c (k' # ks') v = Some child"
    and obj': "obj' = JObj (put_key k child kvs)" by (auto split: option.splits)
  have na: "\<not> is_array (get_path (map_of kvs k) qs)" if "prefix qs (k' # ks')" "qs \<noteq> k' # ks'" for qs
    using "3.prems"(3) [rule_format, of "k # qs"] that by simp
  have nc: "\<not> is_array (Some ?c)"
    using na [of "[]"] by (auto simp: truthy_def is_array_def split: option.splits json.splits)
  have cna: "\<not> is_array (get_path (Some ?c) qs)" if "qs \<noteq> []" "prefix qs (k' # ks')" "qs \<noteq> k' # ks'" for qs
  proof (cases "truthy (map_of kvs k)")
    case True
    then have "Some ?c = map_of kvs k" by (auto simp: truthy_def split: option.splits)
    with na [OF that(2,3)] show ?thesis by simp
  next
    case False
    with that(1) show ?thesis by (cases qs) (auto simp: is_array_def)
  qed
  show ?case
  proof (cases ks)
    case Nil
    then show ?thesis by (simp add: obj' is_array_def)
  next
    case (Cons q qs)
    with "3.prems" have q: "q = k" "prefix qs (k' # ks')" "qs \<noteq> k' # ks'" by auto
    have "\<not> is_array (get_path (Some child) qs)"
    proof (cases "is_object ?c")
      case True
      from "3.IH" [OF c True _ q(2,3)] cna show ?thesis by blast
    next
      case False
      with c nc have "child = ?c" "ks' = []"
        by (cases ?c; simp add: is_array_def is_object_def split: if_splits)+
      moreover with q have "qs = []" by (auto simp: prefix_Cons)
      ultimately show ?thesis using nc by simp
    qed
    then show ?thesis by (simp add: obj' Cons q)
  qed
qed (auto simp: is_object_def split: if_splits)

lemma write_path_plain:
  assumes "plain_path obj pth" "write_path obj pth v = Inr obj'"
  shows "plain_path obj' pth"
proof -
  have set: "set_path obj pth v = Some obj'" and obj: "is_object obj"
    using assms by (auto simp: write_path_def plain_path_def split: option.splits)
  have "\<not> is_array (get_path (Some obj') (take n pth))" if "n < length pth" for n
  proof (rule set_path_prefixes [OF set obj])
    show "take n pth \<noteq> pth" using that by (metis length_take less_irrefl min.absorb4)
  qed (use plain_pathD [OF assms(1)] in \<open>auto simp: take_is_prefix\<close>)
  with set_path_is_object [OF set obj] show ?thesis by (auto simp: plain_path_def list_all_iff)
qed

text \<open>C28
  Reverting or reapplying a setting's change leaves that setting at the value wanted, touches no
  other part of the config, reports a change exactly when the value differed, and does nothing
  when run again.
\<close>

theorem value_step_restores:
  assumes "plain_path draft pth" "apply_step draft (ValueStep pth before after) toApplied = Inr (changed, draft')"
  shows "same (get_path (Some draft') pth) (if toApplied then before else after) \<and>
    (\<forall>q. \<not> prefix pth q \<and> \<not> prefix q pth \<longrightarrow> get_path (Some draft') q = get_path (Some draft) q) \<and>
    changed = (\<not> same (get_path (Some draft) pth) (if toApplied then before else after)) \<and>
    apply_step draft' (ValueStep pth before after) toApplied = Inr (False, draft')"
proof (cases "same (get_path (Some draft) pth) (if toApplied then before else after)")
  case True
  with assms(2) show ?thesis by (auto simp: apply_step_def)
next
  case False
  with assms(2) have ch: changed and w: "write_path draft pth (if toApplied then before else after) = Inr draft'"
    by (auto simp: apply_step_def Let_def split: if_splits sum.splits)
  note r = write_path_reads [OF assms(1) w]
  from r(1) have "apply_step draft' (ValueStep pth before after) toApplied = Inr (False, draft')"
    by (simp add: apply_step_def Let_def)
  with False ch r show ?thesis by simp
qed

theorem value_step_restores_witness:
  "apply_step (toy_config [] False) (ValueStep [''geo'', ''enabled''] (Some (JBool True)) (Some (JBool False))) True
     = Inr (True, toy_config [] True) \<and>
   same (get_path (Some (toy_config [] True)) [''geo'', ''enabled'']) (Some (JBool True)) \<and>
   get_path (Some (toy_config [] True)) [''peers''] = get_path (Some (toy_config [] False)) [''peers'']"
proof -
  have step: "apply_step (toy_config [] False) (ValueStep [''geo'', ''enabled''] (Some (JBool True)) (Some (JBool False))) True
     = Inr (True, toy_config [] True)"
    by (simp add: apply_step_def same_iff_norm norm_def toy_config_def write_path_def truthy_def)
  have "plain_path (toy_config [] False) [''geo'', ''enabled'']"
    by (simp add: plain_path_def toy_config_def is_object_def is_array_def)
  from value_step_restores [OF this step] step show ?thesis by (auto simp del: get_path.simps)
qed

text \<open>C29
  A setting that was changed elsewhere, to neither of the two values the change speaks of, is
  never overwritten: reverting and reapplying both refuse, and the save sends nothing.
\<close>

theorem stale_setting_is_refused:
  assumes "\<not> same (get_path (Some (body base)) pth) before" "\<not> same (get_path (Some (body base)) pth) after"
    and "change_steps c = ValueStep pth before after # rest"
  shows "revert_change c (body base) = Inl STALE \<and> reapply_change c (body base) = Inl STALE \<and>
    save_attempts get put (revert_change c) (Suc n) base w = (Inl (MergeError STALE), base, w)"
  using assms by (simp add: revert_change_def reapply_change_def apply_change_def apply_step_def Let_def)

theorem stale_setting_is_refused_witness:
  "revert_change \<lparr>change_text = [], change_steps = [ValueStep [''mtu''] (Some (JNum 1400)) (Some (JNum 1420))], change_row = None\<rparr>
     (JObj [(''mtu'', JNum 1280)]) = Inl STALE"
proof -
  let ?base = "\<lparr>body = JObj [(''mtu'', JNum 1280)], etag = []\<rparr>"
  have "\<not> same (get_path (Some (body ?base)) [''mtu'']) (Some (JNum 1400))"
    "\<not> same (get_path (Some (body ?base)) [''mtu'']) (Some (JNum 1420))"
    by (simp_all add: same_iff_norm norm_def)
  from conjunct1 [OF stale_setting_is_refused [OF this, of "\<lparr>change_text = [],
      change_steps = [ValueStep [''mtu''] (Some (JNum 1400)) (Some (JNum 1420))], change_row = None\<rparr>" "[]"]]
  show ?thesis by simp
qed

lemma move_row_result:
  assumes "plain_path draft pth" "move_row draft pth have wanted at wantRows = Inr (changed, draft')"
  shows "(if changed then mset (texts (list_at draft' pth)) + row_text have = mset (texts (list_at draft pth)) + row_text wanted
      else list_at draft' pth = list_at draft pth) \<and>
    (\<forall>q. \<not> prefix pth q \<and> \<not> prefix q pth \<longrightarrow> get_path (Some draft') q = get_path (Some draft) q)"
proof -
  define found where "found = is_array (get_path (Some draft) pth)"
  from assms(2) obtain draft1 where d1: "(if found then Inr draft else write_path draft pth (Some (JArr []))) = Inr draft1"
    by (auto simp: move_row_def found_def split: sum.splits)
  with assms(2) obtain rows where rows: "move_rows (list_at draft1 pth) have wanted at wantRows = Inr (changed, rows)"
      and d2: "if changed then write_path draft1 pth (Some (JArr rows)) = Inr draft' else draft' = draft1"
    by (auto simp: move_row_def found_def split: sum.splits prod.splits if_splits)
  have l1: "list_at draft1 pth = list_at draft pth" and
    f1: "\<And>q. \<not> prefix pth q \<Longrightarrow> \<not> prefix q pth \<Longrightarrow> get_path (Some draft1) q = get_path (Some draft) q" and p1: "plain_path draft1 pth"
  proof -
    have "list_at draft1 pth = list_at draft pth \<and> plain_path draft1 pth \<and>
      (\<forall>q. \<not> prefix pth q \<longrightarrow> \<not> prefix q pth \<longrightarrow> get_path (Some draft1) q = get_path (Some draft) q)"
    proof (cases found)
      case False
      with d1 have w: "write_path draft pth (Some (JArr [])) = Inr draft1" by simp
      note r = write_path_reads [OF assms(1) w]
      have "list_at draft pth = []"
        using False by (auto simp: found_def is_array_def list_at_def split: option.splits json.splits)
      moreover have "plain_path draft1 pth"
        by (rule write_path_plain [OF assms(1) w])
      ultimately show ?thesis using r by (simp add: list_at_def)
    qed (use d1 assms(1) in auto)
    then show "list_at draft1 pth = list_at draft pth"
      "\<And>q. \<not> prefix pth q \<Longrightarrow> \<not> prefix q pth \<Longrightarrow> get_path (Some draft1) q = get_path (Some draft) q" "plain_path draft1 pth"
      by blast+
  qed
  show ?thesis
    using move_rows_accounts [OF rows] d2 l1 f1 write_path_reads [OF p1] by (auto simp: list_at_def)
qed


text \<open>C5
  A row step neither loses nor duplicates a row: after a revert (or a reapply) that changed
  something, the list holds the rows it held, less one row equal to the one taken out, plus the
  one put in; a step that changed nothing left the rows as they were; and no other part of the
  config is touched. Rows added elsewhere since the change was listed survive.
\<close>

theorem row_step_accounts:
  assumes "plain_path draft pth"
    and "apply_step draft (RowStep pth before after beforeAt afterAt beforeRows afterRows) toApplied = Inr (changed, draft')"
  shows "(if changed
      then mset (texts (list_at draft' pth)) + row_text (if toApplied then after else before) =
           mset (texts (list_at draft pth)) + row_text (if toApplied then before else after)
      else list_at draft' pth = list_at draft pth) \<and>
    (\<forall>q. \<not> prefix pth q \<and> \<not> prefix q pth \<longrightarrow> get_path (Some draft') q = get_path (Some draft) q)"
proof -
  from assms(2) have "move_row draft pth (if toApplied then after else before) (if toApplied then before else after)
      (if toApplied then beforeAt else afterAt) (if toApplied then beforeRows else afterRows) = Inr (changed, draft')"
    by (simp add: apply_step_def)
  from move_row_result [OF assms(1) this] show ?thesis .
qed

definition toy_removed :: step where
  "toy_removed = RowStep [''peers''] (Some (toy_peer ''tv'' ''10.0.0.3'')) None 0 (-1) [toy_peer ''tv'' ''10.0.0.3''] []"

theorem row_step_accounts_witness:
  "apply_step (toy_config [toy_peer ''nas'' ''10.0.0.2''] True) toy_removed True =
     Inr (True, toy_config [toy_peer ''tv'' ''10.0.0.3'', toy_peer ''nas'' ''10.0.0.2''] True) \<and>
   mset (texts [toy_peer ''tv'' ''10.0.0.3'', toy_peer ''nas'' ''10.0.0.2'']) =
     mset (texts [toy_peer ''nas'' ''10.0.0.2'']) + row_text (Some (toy_peer ''tv'' ''10.0.0.3''))"
proof -
  have step: "apply_step (toy_config [toy_peer ''nas'' ''10.0.0.2''] True) toy_removed True =
     Inr (True, toy_config [toy_peer ''tv'' ''10.0.0.3'', toy_peer ''nas'' ''10.0.0.2''] True)"
    by (simp add: apply_step_def toy_removed_def move_row_def move_rows_def list_at_def toy_config_def toy_peer_def
        is_array_def write_path_def count_of_def same_row_def same_iff_norm norm_def nonempty_members_def truthy_def
        strict_equal_def is_scalar_def insert_at_def)
  have "plain_path (toy_config [toy_peer ''nas'' ''10.0.0.2''] True) [''peers'']"
    by (simp add: plain_path_def toy_config_def is_object_def)
  from row_step_accounts [OF this step [unfolded toy_removed_def]] step show ?thesis
    by (simp add: list_at_def toy_config_def row_text_def)
qed

text \<open>
  Putting rows in an order only moves rows: the list holds the same rows afterwards, it reports a
  change exactly when the sequence changed, and when the wanted order names the rows there are the
  result is that order.
\<close>

theorem set_row_order_permutes:
  "mset (texts (snd (set_row_order rows wanted))) = mset (texts rows) \<and>
   (fst (set_row_order rows wanted) = (texts (snd (set_row_order rows wanted)) \<noteq> texts rows)) \<and>
   (mset (texts wanted) = mset (texts rows) \<longrightarrow> snd (set_row_order rows wanted) = wanted)"
  using set_row_order_mset set_row_order_moved set_row_order_restores by blast

theorem set_row_order_permutes_witness:
  "snd (set_row_order [JStr ''a'', JStr ''b'', JStr ''c''] [JStr ''c'', JStr ''a'', JStr ''b'']) = [JStr ''c'', JStr ''a'', JStr ''b'']"
proof -
  have "mset (texts [JStr ''c'', JStr ''a'', JStr ''b'']) = mset (texts [JStr ''a'', JStr ''b'', JStr ''c''])"
    by simp
  with set_row_order_permutes show ?thesis by blast
qed

end
