(* ===== verification/Lockout.thy ===== *)
theory Lockout
  imports Js_Json Json_Canon Config_Save
begin

text \<open>
  \<open>core/lockout.js\<close>: reading the answer of the pre-apply check. Anything unexpected fails closed,
  and a set of lockout risks has a signature, so an acknowledgement can be bound to the risks the
  operator read.
\<close>

section \<open>Answers of the API\<close>

text \<open>What \<open>api\<close> rejects with: an \<open>Error\<close> that may carry the body of the answer.\<close>

record api_failure = api_error +
  error_body :: jsval

type_synonym answer = "api_failure + jsval"

text \<open>\<open>String(e.message || e)\<close>.\<close>

definition error_text :: "'a api_error_scheme \<Rightarrow> string" where
  "error_text e = (if message e = [] then ''Error'' else message e)"

section \<open>The result of a check\<close>

definition LOCKOUT_CODE_PREFIX :: string where
  "LOCKOUT_CODE_PREFIX = ''lockout_risk_''"

definition at_member :: "jsval \<Rightarrow> string \<Rightarrow> jsval" where
  "at_member v k = (case v of None \<Rightarrow> None | Some j \<Rightarrow> member_json j k)"

definition is_validate_shape :: "jsval \<Rightarrow> bool" where
  "is_validate_shape bd \<longleftrightarrow>
     is_boolean (at_member bd ''ok'') \<and>
     (is_nullish (at_member bd ''warnings'') \<or> is_array (at_member bd ''warnings'')) \<and>
     (is_nullish (at_member bd ''errors'') \<or> is_array (at_member bd ''errors'')) \<and>
     (is_nullish (at_member bd ''config_hash'') \<or> is_string (at_member bd ''config_hash''))"

definition array_elems :: "jsval \<Rightarrow> json list" where
  "array_elems v = (case v of Some (JArr xs) \<Rightarrow> xs | _ \<Rightarrow> [])"

definition is_lockout_risk :: "json \<Rightarrow> bool" where
  "is_lockout_risk w = (case member_json w ''code'' of
     Some (JStr code) \<Rightarrow> starts_with code LOCKOUT_CODE_PREFIX | _ \<Rightarrow> False)"

definition lockout_risks :: "jsval \<Rightarrow> json list" where
  "lockout_risks res = filter is_lockout_risk (array_elems (at_member res ''warnings''))"

definition risk_text :: "json \<Rightarrow> string" where
  "risk_text w = js_string (the (member_json w ''code'')) @ '':'' @ str_or_empty (member_json w ''message'')"

definition lockout_signature :: "json list \<Rightarrow> string" where
  "lockout_signature risks = join ''|'' (sort (map risk_text risks))"

text \<open>The result, or the error text that blocks the apply.\<close>

definition UNEXPECTED_CHECK :: string where
  "UNEXPECTED_CHECK = ''Config check returned an unexpected response; not applying.''"

definition fetch_validate_result :: "answer \<Rightarrow> string + jsval" where
  "fetch_validate_result a = (case a of
     Inr bd \<Rightarrow> if is_validate_shape bd then Inr bd else Inl UNEXPECTED_CHECK
   | Inl e \<Rightarrow> if is_validate_shape (error_body e) then Inr (error_body e) else Inl (error_text e))"

definition check_ok :: "jsval \<Rightarrow> bool" where
  "check_ok res = truthy (at_member res ''ok'')"

section \<open>What a signature identifies\<close>

lemma join_nonempty: "xs \<noteq> [] \<Longrightarrow> (\<And>x. x \<in> set xs \<Longrightarrow> x \<noteq> []) \<Longrightarrow> join s xs \<noteq> []"
  by (cases "(s, xs)" rule: join.cases) auto

lemma sort_Nil_iff [simp]: "sort xs = [] \<longleftrightarrow> xs = []"
  by (metis length_0_conv length_sort)

lemma lockout_signature_nonempty [simp]: "lockout_signature risks = [] \<longleftrightarrow> risks = []"
proof
  assume e: "lockout_signature risks = []"
  show "risks = []"
  proof (rule ccontr)
    assume "risks \<noteq> []"
    then have "join ''|'' (sort (map risk_text risks)) \<noteq> []"
      by (intro join_nonempty) (auto simp: risk_text_def)
    with e show False by (simp add: lockout_signature_def)
  qed
qed (simp add: lockout_signature_def)

lemma sort_eq_mset: "sort xs = sort ys \<longleftrightarrow> mset xs = mset (ys :: 'a :: linorder list)"
  by (metis mset_sort properties_for_sort sorted_sort)

text \<open>
  An acknowledgement identifies the warnings it was given for: when no warning text holds the
  separator, two sets of lockout risks have the same signature exactly when they hold the same
  risks, code and message, in whatever order the check listed them.
\<close>

theorem signature_identifies_risks:
  assumes "\<forall>w \<in> set risks \<union> set risks'. CHR ''|'' \<notin> set (risk_text w)"
  shows "lockout_signature risks = lockout_signature risks' \<longleftrightarrow>
    mset (map risk_text risks) = mset (map risk_text risks')"
proof
  have sp: "split_on CHR ''|'' (lockout_signature rs) = (if rs = [] then [[]] else sort (map risk_text rs))"
    if "set rs \<subseteq> set risks \<union> set risks'" for rs
  proof (cases "rs = []")
    case False
    have "CHR ''|'' \<notin> set p" if "p \<in> set (sort (map risk_text rs))" for p
      using that assms \<open>set rs \<subseteq> set risks \<union> set risks'\<close> by auto
    then have "split_on CHR ''|'' (join ''|'' (sort (map risk_text rs))) = sort (map risk_text rs)"
      using False by (intro split_on_join) (simp_all del: set_sort)
    with False show ?thesis by (simp add: lockout_signature_def)
  qed (simp add: lockout_signature_def)
  assume "lockout_signature risks = lockout_signature risks'"
  then have "risks = [] \<longleftrightarrow> risks' = []" and
      "split_on CHR ''|'' (lockout_signature risks) = split_on CHR ''|'' (lockout_signature risks')"
    by (metis lockout_signature_nonempty, simp only:)
  with sp [of risks] sp [of risks'] have "sort (map risk_text risks) = sort (map risk_text risks')"
    by (cases "risks = []") simp_all
  then show "mset (map risk_text risks) = mset (map risk_text risks')" by (simp only: sort_eq_mset)
next
  assume "mset (map risk_text risks) = mset (map risk_text risks')"
  then show "lockout_signature risks = lockout_signature risks'"
    by (simp only: lockout_signature_def sort_eq_mset [symmetric])
qed

definition toy_risk :: "string \<Rightarrow> string \<Rightarrow> json" where
  "toy_risk code msg = JObj [(''code'', JStr (''lockout_risk_'' @ code)), (''message'', JStr msg)]"

theorem signature_identifies_risks_witness:
  "lockout_signature [toy_risk ''ssh'' ''port 22'', toy_risk ''ui'' ''port 443''] =
     lockout_signature [toy_risk ''ui'' ''port 443'', toy_risk ''ssh'' ''port 22''] \<and>
   lockout_signature [toy_risk ''ssh'' ''port 22''] \<noteq> lockout_signature [toy_risk ''ui'' ''port 443'']"
  using signature_identifies_risks [of "[toy_risk ''ssh'' ''port 22'', toy_risk ''ui'' ''port 443'']" "[toy_risk ''ui'' ''port 443'', toy_risk ''ssh'' ''port 22'']"]
    signature_identifies_risks [of "[toy_risk ''ssh'' ''port 22'']" "[toy_risk ''ui'' ''port 443'']"]
  by (simp add: risk_text_def toy_risk_def add_mset_commute)

text \<open>
  The separator is not escaped: one risk whose message spells out a second one has the signature
  of the two.
\<close>

lemma signature_of_two_risks_in_one_message:
  "lockout_signature [toy_risk ''a'' ''x|lockout_risk_b:y''] =
   lockout_signature [toy_risk ''a'' ''x'', toy_risk ''b'' ''y'']"
  by (simp add: lockout_signature_def risk_text_def toy_risk_def)

text \<open>
  The check fails closed: a usable result always comes from a body whose \<open>ok\<close> is really a boolean and
  whose lists are lists; anything else, whatever it was, is an error that blocks the apply.
\<close>

theorem check_fails_closed:
  "(\<forall>res. fetch_validate_result a = Inr res \<longrightarrow>
      is_boolean (at_member res ''ok'') \<and> (case a of Inr bd \<Rightarrow> res = bd | Inl e \<Rightarrow> res = error_body e)) \<and>
   ((\<exists>res. fetch_validate_result a = Inr res) =
      is_validate_shape (case a of Inr bd \<Rightarrow> bd | Inl e \<Rightarrow> error_body e))"
  by (auto simp: fetch_validate_result_def is_validate_shape_def split: sum.splits)

theorem check_fails_closed_witness:
  "is_boolean (at_member (Some (JObj [(''ok'', JBool True)])) ''ok'')"
proof -
  have "fetch_validate_result (Inr (Some (JObj [(''ok'', JBool True)]))) = Inr (Some (JObj [(''ok'', JBool True)]))"
    by (simp add: fetch_validate_result_def is_validate_shape_def at_member_def is_boolean_def is_nullish_def)
  with check_fails_closed show ?thesis by blast
qed

end
