(* ===== verification/Apply_Session.thy ===== *)
theory Apply_Session
  imports Lockout
begin

text \<open>
  \<open>core/apply_session.js\<close>: the panel that counts an unconfirmed Apply down and offers to keep or
  revert it. The host's timer does the reverting; the panel only follows what the API says.

  Each function is one run of the module between two awaits. Times are milliseconds on the page's
  clock. The DOM is the texts and flags the module sets; what is shown is read off by
  \<open>session_view\<close>.
\<close>

section \<open>What the API says\<close>

record session_info =
  phase :: string
  deadline :: string
  timeout_seconds :: int
  remaining_seconds :: int
  failure :: string

record revert_info =
  reverted_at :: string
  reason :: string
  config_available :: bool

record apply_status =
  session :: "session_info option"
  last_revert :: "revert_info option"
  confirm_enabled :: bool
  confirm_timeout_seconds :: int

type_synonym session_answer = "api_failure + apply_status"

section \<open>The module's state\<close>

record session_tab =
  known :: "apply_status option"
  unreachable :: bool
  ends_at :: int
  warned :: bool
  acting :: bool
  last_seen :: bool
  session_note :: string
  session_note_err :: bool
  announced :: string

definition initial_session :: session_tab where
  "initial_session = \<lparr>known = None, unreachable = False, ends_at = 0, warned = False, acting = False,
     last_seen = False, session_note = [], session_note_err = False, announced = []\<rparr>"

definition WARN_AT_SECONDS :: int where
  "WARN_AT_SECONDS = 10"

definition POLL_SESSION_MS :: int where
  "POLL_SESSION_MS = 3000"

definition POLL_IDLE_MS :: int where
  "POLL_IDLE_MS = 30000"

definition NO_ANSWER :: string where
  "NO_ANSWER = ''No answer from the host over a new connection.''"

definition REVERT_REASONS :: "(string \<times> string) list" where
  "REVERT_REASONS =
     [(''timeout'', ''It wasn't confirmed in time.''), (''manual'', ''You chose to revert it.''),
      (''interrupted'', ''The host or its timer restarted before it was confirmed.''),
      (''failed_apply'', ''The Apply failed, and the revert only finished later.'')]"

definition session_of :: "apply_status option \<Rightarrow> session_info option" where
  "session_of st = Option.bind st session"

definition revert_of :: "apply_status option \<Rightarrow> revert_info option" where
  "revert_of st = Option.bind st last_revert"

definition in_phase :: "string \<Rightarrow> apply_status option \<Rightarrow> bool" where
  "in_phase p st = (case session_of st of Some s \<Rightarrow> phase s = p | None \<Rightarrow> False)"

text \<open>\<open>Math.max(0, Math.ceil((endsAt - now) / 1000))\<close>.\<close>

definition seconds_left :: "session_tab \<Rightarrow> int \<Rightarrow> int" where
  "seconds_left t now = max 0 (- ((now - ends_at t) div 1000))"

definition set_note :: "string \<Rightarrow> bool \<Rightarrow> session_tab \<Rightarrow> session_tab" where
  "set_note s isErr t = t\<lparr>session_note := s, session_note_err := isErr\<rparr>"

definition note_subject :: "apply_status option \<Rightarrow> string" where
  "note_subject st = (case session_of st of
     Some s \<Rightarrow> phase s @ deadline s
   | None \<Rightarrow> (case revert_of st of Some r \<Rightarrow> reverted_at r | None \<Rightarrow> []))"

definition no_answer_note :: "session_tab \<Rightarrow> string" where
  "no_answer_note t =
     (if in_phase ''active'' (known t)
      then NO_ANSWER @ '' If this change locked you out, the host reverts by itself when the time runs out.''
      else if in_phase ''failed'' (known t)
      then NO_ANSWER @ '' The host has no timer left to revert this, so fix it on the host.''
      else NO_ANSWER)"

section \<open>What is shown\<close>

record session_view =
  panel_hidden :: bool
  panel_warning :: bool
  panel_danger :: bool
  panel_info :: bool
  panel_title :: string
  panel_detail :: string
  check_hidden :: bool
  keep_hidden :: bool
  revert_hidden :: bool
  revert_label :: string
  restore_hidden :: bool
  dismiss_hidden :: bool

definition countdown :: "session_tab \<Rightarrow> int \<Rightarrow> string" where
  "countdown t now = (let left = seconds_left t now in
     if left > 0 then ''Reverting in '' @ show_int left @ ''s'' else ''Reverting now'' @ ellipsis)"

definition show_session :: "session_tab \<Rightarrow> int \<Rightarrow> session_view" where
  "show_session t now =
     (let st = known t; active = in_phase ''active'' st; failed = in_phase ''failed'' st;
          rollingBack = in_phase ''rolling_back'' st; none = (session_of st = None);
          available = (case revert_of st of Some r \<Rightarrow> config_available r | None \<Rightarrow> False);
          (title, detail) =
            (if active then (''Applied. Keep these changes?'', countdown t now)
             else if rollingBack then (''Reverting to the last confirmed config'' @ ellipsis, [])
             else if failed then (''The revert failed, so this host may still be running the rejected config.'',
               case session_of st of Some s \<Rightarrow> failure s | None \<Rightarrow> [])
             else (''Reverted to the last confirmed config.'',
               (case revert_of st of Some r \<Rightarrow> (case map_of REVERT_REASONS (reason r) of Some x \<Rightarrow> x | None \<Rightarrow> []) | None \<Rightarrow> []) @
               (if available then '' The rejected config has been kept.'' else []))) in
      \<lparr>panel_hidden = (none \<and> revert_of st = None), panel_warning = (active \<or> rollingBack), panel_danger = failed,
       panel_info = none, panel_title = title, panel_detail = detail, check_hidden = (\<not> active), keep_hidden = (\<not> active),
       revert_hidden = (\<not> active \<and> \<not> failed), revert_label = (if failed then ''Retry revert'' else ''Revert now''),
       restore_hidden = (\<not> none \<or> \<not> available), dismiss_hidden = (\<not> none)\<rparr>)"

text \<open>What \<open>render\<close> does to the note under the buttons.\<close>

definition render_note :: "session_tab \<Rightarrow> session_tab" where
  "render_note t =
     (if session_of (known t) = None \<and> revert_of (known t) = None \<or> acting t \<or> session_note_err t then t
      else if in_phase ''active'' (known t) \<and> unreachable t
      then set_note ''The API isn't answering. If this change locked you out, the host reverts by itself when the time runs out.'' False t
      else set_note [] False t)"

section \<open>Following the session\<close>

definition tick :: "int \<Rightarrow> session_tab \<Rightarrow> session_tab" where
  "tick now t =
     (if in_phase ''active'' (known t) \<and> seconds_left t now \<le> WARN_AT_SECONDS \<and> \<not> warned t
      then t\<lparr>warned := True,
             announced := ''Reverting in '' @ show_int WARN_AT_SECONDS @ '' seconds unless you keep these changes.''\<rparr>
      else t)"

text \<open>The second result says that the session ended by itself, so \<open>onSettled\<close> is called.\<close>

definition adopt :: "int \<Rightarrow> apply_status option \<Rightarrow> session_tab \<Rightarrow> session_tab \<times> bool" where
  "adopt now next t =
     (let hadSession = last_seen t;
          isNew = (in_phase ''active'' next \<and>
            (case session_of (known t) of None \<Rightarrow> True | Some s \<Rightarrow> Some (deadline s) \<noteq> map_option deadline (session_of next)));
          t1 = (if \<not> acting t \<and> note_subject (known t) \<noteq> note_subject next then set_note [] False t else t);
          t2 = t1\<lparr>known := next, unreachable := False\<rparr>;
          t3 = (case session_of next of
              None \<Rightarrow> t2
            | Some s \<Rightarrow>
                (let t' = t2\<lparr>ends_at := now + remaining_seconds s * 1000\<rparr> in
                 if isNew then t'\<lparr>warned := False, announced :=
                     ''Applied. Keep these changes? Reverting in '' @ show_int (remaining_seconds s) @ '' seconds.''\<rparr>
                 else t'));
          t4 = t3\<lparr>last_seen := (session_of next \<noteq> None)\<rparr>;
          t5 = (if session_of next = None
                then t4\<lparr>announced := (if revert_of next \<noteq> None then ''Reverted to the last confirmed config.'' else [])\<rparr> else t4) in
      (render_note t5, hadSession \<and> session_of next = None))"

definition fetch_status :: "session_answer \<Rightarrow> api_failure + apply_status option" where
  "fetch_status a = (case a of
     Inr st \<Rightarrow> Inr (Some st)
   | Inl e \<Rightarrow> if status e = Some 404 \<or> status e = Some 403 then Inr None else Inl e)"

text \<open>A poll: whether one is sent, and its answer.\<close>

definition poll_sends :: "bool \<Rightarrow> session_tab \<Rightarrow> bool" where
  "poll_sends hasToken t \<longleftrightarrow> \<not> acting t \<and> hasToken"

definition poll_answer :: "int \<Rightarrow> session_answer \<Rightarrow> session_tab \<Rightarrow> session_tab \<times> bool" where
  "poll_answer now a t = (case fetch_status a of
     Inr next \<Rightarrow> adopt now next t
   | Inl _ \<Rightarrow> (render_note (t\<lparr>unreachable := True\<rparr>), False))"

definition poll_delay :: "session_tab \<Rightarrow> int" where
  "poll_delay t = (if session_of (known t) \<noteq> None then POLL_SESSION_MS else POLL_IDLE_MS)"

section \<open>What the next Apply should do\<close>

record apply_mode =
  confirm :: bool
  timeoutSeconds :: int
  failedRevert :: bool

definition mode_of :: "apply_status option \<Rightarrow> apply_mode" where
  "mode_of next = (case next of
     None \<Rightarrow> \<lparr>confirm = False, timeoutSeconds = 0, failedRevert = False\<rparr>
   | Some st \<Rightarrow>
       \<lparr>confirm = (confirm_enabled st \<or> session st \<noteq> None),
        timeoutSeconds = (case session st of
            Some s \<Rightarrow> if timeout_seconds s \<noteq> 0 then timeout_seconds s else confirm_timeout_seconds st
          | None \<Rightarrow> confirm_timeout_seconds st),
        failedRevert = (case session st of Some s \<Rightarrow> phase s \<noteq> ''active'' | None \<Rightarrow> False)\<rparr>)"

definition read_apply_mode ::
  "int \<Rightarrow> session_answer \<Rightarrow> session_tab \<Rightarrow> (api_failure + apply_mode) \<times> session_tab \<times> bool" where
  "read_apply_mode now a t = (case fetch_status a of
     Inl e \<Rightarrow> (Inl e, t, False)
   | Inr next \<Rightarrow> (case adopt now next t of (t', settled) \<Rightarrow> (Inr (mode_of next), t', settled)))"

definition confirm_mode_known :: "session_tab \<Rightarrow> bool" where
  "confirm_mode_known t = (case known t of
     None \<Rightarrow> False | Some st \<Rightarrow> confirm_enabled st \<or> session st \<noteq> None)"

definition without_session :: "apply_status option \<Rightarrow> session_info option \<Rightarrow> apply_status" where
  "without_session st s = (case st of
     None \<Rightarrow> \<lparr>session = s, last_revert = None, confirm_enabled = False, confirm_timeout_seconds = 0\<rparr>
   | Some x \<Rightarrow> x\<lparr>session := s, last_revert := None\<rparr>)"

definition adopt_applied_session :: "int \<Rightarrow> session_info option \<Rightarrow> session_tab \<Rightarrow> session_tab \<times> bool" where
  "adopt_applied_session now s t = (case s of
     None \<Rightarrow> (t, False) | Some _ \<Rightarrow> adopt now (Some (without_session (known t) s)) t)"

section \<open>Keep, Revert, Restore, Dismiss\<close>

text \<open>A click: nothing while an action runs, else its POST is sent.\<close>

definition act_start :: "session_tab \<Rightarrow> session_tab option" where
  "act_start t = (if acting t then None else Some (set_note ellipsis False (t\<lparr>acting := True\<rparr>)))"

text \<open>The answer to the POST; the flag says that it was accepted, and the session is re-read either way.\<close>

definition act_answer :: "api_failure + unit \<Rightarrow> session_tab \<Rightarrow> session_tab \<times> bool" where
  "act_answer a t = (case a of
     Inl e \<Rightarrow> (let t1 = t\<lparr>acting := False\<rparr> in
       (set_note (if status e \<noteq> None \<and> status e \<noteq> Some 0 then error_text e else no_answer_note t1) True t1, False))
   | Inr _ \<Rightarrow> ((set_note [] False t)\<lparr>last_seen := False\<rparr>, True))"

text \<open>The re-read after an accepted action. It always ends with \<open>onSettled\<close>; the flag says that
  \<open>adopt\<close> called it too.\<close>

definition act_reread :: "int \<Rightarrow> session_answer \<Rightarrow> session_tab \<Rightarrow> session_tab \<times> bool" where
  "act_reread now a t =
     (let (t1, settled) = (case fetch_status a of
          Inr next \<Rightarrow> adopt now next t
        | Inl _ \<Rightarrow> adopt now (Some (without_session (known t) None)) t) in
      (t1\<lparr>acting := False\<rparr>, settled))"


section \<open>Laws of adopting an answer\<close>

lemma set_note_fields [simp]:
  "known (set_note s e t) = known t" "ends_at (set_note s e t) = ends_at t" "last_seen (set_note s e t) = last_seen t"
  "acting (set_note s e t) = acting t" "warned (set_note s e t) = warned t" "announced (set_note s e t) = announced t"
  "unreachable (set_note s e t) = unreachable t"
  by (simp_all add: set_note_def)

lemma render_note_fields [simp]:
  "known (render_note t) = known t" "ends_at (render_note t) = ends_at t" "last_seen (render_note t) = last_seen t"
  "acting (render_note t) = acting t" "warned (render_note t) = warned t" "announced (render_note t) = announced t"
  "unreachable (render_note t) = unreachable t"
  by (simp_all add: render_note_def)

lemma adopt_fields:
  "known (fst (adopt now next t)) = next"
  "acting (fst (adopt now next t)) = acting t"
  "last_seen (fst (adopt now next t)) \<longleftrightarrow> session_of next \<noteq> None"
  "\<not> unreachable (fst (adopt now next t))"
  "snd (adopt now next t) \<longleftrightarrow> last_seen t \<and> session_of next = None"
  by (simp_all add: adopt_def Let_def split: option.split)

lemma adopt_ends_at:
  "session_of next = Some s \<Longrightarrow> ends_at (fst (adopt now next t)) = now + remaining_seconds s * 1000"
  by (simp add: adopt_def Let_def)

lemmas session_laws = adopt_fields adopt_ends_at

text \<open>
  The countdown follows the host's clock, not the page's: after an answer with \<open>r\<close> seconds left,
  the panel shows \<open>r\<close> less the whole seconds gone by since, and zero from then on.
\<close>

theorem countdown_follows_host:
  assumes "session_of next = Some s" "0 \<le> d"
  shows "seconds_left (fst (adopt now next t)) (now + d) = max 0 (remaining_seconds s - d div 1000)"
proof -
  have "(d - remaining_seconds s * 1000) div 1000 = d div 1000 - remaining_seconds s"
    using div_mult_self4 [of 1000 d "- remaining_seconds s"] by (simp add: mult.commute)
  then show ?thesis by (simp add: seconds_left_def adopt_ends_at [OF assms(1)])
qed

definition toy_session :: "string \<Rightarrow> session_info" where
  "toy_session p = \<lparr>phase = p, deadline = ''12:00:00Z'', timeout_seconds = 60, remaining_seconds = 42, failure = []\<rparr>"

definition toy_status :: "session_info option \<Rightarrow> bool \<Rightarrow> apply_status" where
  "toy_status s c = \<lparr>session = s, last_revert = None, confirm_enabled = c, confirm_timeout_seconds = 60\<rparr>"

theorem countdown_follows_host_witness:
  "seconds_left (fst (adopt 5000 (Some (toy_status (Some (toy_session ''active'')) True)) initial_session)) 7500 = 40"
  using countdown_follows_host [of "Some (toy_status (Some (toy_session ''active'')) True)" "toy_session ''active''" 2500 5000 initial_session]
  by (simp add: session_of_def toy_status_def toy_session_def)

text \<open>
  A one-way Apply (\<open>confirm\<close> false) is chosen only on a clear answer: the host said that
  confirm-or-revert is off and that no session is running, or said 404 or 403. No other failure, a
  timeout among them, yields a mode at all, and a session that is not active always blocks.
\<close>

theorem one_way_only_on_a_clear_answer:
  "(\<forall>m t' settled. read_apply_mode now a t = (Inr m, t', settled) \<longrightarrow>
     (\<not> confirm m \<longrightarrow> (case a of
         Inr st \<Rightarrow> \<not> confirm_enabled st \<and> session st = None
       | Inl e \<Rightarrow> status e \<in> {Some 404, Some 403})) \<and>
     (failedRevert m \<longleftrightarrow> (\<exists>st s. a = Inr st \<and> session st = Some s \<and> phase s \<noteq> ''active''))) \<and>
   (\<forall>e. a = Inl e \<longrightarrow> status e \<notin> {Some 404, Some 403} \<longrightarrow> read_apply_mode now a t = (Inl e, t, False))"
  by (cases a) (auto simp: read_apply_mode_def fetch_status_def mode_of_def split: prod.splits option.splits if_splits)

theorem one_way_only_on_a_clear_answer_witness:
  "read_apply_mode 0 (Inl \<lparr>message = ''signal timed out'', status = None, error_code = None, error_body = None\<rparr>) initial_session
     = (Inl \<lparr>message = ''signal timed out'', status = None, error_code = None, error_body = None\<rparr>, initial_session, False)"
  using one_way_only_on_a_clear_answer [of 0 "Inl \<lparr>message = ''signal timed out'', status = None, error_code = None, error_body = None\<rparr>" initial_session]
  by simp

text \<open>
  A session that the tab ends itself is not reported as ending by itself: the action forgets that one was seen. A poll that was sent before
  the action, and answered after it was accepted, upsets this: it sets \<open>lastSeenSession\<close> again, and the re-read reports the end.
\<close>

lemma late_poll_settles_twice:
  "let running = Some (toy_status (Some (toy_session ''active'')) True); over = toy_status None True;
       t0 = fst (adopt 0 running initial_session);
       t1 = the (act_start t0);
       t2 = fst (act_answer (Inr ()) t1);
       t3 = fst (poll_answer 10 (Inr (the running)) t2) in
   poll_sends True t0 \<and> snd (act_reread 20 (Inr over) t3) \<and> \<not> snd (act_reread 20 (Inr over) t2)"
  by (simp add: poll_sends_def poll_answer_def fetch_status_def act_start_def act_answer_def act_reread_def adopt_def
      session_of_def revert_of_def initial_session_def toy_status_def toy_session_def set_note_def render_note_def
      note_subject_def in_phase_def Let_def)

end
