(* ===== verification/Apply_Bar.thy ===== *)
theory Apply_Bar
  imports Apply_Session Text_Output
begin

text \<open>
  \<open>core/apply_bar.js\<close>: the one Apply. An Apply reads the mode, runs the check, and sends the reload,
  with an await between each; clicks, ticks, polls and other answers run in between. The module is
  a machine whose step is one run of a handler or continuation up to its next await: it gets an
  event and returns the requests it sends. An event that cannot happen in a state (an answer to a
  request that was not sent) leaves it as it is.
\<close>

section \<open>What the panel shows\<close>

definition STEPS :: "string list" where
  "STEPS = [''validate'', ''firewall'', ''wireguard'', ''done'']"

definition STEP_LABELS :: "string list" where
  "STEP_LABELS = [''Validating'', ''Applying firewall'', ''Applying WireGuard'', ''Done'']"

definition CONFIG_HASH_MISMATCH :: string where
  "CONFIG_HASH_MISMATCH = ''config_hash_mismatch''"

text \<open>The steps shown: done, active, failed and current, one row of flags per step; and the text read out.\<close>

definition progress_rows :: "nat \<Rightarrow> bool \<Rightarrow> (bool \<times> bool \<times> bool \<times> bool) list" where
  "progress_rows cur failed = map (\<lambda>i.
     (i < cur \<or> cur = 3, i = cur \<and> \<not> failed \<and> cur \<noteq> 3, i = cur \<and> failed, i = cur)) [0..<length STEPS]"

definition progress_status :: "nat \<Rightarrow> bool \<Rightarrow> string" where
  "progress_status cur failed = STEP_LABELS ! cur @ (if failed then '' failed'' else [])"

definition validate_finding_item :: "json \<Rightarrow> string \<times> string option" where
  "validate_finding_item f =
     (if truthy (member_json f ''message'') then js_string (the (member_json f ''message'')) else js_string f,
      if truthy (member_json f ''code'') then Some (js_string (the (member_json f ''code''))) else None)"

datatype severity = Danger | Warning | Success

record check_view =
  check_severity :: severity
  client_ip_line :: string
  finding_items :: "(string \<times> string option) list"
  findings_hidden :: bool

definition show_check :: "jsval \<Rightarrow> check_view" where
  "show_check res =
     (let warnings = array_elems (at_member res ''warnings''); errors = array_elems (at_member res ''errors'');
          ip = (if truthy (at_member res ''detected_client_ip'') then str_or_empty (at_member res ''detected_client_ip'') else ''unknown'') in
      \<lparr>check_severity = (if \<not> check_ok res then Danger else if warnings \<noteq> [] then Warning else Success),
       client_ip_line = ''Your connection appears as: '' @ ip @ '' ('' @
         client_ip_source_label (str_or_empty (at_member res ''ip_detection_source'')) @ '')'' @
         (if truthy (at_member res ''ip_detection_note'') then ''. '' @ str_or_empty (at_member res ''ip_detection_note'') else []),
       finding_items = map validate_finding_item (errors @ warnings),
       findings_hidden = (errors = [] \<and> warnings = [])\<rparr>)"

section \<open>The state\<close>

datatype apply_phase =
    Idle
  | ReadingMode
  | Checking apply_mode
  | Reloading nat bool
  | RefreshingAfterMismatch

record bar =
  bar_phase :: apply_phase
  ack_checked :: bool
  ack_sig :: string
  validate_sig :: string
  ack_wrap_hidden :: bool
  check_panel :: "check_view option"
  showing_clean_check :: bool
  known_revision :: string
  progress :: "(nat \<times> bool) option"
  apply_msg :: "string \<times> bool"
  checks_sent :: nat
  session_panel :: session_tab

definition initial_bar :: bar where
  "initial_bar = \<lparr>bar_phase = Idle, ack_checked = False, ack_sig = [], validate_sig = [], ack_wrap_hidden = True,
     check_panel = None, showing_clean_check = False, known_revision = [], progress = None, apply_msg = ([], False),
     checks_sent = 0, session_panel = initial_session\<rparr>"

definition busy :: "bar \<Rightarrow> bool" where
  "busy s \<longleftrightarrow> bar_phase s \<noteq> Idle"

definition result_hidden :: "bar \<Rightarrow> bool" where
  "result_hidden s \<longleftrightarrow> progress s = None \<and> check_panel s = None \<and> fst (apply_msg s) = []"

datatype request =
    GetSession
  | PostValidate
  | PostReload "string option" "int option"
  | RefreshScreen

text \<open>
  \<open>Invalidate\<close> is a call of \<open>invalidateCheck\<close> by a page, \<open>SessionSettled\<close> the session panel's
  \<open>onSettled\<close> after an action of its own, \<open>DoneTimeout\<close> the timer that hides Done.
\<close>

datatype bar_event =
    ClickApply
  | ModeAnswer int session_answer
  | CheckAnswer answer
  | ProgressAnswer string
  | ReloadAnswer int "api_failure + session_info option"
  | RefreshDone
  | ClickCheck
  | ManualCheckAnswer answer
  | TickAck bool
  | Invalidate
  | DropPassed
  | NoteRevision string
  | Dismiss
  | PollAnswer int session_answer
  | SessionSettled
  | DoneTimeout

section \<open>The operations\<close>

definition set_apply_msg :: "string \<Rightarrow> bool \<Rightarrow> bar \<Rightarrow> bar" where
  "set_apply_msg text isErr s = s\<lparr>apply_msg := (text, isErr)\<rparr>"

definition show_progress :: "nat \<Rightarrow> bool \<Rightarrow> bar \<Rightarrow> bar" where
  "show_progress cur failed s = s\<lparr>progress := Some (cur, failed)\<rparr>"

definition hide_progress :: "bar \<Rightarrow> bar" where
  "hide_progress s = s\<lparr>progress := None\<rparr>"

definition invalidate_check :: "bar \<Rightarrow> bar" where
  "invalidate_check s =
     (let s1 = s\<lparr>validate_sig := [], ack_sig := [], showing_clean_check := False, ack_checked := False,
                 ack_wrap_hidden := True, check_panel := None\<rparr> in
      set_apply_msg [] False (if \<not> busy s1 then hide_progress s1 else s1))"

definition render_check_result :: "jsval \<Rightarrow> bar \<Rightarrow> bar" where
  "render_check_result res s =
     (let risks = lockout_risks res; sig = lockout_signature risks;
          s1 = s\<lparr>check_panel := Some (show_check res), validate_sig := sig\<rparr>;
          s2 = (if ack_sig s1 \<noteq> sig then s1\<lparr>ack_sig := [], ack_checked := False\<rparr> else s1) in
      s2\<lparr>ack_wrap_hidden := (risks = [] \<or> confirm_mode_known (session_panel s2)),
         showing_clean_check := (check_ok res \<and> array_elems (at_member res ''warnings'') = [])\<rparr>)"

text \<open>The continuation of \<open>runCheck\<close> on its answer.\<close>

definition run_check :: "answer \<Rightarrow> bar \<Rightarrow> jsval option \<times> bar" where
  "run_check a s = (case fetch_validate_result a of
     Inl err \<Rightarrow> (None, set_apply_msg err True (invalidate_check s))
   | Inr res \<Rightarrow> (Some res, set_apply_msg
       (if check_ok res then ''Config check passed (nft -c).'' else ''Config check failed; fix the errors below.'')
       (\<not> check_ok res) (render_check_result res s)))"

definition checking_msg :: "bar \<Rightarrow> bar" where
  "checking_msg s = set_apply_msg (''Checking config'' @ ellipsis) False s"

definition check_config :: "bar \<Rightarrow> bar \<times> request list" where
  "check_config s = (if busy s then (s, []) else ((checking_msg s)\<lparr>checks_sent := Suc (checks_sent s)\<rparr>, [PostValidate]))"

definition drop_passed_check :: "bar \<Rightarrow> bar" where
  "drop_passed_check s =
     (if \<not> busy s \<and> showing_clean_check s \<and> \<not> snd (apply_msg s) then invalidate_check s else s)"

definition note_config_revision :: "string \<Rightarrow> bar \<Rightarrow> bar" where
  "note_config_revision revision s =
     (if revision = [] then s
      else (if known_revision s \<noteq> [] \<and> revision \<noteq> known_revision s \<and> \<not> busy s then invalidate_check s else s)
        \<lparr>known_revision := revision\<rparr>)"

text \<open>\<open>runReload\<close> up to its answer. No field is sent for an empty hash or a zero timeout.\<close>

definition run_reload :: "jsval \<Rightarrow> int \<Rightarrow> bool \<Rightarrow> bar \<Rightarrow> bar \<times> request list" where
  "run_reload configHash confirmSeconds keepWarnings s =
     (set_apply_msg [] False (show_progress 1 False (s\<lparr>bar_phase := Reloading 1 keepWarnings\<rparr>)),
      [PostReload (if truthy configHash then Some (str_or_empty configHash) else None)
                  (if confirmSeconds \<noteq> 0 then Some confirmSeconds else None)])"

text \<open>The screen's \<open>onSettled\<close> handler, when an answer shows that a session ended by itself.\<close>

definition if_settled :: "bool \<Rightarrow> bar \<Rightarrow> bar \<times> request list" where
  "if_settled settled s = (if settled then (invalidate_check s, [RefreshScreen]) else (s, []))"

definition stop_apply :: "bar \<Rightarrow> bar" where
  "stop_apply s = s\<lparr>bar_phase := Idle\<rparr>"

definition click_apply :: "bar \<Rightarrow> bar \<times> request list" where
  "click_apply s = (if busy s then (s, []) else (show_progress 0 False (s\<lparr>bar_phase := ReadingMode\<rparr>), [GetSession]))"

definition FAILED_REVERT :: string where
  "FAILED_REVERT = ''The last Apply hasn't finished reverting. Retry the revert before applying again.''"

definition on_mode :: "int \<Rightarrow> session_answer \<Rightarrow> bar \<Rightarrow> bar \<times> request list" where
  "on_mode now a s =
     (let (r, t, settled) = read_apply_mode now a (session_panel s);
          (s1, reqs) = if_settled settled (s\<lparr>session_panel := t\<rparr>) in
      case r of
        Inl e \<Rightarrow> (stop_apply (set_apply_msg (error_text e) True (show_progress 0 True s1)), reqs)
      | Inr m \<Rightarrow>
          if failedRevert m then (stop_apply (set_apply_msg FAILED_REVERT True (hide_progress s1)), reqs)
          else (checking_msg (s1\<lparr>bar_phase := Checking m\<rparr>), reqs @ [PostValidate]))"

definition LOCKOUT_MSG :: string where
  "LOCKOUT_MSG = ''This config may lock you out. Read the warnings below, then tick the box and apply again.''"

definition on_check :: "apply_mode \<Rightarrow> answer \<Rightarrow> bar \<Rightarrow> bar \<times> request list" where
  "on_check m a s = (case run_check a s of
     (None, s1) \<Rightarrow> (stop_apply (show_progress 0 True s1), [])
   | (Some res, s1) \<Rightarrow>
       if \<not> check_ok res then (stop_apply (show_progress 0 True s1), [])
       else (let risks = lockout_risks res; hash = at_member res ''config_hash'' in
         if confirm m then run_reload hash (timeoutSeconds m) (risks \<noteq> []) s1
         else if risks \<noteq> [] \<and> (\<not> ack_checked s1 \<or> ack_sig s1 \<noteq> lockout_signature risks)
         then (stop_apply (set_apply_msg LOCKOUT_MSG True (hide_progress s1)), [])
         else run_reload hash 0 False s1))"

definition CHANGED_SINCE :: string where
  "CHANGED_SINCE = ''The saved config changed after this check, so nothing was applied. Review it, then Apply again.''"

text \<open>\<open>STEPS.indexOf(step)\<close>, with 0 standing for -1: neither moves the steps on.\<close>

definition step_index :: "string \<Rightarrow> nat" where
  "step_index p = (if p = ''firewall'' then 1 else if p = ''wireguard'' then 2 else if p = ''done'' then 3 else 0)"

definition on_progress :: "nat \<Rightarrow> bool \<Rightarrow> string \<Rightarrow> bar \<Rightarrow> bar" where
  "on_progress cur keep p s =
     (if step_index p > cur then show_progress (step_index p) False (s\<lparr>bar_phase := Reloading (step_index p) keep\<rparr>) else s)"

definition on_reload :: "nat \<Rightarrow> bool \<Rightarrow> int \<Rightarrow> api_failure + session_info option \<Rightarrow> bar \<Rightarrow> bar \<times> request list" where
  "on_reload cur keepWarnings now a s = (case a of
     Inl e \<Rightarrow>
       if error_code e = Some CONFIG_HASH_MISMATCH
       then (set_apply_msg CHANGED_SINCE True (show_progress 0 True
               ((invalidate_check s)\<lparr>bar_phase := RefreshingAfterMismatch\<rparr>)), [RefreshScreen])
       else (stop_apply (set_apply_msg (apply_error_text (error_text e)) True (show_progress cur True s)), [])
   | Inr started \<Rightarrow>
       (let s1 = stop_apply (show_progress 3 False (if keepWarnings then s else invalidate_check s)) in
        (s1\<lparr>session_panel := fst (adopt_applied_session now started (session_panel s1))\<rparr>, [RefreshScreen])))"

definition tick_ack :: "bool \<Rightarrow> bar \<Rightarrow> bar" where
  "tick_ack checked s = s\<lparr>ack_checked := checked, ack_sig := (if checked then validate_sig s else [])\<rparr>"

definition bar_step :: "bar_event \<Rightarrow> bar \<Rightarrow> bar \<times> request list" where
  "bar_step e s = (case e of
     ClickApply \<Rightarrow> click_apply s
   | ModeAnswer now a \<Rightarrow> (if bar_phase s = ReadingMode then on_mode now a s else (s, []))
   | CheckAnswer a \<Rightarrow> (case bar_phase s of Checking m \<Rightarrow> on_check m a s | _ \<Rightarrow> (s, []))
   | ProgressAnswer p \<Rightarrow> (case bar_phase s of Reloading cur keep \<Rightarrow> (on_progress cur keep p s, []) | _ \<Rightarrow> (s, []))
   | ReloadAnswer now a \<Rightarrow> (case bar_phase s of Reloading cur keep \<Rightarrow> on_reload cur keep now a s | _ \<Rightarrow> (s, []))
   | RefreshDone \<Rightarrow> (if bar_phase s = RefreshingAfterMismatch then (stop_apply s, []) else (s, []))
   | ClickCheck \<Rightarrow> check_config s
   | ManualCheckAnswer a \<Rightarrow>
       (if checks_sent s = 0 then (s, []) else (snd (run_check a (s\<lparr>checks_sent := checks_sent s - 1\<rparr>)), []))
   | TickAck checked \<Rightarrow> (tick_ack checked s, [])
   | Invalidate \<Rightarrow> (invalidate_check s, [])
   | DropPassed \<Rightarrow> (drop_passed_check s, [])
   | NoteRevision revision \<Rightarrow> (note_config_revision revision s, [])
   | Dismiss \<Rightarrow> (hide_progress (invalidate_check s), [])
   | PollAnswer now a \<Rightarrow>
       (let (t, settled) = poll_answer now a (session_panel s) in if_settled settled (s\<lparr>session_panel := t\<rparr>))
   | SessionSettled \<Rightarrow> if_settled True s
   | DoneTimeout \<Rightarrow> (if \<not> busy s \<and> progress s = Some (3, False) then hide_progress s else s, []))"

definition bar_run :: "bar_event list \<Rightarrow> bar" where
  "bar_run es = foldl (\<lambda>s e. fst (bar_step e s)) initial_bar es"

fun sent :: "bar \<Rightarrow> bar_event list \<Rightarrow> request list" where
  "sent s [] = []"
| "sent s (e # es) = snd (bar_step e s) @ sent (fst (bar_step e s)) es"

section \<open>The bar that counts unapplied changes\<close>

record unapplied_view =
  bar_hidden :: bool
  bar_text :: string
  nav_badge :: "string option"
  nav_sr :: string

definition show_unapplied_count :: "nat \<Rightarrow> unapplied_view" where
  "show_unapplied_count n =
     (let label = (if n = 1 then ''1 unapplied change'' else show_nat n @ '' unapplied changes'') in
      \<lparr>bar_hidden = (n = 0), bar_text = (if n \<noteq> 0 then label else []),
       nav_badge = (if n \<noteq> 0 then Some (show_nat n) else None),
       nav_sr = (if n \<noteq> 0 then '' ('' @ label @ '')'' else [])\<rparr>)"


section \<open>What each handler keeps\<close>

lemmas bar_ops = set_apply_msg_def show_progress_def hide_progress_def stop_apply_def checking_msg_def

lemma invalidate_fields [simp]:
  "bar_phase (invalidate_check s) = bar_phase s" "ack_sig (invalidate_check s) = []"
  "validate_sig (invalidate_check s) = []" "checks_sent (invalidate_check s) = checks_sent s"
  by (simp_all add: invalidate_check_def bar_ops Let_def)

lemma render_fields [simp]:
  "bar_phase (render_check_result res s) = bar_phase s"
  "validate_sig (render_check_result res s) = lockout_signature (lockout_risks res)"
  "ack_sig (render_check_result res s) = (if ack_sig s = lockout_signature (lockout_risks res) then ack_sig s else [])"
  by (simp_all add: render_check_result_def Let_def)

lemma run_check_phase [simp]: "bar_phase (snd (run_check a s)) = bar_phase s"
  by (simp add: run_check_def bar_ops split: sum.split)

lemma run_check_validate_sig:
  "validate_sig (snd (run_check a s)) =
     (case fetch_validate_result a of Inl _ \<Rightarrow> [] | Inr res \<Rightarrow> lockout_signature (lockout_risks res))"
  by (simp add: run_check_def bar_ops split: sum.split)

lemma run_check_ack_sig:
  "ack_sig (snd (run_check a s)) = (if ack_sig s = validate_sig (snd (run_check a s)) then ack_sig s else [])"
  by (auto simp: run_check_def bar_ops split: sum.split)

lemma if_settled_fields:
  "bar_phase (fst (if_settled b s)) = bar_phase s"
  "ack_sig (fst (if_settled b s)) = (if b then [] else ack_sig s)"
  "validate_sig (fst (if_settled b s)) = (if b then [] else validate_sig s)"
  by (simp_all add: if_settled_def)

lemma run_reload_fields:
  "ack_sig (fst (run_reload h c k s)) = ack_sig s" "validate_sig (fst (run_reload h c k s)) = validate_sig s"
  by (simp_all add: run_reload_def bar_ops)

lemma on_check_sigs:
  "ack_sig (fst (on_check m a s)) = ack_sig (snd (run_check a s))"
  "validate_sig (fst (on_check m a s)) = validate_sig (snd (run_check a s))"
  by (simp_all add: on_check_def Let_def run_reload_fields bar_ops split: prod.split option.split)

lemma on_mode_sigs:
  "ack_sig (fst (on_mode now a s)) \<in> {[], ack_sig s}"
  "validate_sig (fst (on_mode now a s)) \<in> {[], validate_sig s}"
  by (auto simp: on_mode_def if_settled_def bar_ops split: prod.splits sum.splits if_splits)

lemma on_reload_sigs:
  "ack_sig (fst (on_reload cur k now a s)) \<in> {[], ack_sig s}"
  "validate_sig (fst (on_reload cur k now a s)) \<in> {[], validate_sig s}"
  by (auto simp: on_reload_def bar_ops Let_def split: sum.split)

lemma quiet_ops_sigs:
  "ack_sig (fst (click_apply s)) = ack_sig s" "validate_sig (fst (click_apply s)) = validate_sig s"
  "ack_sig (on_progress cur k p s) = ack_sig s" "validate_sig (on_progress cur k p s) = validate_sig s"
  "ack_sig (fst (check_config s)) = ack_sig s" "validate_sig (fst (check_config s)) = validate_sig s"
  "ack_sig (drop_passed_check s) \<in> {[], ack_sig s}" "validate_sig (drop_passed_check s) \<in> {[], validate_sig s}"
  "ack_sig (note_config_revision r s) \<in> {[], ack_sig s}" "validate_sig (note_config_revision r s) \<in> {[], validate_sig s}"
  "ack_sig (hide_progress s) = ack_sig s" "validate_sig (hide_progress s) = validate_sig s"
  by (simp_all add: click_apply_def on_progress_def check_config_def drop_passed_check_def note_config_revision_def bar_ops)

text \<open>
  The signature of the warnings on screen comes from a check's answer, and the signature of the
  acknowledgement from ticking the box while those warnings are on screen.
\<close>

definition answered :: "bar_event \<Rightarrow> answer option" where
  "answered e = (case e of CheckAnswer a \<Rightarrow> Some a | ManualCheckAnswer a \<Rightarrow> Some a | _ \<Rightarrow> None)"

definition shows_risks :: "string \<Rightarrow> bar_event \<Rightarrow> bool" where
  "shows_risks sig e \<longleftrightarrow> (\<exists>a res. answered e = Some a \<and> fetch_validate_result a = Inr res \<and>
     lockout_signature (lockout_risks res) = sig)"

lemma run_check_sigs:
  "ack_sig (snd (run_check a s)) \<in> {[], ack_sig s}"
  "validate_sig (snd (run_check a s)) \<noteq> [] \<Longrightarrow> \<exists>res. fetch_validate_result a = Inr res \<and>
     lockout_signature (lockout_risks res) = validate_sig (snd (run_check a s))"
  using run_check_ack_sig [of a s] by (auto simp: run_check_validate_sig split: sum.splits)

lemma step_ack_sig:
  "ack_sig (fst (bar_step e s)) \<in> {[], ack_sig s} \<or> (e = TickAck True \<and> ack_sig (fst (bar_step e s)) = validate_sig s)"
proof (cases e)
  case (ModeAnswer now a)
  then show ?thesis using on_mode_sigs(1) [of now a s] by (simp add: bar_step_def)
next
  case (CheckAnswer a)
  then show ?thesis using run_check_sigs(1) [of a s] by (simp add: bar_step_def on_check_sigs split: apply_phase.split)
next
  case (ReloadAnswer now a)
  then show ?thesis using on_reload_sigs(1) by (simp add: bar_step_def split: apply_phase.split)
next
  case (ManualCheckAnswer a)
  then show ?thesis
    using run_check_sigs(1) [of a "s\<lparr>checks_sent := checks_sent s - 1\<rparr>"] by (simp add: bar_step_def)
next
  case DropPassed
  then show ?thesis using quiet_ops_sigs(7) [of s] by (simp add: bar_step_def)
next
  case (NoteRevision r)
  then show ?thesis using quiet_ops_sigs(9) [of r s] by (simp add: bar_step_def)
qed (simp_all add: bar_step_def quiet_ops_sigs if_settled_fields tick_ack_def stop_apply_def split: apply_phase.split prod.split)

lemma step_validate_sig:
  "validate_sig (fst (bar_step e s)) \<in> {[], validate_sig s} \<or> shows_risks (validate_sig (fst (bar_step e s))) e"
proof (cases e)
  case (ModeAnswer now a)
  then show ?thesis using on_mode_sigs(2) [of now a s] by (auto simp: bar_step_def)
next
  case (CheckAnswer a)
  then show ?thesis using run_check_sigs(2) [of a s]
    by (auto simp: bar_step_def on_check_sigs shows_risks_def answered_def split: apply_phase.split)
next
  case (ReloadAnswer now a)
  then show ?thesis
    by (cases "bar_phase s") (use on_reload_sigs(2) [of _ _ now a s] in \<open>auto simp: bar_step_def\<close>)
next
  case (ManualCheckAnswer a)
  then show ?thesis
    using run_check_sigs(2) [of a "s\<lparr>checks_sent := checks_sent s - 1\<rparr>"]
    by (auto simp: bar_step_def shows_risks_def answered_def)
next
  case DropPassed
  then show ?thesis using quiet_ops_sigs(8) [of s] by (auto simp: bar_step_def)
next
  case (NoteRevision r)
  then show ?thesis using quiet_ops_sigs(10) [of r s] by (auto simp: bar_step_def)
qed (simp_all add: bar_step_def quiet_ops_sigs if_settled_fields tick_ack_def stop_apply_def split: apply_phase.split prod.split)

section \<open>Every reload was checked, and a risky one-way reload was acknowledged\<close>

lemma bar_run_snoc [simp]: "bar_run (es @ [e]) = fst (bar_step e (bar_run es))"
  by (simp add: bar_run_def)

lemma bar_run_Nil [simp]: "bar_run [] = initial_bar"
  by (simp add: bar_run_def)

lemma shown_before: "validate_sig (bar_run es) = sig \<Longrightarrow> sig \<noteq> [] \<Longrightarrow> \<exists>e \<in> set es. shows_risks sig e"
proof (induction es rule: rev_induct)
  case Nil
  then show ?case by (simp add: initial_bar_def)
next
  case (snoc e es)
  with step_validate_sig [of e "bar_run es"] show ?case by auto
qed

text \<open>
  The operator acknowledged these risks: ticked the box when a check's answer had put them on
  screen, and nothing has revoked the tick since.
\<close>

definition acknowledged :: "string \<Rightarrow> bar_event list \<Rightarrow> bool" where
  "acknowledged sig es \<longleftrightarrow> (\<exists>before after. es = before @ TickAck True # after \<and>
     validate_sig (bar_run before) = sig \<and> (\<exists>e \<in> set before. shows_risks sig e) \<and>
     (\<forall>n \<le> length after. ack_sig (bar_run (before @ TickAck True # take n after)) = sig))"

lemma acknowledged_step:
  assumes "acknowledged sig es" "ack_sig (bar_run (es @ [e])) = sig"
  shows "acknowledged sig (es @ [e])"
proof -
  from assms(1) obtain before after where es: "es = before @ TickAck True # after" "validate_sig (bar_run before) = sig"
    "\<exists>e \<in> set before. shows_risks sig e" "\<forall>n \<le> length after. ack_sig (bar_run (before @ TickAck True # take n after)) = sig"
    by (auto simp: acknowledged_def)
  have "ack_sig (bar_run (before @ TickAck True # take n (after @ [e]))) = sig" if "n \<le> length (after @ [e])" for n
  proof (cases "n \<le> length after")
    case True
    with es(4) show ?thesis by simp
  next
    case False
    with that assms(2) es(1) show ?thesis by (simp add: le_Suc_eq)
  qed
  with es show ?thesis unfolding acknowledged_def by (intro exI [of _ before] exI [of _ "after @ [e]"]) simp
qed

lemma ack_sig_acknowledged: "ack_sig (bar_run es) = sig \<Longrightarrow> sig \<noteq> [] \<Longrightarrow> acknowledged sig es"
proof (induction es rule: rev_induct)
  case Nil
  then show ?case by (simp add: initial_bar_def)
next
  case (snoc e es)
  from step_ack_sig [of e "bar_run es"] snoc.prems
  consider "ack_sig (bar_run es) = sig" | "e = TickAck True" "validate_sig (bar_run es) = sig" by auto
  then show ?case
  proof cases
    case 1
    with snoc acknowledged_step show ?thesis by blast
  next
    case 2
    with shown_before [OF 2(2) snoc.prems(2)] snoc.prems(1) show ?thesis
      unfolding acknowledged_def by (intro exI [of _ es] exI [of _ "[]"]) auto
  qed
qed


definition mode_answered :: "session_answer \<Rightarrow> apply_mode option" where
  "mode_answered a = (case fetch_status a of Inl _ \<Rightarrow> None | Inr st \<Rightarrow> Some (mode_of st))"

lemma read_apply_mode_mode: "fst (read_apply_mode now a t) = Inr m \<longleftrightarrow> mode_answered a = Some m"
  by (auto simp: read_apply_mode_def mode_answered_def split: sum.split prod.split)

lemma if_settled_phase: "if_settled b s = (s', reqs) \<Longrightarrow> bar_phase s' = bar_phase s"
  by (auto simp: if_settled_def split: if_splits)

lemma on_mode_phase:
  "bar_phase (fst (on_mode now a s)) = (case mode_answered a of
     Some m \<Rightarrow> if failedRevert m then Idle else Checking m | None \<Rightarrow> Idle)"
  by (auto simp: on_mode_def read_apply_mode_def mode_answered_def bar_ops Let_def dest: if_settled_phase
      split: sum.splits prod.splits)

lemma on_check_phase:
  "bar_phase (fst (on_check m a s)) = Idle \<or> (\<exists>k. bar_phase (fst (on_check m a s)) = Reloading 1 k)"
  by (auto simp: on_check_def Let_def run_reload_def bar_ops split: prod.split option.split)

lemma on_reload_phase:
  "bar_phase (fst (on_reload cur k now a s)) \<in> {Idle, RefreshingAfterMismatch}"
  by (simp add: on_reload_def Let_def bar_ops split: sum.split)

lemma on_progress_phase:
  "bar_phase s = Reloading cur k \<Longrightarrow> \<exists>c. bar_phase (on_progress cur k p s) = Reloading c k"
  by (simp add: on_progress_def bar_ops)

lemma quiet_ops_phase:
  "bar_phase (fst (check_config s)) = bar_phase s" "bar_phase (drop_passed_check s) = bar_phase s"
  "bar_phase (note_config_revision r s) = bar_phase s" "bar_phase (tick_ack b s) = bar_phase s"
  "bar_phase (hide_progress s) = bar_phase s" "bar_phase (fst (if_settled b s)) = bar_phase s"
  by (simp_all add: check_config_def drop_passed_check_def note_config_revision_def tick_ack_def if_settled_def bar_ops)

lemma click_apply_phase: "bar_phase (fst (click_apply s)) = (if bar_phase s = Idle then ReadingMode else bar_phase s)"
  by (simp add: click_apply_def busy_def bar_ops)

text \<open>Where an Apply stands moves on by the answer it waits for, and by nothing else.\<close>

lemma step_phase:
  "bar_phase (fst (bar_step e s)) = (case e of
     ClickApply \<Rightarrow> if bar_phase s = Idle then ReadingMode else bar_phase s
   | ModeAnswer now a \<Rightarrow> if bar_phase s = ReadingMode then bar_phase (fst (on_mode now a s)) else bar_phase s
   | CheckAnswer a \<Rightarrow> (case bar_phase s of Checking m \<Rightarrow> bar_phase (fst (on_check m a s)) | p \<Rightarrow> p)
   | ProgressAnswer p \<Rightarrow> (case bar_phase s of Reloading cur k \<Rightarrow> bar_phase (on_progress cur k p s) | p \<Rightarrow> p)
   | ReloadAnswer now a \<Rightarrow> (case bar_phase s of Reloading cur k \<Rightarrow> bar_phase (fst (on_reload cur k now a s)) | p \<Rightarrow> p)
   | RefreshDone \<Rightarrow> if bar_phase s = RefreshingAfterMismatch then Idle else bar_phase s
   | _ \<Rightarrow> bar_phase s)"
  by (cases e) (simp_all add: bar_step_def click_apply_phase quiet_ops_phase stop_apply_def
      split: apply_phase.split prod.split)

lemma not_checking:
  "bar_phase (fst (on_check m' a s)) \<noteq> Checking m" "bar_phase (fst (on_reload cur k now r s)) \<noteq> Checking m"
  "bar_phase s = Reloading cur k \<Longrightarrow> bar_phase (on_progress cur k p s) \<noteq> Checking m"
  using on_check_phase [of m' a s] on_reload_phase [of cur k now r s] on_progress_phase [of s cur k p] by auto

lemma step_to_checking:
  assumes "bar_phase (fst (bar_step e s)) = Checking m" "bar_phase s \<noteq> Checking m"
  shows "\<exists>now a. e = ModeAnswer now a \<and> mode_answered a = Some m \<and> \<not> failedRevert m"
proof (cases e)
  case (ModeAnswer now a)
  with assms show ?thesis by (auto simp: step_phase on_mode_phase split: if_splits option.splits)
qed (use assms in \<open>auto simp: step_phase not_checking split: if_splits apply_phase.splits\<close>)

lemma checking_after_mode:
  "bar_phase (bar_run es) = Checking m \<Longrightarrow>
     \<exists>now a. ModeAnswer now a \<in> set es \<and> mode_answered a = Some m \<and> \<not> failedRevert m"
proof (induction es rule: rev_induct)
  case Nil
  then show ?case by (simp add: initial_bar_def)
next
  case (snoc e es)
  with step_to_checking [of e "bar_run es" m] show ?case by auto
qed

lemma if_settled_requests: "PostReload h c \<notin> set (snd (if_settled b s))"
  by (simp add: if_settled_def)

lemma reload_sent_by_check:
  assumes "PostReload h c \<in> set (snd (bar_step e s))"
  obtains a m where "e = CheckAnswer a" "bar_phase s = Checking m" "PostReload h c \<in> set (snd (on_check m a s))"
proof -
  have mode: "PostReload h c \<notin> set (snd (on_mode now a s))" for now a
    by (auto simp: on_mode_def if_settled_def Let_def split: sum.split prod.split)
  have rl: "PostReload h c \<notin> set (snd (on_reload cur k now a s))" for cur k now a
    by (simp add: on_reload_def Let_def split: sum.split)
  show ?thesis
    using assms that mode rl
    by (cases e) (auto simp: bar_step_def click_apply_def check_config_def if_settled_requests
        split: if_splits apply_phase.splits prod.splits)
qed


text \<open>
  What the host promises about its times (\<open>internal/config/config.go\<close> bounds them below by ten
  seconds): a running session has one, and so does the setting.
\<close>

definition host_times :: "apply_status \<Rightarrow> bool" where
  "host_times st \<longleftrightarrow> 10 \<le> confirm_timeout_seconds st \<and> (\<forall>s \<in> set_option (session st). 10 \<le> timeout_seconds s)"

lemma confirm_has_time:
  "mode_answered a = Some m \<Longrightarrow> confirm m \<Longrightarrow> (\<forall>st. a = Inr st \<longrightarrow> host_times st) \<Longrightarrow> timeoutSeconds m \<noteq> 0"
  by (cases a) (auto simp: mode_answered_def fetch_status_def mode_of_def host_times_def split: if_splits option.splits)

lemma on_check_reload:
  assumes "PostReload h c \<in> set (snd (on_check m a s))"
  obtains res where "fetch_validate_result a = Inr res" "check_ok res"
    "h = (if truthy (at_member res ''config_hash'') then Some (str_or_empty (at_member res ''config_hash'')) else None)"
    "c = (if confirm m \<and> timeoutSeconds m \<noteq> 0 then Some (timeoutSeconds m) else None)"
    "\<not> confirm m \<longrightarrow> lockout_risks res = [] \<or> ack_sig s = lockout_signature (lockout_risks res)"
proof -
  from assms obtain res s1 where r: "run_check a s = (Some res, s1)" and ok: "check_ok res"
    by (auto simp: on_check_def split: prod.splits option.splits if_splits)
  then have f: "fetch_validate_result a = Inr res" by (auto simp: run_check_def split: sum.splits)
  have sig: "ack_sig s1 = (if ack_sig s = lockout_signature (lockout_risks res) then ack_sig s else [])"
    using run_check_ack_sig [of a s] run_check_validate_sig [of a s] f r by simp
  show ?thesis
  proof (rule that [OF f ok])
    show "h = (if truthy (at_member res ''config_hash'') then Some (str_or_empty (at_member res ''config_hash'')) else None)"
      "c = (if confirm m \<and> timeoutSeconds m \<noteq> 0 then Some (timeoutSeconds m) else None)"
      using assms r ok by (auto simp: on_check_def run_reload_def Let_def split: if_splits)
    have "\<not> confirm m \<longrightarrow> lockout_risks res = [] \<or> ack_sig s1 = lockout_signature (lockout_risks res)"
      using assms r ok by (auto simp: on_check_def Let_def split: if_splits)
    with sig show "\<not> confirm m \<longrightarrow> lockout_risks res = [] \<or> ack_sig s = lockout_signature (lockout_risks res)"
      by (metis lockout_signature_nonempty)
  qed
qed

text \<open>C1
  The lockout gate. Whatever the operator clicks and in whatever order the answers arrive, a
  reload is sent only in answer to this Apply's own check, with the hash of the file that check
  passed, after the host said in which mode to apply and that no revert is unfinished. A reload
  that the host will not undo by itself is sent only when the host said confirm-or-revert is off,
  and only when the check found no lockout risk, or the operator ticked the box while exactly
  these risks were on screen and nothing has revoked that tick.
\<close>

theorem reload_is_checked_and_acknowledged:
  assumes "PostReload h c \<in> set (snd (bar_step e (bar_run es)))"
    and host: "\<forall>now st. ModeAnswer now (Inr st) \<in> set es \<longrightarrow> host_times st"
  shows "\<exists>a res now b m. e = CheckAnswer a \<and> fetch_validate_result a = Inr res \<and> check_ok res \<and>
    h = (if truthy (at_member res ''config_hash'') then Some (str_or_empty (at_member res ''config_hash'')) else None) \<and>
    ModeAnswer now b \<in> set es \<and> mode_answered b = Some m \<and> bar_phase (bar_run es) = Checking m \<and> \<not> failedRevert m \<and>
    (case c of
       Some t \<Rightarrow> confirm m \<and> t = timeoutSeconds m
     | None \<Rightarrow> \<not> confirm m \<and>
         (lockout_risks res = [] \<or> acknowledged (lockout_signature (lockout_risks res)) es))"
proof -
  from assms(1) obtain a m where e: "e = CheckAnswer a" "bar_phase (bar_run es) = Checking m"
      and r: "PostReload h c \<in> set (snd (on_check m a (bar_run es)))"
    by (rule reload_sent_by_check)
  from checking_after_mode [OF e(2)] obtain now b where m: "ModeAnswer now b \<in> set es" "mode_answered b = Some m" "\<not> failedRevert m"
    by blast
  have time: "confirm m \<Longrightarrow> timeoutSeconds m \<noteq> 0" using confirm_has_time [OF m(2)] m(1) host by blast
  from r obtain res where res: "fetch_validate_result a = Inr res" "check_ok res"
    "h = (if truthy (at_member res ''config_hash'') then Some (str_or_empty (at_member res ''config_hash'')) else None)"
    "c = (if confirm m \<and> timeoutSeconds m \<noteq> 0 then Some (timeoutSeconds m) else None)"
    "\<not> confirm m \<longrightarrow> lockout_risks res = [] \<or> ack_sig (bar_run es) = lockout_signature (lockout_risks res)"
    by (rule on_check_reload)
  have "lockout_risks res = [] \<or> acknowledged (lockout_signature (lockout_risks res)) es" if "\<not> confirm m"
    using res(5) that ack_sig_acknowledged [of es "lockout_signature (lockout_risks res)"]
    by (metis lockout_signature_nonempty)
  with e m res time show ?thesis by (auto split: option.split)
qed

definition toy_check :: "json list \<Rightarrow> answer" where
  "toy_check risks = Inr (Some (JObj [(''ok'', JBool True), (''config_hash'', JStr ''ab12''), (''warnings'', JArr risks)]))"

definition toy_trace :: "bar_event list" where
  "toy_trace = [ClickCheck, ManualCheckAnswer (toy_check [toy_risk ''ssh'' ''port 22'']), TickAck True, ClickApply,
     ModeAnswer 0 (Inr (toy_status None False))]"

theorem reload_is_checked_and_acknowledged_witness:
  "snd (bar_step (CheckAnswer (toy_check [toy_risk ''ssh'' ''port 22''])) (bar_run toy_trace)) = [PostReload (Some ''ab12'') None] \<and>
   acknowledged (lockout_signature [toy_risk ''ssh'' ''port 22'']) toy_trace"
proof -
  have sent: "snd (bar_step (CheckAnswer (toy_check [toy_risk ''ssh'' ''port 22''])) (bar_run toy_trace)) = [PostReload (Some ''ab12'') None]"
    by code_simp
  have times: "\<forall>now st. ModeAnswer now (Inr st) \<in> set toy_trace \<longrightarrow> host_times st"
    by (auto simp: toy_trace_def host_times_def toy_status_def)
  have "PostReload (Some ''ab12'') None \<in> set (snd (bar_step (CheckAnswer (toy_check [toy_risk ''ssh'' ''port 22''])) (bar_run toy_trace)))"
    by (simp add: sent)
  from reload_is_checked_and_acknowledged [OF this times]
  obtain res where "fetch_validate_result (toy_check [toy_risk ''ssh'' ''port 22'']) = Inr res"
    "lockout_risks res = [] \<or> acknowledged (lockout_signature (lockout_risks res)) toy_trace" by auto
  moreover have "fetch_validate_result (toy_check [toy_risk ''ssh'' ''port 22'']) = Inr res \<Longrightarrow>
      lockout_risks res = [toy_risk ''ssh'' ''port 22'']"
    by (auto simp: toy_check_def fetch_validate_result_def lockout_risks_def at_member_def array_elems_def
        is_lockout_risk_def toy_risk_def starts_with_def LOCKOUT_CODE_PREFIX_def split: if_splits)
  ultimately show ?thesis using sent by simp
qed

section \<open>One reload for each click, and every Apply ends\<close>

text \<open>The clicks on Apply that find no Apply running. A click during one, the second of a double click or a later one, is not among them.\<close>

fun free_clicks :: "bar \<Rightarrow> bar_event list \<Rightarrow> nat" where
  "free_clicks s [] = 0"
| "free_clicks s (e # es) = (if e = ClickApply \<and> \<not> busy s then 1 else 0) + free_clicks (fst (bar_step e s)) es"

definition is_reload :: "request \<Rightarrow> bool" where
  "is_reload r = (case r of PostReload h c \<Rightarrow> True | _ \<Rightarrow> False)"

definition reloads :: "request list \<Rightarrow> nat" where
  "reloads rs = length (filter is_reload rs)"

text \<open>Whether the Apply that runs may still send its reload.\<close>

definition may_send :: "bar \<Rightarrow> nat" where
  "may_send s = (case bar_phase s of ReadingMode \<Rightarrow> 1 | Checking m \<Rightarrow> 1 | _ \<Rightarrow> 0)"


lemma reloads_simps [simp]: "reloads [] = 0" "reloads (rs @ rs') = reloads rs + reloads rs'"
  "reloads (r # rs) = (if is_reload r then 1 else 0) + reloads rs"
  by (simp_all add: reloads_def)

lemma is_reload_simps [simp]: "is_reload (PostReload h c)" "\<not> is_reload GetSession" "\<not> is_reload PostValidate"
  "\<not> is_reload RefreshScreen"
  by (simp_all add: is_reload_def)

lemma if_settled_reloads [simp]: "reloads (snd (if_settled b s)) = 0"
  by (simp add: if_settled_def)

lemma on_check_reloads: "reloads (snd (on_check m a s)) \<le> 1"
  by (simp add: on_check_def run_reload_def Let_def split: prod.split option.split)

lemma on_mode_reloads: "reloads (snd (on_mode now a s)) = 0"
  by (auto simp: on_mode_def if_settled_def Let_def split: prod.split sum.split)

lemma on_reload_reloads: "reloads (snd (on_reload cur k now a s)) = 0"
  by (simp add: on_reload_def Let_def split: sum.split)

lemma step_reloads:
  "reloads (snd (bar_step e s)) + may_send (fst (bar_step e s)) \<le> may_send s + (if e = ClickApply \<and> \<not> busy s then 1 else 0)"
proof (cases e)
  case ClickApply
  then show ?thesis by (simp add: bar_step_def click_apply_def busy_def may_send_def bar_ops)
next
  case (ModeAnswer now a)
  then show ?thesis
    by (simp add: may_send_def step_phase on_mode_phase bar_step_def on_mode_reloads split: option.split apply_phase.split)
next
  case (CheckAnswer a)
  show ?thesis
  proof (cases "bar_phase s")
    case (Checking m)
    then show ?thesis using CheckAnswer on_check_reloads [of m a s] on_check_phase [of m a s]
      by (auto simp: may_send_def bar_step_def)
  qed (use CheckAnswer in \<open>simp_all add: may_send_def bar_step_def\<close>)
next
  case (ProgressAnswer p)
  then show ?thesis
    by (simp add: may_send_def bar_step_def on_progress_def bar_ops split: apply_phase.split)
next
  case (ReloadAnswer now a)
  show ?thesis
  proof (cases "bar_phase s")
    case (Reloading cur k)
    then show ?thesis using ReloadAnswer on_reload_reloads [of cur k now a s] on_reload_phase [of cur k now a s]
      by (auto simp: may_send_def bar_step_def)
  qed (use ReloadAnswer in \<open>simp_all add: may_send_def bar_step_def\<close>)
next
  case ClickCheck
  then show ?thesis by (simp add: may_send_def bar_step_def check_config_def bar_ops)
qed (simp_all add: may_send_def bar_step_def quiet_ops_phase stop_apply_def if_settled_phase split: prod.split)

lemma reloads_bound:
  "reloads (sent s es) + may_send (foldl (\<lambda>s e. fst (bar_step e s)) s es) \<le> may_send s + free_clicks s es"
proof (induction es arbitrary: s)
  case (Cons e es)
  from Cons [of "fst (bar_step e s)"] step_reloads [of e s] show ?case by simp
qed simp

text \<open>C8
  One reload for each Apply that was started: over any sequence of clicks, answers and polls, the reloads sent are no more
  than the clicks that found no Apply running. So neither the second click of a double click, nor any click before
  the Apply has ended, nor an answer that arrives late, applies again.
\<close>

theorem at_most_one_reload_per_click: "reloads (sent initial_bar es) \<le> free_clicks initial_bar es"
  using reloads_bound [of initial_bar es] by (simp add: may_send_def initial_bar_def)

text \<open>How many answers the Apply that runs may still wait for.\<close>

definition apply_rank :: "bar \<Rightarrow> nat" where
  "apply_rank s = (case bar_phase s of
     Idle \<Rightarrow> 0 | RefreshingAfterMismatch \<Rightarrow> 1 | Reloading cur k \<Rightarrow> 2 | Checking m \<Rightarrow> 3 | ReadingMode \<Rightarrow> 4)"

definition awaited :: "bar_event \<Rightarrow> bar \<Rightarrow> bool" where
  "awaited e s = (case (bar_phase s, e) of
     (ReadingMode, ModeAnswer now a) \<Rightarrow> True
   | (Checking m, CheckAnswer a) \<Rightarrow> True
   | (Reloading cur k, ReloadAnswer now a) \<Rightarrow> True
   | (RefreshingAfterMismatch, RefreshDone) \<Rightarrow> True
   | _ \<Rightarrow> False)"

text \<open>C9
  Every Apply ends: while one runs, the answer it waits for, whatever it is, success, error or
  refusal, brings it closer to its end, and no other event sets it back; so after at most four
  answers the button works again.
\<close>

theorem every_apply_ends:
  assumes "busy s"
  shows "apply_rank s \<le> 4 \<and> apply_rank (fst (bar_step e s)) \<le> apply_rank s \<and>
    (awaited e s \<longrightarrow> apply_rank (fst (bar_step e s)) < apply_rank s) \<and>
    (apply_rank (fst (bar_step e s)) = 0 \<longleftrightarrow> \<not> busy (fst (bar_step e s)))"
proof -
  have "apply_rank (fst (bar_step e s)) \<le> apply_rank s \<and> (awaited e s \<longrightarrow> apply_rank (fst (bar_step e s)) < apply_rank s)"
  proof (cases "bar_phase s")
    case Idle
    with assms show ?thesis by (simp add: busy_def)
  next
    case ReadingMode
    then show ?thesis
      by (cases e) (auto simp: apply_rank_def step_phase on_mode_phase awaited_def split: option.split)
  next
    case (Checking m)
    then show ?thesis
    proof (cases e)
      case (CheckAnswer a)
      with Checking show ?thesis using on_check_phase [of m a s] by (auto simp: apply_rank_def step_phase)
    qed (simp_all add: apply_rank_def step_phase awaited_def)
  next
    case (Reloading cur k)
    then show ?thesis
    proof (cases e)
      case (ReloadAnswer now a)
      with Reloading show ?thesis using on_reload_phase [of cur k now a s] by (auto simp: apply_rank_def step_phase)
    next
      case (ProgressAnswer p)
      with Reloading show ?thesis using on_progress_phase [of s cur k p] by (auto simp: apply_rank_def step_phase awaited_def)
    qed (simp_all add: apply_rank_def step_phase awaited_def)
  next
    case RefreshingAfterMismatch
    then show ?thesis by (cases e) (simp_all add: apply_rank_def step_phase awaited_def)
  qed
  then show ?thesis by (simp add: apply_rank_def busy_def split: apply_phase.split)
qed

theorem every_apply_ends_witness:
  "apply_rank (bar_run [ClickApply, ModeAnswer 0 (Inr (toy_status None True))]) \<le> apply_rank (bar_run [ClickApply])"
proof -
  have "busy (bar_run [ClickApply])" by (simp add: bar_run_def bar_step_def click_apply_def busy_def initial_bar_def bar_ops)
  from every_apply_ends [OF this, of "ModeAnswer 0 (Inr (toy_status None True))"] show ?thesis by (simp add: bar_run_def)
qed

end
