(* ===== verification/Pending.thy ===== *)
theory Pending
  imports Pending_Diff Config_Revert Apply_Bar
begin

text \<open>
  The Pending page (\<open>pages/pending.js\<close>): the count of unapplied changes that every page shows, the list
  of changes with its Revert buttons, the page's state after each refresh, and what its dialogs say.
  The diff of the rulesets is in \<open>Pending_Diff\<close>.

  An answer of \<open>/v1/pending\<close> is a record of the fields the page reads, a missing one \<open>None\<close>.
\<close>

record pending_answer =
  p_pending :: bool
  p_applied :: jsval
  p_baseline :: "string option"
  p_nftables :: "string option"
  p_revision :: string
  p_discard :: bool
  p_restore :: bool

section \<open>How many changes are unapplied\<close>

fun is_change :: "'a diff_op \<Rightarrow> bool" where
  "is_change (Equal x y) = False"
| "is_change op = True"

text \<open>The loop of \<open>rulesetChangeCount\<close>: a place is a run of changed lines.\<close>

fun count_places :: "bool \<Rightarrow> nat \<Rightarrow> 'a diff_op list \<Rightarrow> nat" where
  "count_places inChange n [] = n"
| "count_places inChange n (op # ops) =
     count_places (is_change op) (if is_change op \<and> \<not> inChange then n + 1 else n) ops"

definition text_or_none :: "string option \<Rightarrow> string" where
  "text_or_none t = (case t of Some s \<Rightarrow> s | None \<Rightarrow> [])"

definition ruleset_change_count :: "pending_answer \<Rightarrow> nat" where
  "ruleset_change_count p =
     (case compute_line_diff (split_lines (text_or_none (p_baseline p))) (split_lines (text_or_none (p_nftables p))) of
        None \<Rightarrow> 1
      | Some ops \<Rightarrow> max (count_places False 0 ops) 1)"

text \<open>The rows of the Changes list for a config the host has and the one saved.\<close>

definition described :: "jsval \<Rightarrow> json \<Rightarrow> change list" where
  "described applied cfg = (case applied of Some a \<Rightarrow> describe_config_changes a cfg | None \<Rightarrow> [])"

definition unapplied_count :: "pending_answer \<Rightarrow> json option \<Rightarrow> nat" where
  "unapplied_count p cfg =
     (let rows = (case cfg of Some c \<Rightarrow> length (described (p_applied p) c) | None \<Rightarrow> 0) in
      if rows \<noteq> 0 then rows else ruleset_change_count p)"

text \<open>The saved config at hand, if it is the one the answer speaks of. Otherwise it is asked for.\<close>

definition saved_config :: "snapshot option \<Rightarrow> pending_answer \<Rightarrow> snapshot option" where
  "saved_config loaded p =
     (case loaded of
        Some s \<Rightarrow> if etag s = CHR 0x22 # p_revision p @ [CHR 0x22] then Some s else None
      | None \<Rightarrow> None)"

section \<open>The count on every page\<close>

text \<open>
  \<open>refreshPendingBadge\<close>: refreshes are numbered, and an answer counts only while its number is the
  latest. \<open>badge_waiting\<close> are the refreshes whose requests are out. An answer comes with the config it
  was compared with, if one was fetched; \<open>None\<close> is a request that failed.
\<close>

record badge =
  pending_badge_seq :: nat
  badge_waiting :: "nat list"
  badge_view :: unapplied_view
  badge_bar :: bar

definition initial_badge :: badge where
  "initial_badge = \<lparr>pending_badge_seq = 0, badge_waiting = [], badge_view = show_unapplied_count 0, badge_bar = initial_bar\<rparr>"

datatype badge_event =
    BadgeRefresh bool
  | BadgeAnswer nat "(pending_answer \<times> json option) option"

definition refresh_pending_badge :: "bool \<Rightarrow> badge \<Rightarrow> badge" where
  "refresh_pending_badge readOnly s =
     (let seq = pending_badge_seq s + 1; s1 = s\<lparr>pending_badge_seq := seq\<rparr> in
      if readOnly then s1\<lparr>badge_view := show_unapplied_count 0\<rparr>
      else s1\<lparr>badge_waiting := badge_waiting s @ [seq]\<rparr>)"

definition badge_answer :: "nat \<Rightarrow> (pending_answer \<times> json option) option \<Rightarrow> badge \<Rightarrow> badge" where
  "badge_answer seq answer s =
     (case answer of
        None \<Rightarrow> s
      | Some (p, cfg) \<Rightarrow>
          if seq \<noteq> pending_badge_seq s then s
          else s\<lparr>badge_bar := note_config_revision (p_revision p) (badge_bar s),
                 badge_view := show_unapplied_count (if p_pending p then unapplied_count p cfg else 0)\<rparr>)"

definition badge_step :: "badge_event \<Rightarrow> badge \<Rightarrow> badge" where
  "badge_step e s =
     (case e of
        BadgeRefresh readOnly \<Rightarrow> refresh_pending_badge readOnly s
      | BadgeAnswer seq answer \<Rightarrow>
          if seq \<in> set (badge_waiting s) then badge_answer seq answer (s\<lparr>badge_waiting := remove1 seq (badge_waiting s)\<rparr>) else s)"

definition badge_run :: "badge_event list \<Rightarrow> badge \<Rightarrow> badge" where
  "badge_run es s = foldl (\<lambda>t e. badge_step e t) s es"

text \<open>The number of the refresh that decided what an event leaves on screen, if the event did.\<close>

definition decided_by :: "badge_event \<Rightarrow> badge \<Rightarrow> nat list" where
  "decided_by e s =
     (case e of
        BadgeRefresh readOnly \<Rightarrow> if readOnly then [pending_badge_seq s + 1] else []
      | BadgeAnswer seq answer \<Rightarrow>
          if seq \<in> set (badge_waiting s) \<and> answer \<noteq> None \<and> seq = pending_badge_seq s then [seq] else [])"

fun decisions :: "badge_event list \<Rightarrow> badge \<Rightarrow> nat list" where
  "decisions [] s = []"
| "decisions (e # es) s = decided_by e s @ decisions es (badge_step e s)"

section \<open>The list of changes\<close>

record changes_view =
  listed_changes :: "change list"
  section_hidden :: bool
  list_hidden :: bool
  note_hidden :: bool
  note_text :: string
  raw_diff_open :: bool

definition NOT_COMPARABLE :: string where
  "NOT_COMPARABLE = ''The config last applied to this host is not available to compare, so changes cannot be listed. Review the generated nftables below.''"

definition ONLY_FORMATTING :: string where
  "ONLY_FORMATTING = ''The saved settings match what was applied. Only comments or formatting in the file differ.''"

definition render_changes_list :: "pending_answer \<Rightarrow> json \<Rightarrow> changes_view \<Rightarrow> changes_view" where
  "render_changes_list p cfg v =
     (let comparable = truthy (p_applied p);
          rows = (if p_pending p \<and> comparable then described (p_applied p) cfg else []) in
      \<lparr>listed_changes = rows, section_hidden = (\<not> p_pending p), list_hidden = (rows = []),
       note_hidden = (\<not> p_pending p \<or> rows \<noteq> []),
       note_text = (if p_pending p \<and> \<not> comparable then NOT_COMPARABLE else if p_pending p then ONLY_FORMATTING else note_text v),
       raw_diff_open = (if p_pending p \<and> \<not> comparable then True else raw_diff_open v)\<rparr>)"

datatype change_focus = RevertButton nat | PageHeading | ChangesHeading

definition focus_change_at :: "nat \<Rightarrow> changes_view \<Rightarrow> change_focus" where
  "focus_change_at index v =
     (let n = length (listed_changes v) in
      if n \<noteq> 0 then RevertButton (min index (n - 1)) else if section_hidden v then PageHeading else ChangesHeading)"

section \<open>The page\<close>

record pending_page =
  pending_status :: string
  status_warning :: bool
  status_hidden :: bool
  discard_disabled :: bool
  restore_disabled :: bool
  pending_baseline :: string
  pending_new :: string
  changes :: changes_view
  pending_msg :: "string \<times> bool"
  changes_msg :: "string \<times> bool"
  page_loaded :: bool

definition empty_pending_page :: pending_page where
  "empty_pending_page = \<lparr>pending_status = [], status_warning = False, status_hidden = True, discard_disabled = True, restore_disabled = True,
     pending_baseline = [], pending_new = [],
     changes = \<lparr>listed_changes = [], section_hidden = True, list_hidden = True, note_hidden = True, note_text = [], raw_diff_open = False\<rparr>,
     pending_msg = ([], False), changes_msg = ([], False), page_loaded = False\<rparr>"

definition set_pending_status_tone :: "string \<Rightarrow> pending_page \<Rightarrow> pending_page" where
  "set_pending_status_tone tone v = v\<lparr>status_warning := (tone = ''warning''), status_hidden := (tone = ''hidden'')\<rparr>"

definition UNAPPLIED_STATUS :: string where
  "UNAPPLIED_STATUS = ''Unapplied changes: the saved config on disk differs from the last successful Apply (nftables / WireGuard).''"

definition NOTHING_PENDING_STATUS :: string where
  "NOTHING_PENDING_STATUS = ''No pending changes. Saved config matches what was last applied on the host.''"

text \<open>A refresh asks for the pending state and the config together; it fails if either does.\<close>

definition refresh_pending_page :: "string + pending_answer \<times> json \<Rightarrow> pending_page \<Rightarrow> pending_page" where
  "refresh_pending_page answer v =
     (let v0 = v\<lparr>pending_msg := ([], False), changes_msg := ([], False)\<rparr> in
      case answer of
        Inr (p, cfg) \<Rightarrow>
          (set_pending_status_tone (if p_pending p then ''warning'' else ''neutral'')
            (v0\<lparr>changes := render_changes_list p cfg (changes v0),
                pending_status := (if p_pending p then UNAPPLIED_STATUS else NOTHING_PENDING_STATUS)\<rparr>))
          \<lparr>pending_baseline := text_or_none (p_baseline p), pending_new := text_or_none (p_nftables p),
           discard_disabled := (\<not> p_discard p), restore_disabled := (\<not> p_restore p), page_loaded := True\<rparr>
      | Inl m \<Rightarrow>
          (if page_loaded v0 then v0
           else (set_pending_status_tone ''hidden'' (v0\<lparr>pending_status := []\<rparr>))\<lparr>discard_disabled := True, restore_disabled := True\<rparr>)
          \<lparr>pending_msg := (m, True)\<rparr>)"

section \<open>Reverting a change\<close>

text \<open>
  One revert at a time. A click starts a save with the change's edit, unless one is under way or the
  list has no such row. When the save has ended the page is refreshed (\<open>answer\<close>), focus moves to the
  row now in its place, and the outcome is told: a failure stays in the page's message, a success is
  a toast, with an Undo unless there was nothing to revert.
\<close>

record pending_tab =
  tab_page :: pending_page
  revert_busy :: bool

datatype revert_report = AlreadyGone string | RevertedWithUndo string edit string | RevertFailed string

definition revert_listed_change :: "nat \<Rightarrow> pending_tab \<Rightarrow> pending_tab \<times> (change \<times> edit) option" where
  "revert_listed_change index t =
     (let listed = listed_changes (changes (tab_page t)) in
      if revert_busy t \<or> index \<ge> length listed then (t, None)
      else (t\<lparr>revert_busy := True, tab_page := (tab_page t)\<lparr>changes_msg := ([], False)\<rparr>\<rparr>,
            Some (listed ! index, revert_change (listed ! index))))"

definition after_changes_saved :: "nat \<Rightarrow> (string + pending_answer \<times> json) \<Rightarrow> pending_tab \<Rightarrow> pending_tab \<times> change_focus" where
  "after_changes_saved focusIndex answer t =
     (let t1 = t\<lparr>tab_page := refresh_pending_page answer (tab_page t)\<rparr> in (t1, focus_change_at focusIndex (changes (tab_page t1))))"

definition revert_ended ::
  "nat \<Rightarrow> change \<Rightarrow> string + bool \<Rightarrow> (string + pending_answer \<times> json) \<Rightarrow> pending_tab \<Rightarrow> pending_tab \<times> change_focus \<times> revert_report" where
  "revert_ended index c r answer t =
     (case after_changes_saved index answer t of (t1, focus) \<Rightarrow>
       (case r of
          Inl m \<Rightarrow>
            (t1\<lparr>revert_busy := False, tab_page := (tab_page t1)\<lparr>changes_msg := (''Could not revert: '' @ m, True)\<rparr>\<rparr>, focus,
             RevertFailed (''Could not revert: '' @ m))
        | Inr reverted \<Rightarrow>
            (t1\<lparr>revert_busy := False\<rparr>, focus,
             if \<not> reverted then AlreadyGone (''Already gone: '' @ change_text c @ ''.'')
             else RevertedWithUndo (''Reverted: '' @ change_text c @ ''.'') (reapply_change c) (''Back in place: '' @ change_text c @ ''.''))))"

section \<open>What the dialogs say\<close>

definition change_count :: "nat \<Rightarrow> string" where
  "change_count n = (if n = 1 then ''1 change'' else show_nat n @ '' changes'')"

text \<open>The dialog's title and the label of its button, with the count if it is known and not zero.\<close>

definition discard_prompt :: "nat option \<Rightarrow> string \<times> string" where
  "discard_prompt n =
     (let what = (case n of Some (Suc k) \<Rightarrow> change_count (Suc k) | _ \<Rightarrow> ''pending changes'') in
      (''Discard '' @ what @ ''?'', ''Discard '' @ what))"

definition restore_count_text :: "nat option \<Rightarrow> string" where
  "restore_count_text n =
     (case n of Some (Suc k) \<Rightarrow> ''This changes '' @ change_count (Suc k) @ '' in the saved config. '' | _ \<Rightarrow> [])"

section \<open>The count\<close>

text \<open>A place starts at each changed line that does not follow another.\<close>

lemma count_places_add: "count_places b n ops = n + count_places b 0 ops"
proof (induction ops arbitrary: b n)
  case (Cons op ops)
  show ?case using Cons [of True "n + 1"] Cons [of True 1] Cons [of "is_change op" n]
    by (cases "is_change op"; cases b) simp_all
qed simp

lemma count_places_starts:
  "count_places b 0 ops = card {i. i < length ops \<and> is_change (ops ! i) \<and> \<not> (if i = 0 then b else is_change (ops ! (i - 1)))}"
proof (induction ops arbitrary: b)
  case (Cons op ops)
  let ?S = "{i. i < length ops \<and> is_change (ops ! i) \<and> \<not> (if i = 0 then is_change op else is_change (ops ! (i - 1)))}"
  let ?T = "{i. i < length (op # ops) \<and> is_change ((op # ops) ! i) \<and> \<not> (if i = 0 then b else is_change ((op # ops) ! (i - 1)))}"
  have split: "?T = (if is_change op \<and> \<not> b then {0} else {}) \<union> Suc ` ?S"
  proof (rule set_eqI)
    fix i show "i \<in> ?T \<longleftrightarrow> i \<in> (if is_change op \<and> \<not> b then {0} else {}) \<union> Suc ` ?S"
      by (cases i) (auto simp: nth_Cons split: nat.split if_splits)
  qed
  have T: "card ?T = (if is_change op \<and> \<not> b then 1 else 0) + card ?S"
    unfolding split by (subst card_Un_disjoint) (auto simp: card_image)
  have "count_places b 0 (op # ops) = (if is_change op \<and> \<not> b then 1 else 0) + count_places (is_change op) 0 ops"
    using count_places_add [of True 1 ops] by simp
  then show ?case unfolding T Cons [of "is_change op"] .
qed simp

text \<open>
  The count of unapplied changes and the Changes list agree: when the list has rows, the count is
  their number, and a config that is pending never counts as nothing.
\<close>

theorem count_and_list_agree:
  assumes "p_pending p" and "truthy (p_applied p)"
  shows "unapplied_count p (Some cfg) \<ge> 1 \<and>
    (let v' = render_changes_list p cfg v in
      (listed_changes v' \<noteq> [] \<longrightarrow> unapplied_count p (Some cfg) = length (listed_changes v')) \<and>
      list_hidden v' = (\<not> note_hidden v') \<and> \<not> section_hidden v')"
  using assms by (auto simp: Suc_le_eq unapplied_count_def render_changes_list_def ruleset_change_count_def Let_def split: option.split)

section \<open>Refreshes of the count\<close>

definition badge_ok :: "badge \<Rightarrow> bool" where
  "badge_ok s \<longleftrightarrow> distinct (badge_waiting s) \<and> (\<forall>k \<in> set (badge_waiting s). k \<le> pending_badge_seq s)"

lemma badge_answer_fields [simp]:
  "pending_badge_seq (badge_answer k a s) = pending_badge_seq s" "badge_waiting (badge_answer k a s) = badge_waiting s"
  by (auto simp: badge_answer_def split: option.split prod.split)

lemma badge_step_ok:
  assumes "badge_ok s"
  shows "badge_ok (badge_step e s)"
proof (cases e)
  case (BadgeRefresh readOnly)
  have "pending_badge_seq s + 1 \<notin> set (badge_waiting s)" using assms by (force simp: badge_ok_def)
  with assms BadgeRefresh show ?thesis
    by (auto simp: badge_step_def refresh_pending_badge_def badge_ok_def Let_def)
next
  case (BadgeAnswer k a)
  with assms show ?thesis by (auto simp: badge_step_def badge_ok_def)
qed

lemma badge_seq_grows: "pending_badge_seq s \<le> pending_badge_seq (badge_step e s)"
  by (cases e) (auto simp: badge_step_def refresh_pending_badge_def Let_def)

lemma undecided_step:
  "decided_by e s = [] \<Longrightarrow> badge_view (badge_step e s) = badge_view s \<and> badge_bar (badge_step e s) = badge_bar s"
  by (cases e) (auto simp: decided_by_def badge_step_def refresh_pending_badge_def badge_answer_def Let_def split: option.split if_splits)

definition may_decide :: "badge \<Rightarrow> nat set" where
  "may_decide s = {k. k > pending_badge_seq s \<or> k \<in> set (badge_waiting s) \<and> k = pending_badge_seq s}"

lemma may_decide_step:
  assumes "badge_ok s"
  shows "set (decided_by e s) \<subseteq> may_decide s" "may_decide (badge_step e s) \<subseteq> may_decide s"
    "d \<in> set (decided_by e s) \<Longrightarrow> k \<in> may_decide (badge_step e s) \<Longrightarrow> d < k"
    "sorted_wrt (<) (decided_by e s)"
  using assms by (cases e; auto simp: decided_by_def may_decide_def badge_step_def refresh_pending_badge_def badge_ok_def Let_def split: if_splits)+

lemma decisions_ascend:
  "badge_ok s \<Longrightarrow> set (decisions es s) \<subseteq> may_decide s \<and> sorted_wrt (<) (decisions es s)"
proof (induction es arbitrary: s)
  case (Cons e es)
  note st = may_decide_step [where e = e, OF Cons.prems] and ih = Cons.IH [OF badge_step_ok [where e = e, OF Cons.prems]]
  from ih st(1,2) have "set (decisions (e # es) s) \<subseteq> may_decide s" by auto
  moreover from ih st(3,4) have "sorted_wrt (<) (decisions (e # es) s)" by (auto simp: sorted_wrt_append)
  ultimately show ?case ..
qed simp

lemma badge_run_snoc: "badge_run (es @ [e]) s = badge_step e (badge_run es s)"
  by (simp add: badge_run_def)

text \<open>
  C14. Refreshes of the count overlap, but what is shown never goes back to an older one: whatever
  the order in which their answers come, those that are shown were asked for later and later, and an
  answer that is overtaken or that failed leaves the count and the check result alone.
\<close>

theorem badge_never_goes_back:
  "sorted_wrt (<) (decisions es initial_badge) \<and>
   (decided_by e (badge_run es initial_badge) = [] \<longrightarrow>
     badge_view (badge_run (es @ [e]) initial_badge) = badge_view (badge_run es initial_badge) \<and>
     badge_bar (badge_run (es @ [e]) initial_badge) = badge_bar (badge_run es initial_badge))"
  using decisions_ascend [of initial_badge es] undecided_step [of e "badge_run es initial_badge"]
  by (simp add: badge_run_snoc badge_ok_def initial_badge_def)

text \<open>An older answer that arrives last is dropped; the newer one stays.\<close>

definition toy_pending :: "nat \<Rightarrow> pending_answer" where
  "toy_pending n = \<lparr>p_pending = n \<noteq> 0, p_applied = Some (JObj [(''mtu'', JNum 1280)]), p_baseline = Some ''a'', p_nftables = Some ''b'',
     p_revision = [], p_discard = n \<noteq> 0, p_restore = False\<rparr>"

lemma badge_never_goes_back_witness:
  "badge_view (badge_run [BadgeRefresh False, BadgeRefresh False, BadgeAnswer 2 (Some (toy_pending 0, None)),
       BadgeAnswer 1 (Some (toy_pending 1, None))] initial_badge) =
   badge_view (badge_run [BadgeRefresh False, BadgeRefresh False, BadgeAnswer 2 (Some (toy_pending 0, None))] initial_badge)"
proof -
  have "decided_by (BadgeAnswer 1 (Some (toy_pending 1, None)))
      (badge_run [BadgeRefresh False, BadgeRefresh False, BadgeAnswer 2 (Some (toy_pending 0, None))] initial_badge) = []"
    by (simp add: decided_by_def badge_run_def badge_step_def refresh_pending_badge_def initial_badge_def Let_def)
  with badge_never_goes_back [of "[BadgeRefresh False, BadgeRefresh False, BadgeAnswer 2 (Some (toy_pending 0, None))]"
      "BadgeAnswer 1 (Some (toy_pending 1, None))"]
  show ?thesis by simp
qed

lemma count_and_list_agree_witness:
  "unapplied_count (toy_pending 1) (Some (JObj [(''mtu'', JNum 1280)])) \<ge> 1"
  using count_and_list_agree [of "toy_pending 1" "JObj [(''mtu'', JNum 1280)]"] by (simp add: toy_pending_def truthy_def)

section \<open>What the page shows after any number of refreshes\<close>

fun last_success :: "(string + pending_answer \<times> json) list \<Rightarrow> (pending_answer \<times> json) option" where
  "last_success [] = None"
| "last_success (a # as) = (case last_success as of Some x \<Rightarrow> Some x | None \<Rightarrow> (case a of Inr x \<Rightarrow> Some x | Inl m \<Rightarrow> None))"

lemma last_success_snoc: "last_success (as @ [a]) = (case a of Inr x \<Rightarrow> Some x | Inl m \<Rightarrow> last_success as)"
  by (induction as) (auto split: sum.split option.split)

definition page_run :: "(string + pending_answer \<times> json) list \<Rightarrow> pending_page \<Rightarrow> pending_page" where
  "page_run as v = foldl (\<lambda>s a. refresh_pending_page a s) v as"

text \<open>
  After any refreshes, the page speaks of the last one that succeeded: its status, its texts and
  which of Discard and Restore can be pressed are that answer's, so that a failed refresh takes
  nothing away and offers nothing. Until one has succeeded neither button can be pressed. Only the
  last refresh has a message.
\<close>

theorem page_shows_the_last_success:
  assumes "\<not> page_loaded v" and "as \<noteq> []"
  shows "(case last_success as of
      None \<Rightarrow> discard_disabled (page_run as v) \<and> restore_disabled (page_run as v) \<and> status_hidden (page_run as v)
    | Some (p, cfg) \<Rightarrow>
        discard_disabled (page_run as v) = (\<not> p_discard p) \<and> restore_disabled (page_run as v) = (\<not> p_restore p) \<and>
        \<not> status_hidden (page_run as v) \<and> status_warning (page_run as v) = p_pending p \<and>
        pending_baseline (page_run as v) = text_or_none (p_baseline p) \<and> pending_new (page_run as v) = text_or_none (p_nftables p) \<and>
        listed_changes (changes (page_run as v)) =
          (if p_pending p \<and> truthy (p_applied p) then described (p_applied p) cfg else [])) \<and>
    pending_msg (page_run as v) = (case last as of Inl m \<Rightarrow> (m, True) | Inr x \<Rightarrow> ([], False))"
proof -
  have "page_loaded (page_run as v) = (last_success as \<noteq> None)" for as
    by (induction as rule: rev_induct)
      (auto simp: page_run_def last_success_snoc refresh_pending_page_def set_pending_status_tone_def assms(1) Let_def split: sum.split)
  note loaded = this
  show ?thesis
    using assms(2)
  proof (induction as rule: rev_induct)
    case (snoc a as)
    have step: "page_run (as @ [a]) v = refresh_pending_page a (page_run as v)" by (simp add: page_run_def)
    show ?case
    proof (cases a)
      case (Inr x)
      then show ?thesis
        unfolding step by (cases x) (simp add: last_success_snoc refresh_pending_page_def set_pending_status_tone_def render_changes_list_def Let_def)
    next
      case (Inl m)
      show ?thesis
      proof (cases "last_success as")
        case None
        with Inl loaded [of as] show ?thesis
          unfolding step by (simp add: last_success_snoc refresh_pending_page_def set_pending_status_tone_def Let_def)
      next
        case (Some x)
        then have "as \<noteq> []" by auto
        with Inl Some loaded [of as] snoc.IH show ?thesis
          unfolding step by (cases x) (simp add: last_success_snoc refresh_pending_page_def Let_def)
      qed
    qed
  qed simp
qed

lemma page_shows_the_last_success_witness:
  "discard_disabled (page_run [Inr (toy_pending 1, JObj []), Inl ''timeout''] empty_pending_page) = False"
  using page_shows_the_last_success [of empty_pending_page "[Inr (toy_pending 1, JObj []), Inl ''timeout'']"]
  by (simp add: toy_pending_def empty_pending_page_def)

text \<open>Focus stays on the list while it has a row.\<close>

lemma focus_stays_in_list:
  "listed_changes v \<noteq> [] \<Longrightarrow> \<exists>i < length (listed_changes v). focus_change_at k v = RevertButton i"
  by (cases "listed_changes v") (auto simp: focus_change_at_def Let_def min_def)

text \<open>A second click does nothing while a revert is under way, and a failure's message outlives the refresh.\<close>

lemma one_revert_at_a_time:
  assumes "revert_listed_change i t = (t', Some (c, e))"
  shows "revert_listed_change k t' = (t', None)" "c \<in> set (listed_changes (changes (tab_page t)))" "e = revert_change c"
    "revert_busy (fst (revert_ended i c r answer t')) = False"
    "r = Inl m \<Longrightarrow> changes_msg (tab_page (fst (revert_ended i c r answer t'))) = (''Could not revert: '' @ m, True)"
  using assms by (auto simp: revert_listed_change_def revert_ended_def after_changes_saved_def Let_def split: if_splits sum.split)

end
