(* ===== verification/Dirty.thy ===== *)
theory Dirty
  imports Js_Json
begin

text \<open>
  \<open>core/dirty.js\<close> and \<open>core/save_bar.js\<close>: telling whether a form holds edits that are not saved, and
  the save control that shows while it does. The guard on leaving a form is an interface
  (\<open>guarded_form\<close>) that trackers provide and dialogs and pages rely on.
\<close>

section \<open>Controls and trackers\<close>

record control =
  ctl_id :: string
  ctl_type :: string
  ctl_checked :: bool
  ctl_value :: string

definition is_toggle :: "control \<Rightarrow> bool" where
  "is_toggle el \<longleftrightarrow> ctl_type el = ''checkbox'' \<or> ctl_type el = ''radio''"

definition is_read :: "control \<Rightarrow> bool" where
  "is_read el \<longleftrightarrow> ctl_type el \<noteq> ''hidden'' \<and> ctl_type el \<noteq> ''file''"

text \<open>The values of a form, in the order their keys were first set; \<open>None\<close> is a key set to undefined.\<close>

type_synonym form_values = "(string \<times> jsval) list"

definition control_key :: "nat \<Rightarrow> control \<Rightarrow> string" where
  "control_key i el = (if ctl_id el = [] then CHR ''#'' # show_nat i else ctl_id el)"

definition control_json :: "control \<Rightarrow> json" where
  "control_json el = (if is_toggle el then JBool (ctl_checked el) else JStr (ctl_value el))"

definition read_controls :: "control list \<Rightarrow> form_values" where
  "read_controls controls = foldl (\<lambda>vs (i, el). if is_read el then put_key (control_key i el) (Some (control_json el)) vs else vs)
     [] (zip [0..<length controls] controls)"

text \<open>\<open>JSON.stringify\<close> leaves keys set to undefined out.\<close>

definition values_text :: "form_values \<Rightarrow> string" where
  "values_text vs = stringify (JObj (List.map_filter (\<lambda>(k, v). map_option (Pair k) v) vs))"

definition value_at :: "form_values \<Rightarrow> string \<Rightarrow> jsval" where
  "value_at vs k = (case map_of vs k of Some v \<Rightarrow> v | None \<Rightarrow> None)"

type_synonym tracker = "form_values option"

definition mark :: "string list option \<Rightarrow> form_values option \<Rightarrow> control list \<Rightarrow> tracker \<Rightarrow> tracker" where
  "mark ids sent controls baseline =
     (if sent \<noteq> None \<and> baseline = None then None
      else (let now = (case sent of Some vs \<Rightarrow> vs | None \<Rightarrow> read_controls controls) in
        case (ids, baseline) of
          (Some is, Some b) \<Rightarrow> Some (foldl (\<lambda>b i. put_key i (value_at now i) b) b is)
        | _ \<Rightarrow> Some now))"

definition clear_tracker :: "tracker \<Rightarrow> tracker" where
  "clear_tracker baseline = None"

definition is_dirty :: "string list option \<Rightarrow> control list \<Rightarrow> tracker \<Rightarrow> bool" where
  "is_dirty ids controls baseline = (case baseline of
     None \<Rightarrow> False
   | Some b \<Rightarrow>
       (let now = read_controls controls in
        case ids of
          Some is \<Rightarrow> list_ex (\<lambda>i. value_at now i \<noteq> value_at b i) is
        | None \<Rightarrow> values_text now \<noteq> values_text b))"

definition revert_control :: "form_values \<Rightarrow> control \<Rightarrow> control" where
  "revert_control b el =
     (if ctl_id el = [] then el
      else (case map_of b (ctl_id el) of
          None \<Rightarrow> el
        | Some v \<Rightarrow>
            if is_toggle el then el\<lparr>ctl_checked := truthy v\<rparr>
            else el\<lparr>ctl_value := (case v of None \<Rightarrow> ''undefined'' | Some j \<Rightarrow> js_string j)\<rparr>))"

definition revert_form :: "control list \<Rightarrow> tracker \<Rightarrow> control list" where
  "revert_form controls baseline = (case baseline of None \<Rightarrow> controls | Some b \<Rightarrow> map (revert_control b) controls)"

section \<open>What a guard may rely on\<close>

text \<open>A form that can be dirty and whose edits can be given up.\<close>

locale guarded_form =
  fixes dirty :: "'s \<Rightarrow> bool" and forget :: "'s \<Rightarrow> 's"
  assumes forget_clean: "\<not> dirty (forget s)"
begin

text \<open>Asking before edits are lost: only a dirty form asks, and agreeing leaves a clean one.\<close>

definition ask_before :: "'s \<Rightarrow> bool \<Rightarrow> 's option" where
  "ask_before s agreed = (if dirty s then (if agreed then Some (forget s) else None) else Some s)"

lemma left_clean: "ask_before s agreed = Some s' \<Longrightarrow> \<not> dirty s'"
  by (auto simp: ask_before_def forget_clean split: if_splits)

lemma kept: "ask_before s agreed = None \<longleftrightarrow> dirty s \<and> \<not> agreed"
  by (simp add: ask_before_def)

end

interpretation form: guarded_form "\<lambda>(controls, t). is_dirty None controls t" "\<lambda>(controls, t). (controls, clear_tracker t)"
  by unfold_locales (auto simp: is_dirty_def clear_tracker_def)

section \<open>Trackers\<close>

lemma foldl_filter: "foldl (\<lambda>a x. if P x then f a x else a) a xs = foldl f a (filter P xs)"
  by (induction xs arbitrary: a) auto

lemma foldl_map': "foldl f a (map g xs) = foldl (\<lambda>a x. f a (g x)) a xs"
  by (induction xs arbitrary: a) auto

lemma put_all_fresh:
  "distinct (map fst kvs) \<Longrightarrow> fst ` set kvs \<inter> fst ` set vs = {} \<Longrightarrow>
     foldl (\<lambda>vs (k, v). put_key k v vs) vs kvs = vs @ kvs"
proof (induction kvs arbitrary: vs)
  case (Cons kv kvs)
  obtain k v where kv: "kv = (k, v)" by (cases kv)
  have "put_key k v vs = vs @ [(k, v)]"
    using Cons.prems(2) kv by (induction vs) auto
  with Cons.IH [of "vs @ [(k, v)]"] Cons.prems kv show ?case by auto
qed simp

text \<open>Controls whose keys are distinct are read in order.\<close>

definition form_keys :: "control list \<Rightarrow> (string \<times> control) list" where
  "form_keys cs = map (\<lambda>(i, el). (control_key i el, el)) (filter (\<lambda>(i, el). is_read el) (zip [0..<length cs] cs))"

definition proper_form :: "control list \<Rightarrow> bool" where
  "proper_form cs \<longleftrightarrow> distinct (map fst (form_keys cs)) \<and> list_all (\<lambda>el. ctl_id el \<noteq> []) cs"

lemma read_controls_keys:
  "distinct (map fst (form_keys cs)) \<Longrightarrow> read_controls cs = map (\<lambda>(k, el). (k, Some (control_json el))) (form_keys cs)"
proof -
  assume d: "distinct (map fst (form_keys cs))"
  have "read_controls cs = foldl (\<lambda>vs (k, v). put_key k v vs) [] (map (\<lambda>(k, el). (k, Some (control_json el))) (form_keys cs))"
    by (simp add: read_controls_def form_keys_def foldl_filter foldl_map' split_def)
  also have "\<dots> = map (\<lambda>(k, el). (k, Some (control_json el))) (form_keys cs)"
    using d by (subst put_all_fresh) (auto simp: comp_def split_def)
  finally show ?thesis .
qed

lemma values_text_inject:
  "(\<forall>(k, v) \<in> set vs \<union> set ws. v \<noteq> None) \<Longrightarrow> values_text vs = values_text ws \<longleftrightarrow> vs = ws"
proof -
  assume d: "\<forall>(k, v) \<in> set vs \<union> set ws. v \<noteq> None"
  have "map (\<lambda>(k, j). (k, Some j)) (List.map_filter (\<lambda>(k, v). map_option (Pair k) v) xs) = xs"
    if "\<forall>(k, v) \<in> set xs. v \<noteq> None" for xs :: form_values
    using that by (induction xs) (auto simp: List.map_filter_simps)
  with d have "List.map_filter (\<lambda>(k, v). map_option (Pair k) v) vs = List.map_filter (\<lambda>(k, v). map_option (Pair k) v) ws \<Longrightarrow> vs = ws"
    by (metis (no_types, lifting) UnCI)
  then show ?thesis unfolding values_text_def stringify_inject json.inject by auto
qed

lemma mark_clean [simp]: "\<not> is_dirty None cs (mark None None cs t)"
  by (simp add: mark_def is_dirty_def Let_def split: option.split)


text \<open>A form whose controls all have an id, each its own, as the page forms do.\<close>

definition tracked :: "control list \<Rightarrow> control list" where
  "tracked cs = filter is_read cs"

lemma form_keys_ids:
  "list_all (\<lambda>el. ctl_id el \<noteq> []) cs \<Longrightarrow> form_keys cs = map (\<lambda>el. (ctl_id el, el)) (tracked cs)"
proof -
  have "list_all (\<lambda>el. ctl_id el \<noteq> []) cs \<Longrightarrow>
      map (\<lambda>(i, el). (control_key i el, el)) (filter (\<lambda>(i, el). is_read el) (zip [n..<n + length cs] cs)) =
      map (\<lambda>el. (ctl_id el, el)) (filter is_read cs)" for n
  proof (induction cs arbitrary: n)
    case (Cons c cs)
    have "[n..<n + length (c # cs)] = n # [Suc n..<Suc n + length cs]" using upt_conv_Cons [of n "n + length (c # cs)"] by simp
    with Cons.IH [of "Suc n"] Cons.prems show ?case by (simp add: control_key_def)
  qed simp
  from this [of 0] show "list_all (\<lambda>el. ctl_id el \<noteq> []) cs \<Longrightarrow> ?thesis"
    by (simp add: form_keys_def tracked_def)
qed

lemma read_controls_ids:
  assumes "proper_form cs"
  shows "read_controls cs = map (\<lambda>el. (ctl_id el, Some (control_json el))) (tracked cs)"
    and "distinct (map ctl_id (tracked cs))"
proof -
  from assms have ids: "list_all (\<lambda>el. ctl_id el \<noteq> []) cs" and d: "distinct (map fst (form_keys cs))"
    by (simp_all add: proper_form_def)
  note k = form_keys_ids [OF ids] d
  then show "read_controls cs = map (\<lambda>el. (ctl_id el, Some (control_json el))) (tracked cs)"
    by (simp add: read_controls_keys)
  from k show "distinct (map ctl_id (tracked cs))" by (simp add: comp_def)
qed

text \<open>The same form at two times: the controls are the same, whatever they hold.\<close>

definition same_form :: "control list \<Rightarrow> control list \<Rightarrow> bool" where
  "same_form cs cs' \<longleftrightarrow> list_all2 (\<lambda>a b. ctl_id a = ctl_id b \<and> ctl_type a = ctl_type b) cs cs'"

lemma same_form_tracked:
  "same_form cs cs' \<Longrightarrow> list_all2 (\<lambda>a b. ctl_id a = ctl_id b \<and> ctl_type a = ctl_type b) (tracked cs) (tracked cs')"
  unfolding same_form_def by (induction rule: list_all2_induct) (auto simp: tracked_def is_read_def)

lemma same_form_ids: "same_form cs cs' \<Longrightarrow> map ctl_id (tracked cs) = map ctl_id (tracked cs')"
  by (drule same_form_tracked) (simp add: list_all2_conv_all_nth list_eq_iff_nth_eq)

lemma proper_same_form: "same_form cs cs' \<Longrightarrow> proper_form cs \<Longrightarrow> proper_form cs'"
proof -
  assume s: "same_form cs cs'" and p: "proper_form cs"
  have "list_all (\<lambda>el. ctl_id el \<noteq> []) cs'"
    using s p unfolding same_form_def proper_form_def by (auto simp: list_all2_conv_all_nth list_all_length)
  with s p same_form_ids [OF s] show "proper_form cs'" by (auto simp: proper_form_def form_keys_ids comp_def)
qed

lemma dirty_iff_differs:
  assumes "proper_form saved" "same_form saved now"
  shows "is_dirty None now (mark None None saved t) \<longleftrightarrow>
      (\<exists>i < length (tracked now). control_json (tracked now ! i) \<noteq> control_json (tracked saved ! i))"
    and "is_dirty None now (mark None (Some (read_controls saved)) now (Some b)) \<longleftrightarrow>
      (\<exists>i < length (tracked now). control_json (tracked now ! i) \<noteq> control_json (tracked saved ! i))"
    and "\<not> is_dirty ids now (mark None (Some (read_controls saved)) now None)"
proof -
  note n = read_controls_ids [OF proper_same_form [OF assms(2,1)]] and s = read_controls_ids [OF assms(1)]
  have len: "length (tracked now) = length (tracked saved)" "\<And>i. i < length (tracked now) \<Longrightarrow> ctl_id (tracked now ! i) = ctl_id (tracked saved ! i)"
    using same_form_tracked [OF assms(2)] by (auto simp: list_all2_conv_all_nth)
  have "values_text (read_controls now) \<noteq> values_text (read_controls saved) \<longleftrightarrow> read_controls now \<noteq> read_controls saved"
    by (subst values_text_inject) (auto simp: n s)
  also have "\<dots> \<longleftrightarrow> (\<exists>i < length (tracked now). control_json (tracked now ! i) \<noteq> control_json (tracked saved ! i))"
    using len by (auto simp: n s list_eq_iff_nth_eq)
  finally have d: "values_text (read_controls now) \<noteq> values_text (read_controls saved) \<longleftrightarrow>
      (\<exists>i < length (tracked now). control_json (tracked now ! i) \<noteq> control_json (tracked saved ! i))" .
  then show "is_dirty None now (mark None None saved t) \<longleftrightarrow>
      (\<exists>i < length (tracked now). control_json (tracked now ! i) \<noteq> control_json (tracked saved ! i))"
    "is_dirty None now (mark None (Some (read_controls saved)) now (Some b)) \<longleftrightarrow>
      (\<exists>i < length (tracked now). control_json (tracked now ! i) \<noteq> control_json (tracked saved ! i))"
    by (simp_all add: is_dirty_def mark_def Let_def split: option.split)
  show "\<not> is_dirty ids now (mark None (Some (read_controls saved)) now None)"
    by (simp add: is_dirty_def mark_def)
qed

text \<open>A form is dirty exactly while one of its controls holds something else than when it was marked
  as saved: typing a change and undoing it reads as clean again. A save that finishes marks what it
  sent, so what was typed during the request still reads as dirty, and a form given up meanwhile
  stays clean.
\<close>

theorem dirty_iff_a_control_differs:
  assumes "proper_form saved" "same_form saved now"
  shows "(is_dirty None now (mark None None saved t) \<longleftrightarrow>
      (\<exists>i < length (tracked now). control_json (tracked now ! i) \<noteq> control_json (tracked saved ! i))) \<and>
    (is_dirty None now (mark None (Some (read_controls saved)) now (Some b)) \<longleftrightarrow>
      (\<exists>i < length (tracked now). control_json (tracked now ! i) \<noteq> control_json (tracked saved ! i))) \<and>
    \<not> is_dirty ids now (mark None (Some (read_controls saved)) now None)"
  using dirty_iff_differs [OF assms] by blast

definition toy_form :: "string \<Rightarrow> bool \<Rightarrow> control list" where
  "toy_form nm on =
     [\<lparr>ctl_id = ''name'', ctl_type = ''text'', ctl_checked = False, ctl_value = nm\<rparr>,
      \<lparr>ctl_id = ''enabled'', ctl_type = ''checkbox'', ctl_checked = on, ctl_value = ''on''\<rparr>]"

lemma toy_form_ok: "proper_form (toy_form n b)" "same_form (toy_form n b) (toy_form n' b')"
  by (simp_all add: toy_form_def proper_form_def form_keys_def is_read_def control_key_def same_form_def upt_rec)

theorem dirty_iff_a_control_differs_witness:
  "is_dirty None (toy_form ''nas'' False) (mark None None (toy_form ''nas'' True) None) \<and>
   \<not> is_dirty None (toy_form ''nas'' True) (mark None None (toy_form ''nas'' True) None)"
proof -
  have "length (tracked (toy_form n b)) = 2" for n b by (simp add: tracked_def toy_form_def is_read_def)
  moreover have "control_json (tracked (toy_form ''nas'' False) ! 1) \<noteq> control_json (tracked (toy_form ''nas'' True) ! 1)"
    by (simp add: tracked_def toy_form_def is_read_def control_json_def is_toggle_def)
  ultimately show ?thesis
    using dirty_iff_a_control_differs [OF toy_form_ok, of "''nas''" False "''nas''" True None "[]" None]
      dirty_iff_a_control_differs [OF toy_form_ok, of "''nas''" True "''nas''" True None "[]" None]
    by (metis one_less_numeral_iff semiring_norm(76))
qed

lemma revert_control_json:
  assumes "map_of b (ctl_id el) = Some (Some (control_json el0))" "ctl_id el = ctl_id el0" "ctl_type el = ctl_type el0" "ctl_id el \<noteq> []"
  shows "control_json (revert_control b el) = control_json el0"
  using assms by (auto simp: revert_control_def control_json_def is_toggle_def truthy_def)

lemma revert_control_shape [simp]: "ctl_id (revert_control b el) = ctl_id el" "ctl_type (revert_control b el) = ctl_type el"
  "is_read (revert_control b el) = is_read el"
  by (auto simp: revert_control_def is_read_def split: option.split)

text \<open>C32
  Discard puts every tracked control back to what was marked as saved, so the form is clean again.
\<close>

theorem revert_restores_the_saved_form:
  assumes "proper_form saved" "same_form saved now"
  shows "map control_json (tracked (revert_form now (mark None None saved t))) = map control_json (tracked saved) \<and>
    \<not> is_dirty None (revert_form now (mark None None saved t)) (mark None None saved t)"
proof -
  note s = read_controls_ids [OF assms(1)]
  define b where "b = read_controls saved"
  have m: "mark None None saved t = Some b" by (simp add: mark_def b_def split: option.split)
  have tr: "tracked (map (revert_control b) now) = map (revert_control b) (tracked now)"
    by (simp add: tracked_def filter_map comp_def)
  have "control_json (revert_control b (tracked now ! i)) = control_json (tracked saved ! i)" if i: "i < length (tracked saved)" for i
  proof (rule revert_control_json)
    have sf: "ctl_id (tracked now ! i) = ctl_id (tracked saved ! i)" "ctl_type (tracked now ! i) = ctl_type (tracked saved ! i)"
      using same_form_tracked [OF assms(2)] i by (auto simp: list_all2_conv_all_nth)
    then show "ctl_id (tracked now ! i) = ctl_id (tracked saved ! i)" "ctl_type (tracked now ! i) = ctl_type (tracked saved ! i)" .
    have "(ctl_id (tracked saved ! i), Some (control_json (tracked saved ! i))) \<in> set b"
      using i by (auto simp: b_def s)
    moreover have "distinct (map fst b)" using s by (simp add: b_def comp_def)
    ultimately show "map_of b (ctl_id (tracked now ! i)) = Some (Some (control_json (tracked saved ! i)))"
      using sf by simp
    have "tracked saved ! i \<in> set saved" using i by (metis filter_is_subset nth_mem subsetD tracked_def)
    with sf assms(1) show "ctl_id (tracked now ! i) \<noteq> []" by (auto simp: proper_form_def list_all_iff)
  qed
  moreover have "length (tracked now) = length (tracked saved)"
    using same_form_tracked [OF assms(2)] by (auto simp: list_all2_conv_all_nth)
  ultimately have eq: "map control_json (tracked (revert_form now (Some b))) = map control_json (tracked saved)"
    by (simp add: revert_form_def tr list_eq_iff_nth_eq)
  have "same_form saved (map (revert_control b) now)"
    using assms(2) by (simp add: same_form_def list_all2_map2 list_all2_conv_all_nth)
  from dirty_iff_differs(1) [OF assms(1) this, of t] eq show ?thesis
    by (auto simp: m revert_form_def list_eq_iff_nth_eq)
qed


theorem revert_restores_the_saved_form_witness:
  "\<not> is_dirty None (revert_form (toy_form ''tv'' False) (mark None None (toy_form ''nas'' True) None))
     (mark None None (toy_form ''nas'' True) None)"
  using revert_restores_the_saved_form [OF toy_form_ok, of "''tv''" False "''nas''" True None] by blast

section \<open>The forms of the pages\<close>

text \<open>The page forms, by route: what the router asks before it leaves a page.\<close>

type_synonym 's page_forms = "string \<Rightarrow> ('s \<Rightarrow> bool) option"

definition register_page_form :: "string \<Rightarrow> ('s \<Rightarrow> bool) \<Rightarrow> 's page_forms \<Rightarrow> 's page_forms" where
  "register_page_form route dirty forms = forms(route \<mapsto> dirty)"

definition page_form :: "string \<Rightarrow> 's page_forms \<Rightarrow> ('s \<Rightarrow> bool) option" where
  "page_form route forms = forms route"

section \<open>The save bar\<close>

text \<open>
  \<open>core/save_bar.js\<close>. The form is what the page gives the bar: whether it is dirty and whether its
  bar is suppressed. A save in flight is \<open>saving\<close>.
\<close>

record save_bar =
  save_bar_hidden :: bool
  save_error :: string
  saving :: bool

definition new_save_bar :: save_bar where
  "new_save_bar = \<lparr>save_bar_hidden = True, save_error = [], saving = False\<rparr>"

definition sync_bar :: "bool \<Rightarrow> bool \<Rightarrow> save_bar \<Rightarrow> save_bar" where
  "sync_bar dirty suppressed s =
     (let s1 = (if \<not> dirty then s\<lparr>save_error := []\<rparr> else s) in s1\<lparr>save_bar_hidden := (\<not> dirty \<or> suppressed)\<rparr>)"

text \<open>A click on Save: whether \<open>form.save\<close> is called.\<close>

definition click_save :: "save_bar \<Rightarrow> save_bar \<times> bool" where
  "click_save s = (if saving s then (s, False) else (s\<lparr>saving := True, save_error := []\<rparr>, True))"

text \<open>The save has finished, with a message when it threw.\<close>

definition save_finished :: "string option \<Rightarrow> bool \<Rightarrow> bool \<Rightarrow> save_bar \<Rightarrow> save_bar" where
  "save_finished err dirty suppressed s =
     sync_bar dirty suppressed ((case err of None \<Rightarrow> s | Some m \<Rightarrow> s\<lparr>save_error := m\<rparr>)\<lparr>saving := False\<rparr>)"

datatype save_event = Touched bool bool | SaveClicked | SaveDone "string option" bool bool

definition save_step :: "save_event \<Rightarrow> save_bar \<Rightarrow> save_bar \<times> bool" where
  "save_step e s = (case e of
     Touched dirty suppressed \<Rightarrow> (sync_bar dirty suppressed s, False)
   | SaveClicked \<Rightarrow> click_save s
   | SaveDone err dirty suppressed \<Rightarrow> (if saving s then (save_finished err dirty suppressed s, False) else (s, False)))"

fun save_run :: "save_event list \<Rightarrow> save_bar \<Rightarrow> save_bar \<times> nat \<times> nat" where
  "save_run [] s = (s, 0, 0)"
| "save_run (e # es) s =
     (case save_step e s of (s1, called) \<Rightarrow>
        (case save_run es s1 of (s2, calls, ends) \<Rightarrow>
           (s2, calls + (if called then 1 else 0),
            ends + (case e of SaveDone _ _ _ \<Rightarrow> (if saving s then 1 else 0) | _ \<Rightarrow> 0))))"

text \<open>
  Saves of a page never overlap: over any events, the calls of \<open>form.save\<close> are the ones that have
  finished and the one running, so a second click while one runs starts nothing; and after every
  event about the form the bar is up exactly while the form is dirty and not suppressed, with no
  message left when it is clean.
\<close>

theorem saves_never_overlap:
  "(case save_run es s of (s', calls, ends) \<Rightarrow>
     calls + (if saving s then 1 else 0) = ends + (if saving s' then 1 else 0)) \<and>
   (let s' = fst (save_step (Touched dirty suppressed) s) in
     (save_bar_hidden s' \<longleftrightarrow> \<not> dirty \<or> suppressed) \<and> (\<not> dirty \<longrightarrow> save_error s' = []))"
proof -
  have "case save_run es s of (s', calls, ends) \<Rightarrow> calls + (if saving s then 1 else 0) = ends + (if saving s' then 1 else 0)"
  proof (induction es arbitrary: s)
    case (Cons e es)
    obtain s1 called where st: "save_step e s = (s1, called)" by (metis surj_pair)
    with Cons [of s1] show ?case
      by (cases e) (auto simp: save_step_def sync_bar_def click_save_def save_finished_def Let_def
          split: prod.splits if_splits option.splits)
  qed simp
  then show ?thesis by (simp add: save_step_def sync_bar_def Let_def)
qed

theorem saves_never_overlap_witness:
  "save_error (fst (save_step (Touched False False) (new_save_bar\<lparr>save_error := ''no answer''\<rparr>))) = []"
  using saves_never_overlap [where es = "[]" and s = "new_save_bar\<lparr>save_error := ''no answer''\<rparr>" and dirty = False and suppressed = False] by (simp add: Let_def)

end
