(* ===== verification/Modal.thy ===== *)
theory Modal
  imports Dirty "HOL-Library.Sublist"
begin

text \<open>
  \<open>core/modal.js\<close>: the stack of open dialogs, what keeps the page behind them out of reach, the
  prompt before edits are discarded, and the shared confirm dialog.

  Dialogs are their element ids. A dialog with a form is dirty by its tracker (\<open>form_dirty\<close>, reset
  when the dialog opens and closes) or, for a draft kept outside the DOM (\<open>draft_forms\<close>), by its own
  word, which opening and closing leave alone. A registered closer is the dialog's own teardown
  followed by \<open>closeModal\<close>; only the confirm dialog's does more, and is modelled. Callbacks of
  pages are numbers, returned when they run.
\<close>

section \<open>Dialogs and their operations\<close>

definition CONFIRM :: string where
  "CONFIRM = ''confirm-modal''"

datatype callback = CloseDialog string | PageCallback nat

record dialogs =
  open_stack :: "(string \<times> string) list"
  visible :: "string set"
  form_dirty :: "string \<Rightarrow> bool"
  draft_forms :: "string set"
  focused :: string
  isolated :: "string option"
  scroll_locked :: bool
  on_confirm :: "callback option"
  on_cancel :: "callback option"
  extra_run :: "nat option"
  extra_disabled :: bool
  ok_disabled :: bool
  confirm_status :: "string \<times> bool"
  prompts :: nat

definition no_dialogs :: "string set \<Rightarrow> dialogs" where
  "no_dialogs drafts = \<lparr>open_stack = [], visible = {}, form_dirty = (\<lambda>_. False), draft_forms = drafts, focused = [],
     isolated = None, scroll_locked = False, on_confirm = None, on_cancel = None, extra_run = None,
     extra_disabled = False, ok_disabled = False, confirm_status = ([], False), prompts = 0\<rparr>"

text \<open>The stack grows at its end: its last entry is topmost.\<close>

definition top_modal :: "dialogs \<Rightarrow> string option" where
  "top_modal s = (if open_stack s = [] then None else Some (fst (last (open_stack s))))"

definition sync_background :: "dialogs \<Rightarrow> dialogs" where
  "sync_background s = s\<lparr>isolated := top_modal s, scroll_locked := (top_modal s \<noteq> None)\<rparr>"

definition forget_form :: "string \<Rightarrow> dialogs \<Rightarrow> dialogs" where
  "forget_form d s = (if d \<in> draft_forms s then s else s\<lparr>form_dirty := (form_dirty s)(d := False)\<rparr>)"

definition is_open :: "string \<Rightarrow> dialogs \<Rightarrow> bool" where
  "is_open d s \<longleftrightarrow> d \<in> fst ` set (open_stack s)"

definition open_modal :: "string \<Rightarrow> dialogs \<Rightarrow> dialogs" where
  "open_modal d s =
     (let s1 = s\<lparr>visible := insert d (visible s)\<rparr> in
      if is_open d s then s1
      else (let s2 = forget_form d s1 in sync_background (s2\<lparr>open_stack := open_stack s2 @ [(d, focused s2)]\<rparr>)))"

text \<open>The frame after: focus goes into the dialog unless it is there already.\<close>

definition focus_opened :: "string \<Rightarrow> dialogs \<Rightarrow> dialogs" where
  "focus_opened d s = (if d \<notin> visible s then s else s\<lparr>focused := d\<rparr>)"

definition close_modal :: "string \<Rightarrow> dialogs \<Rightarrow> dialogs" where
  "close_modal d s =
     (let s1 = forget_form d (s\<lparr>visible := visible s - {d}\<rparr>) in
      if \<not> is_open d s then s1
      else (let wasTopmost = (top_modal s = Some d); prev = the (map_of (open_stack s) d);
                s2 = sync_background (s1\<lparr>open_stack := filter (\<lambda>e. fst e \<noteq> d) (open_stack s1)\<rparr>) in
        if wasTopmost then s2\<lparr>focused := prev\<rparr> else s2))"

definition is_modal_dirty :: "string \<Rightarrow> dialogs \<Rightarrow> bool" where
  "is_modal_dirty d s = form_dirty s d"

definition any_open_modal_dirty :: "dialogs \<Rightarrow> bool" where
  "any_open_modal_dirty s \<longleftrightarrow> list_ex (\<lambda>e. is_modal_dirty (fst e) s) (open_stack s)"

section \<open>The confirm dialog\<close>

record confirm_opts =
  opt_on_confirm :: "callback option"
  opt_on_cancel :: "callback option"
  opt_extra :: bool

definition open_confirm_modal :: "confirm_opts \<Rightarrow> dialogs \<Rightarrow> dialogs" where
  "open_confirm_modal opts s = open_modal CONFIRM
     (s\<lparr>on_confirm := opt_on_confirm opts, on_cancel := opt_on_cancel opts,
        extra_run := (if opt_extra opts then Some (prompts s) else None), extra_disabled := False,
        confirm_status := ([], False), prompts := Suc (prompts s)\<rparr>)"

definition reset_confirm :: "dialogs \<Rightarrow> dialogs" where
  "reset_confirm s = s\<lparr>on_confirm := None, on_cancel := None, extra_run := None, ok_disabled := False\<rparr>"

text \<open>
  A callback runs once its prompt is reset, so the closer of the confirm dialog has no callback
  left to run.
\<close>

definition run_callback :: "callback \<Rightarrow> dialogs \<Rightarrow> dialogs \<times> nat list" where
  "run_callback c s = (case c of
     CloseDialog d \<Rightarrow> (close_modal d (if d = CONFIRM then reset_confirm s else s), [])
   | PageCallback n \<Rightarrow> (s, [n]))"

definition close_confirm_modal :: "bool \<Rightarrow> dialogs \<Rightarrow> dialogs \<times> nat list" where
  "close_confirm_modal confirmed s =
     (let s1 = close_modal CONFIRM (reset_confirm s) in
      case on_cancel s of
        Some c \<Rightarrow> if \<not> confirmed then run_callback c s1 else (s1, [])
      | None \<Rightarrow> (s1, []))"

definition confirm_ok :: "dialogs \<Rightarrow> dialogs \<times> nat list" where
  "confirm_ok s =
     (let (s1, _) = close_confirm_modal True s in
      case on_confirm s of None \<Rightarrow> (s1, []) | Some c \<Rightarrow> run_callback c s1)"

text \<open>The third button: what it starts, and its answer, dropped when another prompt is up by then.\<close>

definition start_extra :: "dialogs \<Rightarrow> dialogs \<times> nat option" where
  "start_extra s = (case extra_run s of
     None \<Rightarrow> (s, None)
   | Some r \<Rightarrow> (s\<lparr>extra_disabled := True, ok_disabled := True, confirm_status := ([CHR 0x85], False)\<rparr>, Some r))"

definition extra_answered :: "nat \<Rightarrow> string + string \<Rightarrow> dialogs \<Rightarrow> dialogs" where
  "extra_answered r a s =
     (if extra_run s \<noteq> Some r then s
      else (case a of
          Inr done \<Rightarrow> s\<lparr>confirm_status := (done, False), ok_disabled := False\<rparr>
        | Inl e \<Rightarrow> s\<lparr>confirm_status := (e, True), extra_disabled := False, ok_disabled := False\<rparr>))"

section \<open>Dismissing\<close>

definition run_modal_closer :: "string \<Rightarrow> dialogs \<Rightarrow> dialogs \<times> nat list" where
  "run_modal_closer d s = (if d = CONFIRM then close_confirm_modal False s else (close_modal d s, []))"

definition confirm_discard :: "callback \<Rightarrow> callback option \<Rightarrow> dialogs \<Rightarrow> dialogs" where
  "confirm_discard onConfirm onCancel s =
     open_confirm_modal \<lparr>opt_on_confirm = Some onConfirm, opt_on_cancel = onCancel, opt_extra = False\<rparr> s"

definition dismiss_modal :: "string \<Rightarrow> dialogs \<Rightarrow> dialogs \<times> nat list" where
  "dismiss_modal d s =
     (if is_modal_dirty d s then (confirm_discard (CloseDialog d) None s, []) else run_modal_closer d s)"

definition close_top_modal :: "dialogs \<Rightarrow> (dialogs \<times> nat list) option" where
  "close_top_modal s = (case top_modal s of None \<Rightarrow> None | Some d \<Rightarrow> Some (dismiss_modal d s))"

section \<open>Closing shrinks the stack\<close>

lemma forget_form_fields [simp]:
  "open_stack (forget_form d s) = open_stack s" "visible (forget_form d s) = visible s"
  "focused (forget_form d s) = focused s" "draft_forms (forget_form d s) = draft_forms s"
  "on_cancel (forget_form d s) = on_cancel s" "on_confirm (forget_form d s) = on_confirm s"
  by (simp_all add: forget_form_def)

lemma sync_background_fields [simp]:
  "open_stack (sync_background s) = open_stack s" "visible (sync_background s) = visible s"
  "form_dirty (sync_background s) = form_dirty s" "focused (sync_background s) = focused s"
  "draft_forms (sync_background s) = draft_forms s" "isolated (sync_background s) = top_modal s"
  "scroll_locked (sync_background s) = (top_modal s \<noteq> None)"
  "on_cancel (sync_background s) = on_cancel s" "on_confirm (sync_background s) = on_confirm s"
  by (simp_all add: sync_background_def)

lemma reset_confirm_fields [simp]:
  "open_stack (reset_confirm s) = open_stack s" "visible (reset_confirm s) = visible s"
  "form_dirty (reset_confirm s) = form_dirty s" "draft_forms (reset_confirm s) = draft_forms s"
  "isolated (reset_confirm s) = isolated s" "scroll_locked (reset_confirm s) = scroll_locked s"
  "focused (reset_confirm s) = focused s"
  by (simp_all add: reset_confirm_def)

lemma close_modal_stack [simp]:
  "open_stack (close_modal d s) = filter (\<lambda>e. fst e \<noteq> d) (open_stack s)"
proof (cases "is_open d s")
  case False
  then have "filter (\<lambda>e. fst e \<noteq> d) (open_stack s) = open_stack s" by (auto simp: is_open_def filter_id_conv)
  with False show ?thesis by (simp add: close_modal_def Let_def)
qed (simp add: close_modal_def Let_def)

lemma close_modal_visible [simp]: "visible (close_modal d s) = visible s - {d}"
  by (simp add: close_modal_def Let_def)

lemma run_callback_stack:
  "\<exists>P. open_stack (fst (run_callback c s)) = filter P (open_stack s)"
  by (cases c) (auto simp: run_callback_def intro: exI [of _ "\<lambda>_. True"])

lemma run_closer_shrinks:
  assumes "top_modal s = Some d"
  shows "length (open_stack (fst (run_modal_closer d s))) < length (open_stack s)"
proof -
  from assms have "last (open_stack s) \<in> set (open_stack s)" "fst (last (open_stack s)) = d"
    by (auto simp: top_modal_def split: if_splits)
  then have len: "length (filter (\<lambda>e. fst e \<noteq> d) (open_stack s)) < length (open_stack s)"
    by (auto intro!: length_filter_less)
  show ?thesis
  proof (cases "d = CONFIRM \<and> (\<exists>c. on_cancel s = Some c)")
    case True
    then obtain c where c: "on_cancel s = Some c" by blast
    from run_callback_stack obtain P where
      "open_stack (fst (run_callback c (close_modal CONFIRM (reset_confirm s)))) = filter P (filter (\<lambda>e. fst e \<noteq> CONFIRM) (open_stack s))"
      by (metis close_modal_stack reset_confirm_fields(1))
    then have "length (open_stack (fst (run_callback c (close_modal CONFIRM (reset_confirm s))))) \<le>
        length (filter (\<lambda>e. fst e \<noteq> CONFIRM) (open_stack s))"
      by (metis length_filter_le)
    then have "length (open_stack (fst (run_modal_closer d s))) \<le> length (filter (\<lambda>e. fst e \<noteq> d) (open_stack s))"
      using True c by (simp add: run_modal_closer_def close_confirm_modal_def)
    with len show ?thesis by linarith
  qed (use len in \<open>auto simp: run_modal_closer_def close_confirm_modal_def split: option.split\<close>)
qed

text \<open>Runs every open dialog's closer, topmost first, until none is open.\<close>

function close_all_modals :: "dialogs \<Rightarrow> dialogs \<times> nat list" where
  "close_all_modals s = (case top_modal s of
     None \<Rightarrow> (s, [])
   | Some d \<Rightarrow> (case run_modal_closer d s of (s1, called) \<Rightarrow>
       (case close_all_modals s1 of (s2, called') \<Rightarrow> (s2, called @ called'))))"
  by pat_completeness auto
termination
  by (relation "measure (\<lambda>s. length (open_stack s))") (use run_closer_shrinks in \<open>fastforce dest: arg_cong [where f = fst]\<close>)+

declare close_all_modals.simps [simp del]


section \<open>What holds whatever the operator does\<close>

text \<open>
  The dialogs on the stack are the ones shown, each once; the topmost is the one kept reachable, and
  the page is locked exactly while one is open; a form that is not open is not dirty by its tracker.
\<close>

definition dialogs_ok :: "dialogs \<Rightarrow> bool" where
  "dialogs_ok s \<longleftrightarrow> distinct (map fst (open_stack s)) \<and> visible s = fst ` set (open_stack s) \<and>
     isolated s = top_modal s \<and> (scroll_locked s \<longleftrightarrow> open_stack s \<noteq> []) \<and>
     (\<forall>d. d \<notin> visible s \<longrightarrow> d \<notin> draft_forms s \<longrightarrow> \<not> form_dirty s d)"

text \<open>
  The confirm dialog keeps a prompt only while it is shown: once it is gone there is no callback left that a later answer could run,
  no third button's work to wait for, and its OK button works.
\<close>

definition prompt_ok :: "dialogs \<Rightarrow> bool" where
  "prompt_ok s \<longleftrightarrow> CONFIRM \<in> visible s \<or>
     (on_confirm s = None \<and> on_cancel s = None \<and> extra_run s = None \<and> \<not> ok_disabled s)"

text \<open>One thing that happens to the dialogs: an edit in an open one, a page or a key.\<close>

inductive dialog_step :: "dialogs \<Rightarrow> dialogs \<Rightarrow> bool" where
  edited: "d \<in> visible s \<or> d \<in> draft_forms s \<Longrightarrow> dialog_step s (s\<lparr>form_dirty := (form_dirty s)(d := b)\<rparr>)"
| opened: "dialog_step s (open_modal d s)"
| settled: "dialog_step s (focus_opened d s)"
| closed: "dialog_step s (fst (run_modal_closer d s))"
| dismissed: "dialog_step s (fst (dismiss_modal d s))"
| asked: "dialog_step s (open_confirm_modal opts s)"
| agreed: "dialog_step s (fst (confirm_ok s))"
| started: "dialog_step s (fst (start_extra s))"
| answered: "dialog_step s (extra_answered r a s)"
| left: "dialog_step s (fst (close_all_modals s))"

inductive_cases dialog_stepE: "dialog_step s s'"

inductive dialogs_reachable :: "string set \<Rightarrow> dialogs \<Rightarrow> bool" for drafts where
  start: "dialogs_reachable drafts (no_dialogs drafts)"
| step: "dialogs_reachable drafts s \<Longrightarrow> dialog_step s s' \<Longrightarrow> dialogs_reachable drafts s'"

lemma dialogs_ok_start: "dialogs_ok (no_dialogs drafts)"
  by (simp add: dialogs_ok_def no_dialogs_def top_modal_def)

lemma top_modal_Some: "top_modal s = Some d \<Longrightarrow> is_open d s"
  by (force simp: top_modal_def is_open_def split: if_splits)

lemma open_modal_ok: "dialogs_ok s \<Longrightarrow> dialogs_ok (open_modal d s)"
  unfolding dialogs_ok_def open_modal_def Let_def forget_form_def
  by (auto simp: is_open_def top_modal_def sync_background_def)

lemma close_modal_forms:
  "draft_forms (close_modal d s) = draft_forms s"
  "form_dirty (close_modal d s) = (if d \<in> draft_forms s then form_dirty s else (form_dirty s)(d := False))"
  by (simp_all add: close_modal_def Let_def forget_form_def)

lemma close_modal_background:
  "is_open d s \<Longrightarrow> isolated (close_modal d s) = top_modal (close_modal d s)"
  "is_open d s \<Longrightarrow> scroll_locked (close_modal d s) = (top_modal (close_modal d s) \<noteq> None)"
  "\<not> is_open d s \<Longrightarrow> isolated (close_modal d s) = isolated s"
  "\<not> is_open d s \<Longrightarrow> scroll_locked (close_modal d s) = scroll_locked s"
  "\<not> is_open d s \<Longrightarrow> open_stack (close_modal d s) = open_stack s"
  by (simp_all add: close_modal_def Let_def top_modal_def forget_form_def)

lemma close_modal_ok: "dialogs_ok s \<Longrightarrow> dialogs_ok (close_modal d s)"
proof -
  assume ok: "dialogs_ok s"
  have stack: "distinct (map fst (open_stack (close_modal d s)))"
    "visible (close_modal d s) = fst ` set (open_stack (close_modal d s))"
    using ok by (auto simp: dialogs_ok_def distinct_map_filter)
  have forms: "\<forall>x. x \<notin> visible (close_modal d s) \<longrightarrow> x \<notin> draft_forms (close_modal d s) \<longrightarrow> \<not> form_dirty (close_modal d s) x"
    using ok by (auto simp: dialogs_ok_def close_modal_forms)
  have "isolated (close_modal d s) = top_modal (close_modal d s) \<and>
      (scroll_locked (close_modal d s) \<longleftrightarrow> open_stack (close_modal d s) \<noteq> [])"
  proof (cases "is_open d s")
    case True
    then show ?thesis by (simp only: close_modal_background) (simp add: top_modal_def)
  next
    case False
    note same = close_modal_background(3-5) [OF False]
    then have "top_modal (close_modal d s) = top_modal s" by (simp only: top_modal_def)
    with same ok show ?thesis by (simp only: dialogs_ok_def)
  qed
  with stack forms show ?thesis unfolding dialogs_ok_def by blast
qed

lemma reset_confirm_ok [simp]: "dialogs_ok (reset_confirm s) = dialogs_ok s"
  by (simp add: dialogs_ok_def top_modal_def)

lemma run_callback_ok: "dialogs_ok s \<Longrightarrow> dialogs_ok (fst (run_callback c s))"
  by (simp add: run_callback_def close_modal_ok split: callback.split)

lemma close_confirm_ok: "dialogs_ok s \<Longrightarrow> dialogs_ok (fst (close_confirm_modal b s))"
  by (simp add: close_confirm_modal_def Let_def close_modal_ok run_callback_ok split: option.split)

lemma run_closer_ok: "dialogs_ok s \<Longrightarrow> dialogs_ok (fst (run_modal_closer d s))"
  by (simp add: run_modal_closer_def close_confirm_ok close_modal_ok)

lemma open_confirm_ok: "dialogs_ok s \<Longrightarrow> dialogs_ok (open_confirm_modal opts s)"
  unfolding open_confirm_modal_def by (rule open_modal_ok) (simp add: dialogs_ok_def top_modal_def)

lemma close_all_ok: "dialogs_ok s \<Longrightarrow> dialogs_ok (fst (close_all_modals s))"
proof (induction s rule: close_all_modals.induct)
  case (1 s)
  then show ?case
    using run_closer_ok [of s]
    by (subst close_all_modals.simps) (auto split: option.splits prod.splits, metis fst_conv)
qed

lemmas dialog_ops_ok = open_modal_ok close_modal_ok close_confirm_ok run_closer_ok open_confirm_ok close_all_ok run_callback_ok

lemma dialog_step_ok: "dialog_step s s' \<Longrightarrow> dialogs_ok s \<Longrightarrow> dialogs_ok s'"
proof (induction rule: dialog_step.induct)
  case (edited d s b)
  then show ?case by (auto simp: dialogs_ok_def top_modal_def)
next
  case (settled s d)
  then show ?case by (simp add: focus_opened_def dialogs_ok_def top_modal_def)
next
  case (dismissed s d)
  then show ?case by (simp add: dismiss_modal_def confirm_discard_def dialog_ops_ok)
next
  case (agreed s)
  then show ?case by (simp add: confirm_ok_def dialog_ops_ok split: prod.split option.split) (metis close_confirm_ok fst_conv run_callback_ok)
next
  case (started s)
  then show ?case by (simp add: start_extra_def dialogs_ok_def top_modal_def split: option.split)
next
  case (answered r a s)
  then show ?case by (simp add: extra_answered_def dialogs_ok_def top_modal_def split: sum.split)
qed (simp_all add: dialog_ops_ok)


lemma reachable_dialogs_ok: "dialogs_reachable drafts s \<Longrightarrow> dialogs_ok s"
  by (induction rule: dialogs_reachable.induct) (simp_all add: dialogs_ok_start dialog_step_ok)

text \<open>The prompt goes with its dialog.\<close>

lemma prompt_fields [simp]:
  "on_confirm (open_modal d s) = on_confirm s" "on_cancel (open_modal d s) = on_cancel s"
  "extra_run (open_modal d s) = extra_run s" "ok_disabled (open_modal d s) = ok_disabled s" "visible (open_modal d s) = insert d (visible s)"
  "on_confirm (close_modal d s) = on_confirm s" "on_cancel (close_modal d s) = on_cancel s"
  "extra_run (close_modal d s) = extra_run s" "ok_disabled (close_modal d s) = ok_disabled s"
  by (simp_all add: open_modal_def close_modal_def forget_form_def sync_background_def Let_def)

lemma prompt_reset: "prompt_ok (close_modal d (reset_confirm s))"
  by (simp add: prompt_ok_def reset_confirm_def)

lemma close_other_prompt: "prompt_ok s \<Longrightarrow> d \<noteq> CONFIRM \<Longrightarrow> prompt_ok (close_modal d s)"
  by (auto simp: prompt_ok_def)

lemma run_callback_prompt: "prompt_ok s \<Longrightarrow> prompt_ok (fst (run_callback c s))"
  by (simp add: run_callback_def prompt_reset close_other_prompt split: callback.split)

lemma close_confirm_prompt: "prompt_ok (fst (close_confirm_modal b s))"
  by (simp add: close_confirm_modal_def Let_def run_callback_prompt prompt_reset split: option.split)

lemma run_closer_prompt: "prompt_ok s \<Longrightarrow> prompt_ok (fst (run_modal_closer d s))"
  by (simp add: run_modal_closer_def close_confirm_prompt close_other_prompt)

lemma open_confirm_prompt: "prompt_ok (open_confirm_modal opts s)"
  by (simp add: open_confirm_modal_def prompt_ok_def)

lemma close_all_prompt: "prompt_ok s \<Longrightarrow> prompt_ok (fst (close_all_modals s))"
proof (induction s rule: close_all_modals.induct)
  case (1 s)
  then show ?case
    using run_closer_prompt [of s]
    by (subst close_all_modals.simps) (auto split: option.splits prod.splits, metis fst_conv)
qed

lemma dialog_step_prompt: "dialog_step s s' \<Longrightarrow> prompt_ok s \<Longrightarrow> prompt_ok s'"
proof (induction rule: dialog_step.induct)
  case (opened s d)
  then show ?case by (auto simp: prompt_ok_def)
next
  case (dismissed s d)
  then show ?case by (simp add: dismiss_modal_def confirm_discard_def open_confirm_prompt run_closer_prompt)
next
  case (agreed s)
  show ?case
    by (simp add: confirm_ok_def split: prod.split option.split) (metis close_confirm_prompt fst_conv run_callback_prompt)
next
  case (started s)
  then show ?case by (auto simp: start_extra_def prompt_ok_def split: option.split)
next
  case (answered r a s)
  then show ?case by (auto simp: extra_answered_def prompt_ok_def split: sum.split)
qed (simp_all add: prompt_ok_def focus_opened_def run_closer_prompt [unfolded prompt_ok_def] open_confirm_prompt [unfolded prompt_ok_def]
      close_all_prompt [unfolded prompt_ok_def])

lemma reachable_prompt_ok: "dialogs_reachable drafts s \<Longrightarrow> prompt_ok s"
proof (induction rule: dialogs_reachable.induct)
  case start
  show ?case by (simp add: prompt_ok_def no_dialogs_def)
qed (rule dialog_step_prompt)

text \<open>C33
  Whatever the operator and the pages do with the dialogs, the stack holds each shown dialog once,
  the topmost one is the one left reachable, the page is locked exactly while a dialog is open, the
  tracker of a dialog that is not open keeps no edits, and the confirm dialog keeps callbacks and waiting work only while it is
  shown, so a prompt that is gone can answer nothing.
\<close>

theorem dialogs_stay_consistent: "dialogs_reachable drafts s \<Longrightarrow> dialogs_ok s \<and> prompt_ok s"
  by (simp add: reachable_dialogs_ok reachable_prompt_ok)

theorem dialogs_stay_consistent_witness:
  "let s = fst (close_confirm_modal False (confirm_discard (CloseDialog ''peer-modal'') (Some (PageCallback 7))
       (open_modal ''peer-modal'' (no_dialogs {''geo-country-modal''})))) in dialogs_ok s \<and> prompt_ok s"
proof -
  let ?p = "confirm_discard (CloseDialog ''peer-modal'') (Some (PageCallback 7)) (open_modal ''peer-modal'' (no_dialogs {''geo-country-modal''}))"
  have "dialogs_reachable {''geo-country-modal''} ?p"
    unfolding confirm_discard_def
    by (rule dialogs_reachable.step [OF dialogs_reachable.step [OF dialogs_reachable.start dialog_step.opened] dialog_step.asked])
  moreover have "fst (close_confirm_modal False ?p) = fst (run_modal_closer CONFIRM ?p)" by (simp add: run_modal_closer_def)
  ultimately have "dialogs_reachable {''geo-country-modal''} (fst (close_confirm_modal False ?p))"
    using dialogs_reachable.step [OF _ dialog_step.closed [of ?p CONFIRM]] by metis
  from dialogs_stay_consistent [OF this] show ?thesis by (simp add: Let_def)
qed

text \<open>Leaving a page closes every dialog: the loop over the open dialogs ends, whatever prompts are up,
  and afterwards none is open or shown and nothing in a dialog reads as unsaved.
\<close>

theorem close_all_modals_leaves_none:
  assumes "dialogs_reachable drafts s"
  shows "open_stack (fst (close_all_modals s)) = [] \<and> visible (fst (close_all_modals s)) = {} \<and>
    \<not> any_open_modal_dirty (fst (close_all_modals s))"
proof -
  have none: "open_stack (fst (close_all_modals s)) = []" for s
  proof (induction s rule: close_all_modals.induct)
    case (1 s)
    show ?case
    proof (cases "top_modal s")
      case None
      then show ?thesis by (subst close_all_modals.simps) (auto simp: top_modal_def split: if_splits)
    next
      case (Some d)
      obtain s1 c where r: "run_modal_closer d s = (s1, c)" by (metis surj_pair)
      from "1.IH" [OF Some r [symmetric]] Some r show ?thesis
        by (subst close_all_modals.simps) (simp add: split_beta)
    qed
  qed
  moreover have "dialogs_ok (fst (close_all_modals s))"
    using close_all_ok reachable_dialogs_ok [OF assms] by blast
  ultimately show ?thesis by (simp add: dialogs_ok_def any_open_modal_dirty_def)
qed

theorem close_all_modals_leaves_none_witness:
  "open_stack (fst (close_all_modals (confirm_discard (CloseDialog ''peer-modal'') None (open_modal ''peer-modal'' (no_dialogs {}))))) = []"
proof -
  have "dialogs_reachable {} (confirm_discard (CloseDialog ''peer-modal'') None (open_modal ''peer-modal'' (no_dialogs {})))"
    unfolding confirm_discard_def
    by (rule dialogs_reachable.step [OF dialogs_reachable.step [OF dialogs_reachable.start dialog_step.opened] dialog_step.asked])
  from close_all_modals_leaves_none [OF this] show ?thesis by simp
qed

text \<open>
  A dialog with unsaved edits is never closed without asking: dismissing it (Escape, the backdrop,
  Cancel) leaves it open with its edits and puts the prompt on top. "Keep editing" takes only the
  prompt away; "Discard changes" closes the dialog.
\<close>

theorem dirty_dialog_asks_first:
  assumes "dialogs_reachable drafts s" "is_open d s" "is_modal_dirty d s" "\<not> is_open CONFIRM s" "CONFIRM \<notin> drafts"
    and "draft_forms s = drafts"
  shows "let p = fst (dismiss_modal d s) in
    is_open d p \<and> is_modal_dirty d p \<and> top_modal p = Some CONFIRM \<and>
    open_stack (fst (close_confirm_modal False p)) = open_stack s \<and> form_dirty (fst (close_confirm_modal False p)) = form_dirty s \<and>
    \<not> is_open d (fst (confirm_ok p)) \<and> d \<notin> visible (fst (confirm_ok p))"
proof -
  have ok: "dialogs_ok s" by (rule reachable_dialogs_ok [OF assms(1)])
  have dc: "d \<noteq> CONFIRM" using assms by auto
  have clean: "form_dirty s CONFIRM = False" using ok assms(4,5,6) by (simp add: dialogs_ok_def is_open_def)
  then have fd: "(form_dirty s)(CONFIRM := False) = form_dirty s" by (rule fun_upd_idem)
  define p where "p = fst (dismiss_modal d s)"
  have p: "open_stack p = open_stack s @ [(CONFIRM, focused s)]" "form_dirty p = form_dirty s"
      "on_confirm p = Some (CloseDialog d)" "on_cancel p = None" "draft_forms p = drafts"
    using assms(3-6) fd
    by (simp_all add: p_def dismiss_modal_def confirm_discard_def open_confirm_modal_def open_modal_def Let_def
        is_open_def sync_background_def forget_form_def)
  have keep: "filter (\<lambda>e. fst e \<noteq> CONFIRM) (open_stack s) = open_stack s"
    using assms(4) by (force simp: is_open_def filter_id_conv)
  have cc: "open_stack (fst (close_confirm_modal b p)) = open_stack s" for b
    by (simp add: close_confirm_modal_def Let_def p keep)
  have fdc: "form_dirty (fst (close_confirm_modal False p)) = form_dirty s"
    using fd by (simp add: close_confirm_modal_def Let_def p close_modal_def forget_form_def sync_background_def reset_confirm_def)
  have okd: "\<not> is_open d (fst (confirm_ok p)) \<and> d \<notin> visible (fst (confirm_ok p))"
    using dc by (simp add: confirm_ok_def p run_callback_def is_open_def split_beta) force
  show ?thesis
    using assms(2,3) cc fdc okd unfolding p_def [symmetric] Let_def
    by (auto simp: p is_open_def top_modal_def is_modal_dirty_def)
qed

theorem dirty_dialog_asks_first_witness:
  "let s = (open_modal ''peer-modal'' (no_dialogs {}))\<lparr>form_dirty := (\<lambda>_. False)(''peer-modal'' := True)\<rparr> in
     is_open ''peer-modal'' (fst (dismiss_modal ''peer-modal'' s)) \<and>
     \<not> is_open ''peer-modal'' (fst (confirm_ok (fst (dismiss_modal ''peer-modal'' s))))"
proof -
  let ?o = "open_modal ''peer-modal'' (no_dialogs {})"
  let ?s = "?o\<lparr>form_dirty := (\<lambda>_. False)(''peer-modal'' := True)\<rparr>"
  have o: "form_dirty ?o = (\<lambda>_. False)" "visible ?o = {''peer-modal''}" "draft_forms ?o = {}" "open_stack ?o = [(''peer-modal'', [])]"
    by (simp_all add: open_modal_def no_dialogs_def is_open_def sync_background_def forget_form_def Let_def fun_eq_iff)
  have "dialog_step ?o (?o\<lparr>form_dirty := (form_dirty ?o)(''peer-modal'' := True)\<rparr>)"
    by (rule dialog_step.edited) (simp add: o)
  then have "dialogs_reachable {} ?s"
    unfolding o by (rule dialogs_reachable.step [OF dialogs_reachable.step [OF dialogs_reachable.start dialog_step.opened]])
  from dirty_dialog_asks_first [OF this, of "''peer-modal''"] show ?thesis
    by (simp add: Let_def is_open_def o is_modal_dirty_def CONFIRM_def)
qed

section \<open>What is behind a dialog is out of reach\<close>

text \<open>
  \<open>applyBackgroundInert\<close> walks from the dialog up to the body, here \<open>chain\<close>, and makes the other
  children of each ancestor inert, remembering which it made so.
\<close>

fun inert_siblings :: "'n \<Rightarrow> 'n list \<Rightarrow> ('n \<Rightarrow> bool) \<Rightarrow> 'n list \<Rightarrow> ('n \<Rightarrow> bool) \<times> 'n list" where
  "inert_siblings node [] inert ours = (inert, ours)"
| "inert_siblings node (sib # sibs) inert ours =
     (if sib = node \<or> inert sib then inert_siblings node sibs inert ours
      else inert_siblings node sibs (inert(sib := True)) (ours @ [sib]))"

fun inert_chain :: "('n \<Rightarrow> 'n list) \<Rightarrow> 'n list \<Rightarrow> ('n \<Rightarrow> bool) \<Rightarrow> 'n list \<Rightarrow> ('n \<Rightarrow> bool) \<times> 'n list" where
  "inert_chain children (node # parent # rest) inert ours =
     (case inert_siblings node (children parent) inert ours of (inert', ours') \<Rightarrow>
        inert_chain children (parent # rest) inert' ours')"
| "inert_chain children chain inert ours = (inert, ours)"

fun clear_background_inert :: "('n \<Rightarrow> bool) \<Rightarrow> 'n list \<Rightarrow> ('n \<Rightarrow> bool)" where
  "clear_background_inert inert [] = inert"
| "clear_background_inert inert (el # els) = clear_background_inert (inert(el := False)) els"

definition apply_background_inert ::
  "('n \<Rightarrow> 'n list) \<Rightarrow> 'n list \<Rightarrow> ('n \<Rightarrow> bool) \<times> 'n list \<Rightarrow> ('n \<Rightarrow> bool) \<times> 'n list" where
  "apply_background_inert children chain st = inert_chain children chain (clear_background_inert (fst st) (snd st)) []"

lemma clear_background_iff: "clear_background_inert inert els n \<longleftrightarrow> inert n \<and> n \<notin> set els"
  by (induction els arbitrary: inert) auto

text \<open>What the walk keeps, relative to the flags \<open>was\<close> it started from.\<close>

definition inert_inv :: "('n \<Rightarrow> bool) \<Rightarrow> ('n \<Rightarrow> bool) \<Rightarrow> 'n list \<Rightarrow> bool" where
  "inert_inv was inert ours \<longleftrightarrow> (\<forall>n. inert n \<longleftrightarrow> was n \<or> n \<in> set ours) \<and> (\<forall>n \<in> set ours. \<not> was n)"

lemma inert_siblings_inv:
  assumes "inert_inv was inert ours" "inert_siblings node sibs inert ours = (inert', ours')"
  shows "inert_inv was inert' ours' \<and> (\<forall>n. inert n \<longrightarrow> inert' n) \<and> (\<forall>n \<in> set sibs. n \<noteq> node \<longrightarrow> inert' n) \<and>
    (set ours' \<subseteq> set ours \<union> (set sibs - {node}))"
  using assms
proof (induction sibs arbitrary: inert ours)
  case (Cons sib sibs)
  show ?case
  proof (cases "sib = node \<or> inert sib")
    case True
    with Cons.prems(2) have "inert_siblings node sibs inert ours = (inert', ours')" by (simp split: if_splits)
    note ih = Cons.IH [OF Cons.prems(1) this]
    from ih have ih': "inert_inv was inert' ours'" "\<forall>n. inert n \<longrightarrow> inert' n" "\<forall>n \<in> set sibs. n \<noteq> node \<longrightarrow> inert' n"
      "set ours' \<subseteq> set ours \<union> (set sibs - {node})" by simp_all
    from True ih'(2) have "sib \<noteq> node \<longrightarrow> inert' sib" by fast
    with ih'(3) have "\<forall>n \<in> set (sib # sibs). n \<noteq> node \<longrightarrow> inert' n" by simp
    moreover from ih'(4) have "set ours' \<subseteq> set ours \<union> (set (sib # sibs) - {node})" by fastforce
    ultimately show ?thesis using ih' by simp
  next
    case False
    then have inv: "inert_inv was (inert(sib := True)) (ours @ [sib])"
      using Cons.prems(1) by (simp add: inert_inv_def)
    from False Cons.prems(2) have "inert_siblings node sibs (inert(sib := True)) (ours @ [sib]) = (inert', ours')" by simp
    note ih = Cons.IH [OF inv this]
    then have ih': "inert_inv was inert' ours'" "\<forall>n. (inert(sib := True)) n \<longrightarrow> inert' n" "\<forall>n \<in> set sibs. n \<noteq> node \<longrightarrow> inert' n"
      "set ours' \<subseteq> set (ours @ [sib]) \<union> (set sibs - {node})" by simp_all
    from ih'(2) have up: "inert' sib" "\<forall>n. inert n \<longrightarrow> inert' n" by (simp_all split: if_splits)
    from ih'(4) False have "set ours' \<subseteq> set ours \<union> (set (sib # sibs) - {node})" by fastforce
    with ih' up show ?thesis by simp
  qed
qed simp

lemma inert_chain_inv:
  assumes "inert_inv was inert ours" "inert_chain children chain inert ours = (inert', ours')"
  shows "inert_inv was inert' ours' \<and> (\<forall>n. inert n \<longrightarrow> inert' n) \<and>
    (\<forall>i. Suc i < length chain \<longrightarrow> (\<forall>n \<in> set (children (chain ! Suc i)). n \<noteq> chain ! i \<longrightarrow> inert' n)) \<and>
    set ours' \<subseteq> set ours \<union> {n. \<exists>i. Suc i < length chain \<and> n \<in> set (children (chain ! Suc i)) \<and> n \<noteq> chain ! i}"
  using assms
proof (induction children chain inert ours rule: inert_chain.induct)
  case (1 children node parent rest inert ours)
  obtain i1 o1 where s: "inert_siblings node (children parent) inert ours = (i1, o1)" by (metis surj_pair)
  note sib = inert_siblings_inv [OF "1.prems"(1) s]
  from "1.prems"(2) s have rec: "inert_chain children (parent # rest) i1 o1 = (inert', ours')" by simp
  note ih = "1.IH" [OF s [symmetric] conjunct1 [OF sib] rec]
  have "\<forall>i. Suc i < length (node # parent # rest) \<longrightarrow>
      (\<forall>n \<in> set (children ((node # parent # rest) ! Suc i)). n \<noteq> (node # parent # rest) ! i \<longrightarrow> inert' n)"
    using ih sib by (auto simp: nth_Cons' less_Suc_eq_0_disj)
  moreover have "set ours' \<subseteq> set ours \<union> {n. \<exists>i. Suc i < length (node # parent # rest) \<and>
      n \<in> set (children ((node # parent # rest) ! Suc i)) \<and> n \<noteq> (node # parent # rest) ! i}"
  proof
    fix n assume "n \<in> set ours'"
    with ih sib consider "n \<in> set ours" | "n \<in> set (children parent)" "n \<noteq> node"
      | i where "Suc i < length (parent # rest)" "n \<in> set (children ((parent # rest) ! Suc i))" "n \<noteq> (parent # rest) ! i"
      by blast
    then show "n \<in> set ours \<union> {n. \<exists>i. Suc i < length (node # parent # rest) \<and>
      n \<in> set (children ((node # parent # rest) ! Suc i)) \<and> n \<noteq> (node # parent # rest) ! i}"
    proof cases
      case 2
      then show ?thesis by (auto intro!: exI [of _ 0])
    next
      case 3
      then show ?thesis by (auto intro!: exI [of _ "Suc i"])
    qed simp
  qed
  ultimately show ?case using ih sib by blast
qed auto

text \<open>
  An open dialog isolates itself: every element beside its branch, at each level up to the body, is
  inert; nothing on the branch is made inert; and closing it makes exactly the elements reachable
  again that were reachable before, so an element that was inert on its own account stays so.
\<close>

theorem dialog_isolated_and_restored:
  assumes "apply_background_inert children chain (inert, []) = (inert', ours)"
  shows "(\<forall>i. Suc i < length chain \<longrightarrow> (\<forall>n \<in> set (children (chain ! Suc i)). n \<noteq> chain ! i \<longrightarrow> inert' n)) \<and>
    (\<forall>n. inert' n \<longrightarrow> inert n \<or> (\<exists>i. Suc i < length chain \<and> n \<in> set (children (chain ! Suc i)) \<and> n \<noteq> chain ! i)) \<and>
    clear_background_inert inert' ours = inert"
proof -
  have base: "inert_inv inert inert []" by (simp add: inert_inv_def)
  from assms have "inert_chain children chain inert [] = (inert', ours)" by (simp add: apply_background_inert_def)
  note r = inert_chain_inv [OF base this]
  then have "clear_background_inert inert' ours n = inert n" for n
    by (auto simp: clear_background_iff inert_inv_def)
  moreover have "inert' n \<longrightarrow> inert n \<or> n \<in> set ours" for n using r by (auto simp: inert_inv_def)
  ultimately have "clear_background_inert inert' ours = inert"
    "inert' n \<Longrightarrow> inert n \<or> n \<in> set ours" for n
    by (simp_all add: fun_eq_iff)
  moreover have "n \<in> set ours \<Longrightarrow> \<exists>i. Suc i < length chain \<and> n \<in> set (children (chain ! Suc i)) \<and> n \<noteq> chain ! i" for n
    using r by auto
  ultimately show ?thesis using r by metis
qed

definition toy_page :: "nat \<Rightarrow> nat list" where
  "toy_page n = (if n = 0 then [1, 2, 3] else if n = 2 then [4, 5] else [])"

theorem dialog_isolated_and_restored_witness:
  "(let (inert', ours) = apply_background_inert toy_page [5, 2, 0] ((\<lambda>n. n = 3), []) in
     inert' 1 \<and> inert' 4 \<and> \<not> inert' 5 \<and> clear_background_inert inert' ours = (\<lambda>n. n = 3))"
proof -
  obtain inert' ours where a: "apply_background_inert toy_page [5, 2, 0] ((\<lambda>n. n = 3), []) = (inert', ours)"
    by (metis surj_pair)
  have ch: "toy_page 0 = [1, 2, 3]" "toy_page 2 = [4, 5]" by (simp_all add: toy_page_def)
  from dialog_isolated_and_restored [OF a] have r: "clear_background_inert inert' ours = (\<lambda>n. n = 3)" by blast
  from a have "inert' 1 \<and> inert' 4 \<and> \<not> inert' 5" by (auto simp: apply_background_inert_def ch)
  with a r show ?thesis by simp
qed


section \<open>The Tab key inside a dialog\<close>

text \<open>What the trap does with a Tab: focus the panel, focus a control itself, or leave it to the browser.\<close>

datatype 'e trap = FocusPanel | FocusControl 'e | LetBrowser

definition on_modal_trap :: "'e list \<Rightarrow> 'e \<Rightarrow> bool \<Rightarrow> bool \<Rightarrow> 'e trap" where
  "on_modal_trap focusables active inside shift =
     (if focusables = [] then FocusPanel
      else if shift then (if \<not> inside \<or> active = hd focusables then FocusControl (last focusables) else LetBrowser)
      else (if \<not> inside \<or> active = last focusables then FocusControl (hd focusables) else LetBrowser))"

text \<open>The browser moves to the next or previous control of the page's order.\<close>

definition browser_tab :: "'e list \<Rightarrow> nat \<Rightarrow> bool \<Rightarrow> nat" where
  "browser_tab order i shift = (if shift then i - 1 else Suc i)"

lemma tab_cycles_inside:
  assumes "distinct focusables" "i < length focusables"
  shows "(case on_modal_trap focusables (focusables ! i) True shift of
      FocusControl e \<Rightarrow> e = focusables ! (if shift then length focusables - 1 else 0) \<and> i = (if shift then 0 else length focusables - 1)
    | LetBrowser \<Rightarrow> browser_tab focusables i shift < length focusables \<and>
        focusables ! browser_tab focusables i shift \<noteq> focusables ! i
    | FocusPanel \<Rightarrow> False)"
proof -
  have ne: "focusables \<noteq> []" using assms by auto
  have "focusables ! i = hd focusables \<longleftrightarrow> i = 0" "focusables ! i = last focusables \<longleftrightarrow> i = length focusables - 1"
    using assms ne nth_eq_iff_index_eq [OF assms(1,2)] by (simp_all add: hd_conv_nth last_conv_nth)
  with ne assms show ?thesis
    by (auto simp: on_modal_trap_def browser_tab_def hd_conv_nth last_conv_nth nth_eq_iff_index_eq)
qed

end
