(* ===== verification/Api.thy ===== *)
theory Api
  imports Lockout Net
begin

text \<open>
  \<open>core/api.js\<close>: the base address and the token, what a read token may open, and what a request's
  answer turns into: a body, or an error with the kind of failure it stands for.

  An answer is taken with what \<open>JSON.parse\<close> reads from its text (\<open>parsed\<close>).
\<close>

section \<open>Address, token and scope\<close>

definition drop_trailing :: "char \<Rightarrow> string \<Rightarrow> string" where
  "drop_trailing c s = rev (dropWhile (\<lambda>x. x = c) (rev s))"

definition normalize_api_base :: "string \<Rightarrow> string" where
  "normalize_api_base s = (let t = drop_trailing (CHR ''/'') (trim s) in if t = [] then ''/api'' else t)"

definition get_default_api_base :: "string option \<Rightarrow> string" where
  "get_default_api_base configured = (case configured of
     Some b \<Rightarrow> if trim b \<noteq> [] then normalize_api_base b else ''/api'' | None \<Rightarrow> ''/api'')"

text \<open>\<open>a || b\<close> on stored texts.\<close>

definition or_text :: "string option \<Rightarrow> string option \<Rightarrow> string option" where
  "or_text a b = (case a of Some t \<Rightarrow> if t \<noteq> [] then a else b | None \<Rightarrow> b)"

definition get_api_base :: "string option \<Rightarrow> string option \<Rightarrow> string option \<Rightarrow> string" where
  "get_api_base session local configured = (case or_text session local of
     Some saved \<Rightarrow> if trim saved \<noteq> [] then normalize_api_base saved else get_default_api_base configured
   | None \<Rightarrow> get_default_api_base configured)"

definition saved_token :: "string option \<Rightarrow> string option \<Rightarrow> string" where
  "saved_token session local = (case or_text session local of Some t \<Rightarrow> t | None \<Rightarrow> [])"

definition current_token :: "string option \<Rightarrow> string option \<Rightarrow> string option \<Rightarrow> string" where
  "current_token session local typed =
     (let t = saved_token session local in
      if t \<noteq> [] then t else (case typed of Some f \<Rightarrow> trim f | None \<Rightarrow> []))"

definition request_headers :: "string \<Rightarrow> (string \<times> string) list" where
  "request_headers t = [(''Accept'', ''application/json''), (''Content-Type'', ''application/json'')] @
     (if t \<noteq> [] then [(''X-API-Token'', t)] else [])"

definition headers_download :: "string \<Rightarrow> (string \<times> string) list" where
  "headers_download t = (''Accept'', ''*/*'') # (if t \<noteq> [] then [(''X-API-Token'', t)] else [])"

definition read_only_pages :: "string list" where
  "read_only_pages = [''overview'', ''stats'', ''logs'', ''token'']"

definition is_read_only_token :: "string \<Rightarrow> bool" where
  "is_read_only_token scope \<longleftrightarrow> scope = ''read''"

definition page_needs_write_token :: "string \<Rightarrow> string \<Rightarrow> bool" where
  "page_needs_write_token scope route \<longleftrightarrow> is_read_only_token scope \<and> route \<notin> set read_only_pages"

text \<open>
  A control that needs the write token, and the mark of having been disabled here: only that mark
  is undone.
\<close>

definition apply_token_scope :: "string \<Rightarrow> bool \<times> bool \<Rightarrow> bool \<times> bool" where
  "apply_token_scope scope c = (case c of (disabled, marked) \<Rightarrow>
     if is_read_only_token scope \<and> \<not> disabled then (True, True)
     else if \<not> is_read_only_token scope \<and> marked then (False, False)
     else (disabled, marked))"

definition nav_link_disabled :: "bool \<Rightarrow> string \<Rightarrow> string \<Rightarrow> bool" where
  "nav_link_disabled apiOk scope route =
     ((\<not> apiOk \<and> route \<noteq> ''overview'' \<and> route \<noteq> ''token'') \<or> page_needs_write_token scope route)"

section \<open>What an answer turns into\<close>

record http_answer =
  http_ok :: bool
  http_status :: nat
  status_text :: string
  answer_text :: string
  parsed :: jsval
  answer_etag :: "string option"

text \<open>How a fetch ended: with an answer, aborted by its caller, or without an answer.\<close>

datatype fetched = Answer http_answer | Aborted | NoAnswer

record request_error = api_failure +
  connection_kind :: "string option"

definition no_answer :: request_error where
  "no_answer = \<lparr>message = ''No answer from the EvuProxy API.'', status = None, error_code = None,
     error_body = None, connection_kind = Some ''unreachable''\<rparr>"

definition plain_error :: "string \<Rightarrow> request_error" where
  "plain_error m = \<lparr>message = m, status = None, error_code = None, error_body = None, connection_kind = None\<rparr>"

definition failure_kind :: "nat \<Rightarrow> jsval \<Rightarrow> string option" where
  "failure_kind st bd =
     (if st = 401 then Some ''auth''
      else if st \<in> {502, 503, 504} \<and> \<not> truthy (at_member bd ''error'') then Some ''unreachable''
      else None)"

definition body_of :: "http_answer \<Rightarrow> json" where
  "body_of r = (case parsed r of Some j \<Rightarrow> j | None \<Rightarrow> JObj [(''raw'', JStr (answer_text r))])"

definition GATEWAY_MARKS :: "string list" where
  "GATEWAY_MARKS = [''502'', ''bad gateway'', ''504'', ''gateway timeout'', ''gateway time-out'']"

definition error_message :: "http_answer \<Rightarrow> string" where
  "error_message r =
     (let bd = body_of r;
          err = js_or (member_json bd ''error'') (js_or (member_json bd ''raw'') (Some (JStr (status_text r)))) in
      case err of
        Some (JStr t) \<Rightarrow>
          if starts_with (trim_start t) ''<'' then
            (if http_status r = 502 \<or> list_ex (includes_str (lower t)) GATEWAY_MARKS
             then ''Cannot reach EvuProxy on the host (HTTP '' @ show_nat (http_status r) @
               ''). Start the API: sudo systemctl start evuproxy-api.service '' @ mdash @
               '' the UI proxies /api to 127.0.0.1:9847 (see docker-compose.yml; host network).''
             else ''HTTP '' @ show_nat (http_status r) @ '': unexpected HTML from server (check nginx/API upstream).'')
          else t
      | Some j \<Rightarrow> js_string j
      | None \<Rightarrow> [])"

definition TYPE_ERROR_BODY :: request_error where
  "TYPE_ERROR_BODY = plain_error ''Cannot read properties of null''"

text \<open>
  The result of a request, what the observer is told, and the new token scope. Reading a property
  of a null body throws.
\<close>

definition api :: "string \<Rightarrow> fetched \<Rightarrow> string \<Rightarrow> (request_error + json) \<times> string option \<times> string" where
  "api path f scope = (case f of
     Aborted \<Rightarrow> (Inl (plain_error ''The operation was aborted.''), None, scope)
   | NoAnswer \<Rightarrow> (Inl no_answer, Some ''unreachable'', scope)
   | Answer r \<Rightarrow>
       (let bd = body_of r in
        if \<not> http_ok r then
          (if bd = JNull then (Inl TYPE_ERROR_BODY, None, scope)
           else (let kind = failure_kind (http_status r) (Some bd) in
             (Inl \<lparr>message = error_message r, status = Some (http_status r),
                   error_code = (if truthy (member_json bd ''error_code'') then Some (str_or_empty (member_json bd ''error_code'')) else None),
                   error_body = Some bd, connection_kind = kind\<rparr>,
              Some (case kind of Some k \<Rightarrow> k | None \<Rightarrow> ''answered''), scope)))
        else if path = ''/v1/overview'' then
          (if bd = JNull then (Inl TYPE_ERROR_BODY, Some ''answered'', scope)
           else (Inr bd, Some ''answered'',
             (if truthy (member_json bd ''scope'') then str_or_empty (member_json bd ''scope'') else ''write'')))
        else (Inr bd, Some ''answered'', scope)))"

text \<open>The nav gate: whether it passes, and whether it asks the connection to be checked.\<close>

definition ensure_api_gate :: "string \<Rightarrow> fetched \<Rightarrow> string \<Rightarrow> bool \<times> bool \<times> string" where
  "ensure_api_gate tok f scope =
     (if trim tok = [] then (False, False, scope)
      else (case api ''/v1/overview'' f scope of
          (Inr _, _, scope') \<Rightarrow> (True, False, scope') | (Inl _, _, scope') \<Rightarrow> (False, True, scope')))"

section \<open>Laws\<close>

text \<open>
  Every request is judged the same way. The observer hears "unreachable" exactly when no answer
  came or a gateway answered without an error of the API's own, "auth" exactly for a 401 with a
  body, and "answered" otherwise; an abort and a body that cannot be read say nothing. An error
  has a status exactly when an answer came, which is what callers rely on to tell the two apart.
\<close>

theorem outcomes_are_judged:
  "(case api path f scope of (res, report, scope') \<Rightarrow>
     (report = Some ''unreachable'' \<longleftrightarrow> f = NoAnswer \<or>
        (\<exists>r. f = Answer r \<and> \<not> http_ok r \<and> body_of r \<noteq> JNull \<and> http_status r \<in> {502, 503, 504} \<and>
             \<not> truthy (member_json (body_of r) ''error''))) \<and>
     (report = Some ''auth'' \<longleftrightarrow> (\<exists>r. f = Answer r \<and> \<not> http_ok r \<and> body_of r \<noteq> JNull \<and> http_status r = 401)) \<and>
     (report = None \<longleftrightarrow> f = Aborted \<or> (\<exists>r. f = Answer r \<and> \<not> http_ok r \<and> body_of r = JNull)) \<and>
     (\<forall>e. res = Inl e \<longrightarrow> (status e \<noteq> None \<longleftrightarrow> (\<exists>r. f = Answer r \<and> \<not> http_ok r \<and> body_of r \<noteq> JNull))))"
proof (cases f)
  case (Answer r)
  show ?thesis
  proof (cases "http_ok r \<or> body_of r = JNull")
    case True
    with Answer show ?thesis by (auto simp: api_def plain_error_def TYPE_ERROR_BODY_def Let_def)
  next
    case False
    with Answer show ?thesis by (simp add: api_def failure_kind_def at_member_def Let_def)
  qed
qed (simp_all add: api_def no_answer_def plain_error_def)

definition toy_answer :: "nat \<Rightarrow> jsval \<Rightarrow> http_answer" where
  "toy_answer st j = \<lparr>http_ok = (st = 200), http_status = st, status_text = ''Bad Gateway'',
     answer_text = ''<html>'', parsed = j, answer_etag = None\<rparr>"

theorem outcomes_are_judged_witness:
  "fst (snd (api ''/v1/stats'' (Answer (toy_answer 502 None)) ''write'')) = Some ''unreachable''"
  using outcomes_are_judged [where path = "''/v1/stats''" and f = "Answer (toy_answer 502 None)" and scope = "''write''"]
  by (auto simp: toy_answer_def body_of_def truthy_def split: prod.splits)

text \<open>A read token opens four pages and no other, also with the API answering; with no contact to the API
  only Overview and the token page stay open; and a control that other code disabled stays
  disabled when the scope changes back and forth.
\<close>

theorem read_token_opens_only_read_pages:
  "(\<not> nav_link_disabled apiOk ''read'' route \<longrightarrow> route \<in> set read_only_pages) \<and>
   (\<not> nav_link_disabled False scope route \<longrightarrow> route = ''overview'' \<or> route = ''token'') \<and>
   (\<not> nav_link_disabled True ''write'' route) \<and>
   apply_token_scope ''write'' (apply_token_scope ''read'' (disabled, False)) = (disabled, False)"
  by (auto simp: nav_link_disabled_def page_needs_write_token_def is_read_only_token_def apply_token_scope_def)

theorem read_token_opens_only_read_pages_witness: "''stats'' \<in> set read_only_pages"
proof -
  have "\<not> nav_link_disabled True ''read'' ''stats''"
    by (simp add: nav_link_disabled_def page_needs_write_token_def read_only_pages_def)
  with read_token_opens_only_read_pages show ?thesis by blast
qed

end
