(* ===== verification/Connection.thy ===== *)
theory Connection
  imports Api
begin

text \<open>
  \<open>core/connection.js\<close>: whether the page can talk to the API, and the banner that says so. A failed
  request only prompts a probe; only a probe's answer changes the state. The module is a machine
  over its events; times are milliseconds, and a timer is a flag that its event checks.
\<close>

definition RETRY_MS :: int where
  "RETRY_MS = 5000"

definition TITLES :: "(string \<times> string) list" where
  "TITLES = [(''unreachable'', ''Can't reach the EvuProxy API''), (''auth'', ''The API rejected this browser's token''),
     (''error'', ''The API is returning errors'')]"

record outage =
  lost_kind :: string
  lost_detail :: string
  lost_since :: int

record connection =
  lost :: "outage option"
  ever_answered :: bool
  loaded_pages :: "string list"
  probing :: bool
  probe_again :: bool
  retrying :: bool
  retry_armed :: bool
  reload_armed :: "int option"
  last_reload_at :: int
  api_ok :: bool
  banner_note :: string

definition initial_connection :: connection where
  "initial_connection = \<lparr>lost = None, ever_answered = False, loaded_pages = [], probing = False, probe_again = False,
     retrying = False, retry_armed = False, reload_armed = None, last_reload_at = 0, api_ok = False, banner_note = []\<rparr>"

datatype conn_request = SendProbe | ReloadPage | ConnectionRestored

text \<open>
  Each event carries what the module reads besides its state: whether a token is stored, whether
  the tab is in the background, the time.
\<close>

datatype conn_event =
    ApiOutcome bool string
  | ProbeAnswer bool int "request_error + unit"
  | RetryTimer bool bool
  | RetryClick bool
  | BackAgain bool bool
  | ReloadTimer int
  | PageLoaded string

definition mark_page_loaded :: "string \<Rightarrow> connection \<Rightarrow> connection" where
  "mark_page_loaded name s =
     (if name \<in> set (loaded_pages s) then s else s\<lparr>loaded_pages := loaded_pages s @ [name]\<rparr>)"

definition detail_for :: "string \<Rightarrow> request_error \<Rightarrow> string" where
  "detail_for kind e =
     (if kind = ''auth'' then ''The token is wrong or missing. Enter the right one on the API token page.'' else error_text e)"

definition mark_lost :: "int \<Rightarrow> request_error \<Rightarrow> connection \<Rightarrow> connection" where
  "mark_lost now e s =
     (let kind = (case connection_kind e of Some k \<Rightarrow> if k \<noteq> [] then k else ''error'' | None \<Rightarrow> ''error'') in
      s\<lparr>lost := Some \<lparr>lost_kind = kind, lost_detail = detail_for kind e,
                     lost_since = (case lost s of Some l \<Rightarrow> lost_since l | None \<Rightarrow> now)\<rparr>,
        api_ok := False\<rparr>)"

definition reload_after_recovery :: "int \<Rightarrow> connection \<Rightarrow> connection \<times> conn_request list" where
  "reload_after_recovery now s =
     (if lost s \<noteq> None then (s\<lparr>reload_armed := None\<rparr>, [])
      else (let wait = last_reload_at s + RETRY_MS - now in
        if wait > 0 then (s\<lparr>reload_armed := Some (now + wait)\<rparr>, [])
        else (s\<lparr>reload_armed := None, last_reload_at := now\<rparr>, [ReloadPage])))"

definition mark_answering :: "int \<Rightarrow> connection \<Rightarrow> connection \<times> conn_request list" where
  "mark_answering now s =
     (let wasLost = (lost s \<noteq> None); wasRestricted = (\<not> api_ok s);
          s1 = s\<lparr>lost := None, ever_answered := True, banner_note := [], api_ok := True\<rparr>;
          toast = (if wasLost then [ConnectionRestored] else []) in
      if wasLost \<or> wasRestricted
      then (case reload_after_recovery now s1 of (s2, rs) \<Rightarrow> (s2, toast @ rs))
      else (s1, toast))"

definition schedule_probe :: "connection \<Rightarrow> connection" where
  "schedule_probe s = s\<lparr>retry_armed := True\<rparr>"

text \<open>The note says the time; here it is only told apart from none.\<close>

definition STILL_NO_ANSWER :: string where
  "STILL_NO_ANSWER = ''Still no answer''"

definition finish_retry :: "connection \<Rightarrow> connection" where
  "finish_retry s =
     (if \<not> retrying s then s
      else (let s1 = s\<lparr>retrying := False\<rparr> in if lost s1 \<noteq> None then s1\<lparr>banner_note := STILL_NO_ANSWER\<rparr> else s1))"

text \<open>\<open>probe\<close> up to its request.\<close>

definition probe :: "bool \<Rightarrow> connection \<Rightarrow> connection \<times> conn_request list" where
  "probe hasToken s =
     (if probing s then (s\<lparr>probe_again := True\<rparr>, [])
      else (let s1 = s\<lparr>retry_armed := False\<rparr> in
        if \<not> hasToken then (finish_retry (s1\<lparr>lost := None\<rparr>), [])
        else (s1\<lparr>probing := True\<rparr>, [SendProbe])))"

text \<open>The rest of \<open>probe\<close>, on its answer.\<close>

definition probe_answer :: "bool \<Rightarrow> int \<Rightarrow> request_error + unit \<Rightarrow> connection \<Rightarrow> connection \<times> conn_request list" where
  "probe_answer hasToken now a s =
     (let s1 = s\<lparr>probing := False\<rparr> in
      if probe_again s1 then probe hasToken (s1\<lparr>probe_again := False\<rparr>)
      else (let (s2, rs) = (case a of Inl e \<Rightarrow> (mark_lost now e s1, []) | Inr _ \<Rightarrow> mark_answering now s1);
                s3 = finish_retry s2 in
        (if lost s3 \<noteq> None then schedule_probe s3 else s3, rs)))"

definition on_api_outcome :: "bool \<Rightarrow> string \<Rightarrow> connection \<Rightarrow> connection \<times> conn_request list" where
  "on_api_outcome hasToken outcome s =
     (if \<not> hasToken then (s, [])
      else (let answered = (outcome = ''answered'');
                s1 = (if answered then s\<lparr>ever_answered := True\<rparr> else s) in
        if outcome = ''check'' \<or> (if lost s1 \<noteq> None then answered else \<not> answered) then probe hasToken s1 else (s1, [])))"

definition conn_step :: "conn_event \<Rightarrow> connection \<Rightarrow> connection \<times> conn_request list" where
  "conn_step e s = (case e of
     ApiOutcome hasToken outcome \<Rightarrow> on_api_outcome hasToken outcome s
   | ProbeAnswer hasToken now a \<Rightarrow> (if probing s then probe_answer hasToken now a s else (s, []))
   | RetryTimer hasToken hidden \<Rightarrow>
       (if \<not> retry_armed s then (s, [])
        else if hidden then (schedule_probe s, [])
        else probe hasToken (s\<lparr>retry_armed := False\<rparr>))
   | RetryClick hasToken \<Rightarrow> (if retrying s then (s, []) else probe hasToken (s\<lparr>retrying := True\<rparr>))
   | BackAgain hasToken hidden \<Rightarrow> (if lost s \<noteq> None \<and> \<not> hidden then probe hasToken s else (s, []))
   | ReloadTimer now \<Rightarrow>
       (case reload_armed s of
          Some t \<Rightarrow> if t \<le> now then reload_after_recovery now (s\<lparr>reload_armed := None\<rparr>) else (s, [])
        | None \<Rightarrow> (s, []))
   | PageLoaded name \<Rightarrow> (mark_page_loaded name s, []))"

definition conn_run :: "conn_event list \<Rightarrow> connection" where
  "conn_run es = foldl (\<lambda>s e. fst (conn_step e s)) initial_connection es"

section \<open>The banner\<close>

definition page_state_text :: "string \<Rightarrow> connection \<Rightarrow> string" where
  "page_state_text page s =
     (if page = ''token'' then []
      else if page \<in> set (loaded_pages s) then ''What's on screen was loaded before then and may be out of date. ''
      else ''This page hasn't loaded yet. It fills in as soon as the API answers. '')"

text \<open>The tags of a page's title row: "Stale data" and "Not loaded yet".\<close>

definition page_tags :: "bool \<Rightarrow> connection \<Rightarrow> string \<Rightarrow> bool \<times> bool" where
  "page_tags outage s name =
     (outage \<and> name \<in> set (loaded_pages s), outage \<and> name \<notin> set (loaded_pages s) \<and> name \<noteq> ''overview'')"

record banner =
  banner_title :: string
  banner_detail :: string
  banner_stale :: string
  banner_token_hidden :: bool

text \<open>\<open>clock\<close> writes a time as the browser's locale does.\<close>

definition render_connection_state :: "(int \<Rightarrow> string) \<Rightarrow> string \<Rightarrow> connection \<Rightarrow> banner option" where
  "render_connection_state clock page s = (case lost s of
     None \<Rightarrow> None
   | Some l \<Rightarrow> Some
       \<lparr>banner_title = (case map_of TITLES (lost_kind l) of Some t \<Rightarrow> t | None \<Rightarrow> []),
        banner_detail = lost_detail l,
        banner_stale = (if ever_answered s then ''Lost contact at '' @ clock (lost_since l) @ ''. '' else []) @
          page_state_text page s @ ''Trying again automatically.'',
        banner_token_hidden = (lost_kind l \<noteq> ''auth'')\<rparr>)"

section \<open>Invariants\<close>

text \<open>
  An outage is never forgotten: a probe is out, or the timer of the next one is armed. A probe
  asked for during another is remembered only while that one is out.
\<close>

definition conn_ok :: "connection \<Rightarrow> bool" where
  "conn_ok s \<longleftrightarrow> (lost s \<noteq> None \<longrightarrow> probing s \<or> retry_armed s) \<and> (probe_again s \<longrightarrow> probing s) \<and>
     (retrying s \<longrightarrow> probing s) \<and> (reload_armed s \<noteq> None \<longrightarrow> reload_armed s = Some (last_reload_at s + RETRY_MS))"

lemmas conn_ops = on_api_outcome_def probe_answer_def probe_def finish_retry_def schedule_probe_def mark_lost_def
  mark_answering_def reload_after_recovery_def mark_page_loaded_def

lemma probe_ok: "(probe_again s \<longrightarrow> probing s) \<Longrightarrow>
    (reload_armed s \<noteq> None \<longrightarrow> reload_armed s = Some (last_reload_at s + RETRY_MS)) \<Longrightarrow> conn_ok (fst (probe t s))"
  by (auto simp: conn_ok_def probe_def finish_retry_def Let_def)

lemma conn_okD: "conn_ok s \<Longrightarrow> probe_again s \<longrightarrow> probing s"
  "conn_ok s \<Longrightarrow> reload_armed s \<noteq> None \<longrightarrow> reload_armed s = Some (last_reload_at s + RETRY_MS)"
  by (simp_all add: conn_ok_def)

lemma conn_ok_updates: "conn_ok (s\<lparr>ever_answered := b\<rparr>) = conn_ok s" "conn_ok (s\<lparr>loaded_pages := ps\<rparr>) = conn_ok s"
  "conn_ok s \<Longrightarrow> conn_ok (s\<lparr>retry_armed := True\<rparr>)"
  by (simp_all add: conn_ok_def)

lemma reload_after_recovery_fields:
  "probing (fst (reload_after_recovery now s)) = probing s" "probe_again (fst (reload_after_recovery now s)) = probe_again s"
  "retrying (fst (reload_after_recovery now s)) = retrying s" "retry_armed (fst (reload_after_recovery now s)) = retry_armed s"
  "lost (fst (reload_after_recovery now s)) = lost s"
  "reload_armed (fst (reload_after_recovery now s)) \<noteq> None \<longrightarrow>
     reload_armed (fst (reload_after_recovery now s)) = Some (last_reload_at (fst (reload_after_recovery now s)) + RETRY_MS)"
  by (simp_all add: reload_after_recovery_def Let_def)

lemma mark_answering_fields:
  "probing (fst (mark_answering now s)) = probing s" "probe_again (fst (mark_answering now s)) = probe_again s"
  "retrying (fst (mark_answering now s)) = retrying s" "lost (fst (mark_answering now s)) = None"
  "(reload_armed s \<noteq> None \<longrightarrow> reload_armed s = Some (last_reload_at s + RETRY_MS)) \<Longrightarrow>
    reload_armed (fst (mark_answering now s)) \<noteq> None \<longrightarrow>
     reload_armed (fst (mark_answering now s)) = Some (last_reload_at (fst (mark_answering now s)) + RETRY_MS)"
  using reload_after_recovery_fields [where now = now and s = "s\<lparr>lost := None, ever_answered := True, banner_note := [], api_ok := True\<rparr>"]
  by (auto simp: mark_answering_def Let_def split: prod.split)

lemma finish_retry_conn:
  "probing (finish_retry s) = probing s" "probe_again (finish_retry s) = probe_again s" "lost (finish_retry s) = lost s"
  "retry_armed (finish_retry s) = retry_armed s" "reload_armed (finish_retry s) = reload_armed s"
  "last_reload_at (finish_retry s) = last_reload_at s" "\<not> retrying (finish_retry s)"
  by (simp_all add: finish_retry_def Let_def)

lemma probe_answer_ok: "conn_ok s \<Longrightarrow> conn_ok (fst (probe_answer t now a s))"
proof -
  assume ok: "conn_ok s"
  show ?thesis
  proof (cases "probe_again s")
    case True
    then have "probe_answer t now a s = probe t (s\<lparr>probing := False, probe_again := False\<rparr>)"
      by (simp add: probe_answer_def)
    moreover have "conn_ok (fst (probe t (s\<lparr>probing := False, probe_again := False\<rparr>)))"
      using conn_okD [OF ok] by (intro probe_ok) simp_all
    ultimately show ?thesis by simp
  next
    case False
    then have pa: "probe_answer t now a s = (let (s2, rs) = (case a of Inl e \<Rightarrow> (mark_lost now e (s\<lparr>probing := False\<rparr>), [])
          | Inr _ \<Rightarrow> mark_answering now (s\<lparr>probing := False\<rparr>));
        s3 = finish_retry s2 in (if lost s3 \<noteq> None then schedule_probe s3 else s3, rs))"
      by (simp add: probe_answer_def Let_def)
    define s2 where "s2 = (case a of Inl e \<Rightarrow> mark_lost now e (s\<lparr>probing := False\<rparr>)
        | Inr _ \<Rightarrow> fst (mark_answering now (s\<lparr>probing := False\<rparr>)))"
    have "fst (probe_answer t now a s) =
        (if lost (finish_retry s2) \<noteq> None then schedule_probe (finish_retry s2) else finish_retry s2)"
      unfolding pa s2_def by (cases a) (simp_all add: Let_def split_beta)
    moreover have "\<not> probe_again s2 \<and> (reload_armed s2 \<noteq> None \<longrightarrow> reload_armed s2 = Some (last_reload_at s2 + RETRY_MS))"
    proof (cases a)
      case (Inl e)
      with False conn_okD(2) [OF ok] show ?thesis by (simp add: s2_def mark_lost_def Let_def)
    next
      case (Inr u)
      with False conn_okD(2) [OF ok] mark_answering_fields [where now = now and s = "s\<lparr>probing := False\<rparr>"] show ?thesis
        by (simp add: s2_def)
    qed
    ultimately show ?thesis
      by (simp add: conn_ok_def schedule_probe_def finish_retry_conn)
  qed
qed

lemma if_cases2: "(if b then x else y) = y \<or> (if b then x else y) = x"
  by simp

lemma if_cases3: "(if b then x else if c then y else z) = x \<or> (if b then x else if c then y else z) = y \<or>
    (if b then x else if c then y else z) = z"
  by simp

lemma outcome_cases:
  obtains "on_api_outcome t outcome s = (s, [])" | "on_api_outcome t outcome s = (s\<lparr>ever_answered := True\<rparr>, [])"
  | "on_api_outcome t outcome s = probe t s" | "on_api_outcome t outcome s = probe t (s\<lparr>ever_answered := True\<rparr>)"
proof -
  define s1 where "s1 = (if outcome = ''answered'' then s\<lparr>ever_answered := True\<rparr> else s)"
  have "s1 = s \<or> s1 = s\<lparr>ever_answered := True\<rparr>" unfolding s1_def by (rule if_cases2)
  moreover have "on_api_outcome t outcome s = (s, []) \<or> on_api_outcome t outcome s = probe t s1 \<or>
      on_api_outcome t outcome s = (s1, [])"
    unfolding on_api_outcome_def Let_def s1_def [symmetric] by (rule if_cases3)
  ultimately show ?thesis using that by metis
qed

lemma conn_step_ok:
  assumes ok: "conn_ok s"
  shows "conn_ok (fst (conn_step e s))"
proof -
  note d = conn_okD [OF ok]
  have pr: "conn_ok (fst (probe t s))" for t using d by (rule probe_ok)
  have pe: "conn_ok (fst (probe t (s\<lparr>ever_answered := True\<rparr>)))" for t using d by (intro probe_ok) simp_all
  have pa: "conn_ok (fst (probe t (s\<lparr>retry_armed := False\<rparr>)))" for t using d by (intro probe_ok) simp_all
  have pt: "conn_ok (fst (probe t (s\<lparr>retrying := True\<rparr>)))" for t using d by (intro probe_ok) simp_all
  show ?thesis
  proof (cases e)
    case (ApiOutcome t outcome)
    have e: "conn_ok (s\<lparr>ever_answered := True\<rparr>)" using ok conn_ok_updates(1) by blast
    have "conn_ok (fst (on_api_outcome t outcome s))"
      by (rule outcome_cases [of t outcome s]) (use ok pr pe e in \<open>simp_all only: fst_conv\<close>)
    then show ?thesis by (simp add: ApiOutcome conn_step_def)
  next
    case (ReloadTimer now)
    have r: "conn_ok (fst (reload_after_recovery now (s\<lparr>reload_armed := None\<rparr>)))"
      using ok reload_after_recovery_fields [where now = now and s = "s\<lparr>reload_armed := None\<rparr>"]
      unfolding conn_ok_def by simp
    show ?thesis
      by (cases "reload_armed s") (use ok r in \<open>simp_all add: ReloadTimer conn_step_def\<close>)
  qed (simp_all add: conn_step_def ok pr pa pt probe_answer_ok schedule_probe_def mark_page_loaded_def conn_ok_updates)
qed

lemma conn_run_ok: "conn_ok (conn_run es)"
proof (induction es rule: rev_induct)
  case Nil
  then show ?case by (simp add: conn_run_def initial_connection_def conn_ok_def)
next
  case (snoc e es)
  then show ?case using conn_step_ok by (simp add: conn_run_def)
qed

lemma probe_keeps_outage:
  "lost (fst (probe t s)) \<in> {None, lost s}" "ConnectionRestored \<notin> set (snd (probe t s))"
  "t \<Longrightarrow> lost (fst (probe t s)) = lost s"
  by (simp_all add: probe_def finish_retry_def Let_def)

lemma outcome_keeps_outage:
  "lost (fst (on_api_outcome t outcome s)) \<in> {None, lost s} \<and>
   ConnectionRestored \<notin> set (snd (on_api_outcome t outcome s)) \<and>
   (t \<longrightarrow> lost (fst (on_api_outcome t outcome s)) = lost s)"
proof -
  have p: "lost (fst (probe t s')) \<in> {None, lost s} \<and> ConnectionRestored \<notin> set (snd (probe t s')) \<and>
      (t \<longrightarrow> lost (fst (probe t s')) = lost s)" if "lost s' = lost s" for s'
    using probe_keeps_outage [of t s'] that by simp
  have e: "lost (s\<lparr>ever_answered := True\<rparr>) = lost s" by simp
  show ?thesis by (rule outcome_cases [of t outcome s]) (use p e in \<open>simp_all only: fst_conv snd_conv\<close>, simp_all)
qed

text \<open>C35
  An outage is never forgotten. After any sequence of answers, timers, clicks and token changes, a
  lost connection has a probe on its way or one scheduled, so the page finds back by itself; and
  only a probe decides: the outcome of any other request never marks the connection lost and
  never reports it as restored.
\<close>

theorem outage_is_always_probed:
  "(lost (conn_run es) \<noteq> None \<longrightarrow> probing (conn_run es) \<or> retry_armed (conn_run es)) \<and>
   (\<forall>t outcome. lost (fst (conn_step (ApiOutcome t outcome) (conn_run es))) \<in> {None, lost (conn_run es)} \<and>
      ConnectionRestored \<notin> set (snd (conn_step (ApiOutcome t outcome) (conn_run es))) \<and>
      (t \<longrightarrow> lost (fst (conn_step (ApiOutcome t outcome) (conn_run es))) = lost (conn_run es)))"
  using conn_run_ok [of es] outcome_keeps_outage [of _ _ "conn_run es"]
  unfolding conn_ok_def conn_step_def conn_event.case by blast

theorem outage_is_always_probed_witness:
  "let es = [ApiOutcome True ''unreachable'', ProbeAnswer True 0 (Inl no_answer)] in
     lost (conn_run es) \<noteq> None \<and> (probing (conn_run es) \<or> retry_armed (conn_run es))"
proof -
  have "lost (conn_run [ApiOutcome True ''unreachable'', ProbeAnswer True 0 (Inl no_answer)]) \<noteq> None"
    by (simp add: conn_run_def conn_step_def initial_connection_def conn_ops Let_def)
  with outage_is_always_probed show ?thesis unfolding Let_def by blast
qed

section \<open>No request loop\<close>

text \<open>The times at which the page was reloaded.\<close>

definition event_time :: "conn_event \<Rightarrow> int option" where
  "event_time e = (case e of ProbeAnswer t now a \<Rightarrow> Some now | ReloadTimer now \<Rightarrow> Some now | _ \<Rightarrow> None)"

fun reload_times :: "connection \<Rightarrow> conn_event list \<Rightarrow> int list" where
  "reload_times s [] = []"
| "reload_times s (e # es) =
     (if ReloadPage \<in> set (snd (conn_step e s)) then [the (event_time e)] else []) @ reload_times (fst (conn_step e s)) es"

lemma probe_reloads: "ReloadPage \<notin> set (snd (probe t s))" "last_reload_at (fst (probe t s)) = last_reload_at s"
  by (simp_all add: probe_def finish_retry_def Let_def)

text \<open>What a step does to the time of the last reload: it keeps it, or reloads a full interval later.\<close>

definition reload_effect :: "int option \<Rightarrow> connection \<Rightarrow> connection \<times> conn_request list \<Rightarrow> bool" where
  "reload_effect t s r \<longleftrightarrow> (if ReloadPage \<in> set (snd r)
     then (\<exists>now. t = Some now \<and> last_reload_at s + RETRY_MS \<le> now \<and> last_reload_at (fst r) = now)
     else last_reload_at (fst r) = last_reload_at s)"

lemma reload_effect_quiet:
  "\<lbrakk>ReloadPage \<notin> set (snd r); last_reload_at (fst r) = last_reload_at s\<rbrakk> \<Longrightarrow> reload_effect t s r"
  by (simp add: reload_effect_def)

lemma recovery_effect: "last_reload_at s' = last_reload_at s \<Longrightarrow> reload_effect (Some now) s (reload_after_recovery now s')"
  by (simp add: reload_effect_def reload_after_recovery_def Let_def)

lemma answering_effect:
  assumes "last_reload_at s' = last_reload_at s"
  shows "reload_effect (Some now) s (mark_answering now s')"
proof -
  define s1 where "s1 = s'\<lparr>lost := None, ever_answered := True, banner_note := [], api_ok := True\<rparr>"
  have r: "reload_effect (Some now) s (reload_after_recovery now s1)"
    using assms by (intro recovery_effect) (simp add: s1_def)
  have "mark_answering now s' = (let toast = (if lost s' \<noteq> None then [ConnectionRestored] else []) in
      if lost s' \<noteq> None \<or> \<not> api_ok s'
      then (fst (reload_after_recovery now s1), toast @ snd (reload_after_recovery now s1)) else (s1, toast))"
    by (simp add: mark_answering_def s1_def Let_def split_beta)
  moreover have "ReloadPage \<in> set (toast @ snd (reload_after_recovery now s1)) \<longleftrightarrow>
      ReloadPage \<in> set (snd (reload_after_recovery now s1))" if "set toast \<subseteq> {ConnectionRestored}" for toast
    using that by auto
  ultimately show ?thesis
    by (cases "lost s' \<noteq> None \<or> \<not> api_ok s'")
      (use r assms in \<open>simp_all only: Let_def if_True if_False simp_thms reload_effect_def fst_conv snd_conv\<close>,
       auto simp: s1_def)
qed

lemma reload_effect_cong:
  "\<lbrakk>reload_effect t s r; snd r' = snd r; last_reload_at (fst r') = last_reload_at (fst r)\<rbrakk> \<Longrightarrow> reload_effect t s r'"
  by (simp add: reload_effect_def)

lemma finish_retry_fields: "lost (finish_retry s) = lost s" "last_reload_at (finish_retry s) = last_reload_at s"
  by (simp_all add: finish_retry_def Let_def)

lemma probe_answer_effect: "reload_effect (Some now) s (probe_answer t now a s)"
proof (cases "probe_again s")
  case True
  then show ?thesis by (simp add: probe_answer_def reload_effect_quiet probe_reloads)
next
  case False
  show ?thesis
  proof (cases a)
    case (Inl e)
    with False show ?thesis
      by (simp add: probe_answer_def reload_effect_quiet mark_lost_def finish_retry_fields schedule_probe_def Let_def)
  next
    case (Inr u)
    have "reload_effect (Some now) s (mark_answering now (s\<lparr>probing := False\<rparr>))" by (rule answering_effect) simp
    then show ?thesis
      by (rule reload_effect_cong)
        (use Inr False in \<open>simp_all add: probe_answer_def finish_retry_fields schedule_probe_def Let_def split_beta\<close>)
  qed
qed

lemma outcome_effect: "reload_effect None s (on_api_outcome t outcome s)"
  by (rule outcome_cases [of t outcome s]) (simp_all add: probe_reloads reload_effect_quiet)

lemma step_effect: "reload_effect (event_time e) s (conn_step e s)"
proof (cases e)
  case (ApiOutcome t outcome)
  then show ?thesis using outcome_effect by (simp add: conn_step_def event_time_def)
next
  case (ProbeAnswer t now a)
  then show ?thesis using probe_answer_effect by (simp add: conn_step_def event_time_def reload_effect_quiet)
next
  case (ReloadTimer now)
  have r: "reload_effect (Some now) s (reload_after_recovery now (s\<lparr>reload_armed := None\<rparr>))" by (rule recovery_effect) simp
  show ?thesis
    by (cases "reload_armed s") (use r in \<open>simp_all add: ReloadTimer conn_step_def event_time_def reload_effect_quiet\<close>)
qed (simp_all add: conn_step_def event_time_def reload_effect_quiet probe_reloads schedule_probe_def mark_page_loaded_def)

lemma reload_times_spaced:
  "sorted_wrt (\<lambda>a b. a + RETRY_MS \<le> b) (last_reload_at s # reload_times s es)"
proof (induction es arbitrary: s)
  case (Cons e es)
  show ?case
  proof (cases "ReloadPage \<in> set (snd (conn_step e s))")
    case True
    with step_effect [of e s] obtain now where n: "event_time e = Some now" "last_reload_at s + RETRY_MS \<le> now"
        "last_reload_at (fst (conn_step e s)) = now" by (auto simp: reload_effect_def)
    have "0 \<le> RETRY_MS" by (simp add: RETRY_MS_def)
    with Cons [of "fst (conn_step e s)"] n True show ?thesis by auto
  next
    case False
    with Cons [of "fst (conn_step e s)"] step_effect [of e s] False show ?thesis by (simp add: reload_effect_def)
  qed
qed simp

text \<open>
  Recovering over and over never turns into a loop of requests: whatever happens, two reloads of
  the page on screen are at least the retry interval of five seconds apart.
\<close>

theorem reloads_are_spaced:
  "sorted_wrt (\<lambda>a b. a + 5000 \<le> b) (reload_times initial_connection es)"
  using reload_times_spaced [of initial_connection es] by (simp add: RETRY_MS_def)

end
