(* ===== verification/Router.thy ===== *)
theory Router
  imports Connection Modal
begin

text \<open>
  \<open>core/router.js\<close>: which page is on screen, how an address names it, what guards unsaved edits on the
  way to another page, and which of the loads that a navigation starts may still finish.

  A navigation runs up to its first \<open>await\<close> at once; what is left of it waits in \<open>waiting\<close> under
  its number, and any order of answers may wake it. What the browser and the pages do on its behalf
  are the actions a step returns.
\<close>

section \<open>Pages and addresses\<close>

definition pages :: "string list" where
  "pages = [''overview'', ''settings'', ''token'', ''peers'', ''routes'', ''topology'', ''inbound'', ''geoblocking'',
     ''pending'', ''stats'', ''logs'']"

definition page_load_regions :: "(string \<times> string list) list" where
  "page_load_regions =
    [(''overview'', [''overview-cards'']),
     (''settings'', [''settings-tab-prefs-panel'', ''settings-tab-maint-panel'']),
     (''peers'', [''peers-table-wrap'']),
     (''routes'', [''routes-table-wrap'']),
     (''topology'', [''topology-graph-wrap'']),
     (''inbound'', [''inbound-table-wrap'']),
     (''geoblocking'', [''geo-tab-default-panel'', ''geo-tab-advanced-panel'']),
     (''pending'', [''pending-diff-panel'']),
     (''stats'', [''stats-wg-wrap'', ''stats-nft-wrap'']),
     (''logs'', [''logs-view''])]"

definition drop_first :: "char \<Rightarrow> string \<Rightarrow> string" where
  "drop_first c s = (case s of [] \<Rightarrow> [] | x # xs \<Rightarrow> if x = c then xs else s)"

text \<open>The page an address names, and its query.\<close>

definition hash_name :: "string \<Rightarrow> string" where
  "hash_name h =
     (let raw = drop_first (CHR ''#'') h;
          n = takeWhile (\<lambda>c. c \<noteq> CHR ''/'') (drop_first (CHR ''/'') (takeWhile (\<lambda>c. c \<noteq> CHR ''?'') raw)) in
      if n = [] then ''overview'' else n)"

definition parse_hash_nav_params :: "string \<Rightarrow> string" where
  "parse_hash_nav_params h = drop 1 (dropWhile (\<lambda>c. c \<noteq> CHR ''?'') (drop_first (CHR ''#'') h))"

definition page_hash :: "string \<Rightarrow> string" where
  "page_hash name = ''#/'' @ name"

section \<open>State\<close>

datatype stage = AtGate | AtPrefs | AtRefresh | AtTokenGate

record router =
  nav_seq :: nat
  current_route :: "string option"
  committed_hash :: string
  self_set_hash :: "string option"
  location_hash :: string
  hash_params :: string
  token_scope :: string
  dirty_forms :: "string set"
  dialogs_of :: dialogs
  waiting :: "(nat \<times> string \<times> stage) list"

definition initial_router :: "string set \<Rightarrow> string \<Rightarrow> router" where
  "initial_router drafts h = \<lparr>nav_seq = 0, current_route = None, committed_hash = [], self_set_hash = None,
     location_hash = h, hash_params = [], token_scope = [], dirty_forms = {}, dialogs_of = no_dialogs drafts, waiting = []\<rparr>"

datatype action =
    Shown string bool
  | DroppedCheck
  | StoppedPolling string
  | OpenedTab string string
  | StartGate
  | StartPrefs
  | StartRefresh string
  | StartPolling string
  | Highlight string
  | ConnectionStatus bool
  | NotConnected
  | RefreshBadge

text \<open>The navigation's callbacks among those of the confirm dialog: going on to a page, and staying.\<close>

definition go_callback :: "string \<Rightarrow> callback" where
  "go_callback name = PageCallback (length (takeWhile (\<lambda>p. p \<noteq> name) pages))"

definition stay_callback :: callback where
  "stay_callback = PageCallback (length pages)"

section \<open>Guards\<close>

definition form_is_dirty :: "router \<Rightarrow> bool" where
  "form_is_dirty s = (case current_route s of Some r \<Rightarrow> r \<in> dirty_forms s | None \<Rightarrow> False)"

text \<open>No target stands for the tab closing.\<close>

definition has_unsaved_edits :: "string option \<Rightarrow> router \<Rightarrow> bool" where
  "has_unsaved_edits target s \<longleftrightarrow>
     form_is_dirty s \<or> ((target = None \<or> target \<noteq> current_route s) \<and> any_open_modal_dirty (dialogs_of s))"

definition clear_page_form :: "router \<Rightarrow> router" where
  "clear_page_form s = (case current_route s of Some r \<Rightarrow> s\<lparr>dirty_forms := dirty_forms s - {r}\<rparr> | None \<Rightarrow> s)"

definition restore_committed_hash :: "router \<Rightarrow> router" where
  "restore_committed_hash s = (if location_hash s = committed_hash s then s else s\<lparr>location_hash := committed_hash s\<rparr>)"

text \<open>Callbacks of a prompt that was cancelled: the router's own puts the address back.\<close>

definition run_cancelled :: "nat list \<Rightarrow> router \<Rightarrow> router" where
  "run_cancelled ns s = (if length pages \<in> set ns then restore_committed_hash s else s)"

definition close_prompt :: "router \<Rightarrow> router" where
  "close_prompt s = (case close_confirm_modal False (dialogs_of s) of (d, ns) \<Rightarrow> run_cancelled ns (s\<lparr>dialogs_of := d\<rparr>))"

definition discard_edits_for :: "string \<Rightarrow> router \<Rightarrow> router" where
  "discard_edits_for target s =
     (let s1 = clear_page_form s in
      if Some target \<noteq> current_route s1
      then (case close_all_modals (dialogs_of s1) of (d, ns) \<Rightarrow> run_cancelled ns (s1\<lparr>dialogs_of := d\<rparr>))
      else s1)"

section \<open>Navigation\<close>

definition show_page :: "string \<Rightarrow> router \<Rightarrow> router" where
  "show_page name s =
     (let s1 = (if hash_name (location_hash s) \<noteq> name
                then s\<lparr>self_set_hash := Some (page_hash name), location_hash := page_hash name\<rparr> else s) in
      s1\<lparr>hash_params := parse_hash_nav_params (location_hash s1), committed_hash := location_hash s1\<rparr>)"

text \<open>Where a navigation ends up: the token page without a token, Overview when the token may not.\<close>

definition redirect :: "string \<Rightarrow> string \<Rightarrow> string \<Rightarrow> string" where
  "redirect tok scope name =
     (let n = (if name \<noteq> ''token'' \<and> trim tok = [] then ''token'' else name) in
      if page_needs_write_token scope n then ''overview'' else n)"

definition close_page_dialogs :: "string \<Rightarrow> router \<Rightarrow> router" where
  "close_page_dialogs name s =
     (let d0 = dialogs_of s;
          d1 = (if name \<noteq> ''routes'' then close_modal ''route-modal'' (close_modal ''route-probe-modal'' d0) else d0);
          d2 = (if name \<noteq> ''inbound'' then close_modal ''inbound-modal'' d1 else d1);
          d3 = (if name \<noteq> ''peers'' then close_modal ''peer-modal'' d2 else d2) in
      s\<lparr>dialogs_of := d3\<rparr>)"

definition stopped_polls :: "string \<Rightarrow> action list" where
  "stopped_polls name = (if name \<noteq> ''routes'' then [StoppedPolling ''routes''] else []) @
     (if name \<noteq> ''peers'' then [StoppedPolling ''peers''] else []) @ [StoppedPolling ''topology'']"

definition wait_at :: "string \<Rightarrow> stage \<Rightarrow> router \<Rightarrow> router" where
  "wait_at name st s = s\<lparr>waiting := waiting s @ [(nav_seq s, name, st)]\<rparr>"

text \<open>\<open>navigate\<close> past the guard, up to its first \<open>await\<close>.\<close>

definition leave_for :: "string \<Rightarrow> router \<Rightarrow> router" where
  "leave_for name s = (if current_route s \<noteq> Some name then (clear_page_form s)\<lparr>current_route := Some name\<rparr> else s)"

definition enter_page :: "string \<Rightarrow> bool \<Rightarrow> string \<Rightarrow> router \<Rightarrow> router \<times> action list" where
  "enter_page tok keepView name0 s =
     (let name = redirect tok (token_scope s) name0;
          s1 = s\<lparr>nav_seq := Suc (nav_seq s)\<rparr>;
          s2 = (if keepView then s1 else close_prompt s1);
          s3 = close_page_dialogs name s2;
          s4 = show_page name (leave_for name s3);
          acts = stopped_polls name @ (if current_route s3 \<noteq> Some name then [DroppedCheck] else []) @
            (if name \<noteq> ''overview'' then [StoppedPolling ''overview''] else []) @ [Shown name keepView] @
            (if name = ''settings'' \<and> \<not> keepView then [OpenedTab name ''prefs''] else []) @
            (if name = ''geoblocking'' \<and> \<not> keepView then [OpenedTab name ''default''] else []) in
      if name \<noteq> ''overview'' \<and> name \<noteq> ''token'' then (wait_at name AtGate s4, acts @ [StartGate])
      else (wait_at name AtPrefs s4, acts @ [StartPrefs]))"

definition navigate :: "string \<Rightarrow> bool \<Rightarrow> bool \<Rightarrow> string \<Rightarrow> router \<Rightarrow> router \<times> action list" where
  "navigate tok discard keepView name0 s =
     (let name = (if name0 \<in> set pages then name0 else ''overview'') in
      if \<not> discard \<and> has_unsaved_edits (Some name) s
      then (s\<lparr>dialogs_of := confirm_discard (go_callback name) (Some stay_callback) (dialogs_of s)\<rparr>, [])
      else enter_page tok keepView name s)"

text \<open>The rest of a navigation, one \<open>await\<close> after the other.\<close>

definition finish_navigation :: "router \<Rightarrow> router \<times> action list" where
  "finish_navigation s = (s, [RefreshBadge])"

definition after_gate :: "string \<Rightarrow> string \<Rightarrow> bool \<Rightarrow> router \<Rightarrow> router \<times> action list" where
  "after_gate tok name ok s =
     (if \<not> ok then (s, [])
      else if page_needs_write_token (token_scope s) name then navigate tok False False ''overview'' s
      else (wait_at name AtPrefs s, [StartPrefs]))"

definition AWAITED :: "string list" where
  "AWAITED = [''overview'', ''settings'', ''peers'', ''routes'', ''geoblocking'']"

definition after_prefs :: "string \<Rightarrow> router \<Rightarrow> router \<times> action list" where
  "after_prefs name s =
     (if name = ''token'' then (wait_at name AtTokenGate s, [StartRefresh name, StartGate])
      else if name \<in> set AWAITED then (wait_at name AtRefresh s, [StartRefresh name])
      else (case finish_navigation s of (s1, acts) \<Rightarrow>
        (s1, [StartRefresh name] @ (if name = ''topology'' then [StartPolling name] else []) @ acts)))"

definition after_refresh :: "string \<Rightarrow> router \<Rightarrow> router \<times> action list" where
  "after_refresh name s = (case finish_navigation s of (s1, acts) \<Rightarrow>
     (s1, (if name = ''peers'' \<or> name = ''routes'' then [Highlight name] else []) @
          (if name = ''overview'' \<or> name = ''routes'' then [StartPolling name] else []) @ acts))"

definition after_token_gate :: "string \<Rightarrow> bool \<Rightarrow> router \<Rightarrow> router \<times> action list" where
  "after_token_gate tok ok s = (case finish_navigation s of (s1, acts) \<Rightarrow>
     (s1, (if trim tok \<noteq> [] then ConnectionStatus ok else NotConnected) # acts))"

text \<open>An answer wakes one waiting navigation; one that is no longer the newest stops there.\<close>

definition resume :: "string \<Rightarrow> nat \<Rightarrow> bool \<Rightarrow> string \<Rightarrow> router \<Rightarrow> router \<times> action list" where
  "resume tok i ok scope s =
     (if i \<ge> length (waiting s) then (s, [])
      else (case waiting s ! i of (n, name, st) \<Rightarrow>
        (let s0 = s\<lparr>waiting := take i (waiting s) @ drop (Suc i) (waiting s)\<rparr>;
             s1 = (if (st = AtGate \<or> st = AtTokenGate) \<and> ok then s0\<lparr>token_scope := scope\<rparr> else s0) in
         if n \<noteq> nav_seq s1 then (s1, [])
         else (case st of
             AtGate \<Rightarrow> after_gate tok name ok s1
           | AtPrefs \<Rightarrow> after_prefs name s1
           | AtRefresh \<Rightarrow> after_refresh name s1
           | AtTokenGate \<Rightarrow> after_token_gate tok ok s1))))"

section \<open>What sets a navigation off\<close>

definition reload_current_page :: "string \<Rightarrow> router \<Rightarrow> router \<times> action list" where
  "reload_current_page tok s = (case current_route s of
     Some r \<Rightarrow> if \<not> has_unsaved_edits (Some r) s then navigate tok False True r s else (s, [RefreshBadge])
   | None \<Rightarrow> (s, [RefreshBadge]))"

definition refresh_after_undo :: "string \<Rightarrow> router \<Rightarrow> router \<times> action list" where
  "refresh_after_undo tok s = (case current_route s of
     Some r \<Rightarrow> if \<not> has_unsaved_edits (Some r) s then navigate tok False False r s else (s, [])
   | None \<Rightarrow> (s, []))"

definition on_hash :: "string \<Rightarrow> router \<Rightarrow> router \<times> action list" where
  "on_hash tok s =
     (let isOwnHash = (self_set_hash s = Some (location_hash s));
          s1 = s\<lparr>self_set_hash := None\<rparr> in
      if isOwnHash then (s1, [])
      else (let raw = (if location_hash s1 = [] then ''#/overview'' else location_hash s1);
                s2 = s1\<lparr>hash_params := parse_hash_nav_params raw\<rparr> in
        navigate tok False False (hash_name raw) s2))"

text \<open>OK in the prompt: the edits go, then the navigation goes on without asking again.\<close>

definition run_confirmed :: "string \<Rightarrow> nat list \<Rightarrow> router \<Rightarrow> router \<times> action list" where
  "run_confirmed tok ns s = (case ns of
     [n] \<Rightarrow> if n < length pages then navigate tok True False (pages ! n) (discard_edits_for (pages ! n) s) else (s, [])
   | _ \<Rightarrow> (s, []))"

datatype router_event =
    NavClick string bool string
  | HashTyped string
  | HashEvent string
  | Resumed string nat bool string
  | PromptOk string
  | PromptCancel
  | Recovered string
  | Undone string
  | FormEdited bool
  | DialogOpened string
  | DialogEdited string
  | DialogDismissed string

definition router_step :: "router_event \<Rightarrow> router \<Rightarrow> router \<times> action list" where
  "router_step e s = (case e of
     NavClick tok apiOk name \<Rightarrow>
       (if nav_link_disabled apiOk (token_scope s) name then (s, []) else navigate tok False False name s)
   | HashTyped h \<Rightarrow> (s\<lparr>location_hash := h\<rparr>, [])
   | HashEvent tok \<Rightarrow> on_hash tok s
   | Resumed tok i ok scope \<Rightarrow> resume tok i ok scope s
   | PromptOk tok \<Rightarrow> (case confirm_ok (dialogs_of s) of (d, ns) \<Rightarrow> run_confirmed tok ns (s\<lparr>dialogs_of := d\<rparr>))
   | PromptCancel \<Rightarrow> (close_prompt s, [])
   | Recovered tok \<Rightarrow> reload_current_page tok s
   | Undone tok \<Rightarrow> refresh_after_undo tok s
   | FormEdited b \<Rightarrow>
       (case current_route s of
          Some r \<Rightarrow> (s\<lparr>dirty_forms := (if b then insert r (dirty_forms s) else dirty_forms s - {r})\<rparr>, [])
        | None \<Rightarrow> (s, []))
   | DialogOpened d \<Rightarrow> (s\<lparr>dialogs_of := open_modal d (dialogs_of s)\<rparr>, [])
   | DialogEdited d \<Rightarrow> (s\<lparr>dialogs_of := (dialogs_of s)\<lparr>form_dirty := (form_dirty (dialogs_of s))(d := True)\<rparr>\<rparr>, [])
   | DialogDismissed d \<Rightarrow>
       (case dismiss_modal d (dialogs_of s) of (ds, ns) \<Rightarrow> (run_cancelled ns (s\<lparr>dialogs_of := ds\<rparr>), [])))"

definition router_run :: "router_event list \<Rightarrow> router \<Rightarrow> router" where
  "router_run es s = foldl (\<lambda>s e. fst (router_step e s)) s es"

section \<open>What each operation leaves alone\<close>

lemma run_cancelled_fields [simp]:
  "nav_seq (run_cancelled ns s) = nav_seq s" "current_route (run_cancelled ns s) = current_route s"
  "waiting (run_cancelled ns s) = waiting s" "committed_hash (run_cancelled ns s) = committed_hash s"
  "dirty_forms (run_cancelled ns s) = dirty_forms s" "token_scope (run_cancelled ns s) = token_scope s"
  "dialogs_of (run_cancelled ns s) = dialogs_of s" "self_set_hash (run_cancelled ns s) = self_set_hash s"
  by (simp_all add: run_cancelled_def restore_committed_hash_def)

lemma close_prompt_fields [simp]:
  "nav_seq (close_prompt s) = nav_seq s" "current_route (close_prompt s) = current_route s"
  "waiting (close_prompt s) = waiting s" "committed_hash (close_prompt s) = committed_hash s"
  "dirty_forms (close_prompt s) = dirty_forms s" "token_scope (close_prompt s) = token_scope s"
  by (simp_all add: close_prompt_def split_beta)

lemma close_page_dialogs_fields [simp]:
  "nav_seq (close_page_dialogs n s) = nav_seq s" "current_route (close_page_dialogs n s) = current_route s"
  "waiting (close_page_dialogs n s) = waiting s" "committed_hash (close_page_dialogs n s) = committed_hash s"
  "dirty_forms (close_page_dialogs n s) = dirty_forms s" "token_scope (close_page_dialogs n s) = token_scope s"
  by (simp_all add: close_page_dialogs_def Let_def)

lemma clear_page_form_fields [simp]:
  "nav_seq (clear_page_form s) = nav_seq s" "current_route (clear_page_form s) = current_route s"
  "waiting (clear_page_form s) = waiting s" "committed_hash (clear_page_form s) = committed_hash s"
  "token_scope (clear_page_form s) = token_scope s" "dialogs_of (clear_page_form s) = dialogs_of s"
  by (simp_all add: clear_page_form_def split: option.split)

lemma discard_edits_for_fields [simp]:
  "nav_seq (discard_edits_for t s) = nav_seq s" "current_route (discard_edits_for t s) = current_route s"
  "waiting (discard_edits_for t s) = waiting s" "committed_hash (discard_edits_for t s) = committed_hash s"
  "token_scope (discard_edits_for t s) = token_scope s"
  by (simp_all add: discard_edits_for_def Let_def split_beta)

lemma leave_for_fields [simp]:
  "nav_seq (leave_for n s) = nav_seq s" "current_route (leave_for n s) = Some n"
  "waiting (leave_for n s) = waiting s" "token_scope (leave_for n s) = token_scope s"
  by (simp_all add: leave_for_def)

lemma show_page_fields [simp]:
  "nav_seq (show_page n s) = nav_seq s" "current_route (show_page n s) = current_route s"
  "waiting (show_page n s) = waiting s" "token_scope (show_page n s) = token_scope s"
  "committed_hash (show_page n s) = location_hash (show_page n s)" "dirty_forms (show_page n s) = dirty_forms s"
  by (simp_all add: show_page_def Let_def)

lemma wait_at_fields [simp]:
  "nav_seq (wait_at n st s) = nav_seq s" "current_route (wait_at n st s) = current_route s"
  "waiting (wait_at n st s) = waiting s @ [(nav_seq s, n, st)]" "token_scope (wait_at n st s) = token_scope s"
  "committed_hash (wait_at n st s) = committed_hash s" "location_hash (wait_at n st s) = location_hash s"
  "dirty_forms (wait_at n st s) = dirty_forms s" "self_set_hash (wait_at n st s) = self_set_hash s"
  by (simp_all add: wait_at_def)

lemma hash_name_page: "name \<in> set pages \<Longrightarrow> hash_name (page_hash name) = name"
  by (auto simp: pages_def hash_name_def page_hash_def drop_first_def)

lemma show_page_hash: "name \<in> set pages \<Longrightarrow> hash_name (location_hash (show_page name s)) = name"
  by (simp add: show_page_def Let_def hash_name_page)

lemma redirect_page: "name \<in> set pages \<Longrightarrow> redirect tok scope name \<in> set pages"
  by (simp add: redirect_def pages_def Let_def)

section \<open>The page on screen\<close>

text \<open>
  The address last settled on names the page on screen, and of the navigations that wait only the
  newest may go on, which is one to that page.
\<close>

definition router_ok :: "router \<Rightarrow> bool" where
  "router_ok s \<longleftrightarrow>
     (\<forall>r. current_route s = Some r \<longrightarrow> r \<in> set pages \<and> hash_name (committed_hash s) = r) \<and>
     (\<forall>(n, name, st) \<in> set (waiting s). n \<le> nav_seq s \<and> (n = nav_seq s \<longrightarrow> current_route s = Some name))"

definition loads_on_screen :: "router \<times> action list \<Rightarrow> bool" where
  "loads_on_screen r \<longleftrightarrow> (\<forall>n. StartRefresh n \<in> set (snd r) \<or> StartPolling n \<in> set (snd r) \<or> Highlight n \<in> set (snd r) \<longrightarrow>
     current_route (fst r) = Some n)"

definition step_ok :: "router \<times> action list \<Rightarrow> bool" where
  "step_ok r \<longleftrightarrow> router_ok (fst r) \<and> loads_on_screen r"

lemma router_ok_cong:
  "\<lbrakk>router_ok s; nav_seq s' = nav_seq s; current_route s' = current_route s; waiting s' = waiting s;
    committed_hash s' = committed_hash s\<rbrakk> \<Longrightarrow> router_ok s'"
  by (simp add: router_ok_def)

lemma router_ok_subset:
  "\<lbrakk>router_ok s; set (waiting s') \<subseteq> set (waiting s); nav_seq s' = nav_seq s; current_route s' = current_route s;
    committed_hash s' = committed_hash s\<rbrakk> \<Longrightarrow> router_ok s'"
  unfolding router_ok_def by auto

lemma step_ok_quiet: "router_ok s \<Longrightarrow> step_ok (s, [])" "router_ok s \<Longrightarrow> step_ok (s, [RefreshBadge])"
  by (simp_all add: step_ok_def loads_on_screen_def)

lemma router_ok_wait:
  "\<lbrakk>router_ok s; current_route s = Some name\<rbrakk> \<Longrightarrow> router_ok (wait_at name st s)"
  by (auto simp: router_ok_def)

lemma enter_page_ok:
  assumes ok: "router_ok s" and page: "name0 \<in> set pages"
  shows "step_ok (enter_page tok keepView name0 s)"
proof -
  define name where "name = redirect tok (token_scope s) name0"
  define s3 where "s3 = close_page_dialogs name (if keepView then s\<lparr>nav_seq := Suc (nav_seq s)\<rparr> else close_prompt (s\<lparr>nav_seq := Suc (nav_seq s)\<rparr>))"
  define s4 where "s4 = show_page name (leave_for name s3)"
  have name: "name \<in> set pages" using page by (simp add: name_def redirect_page)
  have s3: "nav_seq s3 = Suc (nav_seq s)" "waiting s3 = waiting s" by (simp_all add: s3_def)
  have "\<forall>(n, nm, st) \<in> set (waiting s). n < Suc (nav_seq s)" using ok by (auto simp: router_ok_def)
  then have w: "\<forall>(n, nm, st) \<in> set (waiting s4). n < nav_seq s4" by (simp add: s4_def s3)
  have h: "hash_name (committed_hash s4) = name" unfolding s4_def show_page_fields by (rule show_page_hash [OF name])
  have c: "current_route s4 = Some name" by (simp add: s4_def)
  have s4: "router_ok s4" unfolding router_ok_def c using w h name by auto
  have "\<exists>st acts. enter_page tok keepView name0 s = (wait_at name st s4, acts) \<and>
      (\<forall>n. StartRefresh n \<notin> set acts \<and> StartPolling n \<notin> set acts \<and> Highlight n \<notin> set acts)"
    unfolding enter_page_def Let_def name_def [symmetric] s3_def [symmetric] s4_def [symmetric]
    by (cases "name \<noteq> ''overview'' \<and> name \<noteq> ''token''") (auto simp: stopped_polls_def)
  with router_ok_wait [OF s4 c] show ?thesis by (auto simp: step_ok_def loads_on_screen_def)
qed

lemma navigate_ok:
  assumes "router_ok s"
  shows "step_ok (navigate tok discard keepView name s)"
proof -
  define n where "n = (if name \<in> set pages then name else ''overview'')"
  have "n \<in> set pages" by (simp add: n_def pages_def)
  then have e: "step_ok (enter_page tok keepView n s)" by (rule enter_page_ok [OF assms])
  have q: "step_ok (s\<lparr>dialogs_of := d\<rparr>, [])" for d
    by (rule step_ok_quiet(1), rule router_ok_cong [OF assms]) simp_all
  show ?thesis unfolding navigate_def Let_def n_def [symmetric] using e q by (simp only: split: if_split) blast
qed

lemma resume_ok:
  assumes ok: "router_ok s"
  shows "step_ok (resume tok i ok' scope s)"
proof (cases "i < length (waiting s)")
  case False
  with ok show ?thesis by (simp add: resume_def step_ok_quiet)
next
  case True
  then have le: "\<not> length (waiting s) \<le> i" by simp
  obtain n name st where w: "waiting s ! i = (n, name, st)" by (metis prod_cases3)
  define s1 where "s1 = (let s0 = s\<lparr>waiting := take i (waiting s) @ drop (Suc i) (waiting s)\<rparr> in
      if (st = AtGate \<or> st = AtTokenGate) \<and> ok' then s0\<lparr>token_scope := scope\<rparr> else s0)"
  have s1: "nav_seq s1 = nav_seq s" "current_route s1 = current_route s" "committed_hash s1 = committed_hash s"
    "waiting s1 = take i (waiting s) @ drop (Suc i) (waiting s)"
    by (simp_all add: s1_def Let_def)
  have "set (waiting s1) \<subseteq> set (waiting s)" unfolding s1 by (auto dest: in_set_takeD in_set_dropD)
  then have ok1: "router_ok s1" by (rule router_ok_subset [OF ok _ s1(1-3)])
  have r: "resume tok i ok' scope s = (if n \<noteq> nav_seq s1 then (s1, []) else (case st of
      AtGate \<Rightarrow> after_gate tok name ok' s1 | AtPrefs \<Rightarrow> after_prefs name s1
    | AtRefresh \<Rightarrow> after_refresh name s1 | AtTokenGate \<Rightarrow> after_token_gate tok ok' s1))"
    unfolding resume_def if_not_P [OF le] w prod.case Let_def s1_def by (rule refl)
  show ?thesis
  proof (cases "n = nav_seq s1")
    case False
    with r ok1 show ?thesis by (simp add: step_ok_quiet)
  next
    case newest: True
    have "(n, name, st) \<in> set (waiting s)" using True w by (metis nth_mem)
    with ok newest s1 have cur: "current_route s1 = Some name" by (auto simp: router_ok_def)
    note wt = router_ok_wait [OF ok1 cur]
    have "step_ok (after_gate tok name ok' s1)"
      using ok1 wt navigate_ok [OF ok1] by (simp add: after_gate_def step_ok_quiet) (simp add: step_ok_def loads_on_screen_def)
    moreover have "step_ok (after_prefs name s1)"
      using ok1 wt cur
      by (cases "name = ''token''") (auto simp: after_prefs_def finish_navigation_def step_ok_def loads_on_screen_def)
    moreover have "step_ok (after_refresh name s1)"
      using ok1 cur by (simp add: after_refresh_def finish_navigation_def step_ok_def loads_on_screen_def)
    moreover have "step_ok (after_token_gate tok ok' s1)"
      using ok1 by (simp add: after_token_gate_def finish_navigation_def step_ok_def loads_on_screen_def)
    ultimately show ?thesis using r newest by (cases st) simp_all
  qed
qed

lemma run_confirmed_ok: "router_ok s \<Longrightarrow> step_ok (run_confirmed tok ns s)"
proof -
  assume ok: "router_ok s"
  have d: "router_ok (discard_edits_for t s)" for t by (rule router_ok_cong [OF ok]) simp_all
  have n: "step_ok (navigate tok True False t (discard_edits_for t s))" for t by (rule navigate_ok [OF d])
  show ?thesis unfolding run_confirmed_def using n step_ok_quiet(1) [OF ok] by (simp split: list.split)
qed

lemma router_step_ok:
  assumes ok: "router_ok s"
  shows "step_ok (router_step e s)"
proof -
  have quiet: "step_ok (s', [])" if "nav_seq s' = nav_seq s" "current_route s' = current_route s"
      "waiting s' = waiting s" "committed_hash s' = committed_hash s" for s'
    by (rule step_ok_quiet(1), rule router_ok_cong [OF ok that])
  have ok': "router_ok (s\<lparr>self_set_hash := x, hash_params := y\<rparr>)" for x y
    by (rule router_ok_cong [OF ok]) simp_all
  have okd: "router_ok (s\<lparr>dialogs_of := d\<rparr>)" for d by (rule router_ok_cong [OF ok]) simp_all
  show ?thesis
  proof (cases e)
    case (NavClick tok apiOk name)
    then show ?thesis using navigate_ok [OF ok] step_ok_quiet [OF ok] by (simp add: router_step_def)
  next
    case (HashEvent tok)
    have "step_ok (on_hash tok s)"
      unfolding on_hash_def Let_def
      by (simp only: split: if_split) (use quiet [of "s\<lparr>self_set_hash := None\<rparr>"] navigate_ok [OF ok'] in simp)
    then show ?thesis by (simp add: HashEvent router_step_def)
  next
    case (Resumed tok i ok' scope)
    then show ?thesis using resume_ok [OF ok] by (simp add: router_step_def)
  next
    case (PromptOk tok)
    then show ?thesis using run_confirmed_ok [OF okd] by (simp add: router_step_def split_beta)
  next
    case (Recovered tok)
    then show ?thesis using navigate_ok [OF ok] step_ok_quiet [OF ok]
      by (simp add: router_step_def reload_current_page_def split: option.split)
  next
    case (Undone tok)
    then show ?thesis using navigate_ok [OF ok] step_ok_quiet [OF ok]
      by (simp add: router_step_def refresh_after_undo_def split: option.split)
  next
    case (FormEdited b)
    then show ?thesis using step_ok_quiet [OF ok] by (auto simp: router_step_def split: option.split intro!: quiet)
  qed (simp_all add: router_step_def split_beta quiet)
qed

lemma router_run_ok: "router_ok (router_run es (initial_router drafts h))"
proof (induction es rule: rev_induct)
  case Nil
  then show ?case by (simp add: router_run_def initial_router_def router_ok_def)
next
  case (snoc e es)
  then show ?case using router_step_ok by (simp add: router_run_def step_ok_def)
qed

text \<open>C10
  What a navigation loads is what is on screen. However the clicks, address changes, prompts and
  answers interleave, the page whose data is fetched, whose polling starts or whose row is highlighted is
  the page on screen at that moment, which is one of the pages and the one the committed address
  names. A slower earlier navigation never loads over a later one.
\<close>

theorem only_the_page_on_screen_loads:
  "let s = router_run es (initial_router drafts h); r = router_step e s in
     (\<forall>name. StartRefresh name \<in> set (snd r) \<or> StartPolling name \<in> set (snd r) \<or> Highlight name \<in> set (snd r) \<longrightarrow>
        current_route (fst r) = Some name) \<and>
     (\<forall>name. current_route (fst r) = Some name \<longrightarrow> name \<in> set pages \<and> hash_name (committed_hash (fst r)) = name)"
  using router_step_ok [OF router_run_ok, of e es drafts h]
  unfolding Let_def step_ok_def loads_on_screen_def router_ok_def by blast

theorem only_the_page_on_screen_loads_witness:
  "let s = router_run [NavClick ''t'' True ''peers'', Resumed ''t'' 0 True ''write''] (initial_router {} [])
   in current_route (fst (router_step (Resumed ''t'' 0 True ''write'') s)) = Some ''peers''"
proof -
  have "StartRefresh ''peers'' \<in> set (snd (router_step (Resumed ''t'' 0 True ''write'')
      (router_run [NavClick ''t'' True ''peers'', Resumed ''t'' 0 True ''write''] (initial_router {} []))))"
    by code_simp
  with only_the_page_on_screen_loads
    [of "[NavClick ''t'' True ''peers'', Resumed ''t'' 0 True ''write'']" "{}" "[]" "Resumed ''t'' 0 True ''write''"]
  show ?thesis unfolding Let_def by blast
qed

section \<open>Unsaved edits\<close>

lemma confirm_discard_fields:
  "on_confirm (confirm_discard c k d) = Some c" "on_cancel (confirm_discard c k d) = k"
  "is_open CONFIRM (confirm_discard c k d)"
  "draft_forms (confirm_discard c k d) = draft_forms d"
  "x \<noteq> CONFIRM \<Longrightarrow> form_dirty (confirm_discard c k d) x = form_dirty d x"
  by (simp_all add: confirm_discard_def open_confirm_modal_def open_modal_def forget_form_def is_open_def
      sync_background_def Let_def)

lemma close_confirm_form: "x \<noteq> CONFIRM \<Longrightarrow> form_dirty (close_modal CONFIRM d) x = form_dirty d x"
  by (simp add: close_modal_def forget_form_def Let_def)

lemma prompt_cancelled:
  "close_confirm_modal False (confirm_discard c (Some stay_callback) d) =
     (close_modal CONFIRM (reset_confirm (confirm_discard c (Some stay_callback) d)), [length pages])"
  by (simp add: close_confirm_modal_def confirm_discard_fields run_callback_def stay_callback_def Let_def)

lemma prompt_confirmed:
  "confirm_ok (confirm_discard (PageCallback n) k d) =
     (close_modal CONFIRM (reset_confirm (confirm_discard (PageCallback n) k d)), [n])"
  by (simp add: confirm_ok_def close_confirm_modal_def confirm_discard_fields run_callback_def Let_def split_beta split: option.split)

lemma length_takeWhile_member: "x \<in> set xs \<Longrightarrow> length (takeWhile (\<lambda>y. y \<noteq> x) xs) < length xs"
  by (induction xs) auto

lemma go_callback_page:
  assumes "name \<in> set pages"
  shows "\<exists>i < length pages. go_callback name = PageCallback i \<and> pages ! i = name"
  using length_takeWhile_member [OF assms] nth_length_takeWhile [of "\<lambda>p. p \<noteq> name" pages] unfolding go_callback_def by blast

lemma navigate_asks:
  assumes "name \<in> set pages" "has_unsaved_edits (Some name) s"
  shows "navigate tok False keepView name s =
     (s\<lparr>dialogs_of := confirm_discard (go_callback name) (Some stay_callback) (dialogs_of s)\<rparr>, [])"
  using assms by (simp add: navigate_def)

lemma enter_page_route: "current_route (fst (enter_page tok keepView name s)) = Some (redirect tok (token_scope s) name)"
  unfolding enter_page_def Let_def by (simp split: if_split)

text \<open>
  Asked for another page while there are edits to lose, the router changes nothing and fetches nothing but puts up the prompt. Staying puts
  the address of the page on screen back and keeps every edit; going on opens the page asked for, or the one it is redirected to.
\<close>

lemma asked_before_leaving:
  assumes "name \<in> set pages" "has_unsaved_edits (Some name) s"
  shows "let (s1, acts) = navigate tok False keepView name s;
             (s2, _) = router_step PromptCancel s1;
             (s3, _) = router_step (PromptOk tok) s1 in
     acts = [] \<and> s1 = s\<lparr>dialogs_of := dialogs_of s1\<rparr> \<and> is_open CONFIRM (dialogs_of s1) \<and>
     current_route s2 = current_route s \<and> dirty_forms s2 = dirty_forms s \<and> waiting s2 = waiting s \<and>
     location_hash s2 = committed_hash s \<and>
     (\<forall>d. d \<noteq> CONFIRM \<longrightarrow> form_dirty (dialogs_of s2) d = form_dirty (dialogs_of s) d) \<and>
     current_route s3 = Some (redirect tok (token_scope s) name)"
proof -
  define ds where "ds = confirm_discard (go_callback name) (Some stay_callback) (dialogs_of s)"
  define s1 where "s1 = s\<lparr>dialogs_of := ds\<rparr>"
  have n: "navigate tok False keepView name s = (s1, [])"
    using navigate_asks [OF assms] by (simp add: s1_def ds_def)
  obtain i where i: "i < length pages" "go_callback name = PageCallback i" "pages ! i = name"
    using go_callback_page [OF assms(1)] by blast
  have c: "router_step PromptCancel s1 = (run_cancelled [length pages] (s\<lparr>dialogs_of := close_modal CONFIRM (reset_confirm ds)\<rparr>), [])"
    by (simp add: router_step_def close_prompt_def s1_def ds_def prompt_cancelled)
  have g: "router_step (PromptOk tok) s1 =
      navigate tok True False name (discard_edits_for name (s\<lparr>dialogs_of := close_modal CONFIRM (reset_confirm ds)\<rparr>))"
    using i by (simp add: router_step_def s1_def ds_def prompt_confirmed run_confirmed_def)
  have "current_route (fst (router_step (PromptOk tok) s1)) = Some (redirect tok (token_scope s) name)"
    unfolding g using assms(1) by (simp add: navigate_def enter_page_route)
  moreover have "location_hash (run_cancelled [length pages] t) = committed_hash t" for t
    by (simp add: run_cancelled_def restore_committed_hash_def)
  moreover have "is_open CONFIRM ds" by (simp add: ds_def confirm_discard_fields)
  moreover have "form_dirty (close_modal CONFIRM (reset_confirm ds)) d = form_dirty (dialogs_of s) d" if "d \<noteq> CONFIRM" for d
    using that by (simp add: close_confirm_form ds_def confirm_discard_fields)
  ultimately show ?thesis unfolding n c Let_def prod.case split_beta fst_conv snd_conv by (simp add: s1_def)
qed

text \<open>A dialog that holds edits.\<close>

definition holds_edits :: "string \<Rightarrow> dialogs \<Rightarrow> bool" where
  "holds_edits x d \<longleftrightarrow> is_open x d \<and> is_modal_dirty x d"

lemma other_dialog_keeps:
  assumes "holds_edits x d"
  shows "holds_edits x (open_modal y d)" "y \<noteq> x \<Longrightarrow> holds_edits x (close_modal y d)" "holds_edits x (reset_confirm d)"
  using assms by (auto simp: holds_edits_def is_open_def is_modal_dirty_def open_modal_def close_modal_def forget_form_def
      sync_background_def reset_confirm_def Let_def image_iff)

lemma asking_keeps: "holds_edits x d \<Longrightarrow> holds_edits x (confirm_discard c k d)"
  unfolding confirm_discard_def open_confirm_modal_def
  by (rule other_dialog_keeps(1)) (simp add: holds_edits_def is_open_def is_modal_dirty_def)

text \<open>What a cancelled prompt does on this way: nothing, or putting the address back. Its callbacks are gone with the prompt.\<close>

definition asks_ok :: "dialogs \<Rightarrow> bool" where
  "asks_ok d \<longleftrightarrow> prompt_ok d \<and> (on_cancel d = None \<or> on_cancel d = Some stay_callback)"

lemma asks_ok_asked: "asks_ok (confirm_discard c None d)" "asks_ok (confirm_discard c (Some stay_callback) d)"
  using open_confirm_prompt by (simp_all add: asks_ok_def confirm_discard_fields) (simp_all add: confirm_discard_def)

lemma asks_ok_ops:
  assumes "asks_ok d"
  shows "asks_ok (open_modal y d)" "y \<noteq> CONFIRM \<Longrightarrow> asks_ok (close_modal y d)"
    "asks_ok (fst (close_confirm_modal b d))" "asks_ok (fst (run_modal_closer y d))" "asks_ok (fst (dismiss_modal y d))"
    "asks_ok (fst (confirm_ok d))" "asks_ok (d\<lparr>form_dirty := f\<rparr>)"
proof -
  have opened: "on_cancel (open_modal y e) = on_cancel e" "on_confirm (open_modal y e) = on_confirm e" for y e
    by (simp_all add: open_modal_def forget_form_def sync_background_def Let_def)
  have closed: "on_cancel (close_modal y e) = on_cancel e" for y e
    by (simp add: close_modal_def forget_form_def sync_background_def Let_def)
  have ran: "asks_ok e \<Longrightarrow> asks_ok (fst (run_callback c e))" for c e
    using run_callback_prompt [of e c] by (auto simp: asks_ok_def run_callback_def closed reset_confirm_def split: callback.split)
  have reset: "asks_ok (close_modal y (reset_confirm d))" for y
    using prompt_reset [of y d] by (simp add: asks_ok_def closed) (simp add: reset_confirm_def)
  show confirm: "asks_ok (fst (close_confirm_modal b d))" for b
    by (simp add: close_confirm_modal_def Let_def ran reset split: option.split)
  show "asks_ok (open_modal y d)"
    using assms dialog_step_prompt [OF dialog_step.opened, of d y] by (simp add: asks_ok_def opened)
  show close: "asks_ok (close_modal y d)" if "y \<noteq> CONFIRM" for y
    using assms that by (simp add: asks_ok_def closed close_other_prompt)
  show closer: "asks_ok (fst (run_modal_closer y d))" for y
    by (simp add: run_modal_closer_def confirm close)
  show "asks_ok (fst (dismiss_modal y d))"
    by (simp add: dismiss_modal_def closer asks_ok_asked)
  show "asks_ok (fst (confirm_ok d))"
    using confirm [of True] by (simp add: confirm_ok_def split_beta ran split: option.split)
  show "asks_ok (d\<lparr>form_dirty := f\<rparr>)" using assms by (simp add: asks_ok_def prompt_ok_def)
qed

lemma asks_ok_all_closed: "asks_ok d \<Longrightarrow> asks_ok (fst (close_all_modals d))"
proof (induction d rule: close_all_modals.induct)
  case (1 d)
  then show ?case
    using asks_ok_ops(4) [of d]
    by (subst close_all_modals.simps) (auto split: option.splits prod.splits, metis fst_conv)
qed

subsection \<open>Navigations and what they shut\<close>

text \<open>The dialogs a page closes on the way in when they belong to another page.\<close>

definition page_dialogs :: "(string \<times> string) list" where
  "page_dialogs = [(''route-probe-modal'', ''routes''), (''route-modal'', ''routes''), (''inbound-modal'', ''inbound''), (''peer-modal'', ''peers'')]"

definition shut_with :: "string \<Rightarrow> string \<Rightarrow> bool" where
  "shut_with name x \<longleftrightarrow> list_ex (\<lambda>(d, p). d = x \<and> p \<noteq> name) page_dialogs"

lemma close_page_keeps:
  "\<lbrakk>holds_edits x (dialogs_of s); \<not> shut_with name x\<rbrakk> \<Longrightarrow> holds_edits x (dialogs_of (close_page_dialogs name s))"
  by (auto simp: close_page_dialogs_def Let_def shut_with_def page_dialogs_def intro!: other_dialog_keeps(2))

lemma moved_dialogs [simp]:
  "dialogs_of (show_page n s) = dialogs_of s" "dialogs_of (leave_for n s) = dialogs_of s" "dialogs_of (wait_at n st s) = dialogs_of s"
  "dialogs_of (close_prompt s) = fst (close_confirm_modal False (dialogs_of s))"
  by (simp_all add: show_page_def leave_for_def wait_at_def close_prompt_def Let_def split_beta)

lemma enter_page_dialogs:
  "dialogs_of (fst (enter_page tok keepView n s)) =
     dialogs_of (close_page_dialogs (redirect tok (token_scope s) n) (if keepView then s else close_prompt s))"
  unfolding enter_page_def Let_def by (simp add: close_page_dialogs_def Let_def)

lemma cancelled_keeps:
  assumes "holds_edits x d" "x \<noteq> CONFIRM" "asks_ok d"
  shows "holds_edits x (fst (close_confirm_modal False d))"
  using assms other_dialog_keeps(2) [OF other_dialog_keeps(3) [OF assms(1)], of CONFIRM]
  by (auto simp: close_confirm_modal_def Let_def asks_ok_def run_callback_def stay_callback_def)

definition page_asked :: "string \<Rightarrow> string" where
  "page_asked n = (if n \<in> set pages then n else ''overview'')"

lemma navigate_keeps:
  assumes "holds_edits x (dialogs_of s)" "x \<noteq> CONFIRM" "asks_ok (dialogs_of s)"
    "\<not> (current_route s = Some (page_asked n) \<and> shut_with (redirect tok (token_scope s) (page_asked n)) x)"
  shows "holds_edits x (dialogs_of (fst (navigate tok False keepView n s)))"
proof (cases "has_unsaved_edits (Some (page_asked n)) s")
  case True
  then show ?thesis using assms(1) by (simp add: navigate_def page_asked_def [symmetric] Let_def asking_keeps)
next
  case False
  have "any_open_modal_dirty (dialogs_of s)"
    using assms(1) by (auto simp: any_open_modal_dirty_def list_ex_iff holds_edits_def is_open_def)
  with False have "current_route s = Some (page_asked n)" by (auto simp: has_unsaved_edits_def)
  with assms(4) have "\<not> shut_with (redirect tok (token_scope s) (page_asked n)) x" by simp
  with False assms(1-3) show ?thesis
    by (simp add: navigate_def page_asked_def [symmetric] Let_def enter_page_dialogs close_page_keeps cancelled_keeps)
qed

lemma close_page_asks: "asks_ok (dialogs_of s) \<Longrightarrow> asks_ok (dialogs_of (close_page_dialogs n s))"
  by (simp add: close_page_dialogs_def Let_def asks_ok_ops(2) CONFIRM_def)

lemma navigate_asks_ok: "asks_ok (dialogs_of s) \<Longrightarrow> asks_ok (dialogs_of (fst (navigate tok b keepView n s)))"
  by (simp add: navigate_def Let_def asks_ok_asked enter_page_dialogs close_page_asks asks_ok_ops(3))

lemma form_is_dirty_fields:
  "form_is_dirty (s\<lparr>dialogs_of := d\<rparr>) = form_is_dirty s" "form_is_dirty (s\<lparr>self_set_hash := x\<rparr>) = form_is_dirty s"
  "form_is_dirty (s\<lparr>hash_params := y\<rparr>) = form_is_dirty s" "form_is_dirty (s\<lparr>waiting := w\<rparr>) = form_is_dirty s"
  "form_is_dirty (s\<lparr>token_scope := t\<rparr>) = form_is_dirty s" "form_is_dirty (s\<lparr>location_hash := l\<rparr>) = form_is_dirty s"
  "form_is_dirty (wait_at n st s) = form_is_dirty s" "form_is_dirty (run_cancelled ns s) = form_is_dirty s"
  by (simp_all add: form_is_dirty_def split: option.split)

lemma navigate_keeps_form:
  assumes "form_is_dirty s"
  shows "form_is_dirty (fst (navigate tok False keepView n s)) \<and> current_route (fst (navigate tok False keepView n s)) = current_route s"
  using assms by (simp add: navigate_def Let_def has_unsaved_edits_def form_is_dirty_fields)

lemma resume_asks_ok: "asks_ok (dialogs_of s) \<Longrightarrow> asks_ok (dialogs_of (fst (resume tok i ok scope s)))"
  by (auto simp: resume_def Let_def after_gate_def after_prefs_def after_refresh_def after_token_gate_def finish_navigation_def
      navigate_asks_ok split: stage.split prod.split)

lemma discard_edits_asks_ok: "asks_ok (dialogs_of s) \<Longrightarrow> asks_ok (dialogs_of (discard_edits_for t s))"
  by (simp add: discard_edits_for_def Let_def split_beta asks_ok_all_closed)

lemma router_step_asks_ok: "asks_ok (dialogs_of s) \<Longrightarrow> asks_ok (dialogs_of (fst (router_step e s)))"
  by (cases e) (auto simp: router_step_def navigate_asks_ok on_hash_def reload_current_page_def refresh_after_undo_def resume_asks_ok
      run_confirmed_def discard_edits_asks_ok asks_ok_ops Let_def split_beta split: option.split list.split)

lemma router_run_asks_ok: "asks_ok (dialogs_of (router_run es (initial_router drafts h)))"
proof (induction es rule: rev_induct)
  case Nil
  show ?case by (simp add: router_run_def initial_router_def asks_ok_def prompt_ok_def no_dialogs_def)
next
  case (snoc e es)
  then show ?case using router_step_asks_ok by (simp add: router_run_def)
qed

subsection \<open>Nothing is given up without a yes\<close>

text \<open>OK in the router's own prompt, or in the one a dialog put up when it was to close.\<close>

definition agreed_to_leave :: "router_event \<Rightarrow> router \<Rightarrow> bool" where
  "agreed_to_leave e s = (case (e, on_confirm (dialogs_of s)) of
     (PromptOk tok, Some (PageCallback n)) \<Rightarrow> CONFIRM \<in> visible (dialogs_of s) \<and> n < length pages
   | _ \<Rightarrow> False)"

definition agreed_to_close :: "string \<Rightarrow> router_event \<Rightarrow> router \<Rightarrow> bool" where
  "agreed_to_close x e s = (case (e, on_confirm (dialogs_of s)) of
     (PromptOk tok, Some (CloseDialog y)) \<Rightarrow> CONFIRM \<in> visible (dialogs_of s) \<and> x = y
   | _ \<Rightarrow> False)"

text \<open>The page an event asks for.\<close>

definition asked_for :: "router_event \<Rightarrow> router \<Rightarrow> (string \<times> string) option" where
  "asked_for e s = (case e of
     NavClick tok apiOk name \<Rightarrow> Some (tok, page_asked name)
   | HashEvent tok \<Rightarrow> Some (tok, page_asked (hash_name (if location_hash s = [] then ''#/overview'' else location_hash s)))
   | Recovered tok \<Rightarrow> map_option (\<lambda>r. (tok, page_asked r)) (current_route s)
   | Undone tok \<Rightarrow> map_option (\<lambda>r. (tok, page_asked r)) (current_route s)
   | _ \<Rightarrow> None)"

text \<open>Asked for the page it is on, the router goes where it is redirected to, which is not the page of the dialog.\<close>

definition turned_away :: "string \<Rightarrow> router_event \<Rightarrow> router \<Rightarrow> bool" where
  "turned_away x e s = (case asked_for e s of
     Some (tok, n) \<Rightarrow> current_route s = Some n \<and> shut_with (redirect tok (token_scope s) n) x
   | None \<Rightarrow> False)"

lemma resume_keeps:
  assumes "holds_edits x (dialogs_of s)" "x \<noteq> CONFIRM" "asks_ok (dialogs_of s)" "router_ok s"
  shows "holds_edits x (dialogs_of (fst (resume tok i ok scope s)))"
proof -
  have "holds_edits x (dialogs_of (fst (after_gate tok name ok t)))"
    if "dialogs_of t = dialogs_of s" "current_route t = Some name" for t name
  proof -
    have "page_asked ''overview'' = ''overview''" by (simp add: page_asked_def pages_def)
    moreover have "\<not> page_needs_write_token sc ''overview''" for sc by (simp add: page_needs_write_token_def read_only_pages_def)
    ultimately show ?thesis using navigate_keeps [of x t "''overview''"] assms(1-3) that by (auto simp: after_gate_def)
  qed
  then show ?thesis
    using assms(1,4) nth_mem [of i "waiting s"]
    by (fastforce simp: resume_def Let_def after_prefs_def after_refresh_def after_token_gate_def finish_navigation_def router_ok_def
        split: stage.split prod.split)
qed

lemma resume_keeps_form:
  assumes "form_is_dirty s"
  shows "form_is_dirty (fst (resume tok i ok scope s)) \<and> current_route (fst (resume tok i ok scope s)) = current_route s"
proof -
  have "form_is_dirty (fst (after_gate tok name ok t)) \<and> current_route (fst (after_gate tok name ok t)) = current_route s"
    if "form_is_dirty t" "current_route t = current_route s" for t name
    using navigate_keeps_form [OF that(1)] that by (simp add: after_gate_def form_is_dirty_fields)
  with assms show ?thesis
    by (auto simp: resume_def Let_def after_prefs_def after_refresh_def after_token_gate_def finish_navigation_def form_is_dirty_fields
        split: stage.split prod.split)
qed

lemma step_keeps_form:
  assumes "form_is_dirty s" "e \<noteq> FormEdited False" "\<not> agreed_to_leave e s" "asks_ok (dialogs_of s)"
  shows "form_is_dirty (fst (router_step e s)) \<and> current_route (fst (router_step e s)) = current_route s"
proof (cases e)
  case (PromptOk tok)
  have "snd (confirm_ok (dialogs_of s)) = [n] \<Longrightarrow> \<not> n < length pages" for n
    using assms(3,4) PromptOk
    by (auto simp: confirm_ok_def agreed_to_leave_def asks_ok_def prompt_ok_def run_callback_def split_beta
        split: option.splits callback.splits)
  then show ?thesis using assms(1) PromptOk
    by (auto simp: router_step_def run_confirmed_def split_beta form_is_dirty_fields split: list.split)
next
  case (HashEvent tok)
  then show ?thesis using assms(1) navigate_keeps_form
    by (simp add: router_step_def on_hash_def Let_def form_is_dirty_fields)
next
  case (FormEdited b)
  then show ?thesis using assms by (auto simp: router_step_def form_is_dirty_def split: option.splits)
qed (use assms(1) navigate_keeps_form resume_keeps_form in
    \<open>auto simp: router_step_def reload_current_page_def refresh_after_undo_def form_is_dirty_fields close_prompt_def split_beta
      split: option.split\<close>)

lemma step_keeps_dialog:
  assumes h: "holds_edits x (dialogs_of s)" and x: "x \<noteq> CONFIRM"
    and no: "\<not> agreed_to_leave e s" "\<not> agreed_to_close x e s" "\<not> turned_away x e s"
    and ok: "asks_ok (dialogs_of s)" "router_ok s"
  shows "holds_edits x (dialogs_of (fst (router_step e s)))"
proof (cases e)
  case (PromptOk tok)
  define d where "d = dialogs_of s"
  have d1: "fst (close_confirm_modal True d) = close_modal CONFIRM (reset_confirm d)"
    by (simp add: close_confirm_modal_def Let_def split: option.split)
  have h1: "holds_edits x (close_modal CONFIRM (reset_confirm d))"
    using h x by (simp add: d_def other_dialog_keeps)
  have "holds_edits x (fst (confirm_ok d)) \<and> (\<forall>n. snd (confirm_ok d) = [n] \<longrightarrow> \<not> n < length pages)"
  proof (cases "on_confirm d")
    case None
    with h1 d1 show ?thesis by (simp add: confirm_ok_def split_beta)
  next
    case (Some c)
    then have "CONFIRM \<in> visible d" using ok(1) by (auto simp: asks_ok_def prompt_ok_def d_def)
    with Some no(1,2) PromptOk have "c = CloseDialog y \<Longrightarrow> y \<noteq> x" "c = PageCallback n \<Longrightarrow> \<not> n < length pages" for y n
      by (auto simp: agreed_to_leave_def agreed_to_close_def d_def)
    with Some h1 d1 show ?thesis
      by (auto simp: confirm_ok_def split_beta run_callback_def other_dialog_keeps split: callback.split)
  qed
  then show ?thesis using PromptOk by (auto simp: router_step_def run_confirmed_def split_beta d_def split: list.split)
next
  case (NavClick tok apiOk n)
  then show ?thesis using h no(3) navigate_keeps [OF h x ok(1), of n tok] by (auto simp: router_step_def turned_away_def asked_for_def)
next
  case (HashEvent tok)
  define raw where "raw = (if location_hash s = [] then ''#/overview'' else location_hash s)"
  define t where "t = s\<lparr>self_set_hash := None, hash_params := parse_hash_nav_params raw\<rparr>"
  have t: "dialogs_of t = dialogs_of s" "current_route t = current_route s" "token_scope t = token_scope s" by (simp_all add: t_def)
  have "on_hash tok s = (if self_set_hash s = Some (location_hash s) then (s\<lparr>self_set_hash := None\<rparr>, [])
      else navigate tok False False (hash_name raw) t)"
    by (simp add: on_hash_def Let_def t_def raw_def)
  then show ?thesis using HashEvent h no(3) navigate_keeps [of x t "hash_name raw" tok, unfolded t, OF h x ok(1)]
    by (auto simp: router_step_def turned_away_def asked_for_def raw_def [symmetric])
next
  case (Recovered tok)
  then show ?thesis using h no(3) navigate_keeps [OF h x ok(1), of _ tok]
    by (auto simp: router_step_def reload_current_page_def turned_away_def asked_for_def split: option.split)
next
  case (Undone tok)
  then show ?thesis using h no(3) navigate_keeps [OF h x ok(1), of _ tok]
    by (auto simp: router_step_def refresh_after_undo_def turned_away_def asked_for_def split: option.split)
next
  case (Resumed tok i a scope)
  then show ?thesis using resume_keeps [OF h x ok] by (simp add: router_step_def)
next
  case PromptCancel
  then show ?thesis using cancelled_keeps [OF h x ok(1)] by (simp add: router_step_def)
next
  case (DialogEdited y)
  then show ?thesis using h by (simp add: router_step_def holds_edits_def is_open_def is_modal_dirty_def)
next
  case (DialogDismissed y)
  have "holds_edits x (fst (dismiss_modal y (dialogs_of s)))"
  proof (cases "is_modal_dirty y (dialogs_of s)")
    case True
    with h show ?thesis by (simp add: dismiss_modal_def asking_keeps)
  next
    case False
    then have "y \<noteq> x" using h by (auto simp: holds_edits_def)
    with False h x show ?thesis
      by (simp add: dismiss_modal_def run_modal_closer_def other_dialog_keeps(2) cancelled_keeps [OF h x ok(1)])
  qed
  with DialogDismissed show ?thesis by (simp add: router_step_def split_beta)
qed (use h other_dialog_keeps(1) in \<open>auto simp: router_step_def split: option.split\<close>)



text \<open>
  The exception happens: the guard asks about the page asked for, which is the one on screen and keeps its dialogs, but without a token
  the router then goes to the token page and closes the peer's dialog with its edits, unasked.
\<close>

lemma turned_away_unasked:
  "let s = router_run [NavClick ''t'' True ''peers'', DialogOpened ''peer-modal'', DialogEdited ''peer-modal'', HashTyped ''#/peers?peer=1'']
             (initial_router {} []); s' = fst (router_step (HashEvent []) s) in
     holds_edits ''peer-modal'' (dialogs_of s) \<and> current_route s' = Some ''token'' \<and> open_stack (dialogs_of s') = []"
  by code_simp

section \<open>Its own address changes\<close>

lemma own_hash_event: "self_set_hash s = Some (location_hash s) \<Longrightarrow> on_hash tok s = (s\<lparr>self_set_hash := None\<rparr>, [])"
  by (simp add: on_hash_def)

lemma show_page_self_set:
  "hash_name (location_hash s) \<noteq> name \<Longrightarrow> self_set_hash (show_page name s) = Some (location_hash (show_page name s))"
  by (simp add: show_page_def)

text \<open>
  A page opened by a click sets the address, and the event of that change loads nothing a second
  time: it only forgets that the change was its own.
\<close>

lemma own_address_change_loads_nothing:
  assumes "hash_name (location_hash s) \<noteq> name"
  shows "router_step (HashEvent tok) (show_page name s) = ((show_page name s)\<lparr>self_set_hash := None\<rparr>, [])"
  by (simp add: router_step_def own_hash_event show_page_self_set [OF assms])

text \<open>Without a token every navigation ends on the token page; with a read token on a page it opens.\<close>

lemma redirect_respects_token:
  "trim tok = [] \<Longrightarrow> redirect tok scope name = ''token''"
  "redirect tok ''read'' name \<in> set read_only_pages"
  by (auto simp: redirect_def page_needs_write_token_def is_read_only_token_def read_only_pages_def Let_def)

end
