(* ===== verification/Toast.thy ===== *)
theory Toast
  imports Js_Base Complex_Main
begin

text \<open>
  \<open>core/toast.js\<close>: the one toast on screen, its pausing timer and its action; and \<open>core/undo.js\<close>, which
  offers and runs an Undo through it. Times are milliseconds. An armed timer is the time it was
  started at; whether the browser still has it pending is \<open>timer_live\<close>.
\<close>

definition TOAST_DURATION_MS :: int where
  "TOAST_DURATION_MS = 10000"

record toast =
  on_screen :: bool
  toast_message :: string
  toast_action :: "(string \<times> bool) option"
  sticky :: bool
  hovered :: bool
  focus_inside :: bool
  tab_hidden :: bool
  remaining_ms :: int
  timer_started_at :: "int option"
  timer_live :: bool
  leaving :: bool
  leave_fallback :: bool

definition no_toast :: toast where
  "no_toast = \<lparr>on_screen = False, toast_message = [], toast_action = None, sticky = False, hovered = False,
     focus_inside = False, tab_hidden = False, remaining_ms = 0, timer_started_at = None, timer_live = False,
     leaving = False, leave_fallback = False\<rparr>"

definition timer_should_run :: "toast \<Rightarrow> bool" where
  "timer_should_run t \<longleftrightarrow> on_screen t \<and> \<not> sticky t \<and> \<not> hovered t \<and> \<not> tab_hidden t \<and> \<not> focus_inside t"

definition sync_timer :: "int \<Rightarrow> toast \<Rightarrow> toast" where
  "sync_timer now t =
     (if timer_should_run t
      then (if timer_started_at t \<noteq> None then t else t\<lparr>timer_started_at := Some now, timer_live := True\<rparr>)
      else (case timer_started_at t of
          None \<Rightarrow> t
        | Some s \<Rightarrow> t\<lparr>timer_started_at := None, timer_live := False, remaining_ms := max 0 (remaining_ms t - (now - s))\<rparr>))"

definition reset_timer :: "int \<Rightarrow> toast \<Rightarrow> toast" where
  "reset_timer now t =
     sync_timer now (t\<lparr>timer_started_at := None, timer_live := False, remaining_ms := TOAST_DURATION_MS\<rparr>)"

definition remove_toast_el :: "toast \<Rightarrow> toast" where
  "remove_toast_el t = t\<lparr>leave_fallback := False, on_screen := False, toast_message := [], toast_action := None,
     hovered := False, focus_inside := False, leaving := False\<rparr>"

text \<open>Dismissing hands focus back before the toast leaves.\<close>

definition dismiss_toast :: "toast \<Rightarrow> toast" where
  "dismiss_toast t =
     (if \<not> on_screen t \<or> leaving t then t
      else t\<lparr>timer_started_at := None, timer_live := False, focus_inside := False, leaving := True, leave_fallback := True\<rparr>)"

text \<open>A new button has not been clicked. Replacing a focused one keeps focus inside.\<close>

definition set_toast_action :: "string option \<Rightarrow> toast \<Rightarrow> toast" where
  "set_toast_action action t = t\<lparr>toast_action := map_option (\<lambda>l. (l, False)) action\<rparr>"

definition show_toast :: "int \<Rightarrow> string \<Rightarrow> string option \<Rightarrow> bool \<Rightarrow> toast \<Rightarrow> toast" where
  "show_toast now m action err t =
     (let t1 = (if on_screen t then t\<lparr>leave_fallback := False, leaving := False\<rparr> else t\<lparr>on_screen := True\<rparr>);
          t2 = set_toast_action action (t1\<lparr>sticky := err, toast_message := m\<rparr>) in
      reset_timer now t2)"

datatype toast_event =
    ShowToast int string "string option" bool
  | TimerFires int
  | PointerEnter int
  | PointerLeave int
  | FocusIn int
  | FocusOut
  | Frame int
  | TabHidden int bool
  | ActionClicked
  | CloseClicked
  | TransitionEnd
  | LeaveFallback

definition toast_step :: "toast_event \<Rightarrow> toast \<Rightarrow> toast \<times> bool" where
  "toast_step e t = (case e of
     ShowToast now m action err \<Rightarrow> (show_toast now m action err t, False)
   | TimerFires now \<Rightarrow>
       (case timer_started_at t of
          Some s \<Rightarrow> if timer_live t \<and> s + remaining_ms t \<le> now then (dismiss_toast (t\<lparr>timer_live := False\<rparr>), False) else (t, False)
        | None \<Rightarrow> (t, False))
   | PointerEnter now \<Rightarrow> (if on_screen t then sync_timer now (t\<lparr>hovered := True\<rparr>) else t, False)
   | PointerLeave now \<Rightarrow> (if on_screen t then sync_timer now (t\<lparr>hovered := False\<rparr>) else t, False)
   | FocusIn now \<Rightarrow> (if on_screen t then sync_timer now (t\<lparr>focus_inside := True\<rparr>) else t, False)
   | FocusOut \<Rightarrow> (t\<lparr>focus_inside := False\<rparr>, False)
   | Frame now \<Rightarrow> (sync_timer now t, False)
   | TabHidden now h \<Rightarrow> (sync_timer now (t\<lparr>tab_hidden := h\<rparr>), False)
   | ActionClicked \<Rightarrow>
       (case toast_action t of
          Some (l, False) \<Rightarrow> (dismiss_toast (t\<lparr>toast_action := Some (l, True)\<rparr>), True)
        | _ \<Rightarrow> (t, False))
   | CloseClicked \<Rightarrow> (dismiss_toast t, False)
   | TransitionEnd \<Rightarrow> (if on_screen t \<and> leaving t then remove_toast_el t else t, False)
   | LeaveFallback \<Rightarrow> (if leave_fallback t then remove_toast_el t else t, False))"

text \<open>A failure beside its control also shows as a toast when the control is out of sight.\<close>

definition report_beside_control :: "rat \<Rightarrow> rat \<Rightarrow> rat \<Rightarrow> rat \<Rightarrow> int \<Rightarrow> string \<Rightarrow> toast \<Rightarrow> toast" where
  "report_beside_control boxHeight boxTop boxBottom innerHeight now m t =
     (if boxHeight = 0 \<or> boxBottom \<le> 0 \<or> innerHeight \<le> boxTop then show_toast now m None True t else t)"

section \<open>How long a toast stays\<close>

text \<open>The milliseconds the timer has run since the toast was last shown, in stretches already over.\<close>

definition watched :: "toast_event \<Rightarrow> toast \<Rightarrow> int \<Rightarrow> int" where
  "watched e t ms = (case e of
     ShowToast now m action err \<Rightarrow> 0
   | _ \<Rightarrow>
     (case (timer_started_at t, timer_started_at (fst (toast_step e t))) of
        (Some s, None) \<Rightarrow>
          (case e of PointerEnter now \<Rightarrow> ms + (now - s) | PointerLeave now \<Rightarrow> ms + (now - s) | FocusIn now \<Rightarrow> ms + (now - s)
            | Frame now \<Rightarrow> ms + (now - s) | TabHidden now h \<Rightarrow> ms + (now - s) | _ \<Rightarrow> ms)
      | _ \<Rightarrow> ms))"

fun toast_run :: "toast_event list \<Rightarrow> toast \<times> int \<Rightarrow> toast \<times> int" where
  "toast_run [] c = c"
| "toast_run (e # es) c = toast_run es (fst (toast_step e (fst c)), watched e (fst c) (snd c))"

definition toast_ok :: "toast \<times> int \<Rightarrow> bool" where
  "toast_ok c \<longleftrightarrow> (on_screen (fst c) \<and> \<not> leaving (fst c) \<longrightarrow> TOAST_DURATION_MS \<le> remaining_ms (fst c) + snd c) \<and>
     (sticky (fst c) \<longrightarrow> timer_started_at (fst c) = None) \<and> (leaving (fst c) \<longrightarrow> on_screen (fst c))"

lemma sync_timer_fields [simp]:
  "on_screen (sync_timer now t) = on_screen t" "leaving (sync_timer now t) = leaving t" "sticky (sync_timer now t) = sticky t"
  "toast_action (sync_timer now t) = toast_action t" "hovered (sync_timer now t) = hovered t"
  "focus_inside (sync_timer now t) = focus_inside t" "tab_hidden (sync_timer now t) = tab_hidden t"
  "toast_message (sync_timer now t) = toast_message t"
  by (simp_all add: sync_timer_def split: option.split)

lemma sync_timer_sticky: "\<lbrakk>sticky t; timer_started_at t = None\<rbrakk> \<Longrightarrow> timer_started_at (sync_timer now t) = None"
  by (simp add: sync_timer_def timer_should_run_def)

text \<open>Syncing keeps what is left of the ten seconds together with what was watched.\<close>

definition stretch :: "int \<Rightarrow> toast \<Rightarrow> toast \<Rightarrow> int" where
  "stretch now t t' = (case (timer_started_at t, timer_started_at t') of (Some s, None) \<Rightarrow> now - s | _ \<Rightarrow> 0)"

lemma sync_timer_keeps: "remaining_ms t \<le> remaining_ms (sync_timer now t) + stretch now t (sync_timer now t)"
  by (auto simp: sync_timer_def stretch_def split: option.split)

lemma synced_ok:
  assumes "toast_ok (t, ms)" "on_screen t' = on_screen t" "leaving t' = leaving t" "sticky t' = sticky t"
    "timer_started_at t' = timer_started_at t" "remaining_ms t' = remaining_ms t"
  shows "toast_ok (sync_timer now t', ms + stretch now t (sync_timer now t'))"
proof -
  have "stretch now t (sync_timer now t') = stretch now t' (sync_timer now t')" using assms(5) by (simp add: stretch_def)
  with assms sync_timer_keeps [of t' now] show ?thesis
    by (auto simp: toast_ok_def sync_timer_sticky)
qed

lemma dismiss_ok: "toast_ok (t, ms) \<Longrightarrow> toast_ok (dismiss_toast t, ms)"
  by (simp add: toast_ok_def dismiss_toast_def)

lemma show_ok: "toast_ok (t, ms) \<Longrightarrow> toast_ok (show_toast now m a err t, 0)"
  by (simp add: toast_ok_def show_toast_def reset_timer_def set_toast_action_def sync_timer_sticky Let_def)
    (simp add: sync_timer_def split: option.split)

lemma toast_step_ok:
  assumes ok: "toast_ok (t, ms)"
  shows "toast_ok (fst (toast_step e t), watched e t ms)"
proof -
  have quiet: "toast_ok (t', ms)" if "on_screen t' = on_screen t" "leaving t' = leaving t" "sticky t' = sticky t"
      "timer_started_at t' = timer_started_at t" "remaining_ms t' = remaining_ms t" for t'
    using ok that by (simp add: toast_ok_def)
  have sync: "toast_ok (sync_timer now t', ms + stretch now t (sync_timer now t'))"
    if "on_screen t' = on_screen t" "leaving t' = leaving t" "sticky t' = sticky t"
      "timer_started_at t' = timer_started_at t" "remaining_ms t' = remaining_ms t" for t' now
    using synced_ok [OF ok that] .
  have removed: "toast_ok (remove_toast_el t, ms)" using ok by (simp add: toast_ok_def remove_toast_el_def)
  show ?thesis
  proof (cases e)
    case (ShowToast now m a err)
    with show_ok [OF ok] show ?thesis by (simp add: toast_step_def watched_def)
  next
    case (TimerFires now)
    have "toast_ok (dismiss_toast (t\<lparr>timer_live := False\<rparr>), ms)" by (rule dismiss_ok, rule quiet) simp_all
    with ok show ?thesis by (simp add: TimerFires toast_step_def watched_def split: option.split)
  next
    case (PointerEnter now)
    with ok sync [of "t\<lparr>hovered := True\<rparr>" now] show ?thesis
      by (simp add: toast_step_def watched_def stretch_def split: option.splits)
  next
    case (PointerLeave now)
    with ok sync [of "t\<lparr>hovered := False\<rparr>" now] show ?thesis
      by (simp add: toast_step_def watched_def stretch_def split: option.splits)
  next
    case (FocusIn now)
    with ok sync [of "t\<lparr>focus_inside := True\<rparr>" now] show ?thesis
      by (simp add: toast_step_def watched_def stretch_def split: option.splits)
  next
    case (Frame now)
    with ok sync [of t now] show ?thesis
      by (simp add: toast_step_def watched_def stretch_def split: option.splits)
  next
    case (TabHidden now h)
    with ok sync [of "t\<lparr>tab_hidden := h\<rparr>" now] show ?thesis
      by (simp add: toast_step_def watched_def stretch_def split: option.splits)
  next
    case ActionClicked
    have "toast_ok (dismiss_toast (t\<lparr>toast_action := a\<rparr>), ms)" for a by (rule dismiss_ok, rule quiet) simp_all
    with ok show ?thesis
      by (simp add: ActionClicked toast_step_def watched_def split: option.split bool.split prod.split)
  qed (use ok quiet dismiss_ok [OF ok] removed in \<open>simp_all add: toast_step_def watched_def split: option.split\<close>)
qed

lemma toast_run_ok: "toast_ok c \<Longrightarrow> toast_ok (toast_run es c)"
proof (induction es arbitrary: c)
  case (Cons e es)
  then show ?case using toast_step_ok [of "fst c" "snd c" e] by simp
qed simp

text \<open>
  A confirmation is seen before it goes. Whatever pauses it, however often it is replaced, the timer
  takes a toast off the screen only after it has run for ten seconds since the toast was last shown, not
  counting the time the pointer or focus was on it or the tab was hidden; and it never takes an
  error off.
\<close>

theorem toast_stays_its_ten_seconds:
  assumes "toast_run es (no_toast, 0) = (t, ms)" "on_screen t" "\<not> leaving t" "leaving (fst (toast_step (TimerFires now) t))"
  shows "\<exists>started. timer_started_at t = Some started \<and> 10000 \<le> ms + (now - started) \<and> \<not> sticky t"
proof -
  have "toast_ok (no_toast, 0)" by (simp add: toast_ok_def no_toast_def)
  then have ok: "toast_ok (t, ms)" using toast_run_ok [of "(no_toast, 0)" es] assms(1) by simp
  obtain s where s: "timer_started_at t = Some s" "s + remaining_ms t \<le> now"
    using assms(3,4) by (cases "timer_started_at t") (auto simp: toast_step_def split: if_splits)
  with ok assms(2,3) show ?thesis by (auto simp: toast_ok_def TOAST_DURATION_MS_def)
qed

theorem toast_stays_its_ten_seconds_witness:
  "\<exists>started. timer_started_at (show_toast 0 ''Saved'' None False no_toast) = Some started \<and> 10000 \<le> 0 + (10000 - started)"
proof -
  have 1: "toast_run [ShowToast 0 ''Saved'' None False] (no_toast, 0) = (show_toast 0 ''Saved'' None False no_toast, 0)"
    by (simp add: toast_step_def watched_def)
  have "on_screen (show_toast 0 ''Saved'' None False no_toast)" "\<not> leaving (show_toast 0 ''Saved'' None False no_toast)"
    "leaving (fst (toast_step (TimerFires 10000) (show_toast 0 ''Saved'' None False no_toast)))"
    by code_simp+
  from toast_stays_its_ten_seconds [OF 1 this] show ?thesis by blast
qed

section \<open>The action\<close>

text \<open>A button's action runs at most once, also when a double click lands while the toast fades.\<close>

lemma action_runs_once:
  "snd (toast_step ActionClicked t) \<Longrightarrow> \<not> snd (toast_step ActionClicked (fst (toast_step ActionClicked t)))"
  by (auto simp: toast_step_def dismiss_toast_def split: option.splits bool.splits prod.splits)

text \<open>
  An Undo, by its outcome: a failed merge will not go away by trying again, anything else might. The
  result is the toast's message, whether it is an error, and its button.
\<close>

datatype undo_outcome = Undone string | MergeFailed string | OtherFailure string

definition run_undo :: "bool \<Rightarrow> undo_outcome \<Rightarrow> (string \<times> bool \<times> string option) \<times> bool" where
  "run_undo onPage r = (case r of
     Undone m \<Rightarrow> ((m, False, None), \<not> onPage)
   | MergeFailed m \<Rightarrow> ((''Could not undo: '' @ m, True, None), False)
   | OtherFailure m \<Rightarrow> ((''Could not undo: '' @ m, True, Some ''Undo''), False))"

definition show_undo_toast :: "int \<Rightarrow> string \<Rightarrow> toast \<Rightarrow> toast" where
  "show_undo_toast now m t = show_toast now m (Some ''Undo'') False t"

definition undo_toast :: "int \<Rightarrow> bool \<Rightarrow> undo_outcome \<Rightarrow> toast \<Rightarrow> toast" where
  "undo_toast now onPage r t = (case fst (run_undo onPage r) of (m, err, action) \<Rightarrow> show_toast now m action err t)"

lemma failed_undo_stays_up:
  assumes "r \<noteq> Undone m" "\<forall>m. r \<noteq> Undone m"
  shows "sticky (undo_toast now onPage r t)" "timer_started_at (undo_toast now onPage r t) = None"
  using assms by (cases r; simp add: undo_toast_def run_undo_def show_toast_def reset_timer_def set_toast_action_def
      sync_timer_def timer_should_run_def Let_def)+

end
