(* ===== verification/Widgets.thy ===== *)
theory Widgets
  imports Text_Output
begin

text \<open>
  The small pieces of the shell: busy regions (\<open>core/loading.js\<close>), tab lists (\<open>core/tabs.js\<close>), the Advanced
  gate (\<open>core/advanced.js\<close>), the title (\<open>core/title.js\<close>), and from \<open>core/dom.js\<close> the API status, a
  field's error and the table filter.
\<close>

section \<open>Busy regions\<close>

record region =
  load_count :: nat
  busy :: bool
  visual_armed :: bool
  dimmed :: bool
  skeleton :: bool

definition idle_region :: region where
  "idle_region = \<lparr>load_count = 0, busy = False, visual_armed = False, dimmed = False, skeleton = False\<rparr>"

definition begin_region :: "region \<Rightarrow> region" where
  "begin_region r =
     (let r1 = r\<lparr>load_count := Suc (load_count r)\<rparr> in
      if load_count r1 > 1 then r1 else r1\<lparr>busy := True, visual_armed := True\<rparr>)"

text \<open>The delay is over: old content dims, an empty region gets a skeleton.\<close>

definition show_loading_visual :: "bool \<Rightarrow> region \<Rightarrow> region" where
  "show_loading_visual hasText r =
     (if \<not> visual_armed r then r
      else if hasText then r\<lparr>visual_armed := False, dimmed := True\<rparr> else r\<lparr>visual_armed := False, skeleton := True\<rparr>)"

definition end_region :: "region \<Rightarrow> region" where
  "end_region r =
     (let r1 = r\<lparr>load_count := load_count r - 1\<rparr> in
      if load_count r1 > 0 then r1
      else r1\<lparr>visual_armed := False, skeleton := False, dimmed := False, busy := False\<rparr>)"

datatype load_event = Begin | End | Delay bool

definition load_step :: "load_event \<Rightarrow> region \<Rightarrow> region" where
  "load_step e r = (case e of Begin \<Rightarrow> begin_region r | End \<Rightarrow> end_region r | Delay hasText \<Rightarrow> show_loading_visual hasText r)"

text \<open>Each load ends once: no prefix has more ends than begins.\<close>

fun loads_open :: "load_event list \<Rightarrow> nat \<Rightarrow> nat option" where
  "loads_open [] n = Some n"
| "loads_open (Begin # es) n = loads_open es (Suc n)"
| "loads_open (End # es) n = (if n = 0 then None else loads_open es (n - 1))"
| "loads_open (Delay b # es) n = loads_open es n"

definition region_ok :: "region \<Rightarrow> bool" where
  "region_ok r \<longleftrightarrow> (busy r \<longleftrightarrow> load_count r > 0) \<and> (visual_armed r \<or> dimmed r \<or> skeleton r \<longrightarrow> busy r)"

lemma load_step_ok: "region_ok r \<Longrightarrow> region_ok (load_step e r)"
  by (cases e) (auto simp: region_ok_def load_step_def begin_region_def end_region_def show_loading_visual_def Let_def)

lemma load_steps_ok: "region_ok r \<Longrightarrow> region_ok (fold load_step es r)"
  by (induction es arbitrary: r) (simp_all add: load_step_ok)

lemma load_count_open: "loads_open es (load_count r) = Some n \<Longrightarrow> load_count (fold load_step es r) = n"
proof (induction es arbitrary: r)
  case (Cons e es)
  show ?case
    by (cases e) (use Cons.prems Cons.IH [of "load_step e r"] in
      \<open>auto simp: load_step_def begin_region_def end_region_def show_loading_visual_def Let_def split: if_splits\<close>)
qed simp

text \<open>
  Overlapping loads nest: a region is busy exactly while a load is open, and when the last one ends
  nothing is left of it.
\<close>

lemma region_busy_while_loading:
  assumes "loads_open es 0 = Some n"
  shows "busy (fold load_step es idle_region) \<longleftrightarrow> n > 0"
    "n = 0 \<Longrightarrow> fold load_step es idle_region = idle_region"
proof -
  define r where "r = fold load_step es idle_region"
  have "region_ok idle_region" by (simp add: idle_region_def region_ok_def)
  then have ok: "region_ok r" unfolding r_def by (rule load_steps_ok)
  have c: "load_count r = n" using load_count_open [of es idle_region n] assms by (simp add: r_def idle_region_def)
  show "busy (fold load_step es idle_region) \<longleftrightarrow> n > 0" using ok c by (simp add: region_ok_def r_def [symmetric])
  assume "n = 0"
  with ok c have "r = idle_region" by (cases r) (auto simp: region_ok_def idle_region_def)
  then show "fold load_step es idle_region = idle_region" by (simp add: r_def)
qed

section \<open>Tab lists\<close>

record tab =
  tab_name :: string
  tab_disabled :: bool
  aria_selected :: bool
  tab_stop :: bool

definition is_selectable :: "tab \<Rightarrow> bool" where
  "is_selectable t \<longleftrightarrow> \<not> tab_disabled t"

definition stop_index :: "tab list \<Rightarrow> nat" where
  "stop_index tabs =
     (let sel = filter (\<lambda>i. aria_selected (tabs ! i)) [0..<length tabs];
          able = filter (\<lambda>i. is_selectable (tabs ! i)) [0..<length tabs] in
      case sel of
        i # _ \<Rightarrow> if is_selectable (tabs ! i) then i else (case able of j # _ \<Rightarrow> j | [] \<Rightarrow> 0)
      | [] \<Rightarrow> (case able of j # _ \<Rightarrow> j | [] \<Rightarrow> 0))"

definition sync_tab_stops :: "tab list \<Rightarrow> tab list" where
  "sync_tab_stops tabs =
     (if tabs = [] then tabs
      else map (\<lambda>i. (tabs ! i)\<lparr>tab_stop := (i = stop_index tabs)\<rparr>) [0..<length tabs])"

datatype tab_key = ArrowNext | ArrowPrevious | HomeKey | EndKey | OtherKey

text \<open>The tab a key moves to, among the selectable ones; \<open>i\<close> is where the focused tab is in that list.\<close>

definition tab_keydown :: "nat \<Rightarrow> nat \<Rightarrow> tab_key \<Rightarrow> nat option" where
  "tab_keydown n i k =
     (if i \<ge> n then None
      else (case k of
          ArrowNext \<Rightarrow> Some ((i + 1) mod n)
        | ArrowPrevious \<Rightarrow> Some ((i + n - 1) mod n)
        | HomeKey \<Rightarrow> Some 0
        | EndKey \<Rightarrow> Some (n - 1)
        | OtherKey \<Rightarrow> None))"

lemma filter_upt_first: "filter P [0..<n] = i # js \<Longrightarrow> i < n \<and> P i"
proof -
  assume "filter P [0..<n] = i # js"
  then have "i \<in> set (filter P [0..<n])" by simp
  then show ?thesis by simp
qed

lemma stop_index_less:
  assumes "tabs \<noteq> []"
  shows "stop_index tabs < length tabs"
proof -
  have "(case filter P [0..<length tabs] of j # _ \<Rightarrow> j | [] \<Rightarrow> 0) < length tabs" for P
    using assms filter_upt_first [of P "length tabs"] by (cases "filter P [0..<length tabs]") auto
  then show ?thesis
    using filter_upt_first [of "\<lambda>i. aria_selected (tabs ! i)" "length tabs"] unfolding stop_index_def Let_def
    by (cases "filter (\<lambda>i. aria_selected (tabs ! i)) [0..<length tabs]") simp_all
qed

text \<open>A list has one tab stop, on a tab that can be selected as long as one can.\<close>

lemma one_tab_stop:
  assumes "tabs \<noteq> []"
  shows "\<exists>!i. i < length (sync_tab_stops tabs) \<and> tab_stop (sync_tab_stops tabs ! i)"
proof
  show "stop_index tabs < length (sync_tab_stops tabs) \<and> tab_stop (sync_tab_stops tabs ! stop_index tabs)"
    using assms stop_index_less [OF assms] by (simp add: sync_tab_stops_def)
qed (use assms in \<open>auto simp: sync_tab_stops_def\<close>)

lemma tab_stop_selectable:
  assumes "\<exists>t\<in>set tabs. is_selectable t"
  shows "is_selectable (tabs ! stop_index tabs)"
proof -
  have ne: "filter (\<lambda>i. is_selectable (tabs ! i)) [0..<length tabs] \<noteq> []"
  proof -
    obtain i where "i < length tabs" "is_selectable (tabs ! i)" using assms by (metis in_set_conv_nth)
    then have "i \<in> set (filter (\<lambda>i. is_selectable (tabs ! i)) [0..<length tabs])" by simp
    then show ?thesis by (metis empty_iff list.set(1))
  qed
  then obtain j js where j: "filter (\<lambda>i. is_selectable (tabs ! i)) [0..<length tabs] = j # js" by (cases "filter (\<lambda>i. is_selectable (tabs ! i)) [0..<length tabs]") auto
  then have "j \<in> set (filter (\<lambda>i. is_selectable (tabs ! i)) [0..<length tabs])" by simp
  then have "is_selectable (tabs ! j)" by simp
  with j show ?thesis unfolding stop_index_def Let_def by (simp split: list.split)
qed

lemma tab_keys_stay_inside: "tab_keydown n i k = Some j \<Longrightarrow> j < n"
  by (cases k) (auto simp: tab_keydown_def split: if_splits)

lemma tab_arrows_undo:
  assumes "i < n"
  shows "\<exists>j. tab_keydown n i ArrowNext = Some j \<and> tab_keydown n j ArrowPrevious = Some i"
proof (cases "Suc i = n")
  case True
  with assms show ?thesis by (auto simp: tab_keydown_def)
next
  case False
  with assms have "Suc i < n" by simp
  with assms show ?thesis by (auto simp: tab_keydown_def)
qed

section \<open>The Advanced gate\<close>

definition advanced_settings_enabled :: "string option \<Rightarrow> bool" where
  "advanced_settings_enabled stored \<longleftrightarrow> stored = Some ''1''"

definition set_advanced_settings_enabled :: "bool \<Rightarrow> string option" where
  "set_advanced_settings_enabled on = (if on then Some ''1'' else None)"

record gated_tab =
  gate_disabled :: bool
  gate_title :: "string option"
  gate_label :: "string option"
  gate_hint_shown :: bool

definition set_tab_gated_state :: "bool \<Rightarrow> string \<Rightarrow> string \<Rightarrow> gated_tab" where
  "set_tab_gated_state gated tooltipText ariaLabel =
     (if gated then \<lparr>gate_disabled = True, gate_title = Some tooltipText, gate_label = Some ariaLabel, gate_hint_shown = True\<rparr>
      else \<lparr>gate_disabled = False, gate_title = None, gate_label = None, gate_hint_shown = False\<rparr>)"

text \<open>A tab group: the tabs there are, and the selected one.\<close>

type_synonym tab_group = "string list \<times> string"

definition select_editor_tab :: "string list \<Rightarrow> string \<Rightarrow> tab_group \<Rightarrow> tab_group" where
  "select_editor_tab names which g = (case g of (present, sel) \<Rightarrow>
     if which \<in> set names \<and> which \<in> set present then (present, which) else g)"

definition set_geo_editor_tab :: "bool \<Rightarrow> string \<Rightarrow> tab_group \<Rightarrow> tab_group" where
  "set_geo_editor_tab advanced which g =
     (if which = ''advanced'' \<and> \<not> advanced then g else select_editor_tab [''default'', ''advanced'', ''zones''] which g)"

definition set_route_editor_tab :: "bool \<Rightarrow> string \<Rightarrow> tab_group \<Rightarrow> tab_group" where
  "set_route_editor_tab advanced which g =
     (if which = ''advanced'' \<and> \<not> advanced then g else select_editor_tab [''default'', ''advanced''] which g)"

definition sync_advanced_tabs_gating :: "bool \<Rightarrow> tab_group \<times> tab_group \<Rightarrow> tab_group \<times> tab_group" where
  "sync_advanced_tabs_gating on gs = (case gs of (route, geo) \<Rightarrow>
     if on then gs
     else (if snd route = ''advanced'' then set_route_editor_tab on ''default'' route else route,
           if snd geo = ''advanced'' then set_geo_editor_tab on ''default'' geo else geo))"

text \<open>With Advanced off, no operation shows an Advanced tab, and only those are moved off.\<close>

lemma advanced_tabs_stay_closed:
  "\<lbrakk>''default'' \<in> set (fst route); ''default'' \<in> set (fst geo)\<rbrakk> \<Longrightarrow>
     snd (fst (sync_advanced_tabs_gating False (route, geo))) \<noteq> ''advanced'' \<and>
     snd (snd (sync_advanced_tabs_gating False (route, geo))) \<noteq> ''advanced''"
  by (cases route; cases geo)
    (simp add: sync_advanced_tabs_gating_def set_route_editor_tab_def set_geo_editor_tab_def select_editor_tab_def)

lemma advanced_tab_refused:
  "snd g \<noteq> ''advanced'' \<Longrightarrow> snd (set_geo_editor_tab False which g) \<noteq> ''advanced''"
  "snd g \<noteq> ''advanced'' \<Longrightarrow> snd (set_route_editor_tab False which g) \<noteq> ''advanced''"
  by (cases g; simp add: set_geo_editor_tab_def set_route_editor_tab_def select_editor_tab_def)+

section \<open>Title, status, field errors, filter\<close>

definition render_title :: "string \<Rightarrow> nat \<Rightarrow> string" where
  "render_title pageName pendingCount =
     (if pageName \<noteq> [] then pageName @ '' '' @ middot @ '' '' else []) @ ''EvuProxy'' @
     (if pendingCount \<noteq> 0 then '' ('' @ show_nat pendingCount @ '')'' else [])"

record api_status =
  status_label :: string
  status_class :: "string option"
  status_title :: string

definition set_api_not_connected :: "api_status \<Rightarrow> api_status" where
  "set_api_not_connected s =
     s\<lparr>status_label := ''Not connected'', status_class := None, status_title := ''No API token in this browser''\<rparr>"

definition set_api_status :: "bool \<Rightarrow> string option \<Rightarrow> api_status \<Rightarrow> api_status" where
  "set_api_status ok detail s =
     (let label = (if ok then ''API OK'' else ''API error'');
          s1 = (if status_label s \<noteq> label
                then s\<lparr>status_label := label, status_class := Some (if ok then ''evu-pill--ok'' else ''evu-pill--err'')\<rparr> else s) in
      case detail of Some d \<Rightarrow> if d \<noteq> [] then s1\<lparr>status_title := d\<rparr> else s1 | None \<Rightarrow> s1)"

text \<open>Fields by id: whether each is marked invalid, and the elements that describe it.\<close>

record field =
  aria_invalid :: bool
  described_by :: "string list"

record form_marks =
  form_fields :: "string \<Rightarrow> field"
  invalid_of :: "string \<Rightarrow> string option"

definition clear_field_invalid :: "string \<Rightarrow> form_marks \<Rightarrow> form_marks" where
  "clear_field_invalid msgId m = (case invalid_of m msgId of
     None \<Rightarrow> m
   | Some f \<Rightarrow> m\<lparr>form_fields := (form_fields m)(f := \<lparr>aria_invalid = False,
            described_by = filter (\<lambda>i. i \<noteq> [] \<and> i \<noteq> msgId) (described_by (form_fields m f))\<rparr>),
          invalid_of := (invalid_of m)(msgId := None)\<rparr>)"

definition mark_field_invalid :: "string \<Rightarrow> string \<Rightarrow> form_marks \<Rightarrow> form_marks" where
  "mark_field_invalid msgId f m =
     (let m1 = clear_field_invalid msgId m in
      if msgId = [] then m1
      else (let existing = filter (\<lambda>i. i \<noteq> []) (described_by (form_fields m1 f)) in
        m1\<lparr>form_fields := (form_fields m1)(f := \<lparr>aria_invalid = True,
              described_by = (if msgId \<in> set existing then existing else existing @ [msgId])\<rparr>),
           invalid_of := (invalid_of m1)(msgId := Some f)\<rparr>))"

definition set_editor_msg :: "string \<Rightarrow> string option \<Rightarrow> form_marks \<Rightarrow> form_marks" where
  "set_editor_msg msgId fieldId m =
     (case fieldId of Some f \<Rightarrow> mark_field_invalid msgId f m | None \<Rightarrow> clear_field_invalid msgId m)"

definition row_is_filtered :: "string \<Rightarrow> string \<Rightarrow> bool" where
  "row_is_filtered filterText rowText =
     (let q = lower (trim filterText) in q \<noteq> [] \<and> \<not> includes_str rowText q)"

text \<open>Clearing a message undoes its marking: the field's own descriptions are as before.\<close>

lemma mark_then_clear_field:
  assumes "invalid_of m msgId = None" "msgId \<noteq> []" "msgId \<notin> set (described_by (form_fields m f))"
    "[] \<notin> set (described_by (form_fields m f))" "\<not> aria_invalid (form_fields m f)"
  shows "clear_field_invalid msgId (mark_field_invalid msgId f m) = m"
proof -
  have e: "filter (\<lambda>i. i \<noteq> []) (described_by (form_fields m f)) = described_by (form_fields m f)"
    "filter (\<lambda>i. i \<noteq> [] \<and> i \<noteq> msgId) (described_by (form_fields m f)) = described_by (form_fields m f)"
    using assms(3,4) by (auto simp: filter_id_conv)
  have "form_fields m f = \<lparr>aria_invalid = False, described_by = described_by (form_fields m f)\<rparr>"
    using assms(5) by (cases "form_fields m f") simp
  then have ff: "(form_fields m)(f := \<lparr>aria_invalid = False, described_by = described_by (form_fields m f)\<rparr>) = form_fields m"
    by (metis fun_upd_triv)
  have ii: "(invalid_of m)(msgId := None) = invalid_of m" using assms(1) by (metis fun_upd_triv)
  show ?thesis using assms e ff ii
    by (cases m) (simp add: mark_field_invalid_def clear_field_invalid_def Let_def)
qed

end
