(* ===== verification/Sidebar.thy ===== *)
theory Sidebar
  imports Lockout
begin

text \<open>
  \<open>core/sidebar.js\<close>: the version in the sidebar and the notice of a newer release. \<open>core/prefs.js\<close> and
  \<open>core/peers_data.js\<close>: the preferences kept on the host, and the rows of statistics looked up by key.
\<close>

section \<open>Versions\<close>

datatype semver = Semver (major: nat) (minor: nat) (patch: nat)

definition drop_v :: "string \<Rightarrow> string" where
  "drop_v s = (case s of [] \<Rightarrow> [] | c # cs \<Rightarrow> if c = CHR ''v'' \<or> c = CHR ''V'' then cs else s)"

text \<open>\<open>^(\d+)\.(\d+)\.(\d+)\<close>\<close>

definition leading_digits :: "string \<Rightarrow> (nat \<times> string) option" where
  "leading_digits s = (let d = takeWhile is_digit s in if d = [] then None else Some (parse_digits d, drop (length d) s))"

definition skip_dot :: "string \<Rightarrow> string option" where
  "skip_dot s = (case s of c # cs \<Rightarrow> if c = CHR ''.'' then Some cs else None | [] \<Rightarrow> None)"

definition parse_semver_prefix :: "string \<Rightarrow> semver option" where
  "parse_semver_prefix s =
     (case leading_digits (drop_v (trim s)) of None \<Rightarrow> None | Some (a, r1) \<Rightarrow>
     (case skip_dot r1 of None \<Rightarrow> None | Some r2 \<Rightarrow>
     (case leading_digits r2 of None \<Rightarrow> None | Some (b, r3) \<Rightarrow>
     (case skip_dot r3 of None \<Rightarrow> None | Some r4 \<Rightarrow>
     (case leading_digits r4 of None \<Rightarrow> None | Some (c, _) \<Rightarrow> Some (Semver a b c))))))"

definition semver_compare :: "semver option \<Rightarrow> semver option \<Rightarrow> int" where
  "semver_compare x y = (case (x, y) of
     (Some a, Some b) \<Rightarrow>
       (if major a \<noteq> major b then int (major a) - int (major b)
        else if minor a \<noteq> minor b then int (minor a) - int (minor b)
        else int (patch a) - int (patch b))
   | _ \<Rightarrow> 0)"

text \<open>Versions are ordered as their comparison says.\<close>

instantiation semver :: linorder
begin

definition less_eq_semver :: "semver \<Rightarrow> semver \<Rightarrow> bool" where
  "less_eq_semver a b \<longleftrightarrow> semver_compare (Some a) (Some b) \<le> 0"

definition less_semver :: "semver \<Rightarrow> semver \<Rightarrow> bool" where
  "less_semver a b \<longleftrightarrow> semver_compare (Some a) (Some b) < 0"

instance
proof
  fix x y z :: semver
  show "x < y \<longleftrightarrow> x \<le> y \<and> \<not> y \<le> x"
    by (cases x; cases y) (auto simp: less_eq_semver_def less_semver_def semver_compare_def)
  show "x \<le> x" by (simp add: less_eq_semver_def semver_compare_def)
  show "x \<le> z" if "x \<le> y" "y \<le> z"
    using that by (cases x; cases y; cases z) (auto simp: less_eq_semver_def semver_compare_def split: if_splits)
  show "x = y" if "x \<le> y" "y \<le> x"
    using that by (cases x; cases y) (auto simp: less_eq_semver_def semver_compare_def split: if_splits)
  show "x \<le> y \<or> y \<le> x"
    by (cases x; cases y) (auto simp: less_eq_semver_def semver_compare_def)
qed

end

definition show_semver :: "semver \<Rightarrow> string" where
  "show_semver v = show_nat (major v) @ ''.'' @ show_nat (minor v) @ ''.'' @ show_nat (patch v)"

lemma leading_digits_show:
  "(\<forall>c cs. r = c # cs \<longrightarrow> \<not> is_digit c) \<Longrightarrow> leading_digits (show_nat n @ r) = Some (n, r)"
proof -
  assume r: "\<forall>c cs. r = c # cs \<longrightarrow> \<not> is_digit c"
  have "takeWhile is_digit (show_nat n @ r) = show_nat n @ takeWhile is_digit r"
    using show_nat_digits by (simp add: takeWhile_append2)
  moreover have "takeWhile is_digit r = []" using r by (cases r) simp_all
  ultimately show ?thesis by (simp add: leading_digits_def)
qed

lemma parse_show_semver:
  assumes "\<forall>c cs. rest = c # cs \<longrightarrow> \<not> is_digit c" "trim (show_semver v @ rest) = show_semver v @ rest"
  shows "parse_semver_prefix (show_semver v @ rest) = Some v"
proof -
  obtain a b c where v: "v = Semver a b c" by (cases v)
  have "drop_v (show_nat n @ r) = show_nat n @ r" for n r
    using hd_show_nat [of n] by (cases "show_nat n") (auto simp: drop_v_def is_digit_def)
  with assms show ?thesis
    unfolding parse_semver_prefix_def v show_semver_def
    by (simp add: leading_digits_show skip_dot_def is_digit_def)
qed

section \<open>The notice of a newer release\<close>

definition UPDATE_CHECK_TTL_MS :: int where
  "UPDATE_CHECK_TTL_MS = 6 * 60 * 60 * 1000"

text \<open>
  The remembered answer as read from the session: its tag and time, each only when it has the right
  type.
\<close>

definition cached_tag :: "(string option \<times> int option) option \<Rightarrow> int \<Rightarrow> string option" where
  "cached_tag cached now = (case cached of
     Some (Some tag, Some t) \<Rightarrow> if now - t < UPDATE_CHECK_TTL_MS then Some tag else None
   | _ \<Rightarrow> None)"

definition latest_tag :: "(string option \<times> int option) option \<Rightarrow> int \<Rightarrow> string option \<Rightarrow> string option" where
  "latest_tag cached now fetchedTag = (case cached_tag cached now of
     Some tag \<Rightarrow> if tag \<noteq> [] then Some tag else fetchedTag | None \<Rightarrow> fetchedTag)"

text \<open>The tag of a release answer; without one the lookup fails.\<close>

definition release_tag :: "string \<Rightarrow> string option" where
  "release_tag tagName = (let tag = trim tagName in if tag = [] then None else Some tag)"

definition GITHUB_RELEASES_PAGE_BASE :: string where
  "GITHUB_RELEASES_PAGE_BASE = ''https://github.com/imevul/evuproxy''"

text \<open>The notice's link and text; none when it is hidden. \<open>enc\<close> is the browser's URI encoding.\<close>

definition sidebar_update_notice :: "(string \<Rightarrow> string) \<Rightarrow> string \<Rightarrow> string option \<Rightarrow> (string \<times> string) option" where
  "sidebar_update_notice enc currentVersion latest =
     (let cur = parse_semver_prefix currentVersion; vLow = lower (trim currentVersion) in
      if cur = None \<or> vLow = ''dev'' then None
      else (case latest of
          None \<Rightarrow> None
        | Some tag \<Rightarrow>
           (let remote = parse_semver_prefix tag in
            if remote = None \<or> semver_compare remote cur \<le> 0 then None
            else Some (GITHUB_RELEASES_PAGE_BASE @ ''/releases/tag/'' @ enc tag, ''New: v'' @ drop_v tag))))"

definition shown_version :: "string option \<Rightarrow> string" where
  "shown_version v = (case v of Some t \<Rightarrow> if trim t \<noteq> [] then trim t else mdash | None \<Rightarrow> mdash)"

text \<open>The notice shows exactly for a release that is newer than the version running.\<close>

lemma notice_iff_newer:
  "sidebar_update_notice enc v (Some tag) \<noteq> None \<longleftrightarrow>
     (\<exists>a b. parse_semver_prefix v = Some a \<and> parse_semver_prefix tag = Some b \<and> a < b) \<and> lower (trim v) \<noteq> ''dev''"
proof (cases "parse_semver_prefix v")
  case (Some a)
  show ?thesis
  proof (cases "parse_semver_prefix tag")
    case (Some b)
    have "semver_compare (Some b) (Some a) \<le> 0 \<longleftrightarrow> b \<le> a" by (simp add: less_eq_semver_def)
    with Some \<open>parse_semver_prefix v = Some a\<close> show ?thesis
      by (auto simp: sidebar_update_notice_def Let_def)
  qed (simp add: sidebar_update_notice_def Let_def)
qed (simp add: sidebar_update_notice_def Let_def)

section \<open>Preferences\<close>

record ui_prefs =
  peer_tunnel_subnet_cidr :: string
  wireguard_server_endpoint :: string
  metrics_collection_enabled :: bool

definition default_peer_subnet_cidr :: string where
  "default_peer_subnet_cidr = ''10.100.0.0/24''"

definition no_prefs :: ui_prefs where
  "no_prefs = \<lparr>peer_tunnel_subnet_cidr = [], wireguard_server_endpoint = [], metrics_collection_enabled = False\<rparr>"

text \<open>Values an older version kept in the browser fill what the host does not have.\<close>

definition stored_or_empty :: "string option \<Rightarrow> string" where
  "stored_or_empty s = (case s of Some t \<Rightarrow> trim t | None \<Rightarrow> [])"

definition migrate_from_local_storage_if_empty :: "string option \<Rightarrow> string option \<Rightarrow> ui_prefs \<Rightarrow> ui_prefs" where
  "migrate_from_local_storage_if_empty subnet endpoint p =
     (let p1 = (if peer_tunnel_subnet_cidr p = [] \<and> stored_or_empty subnet \<noteq> []
                then p\<lparr>peer_tunnel_subnet_cidr := stored_or_empty subnet\<rparr> else p) in
      if wireguard_server_endpoint p1 = [] \<and> stored_or_empty endpoint \<noteq> []
      then p1\<lparr>wireguard_server_endpoint := stored_or_empty endpoint\<rparr> else p1)"

definition fetch_ui_prefs_from_server :: "string option \<Rightarrow> string option \<Rightarrow> ui_prefs \<Rightarrow> ui_prefs" where
  "fetch_ui_prefs_from_server subnet endpoint p =
     migrate_from_local_storage_if_empty subnet endpoint
       \<lparr>peer_tunnel_subnet_cidr = (if trim (peer_tunnel_subnet_cidr p) = [] then default_peer_subnet_cidr else trim (peer_tunnel_subnet_cidr p)),
        wireguard_server_endpoint = trim (wireguard_server_endpoint p),
        metrics_collection_enabled = metrics_collection_enabled p\<rparr>"

text \<open>The preferences and whether they have been fetched; without an answer the stored ones stand in.\<close>

definition ensure_ui_prefs :: "string option \<Rightarrow> string option \<Rightarrow> ui_prefs option \<Rightarrow> ui_prefs \<times> bool \<Rightarrow> ui_prefs \<times> bool" where
  "ensure_ui_prefs subnet endpoint answer c =
     (if snd c then c
      else (case answer of
          Some p \<Rightarrow> (fetch_ui_prefs_from_server subnet endpoint p, True)
        | None \<Rightarrow> (migrate_from_local_storage_if_empty subnet endpoint no_prefs, True)))"

lemma prefs_have_a_subnet: "peer_tunnel_subnet_cidr (fetch_ui_prefs_from_server subnet endpoint p) \<noteq> []"
  by (simp add: fetch_ui_prefs_from_server_def migrate_from_local_storage_if_empty_def default_peer_subnet_cidr_def Let_def)

lemma ensure_ui_prefs_idem:
  "ensure_ui_prefs s e a' (ensure_ui_prefs s e a c) = ensure_ui_prefs s e a c"
  by (simp add: ensure_ui_prefs_def split: option.split)

section \<open>Rows by key\<close>

definition PEER_ONLINE_MAX_HANDSHAKE_AGE_SEC :: int where
  "PEER_ONLINE_MAX_HANDSHAKE_AGE_SEC = 180"

text \<open>\<open>new Map()\<close> filled in order: the last row of a key wins, and rows without one are left out.\<close>

definition map_by_key :: "string \<Rightarrow> json list \<Rightarrow> (string \<rightharpoonup> json)" where
  "map_by_key k rows = fold (\<lambda>row m. let key = trim (str_or_empty (member_json row k)) in
     if key \<noteq> [] then m(key \<mapsto> row) else m) rows Map.empty"

definition peer_metrics_map :: "json \<Rightarrow> (string \<rightharpoonup> json)" where
  "peer_metrics_map bd = map_by_key ''tunnel_ip'' (array_elems (member_json bd ''peers''))"

definition wg_peer_pub_key_map :: "jsval \<Rightarrow> (string \<rightharpoonup> json)" where
  "wg_peer_pub_key_map st = map_by_key ''public_key'' (array_elems (at_member st ''wireguard_peers''))"

lemma map_by_key_rows: "ran (map_by_key k rows) \<subseteq> set rows"
proof -
  have "ran (fold (\<lambda>row m. let key = trim (str_or_empty (member_json row k)) in if key \<noteq> [] then m(key \<mapsto> row) else m) rows m) \<subseteq> ran m \<union> set rows" for m
  proof (induction rows arbitrary: m)
    case (Cons row rows)
    have "ran (let key = trim (str_or_empty (member_json row k)) in if key \<noteq> [] then m(key \<mapsto> row) else m) \<subseteq> insert row (ran m)"
      by (auto simp: Let_def ran_def)
    with Cons [of "let key = trim (str_or_empty (member_json row k)) in if key \<noteq> [] then m(key \<mapsto> row) else m"]
    show ?case by auto
  qed simp
  from this [of Map.empty] show ?thesis by (simp add: map_by_key_def)
qed

end
