(* ===== verification/Peers.thy ===== *)
theory Peers
  imports Config_Save Net Sidebar Table_Sort Json_Canon
begin

text \<open>
  \<open>pages/peers.js\<close>: the address suggested for a new peer, what the table shows of a peer, and the edits
  of the peer list: turning a peer off and on with its routes, removing it, and taking both back.

  An edit is a function of the config it is applied to, as \<open>saveConfigEdit\<close> wants it; a failed look-up
  is a merge failure with its message.
\<close>

section \<open>Reading the config\<close>

definition list_of :: "jsval \<Rightarrow> json list option" where
  "list_of v = (case v of Some (JArr xs) \<Rightarrow> Some xs | _ \<Rightarrow> None)"

definition rows_or_none :: "jsval \<Rightarrow> json list" where
  "rows_or_none v = (case list_of v of Some xs \<Rightarrow> xs | None \<Rightarrow> [])"

definition config_peers :: "json \<Rightarrow> json list" where
  "config_peers cfg = rows_or_none (member_json cfg ''peers'')"

definition routes_of :: "json \<Rightarrow> json list" where
  "routes_of cfg = rows_or_none (at_member (member_json cfg ''forwarding'') ''routes'')"

definition with_peers :: "json \<Rightarrow> json list \<Rightarrow> json" where
  "with_peers cfg ps = with_key cfg ''peers'' (JArr ps)"

text \<open>Rows changed in place: a config without routes has none to change.\<close>

definition with_routes :: "json \<Rightarrow> json list \<Rightarrow> json" where
  "with_routes cfg rs = (case member_json cfg ''forwarding'' of
     Some fw \<Rightarrow> if list_of (member_json fw ''routes'') \<noteq> None
       then with_key cfg ''forwarding'' (with_key fw ''routes'' (JArr rs)) else cfg
   | None \<Rightarrow> cfg)"

section \<open>The address suggested for a new peer\<close>

definition peer_subnet_cidr :: "ui_prefs \<Rightarrow> string" where
  "peer_subnet_cidr p = (let v = trim (peer_tunnel_subnet_cidr p) in
     if v \<noteq> [] \<and> parse_ipv4_cidr v \<noteq> None then v else default_peer_subnet_cidr)"

definition in_subnet :: "cidr \<Rightarrow> string \<Rightarrow> ipv4 list" where
  "in_subnet c host = (case ipv4_to_int host of Some hi \<Rightarrow> if ip_in_cidr hi c then [hi] else [] | None \<Rightarrow> [])"

definition used_addresses :: "json \<Rightarrow> cidr \<Rightarrow> ipv4 list" where
  "used_addresses cfg c =
     (let addr = at_member (member_json cfg ''wireguard'') ''address'' in
      (if truthy addr then in_subnet c (before_char (CHR ''/'') (str_or_empty addr)) else []) @
      concat (map (\<lambda>p. let tip = member_json p ''tunnel_ip'' in
        if truthy tip then in_subnet c (tunnel_to_host (str_or_empty tip)) else []) (config_peers cfg)) @
      concat (map (\<lambda>r. let tip = member_json r ''target_ip'' in
        if truthy tip then in_subnet c (trim (str_or_empty tip)) else []) (routes_of cfg)))"

lemma unat_next: "ip < bc \<Longrightarrow> unat (ip + 1 :: ipv4) = Suc (unat ip)"
proof -
  assume "ip < bc"
  then have "unat ip < unat bc" by (simp add: word_less_nat_alt)
  moreover have "unat bc < 2 ^ 32" using unsigned_less [of bc] by simp
  ultimately show ?thesis by (simp add: unat_word_ariths)
qed

function first_free :: "ipv4 list \<Rightarrow> ipv4 \<Rightarrow> ipv4 \<Rightarrow> ipv4 option" where
  "first_free used ip bc =
     (if ip < bc then (if ip \<notin> set used then Some ip else first_free used (ip + 1) bc) else None)"
  by pat_completeness auto
termination
  by (relation "measure (\<lambda>(used, ip, bc). unat bc - unat ip)") (auto simp: unat_next word_less_nat_alt)

declare first_free.simps [simp del]

definition suggested_peer_tunnel_ip :: "ui_prefs \<Rightarrow> json \<Rightarrow> string" where
  "suggested_peer_tunnel_ip p cfg = (case parse_ipv4_cidr (peer_subnet_cidr p) of
     None \<Rightarrow> []
   | Some c \<Rightarrow>
       if prefix_len c \<ge> 31 then []
       else (case first_free (used_addresses cfg c) (network c + 1) (broadcast c) of
           Some ip \<Rightarrow> int_to_ipv4 ip @ ''/32'' | None \<Rightarrow> []))"

lemma first_free_Some:
  "first_free used ip bc = Some a \<Longrightarrow>
     ip \<le> a \<and> a < bc \<and> a \<notin> set used \<and> (\<forall>b. ip \<le> b \<longrightarrow> b < a \<longrightarrow> b \<in> set used)"
proof (induction used ip bc rule: first_free.induct)
  case (1 used ip bc)
  show ?case
  proof (cases "ip < bc \<and> ip \<in> set used")
    case True
    then have next_le: "ip < a" if "ip + 1 \<le> a"
      using that unat_next [of ip bc] by (simp add: word_less_nat_alt word_le_nat_alt)
    have split: "b = ip \<or> ip + 1 \<le> b" if "ip \<le> b" for b
      using that True unat_next [of ip bc] by (auto simp: word_le_nat_alt word_unat_eq_iff)
    from True 1 have "ip + 1 \<le> a \<and> a < bc \<and> a \<notin> set used \<and> (\<forall>b. ip + 1 \<le> b \<longrightarrow> b < a \<longrightarrow> b \<in> set used)"
      by (subst (asm) first_free.simps) auto
    with next_le split True show ?thesis by (auto intro: order.strict_implies_order)
  next
    case False
    with 1 show ?thesis by (subst (asm) first_free.simps) (auto split: if_splits)
  qed
qed

lemma first_free_None: "first_free used ip bc = None \<Longrightarrow> ip \<le> b \<Longrightarrow> b < bc \<Longrightarrow> b \<in> set used"
proof (induction used ip bc rule: first_free.induct)
  case (1 used ip bc)
  then have "ip < bc" by order
  with "1.prems" have used: "ip \<in> set used" "first_free used (ip + 1) bc = None"
    by (subst (asm) first_free.simps, auto split: if_splits)+
  have "b = ip \<or> ip + 1 \<le> b"
    using "1.prems" \<open>ip < bc\<close> unat_next [of ip bc] by (auto simp: word_le_nat_alt word_unat_eq_iff)
  with 1 used \<open>ip < bc\<close> show ?case by auto
qed

lemma network_has_successor:
  assumes "parse_ipv4_cidr t = Some c" "prefix_len c < 32"
  shows "network c < network c + 1"
proof -
  have "\<not> bit (network c) 0"
    using assms by (auto simp: parse_ipv4_cidr_def Let_def bit_and_iff bit_not_iff bit_mask_iff split: option.splits prod.splits if_splits)
  then have "network c \<noteq> - 1" by auto
  then have "unat (network c) \<noteq> 2 ^ 32 - 1"
    by (simp add: word_unat_eq_iff unsigned_minus_1_eq_mask mask_eq_exp_minus_1)
  moreover have "unat (network c) < 2 ^ 32" using unsigned_less [of "network c"] by simp
  ultimately have "unat (network c) + 1 < 2 ^ 32" by simp
  then show ?thesis by (simp add: word_less_nat_alt unat_word_ariths)
qed

lemma successor_le_iff: "nw < nw + 1 \<Longrightarrow> (nw + 1 :: ipv4) \<le> x \<longleftrightarrow> nw < x"
  using unat_next [of nw "nw + 1"] by (simp add: word_le_nat_alt word_less_nat_alt Suc_le_eq)

text \<open>The addresses a config takes: its server's, its peers', and those its routes forward to.\<close>

definition takes_address :: "json \<Rightarrow> ipv4 \<Rightarrow> bool" where
  "takes_address cfg ip \<longleftrightarrow>
     ipv4_to_int (before_char (CHR ''/'') (str_or_empty (at_member (member_json cfg ''wireguard'') ''address''))) = Some ip \<or>
     (\<exists>p \<in> set (config_peers cfg). ipv4_to_int (tunnel_to_host (str_or_empty (member_json p ''tunnel_ip''))) = Some ip) \<or>
     (\<exists>r \<in> set (routes_of cfg). ipv4_to_int (trim (str_or_empty (member_json r ''target_ip''))) = Some ip)"

lemma no_address_in_empty: "ipv4_to_int [] = None"
  by code_simp

lemma in_subnet_iff: "ip \<in> set (in_subnet c h) \<longleftrightarrow> ipv4_to_int h = Some ip \<and> ip_in_cidr ip c"
  by (auto simp: in_subnet_def split: option.split)

lemma not_truthy_text: "\<not> truthy v \<Longrightarrow> str_or_empty v = []"
  by (simp add: str_or_empty_def)

lemma in_subnet_of_text:
  "ipv4_to_int (f []) = None \<Longrightarrow> ip \<in> set (if truthy v then in_subnet c (f (str_or_empty v)) else []) \<longleftrightarrow>
     ipv4_to_int (f (str_or_empty v)) = Some ip \<and> ip_in_cidr ip c"
  by (cases "truthy v") (simp_all add: in_subnet_iff not_truthy_text)

lemma in_concat_map: "x \<in> set (concat (map g ys)) \<longleftrightarrow> (\<exists>y \<in> set ys. x \<in> set (g y))"
  by simp

lemma used_addresses_iff: "ip \<in> set (used_addresses cfg c) \<longleftrightarrow> takes_address cfg ip \<and> ip_in_cidr ip c"
proof -
  have n: "ipv4_to_int (before_char (CHR ''/'') []) = None" "ipv4_to_int (tunnel_to_host []) = None" "ipv4_to_int (trim []) = None"
    by code_simp+
  show ?thesis
    unfolding used_addresses_def takes_address_def Let_def set_append Un_iff in_concat_map
      in_subnet_of_text [of "before_char (CHR ''/'')", OF n(1)] in_subnet_of_text [of tunnel_to_host, OF n(2)]
      in_subnet_of_text [of trim, OF n(3)]
    by blast
qed

text \<open>C37
  The address suggested for a new peer is free: it is the lowest address strictly between the
  subnet's network and broadcast addresses that neither the server nor a peer nor a route's target has.
  Nothing is suggested only when the subnet is too small for hosts or every address in it is taken.
\<close>

theorem suggested_address_is_the_lowest_free:
  assumes "parse_ipv4_cidr (peer_subnet_cidr p) = Some c"
  shows "(\<exists>ip. suggested_peer_tunnel_ip p cfg = int_to_ipv4 ip @ ''/32'' \<and> network c < ip \<and> ip < broadcast c \<and>
            \<not> takes_address cfg ip \<and> (\<forall>j. network c < j \<longrightarrow> j < ip \<longrightarrow> takes_address cfg j)) \<or>
         suggested_peer_tunnel_ip p cfg = [] \<and>
            (31 \<le> prefix_len c \<or> (\<forall>j. network c < j \<longrightarrow> j < broadcast c \<longrightarrow> takes_address cfg j))"
proof (cases "31 \<le> prefix_len c")
  case True
  with assms show ?thesis by (simp add: suggested_peer_tunnel_ip_def)
next
  case False
  have nw: "network c < network c + 1" by (rule network_has_successor [OF assms]) (use False in simp)
  note le = successor_le_iff [OF nw]
  have inside: "ip_in_cidr j c" if "network c < j" "j < broadcast c" for j using that by (auto simp: ip_in_cidr_def)
  show ?thesis
  proof (cases "first_free (used_addresses cfg c) (network c + 1) (broadcast c)")
    case None
    with assms False have "suggested_peer_tunnel_ip p cfg = []" by (simp add: suggested_peer_tunnel_ip_def)
    moreover have "takes_address cfg j" if "network c < j" "j < broadcast c" for j
      using first_free_None [OF None, of j] that by (simp add: le used_addresses_iff)
    ultimately show ?thesis by blast
  next
    case (Some ip)
    with assms False have "suggested_peer_tunnel_ip p cfg = int_to_ipv4 ip @ ''/32''"
      by (simp add: suggested_peer_tunnel_ip_def)
    moreover note first_free_Some [OF Some, unfolded le used_addresses_iff]
    ultimately show ?thesis using inside by (metis order.strict_trans)
  qed
qed

definition toy_prefs :: ui_prefs where
  "toy_prefs = \<lparr>peer_tunnel_subnet_cidr = ''10.9.0.0/29'', wireguard_server_endpoint = [], metrics_collection_enabled = False\<rparr>"

definition toy_peers :: json where
  "toy_peers = JObj
    [(''wireguard'', JObj [(''address'', JStr ''10.9.0.1/24'')]),
     (''peers'', JArr [JObj [(''public_key'', JStr ''k1''), (''tunnel_ip'', JStr ''10.9.0.2/32'')]]),
     (''forwarding'', JObj [(''routes'', JArr [JObj [(''proto'', JStr ''tcp''), (''target_ip'', JStr ''10.9.0.2'')]])])]"

theorem suggested_address_is_the_lowest_free_witness:
  "\<exists>ip. suggested_peer_tunnel_ip toy_prefs toy_peers = int_to_ipv4 ip @ ''/32'' \<and> \<not> takes_address toy_peers ip"
proof -
  have "map_option prefix_len (parse_ipv4_cidr (peer_subnet_cidr toy_prefs)) = Some 29" by code_simp
  then obtain c where "parse_ipv4_cidr (peer_subnet_cidr toy_prefs) = Some c" by auto
  moreover have "suggested_peer_tunnel_ip toy_prefs toy_peers = ''10.9.0.3/32''" by code_simp
  ultimately show ?thesis using suggested_address_is_the_lowest_free [of toy_prefs c toy_peers] by auto
qed

section \<open>Turning a peer off, with its routes\<close>

text \<open>Rows are objects, as the API types them.\<close>

definition peer_tunnel_host :: "json \<Rightarrow> string" where
  "peer_tunnel_host peer = tunnel_host_only (str_or_empty (member_json peer ''tunnel_ip''))"

definition forwards_to :: "string \<Rightarrow> json \<Rightarrow> bool" where
  "forwards_to tip r \<longleftrightarrow> truthy (Some r) \<and> \<not> truthy (member_json r ''disabled'') \<and>
     trim (str_or_empty (member_json r ''target_ip'')) = tip"

definition dependent_routes_for_peer :: "json \<Rightarrow> json \<Rightarrow> (nat \<times> json) list" where
  "dependent_routes_for_peer cfg peer =
     (let tip = peer_tunnel_host peer in
      if tip = [] then [] else filter (\<lambda>(i, r). forwards_to tip r) (enumerate 0 (routes_of cfg)))"

definition set_row_disabled :: "bool \<Rightarrow> json \<Rightarrow> json" where
  "set_row_disabled off r = with_key r ''disabled'' (JBool off)"

type_synonym cascade = "(nat \<times> string) list"

definition disable_dependent_routes :: "json \<Rightarrow> json \<Rightarrow> json \<times> cascade" where
  "disable_dependent_routes cfg peer =
     (let dep = dependent_routes_for_peer cfg peer in
      (with_routes cfg (map (\<lambda>(i, r). if (i, r) \<in> set dep then set_row_disabled True r else r) (enumerate 0 (routes_of cfg))),
       map (\<lambda>(i, r). (i, route_identity (set_row_disabled True r))) dep))"

definition reenable_route :: "nat \<times> string \<Rightarrow> json list \<times> nat \<Rightarrow> json list \<times> nat" where
  "reenable_route d c = (case (d, c) of ((index, identity), (routes, missing)) \<Rightarrow>
     (let i = resolve_list_index (Some routes) (int index) identity route_identity in
      if i \<ge> 0 then (routes[nat i := set_row_disabled False (routes ! nat i)], missing) else (routes, Suc missing)))"

definition reenable_routes :: "json \<Rightarrow> cascade \<Rightarrow> json \<times> nat" where
  "reenable_routes cfg ds = (case fold reenable_route ds (routes_of cfg, 0) of (routes, missing) \<Rightarrow> (with_routes cfg routes, missing))"

definition route_count :: "nat \<Rightarrow> string" where
  "route_count n = (if n = 1 then ''1 route'' else show_nat n @ '' routes'')"

definition undone_message :: "string \<Rightarrow> nat \<Rightarrow> string" where
  "undone_message what missing =
     (if missing = 0 then what @ ''.''
      else what @ ''. '' @ route_count missing @ '' changed elsewhere and stayed disabled.'')"

definition peer_identity :: "json \<Rightarrow> string" where
  "peer_identity p = str_or_empty (member_json p ''public_key'')"

definition set_peer_disabled :: "int \<Rightarrow> string \<Rightarrow> bool \<Rightarrow> json \<Rightarrow> string + json \<times> json \<times> cascade" where
  "set_peer_disabled index identity off c =
     (case find_config_row (list_of (member_json c ''peers'')) index identity peer_identity ''peer'' of
        Inl e \<Rightarrow> Inl e
      | Inr i \<Rightarrow>
         (let (c1, cascaded) = (if off then disable_dependent_routes c (config_peers c ! i) else (c, []));
              p = set_row_disabled off (config_peers c ! i) in
          Inr (with_peers c1 ((config_peers c1)[i := p]), p, cascaded)))"

definition peer_name_or :: "json \<Rightarrow> string" where
  "peer_name_or p = (let n = str_or_empty (member_json p ''name'') in if n = [] then ''peer'' else n)"

definition peer_switch_label :: "string \<Rightarrow> bool \<Rightarrow> cascade \<Rightarrow> string" where
  "peer_switch_label name off cascaded =
     (if cascaded \<noteq> [] then ''Disabled '' @ name @ '' and '' @ route_count (length cascaded) @ ''.''
      else if off then ''Peer disabled'' else ''Peer enabled'')"

text \<open>Undo: the edit that takes the switch back, with what it will say.\<close>

definition undo_peer_disabled :: "int \<Rightarrow> string \<Rightarrow> bool \<Rightarrow> string \<Rightarrow> cascade \<Rightarrow> json \<Rightarrow> string + json \<times> string" where
  "undo_peer_disabled index identity disabled name cascaded c =
     (case set_peer_disabled index identity (\<not> disabled) c of
        Inl e \<Rightarrow> Inl e
      | Inr (c1, _, reversed) \<Rightarrow>
         (let (c2, missing) = reenable_routes c1 cascaded in
          Inr (c2, if cascaded \<noteq> [] then undone_message (''Enabled '' @ name @ '' and its routes'') missing
                   else peer_switch_label name (\<not> disabled) reversed)))"

text \<open>Removing a peer, and putting it back.\<close>

definition remove_peer :: "int \<Rightarrow> string \<Rightarrow> json \<Rightarrow> string + json \<times> json \<times> nat \<times> cascade" where
  "remove_peer index identity draft =
     (case find_config_row (list_of (member_json draft ''peers'')) index identity peer_identity ''peer'' of
        Inl e \<Rightarrow> Inl e
      | Inr removedAt \<Rightarrow>
         (let removed = config_peers draft ! removedAt;
              (c1, cascaded) = disable_dependent_routes draft removed in
          Inr (with_peers c1 (take removedAt (config_peers c1) @ drop (Suc removedAt) (config_peers c1)), removed, removedAt, cascaded)))"

definition undo_remove_peer :: "json \<Rightarrow> nat \<Rightarrow> string \<Rightarrow> cascade \<Rightarrow> json \<Rightarrow> string + json \<times> string" where
  "undo_remove_peer removed removedAt identity cascaded draft =
     (if list_ex (\<lambda>p. peer_identity p = identity) (config_peers draft)
      then Inl (peer_name_or removed @ '' is already back in the config, so nothing was restored.'')
      else (let k = min removedAt (length (config_peers draft));
                (c, missing) = reenable_routes (with_peers draft (take k (config_peers draft) @ removed # drop k (config_peers draft))) cascaded in
        Inr (c, undone_message (''Restored '' @ peer_name_or removed @ (if cascaded \<noteq> [] then '' and its routes'' else [])) missing)))"

section \<open>What these edits do to the rows\<close>

lemma put_key_twice: "put_key k v (put_key k w kvs) = put_key k v kvs"
  by (induction kvs) auto

lemma member_json_with_key [simp]: "member_json (with_key r k x) k' = (if k' = k then Some x else member_json r k')"
  by (cases r) (simp_all add: with_key_def)

lemma set_row_disabled_twice [simp]: "set_row_disabled b (set_row_disabled b' r) = set_row_disabled b r"
  by (cases r) (simp_all add: set_row_disabled_def with_key_def put_key_twice)

lemma set_row_disabled_members [simp]:
  "member_json (set_row_disabled b r) ''disabled'' = Some (JBool b)"
  "k \<noteq> ''disabled'' \<Longrightarrow> member_json (set_row_disabled b r) k = member_json r k"
  by (simp_all add: set_row_disabled_def)

lemma set_row_disabled_not_null [simp]: "set_row_disabled b r \<noteq> JNull"
  by (cases r) (simp_all add: set_row_disabled_def with_key_def)

lemma identity_set_row_disabled [simp]:
  "route_identity (set_row_disabled b r) = route_identity r" "peer_identity (set_row_disabled b r) = peer_identity r"
  by (simp_all add: route_identity_def peer_identity_def)

lemma config_peers_with_peers [simp]: "config_peers (with_peers cfg ps) = ps"
  by (simp add: config_peers_def with_peers_def rows_or_none_def list_of_def)

lemma routes_of_with_peers [simp]: "routes_of (with_peers cfg ps) = routes_of cfg"
  by (simp add: routes_of_def with_peers_def)

lemma config_peers_with_routes [simp]: "config_peers (with_routes cfg rs) = config_peers cfg"
  by (simp add: config_peers_def with_routes_def split: option.split)

lemma peers_member_with_routes [simp]: "member_json (with_routes cfg rs) ''peers'' = member_json cfg ''peers''"
  by (simp add: with_routes_def split: option.split)

lemma routes_of_with_routes:
  "length rs = length (routes_of cfg) \<Longrightarrow> routes_of (with_routes cfg rs) = rs"
  by (auto simp: routes_of_def with_routes_def rows_or_none_def list_of_def at_member_def split: option.splits json.splits)

lemma dependent_iff:
  "(i, r) \<in> set (dependent_routes_for_peer cfg peer) \<longleftrightarrow>
     peer_tunnel_host peer \<noteq> [] \<and> i < length (routes_of cfg) \<and> routes_of cfg ! i = r \<and> forwards_to (peer_tunnel_host peer) r"
  by (auto simp: dependent_routes_for_peer_def Let_def in_set_enumerate_eq)

text \<open>The routes a cascade leaves, and the routes an Undo leaves.\<close>

definition switched :: "bool \<Rightarrow> json \<Rightarrow> json \<Rightarrow> json" where
  "switched off peer r =
     (if peer_tunnel_host peer \<noteq> [] \<and> forwards_to (peer_tunnel_host peer) r then set_row_disabled off r else r)"

lemma nth_cascade:
  "i < length (routes_of cfg) \<Longrightarrow>
     map (\<lambda>(i, r). if (i, r) \<in> set (dependent_routes_for_peer cfg peer) then set_row_disabled True r else r) (enumerate 0 (routes_of cfg)) ! i
       = switched True peer (routes_of cfg ! i)"
  by (auto simp: nth_enumerate_eq dependent_iff switched_def)

lemma cascaded_routes: "routes_of (fst (disable_dependent_routes cfg peer)) = map (switched True peer) (routes_of cfg)"
proof -
  have "map (\<lambda>(i, r). if (i, r) \<in> set (dependent_routes_for_peer cfg peer) then set_row_disabled True r else r) (enumerate 0 (routes_of cfg))
      = map (switched True peer) (routes_of cfg)"
    by (rule nth_equalityI) (use nth_cascade in \<open>auto simp: nth_enumerate_eq\<close>)
  then show ?thesis by (simp add: disable_dependent_routes_def Let_def routes_of_with_routes)
qed

lemma resolve_own_index:
  "\<lbrakk>i < length rs; rs ! i \<noteq> JNull; ident (rs ! i) = d\<rbrakk> \<Longrightarrow> resolve_list_index (Some rs) (int i) d ident = int i"
  by (simp add: resolve_list_index_def)

lemma reenable_fold:
  assumes "distinct (map fst ds)"
    "\<forall>(i, d) \<in> set ds. i < length rs \<and> rs ! i \<noteq> JNull \<and> route_identity (rs ! i) = d"
  shows "fold reenable_route ds (rs, m) =
     (map (\<lambda>i. if i \<in> fst ` set ds then set_row_disabled False (rs ! i) else rs ! i) [0..<length rs], m)"
  using assms
proof (induction ds arbitrary: rs)
  case Nil
  then show ?case by (simp add: map_nth)
next
  case (Cons e ds)
  obtain i d where e: "e = (i, d)" by (cases e)
  let ?rs = "rs[i := set_row_disabled False (rs ! i)]"
  from Cons.prems e have i: "i < length rs" "rs ! i \<noteq> JNull" "route_identity (rs ! i) = d" "i \<notin> fst ` set ds" by auto
  have step: "reenable_route e (rs, m) = (?rs, m)"
    using resolve_own_index [of i rs route_identity d] i by (simp add: reenable_route_def e)
  have "\<forall>(j, d') \<in> set ds. j < length ?rs \<and> ?rs ! j \<noteq> JNull \<and> route_identity (?rs ! j) = d'"
  proof clarify
    fix j d' assume j: "(j, d') \<in> set ds"
    then have "j \<noteq> i" using i(4) by force
    moreover have "j < length rs \<and> rs ! j \<noteq> JNull \<and> route_identity (rs ! j) = d'" using Cons.prems(2) j by auto
    ultimately show "j < length ?rs \<and> ?rs ! j \<noteq> JNull \<and> route_identity (?rs ! j) = d'" by simp
  qed
  with Cons.IH [of ?rs] Cons.prems(1) e have "fold reenable_route ds (?rs, m) =
      (map (\<lambda>j. if j \<in> fst ` set ds then set_row_disabled False (?rs ! j) else ?rs ! j) [0..<length rs], m)"
    by simp
  also have "map (\<lambda>j. if j \<in> fst ` set ds then set_row_disabled False (?rs ! j) else ?rs ! j) [0..<length rs] =
      map (\<lambda>j. if j \<in> fst ` set (e # ds) then set_row_disabled False (rs ! j) else rs ! j) [0..<length rs]"
    using i e by (intro map_cong refl) (auto simp: nth_list_update)
  finally show ?case using step by simp
qed

lemma cascade_rows:
  assumes "c = snd (disable_dependent_routes cfg peer)" "rs = map (switched True peer) (routes_of cfg)"
  shows "distinct (map fst c)"
    and "\<forall>(i, d) \<in> set c. i < length rs \<and> rs ! i \<noteq> JNull \<and> route_identity (rs ! i) = d"
    and "i < length (routes_of cfg) \<Longrightarrow> i \<in> fst ` set c \<longleftrightarrow>
      peer_tunnel_host peer \<noteq> [] \<and> forwards_to (peer_tunnel_host peer) (routes_of cfg ! i)"
proof -
  have c: "c = map (\<lambda>(i, r). (i, route_identity (set_row_disabled True r))) (dependent_routes_for_peer cfg peer)"
    by (simp add: assms(1) disable_dependent_routes_def Let_def)
  have f: "map fst c = map fst (dependent_routes_for_peer cfg peer)" by (simp add: c case_prod_beta comp_def)
  have "distinct (map fst (filter P (enumerate 0 xs)))" for P and xs :: "json list"
    by (rule distinct_map_filter) simp
  then show "distinct (map fst c)" unfolding f dependent_routes_for_peer_def Let_def by simp
  show "\<forall>(i, d) \<in> set c. i < length rs \<and> rs ! i \<noteq> JNull \<and> route_identity (rs ! i) = d"
    by (auto simp: c assms(2) dependent_iff switched_def)
  have "fst ` set c = fst ` set (dependent_routes_for_peer cfg peer)" by (metis f set_map)
  then show "i < length (routes_of cfg) \<Longrightarrow> i \<in> fst ` set c \<longleftrightarrow>
      peer_tunnel_host peer \<noteq> [] \<and> forwards_to (peer_tunnel_host peer) (routes_of cfg ! i)"
    by (auto simp: dependent_iff image_iff Bex_def)
qed

lemma undo_cascade:
  assumes "routes_of cfg' = map (switched True peer) (routes_of cfg)"
  shows "\<exists>cfg''. reenable_routes cfg' (snd (disable_dependent_routes cfg peer)) = (cfg'', 0) \<and>
     routes_of cfg'' = map (switched False peer) (routes_of cfg) \<and> config_peers cfg'' = config_peers cfg' \<and>
     cfg'' = with_routes cfg' (map (switched False peer) (routes_of cfg))"
proof -
  let ?c = "snd (disable_dependent_routes cfg peer)" and ?rs = "map (switched True peer) (routes_of cfg)"
  note rows = cascade_rows [where cfg = cfg and peer = peer, OF refl refl]
  have fold_eq: "fold reenable_route ?c (routes_of cfg', 0) =
      (map (\<lambda>i. if i \<in> fst ` set ?c then set_row_disabled False (?rs ! i) else ?rs ! i) [0..<length ?rs], 0)"
    unfolding assms by (rule reenable_fold [OF rows(1,2)])
  have "map (\<lambda>i. if i \<in> fst ` set ?c then set_row_disabled False (?rs ! i) else ?rs ! i) [0..<length ?rs] =
      map (switched False peer) (routes_of cfg)"
    by (rule nth_equalityI) (auto simp: rows(3) switched_def)
  with fold_eq have "fold reenable_route ?c (routes_of cfg', 0) = (map (switched False peer) (routes_of cfg), 0)" by simp
  then show ?thesis by (simp add: reenable_routes_def routes_of_with_routes assms)
qed

lemma find_config_row_found:
  assumes "find_config_row lst openIndex identity ident what = Inr i"
  shows "\<exists>rows. lst = Some rows \<and> i < length rows \<and> ident (rows ! i) = identity"
proof (cases lst)
  case None
  with assms show ?thesis by (simp add: find_config_row_def resolve_list_index_def Let_def)
next
  case (Some rows)
  let ?hit = "0 \<le> openIndex \<and> openIndex < int (length rows) \<and> rows ! nat openIndex \<noteq> JNull \<and> ident (rows ! nat openIndex) = identity"
  show ?thesis
  proof (cases ?hit)
    case True
    then have "i = nat openIndex"
      using assms Some by (simp add: find_config_row_def resolve_list_index_def Let_def split: if_splits)
    with True Some show ?thesis by auto
  next
    case False
    define hits where "hits = filter (\<lambda>i. ident (rows ! i) = identity) [0..<length rows]"
    have r: "resolve_list_index lst openIndex identity ident = (case hits of [] \<Rightarrow> -1 | [i] \<Rightarrow> int i | _ \<Rightarrow> -2)"
      unfolding Some resolve_list_index_def hits_def option.case if_not_P [OF False] by (rule refl)
    have "hits = [i]"
      using assms unfolding find_config_row_def r Let_def by (auto split: list.splits if_splits)
    then have "i \<in> set (filter (\<lambda>i. ident (rows ! i) = identity) [0..<length rows])" by (simp add: hits_def)
    with Some show ?thesis by simp
  qed
qed

lemma resolve_list_index_cong:
  assumes "length rows' = length rows" "\<forall>j < length rows. ident (rows' ! j) = ident (rows ! j) \<and> (rows' ! j = JNull \<longleftrightarrow> rows ! j = JNull)"
  shows "resolve_list_index (Some rows') openIndex identity ident = resolve_list_index (Some rows) openIndex identity ident"
proof -
  have "filter (\<lambda>i. ident (rows' ! i) = identity) [0..<length rows'] = filter (\<lambda>i. ident (rows ! i) = identity) [0..<length rows]"
    using assms by (intro filter_cong) auto
  moreover have "nat openIndex < length rows" if "0 \<le> openIndex" "openIndex < int (length rows)" using that by simp
  ultimately show ?thesis using assms unfolding resolve_list_index_def by (simp cong: conj_cong)
qed

lemma list_of_peers: "list_of (member_json cfg ''peers'') = Some rows \<Longrightarrow> config_peers cfg = rows"
  by (simp add: config_peers_def rows_or_none_def)

lemma list_of_with_peers [simp]: "list_of (member_json (with_peers cfg ps) ''peers'') = Some ps"
  by (simp add: with_peers_def list_of_def)

lemma disable_keeps_peers [simp]:
  "config_peers (fst (disable_dependent_routes cfg peer)) = config_peers cfg"
  by (simp add: disable_dependent_routes_def Let_def)

lemma peer_tunnel_host_switched [simp]: "peer_tunnel_host (set_row_disabled b p) = peer_tunnel_host p"
  by (simp add: peer_tunnel_host_def)

lemma switched_off_not_forwarding: "peer_tunnel_host peer \<noteq> [] \<Longrightarrow> \<not> forwards_to (peer_tunnel_host peer) (switched True peer r)"
  by (auto simp: switched_def forwards_to_def truthy_def)

lemma no_dependents_left:
  assumes "routes_of cfg1 = map (switched True peer) (routes_of cfg)" "peer_tunnel_host peer' = peer_tunnel_host peer"
  shows "dependent_routes_for_peer cfg1 peer' = []"
proof -
  have "(i, r) \<notin> set (dependent_routes_for_peer cfg1 peer')" for i r
    using assms switched_off_not_forwarding [of peer] by (auto simp: dependent_iff)
  then show ?thesis by (metis ex_in_conv prod.collapse set_empty)
qed

text \<open>What of a config an edit of peers and their routes leaves alone: every other member, and every other setting of the forwarding.\<close>

definition rest_kept :: "json \<Rightarrow> json \<Rightarrow> bool" where
  "rest_kept c d \<longleftrightarrow> (\<forall>k. k \<noteq> ''peers'' \<and> k \<noteq> ''forwarding'' \<longrightarrow> member_json d k = member_json c k) \<and>
     (\<forall>k. k \<noteq> ''routes'' \<longrightarrow> at_member (member_json d ''forwarding'') k = at_member (member_json c ''forwarding'') k)"

lemma rest_kept_refl: "rest_kept c c"
  by (simp add: rest_kept_def)

lemma rest_kept_trans: "rest_kept a b \<Longrightarrow> rest_kept b c \<Longrightarrow> rest_kept a c"
  by (simp add: rest_kept_def)

lemma rest_kept_with: "rest_kept c (with_peers c ps)" "rest_kept c (with_routes c rs)"
  by (auto simp: rest_kept_def with_peers_def with_routes_def at_member_def split: option.split)

lemma rest_kept_disable: "rest_kept c (fst (disable_dependent_routes c p))"
  by (simp add: disable_dependent_routes_def Let_def rest_kept_with)

text \<open>A row that was on strips to what it strips to with \<open>disabled: false\<close>, so the review shows no difference.\<close>

lemma falsy_is_empty: "\<not> truthy v \<Longrightarrow> Json_Canon.norm v = None"
  by (rule norm_empty) (auto simp: truthy_def is_empty_value_def split: option.splits json.splits elim: truthy_json.elims)

lemma strip_switched_on:
  assumes "wf_json r" "is_object r" "\<not> truthy (member_json r ''disabled'')"
  shows "strip_json (set_row_disabled False r) = strip_json r"
proof -
  obtain kvs where r: "r = JObj kvs" and d: "distinct (map fst kvs)" using assms(1,2) by (cases r) (simp_all add: is_object_def)
  have none: "Json_Canon.norm (map_of kvs ''disabled'') = None" using falsy_is_empty [OF assms(3)] r by simp
  have off: "Json_Canon.norm (Some (JBool False)) = None" by (simp add: Json_Canon.norm_def)
  have "stripped (put_key ''disabled'' (JBool False) kvs) = stripped kvs"
    using d none off by (subst nonempty_members_eq_iff)
      (auto simp: comp_def fun_eq_iff map_of_stripped distinct_put_key)
  then show ?thesis by (simp add: r set_row_disabled_def with_key_def)
qed

lemma wf_rows: "wf_json c \<Longrightarrow> member_json c k = Some v \<Longrightarrow> wf_json v" "wf_json (JArr xs) \<Longrightarrow> x \<in> set xs \<Longrightarrow> wf_json x"
proof -
  show "wf_json c \<Longrightarrow> member_json c k = Some v \<Longrightarrow> wf_json v" by (cases c) (auto simp: list_all_iff dest!: map_of_SomeD)
qed (simp add: list_all_iff)

lemma same_rows: "map strip_json xs = map strip_json ys \<Longrightarrow> same (Some (JArr xs)) (Some (JArr ys))"
  by (auto simp: same_iff_norm norm_array)

lemma same_with_key:
  assumes "wf_json c" "is_object c" "same (Some x) (member_json c k)"
  shows "same (Some (with_key c k x)) (Some c)"
proof -
  obtain kvs where c: "c = JObj kvs" "distinct (map fst kvs)" using assms(1,2) by (cases c) (simp_all add: is_object_def)
  then show ?thesis using assms(3) by (simp add: with_key_def same_object_iff distinct_put_key)
qed

text \<open>A config whose peer is switched off with its routes and on again, when the peer was on.\<close>

lemma members_with_routes:
  "member_json (with_routes c rs) k = (if k = ''forwarding'' then (case member_json c ''forwarding'' of None \<Rightarrow> None
     | Some fw \<Rightarrow> if list_of (member_json fw ''routes'') \<noteq> None then Some (with_key fw ''routes'' (JArr rs)) else Some fw)
   else member_json c k)"
  by (simp add: with_routes_def split: option.split)

lemma with_key_object: "is_object c \<Longrightarrow> wf_json c \<Longrightarrow> \<exists>kvs. with_key c k x = JObj kvs \<and> distinct (map fst kvs)"
  by (cases c) (simp_all add: is_object_def with_key_def distinct_put_key)

lemma same_routes:
  assumes "wf_json fw" "list_of (member_json fw ''routes'') = Some rs"
  shows "same (Some (with_key fw ''routes'' (JArr (map (switched False p) rs)))) (Some fw)"
proof (rule same_with_key [OF assms(1)])
  have m: "member_json fw ''routes'' = Some (JArr rs)" using assms(2) by (auto simp: list_of_def split: option.splits json.splits)
  then show "is_object fw" by (cases fw) (simp_all add: is_object_def)
  have "strip_json (switched False p r) = strip_json r" if "r \<in> set rs" for r
  proof (cases "peer_tunnel_host p \<noteq> [] \<and> forwards_to (peer_tunnel_host p) r")
    case True
    then have "trim (str_or_empty (member_json r ''target_ip'')) \<noteq> []" "\<not> truthy (member_json r ''disabled'')"
      by (simp_all add: forwards_to_def)
    moreover have "str_or_empty None = []" by (simp add: str_or_empty_def truthy_def)
    ultimately have "member_json r ''target_ip'' \<noteq> None" by (metis trim_nil)
    then have "is_object r" by (cases r) (simp_all add: is_object_def)
    with True strip_switched_on [of r] wf_rows(1) [OF assms(1) m] wf_rows(2) that \<open>\<not> truthy (member_json r ''disabled'')\<close>
    show ?thesis by (simp add: switched_def)
  next
    case False
    then show ?thesis by (auto simp: switched_def)
  qed
  then have "map strip_json (map (switched False p) rs) = map strip_json rs" by simp
  then show "same (Some (JArr (map (switched False p) rs))) (member_json fw ''routes'')" unfolding m by (rule same_rows)
qed

lemma switched_back:
  assumes "wf_json cfg" "is_object (ps ! i)" "\<not> truthy (member_json (ps ! i) ''disabled'')"
    and ps: "list_of (member_json cfg ''peers'') = Some ps" "i < length ps"
  shows "same (Some (with_routes (with_peers (with_peers (fst (disable_dependent_routes cfg p)) qs) (ps[i := set_row_disabled False (ps ! i)]))
      (map (switched False p) (routes_of cfg)))) (Some cfg)" (is "same (Some ?c) _")
proof -
  have m: "member_json cfg ''peers'' = Some (JArr ps)" using ps(1) by (auto simp: list_of_def split: option.splits json.splits)
  then obtain kvs where cfg: "cfg = JObj kvs" "distinct (map fst kvs)" using assms(1) by (cases cfg) simp_all
  have "strip_json (set_row_disabled False (ps ! i)) = strip_json (ps ! i)"
    using strip_switched_on [OF _ assms(2,3)] wf_rows(1) [OF assms(1) m] wf_rows(2) ps(2) by simp
  then have "map strip_json (ps[i := set_row_disabled False (ps ! i)]) = map strip_json ps"
    using ps(2) by (simp add: map_update list_update_same_conv)
  then have peers: "same (Some (JArr (ps[i := set_row_disabled False (ps ! i)]))) (member_json cfg ''peers'')" unfolding m by (rule same_rows)
  have obj: "\<exists>ks. with_key v k x = JObj ks \<and> distinct (map fst ks)" if "\<exists>ks. v = JObj ks \<and> distinct (map fst ks)" for v k x
    using that by (auto simp: with_key_def distinct_put_key)
  have objr: "\<exists>ks. with_routes v rs = JObj ks \<and> distinct (map fst ks)" if "\<exists>ks. v = JObj ks \<and> distinct (map fst ks)" for v rs
    using that obj [OF that] by (auto simp: with_routes_def split: option.split)
  have "\<exists>ks. ?c = JObj ks \<and> distinct (map fst ks)"
    using cfg by (simp add: disable_dependent_routes_def Let_def with_peers_def) (intro objr obj, simp)
  then obtain ks where c: "?c = JObj ks" "distinct (map fst ks)" by blast
  have "same (member_json ?c k) (member_json cfg k)" for k
  proof -
    consider "k = ''peers''" | "k = ''forwarding''" | "k \<noteq> ''peers''" "k \<noteq> ''forwarding''" by blast
    then show ?thesis
    proof cases
      case 1
      with peers show ?thesis by (simp add: members_with_routes with_peers_def)
    next
      case 2
      show ?thesis
      proof (cases "member_json cfg ''forwarding''")
        case None
        with 2 show ?thesis by (simp add: members_with_routes with_peers_def disable_dependent_routes_def Let_def)
      next
        case (Some fw)
        show ?thesis
        proof (cases "list_of (member_json fw ''routes'')")
          case None
          with 2 Some show ?thesis by (simp add: members_with_routes with_peers_def disable_dependent_routes_def Let_def)
        next
          case (Some rs)
          have "with_key (with_key fw ''routes'' x) ''routes'' y = with_key fw ''routes'' y" for x y
            by (cases fw) (simp_all add: with_key_def put_key_twice)
          moreover have "routes_of cfg = rs" using Some \<open>member_json cfg ''forwarding'' = Some fw\<close>
            by (simp add: routes_of_def rows_or_none_def at_member_def)
          ultimately have "member_json ?c k = Some (with_key fw ''routes'' (JArr (map (switched False p) rs)))"
            using 2 Some \<open>member_json cfg ''forwarding'' = Some fw\<close>
            by (simp add: members_with_routes with_peers_def disable_dependent_routes_def Let_def list_of_def [of "Some (JArr _)"])
          then show ?thesis
            using 2 same_routes [OF wf_rows(1) [OF assms(1) \<open>member_json cfg ''forwarding'' = Some fw\<close>] Some] \<open>member_json cfg ''forwarding'' = Some fw\<close> by simp
        qed
      qed
    next
      case 3
      then show ?thesis by (simp add: members_with_routes with_peers_def disable_dependent_routes_def Let_def)
    qed
  qed
  then show ?thesis using c cfg by (simp add: same_object_iff)
qed

text \<open>C24
  Turning a peer off takes exactly its routes with it: the routes enabled and forwarding to its tunnel address are disabled, every other
  row and every other setting of the config stays as it is, and no enabled route forwards to the peer any more. Undo on that config finds
  the peer and every one of those routes again and enables just them. So if the peer was on before, the config is back: it compares
  equal to what it was, down to the last member, and the review lists nothing. A peer that was off already is on after the Undo.
\<close>

theorem peer_off_and_undo:
  assumes off: "set_peer_disabled index identity True cfg = Inr (cfg1, p1, cascaded)"
    and rows: "\<forall>p \<in> set (config_peers cfg). p \<noteq> JNull"
  shows "\<exists>i cfg2 msg. i < length (config_peers cfg) \<and> peer_identity (config_peers cfg ! i) = identity \<and>
     config_peers cfg1 = (config_peers cfg)[i := set_row_disabled True (config_peers cfg ! i)] \<and>
     routes_of cfg1 = map (switched True (config_peers cfg ! i)) (routes_of cfg) \<and> rest_kept cfg cfg1 \<and>
     dependent_routes_for_peer cfg1 p1 = [] \<and>
     undo_peer_disabled index identity True name cascaded cfg1 = Inr (cfg2, msg) \<and>
     config_peers cfg2 = (config_peers cfg)[i := set_row_disabled False (config_peers cfg ! i)] \<and>
     routes_of cfg2 = map (switched False (config_peers cfg ! i)) (routes_of cfg) \<and> rest_kept cfg cfg2 \<and>
     (wf_json cfg \<and> is_object (config_peers cfg ! i) \<and> \<not> truthy (member_json (config_peers cfg ! i) ''disabled'') \<longrightarrow>
       same (Some cfg2) (Some cfg)) \<and>
     (cascaded \<noteq> [] \<longrightarrow> msg = ''Enabled '' @ name @ '' and its routes.'')"
proof -
  let ?find = "find_config_row (list_of (member_json cfg ''peers'')) index identity peer_identity ''peer''"
  obtain i where f: "?find = Inr i" using off by (auto simp: set_peer_disabled_def split: sum.splits)
  obtain ps where ps: "list_of (member_json cfg ''peers'') = Some ps" "i < length ps" "peer_identity (ps ! i) = identity"
    using find_config_row_found [OF f] by blast
  note peers = list_of_peers [OF ps(1)]
  let ?p = "ps ! i" and ?d = "disable_dependent_routes cfg (ps ! i)"
  have c1: "cfg1 = with_peers (fst ?d) (ps[i := set_row_disabled True ?p])" "p1 = set_row_disabled True ?p" "cascaded = snd ?d"
    using off f by (auto simp: set_peer_disabled_def peers split_beta Let_def)
  have r1: "routes_of cfg1 = map (switched True ?p) (routes_of cfg)" by (simp add: c1 cascaded_routes)
  have n1: "dependent_routes_for_peer cfg1 p1 = []" by (rule no_dependents_left [OF r1]) (simp add: c1)
  have "resolve_list_index (Some (ps[i := set_row_disabled True ?p])) index identity peer_identity =
      resolve_list_index (Some ps) index identity peer_identity"
    by (rule resolve_list_index_cong) (use rows ps peers in \<open>auto simp: nth_list_update\<close>)
  then have "find_config_row (list_of (member_json cfg1 ''peers'')) index identity peer_identity ''peer'' = Inr i"
    using f ps(1) by (simp add: c1 find_config_row_def)
  then have u: "set_peer_disabled index identity False cfg1 =
      Inr (with_peers cfg1 (ps[i := set_row_disabled False ?p]), set_row_disabled False ?p, [])"
    using ps(2) by (simp add: set_peer_disabled_def c1 Let_def)
  obtain cfg2 where c2: "reenable_routes (with_peers cfg1 (ps[i := set_row_disabled False ?p])) cascaded = (cfg2, 0)"
    "routes_of cfg2 = map (switched False ?p) (routes_of cfg)" "config_peers cfg2 = ps[i := set_row_disabled False ?p]"
    "cfg2 = with_routes (with_peers cfg1 (ps[i := set_row_disabled False ?p])) (map (switched False ?p) (routes_of cfg))"
    using undo_cascade [of "with_peers cfg1 (ps[i := set_row_disabled False ?p])" ?p cfg] r1 c1(3) by auto
  have k1: "rest_kept cfg cfg1" unfolding c1(1) by (rule rest_kept_trans [OF rest_kept_disable rest_kept_with(1)])
  have k2: "rest_kept cfg cfg2" unfolding c2(4) by (rule rest_kept_trans [OF k1 rest_kept_trans [OF rest_kept_with]])
  have restored: "same (Some cfg2) (Some cfg)" if "wf_json cfg" "is_object ?p" "\<not> truthy (member_json ?p ''disabled'')"
    using switched_back [OF that ps(1,2)] by (simp add: c1(1) c2(4))
  show ?thesis
    using ps peers r1 n1 c1 u c2 k1 k2 restored
    by (intro exI [of _ i] exI [of _ cfg2]) (simp add: undo_peer_disabled_def undone_message_def)
qed

theorem peer_off_and_undo_witness:
  "\<exists>cfg1 p1 c cfg2 msg. set_peer_disabled 0 ''k1'' True toy_peers = Inr (cfg1, p1, c) \<and> dependent_routes_for_peer cfg1 p1 = [] \<and>
     undo_peer_disabled 0 ''k1'' True ''a'' c cfg1 = Inr (cfg2, msg) \<and> same (Some cfg2) (Some toy_peers)"
proof -
  have "\<not> isl (set_peer_disabled 0 ''k1'' True toy_peers)" "\<forall>p \<in> set (config_peers toy_peers). p \<noteq> JNull" by code_simp+
  moreover then obtain cfg1 p1 c where "set_peer_disabled 0 ''k1'' True toy_peers = Inr (cfg1, p1, c)"
    by (metis isl_def prod_cases3 sum.exhaust)
  moreover have "wf_json toy_peers" "\<forall>p \<in> set (config_peers toy_peers). is_object p \<and> \<not> truthy (member_json p ''disabled'')" by code_simp+
  ultimately show ?thesis using peer_off_and_undo [of 0 "''k1''" toy_peers] by (metis nth_mem)
qed

lemma others_of_list:
  assumes "q \<in> set (take i xs @ drop (Suc i) xs)"
  shows "\<exists>j < length xs. j \<noteq> i \<and> xs ! j = q"
proof -
  consider "q \<in> set (take i xs)" | "q \<in> set (drop (Suc i) xs)" using assms by auto
  then show ?thesis
  proof cases
    case 1
    then obtain j where "j < length (take i xs)" "take i xs ! j = q" by (metis in_set_conv_nth)
    then show ?thesis by (intro exI [of _ j]) simp
  next
    case 2
    then obtain j where "j < length (drop (Suc i) xs)" "drop (Suc i) xs ! j = q" by (metis in_set_conv_nth)
    then show ?thesis by (intro exI [of _ "Suc i + j"]) simp
  qed
qed

text \<open>
  A removed peer comes back where it was, with its routes, unless its key has come back meanwhile: then
  nothing is restored and the message says so.
\<close>

lemma peer_removed_and_restored:
  assumes rem: "remove_peer index identity cfg = Inr (cfg1, removed, k, cascaded)"
    and key: "\<forall>j < length (config_peers cfg). j \<noteq> k \<longrightarrow> peer_identity (config_peers cfg ! j) \<noteq> identity"
  shows "config_peers cfg1 = take k (config_peers cfg) @ drop (Suc k) (config_peers cfg)"
    and "dependent_routes_for_peer cfg1 removed = []"
    and "\<exists>cfg2 msg. undo_remove_peer removed k identity cascaded cfg1 = Inr (cfg2, msg) \<and> config_peers cfg2 = config_peers cfg \<and>
      routes_of cfg2 = map (switched False removed) (routes_of cfg)"
proof -
  obtain i where f: "find_config_row (list_of (member_json cfg ''peers'')) index identity peer_identity ''peer'' = Inr i"
    using rem by (auto simp: remove_peer_def split: sum.splits)
  obtain ps where ps: "list_of (member_json cfg ''peers'') = Some ps" "i < length ps" "peer_identity (ps ! i) = identity"
    using find_config_row_found [OF f] by blast
  note peers = list_of_peers [OF ps(1)]
  let ?d = "disable_dependent_routes cfg (ps ! i)"
  have c1: "k = i" "removed = ps ! i" "cascaded = snd ?d" "cfg1 = with_peers (fst ?d) (take i ps @ drop (Suc i) ps)"
    using rem f by (auto simp: remove_peer_def peers split_beta Let_def)
  then show p1: "config_peers cfg1 = take k (config_peers cfg) @ drop (Suc k) (config_peers cfg)" by (simp add: peers)
  have r1: "routes_of cfg1 = map (switched True removed) (routes_of cfg)" by (simp add: c1 cascaded_routes)
  show "dependent_routes_for_peer cfg1 removed = []" by (rule no_dependents_left [OF r1]) simp
  have "peer_identity q \<noteq> identity" if "q \<in> set (take i ps @ drop (Suc i) ps)" for q
    using others_of_list [OF that] key by (auto simp: c1(1) peers)
  then have gone: "\<not> list_ex (\<lambda>p. peer_identity p = identity) (config_peers cfg1)"
    unfolding p1 peers c1(1) by (auto simp: list_ex_iff)
  show "\<exists>cfg2 msg. undo_remove_peer removed k identity cascaded cfg1 = Inr (cfg2, msg) \<and> config_peers cfg2 = config_peers cfg \<and>
      routes_of cfg2 = map (switched False removed) (routes_of cfg)"
  proof -
    let ?restored = "take i (config_peers cfg1) @ removed # drop i (config_peers cfg1)"
    have m: "min k (length (config_peers cfg1)) = i" using ps(2) by (simp add: c1)
    have b: "?restored = ps" using ps(2) by (simp add: c1 id_take_nth_drop [symmetric])
    obtain cfg2 where "reenable_routes (with_peers cfg1 ps) cascaded = (cfg2, 0)"
      "routes_of cfg2 = map (switched False removed) (routes_of cfg)" "config_peers cfg2 = ps"
      using undo_cascade [of "with_peers cfg1 ps" removed cfg] r1 c1(2,3) by auto
    then show ?thesis using gone b by (simp add: undo_remove_peer_def m peers split_beta Let_def)
  qed
qed

end
