(* ===== verification/Peers_Table.thy ===== *)
theory Peers_Table
  imports Peers Table_Cells Api
begin

text \<open>
  \<open>pages/peers.js\<close>, the table: a peer's status and latency, the row drawn for it and the values it
  sorts on; and the editor's save. \<open>now\<close> is the time in seconds.
\<close>

section \<open>Status and latency\<close>

text \<open>\<open>String(v)\<close> of any value, and a joined element, where null and undefined are nothing.\<close>

definition string_of :: "jsval \<Rightarrow> string" where
  "string_of v = (case v of Some j \<Rightarrow> js_string j | None \<Rightarrow> ''undefined'')"

definition handshake_of :: "json \<Rightarrow> int" where
  "handshake_of row = (case member_json row ''latest_handshake_unix'' of Some (JNum h) \<Rightarrow> h | _ \<Rightarrow> 0)"

definition peer_stats_row :: "(string \<rightharpoonup> json) \<Rightarrow> json \<Rightarrow> json option" where
  "peer_stats_row pubMap p = pubMap (trim (str_or_empty (member_json p ''public_key'')))"

definition peer_status_rank :: "int \<Rightarrow> (string \<rightharpoonup> json) \<Rightarrow> json \<Rightarrow> sort_key" where
  "peer_status_rank now pubMap p =
     (if truthy (member_json p ''disabled'') then KNull
      else (case peer_stats_row pubMap p of
          None \<Rightarrow> KNum 2
        | Some row \<Rightarrow>
            if handshake_of row \<le> 0 then KNum 1
            else if now - handshake_of row \<le> PEER_ONLINE_MAX_HANDSHAKE_AGE_SEC then KNum 0 else KNum 1))"

definition handshake_age_text :: "int \<Rightarrow> string" where
  "handshake_age_text ago =
     ''Last handshake '' @
     (if ago < 60 then show_int ago @ ''s ago''
      else if ago < 3600 then show_int (ago div 60) @ '' min ago''
      else show_int (ago div 3600) @ '' h ago'')"

definition peer_connection_status_html :: "int \<Rightarrow> (string \<rightharpoonup> json) \<Rightarrow> json \<Rightarrow> string" where
  "peer_connection_status_html now pubMap p =
     (if truthy (member_json p ''disabled'')
      then ''<span class=\"peer-status peer-status-na\" title=\"Peer disabled in config\">'' @ mdash @ ''</span>''
      else (case peer_stats_row pubMap p of
          None \<Rightarrow> ''<span class=\"peer-status peer-status-unknown\" title=\"No WireGuard stats for this key (interface down or mock)\">Unknown</span>''
        | Some row \<Rightarrow>
            if handshake_of row \<le> 0
            then ''<span class=\"peer-status peer-status-off\" title=\"No handshake yet\">Offline</span>''
            else (let ago = now - handshake_of row; title = handshake_age_text ago in
              if ago \<le> PEER_ONLINE_MAX_HANDSHAKE_AGE_SEC
              then ''<span class=\"peer-status peer-status-on\" title=\"'' @ escape_html title @ ''\">Online</span>''
              else ''<span class=\"peer-status peer-status-off\" title=\"'' @ escape_html title @ ''\">Offline</span>'')))"

text \<open>The latency row of a peer; the map is none before the first answer.\<close>

definition peer_ping_row :: "(string \<rightharpoonup> json) \<Rightarrow> json \<Rightarrow> json option" where
  "peer_ping_row pingByTunnel peer =
     (let th = tunnel_host_only (str_or_empty (member_json peer ''tunnel_ip'')) in if th \<noteq> [] then pingByTunnel th else None)"

definition peer_ping_ms :: "(string \<rightharpoonup> json) option \<Rightarrow> json \<Rightarrow> sort_key" where
  "peer_ping_ms pingByTunnel peer =
     (if truthy (member_json peer ''disabled'') then KNull
      else (case pingByTunnel of
          None \<Rightarrow> KNull
        | Some m \<Rightarrow> (case peer_ping_row m peer of
            Some row \<Rightarrow> if truthy (member_json row ''ok'')
              then (case member_json row ''latency_ms'' of Some (JNum n) \<Rightarrow> KNum (of_int n) | _ \<Rightarrow> KNull) else KNull
          | None \<Rightarrow> KNull)))"

definition peer_ping_ms_cell :: "bool \<Rightarrow> (string \<rightharpoonup> json) option \<Rightarrow> json \<Rightarrow> string" where
  "peer_ping_ms_cell metricsOn pingByTunnel peer =
     (if \<not> metricsOn then []
      else if truthy (member_json peer ''disabled'')
      then ''<td class=\"mono peer-ping-cell\" title=\"Peer disabled\">'' @ mdash @ ''</td>''
      else (case pingByTunnel of
          None \<Rightarrow> ''<td class=\"mono peer-ping-cell\">'' @ ellipsis @ ''</td>''
        | Some m \<Rightarrow> (case peer_ping_row m peer of
            None \<Rightarrow> ''<td class=\"mono peer-ping-cell\">'' @ mdash @ ''</td>''
          | Some row \<Rightarrow>
              if truthy (member_json row ''ok'')
              then ''<td class=\"mono peer-ping-cell\">'' @ escape_html (string_of (member_json row ''latency_ms'')) @ '' ms</td>''
              else (let err = (if truthy (member_json row ''error'') then str_or_empty (member_json row ''error'') else ''unreachable'') in
                ''<td class=\"mono peer-ping-cell\" title=\"'' @ escape_html err @ ''\">'' @ mdash @ ''</td>''))))"

section \<open>The table\<close>

definition text_sort_key :: "jsval \<Rightarrow> sort_key" where
  "text_sort_key v = (case v of None \<Rightarrow> KNull | Some JNull \<Rightarrow> KNull | Some j \<Rightarrow> KText (js_string j))"

definition peer_columns :: "int \<Rightarrow> (string \<rightharpoonup> json) \<Rightarrow> (string \<rightharpoonup> json) option \<Rightarrow> (string \<times> (json \<Rightarrow> sort_key)) list" where
  "peer_columns now pubMap pingByTunnel =
    [(''name'', \<lambda>p. text_sort_key (member_json p ''name'')),
     (''tunnel'', \<lambda>p. text_sort_key (member_json p ''tunnel_ip'')),
     (''ping'', peer_ping_ms pingByTunnel),
     (''status'', peer_status_rank now pubMap),
     (''enabled'', \<lambda>p. if truthy (member_json p ''disabled'') then KNum 0 else KNum 1)]"

definition peer_filter_text :: "json \<Rightarrow> string" where
  "peer_filter_text p = lower (join '' '' (map (\<lambda>k. str_or_nothing (member_json p k)) [''name'', ''tunnel_ip'', ''public_key'']))"

definition peer_row_html :: "int \<Rightarrow> bool \<Rightarrow> (string \<rightharpoonup> json) \<Rightarrow> (string \<rightharpoonup> json) option \<Rightarrow> row_errors \<Rightarrow> json \<times> nat \<Rightarrow> string" where
  "peer_row_html now pingOn pubMap pingByTunnel errs row = (case row of (p, i) \<Rightarrow>
     (let disabled = truthy (member_json p ''disabled'') in
      ''<tr data-row=\"'' @ show_nat i @ ''\" tabindex=\"-1\" data-filter=\"'' @ escape_html (peer_filter_text p) @ ''\"'' @
      (if disabled then '' class=\"is-row-disabled\"'' else []) @ ''><td>'' @ escape_html (string_of (member_json p ''name'')) @ ''</td>'' @
      mono_ip_copy_cell_html (str_or_nothing (member_json p ''tunnel_ip'')) [] @
      public_key_cell_html (str_or_nothing (member_json p ''public_key'')) (str_or_empty (member_json p ''name'')) @
      peer_ping_ms_cell pingOn pingByTunnel p @ ''<td>'' @ peer_connection_status_html now pubMap p @ ''</td>'' @
      table_disabled_toggle_cell ''data-peer-disabled'' i disabled (''Enabled: '' @ peer_name_or p) @
      ''<td class=\"row-actions\"><button type=\"button\" class=\"evu-btn evu-btn--outline evu-btn--sm\" data-peer-edit=\"'' @
      show_nat i @ ''\">Edit</button> <button type=\"button\" class=\"evu-btn evu-btn--outline evu-btn--sm\" data-peer-del=\"'' @
      show_nat i @ ''\">Remove</button></td></tr>'' @
      row_error_html errs ''data-peer-disabled'' i (if pingOn then 7 else 6)))"

definition peer_rows_html :: "string comparing \<Rightarrow> (rat \<Rightarrow> string) \<Rightarrow> sorts \<Rightarrow> int \<Rightarrow> bool \<Rightarrow> (string \<rightharpoonup> json) \<Rightarrow>
    (string \<rightharpoonup> json) option \<Rightarrow> row_errors \<Rightarrow> json \<Rightarrow> string list" where
  "peer_rows_html coll str sorts now pingOn pubMap pingByTunnel errs cfg =
     map (peer_row_html now pingOn pubMap pingByTunnel errs)
       (sorted_rows coll str sorts ''peers'' (config_peers cfg) (peer_columns now pubMap pingByTunnel))"

section \<open>What a peer can put on the page\<close>

text \<open>How a row is built, apart from its texts.\<close>

record row_shape =
  shape_disabled :: bool
  shape_address :: bool
  shape_key :: bool
  shape_ping :: "bool option option"
  shape_error :: bool

definition row_shape_of :: "(string \<rightharpoonup> json) option \<Rightarrow> row_errors \<Rightarrow> json \<times> nat \<Rightarrow> row_shape" where
  "row_shape_of pingByTunnel errs row = (case row of (p, i) \<Rightarrow>
     \<lparr>shape_disabled = truthy (member_json p ''disabled''),
      shape_address = (tunnel_ip_without_suffix (trim (str_or_nothing (member_json p ''tunnel_ip''))) \<noteq> []),
      shape_key = (trim (str_or_nothing (member_json p ''public_key'')) \<noteq> []),
      shape_ping = (case pingByTunnel of None \<Rightarrow> None
        | Some m \<Rightarrow> Some (case peer_ping_row m p of None \<Rightarrow> None | Some r \<Rightarrow> Some (truthy (member_json r ''ok'')))),
      shape_error = (\<exists>m. errs ''data-peer-disabled'' = Some (i, m))\<rparr>)"

lemma markup_status:
  "markup (peer_connection_status_html now pubMap p) = markup ''<span class=\"\" title=\"\"></span>''"
proof -
  have l: "markup ''<span class=\"peer-status peer-status-na\" title=\"Peer disabled in config\">'' @ markup ''</span>'' = markup ''<span class=\"\" title=\"\"></span>''"
    "markup ''<span class=\"peer-status peer-status-unknown\" title=\"No WireGuard stats for this key (interface down or mock)\">Unknown</span>'' = markup ''<span class=\"\" title=\"\"></span>''"
    "markup ''<span class=\"peer-status peer-status-off\" title=\"No handshake yet\">Offline</span>'' = markup ''<span class=\"\" title=\"\"></span>''"
    "markup ''<span class=\"peer-status peer-status-on\" title=\"'' @ markup ''\">Online</span>'' = markup ''<span class=\"\" title=\"\"></span>''"
    "markup ''<span class=\"peer-status peer-status-off\" title=\"'' @ markup ''\">Offline</span>'' = markup ''<span class=\"\" title=\"\"></span>''"
    by (simp_all add: markup_eval)
  show ?thesis
    unfolding peer_connection_status_html_def Let_def
    by (cases "peer_stats_row pubMap p")
      (simp_all only: option.case markup_if markup_append markup_escape markup_dash append_Nil l if_cancel)
qed

definition ping_shape :: "(string \<rightharpoonup> json) option \<Rightarrow> json \<Rightarrow> bool option option" where
  "ping_shape pingByTunnel p = (case pingByTunnel of None \<Rightarrow> None
     | Some m \<Rightarrow> Some (case peer_ping_row m p of None \<Rightarrow> None | Some r \<Rightarrow> Some (truthy (member_json r ''ok''))))"

lemma markup_ping_cell:
  "markup (peer_ping_ms_cell on pm p) =
     (if \<not> on then []
      else if truthy (member_json p ''disabled'') then markup ''<td class=\"\" title=\"\"></td>''
      else if ping_shape pm p = Some (Some False) then markup ''<td class=\"\" title=\"\"></td>'' else markup ''<td class=\"\"></td>'')"
proof -
  have l: "markup ''<td class=\"mono peer-ping-cell\" title=\"Peer disabled\">'' @ markup ''</td>'' = markup ''<td class=\"\" title=\"\"></td>''"
    "markup ''<td class=\"mono peer-ping-cell\">'' @ markup ''</td>'' = markup ''<td class=\"\"></td>''"
    "markup ''<td class=\"mono peer-ping-cell\">'' @ markup '' ms</td>'' = markup ''<td class=\"\"></td>''"
    "markup ''<td class=\"mono peer-ping-cell\" title=\"'' @ markup ''\">'' @ markup ''</td>'' = markup ''<td class=\"\" title=\"\"></td>''"
    by (simp_all add: markup_eval)
  note ev = peer_ping_ms_cell_def Let_def ping_shape_def
  show ?thesis
  proof (cases "on \<and> \<not> truthy (member_json p ''disabled'')")
    case False
    then show ?thesis
      unfolding ev by (cases on) (simp_all only: simp_thms if_True if_False markup_append markup_dash markup_Nil append_Nil l)
  next
    case on: True
    show ?thesis
    proof (cases pm)
      case None
      with on show ?thesis
        unfolding ev by (simp only: simp_thms if_True if_False option.case option.distinct markup_append markup_dash append_Nil l)
    next
      case (Some m)
      show ?thesis
      proof (cases "peer_ping_row m p")
        case None
        with on Some show ?thesis
          unfolding ev by (simp only: simp_thms if_True if_False option.case option.inject option.distinct markup_append markup_dash append_Nil l)
      next
        case (Some r)
        with on \<open>pm = Some m\<close> show ?thesis
          unfolding ev
          by (cases "truthy (member_json r ''ok'')")
            (simp_all only: simp_thms if_True if_False option.case option.inject bool_simps markup_append markup_escape markup_dash append_Nil l)
      qed
    qed
  qed
qed

text \<open>C38
  Nothing a peer says about itself becomes markup. Two peers drawn with the same cells give rows with
  exactly the same tag and quote characters in the same order, whatever their names, addresses, keys,
  handshakes, latencies and error messages hold.
\<close>

theorem peer_texts_add_no_markup:
  assumes "row_shape_of pm errs (p, i) = row_shape_of pm' errs' (p', i')"
  shows "markup (peer_row_html now on pub pm errs (p, i)) = markup (peer_row_html now' on pub' pm' errs' (p', i'))"
proof -
  have dis: "truthy (member_json p ''disabled'') = truthy (member_json p' ''disabled'')"
    and addr: "(tunnel_ip_without_suffix (trim (str_or_nothing (member_json p ''tunnel_ip''))) = []) =
      (tunnel_ip_without_suffix (trim (str_or_nothing (member_json p' ''tunnel_ip''))) = [])"
    and key: "(trim (str_or_nothing (member_json p ''public_key'')) = []) = (trim (str_or_nothing (member_json p' ''public_key'')) = [])"
    and ping: "ping_shape pm p = ping_shape pm' p'"
    and err: "(\<exists>m. errs ''data-peer-disabled'' = Some (i, m)) \<longleftrightarrow> (\<exists>m. errs' ''data-peer-disabled'' = Some (i', m))"
    using assms by (auto simp: row_shape_of_def ping_shape_def)
  have a: "markup (mono_ip_copy_cell_html (str_or_nothing (member_json p ''tunnel_ip'')) []) =
      markup (mono_ip_copy_cell_html (str_or_nothing (member_json p' ''tunnel_ip'')) [])"
    by (simp only: markup_mono_ip_cell [of "str_or_nothing (member_json p ''tunnel_ip'')"]
        markup_mono_ip_cell [of "str_or_nothing (member_json p' ''tunnel_ip'')"] addr)
  have k: "markup (public_key_cell_html (str_or_nothing (member_json p ''public_key'')) n) =
      markup (public_key_cell_html (str_or_nothing (member_json p' ''public_key'')) n')" for n n'
    by (simp only: markup_public_key_cell [of "str_or_nothing (member_json p ''public_key'')"]
        markup_public_key_cell [of "str_or_nothing (member_json p' ''public_key'')"] key)
  have g: "markup (peer_ping_ms_cell on pm p) = markup (peer_ping_ms_cell on pm' p')"
    unfolding markup_ping_cell dis ping ..
  have t: "markup (table_disabled_toggle_cell ''data-peer-disabled'' i d l) =
      markup (table_disabled_toggle_cell ''data-peer-disabled'' i' d l')" for d l l'
    by (rule trans [OF markup_toggle_cell markup_toggle_cell [symmetric]])
  have e: "markup (row_error_html errs ''data-peer-disabled'' i n) = markup (row_error_html errs' ''data-peer-disabled'' i' n)" for n
    by (rule markup_row_error) (rule err)
  show ?thesis
    unfolding peer_row_html_def prod.case Let_def
    by (simp only: markup_append markup_escape markup_show_nat markup_status a g e dis
        t [of _ "''Enabled: '' @ peer_name_or p" "''Enabled: '' @ peer_name_or p'"]
        k [of "str_or_empty (member_json p ''name'')" "str_or_empty (member_json p' ''name'')"])
qed

theorem peer_texts_add_no_markup_witness:
  "markup (peer_row_html 0 False Map.empty None (\<lambda>_. None) (JObj [(''name'', JStr ''<script>'')], 0)) =
   markup (peer_row_html 0 False Map.empty None (\<lambda>_. None) (JObj [(''name'', JStr ''a'')], 1))"
  by (rule peer_texts_add_no_markup) (simp add: row_shape_of_def str_or_nothing_def)

end
