(* ===== verification/Onboarding.thy ===== *)
theory Onboarding
  imports Peers "HOL-Library.Word"
begin

text \<open>
  \<open>pages/peers.js\<close>, onboarding: the WireGuard parameters of a new peer, the commands and files written
  for it, and the encrypted bundle, together with the script that opens it on the peer
  (\<open>scripts/evuproxy-peer-bundle-apply.sh\<close>).

  Key derivation, AES-CBC and HMAC are the browser's and OpenSSL's (\<open>bundle_crypto\<close>); UTF-8 is
  \<open>utf8\<close>. The base64 around the bundle is in \<open>Base64\<close>; here both sides read and write bytes.
\<close>

section \<open>Texts\<close>

definition word_char :: "char \<Rightarrow> bool" where
  "word_char c \<longleftrightarrow> (let n = of_char c :: nat in
     (97 \<le> n \<and> n \<le> 122) \<or> (65 \<le> n \<and> n \<le> 90) \<or> (48 \<le> n \<and> n \<le> 57) \<or> c = CHR ''_'')"

definition yaml_peer_name :: "string \<Rightarrow> string" where
  "yaml_peer_name name =
     (let t = trim name in
      if t \<noteq> [] \<and> list_all (\<lambda>c. word_char c \<or> c = CHR ''.'' \<or> c = CHR ''-'') t then t else quote_str t)"

definition normalize_endpoint :: "string \<Rightarrow> int \<Rightarrow> string" where
  "normalize_endpoint raw listenPort =
     (let s = trim raw in
      if s = [] then []
      else if CHR '':'' \<in> set s then s
      else if listenPort > 0 then s @ '':'' @ show_int listenPort
      else s)"

text \<open>A quote inside becomes: end of quotes, an escaped quote, start of quotes.\<close>

definition shell_single_quote :: "string \<Rightarrow> string" where
  "shell_single_quote s = CHR 0x27 # replace_char (CHR 0x27) [CHR 0x27, CHR 0x5C, CHR 0x27, CHR 0x27] s @ [CHR 0x27]"

text \<open>\<open>name.replace(/[^a-zA-Z0-9._-]+/g, "-")\<close>\<close>

definition safe_char :: "char \<Rightarrow> bool" where
  "safe_char c \<longleftrightarrow> word_char c \<or> c = CHR ''.'' \<or> c = CHR ''-''"

fun safe_file_name :: "bool \<Rightarrow> string \<Rightarrow> string" where
  "safe_file_name inRun [] = []"
| "safe_file_name inRun (c # cs) =
     (if safe_char c then c # safe_file_name False cs
      else if inRun then safe_file_name True cs else CHR ''-'' # safe_file_name True cs)"

definition conf_file_name :: "string \<Rightarrow> string" where
  "conf_file_name name =
     ''evuproxy-'' @ safe_file_name False (if trim name = [] then ''peer'' else trim name) @ ''.conf''"

section \<open>The parameters\<close>

record wg_params =
  wg_name :: string
  wg_tip :: string
  wg_pub :: string
  wg_priv :: string
  wg_endpoint :: string
  wg_server_key :: string
  wg_subnet :: string

record onboard_form =
  form_name :: string
  form_tunnel :: string
  form_pub :: string
  form_priv :: string
  form_endpoint :: string

text \<open>The overview is none until it has been loaded; \<open>subnet\<close> is the preferences' one.\<close>

definition peer_onboard_wireguard_params :: "onboard_form \<Rightarrow> json option \<Rightarrow> string \<Rightarrow> string + wg_params" where
  "peer_onboard_wireguard_params f overview subnet =
     (let name = trim (form_name f); tip = trim (form_tunnel f); pub = trim (form_pub f); priv = trim (form_priv f) in
      if name = [] then Inl ''Peer name is required.''
      else if tip = [] then Inl ''Peer tunnel IP is required.''
      else if pub = [] then Inl ''Peer public key is required.''
      else if priv = [] then Inl ''Peer private key is required for the WireGuard profile.''
      else (case overview of
          None \<Rightarrow> Inl ''Server details are not loaded yet. Check API status or edit a field to retry.''
        | Some ov \<Rightarrow>
            if \<not> truthy (member_json ov ''server_public_key'') then Inl ''Overview has no server public key.''
            else (let listenPort = (case member_json ov ''wireguard_listen_port'' of Some (JNum n) \<Rightarrow> n | _ \<Rightarrow> 0);
                      ep = normalize_endpoint (trim (form_endpoint f)) listenPort in
              if ep = [] then Inl ''Server endpoint (host:port) is required.''
              else Inr \<lparr>wg_name = name, wg_tip = tip, wg_pub = pub, wg_priv = priv, wg_endpoint = ep,
                     wg_server_key = str_or_empty (member_json ov ''server_public_key''),
                     wg_subnet = (if truthy (member_json ov ''tunnel_subnet'') then str_or_empty (member_json ov ''tunnel_subnet'') else subnet)\<rparr>)))"

definition nl :: string where
  "nl = [CHR 0x0A]"

definition peer_yaml :: "wg_params \<Rightarrow> string" where
  "peer_yaml r = ''  - name: '' @ yaml_peer_name (wg_name r) @ nl @ ''    public_key: '' @ wg_pub r @ nl @
     ''    tunnel_ip: '' @ wg_tip r @ nl"

definition wireguard_conf :: "wg_params \<Rightarrow> string" where
  "wireguard_conf r = ''[Interface]'' @ nl @ ''PrivateKey = '' @ wg_priv r @ nl @ ''Address = '' @ wg_tip r @ nl @ nl @
     ''[Peer]'' @ nl @ ''PublicKey = '' @ wg_server_key r @ nl @ ''Endpoint = '' @ wg_endpoint r @ nl @
     ''AllowedIPs = '' @ wg_subnet r @ nl @ ''PersistentKeepalive = 25'' @ nl"

definition onboard_block :: "wg_params \<Rightarrow> string" where
  "onboard_block r = ''# --- peers: snippet ---'' @ nl @ nl @ peer_yaml r @ nl @
     ''# --- WireGuard peer config (e.g. save as client.conf) ---'' @ nl @ nl @ wireguard_conf r"

text \<open>\<open>out.slice(out.indexOf("[Interface]")).trim()\<close>\<close>

fun from_mark :: "string \<Rightarrow> string \<Rightarrow> string option" where
  "from_mark mark [] = (if mark = [] then Some [] else None)"
| "from_mark mark (c # cs) = (if starts_with (c # cs) mark then Some (c # cs) else from_mark mark cs)"

definition extract_onboard_conf :: "string \<Rightarrow> string" where
  "extract_onboard_conf out = (case from_mark ''[Interface]'' out of Some t \<Rightarrow> trim t | None \<Rightarrow> [])"

definition build_peer_two_line_snippet :: "string \<Rightarrow> string \<Rightarrow> string \<Rightarrow> string" where
  "build_peer_two_line_snippet installUrl passHex blobB64 = join nl
     [''export EVU_SECRET_FROM_ADMIN='' @ shell_single_quote passHex,
      ''export EVU_BLOB_FROM_ADMIN='' @ shell_single_quote blobB64,
      ''curl --proto '' @ [CHR 0x27] @ ''=https'' @ [CHR 0x27] @ '' --proto-redir '' @ [CHR 0x27] @ ''=https'' @ [CHR 0x27] @ '' -fsSL '' @
        shell_single_quote installUrl @ '' | sudo bash'',
      ''sudo evuproxy-peer-apply '' @ [CHR 0x5C],
      ''  --secret \"$(printf '' @ [CHR 0x27] @ ''%s'' @ [CHR 0x27] @ '' \"$EVU_SECRET_FROM_ADMIN\")\" '' @ [CHR 0x5C],
      ''  --blob \"$(printf '' @ [CHR 0x27] @ ''%s'' @ [CHR 0x27] @ '' \"$EVU_BLOB_FROM_ADMIN\")\"'']"

definition PEER_TOOL_INSTALL_SCRIPT_DEFAULT :: string where
  "PEER_TOOL_INSTALL_SCRIPT_DEFAULT = ''https://raw.githubusercontent.com/imevul/evuproxy/main/scripts/install-peer-tool.sh''"

definition peer_tool_install_url_resolved :: "string option \<Rightarrow> string" where
  "peer_tool_install_url_resolved configured = (case configured of
     Some u \<Rightarrow> if trim u \<noteq> [] then trim u else PEER_TOOL_INSTALL_SCRIPT_DEFAULT | None \<Rightarrow> PEER_TOOL_INSTALL_SCRIPT_DEFAULT)"

section \<open>The shell reads back what was quoted\<close>

text \<open>
  How a POSIX shell reads one word made of single-quoted parts and escaped characters; \<open>None\<close> where it
  would do anything else (expand, split, end the command).
\<close>

fun shell_word :: "bool \<Rightarrow> string \<Rightarrow> string option" where
  "shell_word quoted [] = (if quoted then None else Some [])"
| "shell_word True (c # cs) =
     (if c = CHR 0x27 then shell_word False cs else map_option ((#) c) (shell_word True cs))"
| "shell_word False (c # cs) =
     (if c = CHR 0x27 then shell_word True cs
      else if c = CHR 0x5C then (case cs of [] \<Rightarrow> None | d # ds \<Rightarrow> map_option ((#) d) (shell_word False ds))
      else if word_char c then map_option ((#) c) (shell_word False cs)
      else None)"

lemma shell_word_quoted:
  "shell_word True (replace_char (CHR 0x27) [CHR 0x27, CHR 0x5C, CHR 0x27, CHR 0x27] s @ [CHR 0x27]) = Some s"
  by (induction s) (simp_all add: replace_char_def)

text \<open>
  A value in the install commands is one word of the shell: whatever characters a passphrase, a bundle or
  an address holds, the shell reads exactly that text back, expands nothing in it and runs nothing
  from it.
\<close>

theorem shell_quoting_roundtrip: "shell_word False (shell_single_quote s) = Some s"
  using shell_word_quoted [of s] by (simp add: shell_single_quote_def)

section \<open>The encrypted bundle\<close>

type_synonym bytes = "8 word list"

record bundle_crypto =
  pbkdf2 :: "bytes \<Rightarrow> bytes \<Rightarrow> nat \<Rightarrow> bytes"
  aes_encrypt :: "bytes \<Rightarrow> bytes \<Rightarrow> bytes \<Rightarrow> bytes"
  aes_decrypt :: "bytes \<Rightarrow> bytes \<Rightarrow> bytes \<Rightarrow> bytes option"
  hmac_sha256 :: "bytes \<Rightarrow> bytes \<Rightarrow> bytes"

definition PEER_BUNDLE_VERSION :: nat where
  "PEER_BUNDLE_VERSION = 1"

definition PEER_BUNDLE_PBDF2_ITER :: nat where
  "PEER_BUNDLE_PBDF2_ITER = 310000"

definition PEER_BUNDLE_MAGIC :: bytes where
  "PEER_BUNDLE_MAGIC = [69, 86, 85, 66]"

text \<open>\<open>DataView.setUint32(o, n, false)\<close>: big-endian, wrapping at 32 bits.\<close>

definition uint32_be :: "nat \<Rightarrow> bytes" where
  "uint32_be n = map (\<lambda>k. word_of_nat (n div 256 ^ k)) [3, 2, 1, 0]"

definition bundle_payload :: "wg_params \<Rightarrow> json" where
  "bundle_payload r = JObj
    [(''v'', JNum (int PEER_BUNDLE_VERSION)), (''peerPrivateKey'', JStr (wg_priv r)), (''peerTunnelAddress'', JStr (wg_tip r)),
     (''serverPublicKey'', JStr (wg_server_key r)), (''endpoint'', JStr (wg_endpoint r)), (''allowedIPs'', JStr (wg_subnet r)),
     (''interfaceName'', JStr ''evuproxy'')]"

definition peer_bundle_encrypted_bytes ::
  "bundle_crypto \<Rightarrow> (string \<Rightarrow> bytes) \<Rightarrow> string \<Rightarrow> wg_params \<Rightarrow> bytes \<Rightarrow> bytes \<Rightarrow> bytes" where
  "peer_bundle_encrypted_bytes cr utf8 passphrase r salt iv =
     (let plain = utf8 (stringify (bundle_payload r));
          dk = pbkdf2 cr (utf8 passphrase) salt PEER_BUNDLE_PBDF2_ITER;
          aesKey = take 32 dk; macKey = take 32 (drop 32 dk);
          ciphertext = aes_encrypt cr aesKey iv plain;
          mac = hmac_sha256 cr macKey (iv @ ciphertext) in
      PEER_BUNDLE_MAGIC @ [word_of_nat PEER_BUNDLE_VERSION] @ uint32_be PEER_BUNDLE_PBDF2_ITER @ [16] @ salt @ iv @
      uint32_be (length ciphertext) @ ciphertext @ mac)"

text \<open>The script's side: \<open>unpack_and_decrypt_json\<close>, by byte offsets.\<close>

definition slice_bytes :: "nat \<Rightarrow> nat \<Rightarrow> bytes \<Rightarrow> bytes" where
  "slice_bytes off n b = take n (drop off b)"

definition be32 :: "bytes \<Rightarrow> nat" where
  "be32 b = foldl (\<lambda>a x. a * 256 + unat x) 0 b"

definition MIN_PBKDF2_ITER :: nat where
  "MIN_PBKDF2_ITER = 310000"

definition unpack_and_decrypt :: "bundle_crypto \<Rightarrow> (string \<Rightarrow> bytes) \<Rightarrow> string \<Rightarrow> bytes \<Rightarrow> string + bytes" where
  "unpack_and_decrypt cr utf8 passphrase raw =
     (if slice_bytes 0 4 raw \<noteq> PEER_BUNDLE_MAGIC then Inl ''Unknown bundle magic''
      else if slice_bytes 9 1 raw \<noteq> [16] then Inl ''Invalid bundle salt length.''
      else (let iterations = be32 (slice_bytes 5 4 raw) in
        if iterations < MIN_PBKDF2_ITER then Inl ''Bundle PBKDF2 iteration count is below minimum''
        else (let salt = slice_bytes 10 16 raw; iv = slice_bytes 26 16 raw; ctLen = be32 (slice_bytes 42 4 raw) in
          if 46 + ctLen + 32 \<noteq> length raw then Inl ''Bundle length inconsistent with ciphertext size.''
          else (let expected = slice_bytes (46 + ctLen) 32 raw; ct = slice_bytes 46 ctLen raw;
                    dk = pbkdf2 cr (utf8 passphrase) salt iterations in
            if hmac_sha256 cr (slice_bytes 32 32 dk) (iv @ ct) \<noteq> expected then Inl ''Unlock passphrase mismatch or corrupted bundle.''
            else (case aes_decrypt cr (slice_bytes 0 32 dk) iv ct of
                Some plain \<Rightarrow> Inr plain | None \<Rightarrow> Inl ''openssl decrypt failed (wrong passphrase or damaged blob).'')))))"

definition crypto_ok :: "bundle_crypto \<Rightarrow> bool" where
  "crypto_ok cr \<longleftrightarrow> (\<forall>k iv p. aes_decrypt cr k iv (aes_encrypt cr k iv p) = Some p) \<and> (\<forall>k d. length (hmac_sha256 cr k d) = 32)"

lemma be32_uint32: "n < 2 ^ 32 \<Longrightarrow> be32 (uint32_be n) = n"
proof -
  assume n: "n < 2 ^ 32"
  define a where "a = n div 2 ^ 24"
  define b where "b = n div 2 ^ 16 mod 256"
  define c where "c = n div 2 ^ 8 mod 256"
  define d where "d = n mod 256"
  have "be32 (uint32_be n) = ((a mod 256 * 256 + b) * 256 + c) * 256 + d"
    by (simp add: be32_def uint32_be_def unat_of_nat a_def b_def c_def d_def take_bit_eq_mod)
  moreover have "a < 256" using n by (simp add: a_def)
  moreover have "n = ((a * 256 + b) * 256 + c) * 256 + d"
    unfolding a_def b_def c_def d_def
    using div_mult_mod_eq [of n 256] div_mult_mod_eq [of "n div 2 ^ 8" 256] div_mult_mod_eq [of "n div 2 ^ 16" 256]
    by (simp add: div_mult2_eq [symmetric])
  ultimately show ?thesis by simp
qed

text \<open>C25
  The peer opens the bundle it was given. With the passphrase shown in the UI, the script reads the
  bundle's layout as it was written and gets the payload back byte for byte; so the two programs agree
  on every offset, the byte order, the key halves and what the MAC covers.
\<close>

theorem bundle_opens_on_the_peer:
  assumes "crypto_ok cr" "length salt = 16" "length iv = 16"
    "length (aes_encrypt cr (take 32 (pbkdf2 cr (utf8 passphrase) salt 310000)) iv (utf8 (stringify (bundle_payload r)))) < 2 ^ 32"
  shows "unpack_and_decrypt cr utf8 passphrase (peer_bundle_encrypted_bytes cr utf8 passphrase r salt iv) =
     Inr (utf8 (stringify (bundle_payload r)))"
proof -
  let ?plain = "utf8 (stringify (bundle_payload r))" and ?dk = "pbkdf2 cr (utf8 passphrase) salt 310000"
  define ct where "ct = aes_encrypt cr (take 32 ?dk) iv ?plain"
  define mac where "mac = hmac_sha256 cr (take 32 (drop 32 ?dk)) (iv @ ct)"
  define raw where "raw = PEER_BUNDLE_MAGIC @ [word_of_nat PEER_BUNDLE_VERSION] @ uint32_be 310000 @ [16] @ salt @ iv @ uint32_be (length ct) @ ct @ mac"
  have raw: "peer_bundle_encrypted_bytes cr utf8 passphrase r salt iv = raw"
    by (simp add: peer_bundle_encrypted_bytes_def raw_def ct_def mac_def PEER_BUNDLE_PBDF2_ITER_def Let_def)
  have len: "length (uint32_be n) = 4" "length PEER_BUNDLE_MAGIC = 4" for n by (simp_all add: uint32_be_def PEER_BUNDLE_MAGIC_def)
  have mac: "length mac = 32" using assms(1) by (simp add: crypto_ok_def mac_def)
  have ct: "length ct < 2 ^ 32" using assms(4) by (simp add: ct_def)
  have sl: "slice_bytes 0 4 raw = PEER_BUNDLE_MAGIC" "slice_bytes 9 (Suc 0) raw = [16]" "slice_bytes 5 4 raw = uint32_be 310000"
    "slice_bytes 10 16 raw = salt" "slice_bytes 26 16 raw = iv" "slice_bytes 42 4 raw = uint32_be (length ct)"
    "slice_bytes 46 (length ct) raw = ct" "length raw = 46 + length ct + 32"
    using assms(2,3) mac by (simp_all add: raw_def slice_bytes_def len)
  have sm: "slice_bytes (46 + length ct) 32 raw = mac"
  proof -
    define pre where "pre = PEER_BUNDLE_MAGIC @ [word_of_nat PEER_BUNDLE_VERSION] @ uint32_be 310000 @ [16] @ salt @ iv @ uint32_be (length ct) @ ct"
    have "raw = pre @ mac" "length pre = 46 + length ct" using assms(2,3) by (simp_all add: raw_def pre_def len)
    then show ?thesis using mac by (simp add: slice_bytes_def)
  qed
  have dec: "aes_decrypt cr (take 32 ?dk) iv ct = Some ?plain" using assms(1) by (simp add: crypto_ok_def ct_def)
  show ?thesis
    unfolding raw unpack_and_decrypt_def Let_def
    using be32_uint32 [OF ct] be32_uint32 [of 310000] dec
    by (simp add: sl sm MIN_PBKDF2_ITER_def) (simp add: slice_bytes_def mac_def)
qed

text \<open>A cipher that does nothing, a constant MAC and a one-byte encoding satisfy what is assumed.\<close>

definition toy_crypto :: bundle_crypto where
  "toy_crypto = \<lparr>pbkdf2 = (\<lambda>p s n. replicate 64 0), aes_encrypt = (\<lambda>k iv p. p), aes_decrypt = (\<lambda>k iv c. Some c),
     hmac_sha256 = (\<lambda>k d. replicate 32 0)\<rparr>"

definition toy_wg :: wg_params where
  "toy_wg = \<lparr>wg_name = ''a'', wg_tip = ''10.9.0.2/32'', wg_pub = ''p'', wg_priv = ''s'', wg_endpoint = ''h:51820'', wg_server_key = ''k'',
     wg_subnet = ''10.9.0.0/24''\<rparr>"

definition toy_utf8 :: "string \<Rightarrow> bytes" where
  "toy_utf8 s = [word_of_nat (length s)]"

theorem bundle_opens_on_the_peer_witness:
  "unpack_and_decrypt toy_crypto toy_utf8 ''secret''
     (peer_bundle_encrypted_bytes toy_crypto toy_utf8 ''secret'' toy_wg (replicate 16 1) (replicate 16 2)) =
   Inr (toy_utf8 (stringify (bundle_payload toy_wg)))"
  by (rule bundle_opens_on_the_peer) (simp_all add: crypto_ok_def toy_crypto_def toy_utf8_def)

section \<open>Rebuilding the bundle\<close>

text \<open>
  The editor's state: the number of the newest rebuild, the passphrase shown, and the commands on screen
  (none: the placeholder) with the rebuild that wrote them.
\<close>

record bundle_panel =
  rebuild_seq :: nat
  unlock_pass :: string
  panel_snippet :: "(nat \<times> string) option"

datatype bundle_event =
    Rebuild bool "string + wg_params" string
  | BundleReady nat "string + string"
  | EditorClosed

definition bundle_step :: "string \<Rightarrow> bundle_event \<Rightarrow> bundle_panel \<Rightarrow> bundle_panel" where
  "bundle_step url e s = (case e of
     Rebuild forceNew params fresh \<Rightarrow>
       (let s1 = s\<lparr>rebuild_seq := Suc (rebuild_seq s)\<rparr> in
        case params of
          Inl _ \<Rightarrow> s1\<lparr>unlock_pass := (if forceNew then [] else unlock_pass s1), panel_snippet := None\<rparr>
        | Inr _ \<Rightarrow> (if forceNew \<or> unlock_pass s1 = [] then s1\<lparr>unlock_pass := fresh\<rparr> else s1))
   | BundleReady n blob \<Rightarrow>
       (if n \<noteq> rebuild_seq s then s
        else (case blob of
            Inr b \<Rightarrow> s\<lparr>panel_snippet := Some (n, build_peer_two_line_snippet url (unlock_pass s) b)\<rparr>
          | Inl _ \<Rightarrow> s\<lparr>panel_snippet := None\<rparr>))
   | EditorClosed \<Rightarrow> s\<lparr>rebuild_seq := Suc (rebuild_seq s)\<rparr>)"

text \<open>A rebuild overtaken by a newer one, or whose editor was closed, never writes its commands.\<close>

lemma overtaken_bundle_is_dropped:
  "n < rebuild_seq s \<Longrightarrow> bundle_step url (BundleReady n blob) s = s"
  by (simp add: bundle_step_def)

lemma bundle_seq_grows: "rebuild_seq s \<le> rebuild_seq (bundle_step url e s)"
  by (cases e) (auto simp: bundle_step_def Let_def split: sum.split)

end
