(* ===== verification/Save_Refinement.thy ===== *)
theory Save_Refinement
  imports Config_Save
begin

text \<open>
  The config as one register. What \<open>core/config_save.js\<close> promises, written without requests, revisions or
  retries: the host's file is a register; others overwrite it, and a save replaces it by the edit
  of what it holds, in one step. A tab that saves a row of edits through \<open>saveConfigEdit\<close>, with
  everything that can happen to its requests, does what the register allows.
\<close>

section \<open>The register\<close>

datatype register_step = Foreign string | Save edit

text \<open>The edit of the file \<open>f\<close>; a file is known by its digest.\<close>

definition edited_file :: "config_io \<Rightarrow> edit \<Rightarrow> string \<Rightarrow> string \<Rightarrow> bool" where
  "edited_file io e f g \<longleftrightarrow> (\<exists>f' base draft. sha256 io f = sha256 io f' \<and> load_yaml io f' = Some base \<and>
     e base = Inr (True, draft) \<and> encode_yaml io draft = Inr g)"

inductive register_run :: "config_io \<Rightarrow> register_step list \<Rightarrow> string \<Rightarrow> string \<Rightarrow> bool" for io where
  stop: "register_run io [] f f"
| foreign: "register_run io steps g h \<Longrightarrow> register_run io (Foreign g # steps) f h"
| save: "edited_file io e f g \<Longrightarrow> register_run io steps g h \<Longrightarrow> register_run io (Save e # steps) f h"

inductive_simps register_run_simps [simp]:
  "register_run io [] f g"
  "register_run io (Foreign x # steps) f g"
  "register_run io (Save e # steps) f g"

lemma register_run_append:
  "register_run io a f g \<Longrightarrow> register_run io b g h \<Longrightarrow> register_run io (a @ b) f h"
  by (induction rule: register_run.induct) auto

definition foreign_files :: "register_step list \<Rightarrow> string list" where
  "foreign_files steps = concat (map (\<lambda>s. case s of Foreign f \<Rightarrow> [f] | Save _ \<Rightarrow> []) steps)"

definition saves_made :: "register_step list \<Rightarrow> edit list" where
  "saves_made steps = concat (map (\<lambda>s. case s of Foreign _ \<Rightarrow> [] | Save e \<Rightarrow> [e]) steps)"

section \<open>The host's history\<close>

text \<open>A tab's history, with its saves as the files replaced and written.\<close>

datatype host_event = Overwritten string | Replaced string string

fun file_after :: "host_event list \<Rightarrow> string \<Rightarrow> string option" where
  "file_after [] f = Some f"
| "file_after (Overwritten g # es) f = file_after es g"
| "file_after (Replaced old new # es) f = (if old = f then file_after es new else None)"

definition replacements :: "host_event list \<Rightarrow> (string \<times> string) list" where
  "replacements es = concat (map (\<lambda>e. case e of Overwritten _ \<Rightarrow> [] | Replaced old new \<Rightarrow> [(old, new)]) es)"

definition overwrites :: "host_event list \<Rightarrow> string list" where
  "overwrites es = concat (map (\<lambda>e. case e of Overwritten f \<Rightarrow> [f] | Replaced _ _ \<Rightarrow> []) es)"

definition host_path :: "host \<Rightarrow> host_event list \<Rightarrow> host \<Rightarrow> bool" where
  "host_path w es w' \<longleftrightarrow> file_after es (host_file w) = Some (host_file w') \<and>
     writes w' = writes w @ replacements es \<and>
     (\<exists>used. schedule w = used @ schedule w' \<and> overwrites es = concat (map foreign used))"

lemma file_after_append:
  "file_after a f = Some g \<Longrightarrow> file_after (a @ b) f = file_after b g"
  by (induction a f rule: file_after.induct) (auto split: if_splits)

lemma file_after_overwrites: "file_after (map Overwritten fs) f = Some (last (f # fs))"
  by (induction fs arbitrary: f) auto

lemma event_projections [simp]:
  "replacements (a @ b) = replacements a @ replacements b" "overwrites (a @ b) = overwrites a @ overwrites b"
  "replacements (map Overwritten fs) = []" "overwrites (map Overwritten fs) = fs"
  "replacements [Replaced old new] = [(old, new)]" "overwrites [Replaced old new] = []"
  by (induction fs) (simp_all add: replacements_def overwrites_def)

section \<open>Stores whose steps leave a trace\<close>

locale traced_store =
  fixes get :: "'w getter"
    and put :: "'w putter"
    and trace :: "'w \<Rightarrow> 'e list \<Rightarrow> 'w \<Rightarrow> bool"
  assumes trace_refl: "trace w [] w"
    and trace_trans: "trace w a u \<Longrightarrow> trace u b v \<Longrightarrow> trace w (a @ b) v"
    and get_trace: "get w = (r, w') \<Longrightarrow> \<exists>es. trace w es w'"
    and put_trace: "put cfg tags w = (q, w') \<Longrightarrow> \<exists>es. trace w es w'"
begin

lemma put_config_trace:
  "put_config_at_revision get put cfg tag w = (r, w') \<Longrightarrow> \<exists>es. trace w es w'"
proof -
  assume r: "put_config_at_revision get put cfg tag w = (r, w')"
  obtain q w1 where q: "put cfg (if tag \<noteq> [] then [tag] else []) w = (q, w1)" by fastforce
  obtain g w2 where g: "get w1 = (g, w2)" by fastforce
  have "w' = w1 \<or> w' = w2"
    using r q g by (auto simp: put_config_at_revision_def split: sum.splits)
  with put_trace [OF q] get_trace [OF g] trace_trans show ?thesis by blast
qed

lemma save_attempts_trace: "save_attempts get put edit n base w = (r, b, w') \<Longrightarrow> \<exists>es. trace w es w'"
proof (induction n arbitrary: base w)
  case 0
  then show ?case using trace_refl by auto
next
  case (Suc n)
  show ?case
  proof (cases "\<exists>draft. edit (body base) = Inr (True, draft)")
    case False
    with Suc.prems show ?thesis using trace_refl by (auto split: sum.splits prod.splits bool.splits)
  next
    case True
    then obtain draft q w1 where draft: "edit (body base) = Inr (True, draft)"
      and q: "put_config_at_revision get put draft (etag base) w = (q, w1)" by fastforce
    obtain a where a: "trace w a w1" using put_config_trace [OF q] by blast
    obtain g w2 where g: "get w1 = (g, w2)" by fastforce
    obtain b where b: "trace w1 b w2" using get_trace [OF g] by blast
    show ?thesis
      using Suc.prems draft q g a trace_trans [OF a b] Suc.IH trace_trans
      by (cases q; cases g) (fastforce split: if_splits)+
  qed
qed

lemma save_config_edit_trace:
  "save_config_edit get put edit lc w = (r, lc', w') \<Longrightarrow> \<exists>es. trace w es w'"
proof -
  assume r: "save_config_edit get put edit lc w = (r, lc', w')"
  obtain g w1 where g: "get w = (g, w1)" by fastforce
  have "w' = w1 \<or> (\<exists>b r b'. save_attempts get put edit MAX_SAVE_ATTEMPTS b w = (r, b', w')) \<or>
      (\<exists>b r b'. save_attempts get put edit MAX_SAVE_ATTEMPTS b w1 = (r, b', w'))"
    using r g by (auto simp: save_config_edit_def Let_def split: option.splits sum.splits prod.splits if_splits)
  with get_trace [OF g] save_attempts_trace trace_trans show ?thesis by blast
qed

end

lemma arrive_path: "arrive w = (f, w') \<Longrightarrow> \<exists>es. host_path w es w' \<and> replacements es = []"
proof (cases "schedule w")
  case (Cons t ts)
  assume "arrive w = (f, w')"
  with Cons show ?thesis
    by (intro exI [of _ "map Overwritten (foreign t)"])
      (auto simp: host_path_def arrive_def file_after_overwrites intro: exI [of _ "[t]"])
qed (auto simp: arrive_def host_path_def replacements_def overwrites_def intro: exI [of _ "[]"])

lemma host_path_refl: "host_path w [] w"
  by (simp add: host_path_def replacements_def overwrites_def)

lemma host_path_trans: "host_path w a u \<Longrightarrow> host_path u b v \<Longrightarrow> host_path w (a @ b) v"
  by (auto simp: host_path_def file_after_append)

lemma host_path_replace:
  "host_path (w\<lparr>sent_puts := n\<rparr>) es w' = host_path w es w'"
  "host_path w' [Replaced (host_file w') new] (w'\<lparr>host_file := new, writes := writes w' @ [(host_file w', new)]\<rparr>)"
  by (simp_all add: host_path_def)

interpretation history: traced_store "api_get_config io" "api_put_config io" host_path for io
proof unfold_locales
  show "\<exists>es. host_path w es w'" if "api_get_config io w = (r, w')" for w r w'
    using that by (auto simp: api_get_config_def split: prod.splits fate.splits option.splits dest!: arrive_path)
  show "\<exists>es. host_path w es w'" if p: "api_put_config io cfg tags w = (q, w')" for cfg tags w q w'
  proof -
    obtain f w1 where ar: "arrive (w\<lparr>sent_puts := Suc (sent_puts w)\<rparr>) = (f, w1)" by fastforce
    obtain es where es: "host_path w es w1" using arrive_path [OF ar] by (auto simp: host_path_replace)
    have "w' = w1 \<or> (\<exists>new. w' = w1\<lparr>host_file := new, writes := writes w1 @ [(host_file w1, new)]\<rparr>)"
      using p ar by (auto simp: api_put_config_def split: fate.splits sum.splits)
    with es show ?thesis using host_path_trans host_path_replace(2) by blast
  qed
qed (simp_all add: host_path_refl host_path_trans)

section \<open>A tab refines the register\<close>

definition steps_of :: "edit \<Rightarrow> host_event list \<Rightarrow> register_step list" where
  "steps_of e = map (\<lambda>x. case x of Overwritten f \<Rightarrow> Foreign f | Replaced _ _ \<Rightarrow> Save e)"

lemma register_run_steps:
  "file_after es f = Some g \<Longrightarrow> \<forall>p \<in> set (replacements es). edited_file io e (fst p) (snd p) \<Longrightarrow>
     register_run io (steps_of e es) f g"
  by (induction es f rule: file_after.induct)
    (auto simp: steps_of_def replacements_def split: if_splits)

lemma steps_of_projections:
  "foreign_files (steps_of e es) = overwrites es"
  "saves_made (steps_of e es) = map (\<lambda>_. e) (replacements es)"
  by (induction es) (simp_all add: foreign_files_def saves_made_def steps_of_def overwrites_def replacements_def
      split: host_event.split)

text \<open>
  What an answer to a save says about it: one that resolved has happened, once, unless the edit
  had nothing to do; one that failed has happened once or not at all.
\<close>

definition accounted :: "edit \<Rightarrow> save_error + snapshot \<Rightarrow> register_step list \<Rightarrow> bool" where
  "accounted e r steps \<longleftrightarrow> saves_made steps = [e] \<or>
     saves_made steps = [] \<and> (\<forall>snap. r = Inr snap \<longrightarrow> (\<exists>j draft. e j = Inr (False, draft)))"

lemma one_save_refines:
  assumes "\<And>b. lc = Some b \<Longrightarrow> remembered io b"
    and run: "save_config_edit (api_get_config io) (api_put_config io) e lc w = (r, lc', w')"
  shows "\<exists>steps used. register_run io steps (host_file w) (host_file w') \<and> accounted e r steps \<and>
    schedule w = used @ schedule w' \<and> foreign_files steps = concat (map foreign used)"
proof -
  obtain es used where es: "file_after es (host_file w) = Some (host_file w')" "writes w' = writes w @ replacements es"
    "schedule w = used @ schedule w'" "overwrites es = concat (map foreign used)"
    using history.save_config_edit_trace [OF run] by (auto simp: host_path_def)
  note saved = host.save_config_edit_saves [OF assms(1) [unfolded remembered_host] run]
  have one: "replacements es = [] \<or> (\<exists>p. replacements es = [p] \<and> edited_file io e (fst p) (snd p))"
  proof (cases "replacements es = []")
    case False
    with saved es(2) obtain p where "replacements es = [p]" "host.rebased io e p"
      by (auto simp: host.at_most_one_rebased_def)
    then show ?thesis by (auto simp: host.rebased_def edited_file_def)
  qed simp
  have "accounted e r (steps_of e es)"
    using one saved es(2) by (auto simp: accounted_def steps_of_projections)
  moreover have "register_run io (steps_of e es) (host_file w) (host_file w')"
    by (rule register_run_steps [OF es(1)]) (use one in auto)
  ultimately show ?thesis using es(3,4) steps_of_projections(1) by metis
qed

text \<open>A tab saves one edit after another, each on the config the last save left it with.\<close>

fun save_all :: "config_io \<Rightarrow> edit list \<Rightarrow> snapshot option \<Rightarrow> host \<Rightarrow> (save_error + snapshot) list \<times> snapshot option \<times> host" where
  "save_all io [] lc w = ([], lc, w)"
| "save_all io (e # es) lc w =
     (case save_config_edit (api_get_config io) (api_put_config io) e lc w of (r, lc1, w1) \<Rightarrow>
        (case save_all io es lc1 w1 of (rs, lc2, w2) \<Rightarrow> (r # rs, lc2, w2)))"

lemma foreign_files_append [simp]: "foreign_files (a @ b) = foreign_files a @ foreign_files b"
  by (simp add: foreign_files_def)

text \<open>C3
  Saving refines an atomic register. A tab that saves a row of edits, each from whatever config it
  remembers, while others write between any two of its requests and requests and answers get lost,
  leaves the host's file as a run of the register would: the files of others in the order they
  arrived, and between them this tab's edits in the order they were made, each applied in one step to
  the file of that moment. An edit that was reported saved is in the run exactly once, one that was
  reported failed at most once.
\<close>

theorem tab_refines_register:
  assumes "\<And>b. lc = Some b \<Longrightarrow> remembered io b" "save_all io es lc w = (rs, lc', w')"
  shows "\<exists>parts used. register_run io (concat parts) (host_file w) (host_file w') \<and>
    length parts = length es \<and> length rs = length es \<and> (\<forall>i < length es. accounted (es ! i) (rs ! i) (parts ! i)) \<and>
    schedule w = used @ schedule w' \<and> foreign_files (concat parts) = concat (map foreign used)"
  using assms
proof (induction es arbitrary: lc w rs)
  case Nil
  then show ?case by (auto simp: foreign_files_def)
next
  case (Cons e es)
  obtain r lc1 w1 where one: "save_config_edit (api_get_config io) (api_put_config io) e lc w = (r, lc1, w1)"
    by (metis prod_cases3)
  obtain rs2 where rest: "save_all io es lc1 w1 = (rs2, lc', w')" and rs: "rs = r # rs2"
    using Cons.prems(2) one by (auto split: prod.splits)
  have "\<And>b. lc1 = Some b \<Longrightarrow> remembered io b"
    using host.save_config_edit_saves [OF Cons.prems(1) [unfolded remembered_host] one] by (simp add: remembered_host)
  from Cons.IH [OF this rest] obtain parts used where ih: "register_run io (concat parts) (host_file w1) (host_file w')"
    "length parts = length es" "length rs2 = length es" "\<forall>i < length es. accounted (es ! i) (rs2 ! i) (parts ! i)"
    "schedule w1 = used @ schedule w'" "foreign_files (concat parts) = concat (map foreign used)" by blast
  from one_save_refines [OF Cons.prems(1) one] obtain steps used1 where st: "register_run io steps (host_file w) (host_file w1)"
    "accounted e r steps" "schedule w = used1 @ schedule w1" "foreign_files steps = concat (map foreign used1)" by blast
  show ?case
  proof (intro exI conjI)
    show "register_run io (concat (steps # parts)) (host_file w) (host_file w')"
      using register_run_append [OF st(1) ih(1)] by simp
    show "\<forall>i < length (e # es). accounted ((e # es) ! i) (rs ! i) ((steps # parts) ! i)"
      using ih(4) st(2) rs by (simp add: nth_Cons')
    show "schedule w = (used1 @ used) @ schedule w'" using st(3) ih(5) by simp
    show "foreign_files (concat (steps # parts)) = concat (map foreign (used1 @ used))" using st(4) ih(6) by simp
  qed (use ih(2,3) rs in simp_all)
qed

theorem tab_refines_register_witness:
  "\<exists>rs lc' w' parts. save_all toy_io [toy_edit, toy_edit] (Some \<lparr>body = JStr ''old'', etag = etag_of toy_io ''old''\<rparr>)
       \<lparr>host_file = ''other'', schedule = [\<lparr>foreign = [''newest''], fate = LostAnswer\<rparr>], writes = [], sent_puts = 0\<rparr> = (rs, lc', w') \<and>
     register_run toy_io (concat parts) ''other'' (host_file w') \<and> length parts = 2"
  (is "\<exists>rs lc' w' parts. save_all _ _ ?lc ?w = _ \<and> _")
proof -
  obtain rs lc' w' where run: "save_all toy_io [toy_edit, toy_edit] ?lc ?w = (rs, lc', w')"
    by (metis prod_cases3)
  have "remembered toy_io b" if "?lc = Some b" for b
    using that by (auto simp: remembered_def toy_io_def)
  from tab_refines_register [OF this run] obtain parts where
    "register_run toy_io (concat parts) (host_file ?w) (host_file w')" "length parts = length [toy_edit, toy_edit]" by blast
  with run have "save_all toy_io [toy_edit, toy_edit] ?lc ?w = (rs, lc', w') \<and>
      register_run toy_io (concat parts) ''other'' (host_file w') \<and> length parts = 2" by simp
  then show ?thesis by blast
qed

end
