(* ===== verification/Config_Types.thy ===== *)
theory Config_Types
  imports Config_Revert
begin

text \<open>
  Taking changes back and putting them back (\<open>core/config_changes.js\<close>) keeps a config a config: an
  object whose keys are distinct at every level, as \<open>JSON.parse\<close> built it and as \<open>JSON.stringify\<close>
  may write it. Every step of a listed change carries values of that type, and every operation
  on the draft preserves it.
\<close>

definition wf_value :: "jsval \<Rightarrow> bool" where
  "wf_value v = (case v of None \<Rightarrow> True | Some j \<Rightarrow> wf_json j)"

definition wf_config :: "json \<Rightarrow> bool" where
  "wf_config j \<longleftrightarrow> is_object j \<and> wf_json j"

definition wf_step :: "step \<Rightarrow> bool" where
  "wf_step st = (case st of
     RowStep pth before after _ _ _ _ \<Rightarrow> wf_value before \<and> wf_value after
   | OrderStep pth before after \<Rightarrow> list_all wf_json before \<and> list_all wf_json after
   | ValueStep pth before after \<Rightarrow> wf_value before \<and> wf_value after)"

definition wf_change :: "change \<Rightarrow> bool" where
  "wf_change c \<longleftrightarrow> list_all wf_step (change_steps c)"

section \<open>Objects and paths\<close>

lemma wf_value_simps [simp]: "wf_value None" "wf_value (Some j) = wf_json j"
  by (simp_all add: wf_value_def)

lemma wf_array: "wf_json (JArr xs) \<longleftrightarrow> list_all wf_json xs"
  by (simp add: list.pred_map comp_def)

lemma wf_object: "wf_json (JObj kvs) \<longleftrightarrow> distinct (map fst kvs) \<and> list_all (\<lambda>(_, v). wf_json v) kvs"
  by (auto simp: list_all_iff)

declare wf_json.simps(5,6) [simp del]
declare wf_array [simp]

lemma wf_members: "wf_json (JObj kvs) \<Longrightarrow> map_of kvs k = Some v \<Longrightarrow> wf_json v"
  by (auto simp: wf_object list_all_iff dest!: map_of_SomeD)

lemma wf_put_key: "wf_json (JObj kvs) \<Longrightarrow> wf_json v \<Longrightarrow> wf_json (JObj (put_key k v kvs))"
proof -
  have "list_all (\<lambda>(_, x). wf_json x) kvs \<Longrightarrow> wf_json v \<Longrightarrow> list_all (\<lambda>(_, x). wf_json x) (put_key k v kvs)"
    by (induction kvs) auto
  then show "wf_json (JObj kvs) \<Longrightarrow> wf_json v \<Longrightarrow> wf_json (JObj (put_key k v kvs))"
    by (simp only: wf_object distinct_put_key)
qed

lemma wf_del_key: "wf_json (JObj kvs) \<Longrightarrow> wf_json (JObj (del_key k kvs))"
  by (auto simp only: wf_object distinct_del_key) (auto simp: del_key_def list_all_iff)

lemma wf_member_json: "wf_json j \<Longrightarrow> wf_value (member_json j k)"
  by (cases j) (auto simp: wf_value_def split: option.split dest: wf_members)

lemma wf_get_path: "wf_value v \<Longrightarrow> wf_value (get_path v pth)"
proof (induction pth arbitrary: v)
  case (Cons k ks)
  have "wf_value (case v of None \<Rightarrow> None | Some JNull \<Rightarrow> None | Some j \<Rightarrow> member_json j k)"
    using Cons.prems wf_member_json [of "the v" k] by (auto split: option.split json.split)
  from Cons.IH [OF this] show ?case by simp
qed simp

lemma wf_set_path:
  "wf_json obj \<Longrightarrow> wf_value v \<Longrightarrow> set_path obj pth v = Some obj' \<Longrightarrow>
     wf_json obj' \<and> is_object obj' = is_object obj"
proof (induction obj pth v arbitrary: obj' rule: set_path.induct)
  case (2 kvs k v)
  then show ?case
    by (cases v) (auto simp: is_object_def wf_put_key wf_del_key)
next
  case (3 kvs k k' ks v)
  obtain child where c: "set_path (if truthy (map_of kvs k) then the (map_of kvs k) else JObj []) (k' # ks) v = Some child"
    and o: "obj' = JObj (put_key k child kvs)"
    using "3.prems"(3) by (auto split: option.splits)
  have "wf_json (if truthy (map_of kvs k) then the (map_of kvs k) else JObj [])"
    using "3.prems"(1) wf_members by (auto simp: truthy_def wf_object split: option.splits)
  from "3.IH" [OF this "3.prems"(2) c] have "wf_json child" by blast
  with "3.prems"(1) o show ?case by (simp add: is_object_def wf_put_key)
qed (auto split: if_splits)

lemma wf_write_path:
  "wf_config obj \<Longrightarrow> wf_value v \<Longrightarrow> write_path obj pth v = Inr obj' \<Longrightarrow> wf_config obj'"
  using wf_set_path by (auto simp: wf_config_def write_path_def split: option.splits)

lemma wf_list_at: "wf_json j \<Longrightarrow> list_all wf_json (list_at j pth)"
  using wf_get_path [of "Some j" pth] by (auto simp: list_at_def split: option.splits json.splits)

lemma wf_rows_of: "wf_value v \<Longrightarrow> list_all wf_json (rows_of v)"
  by (auto simp: rows_of_def split: option.splits json.splits)

section \<open>Rows\<close>

lemma set_insert_at: "set (insert_at i x xs) = insert x (set xs)"
  by (metis mset_insert_at set_mset_add_mset_insert set_mset_mset)

lemma set_remove_at: "set (remove_at i xs) \<subseteq> set xs"
  by (auto simp: remove_at_def dest: in_set_takeD in_set_dropD)

lemma move_rows_set:
  assumes "move_rows rows have wanted i wantRows = Inr (changed, rows')"
  shows "set rows' \<subseteq> set rows \<union> set_option wanted"
proof (cases wanted)
  case None
  with assms show ?thesis
    by (auto simp: move_rows_def split: option.splits if_splits dest: in_set_butlastD set_remove_at [THEN subsetD])
next
  case (Some w)
  with assms show ?thesis
    by (auto simp: move_rows_def set_insert_at split: option.splits if_splits sum.splits bool.splits
        dest!: set_update_subset_insert [THEN subsetD])
qed

lemma wf_move_rows:
  "move_rows rows have wanted i wantRows = Inr (changed, rows') \<Longrightarrow> list_all wf_json rows \<Longrightarrow> wf_value wanted \<Longrightarrow>
     list_all wf_json rows'"
  by (cases wanted) (auto simp: list_all_iff dest!: move_rows_set)

lemma claim_slots_rows: "fst ` set (claim_slots cs wanted) \<subseteq> set wanted"
  by (induction cs wanted rule: claim_slots.induct) (force split: option.splits)+

lemma set_fill_slots: "set (fill_slots rows ps) \<subseteq> set rows \<union> snd ` set ps"
  by (induction rows ps rule: fill_slots.induct) (auto dest!: set_update_subset_insert [THEN subsetD] split: if_splits)

lemma wf_set_row_order:
  "list_all wf_json rows \<Longrightarrow> list_all wf_json wanted \<Longrightarrow> list_all wf_json (snd (set_row_order rows wanted))"
proof -
  have "set (snd (set_row_order rows wanted)) \<subseteq> set rows \<union> snd ` set (placed_rows rows wanted)"
    by (simp add: set_row_order_placed set_fill_slots)
  moreover have "snd ` set (placed_rows rows wanted) \<subseteq> set wanted"
    using claim_slots_rows by (fastforce simp: placed_rows_def Let_def dest: set_zip_rightD)
  ultimately show "list_all wf_json rows \<Longrightarrow> list_all wf_json wanted \<Longrightarrow> list_all wf_json (snd (set_row_order rows wanted))"
    unfolding list_all_iff by blast
qed

section \<open>Steps\<close>

lemma wf_move_row:
  assumes "move_row draft pth have wanted i wantRows = Inr (changed, draft')" "wf_config draft" "wf_value wanted"
  shows "wf_config draft'"
proof -
  obtain draft1 where 1: "(if is_array (get_path (Some draft) pth) then Inr draft else write_path draft pth (Some (JArr []))) = Inr draft1"
    using assms(1) by (auto simp: move_row_def split: sum.splits)
  have ok1: "wf_config draft1"
    using 1 assms(2) wf_write_path [of draft "Some (JArr [])"] by (auto split: if_splits)
  obtain ch rows where 2: "move_rows (list_at draft1 pth) have wanted i wantRows = Inr (ch, rows)"
    using assms(1) 1 by (auto simp: move_row_def split: sum.splits)
  have "list_all wf_json rows"
    by (rule wf_move_rows [OF 2]) (use ok1 wf_list_at assms(3) in \<open>auto simp: wf_config_def\<close>)
  with assms(1) 1 2 ok1 show ?thesis
    using wf_write_path [of draft1 "Some (JArr rows)"]
    by (auto simp: move_row_def split: if_splits sum.splits)
qed

lemma wf_apply_step:
  assumes "apply_step draft st toApplied = Inr (changed, draft')" "wf_config draft" "wf_step st"
  shows "wf_config draft'"
proof (cases st)
  case (RowStep pth b a bi ai bs as)
  with assms show ?thesis
    using wf_move_row by (auto simp: apply_step_def wf_step_def split: if_splits)
next
  case (OrderStep pth b a)
  have "list_all wf_json (snd (set_row_order (list_at draft pth) (if toApplied then b else a)))"
    by (rule wf_set_row_order) (use assms wf_list_at OrderStep in \<open>auto simp: wf_config_def wf_step_def\<close>)
  then have "wf_value (Some (JArr (snd (set_row_order (list_at draft pth) (if toApplied then b else a)))))" by simp
  from wf_write_path [OF assms(2) this] assms OrderStep show ?thesis
    by (auto simp: apply_step_def split: if_splits sum.splits prod.splits)
next
  case (ValueStep pth b a)
  with assms wf_write_path show ?thesis
    by (auto simp: apply_step_def Let_def wf_step_def split: if_splits sum.splits)
qed

lemma wf_apply_steps:
  "apply_steps draft sts toApplied = Inr (changed, draft') \<Longrightarrow> wf_config draft \<Longrightarrow> list_all wf_step sts \<Longrightarrow> wf_config draft'"
  by (induction draft sts toApplied arbitrary: changed draft' rule: apply_steps.induct)
    (auto split: sum.splits prod.splits dest: wf_apply_step)

section \<open>Listed changes\<close>

lemma wf_nth: "list_all wf_json rows \<Longrightarrow> i < length rows \<Longrightarrow> wf_json (rows ! i)"
  by (simp add: list_all_length)

lemma match_rows_in_range:
  assumes "m = match_rows before after ks"
  shows "b \<in> set (removed m) \<Longrightarrow> b < length before" and "a \<in> set (added m) \<Longrightarrow> a < length after"
    and "(b, a) \<in> set (kept m) \<union> set (edited m) \<Longrightarrow> b < length before \<and> a < length after"
proof -
  have "set (map fst (kept m @ edited m) @ removed m) = set [0..<length before]"
    "set (map snd (kept m @ edited m) @ added m) = set [0..<length after]"
    using match_rows_partition(1,2) [OF assms] by (metis set_mset_mset)+
  then have s: "fst ` (set (kept m) \<union> set (edited m)) \<union> set (removed m) = {0..<length before}"
    "snd ` (set (kept m) \<union> set (edited m)) \<union> set (added m) = {0..<length after}"
    by (simp_all add: image_Un Un_assoc)
  from s show "b \<in> set (removed m) \<Longrightarrow> b < length before" "a \<in> set (added m) \<Longrightarrow> a < length after"
    by (metis UnI2 atLeastLessThan_iff)+
  from s show "(b, a) \<in> set (kept m) \<union> set (edited m) \<Longrightarrow> b < length before \<and> a < length after"
    by (metis UnI1 atLeastLessThan_iff fst_conv image_eqI snd_conv)
qed

lemma wf_order_change:
  assumes "list_all wf_json before" "list_all wf_json after"
    and "\<And>b a. (b, a) \<in> set kp \<Longrightarrow> b < length before \<and> a < length after" "c \<in> set (order_change pth plur before after kp)"
  shows "wf_change c"
proof -
  have "list_all wf_json (map (\<lambda>(b, _). before ! b) (sort_key fst kp))" "list_all wf_json (map (\<lambda>(_, a). after ! a) (sort_key snd kp))"
    using assms(1-3) wf_nth by (auto simp: list_all_iff)
  with assms(4) show ?thesis
    by (auto simp: order_change_def Let_def wf_change_def wf_step_def split: if_splits)
qed

lemma wf_describe_row_list:
  assumes "wf_json applied" "wf_json saved" "c \<in> set (describe_row_list l applied saved)"
  shows "wf_change c"
proof -
  define before after where "before = list_at applied (row_path l)" and "after = list_at saved (row_path l)"
  define m where "m = match_rows before after (row_keys l)"
  have rows: "list_all wf_json before" "list_all wf_json after" using assms(1,2) wf_list_at by (simp_all add: before_def after_def)
  note range = match_rows_in_range [OF m_def]
  note nths = wf_nth [OF rows(1)] wf_nth [OF rows(2)]
  consider "c \<in> set (order_change (row_path l) (row_plural l) before after (kept m))"
    | b where "b \<in> set (removed m)" "change_steps c = [RowStep (row_path l) (Some (before ! b)) None (int b) (-1) before after]"
    | b a where "(b, a) \<in> set (edited m)"
        "change_steps c = [RowStep (row_path l) (Some (before ! b)) (Some (after ! a)) (int b) (int a) before after]"
    | a where "a \<in> set (added m)" "change_steps c = [RowStep (row_path l) None (Some (after ! a)) (-1) (int a) before after]"
    using assms(3) unfolding describe_row_list_def Let_def before_def [symmetric] after_def [symmetric] m_def [symmetric]
    by (auto simp del: wf_json.simps)
  then show ?thesis
  proof cases
    case 1
    then show ?thesis by (rule wf_order_change [OF rows, rotated]) (use range(3) in blast)
  next
    case (2 b)
    then show ?thesis using range(1) nths by (simp add: wf_change_def wf_step_def)
  next
    case (3 b a)
    then show ?thesis using range(3) [of b a] nths by (simp add: wf_change_def wf_step_def)
  next
    case (4 a)
    then show ?thesis using range(2) nths by (simp add: wf_change_def wf_step_def)
  qed
qed

lemma wf_describe_scalar_list:
  assumes "wf_value vb" "wf_value va" "c \<in> set (describe_scalar_list pth label vb va)"
  shows "wf_change c"
proof -
  define m where "m = match_rows (rows_of vb) (rows_of va) []"
  note range = match_rows_in_range [OF m_def] and rows = wf_rows_of [OF assms(1)] wf_rows_of [OF assms(2)]
  consider "c \<in> set (order_change pth label (rows_of vb) (rows_of va) (kept m))"
    | b where "b \<in> set (removed m)" "change_steps c = [RowStep pth (Some (rows_of vb ! b)) None (int b) (-1) (rows_of vb) (rows_of va)]"
    | a where "a \<in> set (added m)" "change_steps c = [RowStep pth None (Some (rows_of va ! a)) (-1) (int a) (rows_of vb) (rows_of va)]"
    using assms(3) unfolding describe_scalar_list_def Let_def m_def [symmetric] by auto
  then show ?thesis
  proof cases
    case 1
    then show ?thesis by (rule wf_order_change [OF rows, rotated]) (use range(3) in blast)
  qed (use range rows wf_nth in \<open>auto simp: wf_change_def wf_step_def\<close>)
qed

lemma wf_describe_settings:
  "wf_value before \<Longrightarrow> wf_value after \<Longrightarrow> c \<in> set (describe_settings rps pth before after) \<Longrightarrow> wf_change c"
proof (induction rps pth before after rule: describe_settings.induct)
  case (1 rps pth before after)
  show ?case
  proof (cases "join ''.'' pth \<in> set rps \<or> same before after")
    case True
    with "1.prems"(3) show ?thesis by (subst (asm) describe_settings.simps) simp
  next
    case no: False
    show ?thesis
    proof (cases "walks_down before after")
      case True
      with no "1.prems"(3) obtain k where k: "k \<in> set (first_occurrences (object_keys before @ object_keys after))"
        "c \<in> set (describe_settings rps (pth @ [k]) (at_key k before) (at_key k after))"
        by (subst (asm) describe_settings.simps) auto
      show ?thesis
        by (rule "1.IH" [OF no True k(1) _ _ k(2)]) (use "1.prems" wf_get_path in \<open>simp_all add: at_key_def del: get_path.simps\<close>)
    next
      case False
      have "c \<in> set (if is_scalar_list before \<and> is_scalar_list after
          then describe_scalar_list pth (setting_label pth) before after else [describe_value pth before after])"
        using "1.prems"(3) no False by (subst (asm) describe_settings.simps) simp
      with "1.prems"(1,2) show ?thesis
        by (cases "is_scalar_list before \<and> is_scalar_list after")
          (simp_all add: wf_describe_scalar_list describe_value_def Let_def wf_change_def wf_step_def,
           metis wf_change_def wf_describe_scalar_list)
    qed
  qed
qed

lemma wf_fold_cascade:
  "wf_change c \<Longrightarrow> list_all wf_change routes \<Longrightarrow> fold_cascade c routes = (c', routes') \<Longrightarrow>
     wf_change c' \<and> list_all wf_change routes'"
proof -
  assume ok: "wf_change c" "list_all wf_change routes" and f: "fold_cascade c routes = (c', routes')"
  define host where "host = tunnel_host_only (str_or_empty (member_json (the (fst (the (change_row c)))) ''tunnel_ip''))"
  have "(c' = c \<and> routes' = routes) \<or>
      (change_steps c' = change_steps c @ concat (map change_steps (filter (cascaded host) routes)) \<and>
        routes' = filter (\<lambda>r. \<not> cascaded host r) routes)"
    using f by (auto simp: fold_cascade_def Let_def host_def split: option.splits prod.splits if_splits)
  then show ?thesis
  proof
    assume "c' = c \<and> routes' = routes"
    with ok show ?thesis by simp
  next
    assume "change_steps c' = change_steps c @ concat (map change_steps (filter (cascaded host) routes)) \<and>
        routes' = filter (\<lambda>r. \<not> cascaded host r) routes"
    with ok show ?thesis unfolding wf_change_def list_all_iff by auto
  qed
qed

lemma wf_fold_cascades:
  "list_all wf_change cs \<Longrightarrow> list_all wf_change routes \<Longrightarrow> fold_cascades cs routes = (cs', routes') \<Longrightarrow>
     list_all wf_change cs' \<and> list_all wf_change routes'"
proof (induction cs routes arbitrary: cs' routes' rule: fold_cascades.induct)
  case (2 c cs routes)
  obtain c1 routes1 cs2 routes2 where r: "fold_cascade c routes = (c1, routes1)" "fold_cascades cs routes1 = (cs2, routes2)"
    by fastforce
  have c: "wf_change c \<and> list_all wf_change cs" using "2.prems"(1) by simp
  note one = wf_fold_cascade [OF conjunct1 [OF c] "2.prems"(2) r(1)]
  from "2.IH" [OF r(1) [symmetric] refl conjunct2 [OF c] conjunct2 [OF one] r(2)] one "2.prems"(3) r
  show ?case by auto
qed simp

lemma wf_listed_change:
  assumes "wf_json applied" "wf_json saved" "c \<in> set (describe_config_changes applied saved)"
  shows "wf_change c"
proof -
  obtain ps rs where f: "fold_cascades (describe_row_list peer_list applied saved)
      (describe_row_list (route_list (peer_names applied saved)) applied saved) = (ps, rs)" by fastforce
  have "list_all wf_change ps \<and> list_all wf_change rs"
    by (rule wf_fold_cascades [OF _ _ f]) (use assms wf_describe_row_list in \<open>auto simp: list_all_iff\<close>)
  moreover have "wf_change c" if "c \<in> set (describe_settings ROW_PATHS [] (Some applied) (Some saved))"
    using wf_describe_settings [OF _ _ that] assms by simp
  ultimately show ?thesis
    using assms wf_describe_row_list f by (auto simp: describe_config_changes_def Let_def list_all_iff)
qed

text \<open>
  A config stays a config. Whatever two configs the list of changes compares, taking any listed
  change back out of a draft, or putting it back, leaves an object whose keys are distinct at every
  level, whatever has happened to the draft since the list was made.
\<close>

theorem changes_keep_configs_well_formed:
  assumes "wf_config applied" "wf_config saved" "wf_config draft"
    and "c \<in> set (describe_config_changes applied saved)" "apply_change c toApplied draft = Inr (changed, draft')"
  shows "wf_config draft'"
  using wf_apply_steps [of draft "change_steps c" toApplied changed draft'] wf_listed_change [of applied saved c] assms
  by (simp add: apply_change_def wf_change_def wf_config_def)

theorem changes_keep_configs_well_formed_witness:
  "\<exists>c changed draft'. describe_config_changes (JObj [(''geo'', JObj [(''enabled'', JBool True)])]) (JObj []) = [c] \<and>
     apply_change c True (JObj [(''peers'', JArr [])]) = Inr (changed, draft') \<and> wf_config draft'"
proof -
  let ?a = "JObj [(''geo'', JObj [(''enabled'', JBool True)])]" and ?d = "JObj [(''peers'', JArr [])]"
  define c where "c = hd (describe_config_changes ?a (JObj []))"
  have c: "describe_config_changes ?a (JObj []) = [c]" unfolding c_def by code_simp
  have "isl (apply_change (hd (describe_config_changes ?a (JObj []))) True ?d) = False" by code_simp
  then obtain changed draft' where r: "apply_change c True ?d = Inr (changed, draft')"
    unfolding c_def [symmetric] by (metis isl_def sum.exhaust_sel surj_pair)
  have "wf_config draft'"
    by (rule changes_keep_configs_well_formed [OF _ _ _ _ r, of ?a "JObj []"])
      (simp_all add: c wf_config_def is_object_def wf_object)
  with c r show ?thesis by blast
qed

end
