(* ===== verification/Route_Ports.thy ===== *)
theory Route_Ports
  imports Net
begin

text \<open>
  \<open>pages/routes.js\<close>: the ports a route covers, for the "Test" button. A route lists ports, ranges and
  brace lists of them; the page expands them into numbers, as the rules generator does.
\<close>

section \<open>Numbers\<close>

text \<open>A number that is an integer, as \<open>x === (x | 0)\<close> asks of one in range.\<close>

definition integer_value :: "jsnum \<Rightarrow> int option" where
  "integer_value x = (case x of
     Decimal m e \<Rightarrow>
       if e \<ge> 0 then Some (m * 10 ^ nat e)
       else if m mod 10 ^ nat (- e) = 0 then Some (m div 10 ^ nat (- e)) else None
   | _ \<Rightarrow> None)"

definition port_number :: "string \<Rightarrow> nat option" where
  "port_number s = (case integer_value (js_number s) of
     Some n \<Rightarrow> if 1 \<le> n \<and> n \<le> 65535 then Some (nat n) else None
   | None \<Rightarrow> None)"

section \<open>Expanding\<close>

definition MAX_DISTINCT :: nat where
  "MAX_DISTINCT = 65535"

definition add_port :: "nat \<Rightarrow> nat list \<times> bool \<Rightarrow> nat list \<times> bool" where
  "add_port n st = (case st of (seen, over) \<Rightarrow>
     if 1 \<le> n \<and> n \<le> 65535
     then (let seen' = (if n \<in> set seen then seen else seen @ [n]) in (seen', over \<or> length seen' > MAX_DISTINCT))
     else (seen, over))"

definition token_range :: "string \<Rightarrow> (nat \<times> nat) option" where
  "token_range tok =
     (if CHR ''-'' \<in> set tok
      then (case (port_number (trim (before_char (CHR ''-'') tok)),
                  port_number (trim (drop 1 (dropWhile (\<lambda>c. c \<noteq> CHR ''-'') tok)))) of
          (Some a, Some b) \<Rightarrow> if a \<le> b then Some (a, b) else None
        | _ \<Rightarrow> None)
      else (case port_number tok of Some p \<Rightarrow> Some (p, p) | None \<Rightarrow> None))"

definition expand_tok :: "string \<Rightarrow> nat list \<times> bool \<Rightarrow> nat list \<times> bool" where
  "expand_tok raw st =
     (let tok = trim raw in
      if tok = [] then st
      else (case token_range tok of None \<Rightarrow> st | Some (a, b) \<Rightarrow> fold add_port [a..<Suc b] st))"

definition in_braces :: "string \<Rightarrow> bool" where
  "in_braces s \<longleftrightarrow> starts_with s ''{'' \<and> s \<noteq> [] \<and> last s = CHR ''}''"

definition inner_text :: "string \<Rightarrow> string" where
  "inner_text s = butlast (drop 1 s)"

definition entry_tokens :: "string \<Rightarrow> string list" where
  "entry_tokens raw =
     (let s = trim raw in
      if s = [] then []
      else if in_braces s then map trim (split_on (CHR '','') (inner_text s))
      else [s])"

definition expand_route_port_tokens :: "string list \<Rightarrow> nat list option" where
  "expand_route_port_tokens ports =
     (let (seen, over) = fold (\<lambda>raw st. fold expand_tok (entry_tokens raw) st) ports ([], False) in
      if over then None else Some (sort seen))"

section \<open>What the ports mean\<close>

definition token_covers :: "nat \<Rightarrow> string \<Rightarrow> bool" where
  "token_covers n tok \<longleftrightarrow> (case token_range (trim tok) of Some (a, b) \<Rightarrow> a \<le> n \<and> n \<le> b | None \<Rightarrow> False)"

definition route_covers :: "string list \<Rightarrow> nat \<Rightarrow> bool" where
  "route_covers ports n \<longleftrightarrow> list_ex (\<lambda>raw. list_ex (token_covers n) (entry_tokens raw)) ports"

lemma port_number_range: "port_number s = Some n \<Longrightarrow> 1 \<le> n \<and> n \<le> 65535"
  by (auto simp: port_number_def split: option.splits if_splits)

lemma token_range_ports: "token_range tok = Some (a, b) \<Longrightarrow> 1 \<le> a \<and> a \<le> b \<and> b \<le> 65535"
  by (auto simp: token_range_def split: if_splits option.splits dest!: port_number_range)

text \<open>The state of the loop: the ports seen so far, each once, never too many.\<close>

definition seen_ok :: "nat set \<Rightarrow> nat list \<times> bool \<Rightarrow> bool" where
  "seen_ok S st \<longleftrightarrow> distinct (fst st) \<and> set (fst st) = S \<and> S \<subseteq> {1..65535} \<and> \<not> snd st"

lemma add_port_ok: "seen_ok S st \<Longrightarrow> 1 \<le> n \<Longrightarrow> n \<le> 65535 \<Longrightarrow> seen_ok (insert n S) (add_port n st)"
proof -
  assume ok: "seen_ok S st" and n: "1 \<le> n" "n \<le> 65535"
  define seen' where "seen' = (if n \<in> set (fst st) then fst st else fst st @ [n])"
  have d: "distinct seen'" "set seen' = insert n S" using ok by (auto simp: seen_ok_def seen'_def)
  have "length seen' = card (insert n S)" using d by (metis distinct_card)
  also have "\<dots> \<le> card {1..65535 :: nat}" by (rule card_mono) (use ok n in \<open>auto simp: seen_ok_def\<close>)
  finally have "\<not> length seen' > MAX_DISTINCT" by (simp add: MAX_DISTINCT_def)
  then have "add_port n (fst st, False) = (seen', False)"
    using n unfolding add_port_def seen'_def [symmetric] by (simp add: seen'_def Let_def)
  moreover have "st = (fst st, False)" using ok by (cases st) (simp add: seen_ok_def)
  ultimately have "add_port n st = (seen', False)" by metis
  with d ok n show ?thesis by (auto simp: seen_ok_def)
qed

lemma add_ports_ok: "seen_ok S st \<Longrightarrow> \<forall>n \<in> set ns. 1 \<le> n \<and> n \<le> 65535 \<Longrightarrow> seen_ok (S \<union> set ns) (fold add_port ns st)"
proof (induction ns arbitrary: S st)
  case (Cons n ns)
  then have "seen_ok (insert n S) (add_port n st)" by (simp add: add_port_ok)
  from Cons.IH [OF this] Cons.prems(2) show ?case by simp
qed simp

lemma expand_tok_ok: "seen_ok S st \<Longrightarrow> seen_ok (S \<union> {n. token_covers n tok}) (expand_tok tok st)"
proof -
  assume ok: "seen_ok S st"
  have empty: "token_range [] = None" by (simp add: token_range_def port_number_def js_number_def integer_value_def)
  show ?thesis
  proof (cases "token_range (trim tok)")
    case None
    with ok show ?thesis by (simp add: expand_tok_def token_covers_def Let_def)
  next
    case (Some r)
    then obtain a b where r: "token_range (trim tok) = Some (a, b)" by (cases r) simp
    have "{n. token_covers n tok} = set [a..<Suc b]" by (auto simp: token_covers_def r)
    with add_ports_ok [OF ok, of "[a..<Suc b]"] token_range_ports [OF r] r empty show ?thesis
      by (auto simp: expand_tok_def Let_def simp del: upt_Suc)
  qed
qed

lemma expand_entry_ok:
  "seen_ok S st \<Longrightarrow> seen_ok (S \<union> {n. list_ex (token_covers n) toks}) (fold expand_tok toks st)"
proof (induction toks arbitrary: S st)
  case (Cons tok toks)
  have "S \<union> {n. token_covers n tok} \<union> {n. list_ex (token_covers n) toks} = S \<union> {n. list_ex (token_covers n) (tok # toks)}"
    by auto
  with Cons.IH [OF expand_tok_ok [OF Cons.prems, of tok]] show ?case by simp
qed simp

lemma expand_ports_ok:
  "seen_ok S st \<Longrightarrow> seen_ok (S \<union> {n. route_covers ports n}) (fold (\<lambda>raw st. fold expand_tok (entry_tokens raw) st) ports st)"
proof (induction ports arbitrary: S st)
  case (Cons raw ports)
  have "S \<union> {n. list_ex (token_covers n) (entry_tokens raw)} \<union> {n. route_covers ports n} = S \<union> {n. route_covers (raw # ports) n}"
    by (auto simp: route_covers_def)
  with Cons.IH [OF expand_entry_ok [OF Cons.prems, of "entry_tokens raw"]] show ?case by simp
next
  case Nil
  have "{n. route_covers [] n} = {}" by (simp add: route_covers_def)
  with Nil show ?case by simp
qed

lemma expanded_ports:
  "expand_route_port_tokens ports = Some (sorted_list_of_set {n. route_covers ports n})"
proof -
  obtain seen over where f: "fold (\<lambda>raw st. fold expand_tok (entry_tokens raw) st) ports ([], False) = (seen, over)"
    by fastforce
  have "seen_ok {} ([], False)" by (simp add: seen_ok_def)
  from expand_ports_ok [OF this, of ports] f
  have "distinct seen" "set seen = {n. route_covers ports n}" "\<not> over" by (simp_all add: seen_ok_def)
  with f show ?thesis
    by (simp add: expand_route_port_tokens_def) (metis sorted_list_of_set_sort_remdups distinct_remdups_id)
qed

text \<open>C40
  Expanding a route's ports gives exactly the ports it covers, each once and in order, however its
  entries overlap, repeat or are malformed; and it never gives up, so the "too many distinct ports"
  branch of the page is never taken.
\<close>

theorem expanded_ports_are_the_covered_ones:
  "expand_route_port_tokens ports = Some (sorted_list_of_set {n. route_covers ports n})"
  by (rule expanded_ports)

section \<open>The "Test" button\<close>

datatype route_probe =
    NoSuchRoute
  | ProbeMessage string
  | ProbePort nat
  | AskWhichPort "nat list"

definition open_route_probe :: "(bool \<times> string list) option \<Rightarrow> route_probe" where
  "open_route_probe route = (case route of
     None \<Rightarrow> NoSuchRoute
   | Some (disabled, ports) \<Rightarrow>
       if disabled then ProbeMessage ''Route is disabled.''
       else (case expand_route_port_tokens ports of
           None \<Rightarrow> ProbeMessage ''This route expands to too many distinct ports to pick one here.''
         | Some ps \<Rightarrow>
             if ps = [] then ProbeMessage ''Route has no ports.''
             else if length ps = 1 then ProbePort (hd ps)
             else AskWhichPort ps))"

text \<open>The dialog's Run: \<open>Math.floor\<close> of the number typed must be one of the ports.\<close>

definition floor_value :: "jsnum \<Rightarrow> int option" where
  "floor_value x = (case x of
     Decimal m e \<Rightarrow> Some (if e \<ge> 0 then m * 10 ^ nat e else m div 10 ^ nat (- e))
   | _ \<Rightarrow> None)"

definition run_route_probe :: "nat list \<Rightarrow> string \<Rightarrow> route_probe" where
  "run_route_probe ps typed = (case floor_value (js_number typed) of
     Some n \<Rightarrow> if 0 \<le> n \<and> nat n \<in> set ps then ProbePort (nat n) else ProbeMessage ''Enter a port that belongs to this route.''
   | None \<Rightarrow> ProbeMessage ''Enter a port that belongs to this route.'')"

lemma probed_port_belongs_to_the_route:
  "open_route_probe (Some (off, ports)) = ProbePort n \<Longrightarrow> \<not> off \<and> route_covers ports n"
  "open_route_probe (Some (off, ports)) = AskWhichPort ps \<Longrightarrow> run_route_probe ps typed = ProbePort n \<Longrightarrow>
     \<not> off \<and> route_covers ports n"
proof -
  have fin: "finite {n. route_covers ports n}"
  proof (rule finite_subset)
    show "{n. route_covers ports n} \<subseteq> {..65535}"
      using token_range_ports by (fastforce simp: route_covers_def token_covers_def list_ex_iff split: option.splits)
  qed simp
  have one: "xs \<noteq> [] \<Longrightarrow> hd xs \<in> set xs" for xs :: "nat list" by simp
  show "open_route_probe (Some (off, ports)) = ProbePort n \<Longrightarrow> \<not> off \<and> route_covers ports n"
    using one [of "sorted_list_of_set {n. route_covers ports n}"] fin
    by (auto simp: open_route_probe_def expanded_ports split: if_splits)
  show "open_route_probe (Some (off, ports)) = AskWhichPort ps \<Longrightarrow> run_route_probe ps typed = ProbePort n \<Longrightarrow>
     \<not> off \<and> route_covers ports n"
    using fin by (auto simp: open_route_probe_def run_route_probe_def expanded_ports split: if_splits option.splits)
qed

text \<open>
  The route editor reads its port field back in pieces between commas, so a brace list that was one entry is torn: its pieces
  cover no port.
\<close>

lemma brace_list_is_torn:
  "entry_tokens ''{80, 443}'' = [''80'', ''443'']" "parse_ports_list ''{80, 443}'' = [''{80'', ''443}'']"
  "expand_route_port_tokens [''{80'', ''443}''] = Some []"
proof -
  show "entry_tokens ''{80, 443}'' = [''80'', ''443'']" by code_simp
  show "parse_ports_list ''{80, 443}'' = [''{80'', ''443}'']" by code_simp
  have t: "entry_tokens ''{80'' = [''{80'']" "entry_tokens ''443}'' = [''443}'']" by code_simp+
  have n: "expand_tok ''{80'' st = st" "expand_tok ''443}'' st = st" for st
  proof -
    have "token_range (trim ''{80'') = None" "token_range (trim ''443}'') = None" by code_simp+
    then show "expand_tok ''{80'' st = st" "expand_tok ''443}'' st = st" by (simp_all add: expand_tok_def Let_def)
  qed
  show "expand_route_port_tokens [''{80'', ''443}''] = Some []" by (simp add: expand_route_port_tokens_def t n)
qed

end
