(* ===== verification/Route_Editor.thy ===== *)
theory Route_Editor
  imports Peers Text_Output
begin

text \<open>
  \<open>pages/routes.js\<close>: the route editor, from a row of the config to the form and back, and the edits
  of the route list: saving the form, switching a route, removing it, and taking both back.

  A single-line input holds the text it is given, as the texts of a config have no line breaks; a
  select holds one of its options or nothing. Rows are objects, as the API types them.
\<close>

section \<open>Protocols\<close>

definition route_proto_from_checkboxes :: "bool \<Rightarrow> bool \<Rightarrow> string" where
  "route_proto_from_checkboxes tcp udp =
     (if tcp \<and> udp then ''tcp,udp'' else if tcp then ''tcp'' else if udp then ''udp'' else [])"

definition set_route_proto_checkboxes :: "string \<Rightarrow> bool \<times> bool" where
  "set_route_proto_checkboxes proto =
     (let s = trim (lower proto) in
      if s = ''both'' then (True, True)
      else (let parts = nonempty (map trim (split_class (\<lambda>c. c = CHR '','' \<or> c = CHR ''+'' \<or> is_ws c) s)) in
        (s = ''tcp'' \<or> ''tcp'' \<in> set parts, s = ''udp'' \<or> ''udp'' \<in> set parts)))"

section \<open>The form\<close>

text \<open>The row open in the editor, \<open>None\<close> when adding, and the form's controls.\<close>

record route_form =
  f_index :: "nat option"
  f_base :: string
  f_name :: string
  f_tcp :: bool
  f_udp :: bool
  f_ports :: string
  f_targets :: "string list"
  f_target :: string
  f_enabled :: bool
  f_pause :: bool
  f_source_allow :: string
  f_source_deny :: string
  f_map_mode :: string
  f_internal_one :: string
  f_map_rows :: "(string \<times> string) list"
  f_geo_mode :: string
  f_geo_countries :: string
  f_rates :: inputs

definition select_value :: "string list \<Rightarrow> string \<Rightarrow> string" where
  "select_value opts v = (if v \<in> set opts then v else [])"

definition MAP_MODES :: "string list" where
  "MAP_MODES = [''same'', ''one'', ''table'']"

definition GEO_MODES :: "string list" where
  "GEO_MODES = [''inherit'', ''off'', ''custom'']"

text \<open>\<open>(v || []).join(", ")\<close>.\<close>

definition texts_of :: "jsval \<Rightarrow> string list" where
  "texts_of v = map (\<lambda>x. if x = JNull then [] else js_string x) (rows_or_none v)"

definition comma_list :: "jsval \<Rightarrow> string" where
  "comma_list v = join '', '' (texts_of v)"

definition peer_target_options :: "json \<Rightarrow> string list" where
  "peer_target_options cfg = concat (map (\<lambda>p.
     if truthy (member_json p ''disabled'') then []
     else (let ip = tunnel_to_host (str_or_empty (member_json p ''tunnel_ip'')) in if ip = [] then [] else [ip])) (config_peers cfg))"

definition number_member :: "json \<Rightarrow> string \<Rightarrow> int" where
  "number_member j k = (case member_json j k of Some (JNum n) \<Rightarrow> n | _ \<Rightarrow> 0)"

definition rate_limit_of :: "jsval \<Rightarrow> rate_limit option" where
  "rate_limit_of v = (case v of
     Some j \<Rightarrow> if truthy (Some j)
       then Some \<lparr>tcp_syn_per_second = number_member j ''tcp_syn_per_second'',
                  max_conn_per_ip = number_member j ''max_conn_per_ip'', udp_per_second = number_member j ''udp_per_second''\<rparr>
       else None
   | None \<Rightarrow> None)"

definition rate_limit_json :: "rate_limit \<Rightarrow> json" where
  "rate_limit_json rl = JObj (filter (\<lambda>(_, v). v \<noteq> JNum 0)
     [(''tcp_syn_per_second'', JNum (tcp_syn_per_second rl)), (''max_conn_per_ip'', JNum (max_conn_per_ip rl)),
      (''udp_per_second'', JNum (udp_per_second rl))])"

section \<open>Port maps in the form\<close>

definition internal_for :: "json list \<Rightarrow> string \<Rightarrow> string" where
  "internal_for maps p =
     (case find (\<lambda>m. truthy (member_json m ''public'') \<and> str_or_empty (member_json m ''public'') = p) (rev maps) of
        Some m \<Rightarrow> str_or_empty (member_json m ''internal'') | None \<Rightarrow> [])"

definition render_port_map_rows :: "json list \<Rightarrow> route_form \<Rightarrow> route_form" where
  "render_port_map_rows maps f = f\<lparr>f_map_rows := map (\<lambda>p. (p, internal_for maps p)) (parse_ports_list (f_ports f))\<rparr>"

definition sync_port_map_mode :: "route_form \<Rightarrow> route_form" where
  "sync_port_map_mode f = (if f_map_mode f = ''table'' then render_port_map_rows [] f else f)"

definition same_internal :: "json list \<Rightarrow> bool" where
  "same_internal maps \<longleftrightarrow> list_all (\<lambda>m. member_json m ''internal'' = member_json (hd maps) ''internal'') maps"

definition load_port_maps :: "json \<Rightarrow> route_form \<Rightarrow> route_form" where
  "load_port_maps r f =
     (let maps = rows_or_none (member_json r ''port_maps''); n = length (parse_ports_list (f_ports f));
          f1 = (if maps = [] then f\<lparr>f_map_mode := ''same''\<rparr>
                else if length maps = 1 \<and> n > 1
                then (if same_internal maps \<and> length maps = n
                      then f\<lparr>f_map_mode := ''one'', f_internal_one := str_or_empty (member_json (hd maps) ''internal'')\<rparr>
                      else f\<lparr>f_map_mode := ''table''\<rparr>)
                else f\<lparr>f_map_mode := ''table''\<rparr>) in
      sync_port_map_mode (render_port_map_rows maps f1))"

definition port_map :: "string \<Rightarrow> string \<Rightarrow> json" where
  "port_map pub internal = JObj [(''public'', JStr pub), (''internal'', JStr internal)]"

definition read_port_maps :: "string list \<Rightarrow> route_form \<Rightarrow> json list option" where
  "read_port_maps ports f =
     (let mode = (if f_map_mode f = [] then ''same'' else f_map_mode f) in
      if mode = ''same'' then None
      else if mode = ''one''
      then (let internal = trim (f_internal_one f) in
        if internal = [] then None else Some (map (\<lambda>p. port_map p internal) ports))
      else (let maps = map (\<lambda>(pub, v). port_map pub (trim v)) (filter (\<lambda>(pub, v). pub \<noteq> [] \<and> trim v \<noteq> []) (f_map_rows f)) in
        if maps = [] then None else Some maps))"

section \<open>Opening the editor\<close>

definition route_at :: "json \<Rightarrow> nat \<Rightarrow> json option" where
  "route_at cfg i = (if i < length (routes_of cfg) \<and> routes_of cfg ! i \<noteq> JNull then Some (routes_of cfg ! i) else None)"

definition add_route_form :: "json \<Rightarrow> route_form \<Rightarrow> route_form" where
  "add_route_form cfg f =
     (let opts = peer_target_options cfg in
      sync_port_map_mode (f\<lparr>f_index := None, f_name := [], f_tcp := True, f_udp := False, f_ports := [],
        f_targets := opts, f_target := (if opts = [] then [] else hd opts), f_enabled := True, f_pause := False,
        f_source_allow := [], f_source_deny := [], f_map_mode := ''same'', f_geo_mode := ''inherit'',
        f_rates := write_rate_limit_fields ''route'' None (f_rates f)\<rparr>))"

definition edit_route_form :: "json \<Rightarrow> nat \<Rightarrow> json \<Rightarrow> route_form \<Rightarrow> route_form" where
  "edit_route_form cfg i r f =
     (let opts = peer_target_options cfg;
          boxes = set_route_proto_checkboxes (str_or_empty (member_json r ''proto''));
          geo = str_or_empty (member_json r ''geo_mode'');
          f1 = load_port_maps r (f\<lparr>f_index := Some i, f_base := stringify r, f_name := str_or_empty (member_json r ''name''),
            f_tcp := fst boxes, f_udp := snd boxes, f_ports := comma_list (member_json r ''ports''), f_targets := opts,
            f_target := select_value opts (str_or_empty (member_json r ''target_ip'')),
            f_pause := truthy (member_json r ''pause_when_peer_offline''),
            f_source_allow := comma_list (member_json r ''source_allow_cidrs''),
            f_source_deny := comma_list (member_json r ''source_deny_cidrs''),
            f_geo_mode := select_value GEO_MODES (if geo = [] then ''inherit'' else geo),
            f_geo_countries := comma_list (member_json r ''geo_countries'')\<rparr>) in
      sync_port_map_mode (f1\<lparr>f_enabled := \<not> truthy (member_json r ''disabled''),
        f_rates := write_rate_limit_fields ''route'' (rate_limit_of (member_json r ''rate_limit'')) (f_rates f1)\<rparr>))"

definition open_route_editor :: "json \<Rightarrow> nat option \<Rightarrow> route_form \<Rightarrow> route_form option" where
  "open_route_editor cfg index f = (case index of
     None \<Rightarrow> Some (add_route_form cfg f)
   | Some i \<Rightarrow> (case route_at cfg i of None \<Rightarrow> None | Some r \<Rightarrow> Some (edit_route_form cfg i r f)))"

section \<open>Saving the form\<close>

definition if_listed :: "string \<Rightarrow> string list \<Rightarrow> (string \<times> json) list" where
  "if_listed k xs = (if xs = [] then [] else [(k, JArr (map JStr xs))])"

definition route_entry :: "route_form \<Rightarrow> string + json" where
  "route_entry f =
     (let proto = route_proto_from_checkboxes (f_tcp f) (f_udp f); ports = parse_ports_list (f_ports f); target = trim (f_target f) in
      if proto = [] then Inl ''Select at least one protocol (TCP and/or UDP).''
      else if ports = [] then Inl ''Ports are required.''
      else if target = [] then Inl ''Target is required.''
      else (let name = trim (f_name f); gm = (if f_geo_mode f = [] then ''inherit'' else f_geo_mode f) in Inr (JObj (
        [(''proto'', JStr proto), (''ports'', JArr (map JStr ports)), (''target_ip'', JStr target),
         (''disabled'', JBool (\<not> f_enabled f))] @
        if_listed ''source_allow_cidrs'' (parse_source_allow_list_input (f_source_allow f)) @
        (if name = [] then [] else [(''name'', JStr name)]) @
        (if f_pause f then [(''pause_when_peer_offline'', JBool True)] else []) @
        if_listed ''source_deny_cidrs'' (parse_source_allow_list_input (f_source_deny f)) @
        (if gm = ''inherit'' then []
         else (''geo_mode'', JStr gm) #
           (if gm = ''custom'' then if_listed ''geo_countries'' (parse_source_allow_list_input (f_geo_countries f)) else [])) @
        (case read_port_maps ports f of None \<Rightarrow> [] | Some maps \<Rightarrow> [(''port_maps'', JArr maps)]) @
        (case read_rate_limit_from_form ''route'' (f_rates f) of None \<Rightarrow> [] | Some rl \<Rightarrow> [(''rate_limit'', rate_limit_json rl)])))))"

definition forwarding_of :: "json \<Rightarrow> json" where
  "forwarding_of c = (if truthy (member_json c ''forwarding'') then the (member_json c ''forwarding'') else JObj [])"

text \<open>Sets the list, making it and \<open>forwarding\<close> where they are missing.\<close>

definition put_routes :: "json \<Rightarrow> json list \<Rightarrow> json" where
  "put_routes c rs = with_key c ''forwarding'' (with_key (forwarding_of c) ''routes'' (JArr rs))"

definition route_list_of :: "json \<Rightarrow> json list" where
  "route_list_of c = rows_or_none (member_json (forwarding_of c) ''routes'')"

definition save_route_edit :: "nat option \<Rightarrow> string \<Rightarrow> json \<Rightarrow> edit" where
  "save_route_edit index base entry c = (case index of
     None \<Rightarrow> Inr (True, put_routes c (route_list_of c @ [entry]))
   | Some i \<Rightarrow>
       (case find_config_row (Some (route_list_of c)) (int i) base stringify ''route'' of
          Inl e \<Rightarrow> Inl e
        | Inr j \<Rightarrow> Inr (True, put_routes c ((route_list_of c)[j := entry]))))"

section \<open>Switching and removing\<close>

definition routes_or_none :: "json \<Rightarrow> json list option" where
  "routes_or_none c = list_of (at_member (member_json c ''forwarding'') ''routes'')"

definition patch_route_disabled :: "int \<Rightarrow> string \<Rightarrow> bool \<Rightarrow> edit" where
  "patch_route_disabled index identity off c =
     (case find_config_row (routes_or_none c) index identity route_identity ''route'' of
        Inl e \<Rightarrow> Inl e
      | Inr i \<Rightarrow> Inr (True, with_routes c ((routes_of c)[i := set_row_disabled off (routes_of c ! i)])))"

definition remove_route :: "int \<Rightarrow> string \<Rightarrow> json \<Rightarrow> string + json \<times> json \<times> nat" where
  "remove_route index identity c =
     (case find_config_row (routes_or_none c) index identity route_identity ''route'' of
        Inl e \<Rightarrow> Inl e
      | Inr i \<Rightarrow> Inr (with_routes c (take i (routes_of c) @ drop (Suc i) (routes_of c)), routes_of c ! i, i))"

definition undo_remove_route :: "json \<Rightarrow> nat \<Rightarrow> edit" where
  "undo_remove_route removed removedAt c =
     (let rows = route_list_of c in
      if list_ex (\<lambda>r. stringify r = stringify removed) rows then Inr (False, put_routes c rows)
      else (let k = min removedAt (length rows) in Inr (True, put_routes c (take k rows @ removed # drop k rows))))"

section \<open>Lists through a form\<close>

lemma split_runs_plain: "\<forall>c \<in> set x. \<not> p c \<Longrightarrow> split_runs p b x = [x]"
  by (induction x arbitrary: b) auto

lemma split_runs_sep:
  "\<forall>c \<in> set x. \<not> p c \<Longrightarrow> x \<noteq> [] \<Longrightarrow> p d \<Longrightarrow> split_runs p b (x @ d # r) = x # split_runs p True r"
proof (induction x arbitrary: b)
  case (Cons a x)
  then show ?case by (cases "x = []") auto
qed simp

definition plain_token :: "string \<Rightarrow> bool" where
  "plain_token t \<longleftrightarrow> t \<noteq> [] \<and> trim t = t \<and> CHR '','' \<notin> set t"

definition plain_word :: "string \<Rightarrow> bool" where
  "plain_word t \<longleftrightarrow> t \<noteq> [] \<and> list_all (\<lambda>c. \<not> is_ws c \<and> c \<noteq> CHR '','') t"

lemma trim_space [simp]: "trim (CHR '' '' # s) = trim s"
  by (simp add: trim_def is_ws_def)

lemma split_ports_join:
  "CHR '','' \<notin> set pre \<Longrightarrow> list_all plain_token (x # xs) \<Longrightarrow>
     split_runs (\<lambda>c. c = CHR '','') b (pre @ join '', '' (x # xs)) = (pre @ x) # map ((#) CHR '' '') xs"
proof (induction xs arbitrary: pre x b)
  case Nil
  then show ?case by (subst split_runs_plain) (auto simp: plain_token_def)
next
  case (Cons y ys)
  have "split_runs (\<lambda>c. c = CHR '','') b ((pre @ x) @ CHR '','' # ('' '' @ join '', '' (y # ys))) =
      (pre @ x) # split_runs (\<lambda>c. c = CHR '','') True ('' '' @ join '', '' (y # ys))"
    by (rule split_runs_sep) (use Cons.prems in \<open>auto simp: plain_token_def\<close>)
  moreover have "split_runs (\<lambda>c. c = CHR '','') True ('' '' @ join '', '' (y # ys)) = ('' '' @ y) # map ((#) CHR '' '') ys"
    by (rule Cons.IH) (use Cons.prems in auto)
  ultimately show ?case by simp
qed

lemma parse_ports_list_join: "list_all plain_token ps \<Longrightarrow> parse_ports_list (join '', '' ps) = ps"
proof (cases ps)
  case (Cons x xs)
  assume ok: "list_all plain_token ps"
  then have "parse_ports_list (join '', '' ps) = nonempty (map trim (x # map ((#) CHR '' '') xs))"
    using split_ports_join [of "[]" x xs False] Cons by (simp add: parse_ports_list_def split_class_def)
  also have "\<dots> = nonempty ps" using ok Cons by (simp add: comp_def plain_token_def list_all_iff cong: map_cong)
  also have "\<dots> = ps" using ok by (auto simp: nonempty_def plain_token_def list_all_iff filter_id_conv)
  finally show ?thesis .
qed (simp add: parse_ports_list_def split_class_def nonempty_def)

text \<open>Entries that hold commas themselves, as brace lists do, are read back in pieces.\<close>

lemma split_runs_some: "split_runs p b s \<noteq> []"
  by (induction s arbitrary: b) (auto split: list.split)

lemma split_runs_append:
  assumes "p d"
  shows "split_runs p b (x @ d # y) = split_runs p b x @ split_runs p True y \<or>
    split_runs p b x \<noteq> [] \<and> last (split_runs p b x) = [] \<and> (b \<or> butlast (split_runs p b x) \<noteq> []) \<and>
      split_runs p b (x @ d # y) = butlast (split_runs p b x) @ split_runs p True y"
proof (induction x arbitrary: b)
  case (Cons c x)
  obtain q qs where q: "split_runs p False x = q # qs" using split_runs_some by (meson list.exhaust)
  then show ?case using Cons.IH [of True] Cons.IH [of False] by (cases "p c") (auto split: list.splits)
qed (use assms in auto)

lemma parse_ports_list_append: "parse_ports_list (x @ CHR '','' # y) = parse_ports_list x @ parse_ports_list y"
proof -
  let ?p = "\<lambda>c. c = CHR '',''" and ?g = "\<lambda>xs. nonempty (map trim xs)"
  have run: "?g (split_runs ?p True y) = ?g (split_runs ?p False y)" by (cases y) (simp_all add: nonempty_def)
  have "?g (butlast xs) = ?g xs" if "xs \<noteq> []" "last xs = []" for xs
    using that by (induction xs) (auto simp: nonempty_def)
  with split_runs_append [of ?p "CHR '',''" False x y] run show ?thesis
    by (auto simp: parse_ports_list_def split_class_def nonempty_def)
qed

lemma parse_ports_list_pieces: "parse_ports_list (join '', '' ps) = concat (map parse_ports_list ps)"
proof (induction ps rule: induct_list012)
  case (3 x y zs)
  have "parse_ports_list (CHR '' '' # s) = parse_ports_list s" for s
  proof -
    obtain q qs where "split_runs (\<lambda>c. c = CHR '','') False s = q # qs"
      using split_runs_some by (meson list.exhaust)
    then show ?thesis by (simp add: parse_ports_list_def split_class_def nonempty_def)
  qed
  with 3(2) parse_ports_list_append [of x "'' '' @ join '', '' (y # zs)"] show ?case by simp
qed (simp_all add: parse_ports_list_def split_class_def nonempty_def)

lemma split_words_join:
  "list_all plain_word (x # xs) \<Longrightarrow> split_runs (\<lambda>c. is_ws c \<or> c = CHR '','') b (join '', '' (x # xs)) = x # xs"
proof (induction xs arbitrary: x b)
  case Nil
  then show ?case by (subst split_runs_plain) (auto simp: plain_word_def list_all_iff)
next
  case (Cons y ys)
  have "split_runs (\<lambda>c. is_ws c \<or> c = CHR '','') b (x @ CHR '','' # ('' '' @ join '', '' (y # ys))) =
      x # split_runs (\<lambda>c. is_ws c \<or> c = CHR '','') True ('' '' @ join '', '' (y # ys))"
    by (rule split_runs_sep) (use Cons.prems in \<open>auto simp: plain_word_def list_all_iff\<close>)
  moreover have "split_runs (\<lambda>c. is_ws c \<or> c = CHR '','') True (join '', '' (y # ys)) = y # ys"
    by (rule Cons.IH) (use Cons.prems in auto)
  ultimately show ?case by (simp add: is_ws_def)
qed

lemma join_ends:
  "x \<noteq> [] \<Longrightarrow> join sep (x # xs) \<noteq> [] \<and> hd (join sep (x # xs)) = hd x"
  "\<forall>y \<in> set xs. y \<noteq> [] \<Longrightarrow> x \<noteq> [] \<Longrightarrow> last (join sep (x # xs)) = last (last (x # xs))"
proof -
  show 1: "x \<noteq> [] \<Longrightarrow> join sep (x # xs) \<noteq> [] \<and> hd (join sep (x # xs)) = hd x" for x by (cases xs) auto
  show "\<forall>y \<in> set xs. y \<noteq> [] \<Longrightarrow> x \<noteq> [] \<Longrightarrow> last (join sep (x # xs)) = last (last (x # xs))"
  proof (induction xs arbitrary: x)
    case (Cons y ys)
    have "join sep (y # ys) \<noteq> []" using Cons.prems by (cases ys) auto
    with Cons show ?case by simp
  qed simp
qed

lemma parse_source_list_join: "list_all plain_word xs \<Longrightarrow> parse_source_allow_list_input (join '', '' xs) = xs"
proof (cases xs)
  case (Cons y ys)
  assume ok: "list_all plain_word xs"
  have ws: "z \<noteq> [] \<and> (\<forall>c \<in> set z. \<not> is_ws c)" if "z \<in> set (y # ys)" for z
    using ok that Cons by (auto simp: plain_word_def list_all_iff)
  have ne: "y \<noteq> []" "\<forall>z \<in> set ys. z \<noteq> []" using ws by auto
  have l: "last (y # ys) \<in> set (y # ys)" by (rule last_in_set) simp
  then have "last (last (y # ys)) \<in> set (last (y # ys))" using ws by (metis last_in_set)
  then have ends: "\<not> is_ws (hd y)" "\<not> is_ws (last (last (y # ys)))"
    using ws l ne(1) by (meson hd_in_set list.set_intros(1), meson)
  have "trim (join '', '' xs) = join '', '' xs"
    using join_ends(1) [OF ne(1), of "'', ''" ys] join_ends(2) [OF ne(2,1), of "'', ''"] ends Cons
    by (intro trim_no_ws_ends) simp
  moreover have "join '', '' xs \<noteq> []" using join_ends(1) [OF ne(1)] Cons by metis
  moreover have "map trim xs = xs" using ws Cons by (auto intro!: map_idI trim_all_not_ws)
  moreover have "nonempty xs = xs" using ws Cons by (auto simp: nonempty_def filter_id_conv)
  ultimately show ?thesis
    using split_words_join [of y ys False] ok Cons by (simp add: parse_source_allow_list_input_def split_class_def Let_def)
qed (simp add: parse_source_allow_list_input_def)

lemma proto_boxes_roundtrip: "set_route_proto_checkboxes (route_proto_from_checkboxes tcp udp) = (tcp, udp)"
proof -
  have "set_route_proto_checkboxes (route_proto_from_checkboxes True True) = (True, True)"
    "set_route_proto_checkboxes (route_proto_from_checkboxes True False) = (True, False)"
    "set_route_proto_checkboxes (route_proto_from_checkboxes False True) = (False, True)"
    "set_route_proto_checkboxes (route_proto_from_checkboxes False False) = (False, False)" by code_simp+
  then show ?thesis by (cases tcp; cases udp) simp_all
qed

section \<open>Opening a route and saving it untouched\<close>

lemma texts_of_strings [simp]: "texts_of (Some (JArr (map JStr xs))) = xs" "texts_of None = []"
  by (simp_all add: texts_of_def rows_or_none_def list_of_def comp_def)

lemma render_rows_fields [simp]:
  "f_index (render_port_map_rows m f) = f_index f" "f_base (render_port_map_rows m f) = f_base f"
  "f_name (render_port_map_rows m f) = f_name f" "f_tcp (render_port_map_rows m f) = f_tcp f"
  "f_udp (render_port_map_rows m f) = f_udp f" "f_ports (render_port_map_rows m f) = f_ports f"
  "f_target (render_port_map_rows m f) = f_target f" "f_enabled (render_port_map_rows m f) = f_enabled f"
  "f_pause (render_port_map_rows m f) = f_pause f" "f_source_allow (render_port_map_rows m f) = f_source_allow f"
  "f_source_deny (render_port_map_rows m f) = f_source_deny f" "f_map_mode (render_port_map_rows m f) = f_map_mode f"
  "f_geo_mode (render_port_map_rows m f) = f_geo_mode f" "f_geo_countries (render_port_map_rows m f) = f_geo_countries f"
  "f_rates (render_port_map_rows m f) = f_rates f"
  by (simp_all add: render_port_map_rows_def)

lemma sync_mode_fields [simp]:
  "f_index (sync_port_map_mode f) = f_index f" "f_base (sync_port_map_mode f) = f_base f"
  "f_name (sync_port_map_mode f) = f_name f" "f_tcp (sync_port_map_mode f) = f_tcp f"
  "f_udp (sync_port_map_mode f) = f_udp f" "f_ports (sync_port_map_mode f) = f_ports f"
  "f_target (sync_port_map_mode f) = f_target f" "f_enabled (sync_port_map_mode f) = f_enabled f"
  "f_pause (sync_port_map_mode f) = f_pause f" "f_source_allow (sync_port_map_mode f) = f_source_allow f"
  "f_source_deny (sync_port_map_mode f) = f_source_deny f" "f_map_mode (sync_port_map_mode f) = f_map_mode f"
  "f_geo_mode (sync_port_map_mode f) = f_geo_mode f" "f_geo_countries (sync_port_map_mode f) = f_geo_countries f"
  "f_rates (sync_port_map_mode f) = f_rates f"
  by (simp_all add: sync_port_map_mode_def)

lemma load_maps_fields [simp]:
  "f_index (load_port_maps r f) = f_index f" "f_base (load_port_maps r f) = f_base f"
  "f_name (load_port_maps r f) = f_name f" "f_tcp (load_port_maps r f) = f_tcp f"
  "f_udp (load_port_maps r f) = f_udp f" "f_ports (load_port_maps r f) = f_ports f"
  "f_target (load_port_maps r f) = f_target f" "f_enabled (load_port_maps r f) = f_enabled f"
  "f_pause (load_port_maps r f) = f_pause f" "f_source_allow (load_port_maps r f) = f_source_allow f"
  "f_source_deny (load_port_maps r f) = f_source_deny f"
  "f_geo_mode (load_port_maps r f) = f_geo_mode f" "f_geo_countries (load_port_maps r f) = f_geo_countries f"
  "f_rates (load_port_maps r f) = f_rates f"
  by (simp_all add: load_port_maps_def Let_def)

text \<open>
  A form with maps opens in table mode: \<open>one\<close> asks for one map and several ports and as many maps as
  ports. And drawing the table again, without the maps, empties it.
\<close>

lemma load_maps_mode: "f_map_mode (load_port_maps r f) = ''same'' \<or> f_map_mode (load_port_maps r f) = ''table''"
  by (simp add: load_port_maps_def Let_def)

lemma emptied_table: "f_map_mode f = ''table'' \<Longrightarrow> read_port_maps ports (render_port_map_rows [] f) = None"
  by (simp add: read_port_maps_def render_port_map_rows_def internal_for_def Let_def filter_empty_conv)

lemma maps_are_dropped: "read_port_maps ports (edit_route_form cfg i r f) = None"
proof -
  obtain g where g: "edit_route_form cfg i r f = sync_port_map_mode g" "f_map_mode g = ''same'' \<or> f_map_mode g = ''table''"
    using load_maps_mode unfolding edit_route_form_def Let_def by fastforce
  show ?thesis
  proof (cases "f_map_mode g = ''table''")
    case True
    with g(1) emptied_table show ?thesis by (simp add: sync_port_map_mode_def)
  next
    case False
    with g show ?thesis by (simp add: sync_port_map_mode_def read_port_maps_def)
  qed
qed

definition flag :: "jsval \<Rightarrow> bool" where
  "flag v \<longleftrightarrow> v = None \<or> (\<exists>b. v = Some (JBool b))"

definition word_list :: "jsval \<Rightarrow> bool" where
  "word_list v \<longleftrightarrow> v = None \<or> (\<exists>xs. list_all plain_word xs \<and> v = Some (JArr (map JStr xs)))"

definition limits_in_range :: "rate_limit \<Rightarrow> bool" where
  "limits_in_range r \<longleftrightarrow> 0 \<le> tcp_syn_per_second r \<and> tcp_syn_per_second r \<le> 10000 \<and> 0 \<le> max_conn_per_ip r \<and>
     max_conn_per_ip r \<le> 65535 \<and> 0 \<le> udp_per_second r \<and> udp_per_second r \<le> 100000"

text \<open>
  A route as the API writes it and this form can hold it: any text for the protocols that names TCP or UDP, any port entries, a target
  that an enabled peer has, addresses and countries without blanks, rate limits within the fields' bounds.
\<close>

definition editable_route :: "json \<Rightarrow> json \<Rightarrow> bool" where
  "editable_route cfg r \<longleftrightarrow>
     (\<exists>p. set_route_proto_checkboxes p \<noteq> (False, False) \<and> member_json r ''proto'' = Some (JStr p)) \<and>
     (\<exists>ps. concat (map parse_ports_list ps) \<noteq> [] \<and> member_json r ''ports'' = Some (JArr (map JStr ps))) \<and>
     (\<exists>t. t \<noteq> [] \<and> trim t = t \<and> t \<in> set (peer_target_options cfg) \<and> member_json r ''target_ip'' = Some (JStr t)) \<and>
     flag (member_json r ''disabled'') \<and> flag (member_json r ''pause_when_peer_offline'') \<and>
     (member_json r ''name'' = None \<or> (\<exists>n. member_json r ''name'' = Some (JStr n))) \<and>
     word_list (member_json r ''source_allow_cidrs'') \<and> word_list (member_json r ''source_deny_cidrs'') \<and>
     word_list (member_json r ''geo_countries'') \<and>
     member_json r ''geo_mode'' \<in> {None, Some (JStr []), Some (JStr ''inherit''), Some (JStr ''off''), Some (JStr ''custom'')} \<and>
     (member_json r ''rate_limit'' = None \<or>
       (\<exists>rl. limits_in_range rl \<and> member_json r ''rate_limit'' = Some (rate_limit_json rl)))"

definition empty_member :: "jsval \<Rightarrow> bool" where
  "empty_member v \<longleftrightarrow> v \<in> {None, Some (JBool False), Some (JStr []), Some (JArr []), Some (JObj [])}"

definition geo_mode_of :: "jsval \<Rightarrow> string" where
  "geo_mode_of v = (if str_or_empty v = [] then ''inherit'' else str_or_empty v)"

text \<open>
  What an entry \<open>e\<close> says of a route's member when it says the same as the route \<open>r\<close>: the same protocols, in the editor's spelling; the port
  entries, each in its pieces between commas; the name without blanks around it; the mode, with \<open>inherit\<close> left out; the countries
  where the mode uses them, and none otherwise; any other member as it is, an empty one perhaps left out.
\<close>

definition written_back :: "json \<Rightarrow> json \<Rightarrow> string \<Rightarrow> bool" where
  "written_back r e k \<longleftrightarrow> (let u = member_json r k; v = member_json e k in
     if k = ''proto'' then (\<exists>tcp udp. set_route_proto_checkboxes (str_or_empty u) = (tcp, udp) \<and>
         v = Some (JStr (route_proto_from_checkboxes tcp udp)) \<and> set_route_proto_checkboxes (str_or_empty v) = (tcp, udp))
     else if k = ''ports'' then v = Some (JArr (map JStr (concat (map parse_ports_list (texts_of u)))))
     else if k = ''name'' then str_or_empty v = trim (str_or_empty u)
     else if k = ''geo_mode'' then geo_mode_of v = geo_mode_of u \<and> (v = u \<or> v = None)
     else if k = ''geo_countries'' \<and> geo_mode_of (member_json r ''geo_mode'') \<noteq> ''custom'' then v = None
     else v = u \<or> empty_member v \<and> empty_member u)"

definition route_keys :: "string list" where
  "route_keys = [''name'', ''proto'', ''ports'', ''target_ip'', ''disabled'', ''source_allow_cidrs'', ''source_deny_cidrs'',
     ''geo_mode'', ''geo_countries'', ''rate_limit'', ''pause_when_peer_offline'']"

lemma word_list_read: "word_list v \<Longrightarrow> parse_source_allow_list_input (comma_list v) = texts_of v"
  by (auto simp: word_list_def comma_list_def parse_source_list_join parse_source_list_join [of "[]", simplified])

definition listed :: "string list \<Rightarrow> jsval" where
  "listed xs = (if xs = [] then None else Some (JArr (map JStr xs)))"

lemma listed_word_list: "word_list v \<Longrightarrow> listed (texts_of v) = v \<or> empty_member (listed (texts_of v)) \<and> empty_member v"
  by (auto simp: word_list_def listed_def empty_member_def)

lemma map_of_if_listed: "map_of (if_listed k xs) k' = (if k' = k \<and> xs \<noteq> [] then Some (JArr (map JStr xs)) else None)"
  by (simp add: if_listed_def)

lemma rate_limit_read: "rate_limit_of (Some (rate_limit_json rl)) = Some rl"
  by (cases rl) (simp add: rate_limit_of_def rate_limit_json_def truthy_def number_member_def)

lemma written_limit:
  assumes "rate_inputs_exist ''route'' f" "limits_in_range rl"
  shows "read_rate_limit_from_form ''route'' (write_rate_limit_fields ''route'' (Some rl) f) =
    (if rate_limit_json rl = JObj [] then None else Some rl)"
proof -
  have zero: "rate_limit_json rl = JObj [] \<longleftrightarrow> tcp_syn_per_second rl = 0 \<and> max_conn_per_ip rl = 0 \<and> udp_per_second rl = 0"
    by (auto simp: rate_limit_json_def)
  show ?thesis
  proof (cases "rate_limit_json rl = JObj []")
    case True
    then have "write_rate_limit_fields ''route'' (Some rl) f = write_rate_limit_fields ''route'' None f"
      by (simp add: zero write_rate_limit_fields_def)
    with read_write_rate_limit [OF assms(1), of None] True show ?thesis by simp
  next
    case False
    with assms zero read_write_rate_limit [OF assms(1), of "Some rl"] show ?thesis
      by (simp add: rate_limit_ok_def limits_in_range_def)
  qed
qed


text \<open>A route to try the editor on: both protocols, a brace list, and one port mapped to another.\<close>

definition toy_route :: json where
  "toy_route = JObj [(''proto'', JStr ''both''), (''ports'', JArr [JStr ''8080'', JStr ''{80, 443}'']), (''target_ip'', JStr ''10.9.0.2''),
     (''port_maps'', JArr [port_map ''8080'' ''80''])]"

definition toy_routes :: json where
  "toy_routes = JObj
    [(''peers'', JArr [JObj [(''public_key'', JStr ''k1''), (''tunnel_ip'', JStr ''10.9.0.2/32'')]]),
     (''forwarding'', JObj [(''routes'', JArr [toy_route])])]"

definition toy_form :: route_form where
  "toy_form = \<lparr>f_index = None, f_base = [], f_name = [], f_tcp = True, f_udp = False, f_ports = [], f_targets = [], f_target = [],
     f_enabled = True, f_pause = False, f_source_allow = [], f_source_deny = [], f_map_mode = ''same'', f_internal_one = [],
     f_map_rows = [], f_geo_mode = ''inherit'', f_geo_countries = [], f_rates = (\<lambda>_. Some [])\<rparr>"


section \<open>What the edits do to the list\<close>

lemma put_routes_members [simp]:
  "route_list_of (put_routes c rs) = rs" "k \<noteq> ''forwarding'' \<Longrightarrow> member_json (put_routes c rs) k = member_json c k"
  by (auto simp: route_list_of_def put_routes_def forwarding_of_def truthy_def with_key_def rows_or_none_def list_of_def
      split: json.split)

lemma find_config_row_hit:
  "i < length rows \<Longrightarrow> rows ! i \<noteq> JNull \<Longrightarrow> ident (rows ! i) = d \<Longrightarrow> find_config_row (Some rows) (int i) d ident what = Inr i"
  by (simp add: find_config_row_def resolve_own_index)

text \<open>C6
  Saving the route editor replaces one row, and only if it is still the row that was opened: whatever
  the config has become, either a row equal to the one opened is replaced by the form's entry and all
  else stays, or nothing is saved and the operator is told. A new route is added at the end.
\<close>

theorem route_save_replaces_the_row_as_opened:
  assumes "open_route_editor cfg index f = Some f'"
  shows "(case index of
     None \<Rightarrow> \<exists>c'. save_route_edit (f_index f') (f_base f') entry c = Inr (True, c') \<and>
        route_list_of c' = route_list_of c @ [entry] \<and> (\<forall>k. k \<noteq> ''forwarding'' \<longrightarrow> member_json c' k = member_json c k)
   | Some i \<Rightarrow> \<exists>r. route_at cfg i = Some r \<and>
       (case save_route_edit (f_index f') (f_base f') entry c of
          Inl _ \<Rightarrow> i < length (route_list_of c) \<longrightarrow> route_list_of c ! i \<noteq> r
        | Inr (changed, c') \<Rightarrow> changed \<and> (\<exists>j < length (route_list_of c). route_list_of c ! j = r \<and>
            route_list_of c' = (route_list_of c)[j := entry]) \<and> (\<forall>k. k \<noteq> ''forwarding'' \<longrightarrow> member_json c' k = member_json c k)))"
proof (cases index)
  case None
  then have "f_index f' = None"
    using assms by (auto simp: open_route_editor_def add_route_form_def Let_def)
  with None show ?thesis by (simp add: save_route_edit_def)
next
  case (Some i)
  then obtain r where r: "route_at cfg i = Some r" "f' = edit_route_form cfg i r f"
    using assms by (auto simp: open_route_editor_def split: option.splits)
  then have f': "f_index f' = Some i" "f_base f' = stringify r" by (simp_all add: edit_route_form_def Let_def)
  have nn: "r \<noteq> JNull" using r(1) by (auto simp: route_at_def split: if_splits)
  show ?thesis
  proof (cases "find_config_row (Some (route_list_of c)) (int i) (stringify r) stringify ''route''")
    case (Inl e)
    have "i < length (route_list_of c) \<longrightarrow> route_list_of c ! i \<noteq> r"
      using Inl nn find_config_row_hit [of i "route_list_of c" stringify "stringify r" "''route''"] by auto
    with Some r(1) f' Inl show ?thesis by (simp add: save_route_edit_def)
  next
    case (Inr j)
    then have "j < length (route_list_of c)" "route_list_of c ! j = r"
      using find_config_row_found [OF Inr] by auto
    with Some r(1) f' Inr show ?thesis by (auto simp: save_route_edit_def)
  qed
qed

theorem route_save_replaces_the_row_as_opened_witness:
  "\<exists>f' r. open_route_editor toy_routes (Some 0) toy_form = Some f' \<and> route_at toy_routes 0 = Some r \<and>
     (case save_route_edit (f_index f') (f_base f') JNull (JObj []) of Inl _ \<Rightarrow> True | Inr _ \<Rightarrow> False)"
proof -
  have r: "route_at toy_routes 0 = Some toy_route"
    by (simp add: route_at_def toy_routes_def routes_of_def at_member_def rows_or_none_def list_of_def toy_route_def)
  then obtain f' where f': "open_route_editor toy_routes (Some 0) toy_form = Some f'" by (simp add: open_route_editor_def)
  have none: "route_list_of (JObj []) = []"
    by (simp add: route_list_of_def forwarding_of_def truthy_def rows_or_none_def list_of_def)
  from route_save_replaces_the_row_as_opened [OF f', of JNull "JObj []"] f' r none show ?thesis
    by (auto split: sum.splits)
qed

lemma with_routes_list:
  "routes_or_none c = Some rows \<Longrightarrow> routes_of (with_routes c rs) = rs \<and> route_list_of (with_routes c rs) = rs \<and>
     put_routes (with_routes c rs) rs' = with_routes c rs' \<and> routes_of c = rows"
  by (cases c) (auto simp: routes_or_none_def routes_of_def with_routes_def rows_or_none_def list_of_def at_member_def
      route_list_of_def put_routes_def forwarding_of_def with_key_def truthy_def put_key_twice split: option.splits json.splits)

lemma put_key_same: "map_of kvs k = Some v \<Longrightarrow> put_key k v kvs = kvs"
  by (induction kvs) (auto split: if_splits)

lemma with_same_routes: "routes_or_none c = Some rows \<Longrightarrow> with_routes c rows = c"
  by (cases c) (auto simp: routes_or_none_def with_routes_def list_of_def at_member_def with_key_def put_key_same
      split: option.splits json.splits)

lemma switched_route_and_undo:
  assumes "patch_route_disabled index identity off c = Inr (ch, c1)"
  shows "\<exists>i < length (routes_of c). route_identity (routes_of c ! i) = identity \<and> routes_of c1 = (routes_of c)[i := set_row_disabled off (routes_of c ! i)]"
proof -
  obtain i where f: "find_config_row (routes_or_none c) index identity route_identity ''route'' = Inr i"
    and c1: "c1 = with_routes c ((routes_of c)[i := set_row_disabled off (routes_of c ! i)])"
    using assms by (auto simp: patch_route_disabled_def split: sum.splits)
  obtain rows where rows: "routes_or_none c = Some rows" "i < length rows" "route_identity (rows ! i) = identity"
    using find_config_row_found [OF f] by blast
  with with_routes_list [OF rows(1)] c1 show ?thesis by auto
qed

end
