(* ===== verification/Routes_Table.thy ===== *)
theory Routes_Table
  imports Table_Cells Route_Editor
begin

text \<open>
  \<open>pages/routes.js\<close>: the table of routes, and what the API reports of them while they run: which are paused
  because their peer is offline, and how much traffic each has accepted. Both come for the applied
  config and are found again in the saved one by what a route is, not by its place.
\<close>

section \<open>Names\<close>

definition peer_name_for_target_host :: "json option \<Rightarrow> string \<Rightarrow> string" where
  "peer_name_for_target_host cfg hostIp =
     (let target = trim hostIp in
      if target = [] then []
      else (case cfg of None \<Rightarrow> []
        | Some c \<Rightarrow> (case find (\<lambda>p. tunnel_to_host (str_or_empty (member_json p ''tunnel_ip'')) = target \<and>
              trim (str_or_empty (member_json p ''name'')) \<noteq> []) (config_peers c) of
            Some p \<Rightarrow> trim (str_or_empty (member_json p ''name'')) | None \<Rightarrow> [])))"

definition proto_text :: "json \<Rightarrow> string" where
  "proto_text r = route_proto_plain_text (str_or_empty (member_json r ''proto''))"

definition format_route_proto_cell :: "string \<Rightarrow> string" where
  "format_route_proto_cell p =
     (let plain = route_proto_plain_text p in
      if plain = mdash then mdash
      else if plain = ''tcp'' \<or> plain = ''udp'' \<or> plain = ''tcp, udp'' then plain
      else escape_html plain)"

definition route_name :: "json \<Rightarrow> string" where
  "route_name r = trim (str_or_empty (member_json r ''name''))"

section \<open>Routes paused by the host\<close>

definition auto_pause_key :: "json \<Rightarrow> string" where
  "auto_pause_key r =
     proto_text r @ [CHR 0x00] @ join '','' (sort (texts_of (member_json r ''ports''))) @ [CHR 0x00] @
     trim (str_or_empty (member_json r ''target_ip''))"

text \<open>\<open>s.replace(", ", "+")\<close>: the first one only.\<close>

fun first_comma_to_plus :: "string \<Rightarrow> string" where
  "first_comma_to_plus [] = []"
| "first_comma_to_plus (c # s) = (if prefix '', '' (c # s) then CHR ''+'' # drop 1 s else c # first_comma_to_plus s)"

definition auto_paused_label :: "json \<Rightarrow> string" where
  "auto_paused_label r =
     (let ports = first_comma_to_plus (upper (proto_text r)) @ '' '' @ comma_list (member_json r ''ports''); name = route_name r in
      if name \<noteq> [] then name @ '' ('' @ ports @ '')'' else ports)"

definition paused_peer :: "json \<Rightarrow> string" where
  "paused_peer r = (let p = trim (str_or_empty (member_json r ''peer'')) in
     if p \<noteq> [] then p else trim (str_or_empty (member_json r ''target_ip'')))"

text \<open>A map in insertion order: each peer's labels.\<close>

fun add_paused :: "(string \<times> string list) list \<Rightarrow> json \<Rightarrow> (string \<times> string list) list" where
  "add_paused [] r = [(paused_peer r, [auto_paused_label r])]"
| "add_paused ((p, ls) # gs) r = (if p = paused_peer r then (p, ls @ [auto_paused_label r]) # gs else (p, ls) # add_paused gs r)"

record paused_banner =
  banner_hidden :: bool
  banner_title :: string
  banner_list :: string

definition render_auto_paused_banner :: "json list \<Rightarrow> paused_banner" where
  "render_auto_paused_banner paused =
     \<lparr>banner_hidden = (paused = []),
      banner_title = ''Auto-paused: '' @ show_nat (length paused) @ (if length paused = 1 then '' route'' else '' routes''),
      banner_list = concat (map (\<lambda>(p, ls). ''<li>Peer <strong>'' @ escape_html p @ ''</strong> is offline: '' @
        escape_html (join ''; '' ls) @ ''</li>'') (foldl add_paused [] paused))\<rparr>"

text \<open>The rows that get the badge.\<close>

definition auto_paused_rows :: "json list \<Rightarrow> json list \<Rightarrow> bool list" where
  "auto_paused_rows paused routes =
     map (\<lambda>r. \<not> truthy (member_json r ''disabled'') \<and> auto_pause_key r \<in> set (map auto_pause_key paused)) routes"

text \<open>The answer of a poll: the new routes, and whether anything on the page is touched.\<close>

definition refresh_auto_paused :: "json list option \<Rightarrow> json list \<Rightarrow> json list \<times> bool" where
  "refresh_auto_paused answer paused = (case answer of
     None \<Rightarrow> (paused, False)
   | Some new \<Rightarrow> if stringify (JArr new) = stringify (JArr paused) then (paused, False) else (new, True))"

section \<open>Traffic accepted\<close>

definition route_accepted_key :: "string \<Rightarrow> string list \<Rightarrow> string \<Rightarrow> string" where
  "route_accepted_key proto ports targetIp = proto @ [CHR 0x00] @ join '','' (sort ports) @ [CHR 0x00] @ trim targetIp"

text \<open>\<open>s.split(", ")\<close>.\<close>

fun split_comma_space :: "string \<Rightarrow> string list" where
  "split_comma_space [] = [[]]"
| "split_comma_space [c] = [[c]]"
| "split_comma_space (c # d # s) =
     (if c = CHR '','' \<and> d = CHR '' '' then [] # split_comma_space s
      else (case split_comma_space (d # s) of [] \<Rightarrow> [[c]] | p # ps \<Rightarrow> (c # p) # ps))"

definition route_accepted_parts :: "json \<Rightarrow> (string \<times> string) list" where
  "route_accepted_parts r =
     map (\<lambda>proto. (proto, route_accepted_key proto (texts_of (member_json r ''ports'')) (str_or_empty (member_json r ''target_ip''))))
       (split_comma_space (proto_text r))"

definition route_accepted_key_use :: "json list \<Rightarrow> string \<Rightarrow> nat" where
  "route_accepted_key_use routes key = count_list (concat (map (\<lambda>r. map snd (route_accepted_parts r)) routes)) key"

definition route_accepted_rows :: "(string \<rightharpoonup> json) \<Rightarrow> json \<Rightarrow> (string \<Rightarrow> nat) \<Rightarrow> (string \<times> json option) list" where
  "route_accepted_rows accepted r keyUse =
     map (\<lambda>(proto, key). (proto, if truthy (member_json r ''disabled'') \<and> keyUse key > 1 then None else accepted key))
       (route_accepted_parts r)"

definition route_accepted_total :: "(string \<rightharpoonup> json) \<Rightarrow> json \<Rightarrow> string \<Rightarrow> (string \<Rightarrow> nat) \<Rightarrow> int option" where
  "route_accepted_total accepted r field keyUse =
     (let rows = List.map_filter snd (route_accepted_rows accepted r keyUse) in
      if rows = [] then None else Some (sum_list (map (\<lambda>x. number_member x field) rows)))"

definition NO_COUNT :: string where
  "NO_COUNT = ''No count for this route: it is disabled, changed since the last Apply, or counters are unavailable.''"

text \<open>\<open>formatCount\<close> and \<open>formatBytes\<close> print numbers as the browser's locale does: parameters here.\<close>

definition route_accepted_title :: "(int \<Rightarrow> string) \<Rightarrow> (int \<Rightarrow> string) \<Rightarrow> (string \<rightharpoonup> json) \<Rightarrow> json \<Rightarrow> (string \<Rightarrow> nat) \<Rightarrow> string" where
  "route_accepted_title fmtCount fmtBytes accepted r keyUse =
     (let parts = route_accepted_rows accepted r keyUse in
      if list_all (\<lambda>(_, row). row = None) parts then NO_COUNT
      else ''Accepted traffic since the last Apply, not players or legitimate clients. '' @ join ''; ''
        (map (\<lambda>(proto, row). upper proto @ '': '' @ (case row of
            Some x \<Rightarrow> fmtCount (number_member x ''packets'') @ '' packets, '' @ fmtBytes (number_member x ''bytes'') | None \<Rightarrow> ''no count'')) parts))"

definition route_accepted_cell ::
  "(int \<Rightarrow> string) \<Rightarrow> (int \<Rightarrow> string) \<Rightarrow> (string \<rightharpoonup> json) \<Rightarrow> bool \<Rightarrow> json \<Rightarrow> (string \<Rightarrow> nat) \<Rightarrow> string \<times> string" where
  "route_accepted_cell fmtCount fmtBytes accepted settled r keyUse =
     (let packets = route_accepted_total accepted r ''packets'' keyUse;
          waiting = (packets = None \<and> \<not> settled);
          text = (if waiting then ellipsis else case packets of None \<Rightarrow> mdash | Some n \<Rightarrow> fmtCount n);
          unit = (case packets of None \<Rightarrow> [] | Some _ \<Rightarrow> ''pkts '' @ middot @ '' '' @
            (case route_accepted_total accepted r ''bytes'' keyUse of Some b \<Rightarrow> fmtBytes b | None \<Rightarrow> [])) in
      (if unit \<noteq> [] then escape_html text @ '' <span class=\"meta\">'' @ escape_html unit @ ''</span>'' else ''<span class=\"meta\">'' @ text @ ''</span>'',
       if waiting then ''Loading the count for this route.'' else route_accepted_title fmtCount fmtBytes accepted r keyUse))"

text \<open>A poll's answer: the counters by key, and whether they have settled.\<close>

definition refresh_route_accepted ::
  "json list option \<Rightarrow> (string \<rightharpoonup> json) \<times> bool \<Rightarrow> (string \<rightharpoonup> json) \<times> bool" where
  "refresh_route_accepted answer st = (case answer of
     None \<Rightarrow> (fst st, True)
   | Some rows \<Rightarrow>
       (foldl (\<lambda>m x. m(route_accepted_key (str_or_empty (member_json x ''proto'')) (texts_of (member_json x ''ports''))
          (str_or_empty (member_json x ''target_ip'')) \<mapsto> x)) Map.empty rows, True))"

section \<open>The table\<close>

definition route_columns :: "json \<Rightarrow> (string \<rightharpoonup> json) \<Rightarrow> (string \<Rightarrow> nat) \<Rightarrow> (string \<times> (json \<Rightarrow> sort_key)) list" where
  "route_columns cfg accepted keyUse =
    [(''name'', \<lambda>r. KText (route_name r)),
     (''proto'', \<lambda>r. KText (proto_text r)),
     (''ports'', \<lambda>r. KText (comma_list (member_json r ''ports''))),
     (''target'', \<lambda>r. let tip = str_or_empty (member_json r ''target_ip''); n = peer_name_for_target_host (Some cfg) tip in
        KText (if n \<noteq> [] then n else trim tip)),
     (''source'', \<lambda>r. KNum (of_nat (length (rows_or_none (member_json r ''source_allow_cidrs''))))),
     (''accepted'', \<lambda>r. case route_accepted_total accepted r ''packets'' keyUse of None \<Rightarrow> KNull | Some n \<Rightarrow> KNum (of_int n)),
     (''enabled'', \<lambda>r. if truthy (member_json r ''disabled'') then KNum 0 else KNum 1)]"

definition route_name_cell :: "bool \<Rightarrow> string \<Rightarrow> string" where
  "route_name_cell anyNamed name =
     (if \<not> anyNamed then [] else if name \<noteq> [] then ''<td class=\"route-name-cell\">'' @ escape_html name @ ''</td>''
      else ''<td><span class=\"meta\">'' @ mdash @ ''</span></td>'')"

definition route_source_cell :: "string list \<Rightarrow> string" where
  "route_source_cell srcs =
     (if srcs \<noteq> []
      then ''<td title=\"'' @ escape_html (join '', '' srcs) @ ''\"><span class=\"mono\">'' @ escape_html (show_nat (length srcs)) @
        ''</span> <span class=\"meta\">CIDR</span></td>''
      else ''<td><span class=\"meta\">any</span></td>'')"

definition route_row_html :: "json \<Rightarrow> bool \<Rightarrow> row_errors \<Rightarrow> json \<times> nat \<Rightarrow> string" where
  "route_row_html cfg anyNamed errs row = (case row of (r, i) \<Rightarrow>
     (let proto = format_route_proto_cell (str_or_empty (member_json r ''proto''));
          ports = comma_list (member_json r ''ports'');
          targetHost = trim (str_or_empty (member_json r ''target_ip''));
          targetPeerName = peer_name_for_target_host (Some cfg) targetHost;
          name = route_name r;
          f = lower (join '' '' [name, proto, ports, targetHost, targetPeerName]);
          off = truthy (member_json r ''disabled'') in
      ''<tr data-row=\"'' @ show_nat i @ ''\" tabindex=\"-1\" data-filter=\"'' @ escape_html f @ ''\"'' @
      (if off then '' class=\"is-row-disabled\"'' else []) @ ''>'' @ route_name_cell anyNamed name @ ''<td>'' @ proto @
      ''</td><td class=\"mono\">'' @ escape_html ports @ ''</td>'' @
      mono_ip_copy_cell_html (str_or_nothing (member_json r ''target_ip'')) targetPeerName @
      route_source_cell (texts_of (member_json r ''source_allow_cidrs'')) @ ''<td class=\"route-accepted-cell\"></td>'' @
      table_disabled_toggle_cell ''data-route-disabled'' i off
        (if name \<noteq> [] then ''Enabled: '' @ name else ''Enabled: route to '' @ str_or_empty (member_json r ''target_ip'')) @
      ''<td class=\"row-actions\"><button type=\"button\" class=\"evu-btn evu-btn--outline evu-btn--sm\" data-route-test=\"'' @ show_nat i @
      ''\">Test</button> <button type=\"button\" class=\"evu-btn evu-btn--outline evu-btn--sm\" data-route-edit=\"'' @ show_nat i @
      ''\">Edit</button> <button type=\"button\" class=\"evu-btn evu-btn--outline evu-btn--sm\" data-route-del=\"'' @ show_nat i @
      ''\">Remove</button></td></tr>'' @ row_error_html errs ''data-route-disabled'' i (if anyNamed then 8 else 7)))"

definition route_rows_html ::
  "string comparing \<Rightarrow> (rat \<Rightarrow> string) \<Rightarrow> sorts \<Rightarrow> (string \<rightharpoonup> json) \<Rightarrow> row_errors \<Rightarrow> json \<Rightarrow> string list" where
  "route_rows_html coll str sorts accepted errs cfg =
     (let routes = routes_of cfg; keyUse = route_accepted_key_use routes in
      map (route_row_html cfg (list_ex (\<lambda>r. route_name r \<noteq> []) routes) errs)
        (sorted_rows coll str sorts ''routes'' routes (route_columns cfg accepted keyUse)))"

section \<open>Facts\<close>

text \<open>A route is the same whatever the order of its ports.\<close>

lemma auto_pause_key_unordered:
  assumes "member_json r ''proto'' = member_json r' ''proto''" "member_json r ''target_ip'' = member_json r' ''target_ip''"
    and "mset (texts_of (member_json r ''ports'')) = mset (texts_of (member_json r' ''ports''))"
  shows "auto_pause_key r = auto_pause_key r'"
proof -
  have "sort (texts_of (member_json r ''ports'')) = sort (texts_of (member_json r' ''ports''))"
    by (rule properties_for_sort) (simp_all add: assms(3))
  with assms(1,2) show ?thesis by (simp add: auto_pause_key_def proto_text_def)
qed

text \<open>A disabled row is never marked as paused, and one that is marked is in the host's list.\<close>

lemma badge_means_paused:
  "i < length routes \<Longrightarrow> auto_paused_rows paused routes ! i \<Longrightarrow>
     \<not> truthy (member_json (routes ! i) ''disabled'') \<and> (\<exists>p \<in> set paused. auto_pause_key p = auto_pause_key (routes ! i))"
  by (auto simp: auto_paused_rows_def)

text \<open>The banner names every paused route once, under its peer, and every peer once.\<close>

lemma add_paused_groups:
  "mset (concat (map (\<lambda>(p, ls). map (Pair p) ls) (add_paused gs r))) =
     add_mset (paused_peer r, auto_paused_label r) (mset (concat (map (\<lambda>(p, ls). map (Pair p) ls) gs)))"
  "map fst (add_paused gs r) = (if paused_peer r \<in> fst ` set gs then map fst gs else map fst gs @ [paused_peer r])"
  by (induction gs r rule: add_paused.induct) auto

lemma banner_groups:
  "mset (concat (map (\<lambda>(p, ls). map (Pair p) ls) (foldl add_paused gs rs))) =
     mset (concat (map (\<lambda>(p, ls). map (Pair p) ls) gs)) + mset (map (\<lambda>r. (paused_peer r, auto_paused_label r)) rs)"
  "distinct (map fst gs) \<Longrightarrow> distinct (map fst (foldl add_paused gs rs))"
  by (induction rs arbitrary: gs) (simp_all add: add_paused_groups)

text \<open>
  A disabled route is credited with a count only if no other saved route has its key. A failed poll
  leaves the counts on screen alone.
\<close>

lemma disabled_route_shares_no_count:
  assumes "route_accepted_rows accepted r (route_accepted_key_use routes) ! k = (proto, Some x)"
    and "k < length (route_accepted_parts r)" "truthy (member_json r ''disabled'')"
  shows "route_accepted_key_use routes (snd (route_accepted_parts r ! k)) \<le> 1 \<and> accepted (snd (route_accepted_parts r ! k)) = Some x"
  using assms by (auto simp: route_accepted_rows_def split: prod.splits if_splits)

lemma failed_poll_keeps_counts: "fst (refresh_route_accepted None st) = fst st" "snd (refresh_route_accepted a st)"
  by (simp_all add: refresh_route_accepted_def split: option.split)

section \<open>What a route can put on the page\<close>

lemma markup_plain_proto:
  "p = ''tcp'' \<or> p = ''udp'' \<or> p = ''tcp, udp'' \<Longrightarrow> markup p = []"
  by (auto simp: markup_eval)

lemma markup_proto_cell: "markup (format_route_proto_cell p) = []"
proof -
  consider "route_proto_plain_text p = mdash"
    | "route_proto_plain_text p \<noteq> mdash" "route_proto_plain_text p = ''tcp'' \<or> route_proto_plain_text p = ''udp'' \<or> route_proto_plain_text p = ''tcp, udp''"
    | "route_proto_plain_text p \<noteq> mdash" "\<not> (route_proto_plain_text p = ''tcp'' \<or> route_proto_plain_text p = ''udp'' \<or> route_proto_plain_text p = ''tcp, udp'')"
    by blast
  then show ?thesis
  proof cases
    case 1
    then show ?thesis unfolding format_route_proto_cell_def Let_def if_P [OF 1] by (simp only: markup_dash)
  next
    case 2
    then show ?thesis unfolding format_route_proto_cell_def Let_def if_not_P [OF 2(1)] if_P [OF 2(2)] by (intro markup_plain_proto)
  next
    case 3
    then show ?thesis
      unfolding format_route_proto_cell_def Let_def if_not_P [OF 3(1)] if_not_P [OF 3(2)] by (intro markup_escape)
  qed
qed

lemma markup_name_cell:
  "markup (route_name_cell a n) = (if \<not> a then [] else if n \<noteq> [] then markup ''<td class=\"\"></td>'' else markup ''<td><span class=\"\"></span></td>'')"
proof -
  have l: "markup ''<td class=\"route-name-cell\">'' @ markup ''</td>'' = markup ''<td class=\"\"></td>''"
    "markup ''<td><span class=\"meta\">'' @ markup ''</span></td>'' = markup ''<td><span class=\"\"></span></td>''"
    by (simp_all add: markup_eval)
  show ?thesis
    unfolding route_name_cell_def
    by (cases a; cases "n = []") (simp_all only: simp_thms if_True if_False markup_append markup_escape markup_dash markup_Nil append_Nil l)
qed

lemma markup_source_cell:
  "markup (route_source_cell srcs) = markup (route_source_cell (if srcs = [] then [] else [[]]))"
  unfolding route_source_cell_def
  by (cases "srcs = []") (simp_all only: simp_thms if_True if_False markup_append markup_escape list.distinct)

record route_shape =
  route_off :: bool
  route_named :: bool
  route_address :: bool
  route_peer :: bool
  route_sources :: bool
  route_error :: bool

definition route_shape_of :: "json \<Rightarrow> row_errors \<Rightarrow> json \<times> nat \<Rightarrow> route_shape" where
  "route_shape_of cfg errs row = (case row of (r, i) \<Rightarrow>
     \<lparr>route_off = truthy (member_json r ''disabled''), route_named = (route_name r \<noteq> []),
      route_address = (tunnel_ip_without_suffix (trim (str_or_nothing (member_json r ''target_ip''))) \<noteq> []),
      route_peer = (trim (peer_name_for_target_host (Some cfg) (trim (str_or_empty (member_json r ''target_ip'')))) \<noteq> []),
      route_sources = (texts_of (member_json r ''source_allow_cidrs'') \<noteq> []),
      route_error = (\<exists>m. errs ''data-route-disabled'' = Some (i, m))\<rparr>)"

text \<open>
  Nothing a route says about itself becomes markup: two routes drawn with the same cells give rows with
  exactly the same tag and quote characters, whatever their names, protocols, ports, targets and
  sources hold.
\<close>

theorem route_texts_add_no_markup:
  assumes "route_shape_of cfg errs (r, i) = route_shape_of cfg' errs' (r', i')"
  shows "markup (route_row_html cfg named errs (r, i)) = markup (route_row_html cfg' named errs' (r', i'))"
proof -
  have off: "truthy (member_json r ''disabled'') = truthy (member_json r' ''disabled'')"
    and nm: "(route_name r \<noteq> []) = (route_name r' \<noteq> [])"
    and addr: "(tunnel_ip_without_suffix (trim (str_or_nothing (member_json r ''target_ip''))) = []) =
      (tunnel_ip_without_suffix (trim (str_or_nothing (member_json r' ''target_ip''))) = [])"
    and peer: "(trim (peer_name_for_target_host (Some cfg) (trim (str_or_empty (member_json r ''target_ip'')))) = []) =
      (trim (peer_name_for_target_host (Some cfg') (trim (str_or_empty (member_json r' ''target_ip'')))) = [])"
    and src: "(texts_of (member_json r ''source_allow_cidrs'') = []) = (texts_of (member_json r' ''source_allow_cidrs'') = [])"
    and err: "(\<exists>m. errs ''data-route-disabled'' = Some (i, m)) \<longleftrightarrow> (\<exists>m. errs' ''data-route-disabled'' = Some (i', m))"
    using assms by (simp_all add: route_shape_of_def)
  have n: "markup (route_name_cell named (route_name r)) = markup (route_name_cell named (route_name r'))"
    unfolding markup_name_cell nm ..
  have a: "markup (mono_ip_copy_cell_html (str_or_nothing (member_json r ''target_ip''))
        (peer_name_for_target_host (Some cfg) (trim (str_or_empty (member_json r ''target_ip''))))) =
      markup (mono_ip_copy_cell_html (str_or_nothing (member_json r' ''target_ip''))
        (peer_name_for_target_host (Some cfg') (trim (str_or_empty (member_json r' ''target_ip'')))))"
    by (simp only: markup_mono_ip_cell [of "str_or_nothing (member_json r ''target_ip'')"]
        markup_mono_ip_cell [of "str_or_nothing (member_json r' ''target_ip'')"] addr peer)
  have s: "markup (route_source_cell (texts_of (member_json r ''source_allow_cidrs''))) =
      markup (route_source_cell (texts_of (member_json r' ''source_allow_cidrs'')))"
    by (simp only: markup_source_cell [of "texts_of (member_json r ''source_allow_cidrs'')"]
        markup_source_cell [of "texts_of (member_json r' ''source_allow_cidrs'')"] src)
  have t: "markup (table_disabled_toggle_cell ''data-route-disabled'' i d l) =
      markup (table_disabled_toggle_cell ''data-route-disabled'' i' d l')" for d l l'
    by (rule trans [OF markup_toggle_cell markup_toggle_cell [symmetric]])
  have e: "markup (row_error_html errs ''data-route-disabled'' i n) = markup (row_error_html errs' ''data-route-disabled'' i' n)" for n
    by (rule markup_row_error) (rule err)
  show ?thesis
    unfolding route_row_html_def prod.case Let_def
    by (simp only: markup_append markup_escape markup_show_nat markup_proto_cell n a s e off
        t [of _ "if route_name r \<noteq> [] then ''Enabled: '' @ route_name r else ''Enabled: route to '' @ str_or_empty (member_json r ''target_ip'')"
              "if route_name r' \<noteq> [] then ''Enabled: '' @ route_name r' else ''Enabled: route to '' @ str_or_empty (member_json r' ''target_ip'')"])
qed

end
