(* ===== verification/Config_Rows.thy ===== *)
theory Config_Rows
  imports Route_Editor
begin

text \<open>
  The lists of the config that a page edits row by row, as an interface: how a list is read, changed in
  place, and made where it is missing. What removing, switching and their Undos do to such a list
  follows from these laws alone, for the routes here and for the inbound rules in \<open>Inbound\<close>.
\<close>

lemma find_config_row_cong:
  assumes "length rows' = length rows" "\<forall>j < length rows. ident (rows' ! j) = ident (rows ! j) \<and> (rows' ! j = JNull \<longleftrightarrow> rows ! j = JNull)"
  shows "find_config_row (Some rows') openIndex identity ident what = find_config_row (Some rows) openIndex identity ident what"
  unfolding find_config_row_def resolve_list_index_cong [OF assms] ..

locale editable_rows =
  fixes rows_of :: "json \<Rightarrow> json list option"
    and put_rows :: "json \<Rightarrow> json list \<Rightarrow> json"
    and made_rows :: "json \<Rightarrow> json list"
    and make_rows :: "json \<Rightarrow> json list \<Rightarrow> json"
  assumes put_read: "rows_of c = Some rs \<Longrightarrow> rows_of (put_rows c xs) = Some xs"
    and put_same: "rows_of c = Some rs \<Longrightarrow> put_rows c rs = c"
    and put_twice: "rows_of c = Some rs \<Longrightarrow> put_rows (put_rows c xs) ys = put_rows c ys"
    and made_existing: "rows_of c = Some rs \<Longrightarrow> made_rows c = rs"
    and make_existing: "rows_of c = Some rs \<Longrightarrow> make_rows c xs = put_rows c xs"
    and make_read: "rows_of (make_rows c xs) = Some xs"
begin

lemma found:
  assumes "find_config_row (rows_of c) index identity ident what = Inr i"
  obtains rs where "rows_of c = Some rs" "i < length rs" "ident (rs ! i) = identity"
  using find_config_row_found [OF assms] by blast

lemma made_read: "made_rows (make_rows c xs) = xs"
  by (rule made_existing) (rule make_read)

text \<open>The row taken out goes back where it was.\<close>

lemma restored:
  assumes "rows_of c = Some rs" "i < length rs" "gone = take i rs @ drop (Suc i) rs"
  shows "made_rows (put_rows c gone) = gone" "make_rows (put_rows c gone) gone = put_rows c gone"
    "make_rows (put_rows c gone) (take (min i (length gone)) gone @ rs ! i # drop (min i (length gone)) gone) = c"
proof -
  note r = put_read [OF assms(1), of gone]
  show "made_rows (put_rows c gone) = gone" by (rule made_existing [OF r])
  show "make_rows (put_rows c gone) gone = put_rows c gone" by (simp add: make_existing [OF r] put_twice [OF assms(1)])
  have "min i (length gone) = i" "take i gone = take i rs" "drop i gone = drop (Suc i) rs" using assms(2,3) by simp_all
  then have "take (min i (length gone)) gone @ rs ! i # drop (min i (length gone)) gone = rs"
    using id_take_nth_drop [OF assms(2)] by simp
  then show "make_rows (put_rows c gone) (take (min i (length gone)) gone @ rs ! i # drop (min i (length gone)) gone) = c"
    by (simp add: make_existing [OF r] put_twice [OF assms(1)] put_same [OF assms(1)])
qed

text \<open>A row changed without losing its identity is found again, and can be changed back.\<close>

lemma found_again:
  assumes "find_config_row (rows_of c) index identity ident what = Inr i" "rows_of c = Some rs"
    and "ident (f (rs ! i)) = ident (rs ! i)" "f (rs ! i) = JNull \<longleftrightarrow> rs ! i = JNull"
  shows "find_config_row (rows_of (put_rows c (rs[i := f (rs ! i)]))) index identity ident what = Inr i"
    "put_rows (put_rows c (rs[i := f (rs ! i)])) ((rs[i := f (rs ! i)])[i := g (rs[i := f (rs ! i)] ! i)]) =
       put_rows c (rs[i := g (f (rs ! i))])"
proof -
  have i: "i < length rs" using find_config_row_found [OF assms(1)] assms(2) by auto
  have "find_config_row (Some (rs[i := f (rs ! i)])) index identity ident what = find_config_row (Some rs) index identity ident what"
    using i assms(3,4) by (intro find_config_row_cong) (auto simp: nth_list_update)
  then show "find_config_row (rows_of (put_rows c (rs[i := f (rs ! i)]))) index identity ident what = Inr i"
    using assms(1,2) by (simp add: put_read [OF assms(2)])
  show "put_rows (put_rows c (rs[i := f (rs ! i)])) ((rs[i := f (rs ! i)])[i := g (rs[i := f (rs ! i)] ! i)]) =
       put_rows c (rs[i := g (f (rs ! i))])"
    using i by (simp add: put_twice [OF assms(2)])
qed

end

lemma put_routes_read: "routes_or_none (put_routes c xs) = Some xs"
  by (simp add: routes_or_none_def put_routes_def at_member_def list_of_def)

interpretation routes: editable_rows routes_or_none with_routes route_list_of put_routes
proof
  fix c rs xs ys
  assume c: "routes_or_none c = Some rs"
  note w = with_routes_list [OF c]
  have "routes_or_none (with_routes c xs) = Some xs" for xs
    using c by (cases c) (auto simp: routes_or_none_def with_routes_def list_of_def at_member_def split: option.splits json.splits)
  then show "routes_or_none (with_routes c xs) = Some xs" .
  show "with_routes c rs = c" by (rule with_same_routes [OF c])
  then have "route_list_of c = rs" using w [of rs] by simp
  then show "route_list_of c = rs" .
  show "put_routes c xs = with_routes c xs" using w [of rs xs] \<open>with_routes c rs = c\<close> by simp
  show "with_routes (with_routes c xs) ys = with_routes c ys"
    using c by (cases c) (auto simp: routes_or_none_def with_routes_def list_of_def at_member_def with_key_def put_key_twice
        split: option.splits json.splits)
qed (rule put_routes_read)

text \<open>
  Removing a route takes out one row with the identity asked for and nothing else, and Undo puts the
  config back exactly, unless the very same row is in it a second time.
\<close>

theorem removed_route_is_restored:
  assumes "remove_route index identity c = Inr (c1, removed, i)"
  shows "route_identity removed = identity \<and> i < length (routes_of c) \<and> routes_of c ! i = removed \<and>
    routes_of c1 = take i (routes_of c) @ drop (Suc i) (routes_of c) \<and>
    (if removed \<in> set (routes_of c1) then undo_remove_route removed i c1 = Inr (False, c1) else undo_remove_route removed i c1 = Inr (True, c))"
proof -
  have f: "find_config_row (routes_or_none c) index identity route_identity ''route'' = Inr i"
    and c1: "c1 = with_routes c (take i (routes_of c) @ drop (Suc i) (routes_of c))" "removed = routes_of c ! i"
    using assms by (auto simp: remove_route_def split: sum.splits)
  obtain rows where rows: "routes_or_none c = Some rows" "i < length rows" "route_identity (rows ! i) = identity"
    using routes.found [OF f] .
  note w = with_routes_list [OF rows(1)] and undone = routes.restored [OF rows(1,2) refl]
  have "list_ex (\<lambda>r. stringify r = stringify removed) xs \<longleftrightarrow> removed \<in> set xs" for xs by (auto simp: list_ex_iff)
  with rows c1 w undone show ?thesis by (simp add: undo_remove_route_def Let_def)
qed

theorem removed_route_is_restored_witness:
  "\<exists>c1. remove_route 0 (route_identity toy_route) toy_routes = Inr (c1, toy_route, 0) \<and>
     undo_remove_route toy_route 0 c1 = Inr (True, toy_routes)"
proof -
  have rows: "routes_or_none toy_routes = Some [toy_route]" "routes_of toy_routes = [toy_route]" "toy_route \<noteq> JNull"
    by (simp_all add: toy_routes_def routes_of_def routes_or_none_def at_member_def rows_or_none_def list_of_def toy_route_def)
  have "find_config_row (Some [toy_route]) 0 (route_identity toy_route) route_identity ''route'' = Inr 0"
    using find_config_row_hit [of 0 "[toy_route]" route_identity] rows(3) by simp
  then have r: "remove_route 0 (route_identity toy_route) toy_routes = Inr (with_routes toy_routes [], toy_route, 0)"
    by (simp add: remove_route_def rows)
  from removed_route_is_restored [OF r] r show ?thesis by (auto simp: rows)
qed

end
