(* ===== verification/Inbound.thy ===== *)
theory Inbound
  imports Config_Rows Peers_Table
begin

text \<open>
  \<open>pages/inbound.js\<close>: the rules for ports opened on the host itself (\<open>input_allows\<close>): the editor from a
  rule to the form and back, switching and removing a rule with Undo, and the table's rows. Rules are
  objects, as the API types them.
\<close>

section \<open>Reading the rules\<close>

definition inbound_or_none :: "json \<Rightarrow> json list option" where
  "inbound_or_none c = list_of (member_json c ''input_allows'')"

definition inbound_rules :: "json \<Rightarrow> json list" where
  "inbound_rules c = rows_or_none (member_json c ''input_allows'')"

definition put_inbound :: "json \<Rightarrow> json list \<Rightarrow> json" where
  "put_inbound c rs = with_key c ''input_allows'' (JArr rs)"

text \<open>\<open>{ 80, 443 }\<close> is read \<open>80, 443\<close>.\<close>

definition dport_display :: "string \<Rightarrow> string" where
  "dport_display dport = trim (filter (\<lambda>c. c \<noteq> CHR ''{'' \<and> c \<noteq> CHR ''}'') dport)"

definition inbound_proto :: "json \<Rightarrow> string" where
  "inbound_proto r = lower (str_or_empty (member_json r ''proto''))"

definition inbound_rule_identity :: "json \<Rightarrow> string" where
  "inbound_rule_identity r =
     inbound_proto r @ [CHR 0x00] @ str_or_empty (member_json r ''dport'') @ [CHR 0x00] @ trim (str_or_empty (member_json r ''note''))"

definition rule_at :: "json \<Rightarrow> nat \<Rightarrow> json option" where
  "rule_at cfg i = (if i < length (inbound_rules cfg) then Some (inbound_rules cfg ! i) else None)"

section \<open>The editor\<close>

record inbound_form =
  ib_index :: "nat option"
  ib_base :: string
  ib_proto :: string
  ib_dport :: string
  ib_note :: string
  ib_enabled :: bool

text \<open>
  Opening the editor makes the list in the config at hand if there is none. The base of an earlier edit
  stays while a rule is added; it is not looked at then.
\<close>

definition with_inbound :: "json \<Rightarrow> json" where
  "with_inbound cfg = (if truthy (member_json cfg ''input_allows'') then cfg else put_inbound cfg [])"

definition edit_inbound_form :: "nat \<Rightarrow> json \<Rightarrow> inbound_form \<Rightarrow> inbound_form" where
  "edit_inbound_form i r f =
     (let p = lower (if truthy (member_json r ''proto'') then str_or_empty (member_json r ''proto'') else ''tcp'') in
      \<lparr>ib_index = Some i, ib_base = stringify r, ib_proto = (if p = ''udp'' then ''udp'' else ''tcp''),
       ib_dport = str_or_empty (member_json r ''dport''), ib_note = str_or_empty (member_json r ''note''),
       ib_enabled = (\<not> truthy (member_json r ''disabled''))\<rparr>)"

definition open_inbound_editor :: "json \<Rightarrow> nat option \<Rightarrow> inbound_form \<Rightarrow> json \<times> inbound_form option" where
  "open_inbound_editor lastConfig index f =
     (let cfg = with_inbound lastConfig in
      (cfg,
       case index of
         None \<Rightarrow> Some (f\<lparr>ib_index := None, ib_proto := ''tcp'', ib_dport := [], ib_note := [], ib_enabled := True\<rparr>)
       | Some i \<Rightarrow> (case rule_at cfg i of
            Some r \<Rightarrow> if truthy (Some r) then Some (edit_inbound_form i r f) else None
          | None \<Rightarrow> None)))"

definition inbound_entry :: "inbound_form \<Rightarrow> string + json" where
  "inbound_entry f =
     (let proto = lower (if ib_proto f = [] then ''tcp'' else ib_proto f); dport = trim (ib_dport f); note' = trim (ib_note f) in
      if proto \<noteq> ''tcp'' \<and> proto \<noteq> ''udp'' then Inl ''Protocol must be tcp or udp.''
      else if ib_enabled f \<and> dport = [] then Inl ''Destination port is required.''
      else Inr (JObj ([(''proto'', JStr proto)] @ (if dport = [] then [] else [(''dport'', JStr dport)]) @
        (if note' = [] then [] else [(''note'', JStr note')]) @ [(''disabled'', JBool (\<not> ib_enabled f))])))"

definition save_inbound_edit :: "nat option \<Rightarrow> string \<Rightarrow> json \<Rightarrow> edit" where
  "save_inbound_edit index base entry c =
     (let rows = inbound_rules c in
      case index of
        None \<Rightarrow> Inr (True, put_inbound c (rows @ [entry]))
      | Some i \<Rightarrow>
          (case find_config_row (Some rows) (int i) base stringify ''inbound rule'' of
             Inl e \<Rightarrow> Inl e
           | Inr j \<Rightarrow> Inr (True, put_inbound c (rows[j := entry]))))"

section \<open>Switching and removing\<close>

definition patch_inbound_disabled :: "int \<Rightarrow> string \<Rightarrow> bool \<Rightarrow> edit" where
  "patch_inbound_disabled index identity off c =
     (case find_config_row (inbound_or_none c) index identity inbound_rule_identity ''inbound rule'' of
        Inl e \<Rightarrow> Inl e
      | Inr i \<Rightarrow> Inr (True, put_inbound c ((inbound_rules c)[i := set_row_disabled off (inbound_rules c ! i)])))"

definition NEEDS_PORT :: string where
  "NEEDS_PORT = ''Add a destination port in Edit before enabling this rule.''"

text \<open>
  A click on a rule's switch: a message under the row, or the edit to save, and the edit of its Undo;
  nothing if the config at hand has no such row.
\<close>

definition switch_inbound :: "json \<Rightarrow> nat \<Rightarrow> bool \<Rightarrow> string + (edit \<times> edit) option" where
  "switch_inbound lastConfig idx wantEnabled =
     (if wantEnabled \<and> (case rule_at lastConfig idx of None \<Rightarrow> True | Some r \<Rightarrow> trim (str_or_empty (member_json r ''dport'')) = [])
      then Inl NEEDS_PORT
      else Inr (case rule_at lastConfig idx of
          None \<Rightarrow> None
        | Some r \<Rightarrow> Some (patch_inbound_disabled (int idx) (inbound_rule_identity r) (\<not> wantEnabled),
            patch_inbound_disabled (int idx) (inbound_rule_identity r) wantEnabled)))"

definition remove_inbound_rule :: "int \<Rightarrow> string \<Rightarrow> json \<Rightarrow> string + json \<times> json \<times> nat" where
  "remove_inbound_rule index identity c =
     (case find_config_row (inbound_or_none c) index identity inbound_rule_identity ''inbound rule'' of
        Inl e \<Rightarrow> Inl e
      | Inr i \<Rightarrow> Inr (put_inbound c (take i (inbound_rules c) @ drop (Suc i) (inbound_rules c)), inbound_rules c ! i, i))"

definition undo_remove_inbound :: "json \<Rightarrow> nat \<Rightarrow> edit" where
  "undo_remove_inbound removed removedAt c =
     (let rows = inbound_rules c in
      if list_ex (\<lambda>r. stringify r = stringify removed) rows then Inr (False, put_inbound c rows)
      else (let k = min removedAt (length rows) in Inr (True, put_inbound c (take k rows @ removed # drop k rows))))"

definition removed_inbound_label :: "json \<Rightarrow> string" where
  "removed_inbound_label removed =
     (let proto = inbound_proto removed; note' = trim (str_or_empty (member_json removed ''note''));
          ports = dport_display (str_or_empty (member_json removed ''dport'')) in
      (if proto = [] then mdash else proto) @ '' '' @ (if ports = [] then mdash else ports) @
      (if note' = [] then [] else '' ('' @ note' @ '')''))"

section \<open>The table\<close>

definition inbound_columns :: "(string \<times> (json \<Rightarrow> sort_key)) list" where
  "inbound_columns =
     [(''proto'', \<lambda>r. KText (inbound_proto r)),
      (''ports'', \<lambda>r. KText (dport_display (str_or_empty (member_json r ''dport'')))),
      (''note'', \<lambda>r. text_sort_key (member_json r ''note'')),
      (''enabled'', \<lambda>r. if truthy (member_json r ''disabled'') then KNum 0 else KNum 1)]"

definition inbound_row_html :: "row_errors \<Rightarrow> json \<times> nat \<Rightarrow> string" where
  "inbound_row_html errs row = (case row of (r, i) \<Rightarrow>
     (let ports = dport_display (str_or_empty (member_json r ''dport'')); note' = str_or_empty (member_json r ''note'');
          off = truthy (member_json r ''disabled'');
          aria = ''Enabled: INPUT '' @ inbound_proto r @ '' '' @ (if ports \<noteq> [] then ports else if note' \<noteq> [] then note' else ''#'' @ show_nat i) in
      ''<tr data-row=\"'' @ show_nat i @ ''\" tabindex=\"-1\"'' @ (if off then '' class=\"is-row-disabled\"'' else []) @
      ''><td class=\"mono\">'' @ escape_html (inbound_proto r) @ ''</td><td class=\"mono\">'' @ escape_html ports @ ''</td><td>'' @
      escape_html (if note' \<noteq> [] then note' else mdash) @ ''</td>'' @ table_disabled_toggle_cell ''data-inbound-disabled'' i off aria @
      ''<td class=\"row-actions\"><button type=\"button\" class=\"evu-btn evu-btn--outline evu-btn--sm\" data-inbound-edit=\"'' @ show_nat i @
      ''\">Edit</button> <button type=\"button\" class=\"evu-btn evu-btn--outline evu-btn--sm\" data-inbound-del=\"'' @ show_nat i @
      ''\">Remove</button></td></tr>'' @ row_error_html errs ''data-inbound-disabled'' i 5))"

definition inbound_rows_html :: "string comparing \<Rightarrow> (rat \<Rightarrow> string) \<Rightarrow> sorts \<Rightarrow> row_errors \<Rightarrow> json \<Rightarrow> string list" where
  "inbound_rows_html coll str sorts errs cfg =
     map (inbound_row_html errs) (sorted_rows coll str sorts ''inbound'' (inbound_rules cfg) inbound_columns)"

definition NO_INBOUND_RULES :: string where
  "NO_INBOUND_RULES = ''<div class=\"evu-empty\"><p class=\"evu-empty__title\">No inbound rules yet</p><p>Add a rule to open a port on the host itself, outside the tunnel.</p><button type=\"button\" class=\"evu-btn evu-btn--primary\" id=\"inbound-empty-add\">Add rule</button></div>''"

definition inbound_table_html :: "string comparing \<Rightarrow> (rat \<Rightarrow> string) \<Rightarrow> sorts \<Rightarrow> row_errors \<Rightarrow> json \<Rightarrow> string" where
  "inbound_table_html coll str sorts errs cfg =
     (if inbound_rules cfg = [] then NO_INBOUND_RULES
      else ''<table class=\"data\"><thead><tr>'' @
        concat (map (\<lambda>(col, label). sort_header_html sorts ''inbound'' col label)
          [(''proto'', ''Proto''), (''ports'', ''Port(s)''), (''note'', ''Note''), (''enabled'', ''Enabled'')]) @
        ''<th scope=\"col\"><span class=\"evu-sr-only\">Actions</span></th></tr></thead><tbody>'' @
        concat (inbound_rows_html coll str sorts errs cfg) @ ''</tbody></table>'')"

section \<open>The list of rules as an editable list\<close>

lemma put_inbound_read [simp]:
  "inbound_or_none (put_inbound c rs) = Some rs" "inbound_rules (put_inbound c rs) = rs"
  by (simp_all add: inbound_or_none_def inbound_rules_def put_inbound_def list_of_def rows_or_none_def)

interpretation inbound: editable_rows inbound_or_none put_inbound inbound_rules put_inbound
proof
  fix c rs xs ys
  assume c: "inbound_or_none c = Some rs"
  then show "put_inbound c rs = c"
    by (cases c) (auto simp: inbound_or_none_def put_inbound_def list_of_def with_key_def put_key_same split: option.splits json.splits)
  show "inbound_rules c = rs" using c by (simp add: inbound_or_none_def inbound_rules_def rows_or_none_def)
  show "put_inbound (put_inbound c xs) ys = put_inbound c ys"
    by (cases c) (simp_all add: put_inbound_def with_key_def put_key_twice)
qed simp_all

section \<open>Removing and its Undo\<close>

definition toy_rule :: json where
  "toy_rule = JObj [(''proto'', JStr ''tcp''), (''dport'', JStr ''22''), (''disabled'', JBool False)]"

definition toy_inbound :: json where
  "toy_inbound = JObj [(''input_allows'', JArr [toy_rule])]"

lemma toy_inbound_rules: "inbound_rules toy_inbound = [toy_rule]" "inbound_or_none toy_inbound = Some [toy_rule]"
  by (simp_all add: toy_inbound_def inbound_rules_def inbound_or_none_def rows_or_none_def list_of_def)

text \<open>
  Removing an inbound rule takes out one rule with the identity asked for and nothing else, and
  Undo puts the config back exactly, unless the very same rule is in it a second time.
\<close>

theorem removed_inbound_rule_is_restored:
  assumes "remove_inbound_rule index identity c = Inr (c1, removed, i)"
  shows "inbound_rule_identity removed = identity \<and> i < length (inbound_rules c) \<and> inbound_rules c ! i = removed \<and>
    inbound_rules c1 = take i (inbound_rules c) @ drop (Suc i) (inbound_rules c) \<and>
    undo_remove_inbound removed i c1 = (if removed \<in> set (inbound_rules c1) then Inr (False, c1) else Inr (True, c))"
proof -
  have f: "find_config_row (inbound_or_none c) index identity inbound_rule_identity ''inbound rule'' = Inr i"
    and c1: "c1 = put_inbound c (take i (inbound_rules c) @ drop (Suc i) (inbound_rules c))" "removed = inbound_rules c ! i"
    using assms by (auto simp: remove_inbound_rule_def split: sum.splits)
  obtain rows where rows: "inbound_or_none c = Some rows" "i < length rows" "inbound_rule_identity (rows ! i) = identity"
    using inbound.found [OF f] .
  have rs: "inbound_rules c = rows" by (rule inbound.made_existing [OF rows(1)])
  note undone = inbound.restored [OF rows(1,2) refl]
  have "list_ex (\<lambda>r. stringify r = stringify removed) xs \<longleftrightarrow> removed \<in> set xs" for xs by (auto simp: list_ex_iff)
  with rows c1 rs undone show ?thesis by (simp add: undo_remove_inbound_def Let_def)
qed

lemma removed_inbound_rule_is_restored_witness:
  "\<exists>c1. remove_inbound_rule 0 (inbound_rule_identity toy_rule) toy_inbound = Inr (c1, toy_rule, 0) \<and>
     undo_remove_inbound toy_rule 0 c1 = Inr (True, toy_inbound)"
proof -
  have "find_config_row (Some [toy_rule]) 0 (inbound_rule_identity toy_rule) inbound_rule_identity ''inbound rule'' = Inr 0"
    using find_config_row_hit [of 0 "[toy_rule]" inbound_rule_identity] by (simp add: toy_rule_def)
  then have r: "remove_inbound_rule 0 (inbound_rule_identity toy_rule) toy_inbound = Inr (put_inbound toy_inbound [], toy_rule, 0)"
    by (simp add: remove_inbound_rule_def toy_inbound_rules)
  from removed_inbound_rule_is_restored [OF r] r show ?thesis by simp
qed

section \<open>A rule that is opened and saved\<close>

text \<open>A rule as the API writes it: a protocol, a trimmed port unless it is switched off, perhaps a note.\<close>

definition plain_rule :: "json \<Rightarrow> bool" where
  "plain_rule r \<longleftrightarrow> (\<forall>k. k \<notin> {''proto'', ''dport'', ''note'', ''disabled''} \<longrightarrow> member_json r k = None) \<and>
     member_json r ''proto'' \<in> {Some (JStr ''tcp''), Some (JStr ''udp'')} \<and>
     (\<forall>k \<in> {''dport'', ''note''}. member_json r k = None \<or> (\<exists>t. member_json r k = Some (JStr t) \<and> t \<noteq> [] \<and> trim t = t)) \<and>
     (truthy (member_json r ''disabled'') \<or> member_json r ''dport'' \<noteq> None)"

lemma plain_text_member:
  "m = None \<or> (\<exists>t. m = Some (JStr t) \<and> t \<noteq> [] \<and> trim t = t) \<Longrightarrow>
     trim (str_or_empty m) = str_or_empty m \<and> m = (if str_or_empty m = [] then None else Some (JStr (str_or_empty m)))"
  by auto

lemma lower_protos: "lower ''tcp'' = ''tcp''" "lower ''udp'' = ''udp''"
  by code_simp+

text \<open>
  Opening an inbound rule and saving it as it is writes the same rule: every member is kept, and
  it stays switched on or off.
\<close>

theorem untouched_rule_is_saved_as_it_was:
  assumes "rule_at (with_inbound cfg) i = Some r" "plain_rule r" "snd (open_inbound_editor cfg (Some i) f) = Some f'"
  shows "ib_index f' = Some i \<and> ib_base f' = stringify r \<and>
    (\<exists>entry. inbound_entry f' = Inr entry \<and>
      (\<forall>k. k \<noteq> ''disabled'' \<longrightarrow> member_json entry k = member_json r k) \<and>
      truthy (member_json entry ''disabled'') = truthy (member_json r ''disabled''))"
proof -
  have f': "f' = edit_inbound_form i r f" using assms(1,3) by (auto simp: open_inbound_editor_def Let_def split: if_splits)
  obtain p where p: "member_json r ''proto'' = Some (JStr p)" "p = ''tcp'' \<or> p = ''udp''" using assms(2) by (auto simp: plain_rule_def)
  have low: "lower p = p" "p \<noteq> []" using p(2) lower_protos by auto
  define d where "d = str_or_empty (member_json r ''dport'')"
  define n where "n = str_or_empty (member_json r ''note'')"
  have texts: "member_json r ''dport'' = None \<or> (\<exists>t. member_json r ''dport'' = Some (JStr t) \<and> t \<noteq> [] \<and> trim t = t)"
    "member_json r ''note'' = None \<or> (\<exists>t. member_json r ''note'' = Some (JStr t) \<and> t \<noteq> [] \<and> trim t = t)"
    using assms(2) unfolding plain_rule_def by blast+
  note d = plain_text_member [OF texts(1), folded d_def] and n = plain_text_member [OF texts(2), folded n_def]
  have port: "truthy (member_json r ''disabled'') \<or> d \<noteq> []" using assms(2) d unfolding plain_rule_def by metis
  have others: "k \<notin> {''proto'', ''dport'', ''note'', ''disabled''} \<Longrightarrow> member_json r k = None" for k
    using assms(2) by (simp add: plain_rule_def)
  have form: "ib_proto f' = p" "ib_dport f' = d" "ib_note f' = n" "ib_enabled f' = (\<not> truthy (member_json r ''disabled''))"
    using p low by (auto simp: f' edit_inbound_form_def Let_def truthy_def d_def n_def)
  define entry where "entry = JObj ([(''proto'', JStr p)] @ (if d = [] then [] else [(''dport'', JStr d)]) @
        (if n = [] then [] else [(''note'', JStr n)]) @ [(''disabled'', JBool (truthy (member_json r ''disabled'')))])"
  have "inbound_entry f' = Inr entry" using p(2) low port conjunct1 [OF d] conjunct1 [OF n] by (auto simp: inbound_entry_def form entry_def Let_def)
  moreover have "member_json entry k = member_json r k" if "k \<noteq> ''disabled''" for k
    using that others [of k] conjunct2 [OF d] conjunct2 [OF n] p(1) by (cases "k \<in> {''proto'', ''dport'', ''note''}") (auto simp: entry_def)
  moreover have "truthy (member_json entry ''disabled'') = truthy (member_json r ''disabled'')" by (auto simp: entry_def truthy_def)
  ultimately show ?thesis by (simp add: f' edit_inbound_form_def Let_def)
qed

lemma untouched_rule_is_saved_as_it_was_witness:
  "\<exists>f'. snd (open_inbound_editor toy_inbound (Some 0) \<lparr>ib_index = None, ib_base = [], ib_proto = [], ib_dport = [], ib_note = [], ib_enabled = False\<rparr>) = Some f' \<and>
     (\<exists>entry. inbound_entry f' = Inr entry \<and> member_json entry ''dport'' = Some (JStr ''22''))"
proof -
  have made: "with_inbound toy_inbound = toy_inbound" by (simp add: with_inbound_def toy_inbound_def truthy_def)
  have r: "rule_at (with_inbound toy_inbound) 0 = Some toy_rule" by (simp add: rule_at_def toy_inbound_rules made)
  have t: "truthy (Some toy_rule)" by (simp add: truthy_def toy_rule_def)
  have pl: "plain_rule toy_rule"
    by (auto simp: plain_rule_def toy_rule_def trim_def trim_start_def is_ws_def truthy_def)
  obtain f' where f': "snd (open_inbound_editor toy_inbound (Some 0)
      \<lparr>ib_index = None, ib_base = [], ib_proto = [], ib_dport = [], ib_note = [], ib_enabled = False\<rparr>) = Some f'"
    using r t by (simp add: open_inbound_editor_def Let_def)
  obtain entry where "inbound_entry f' = Inr entry" "\<forall>k. k \<noteq> ''disabled'' \<longrightarrow> member_json entry k = member_json toy_rule k"
    using untouched_rule_is_saved_as_it_was [OF r pl f'] by blast
  then show ?thesis using f' by (auto simp: toy_rule_def)
qed

section \<open>Rules that are on have a port\<close>

definition has_port :: "json \<Rightarrow> bool" where
  "has_port r \<longleftrightarrow> trim (str_or_empty (member_json r ''dport'')) \<noteq> []"

definition ports_ok :: "json \<Rightarrow> bool" where
  "ports_ok c \<longleftrightarrow> (\<forall>r \<in> set (inbound_rules c). truthy (member_json r ''disabled'') \<or> has_port r)"

text \<open>No NUL in a protocol or a port: what the identity of a rule is put together with.\<close>

definition no_nul :: "json \<Rightarrow> bool" where
  "no_nul r \<longleftrightarrow> CHR 0x00 \<notin> set (inbound_proto r) \<and> CHR 0x00 \<notin> set (str_or_empty (member_json r ''dport''))"

lemma split_at_mark: "x \<notin> set a \<Longrightarrow> x \<notin> set b \<Longrightarrow> a @ x # s = b @ x # t \<longleftrightarrow> a = b \<and> s = t"
  by (induction a arbitrary: b; case_tac b) auto

lemma same_identity_same_port:
  "no_nul r \<Longrightarrow> no_nul r' \<Longrightarrow> inbound_rule_identity r = inbound_rule_identity r' \<Longrightarrow> has_port r = has_port r'"
  by (simp add: no_nul_def inbound_rule_identity_def split_at_mark has_port_def)

text \<open>
  The edits that the page saves, each with the config at hand when it was made: the editor's, a switch's
  and the Undo of one that had switched off a rule that was on, a removal's and its Undo.
\<close>

inductive inbound_page_edit :: "json \<Rightarrow> edit \<Rightarrow> bool" where
  saved: "inbound_entry f = Inr entry \<Longrightarrow> inbound_page_edit lc (save_inbound_edit (ib_index f) (ib_base f) entry)"
| switched: "switch_inbound lc i on = Inr (Some (e, undo)) \<Longrightarrow> inbound_page_edit lc e"
| switched_back: "switch_inbound lc i on = Inr (Some (e, undo)) \<Longrightarrow> on \<or> rule_at lc i = Some r \<and> \<not> truthy (member_json r ''disabled'') \<Longrightarrow>
    inbound_page_edit lc undo"
| removed_rule: "inbound_page_edit lc (\<lambda>c. case remove_inbound_rule index identity c of Inl e \<Rightarrow> Inl e | Inr (c', _, _) \<Rightarrow> Inr (True, c'))"
| put_back: "removed \<in> set (inbound_rules lc) \<Longrightarrow> inbound_page_edit lc (undo_remove_inbound removed i)"

lemma identity_kept: "inbound_rule_identity (set_row_disabled b r) = inbound_rule_identity r" "has_port (set_row_disabled b r) = has_port r"
  by (simp_all add: inbound_rule_identity_def inbound_proto_def has_port_def)

lemma patch_keeps_ports:
  assumes "ports_ok c" "\<forall>r \<in> set (inbound_rules c). no_nul r" "patch_inbound_disabled index (inbound_rule_identity old) off c = Inr (ch, c')"
    and "no_nul old" "off \<or> has_port old"
  shows "ports_ok c'"
proof -
  obtain i where f: "find_config_row (inbound_or_none c) index (inbound_rule_identity old) inbound_rule_identity ''inbound rule'' = Inr i"
    and c': "c' = put_inbound c ((inbound_rules c)[i := set_row_disabled off (inbound_rules c ! i)])"
    using assms(3) by (auto simp: patch_inbound_disabled_def split: sum.splits)
  obtain rows where rows: "inbound_or_none c = Some rows" "i < length rows" "inbound_rule_identity (rows ! i) = inbound_rule_identity old"
    using inbound.found [OF f] .
  have rs: "inbound_rules c = rows" by (rule inbound.made_existing [OF rows(1)])
  have "has_port (rows ! i) = has_port old"
    using assms(2,4) rows rs by (intro same_identity_same_port) auto
  then have "truthy (member_json (set_row_disabled off (rows ! i)) ''disabled'') \<or> has_port (set_row_disabled off (rows ! i))"
    using assms(5) by (auto simp: identity_kept truthy_def)
  then show ?thesis
    using assms(1) set_update_subset_insert [of rows i "set_row_disabled off (rows ! i)"]
    by (auto simp: c' ports_ok_def rs)
qed

lemma entry_has_port: "inbound_entry f = Inr entry \<Longrightarrow> truthy (member_json entry ''disabled'') \<or> has_port entry"
  by (auto simp: inbound_entry_def Let_def has_port_def truthy_def split: if_splits)

lemma switch_inbound_edits:
  assumes "switch_inbound lc i on = Inr (Some (e, u))"
  obtains r where "rule_at lc i = Some r" "on \<longrightarrow> has_port r" "e = patch_inbound_disabled (int i) (inbound_rule_identity r) (\<not> on)"
    "u = patch_inbound_disabled (int i) (inbound_rule_identity r) on"
proof (cases "rule_at lc i")
  case None
  with assms show ?thesis by (cases on) (simp_all add: switch_inbound_def)
next
  case (Some r)
  with assms have "on \<longrightarrow> has_port r" by (auto simp: switch_inbound_def has_port_def)
  with Some assms that show ?thesis by (cases on) (simp_all add: switch_inbound_def has_port_def)
qed



end
