(* ===== verification/Geoblocking.thy ===== *)
theory Geoblocking
  imports Config_Rows Table_Cells
begin

text \<open>
  \<open>pages/geoblocking.js\<close>: the form for the country list and the global limits, from a config and back;
  the switches that save on their own; the country picker; the zone table and the IP check's answer.

  The form's controls exist, as they do in the page. Two snapshots of the form are compared as the
  code compares their JSON: as records of the same members.
\<close>

section \<open>The config's part\<close>

definition geo_of :: "json \<Rightarrow> json" where
  "geo_of c = (if truthy (member_json c ''geo'') then the (member_json c ''geo'') else JObj [])"

definition without_keys :: "string list \<Rightarrow> json \<Rightarrow> json" where
  "without_keys ks v = (case v of JObj kvs \<Rightarrow> JObj (filter (\<lambda>(k, _). k \<notin> set ks) kvs) | _ \<Rightarrow> JObj [])"

text \<open>\<open>v || []\<close> and \<open>v || {}\<close>.\<close>

definition or_json :: "jsval \<Rightarrow> json \<Rightarrow> json" where
  "or_json v d = (if truthy v then the v else d)"

text \<open>What the form overwrites; everything else of a config merges.\<close>

definition geo_form_owned :: "json \<Rightarrow> json" where
  "geo_form_owned c =
     (let fwd = forwarding_of c in
      JArr [without_keys [''enabled'', ''apply_to_input_allows''] (geo_of c),
        or_json (member_json fwd ''source_deny_cidrs'') (JArr []), or_json (member_json fwd ''rate_limit'') (JObj [])])"

section \<open>The form\<close>

record geo_form =
  g_allow :: bool
  g_codes :: "string list"
  g_set_name :: string
  g_zone_dir :: string
  g_break_glass :: string
  g_global_deny :: string
  g_rates :: inputs

record geo_snapshot =
  sn_allow :: bool
  sn_countries :: "string list"
  sn_set_name :: string
  sn_zone_dir :: string
  sn_break_glass :: "string list"
  sn_global_deny :: "string list"
  sn_rates :: "int \<times> int \<times> int"

definition rates_for_compare :: "rate_limit option \<Rightarrow> int \<times> int \<times> int" where
  "rates_for_compare rl = (case rl of None \<Rightarrow> (0, 0, 0)
     | Some r \<Rightarrow> (tcp_syn_per_second r, max_conn_per_ip r, udp_per_second r))"

text \<open>\<open>String(c).trim().toLowerCase()\<close> of each item, empty ones left out, in order.\<close>

definition lower_items :: "string list \<Rightarrow> string list" where
  "lower_items xs = sort (nonempty (map (\<lambda>c. lower (trim c)) xs))"

definition geo_form_snapshot :: "geo_form \<Rightarrow> geo_snapshot" where
  "geo_form_snapshot f =
     \<lparr>sn_allow = g_allow f, sn_countries = lower_items (g_codes f), sn_set_name = trim (g_set_name f), sn_zone_dir = trim (g_zone_dir f),
      sn_break_glass = sort (map lower (parse_source_allow_list_input (g_break_glass f))),
      sn_global_deny = sort (map lower (parse_source_allow_list_input (g_global_deny f))),
      sn_rates = rates_for_compare (read_rate_limit_from_form ''geo'' (g_rates f))\<rparr>"

definition allow_mode :: "json \<Rightarrow> bool" where
  "allow_mode g = (lower (if truthy (member_json g ''mode'') then str_or_empty (member_json g ''mode'') else ''allow'') \<noteq> ''block'')"

definition string_items :: "jsval \<Rightarrow> string list" where
  "string_items v = map js_string (rows_or_none v)"

definition geo_config_snapshot :: "json \<Rightarrow> geo_snapshot" where
  "geo_config_snapshot c =
     (let g = geo_of c; fwd = forwarding_of c in
      \<lparr>sn_allow = allow_mode g, sn_countries = lower_items (string_items (member_json g ''countries'')),
       sn_set_name = trim (str_or_empty (member_json g ''set_name'')), sn_zone_dir = trim (str_or_empty (member_json g ''zone_dir'')),
       sn_break_glass = lower_items (string_items (member_json g ''break_glass_cidrs'')),
       sn_global_deny = lower_items (string_items (member_json fwd ''source_deny_cidrs'')),
       sn_rates = rates_for_compare (rate_limit_of (member_json fwd ''rate_limit''))\<rparr>)"

definition geo_form_from_config :: "json \<Rightarrow> geo_form \<Rightarrow> geo_form" where
  "geo_form_from_config c f =
     (let g = geo_of c; fwd = forwarding_of c in
      \<lparr>g_allow = allow_mode g,
       g_codes = nonempty (map (\<lambda>x. lower (trim x)) (string_items (member_json g ''countries''))),
       g_set_name = str_or_empty (member_json g ''set_name''), g_zone_dir = str_or_empty (member_json g ''zone_dir''),
       g_break_glass = comma_list (member_json g ''break_glass_cidrs''),
       g_global_deny = comma_list (member_json fwd ''source_deny_cidrs''),
       g_rates = write_rate_limit_fields ''geo'' (rate_limit_of (member_json fwd ''rate_limit'')) (g_rates f)\<rparr>)"

definition apply_geo_form :: "geo_form \<Rightarrow> json \<Rightarrow> json" where
  "apply_geo_form f c =
     (let texts = (\<lambda>xs. JArr (map JStr xs));
          g = with_key (with_key (with_key (with_key (with_key (geo_of c) ''mode'' (JStr (if g_allow f then ''allow'' else ''block'')))
                ''countries'' (texts (map lower (g_codes f)))) ''set_name'' (JStr (trim (g_set_name f))))
                ''zone_dir'' (JStr (trim (g_zone_dir f)))) ''break_glass_cidrs'' (texts (parse_source_allow_list_input (g_break_glass f)));
          fwd = with_key (forwarding_of c) ''source_deny_cidrs'' (texts (parse_source_allow_list_input (g_global_deny f)));
          fwd' = (case read_rate_limit_from_form ''geo'' (g_rates f) of
              Some rl \<Rightarrow> with_key fwd ''rate_limit'' (rate_limit_json rl)
            | None \<Rightarrow> without_keys [''rate_limit''] fwd) in
      with_key (with_key c ''geo'' g) ''forwarding'' fwd')"

section \<open>Dirty, Save and Discard\<close>

text \<open>What the form is compared and merged against: the owned part and the snapshot of a config.\<close>

record geo_tab =
  geo_form_of :: geo_form
  geo_loaded :: bool
  geo_base :: json
  geo_loaded_snapshot :: geo_snapshot

definition set_geo_baseline :: "json \<Rightarrow> geo_tab \<Rightarrow> geo_tab" where
  "set_geo_baseline c t = t\<lparr>geo_base := geo_form_owned c, geo_loaded_snapshot := geo_config_snapshot c\<rparr>"

definition load_geo_form :: "json \<Rightarrow> geo_tab \<Rightarrow> geo_tab" where
  "load_geo_form c t = (set_geo_baseline c t)\<lparr>geo_form_of := geo_form_from_config c (geo_form_of t), geo_loaded := True\<rparr>"

definition is_geo_form_dirty :: "geo_tab \<Rightarrow> bool" where
  "is_geo_form_dirty t \<longleftrightarrow> geo_loaded t \<and> geo_form_snapshot (geo_form_of t) \<noteq> geo_loaded_snapshot t"

definition GEO_CHANGED_ELSEWHERE :: string where
  "GEO_CHANGED_ELSEWHERE = ''Geoblocking settings were changed elsewhere, so your changes were not saved. Your values are still in the form: Save again to overwrite the other change, or Refresh to load it.''"

text \<open>
  The edit of Save, with the fields read when it runs, and what is then the base: a conflict takes
  what is there as the new base.
\<close>

definition save_geo_edit :: "geo_tab \<Rightarrow> edit" where
  "save_geo_edit t c = (if geo_form_owned c \<noteq> geo_base t then Inl GEO_CHANGED_ELSEWHERE else Inr (True, apply_geo_form (geo_form_of t) c))"

definition geo_base_after :: "geo_tab \<Rightarrow> json \<Rightarrow> geo_tab" where
  "geo_base_after t c = (if geo_form_owned c \<noteq> geo_base t then t\<lparr>geo_base := geo_form_owned c\<rparr> else t)"

text \<open>A save that succeeded, given the snapshot that was sent: edits made since stay.\<close>

definition geo_saved :: "geo_snapshot \<Rightarrow> json \<Rightarrow> geo_tab \<Rightarrow> geo_tab" where
  "geo_saved sent c t = (if geo_form_snapshot (geo_form_of t) = sent then load_geo_form c t else set_geo_baseline c t)"

section \<open>Switches\<close>

record geo_switch =
  switch_name :: string
  switch_read :: "json \<Rightarrow> bool"
  switch_write :: "bool \<Rightarrow> json \<Rightarrow> json"

definition write_geo_flag :: "string \<Rightarrow> bool \<Rightarrow> json \<Rightarrow> json" where
  "write_geo_flag k on c = with_key c ''geo'' (with_key (geo_of c) k (JBool on))"

definition crowdsec_of :: "json \<Rightarrow> json" where
  "crowdsec_of c = or_json (member_json c ''crowdsec'') (JObj [])"

definition GEO_SWITCHES :: "geo_switch list" where
  "GEO_SWITCHES =
     [\<lparr>switch_name = ''Geoblocking'', switch_read = (\<lambda>c. truthy (member_json (geo_of c) ''enabled'')), switch_write = write_geo_flag ''enabled''\<rparr>,
      \<lparr>switch_name = ''Geoblocking on inbound allow rules'', switch_read = (\<lambda>c. truthy (member_json (geo_of c) ''apply_to_input_allows'')),
       switch_write = write_geo_flag ''apply_to_input_allows''\<rparr>,
      \<lparr>switch_name = ''CrowdSec integration'', switch_read = (\<lambda>c. truthy (member_json (crowdsec_of c) ''enabled'')),
       switch_write = (\<lambda>on c. if on then with_key c ''crowdsec'' (JObj [(''enabled'', JBool True)]) else without_keys [''crowdsec''] c)\<rparr>]"

text \<open>
  The switches by their place in \<open>GEO_SWITCHES\<close>: what each shows, which have a save in flight, the
  message beside each.
\<close>

record geo_switches =
  shown_on :: "nat \<Rightarrow> bool"
  switch_busy :: "nat set"
  switch_msg :: "nat \<Rightarrow> string"

definition sync_geo_switches :: "json \<Rightarrow> geo_switches \<Rightarrow> geo_switches" where
  "sync_geo_switches c s = s\<lparr>shown_on := \<lambda>i. if i < length GEO_SWITCHES \<and> i \<notin> switch_busy s then switch_read (GEO_SWITCHES ! i) c else shown_on s i\<rparr>"

text \<open>A flip, by hand or by the toast's Undo: the save it starts, if any.\<close>

definition set_geo_switch :: "nat \<Rightarrow> bool \<Rightarrow> geo_switches \<Rightarrow> geo_switches \<times> edit option" where
  "set_geo_switch i on s =
     (if i \<in> switch_busy s \<or> i \<ge> length GEO_SWITCHES then (s, None)
      else (s\<lparr>switch_busy := insert i (switch_busy s), shown_on := (shown_on s)(i := on), switch_msg := (switch_msg s)(i := [])\<rparr>,
            Some (\<lambda>c. Inr (True, switch_write (GEO_SWITCHES ! i) on c))))"

text \<open>
  Its end: the config at hand (which a failed save may have brought up to date too), the tab's form,
  and the toast's text or the message beside the switch.
\<close>

definition geo_switch_saved :: "nat \<Rightarrow> bool \<Rightarrow> json \<Rightarrow> geo_switches \<times> geo_tab \<Rightarrow> (geo_switches \<times> geo_tab) \<times> string" where
  "geo_switch_saved i on lastConfig st =
     (case st of (s, t) \<Rightarrow>
       (let s1 = s\<lparr>switch_busy := switch_busy s - {i}\<rparr>; t1 = (if is_geo_form_dirty t then t else load_geo_form lastConfig t) in
        ((sync_geo_switches lastConfig s1, t1), switch_name (GEO_SWITCHES ! i) @ (if on then '' enabled'' else '' disabled''))))"

definition geo_switch_failed :: "nat \<Rightarrow> bool \<Rightarrow> json option \<Rightarrow> string \<Rightarrow> geo_switches \<Rightarrow> geo_switches" where
  "geo_switch_failed i on lastConfig m s =
     s\<lparr>switch_busy := switch_busy s - {i},
       shown_on := (shown_on s)(i := (case lastConfig of Some c \<Rightarrow> switch_read (GEO_SWITCHES ! i) c | None \<Rightarrow> \<not> on)),
       switch_msg := (switch_msg s)(i := ''Not saved: '' @ m)\<rparr>"

section \<open>Texts through the form\<close>

lemma lower_char_ws: "is_ws (lower_char c) = is_ws c"
  by (auto simp: lower_char_def is_ws_def Let_def)

lemma lower_char_twice: "lower_char (lower_char c) = lower_char c"
  by (auto simp: lower_char_def Let_def)

lemma lower_lower [simp]: "lower (lower s) = lower s"
  by (simp add: lower_def lower_char_twice)

lemma lower_Nil_iff [simp]: "lower s = [] \<longleftrightarrow> s = []"
  by (simp add: lower_def)

lemma dropWhile_lower: "dropWhile is_ws (lower s) = lower (dropWhile is_ws s)"
  by (induction s) (simp_all add: lower_def lower_char_ws)

lemma trim_lower: "trim (lower s) = lower (trim s)"
proof -
  have r: "rev (lower s) = lower (rev s)" for s by (simp add: lower_def rev_map)
  show ?thesis by (simp add: trim_def dropWhile_lower r)
qed

lemma lower_items_lower: "lower_items (map lower xs) = lower_items xs"
  by (simp add: lower_items_def trim_lower comp_def)

lemma lower_items_again: "lower_items (nonempty (map (\<lambda>x. lower (trim x)) xs)) = lower_items xs"
proof -
  have "nonempty (map (\<lambda>c. lower (trim c)) (nonempty (map (\<lambda>x. lower (trim x)) xs))) = nonempty (map (\<lambda>x. lower (trim x)) xs)"
    by (induction xs) (simp_all add: nonempty_def trim_lower)
  then show ?thesis by (simp add: lower_items_def)
qed

lemma parsed_words: "t \<in> set (parse_source_allow_list_input s) \<Longrightarrow> trim t = t \<and> t \<noteq> []"
  by (auto simp: parse_source_allow_list_input_def nonempty_def Let_def split: if_splits)

lemma lower_items_words: "\<forall>t \<in> set xs. trim t = t \<and> t \<noteq> [] \<Longrightarrow> lower_items xs = sort (map lower xs)"
proof -
  assume ok: "\<forall>t \<in> set xs. trim t = t \<and> t \<noteq> []"
  then have m: "map (\<lambda>c. lower (trim c)) xs = map lower xs" by simp
  have "nonempty (map lower xs) = map lower xs" using ok by (auto simp: nonempty_def filter_id_conv)
  then show ?thesis unfolding lower_items_def m by simp
qed

lemma string_items_texts: "string_items (Some (JArr (map JStr xs))) = xs"
  by (simp add: string_items_def rows_or_none_def list_of_def comp_def)

lemma truthy_text: "truthy (Some (JStr s)) \<longleftrightarrow> s \<noteq> []"
  by (simp add: truthy_def)

lemma truthy_with_key [simp]: "truthy (Some (with_key v k x))"
  by (cases v) (simp_all add: with_key_def truthy_def)

lemma geo_of_with_key [simp]: "geo_of (with_key c k v) = (if k = ''geo'' then (if truthy (Some v) then v else JObj []) else geo_of c)"
  by (simp add: geo_of_def)

lemma forwarding_of_with_key [simp]:
  "forwarding_of (with_key c k v) = (if k = ''forwarding'' then (if truthy (Some v) then v else JObj []) else forwarding_of c)"
  by (simp add: forwarding_of_def)

lemma member_without_keys [simp]:
  "member_json (without_keys ks v) k = (if k \<in> set ks then None else member_json v k)"
proof (cases v)
  case (JObj kvs)
  have "map_of (filter (\<lambda>(k, _). k \<notin> set ks) kvs) k = (if k \<in> set ks then None else map_of kvs k)"
    by (induction kvs) auto
  then show ?thesis by (simp add: without_keys_def JObj)
qed (simp_all add: without_keys_def)

lemma truthy_without_keys [simp]: "truthy (Some (without_keys ks v))"
  by (cases v) (simp_all add: without_keys_def truthy_def)

section \<open>What Save writes\<close>

lemma allow_mode_written: "lower ''allow'' \<noteq> ''block''" "lower ''block'' = ''block''"
  by code_simp+

text \<open>
  Saving the geoblocking form writes what the form shows: read back from the config it was written
  into, it is the same form, so that a saved form is not dirty. This holds of any texts in its fields.
\<close>

theorem saved_geo_form_reads_back:
  "geo_config_snapshot (apply_geo_form f c) = geo_form_snapshot f"
proof -
  let ?c = "apply_geo_form f c"
  have rate: "rates_for_compare (rate_limit_of (member_json (forwarding_of ?c) ''rate_limit'')) =
      rates_for_compare (read_rate_limit_from_form ''geo'' (g_rates f))"
  proof (cases "read_rate_limit_from_form ''geo'' (g_rates f)")
    case None
    then show ?thesis by (simp add: apply_geo_form_def Let_def rate_limit_of_def)
  next
    case (Some rl)
    have "truthy (Some (rate_limit_json rl))" by (simp add: truthy_def rate_limit_json_def)
    with Some show ?thesis by (simp add: apply_geo_form_def Let_def rate_limit_read)
  qed
  have deny: "member_json (forwarding_of ?c) ''source_deny_cidrs'' = Some (JArr (map JStr (parse_source_allow_list_input (g_global_deny f))))"
    by (simp add: apply_geo_form_def Let_def split: option.split)
  have geo: "allow_mode (geo_of ?c) = g_allow f"
    "member_json (geo_of ?c) ''countries'' = Some (JArr (map JStr (map lower (g_codes f))))"
    "member_json (geo_of ?c) ''set_name'' = Some (JStr (trim (g_set_name f)))" "member_json (geo_of ?c) ''zone_dir'' = Some (JStr (trim (g_zone_dir f)))"
    "member_json (geo_of ?c) ''break_glass_cidrs'' = Some (JArr (map JStr (parse_source_allow_list_input (g_break_glass f))))"
    by (simp_all add: apply_geo_form_def Let_def allow_mode_def allow_mode_written truthy_text)
  have words: "lower_items (parse_source_allow_list_input x) = sort (map lower (parse_source_allow_list_input x))" for x
    by (rule lower_items_words) (simp add: parsed_words)
  show ?thesis
    unfolding geo_config_snapshot_def geo_form_snapshot_def Let_def rate deny geo string_items_texts words lower_items_lower by simp
qed

text \<open>
  Save replaces the form's own settings and nothing else, and only if they still are what the form was filled from: all other
  members of the config, the two switches' flags and the routes stay as they are in the config the
  save meets. If those settings have moved on, nothing is saved, and a second Save overwrites them.
\<close>

theorem geo_save_keeps_what_it_does_not_own:
  "(case save_geo_edit t c of
      Inr (changed, c') \<Rightarrow> changed \<and> geo_form_owned c = geo_base t \<and>
        (\<forall>k. k \<noteq> ''geo'' \<and> k \<noteq> ''forwarding'' \<longrightarrow> member_json c' k = member_json c k) \<and>
        (\<forall>k \<in> {''enabled'', ''apply_to_input_allows''}. member_json (geo_of c') k = member_json (geo_of c) k) \<and>
        (\<forall>k. k \<noteq> ''source_deny_cidrs'' \<and> k \<noteq> ''rate_limit'' \<longrightarrow> member_json (forwarding_of c') k = member_json (forwarding_of c) k)
    | Inl m \<Rightarrow> m = GEO_CHANGED_ELSEWHERE \<and> geo_form_owned c \<noteq> geo_base t \<and>
        save_geo_edit (geo_base_after t c) c = Inr (True, apply_geo_form (geo_form_of t) c))"
proof (cases "geo_form_owned c = geo_base t")
  case True
  then show ?thesis
    by (cases "read_rate_limit_from_form ''geo'' (g_rates (geo_form_of t))") (simp_all add: save_geo_edit_def apply_geo_form_def Let_def)
next
  case False
  then show ?thesis by (simp add: save_geo_edit_def geo_base_after_def)
qed

section \<open>When the form is dirty\<close>

lemma split_runs_parts: "list_all (list_all (\<lambda>x. \<not> p x)) (split_runs p b s)"
proof (induction s arbitrary: b)
  case (Cons x s)
  from Cons [of False] Cons [of True] show ?case by (cases "split_runs p False s") simp_all
qed simp

lemma parsed_plain: "list_all plain_word (parse_source_allow_list_input s)"
proof -
  have "plain_word t" if t: "t \<in> set (parse_source_allow_list_input s)" for t
  proof -
    let ?sep = "\<lambda>c. is_ws c \<or> c = CHR '',''"
    have "t \<in> trim ` set (split_runs ?sep False (trim s))"
      using t by (simp add: parse_source_allow_list_input_def split_class_def nonempty_def Let_def split: if_splits)
    then obtain u where u: "u \<in> set (split_runs ?sep False (trim s))" "t = trim u" by blast
    then have "list_all (\<lambda>c. \<not> ?sep c) u" using split_runs_parts [of ?sep False "trim s"] unfolding list_all_iff by blast
    then have "list_all (\<lambda>c. \<not> is_ws c \<and> c \<noteq> CHR '','') t" using set_trim [of u] unfolding u(2) list_all_iff by blast
    with parsed_words [OF t] show ?thesis by (simp add: plain_word_def)
  qed
  then show ?thesis by (simp add: list_all_iff)
qed

text \<open>A config whose address lists are as the form can show them, with limits in the form's range.\<close>

definition geo_plain :: "json \<Rightarrow> bool" where
  "geo_plain c \<longleftrightarrow> list_all plain_word (texts_of (member_json (geo_of c) ''break_glass_cidrs'')) \<and>
     list_all plain_word (texts_of (member_json (forwarding_of c) ''source_deny_cidrs'')) \<and>
     (\<forall>rl. rate_limit_of (member_json (forwarding_of c) ''rate_limit'') = Some rl \<longrightarrow> rate_limit_ok rl)"

lemma string_items_plain: "list_all plain_word (texts_of v) \<Longrightarrow> string_items v = texts_of v"
  by (auto simp: string_items_def texts_of_def list_all_iff plain_word_def)

lemma comma_list_parsed: "list_all plain_word (texts_of v) \<Longrightarrow> sort (map lower (parse_source_allow_list_input (comma_list v))) = lower_items (string_items v)"
proof -
  assume ok: "list_all plain_word (texts_of v)"
  have "parse_source_allow_list_input (comma_list v) = texts_of v" unfolding comma_list_def by (rule parse_source_list_join [OF ok])
  moreover have "\<forall>t \<in> set (texts_of v). trim t = t \<and> t \<noteq> []"
    using ok by (auto simp: list_all_iff plain_word_def intro!: trim_all_not_ws)
  ultimately show ?thesis by (simp add: string_items_plain [OF ok] lower_items_words)
qed

lemma loaded_snapshot:
  assumes "geo_plain c" "rate_inputs_exist ''geo'' (g_rates f)"
  shows "geo_form_snapshot (geo_form_from_config c f) = geo_config_snapshot c"
  using assms by (simp add: geo_form_snapshot_def geo_form_from_config_def geo_config_snapshot_def Let_def geo_plain_def
      comma_list_parsed lower_items_again read_write_rate_limit)

lemma loaded_geo_form_is_clean:
  "geo_plain c \<Longrightarrow> rate_inputs_exist ''geo'' (g_rates (geo_form_of t)) \<Longrightarrow> \<not> is_geo_form_dirty (load_geo_form c t)"
  by (simp add: is_geo_form_dirty_def load_geo_form_def set_geo_baseline_def loaded_snapshot)

lemma read_limits_ok:
  assumes "read_rate_limit_from_form pfx f = Some rl"
  shows "rate_limit_ok rl"
  using assms read_field_bounds [of 10000 f] read_field_bounds [of 65535 f] read_field_bounds [of 100000 f]
  by (auto simp: read_rate_limit_from_form_def rate_limit_ok_def Let_def split: if_splits)

lemma saved_config_is_plain: "geo_plain (apply_geo_form f c)"
proof -
  let ?c = "apply_geo_form f c"
  have "member_json (forwarding_of ?c) ''source_deny_cidrs'' = Some (JArr (map JStr (parse_source_allow_list_input (g_global_deny f))))"
    "member_json (geo_of ?c) ''break_glass_cidrs'' = Some (JArr (map JStr (parse_source_allow_list_input (g_break_glass f))))"
    by (simp_all add: apply_geo_form_def Let_def split: option.split)
  moreover have "texts_of (Some (JArr (map JStr xs))) = xs" for xs
    by (simp add: texts_of_def rows_or_none_def list_of_def comp_def)
  moreover have "rate_limit_ok rl" if "rate_limit_of (member_json (forwarding_of ?c) ''rate_limit'') = Some rl" for rl
  proof (cases "read_rate_limit_from_form ''geo'' (g_rates f)")
    case None
    with that show ?thesis by (simp add: apply_geo_form_def Let_def rate_limit_of_def)
  next
    case (Some r)
    with that have "rl = r" by (simp add: apply_geo_form_def Let_def rate_limit_read)
    with read_limits_ok [OF Some] show ?thesis by simp
  qed
  ultimately show ?thesis by (simp add: geo_plain_def parsed_plain)
qed

text \<open>
  After a save the form is dirty exactly if it was edited after it was sent: a form left alone is
  filled again from what was saved and clean, whatever was typed into it, and an edit made while the
  save was under way stays in the fields and still asks to be saved.
\<close>

theorem saved_form_is_dirty_iff_edited_since:
  assumes "geo_loaded t" and "rate_inputs_exist ''geo'' (g_rates (geo_form_of t))"
    and "t' = geo_saved (geo_form_snapshot sent) (apply_geo_form sent c) t"
  shows "(is_geo_form_dirty t' \<longleftrightarrow> geo_form_snapshot (geo_form_of t) \<noteq> geo_form_snapshot sent) \<and>
    geo_form_snapshot (geo_form_of t') = geo_form_snapshot (geo_form_of t) \<and> geo_base t' = geo_form_owned (apply_geo_form sent c)"
  using assms saved_config_is_plain [of sent c]
  by (simp add: geo_saved_def loaded_geo_form_is_clean loaded_snapshot saved_geo_form_reads_back)
    (simp add: is_geo_form_dirty_def load_geo_form_def set_geo_baseline_def loaded_snapshot saved_geo_form_reads_back)

definition toy_geo_form :: geo_form where
  "toy_geo_form = \<lparr>g_allow = True, g_codes = [''SE''], g_set_name = [], g_zone_dir = [], g_break_glass = ''10.0.0.1/32 '', g_global_deny = [],
     g_rates = (\<lambda>_. Some [])\<rparr>"

lemma saved_form_is_dirty_iff_edited_since_witness:
  "\<not> is_geo_form_dirty (geo_saved (geo_form_snapshot toy_geo_form) (apply_geo_form toy_geo_form (JObj []))
     \<lparr>geo_form_of = toy_geo_form, geo_loaded = True, geo_base = JNull, geo_loaded_snapshot = geo_form_snapshot toy_geo_form\<rparr>)"
  using saved_form_is_dirty_iff_edited_since [of "\<lparr>geo_form_of = toy_geo_form, geo_loaded = True, geo_base = JNull,
      geo_loaded_snapshot = geo_form_snapshot toy_geo_form\<rparr>" _ toy_geo_form "JObj []", OF _ _ refl]
  by (simp add: rate_inputs_exist_def toy_geo_form_def)

section \<open>What a switch writes\<close>

lemma without_keys_written: "k \<in> set ks \<Longrightarrow> without_keys ks (with_key v k x) = without_keys ks v"
proof (cases v)
  case (JObj kvs)
  assume k: "k \<in> set ks"
  have "filter (\<lambda>(k, _). k \<notin> set ks) (put_key k x kvs) = filter (\<lambda>(k, _). k \<notin> set ks) kvs"
  proof (induction kvs)
    case (Cons p kvs)
    with k show ?case by (cases p) simp
  qed (use k in simp)
  then show ?thesis by (simp add: without_keys_def with_key_def JObj)
qed (simp_all add: without_keys_def with_key_def)

text \<open>
  A switch writes its own setting and no other: afterwards it reads as it was set, the other switches read
  as before, and so do all settings of the form, so that flipping a switch never makes a Save of the
  form conflict.
\<close>

theorem geo_switch_writes_only_itself:
  assumes "sw \<in> set GEO_SWITCHES"
  shows "switch_read sw (switch_write sw on c) = on \<and>
    list_all (\<lambda>sw'. switch_name sw' = switch_name sw \<or> switch_read sw' (switch_write sw on c) = switch_read sw' c) GEO_SWITCHES \<and>
    geo_form_owned (switch_write sw on c) = geo_form_owned c \<and> isl (save_geo_edit t (switch_write sw on c)) = isl (save_geo_edit t c)"
proof -
  have t: "truthy (Some (JBool b)) = b" "truthy (Some (JObj kvs))" "\<not> truthy None" for b kvs by (simp_all add: truthy_def)
  have geo: "geo_of (without_keys ks c) = geo_of c" "forwarding_of (without_keys ks c) = forwarding_of c"
    if "''geo'' \<notin> set ks" "''forwarding'' \<notin> set ks" for ks
    using that by (simp_all add: geo_of_def forwarding_of_def)
  have same: "geo_form_owned (switch_write sw on c) = geo_form_owned c"
    using assms by (auto simp: GEO_SWITCHES_def write_geo_flag_def geo_form_owned_def without_keys_written geo Let_def)
  have reads: "switch_read sw (switch_write sw on c) = on"
    using assms by (cases on) (auto simp: GEO_SWITCHES_def write_geo_flag_def crowdsec_of_def or_json_def t)
  have others: "list_all (\<lambda>sw'. switch_name sw' = switch_name sw \<or> switch_read sw' (switch_write sw on c) = switch_read sw' c) GEO_SWITCHES"
    using assms by (cases on) (auto simp: GEO_SWITCHES_def write_geo_flag_def crowdsec_of_def geo)
  from same reads others show ?thesis by (simp add: save_geo_edit_def)
qed

lemma geo_switch_writes_only_itself_witness:
  "switch_read (GEO_SWITCHES ! 2) (switch_write (GEO_SWITCHES ! 2) True (JObj []))"
  using geo_switch_writes_only_itself [of "GEO_SWITCHES ! 2" True "JObj []"] by (simp add: GEO_SWITCHES_def)

text \<open>A switch has at most one save in flight, and once it has ended every switch without one shows the config.\<close>

lemma one_switch_save_at_a_time:
  "set_geo_switch i on s = (s1, Some e) \<Longrightarrow> set_geo_switch i on' s1 = (s1, None)"
  by (auto simp: set_geo_switch_def split: if_splits)

lemma switches_show_the_config:
  assumes "geo_switch_saved i on c (s, t) = ((s', t'), m)" "k < length GEO_SWITCHES" "k \<notin> switch_busy s'"
  shows "shown_on s' k = switch_read (GEO_SWITCHES ! k) c"
  using assms by (auto simp: geo_switch_saved_def sync_geo_switches_def Let_def)

end
