(* ===== verification/Geo_Picker.thy ===== *)
theory Geo_Picker
  imports Geoblocking Peers_Table Config_Review
begin

text \<open>
  \<open>pages/geoblocking.js\<close>: the countries by name, the picker and its draft, the table of zone files, and
  what the page makes of the API's answers about an address.

  A text here holds no code point beyond 255, so that the text of a flag, two code points of the
  regional letters, is given by a parameter \<open>emoji\<close>. \<open>coll\<close> is \<open>localeCompare\<close>.
\<close>

section \<open>Countries\<close>

definition is_capital :: "char \<Rightarrow> bool" where
  "is_capital c \<longleftrightarrow> (let n = of_char c :: nat in 65 \<le> n \<and> n \<le> 90)"

definition country_flag_emoji :: "string \<Rightarrow> nat list" where
  "country_flag_emoji code =
     (let c = filter is_capital (upper code) in
      if length c \<noteq> 2 then [] else map (\<lambda>ch. 0x1F1E6 + (of_char ch - 65)) c)"

record country =
  country_code :: string
  country_label :: string

definition country_of :: "json \<Rightarrow> country" where
  "country_of x =
     (let a2 = str_or_empty (member_json x ''alpha-2''); nm = trim (str_or_empty (member_json x ''name'')) in
      \<lparr>country_code = lower (trim a2), country_label = (if nm \<noteq> [] then nm else a2)\<rparr>)"

text \<open>The catalog in order of names, and by code: the last of two rows with one code counts.\<close>

definition load_geo_country_catalog :: "string comparing \<Rightarrow> json list \<Rightarrow> country list \<times> (string \<rightharpoonup> country)" where
  "load_geo_country_catalog coll raw =
     (let catalog = filter (\<lambda>x. length (country_code x) = 2) (map country_of raw) in
      (js_sort (\<lambda>a b. coll (country_label a) (country_label b)) catalog, map_of (rev (map (\<lambda>x. (country_code x, x)) catalog))))"

definition geo_country_name :: "(string \<rightharpoonup> country) \<Rightarrow> string \<Rightarrow> string" where
  "geo_country_name byCode code = (let c = lower code in case byCode c of Some row \<Rightarrow> country_label row | None \<Rightarrow> upper c)"

section \<open>The chips and the picker\<close>

definition geo_tag_html :: "(nat list \<Rightarrow> string) \<Rightarrow> (string \<rightharpoonup> country) \<Rightarrow> string \<Rightarrow> string" where
  "geo_tag_html emoji byCode code =
     (let fl = country_flag_emoji code in
      ''<span class=\"geo-tag-flag\" aria-hidden=\"true\">'' @ escape_html (if fl \<noteq> [] then emoji fl else middot) @ ''</span>'' @
      ''<span class=\"geo-tag-name\">'' @ escape_html (geo_country_name byCode code) @ ''</span>'')"

definition geo_tags :: "string comparing \<Rightarrow> (string \<rightharpoonup> country) \<Rightarrow> string list \<Rightarrow> string list" where
  "geo_tags coll byCode codes = js_sort (\<lambda>a b. coll (geo_country_name byCode a) (geo_country_name byCode b)) codes"

definition remove_geo_tag :: "string \<Rightarrow> string list \<Rightarrow> string list" where
  "remove_geo_tag code codes = filter (\<lambda>c. c \<noteq> code) codes"

text \<open>A \<open>Set\<close> as the list of its elements, in the order they came.\<close>

definition open_geo_country_modal :: "string list \<Rightarrow> string list" where
  "open_geo_country_modal codes = first_occurrences codes"

definition check_country :: "string \<Rightarrow> bool \<Rightarrow> string list \<Rightarrow> string list" where
  "check_country code on draft =
     (if code = [] then draft else if on then (if code \<in> set draft then draft else draft @ [code]) else remove1 code draft)"

definition geo_modal_rows :: "country list \<Rightarrow> string \<Rightarrow> country list" where
  "geo_modal_rows catalog filterRaw =
     (let q = lower (trim filterRaw) in
      filter (\<lambda>row. q = [] \<or> includes_str (lower (country_code row @ '' '' @ country_label row)) q) catalog)"

definition geo_modal_row_html :: "(nat list \<Rightarrow> string) \<Rightarrow> string list \<Rightarrow> country \<Rightarrow> string" where
  "geo_modal_row_html emoji draft row =
     (let fl = country_flag_emoji (country_code row) in
      ''<label class=\"evu-check geo-modal-row\">'' @ ''<input type=\"checkbox\" class=\"evu-checkbox\" data-geo-code=\"'' @
      escape_html (country_code row) @ ''\" '' @ (if country_code row \<in> set draft then ''checked '' else []) @ ''/>'' @
      ''<span class=\"geo-modal-row-flag\" aria-hidden=\"true\">'' @ escape_html (if fl \<noteq> [] then emoji fl else middot) @ ''</span>'' @
      ''<span class=\"geo-modal-row-name\">'' @ escape_html (country_label row) @ ''</span>'' @ ''</label>'')"

definition NO_MATCHES :: string where
  "NO_MATCHES = ''<p class=\"hint meta geo-picker-no-match\">No matches.</p>''"

definition render_geo_modal_list :: "(nat list \<Rightarrow> string) \<Rightarrow> string list \<Rightarrow> country list \<Rightarrow> string \<Rightarrow> string" where
  "render_geo_modal_list emoji draft catalog filterRaw =
     (let rows = map (geo_modal_row_html emoji draft) (geo_modal_rows catalog filterRaw) in
      if rows \<noteq> [] then concat rows else NO_MATCHES)"

definition geo_modal_dirty :: "string list \<Rightarrow> string list \<Rightarrow> bool" where
  "geo_modal_dirty codes draft \<longleftrightarrow>
     length (first_occurrences codes) \<noteq> length draft \<or> list_ex (\<lambda>c. c \<notin> set codes) draft"

section \<open>Zone files\<close>

definition GEO_OFF :: string where
  "GEO_OFF = ''<p class=\"hint meta\">Geoblocking is off in config.</p>''"

definition geo_zone_row_html :: "(nat list \<Rightarrow> string) \<Rightarrow> (string \<rightharpoonup> country) \<Rightarrow> json \<Rightarrow> string" where
  "geo_zone_row_html emoji byCode c =
     (let miss = (if truthy (member_json c ''zone_missing'') then '' <span class=\"meta\">(zone file missing)</span>'' else []);
          codeRaw = trim (str_or_empty (member_json c ''code''));
          fl = country_flag_emoji codeRaw;
          flagHtml = (if fl \<noteq> [] then ''<span class=\"logs-ip-flag\" aria-hidden=\"true\">'' @ emoji fl @ ''</span> '' else []);
          code = upper codeRaw; name = geo_country_name byCode codeRaw;
          codeHtml = (if name = code then [] else '' <span class=\"meta mono\">'' @ escape_html code @ ''</span>'') in
      ''<tr><td class=\"geo-zones-col-country\">'' @ flagHtml @ escape_html name @ codeHtml @ ''</td><td>'' @
      escape_html (string_of (member_json c ''cidr_lines'')) @ ''</td><td>'' @
      escape_html (string_of (member_json c ''approx_ipv4_addresses'')) @ ''</td><td>'' @
      (if truthy (member_json c ''zone_read_error'') then escape_html (str_or_empty (member_json c ''zone_read_error'')) else mdash) @
      miss @ ''</td></tr>'')"

definition geo_zones_foot_html :: "json \<Rightarrow> string" where
  "geo_zones_foot_html s =
     (if is_nullish (member_json s ''nft_set_elem_count'') then []
      else ''<p class=\"hint meta\">Merged <code class=\"inline\">inet</code> set element count: '' @
        escape_html (string_of (member_json s ''nft_set_elem_count'')) @
        (if truthy (member_json s ''nft_set_count_source'') then '' ('' @ escape_html (str_or_empty (member_json s ''nft_set_count_source'')) @ '')'' else []) @
        ''</p>'')"

definition geo_zones_html :: "(nat list \<Rightarrow> string) \<Rightarrow> (string \<rightharpoonup> country) \<Rightarrow> json \<Rightarrow> string" where
  "geo_zones_html emoji byCode s =
     (if \<not> truthy (member_json s ''enabled'') then GEO_OFF
      else ''<table class=\"data\"><thead><tr><th scope=\"col\">Country</th><th scope=\"col\">CIDR lines</th><th scope=\"col\">Approx. IPv4</th><th scope=\"col\">Note</th></tr></thead><tbody>'' @
        concat (map (geo_zone_row_html emoji byCode) (rows_or_none (member_json s ''countries''))) @ ''</tbody></table>'' @ geo_zones_foot_html s)"

section \<open>Addresses\<close>

text \<open>The visitor's own address, added to the break-glass list: the field's new text and the page's message.\<close>

definition geo_add_detected_ip :: "json \<Rightarrow> string \<Rightarrow> string \<times> string \<times> bool" where
  "geo_add_detected_ip info field =
     (let ip = str_or_empty (member_json info ''detected_client_ip'') in
      if ip = [] then (field, ''Could not detect your IPv4 address.'', True)
      else (let cidr = ip @ ''/32''; parts = parse_source_allow_list_input field;
                parts' = (if cidr \<in> set parts then parts else parts @ [cidr]) in
        (join '', '' parts', ''Added '' @ cidr @ '' to break-glass.'', False)))"

definition geo_verdict_tone :: "string \<Rightarrow> string" where
  "geo_verdict_tone v =
     (if v = ''allowed'' then ''evu-alert--success'' else if v = ''blocked'' then ''evu-alert--danger''
      else if v = ''geo_off'' then ''evu-alert--info'' else ''evu-alert--warning'')"

record ip_check_view =
  ipc_hidden :: bool
  ipc_tone :: "string option"
  ipc_summary :: string
  ipc_detail :: string

definition ip_check_bits :: "(string \<rightharpoonup> country) \<Rightarrow> json \<Rightarrow> string list" where
  "ip_check_bits byCode res =
     (let flag = (\<lambda>k t. if truthy (member_json res k) then [t] else []); matched = string_items (member_json res ''matched_countries'') in
      flag ''country_iso'' (''Country: '' @ upper (str_or_empty (member_json res ''country_iso''))) @
      (if matched \<noteq> [] then [''Listed match: '' @ join '', '' (map (\<lambda>c. geo_country_name byCode c @ '' ('' @ upper c @ '')'') matched)] else []) @
      flag ''break_glass'' ''Break-glass'' @ flag ''global_deny'' ''Global denylist'' @
      flag ''checked_from_draft'' ''Using form rules (unsaved edits included)'' @ flag ''note'' (str_or_empty (member_json res ''note'')))"

definition render_geo_ip_check_result :: "(string \<rightharpoonup> country) \<Rightarrow> json \<Rightarrow> ip_check_view" where
  "render_geo_ip_check_result byCode res =
     (let summary = str_or_empty (member_json res ''summary'') in
      \<lparr>ipc_hidden = False, ipc_tone = Some (geo_verdict_tone (string_of (member_json res ''verdict''))),
       ipc_summary = (if summary \<noteq> [] then summary else str_or_empty (member_json res ''verdict'')),
       ipc_detail = join ('' '' @ middot @ '' '') (ip_check_bits byCode res)\<rparr>)"

definition no_ip_check :: "ip_check_view \<Rightarrow> ip_check_view" where
  "no_ip_check v = v\<lparr>ipc_hidden := True, ipc_tone := None\<rparr>"

text \<open>What a click on Check does: a view, a message, or a request with the config that Save would write.\<close>

datatype ip_check = AskForAddress ip_check_view | LoadFirst string | CheckRequest string json

definition run_geo_ip_check :: "string \<Rightarrow> json option \<Rightarrow> geo_form \<Rightarrow> ip_check" where
  "run_geo_ip_check input lastConfig f =
     (let ip = trim input in
      if ip = [] then AskForAddress \<lparr>ipc_hidden = False, ipc_tone = Some ''evu-alert--warning'', ipc_summary = ''Enter a valid IPv4 address.'', ipc_detail = []\<rparr>
      else (case lastConfig of
          None \<Rightarrow> LoadFirst ''Load the page first, then try again.''
        | Some c \<Rightarrow> CheckRequest ip (apply_geo_form f c)))"

section \<open>The picker's draft\<close>

lemma check_country_draft:
  "distinct draft \<Longrightarrow> distinct (check_country code on draft)"
  "distinct draft \<Longrightarrow> set (check_country code on draft) = (if code = [] then set draft else if on then insert code (set draft) else set draft - {code})"
  by (auto simp: check_country_def)

text \<open>
  However its boxes were checked, the picker asks before it is dismissed exactly if its draft is another set of
  countries than the one selected.
\<close>

lemma geo_modal_dirty_iff:
  assumes "distinct draft"
  shows "geo_modal_dirty codes draft \<longleftrightarrow> set draft \<noteq> set codes"
proof -
  have len: "length (first_occurrences codes) = card (set codes)" by (simp add: first_occurrences_def length_remdups_card_conv)
  have "list_ex (\<lambda>c. c \<notin> set codes) draft \<longleftrightarrow> \<not> set draft \<subseteq> set codes" by (auto simp: list_ex_iff)
  moreover have "length draft = card (set draft)" using distinct_card [OF assms] by simp
  moreover have "set draft = set codes" if "set draft \<subseteq> set codes" "card (set codes) = card (set draft)"
    using card_subset_eq [of "set codes" "set draft"] that by simp
  ultimately show ?thesis by (auto simp: geo_modal_dirty_def len)
qed

lemma opened_picker_is_clean: "\<not> geo_modal_dirty codes (open_geo_country_modal codes)"
  using geo_modal_dirty_iff [of "open_geo_country_modal codes" codes] by (simp add: open_geo_country_modal_def first_occurrences_def)

text \<open>The same address is added once, however often it is asked for.\<close>

lemma detected_ip_added_once:
  assumes "plain_word (str_or_empty (member_json info ''detected_client_ip''))"
  shows "fst (geo_add_detected_ip info (fst (geo_add_detected_ip info field))) = fst (geo_add_detected_ip info field)"
proof -
  let ?cidr = "str_or_empty (member_json info ''detected_client_ip'') @ ''/32''"
  define ps where "ps = (if ?cidr \<in> set (parse_source_allow_list_input field) then parse_source_allow_list_input field
    else parse_source_allow_list_input field @ [?cidr])"
  have "plain_word ?cidr" using assms by (simp add: plain_word_def is_ws_def)
  then have "list_all plain_word ps" using parsed_plain [of field] by (simp add: ps_def)
  then have "parse_source_allow_list_input (join '', '' ps) = ps" by (rule parse_source_list_join)
  moreover have "?cidr \<in> set ps" by (simp add: ps_def)
  moreover have "geo_add_detected_ip info f = (join '', '' (if ?cidr \<in> set (parse_source_allow_list_input f) then parse_source_allow_list_input f
      else parse_source_allow_list_input f @ [?cidr]), ''Added '' @ ?cidr @ '' to break-glass.'', False)" for f
    using assms by (simp add: geo_add_detected_ip_def Let_def plain_word_def)
  ultimately show ?thesis by (simp add: ps_def [symmetric])
qed

end
