(* ===== verification/Logs.thy ===== *)
theory Logs
  imports Geo_Picker
begin

text \<open>
  \<open>pages/logs.js\<close>: firewall log lines as the page reads them, the filters and the table, refreshes that
  overtake each other, and adding a line's source to the break-glass list.

  \<open>Date.parse\<close> and the text of a flag are parameters.
\<close>

section \<open>A log line\<close>

definition LOG_PREFIX_GEO :: string where "LOG_PREFIX_GEO = ''evuproxy-geo-block''"
definition LOG_PREFIX_RATELIMIT :: string where "LOG_PREFIX_RATELIMIT = ''evuproxy-ratelimit''"
definition LOG_PREFIX_FWD :: string where "LOG_PREFIX_FWD = ''evuproxy-forward-drop''"
definition LOG_PREFIX_CROWDSEC :: string where "LOG_PREFIX_CROWDSEC = ''evuproxy-crowdsec''"

definition LOG_NEEDLES :: "(string \<times> string) list" where
  "LOG_NEEDLES = [(''geo'', LOG_PREFIX_GEO @ '':''), (''ratelimit'', LOG_PREFIX_RATELIMIT @ '':''),
     (''forward'', LOG_PREFIX_FWD @ '':''), (''crowdsec'', LOG_PREFIX_CROWDSEC @ '':'')]"

record log_entry =
  raw_line :: string
  ts_display :: "string option"
  parsed_time :: "int option"
  log_kind :: string
  log_kv :: "(string \<times> string list) list"
  log_flags :: "string list"
  search_blob :: string
  len_col :: string
  src_cc :: "string option"
  dst_cc :: "string option"

text \<open>The needle found first, with its place; of two at one place the earlier in the list.\<close>

definition better_needle :: "string \<Rightarrow> (nat \<times> string \<times> string) option \<Rightarrow> string \<times> string \<Rightarrow> (nat \<times> string \<times> string) option" where
  "better_needle msg best n =
     (case index_of msg (snd n) of
        None \<Rightarrow> best
      | Some i \<Rightarrow> (case best of None \<Rightarrow> Some (i, n) | Some (b, _) \<Rightarrow> if i < b then Some (i, n) else best))"

definition best_needle :: "string \<Rightarrow> (nat \<times> string \<times> string) option" where
  "best_needle msg = foldl (better_needle msg) None LOG_NEEDLES"

definition is_key_char :: "char \<Rightarrow> bool" where
  "is_key_char c \<longleftrightarrow> is_capital c \<or> is_digit c"

text \<open>The regular expression \<open>^([A-Z][A-Z0-9]*)=(.*)$\<close>, on a text without white space.\<close>

definition match_kv :: "string \<Rightarrow> (string \<times> string) option" where
  "match_kv t =
     (let k = takeWhile is_key_char t; r = dropWhile is_key_char t in
      if k \<noteq> [] \<and> is_capital (hd k) \<and> r \<noteq> [] \<and> hd r = CHR ''='' then Some (k, tl r) else None)"

fun push_kv :: "string \<Rightarrow> string \<Rightarrow> (string \<times> string list) list \<Rightarrow> (string \<times> string list) list" where
  "push_kv k v [] = [(k, [v])]"
| "push_kv k v ((k', vs) # kvs) = (if k' = k then (k, vs @ [v]) # kvs else (k', vs) # push_kv k v kvs)"

definition read_token :: "(string \<times> string list) list \<times> string list \<Rightarrow> string \<Rightarrow> (string \<times> string list) list \<times> string list" where
  "read_token acc t = (case acc of (kv, flags) \<Rightarrow>
     (case match_kv t of Some (k, v) \<Rightarrow> (push_kv k v kv, flags) | None \<Rightarrow> (kv, flags @ [t])))"

definition log_values :: "(string \<times> string list) list \<Rightarrow> string \<Rightarrow> string list" where
  "log_values kv k = (case map_of kv k of Some vs \<Rightarrow> vs | None \<Rightarrow> [])"

definition log_first :: "(string \<times> string list) list \<Rightarrow> string \<Rightarrow> string" where
  "log_first kv k = (case log_values kv k of v # _ \<Rightarrow> v | [] \<Rightarrow> [])"

definition len_column :: "(string \<times> string list) list \<Rightarrow> string" where
  "len_column kv = (case log_values kv ''LEN'' of [] \<Rightarrow> mdash | vs \<Rightarrow> join '' / '' vs)"

definition KERNEL_MARKER :: string where "KERNEL_MARKER = '' kernel: ''"

definition split_marker :: "string \<Rightarrow> string option \<times> string" where
  "split_marker line =
     (case index_of line KERNEL_MARKER of
        None \<Rightarrow> (None, line)
      | Some k \<Rightarrow> (Some (hd (split_class is_ws (trim (take k line)))), drop (k + length KERNEL_MARKER) line))"

definition log_tokens :: "string \<Rightarrow> string list" where
  "log_tokens rest = nonempty (split_class is_ws rest)"

definition flags_str :: "log_entry \<Rightarrow> string" where
  "flags_str e = (if log_flags e \<noteq> [] then join '' '' (log_flags e) else mdash)"

definition parse_firewall_log_line :: "(string \<Rightarrow> int option) \<Rightarrow> string \<Rightarrow> log_entry" where
  "parse_firewall_log_line parse_date line =
     (case split_marker line of (ts, msg) \<Rightarrow>
      (case (case best_needle msg of
               None \<Rightarrow> (''unknown'', trim msg)
             | Some (i, k, needle) \<Rightarrow> (k, trim (drop (i + length needle) msg))) of (kind, rest) \<Rightarrow>
       (case foldl read_token ([], []) (log_tokens rest) of (kv, flags) \<Rightarrow>
         (let kvFlat = join '' '' (concat (map (\<lambda>k. map (\<lambda>v. k @ ''='' @ v) (log_values kv k)) (sort (map fst kv)))) in
          \<lparr>raw_line = line, ts_display = ts,
           parsed_time = (case ts of None \<Rightarrow> None | Some t \<Rightarrow> if t = [] then None else parse_date t),
           log_kind = kind, log_kv = kv, log_flags = flags,
           search_blob = lower (line @ '' '' @ kvFlat @ '' '' @ join '' '' flags), len_col = len_column kv,
           src_cc = None, dst_cc = None\<rparr>))))"

text \<open>The countries that came with the line.\<close>

definition with_line_geo :: "jsval \<Rightarrow> log_entry \<Rightarrow> log_entry" where
  "with_line_geo g e =
     (let add = (\<lambda>k set e. case g of
            Some j \<Rightarrow> if truthy (member_json j k)
              then (set (str_or_empty (member_json j k)) e)\<lparr>search_blob := search_blob e @ '' '' @ lower (str_or_empty (member_json j k))\<rparr> else e
          | None \<Rightarrow> e) in
      add ''dst_cc'' (\<lambda>v e. e\<lparr>dst_cc := Some v\<rparr>) (add ''src_cc'' (\<lambda>v e. e\<lparr>src_cc := Some v\<rparr>) e))"

definition log_entries :: "(string \<Rightarrow> int option) \<Rightarrow> string list \<Rightarrow> json list \<Rightarrow> log_entry list" where
  "log_entries parse_date lines lineGeo =
     map (\<lambda>(i, raw). with_line_geo (if i < length lineGeo then Some (lineGeo ! i) else None) (parse_firewall_log_line parse_date raw))
       (enumerate 0 lines)"

section \<open>The filters\<close>

record log_filter =
  lf_type :: string
  lf_needle :: string
  lf_from :: "int option"
  lf_to :: "int option"

definition no_log_filter :: log_filter where
  "no_log_filter = \<lparr>lf_type = [], lf_needle = [], lf_from = None, lf_to = None\<rparr>"

definition log_entry_shown :: "log_filter \<Rightarrow> log_entry \<Rightarrow> bool" where
  "log_entry_shown f e \<longleftrightarrow>
     \<not> (lf_type f \<in> {''geo'', ''ratelimit'', ''forward'', ''crowdsec''} \<and> log_kind e \<noteq> lf_type f) \<and>
     \<not> (lf_needle f \<noteq> [] \<and> \<not> includes_str (search_blob e) (lf_needle f)) \<and>
     (lf_from f = None \<and> lf_to f = None \<or>
       (case parsed_time e of None \<Rightarrow> False
        | Some t \<Rightarrow> (case lf_from f of None \<Rightarrow> True | Some a \<Rightarrow> a \<le> t) \<and> (case lf_to f of None \<Rightarrow> True | Some b \<Rightarrow> t \<le> b)))"

definition filter_firewall_log_entries :: "log_filter \<Rightarrow> log_entry list \<Rightarrow> log_entry list" where
  "filter_firewall_log_entries f entries = filter (log_entry_shown f) entries"

text \<open>The needle as the search field gives it.\<close>

definition read_log_filter :: "string \<Rightarrow> string \<Rightarrow> int option \<Rightarrow> int option \<Rightarrow> log_filter" where
  "read_log_filter type search from to =
     \<lparr>lf_type = type, lf_needle = lower (trim search), lf_from = from, lf_to = to\<rparr>"

definition logs_count_text :: "nat \<Rightarrow> nat \<Rightarrow> string" where
  "logs_count_text shown allOf =
     (if allOf = 0 then []
      else ''Showing '' @ show_nat shown @ '' of '' @ show_nat allOf @ '' entr'' @ (if allOf = 1 then ''y'' else ''ies''))"

definition logs_raw_text :: "log_entry list \<Rightarrow> log_entry list \<Rightarrow> string" where
  "logs_raw_text entries filtered =
     (if entries = [] then ''No log lines returned from the host.''
      else if filtered = [] then ''No lines match the current filters.'' else join [CHR 0x0A] (map raw_line filtered))"

section \<open>The table\<close>

definition firewall_log_kind_label :: "string \<Rightarrow> string" where
  "firewall_log_kind_label kind =
     (if kind = ''geo'' then ''Geoblock'' else if kind = ''ratelimit'' then ''Rate limit''
      else if kind = ''forward'' then ''Forward drop'' else if kind = ''crowdsec'' then ''CrowdSec'' else mdash)"

text \<open>The two code points of the flag, none if the code is not two letters.\<close>

definition country_code_to_flag_emoji :: "string \<Rightarrow> nat list" where
  "country_code_to_flag_emoji cc =
     (let s = trim cc; u = upper s in
      if length s \<noteq> 2 \<or> \<not> is_capital (u ! 0) \<or> \<not> is_capital (u ! 1) then []
      else map (\<lambda>c. 0x1F1E6 + (of_char c - 65)) (take 2 u))"

definition break_glass_cidrs :: "json \<Rightarrow> string list" where
  "break_glass_cidrs c = string_items (member_json (geo_of c) ''break_glass_cidrs'')"

definition LOGS_BREAKGLASS_ICON :: string where
  "LOGS_BREAKGLASS_ICON = ''<svg class=\"logs-breakglass-icon\" viewBox=\"0 0 24 24\" width=\"14\" height=\"14\" fill=\"none\" stroke=\"currentColor\" stroke-width=\"2\" stroke-linecap=\"round\" stroke-linejoin=\"round\" aria-hidden=\"true\"><path d=\"M12 22s8-4 8-10V5l-8-3-8 3v7c0 6 8 10 8 10z\"/><path d=\"M12 9v6M9 12h6\"/></svg>''"

definition offers_break_glass :: "bool \<Rightarrow> bool \<Rightarrow> json option \<Rightarrow> string \<Rightarrow> bool" where
  "offers_break_glass offer readOnly cfg raw \<longleftrightarrow>
     offer \<and> \<not> readOnly \<and> raw \<noteq> [] \<and> ipv4_to_int raw \<noteq> None \<and>
     \<not> ipv4_covered_by_cidr_list raw (case cfg of Some c \<Rightarrow> break_glass_cidrs c | None \<Rightarrow> [])"

definition logs_ip_cell :: "(nat list \<Rightarrow> string) \<Rightarrow> bool \<Rightarrow> json option \<Rightarrow> string \<Rightarrow> string option \<Rightarrow> bool \<Rightarrow> string" where
  "logs_ip_cell emoji readOnly cfg ip cc offer =
     (let raw = trim ip;
          code = (case cc of Some c \<Rightarrow> trim c | None \<Rightarrow> []);
          flag = (if code \<noteq> [] then country_code_to_flag_emoji code else []);
          flagPart = (if flag \<noteq> []
            then ''<span class=\"logs-ip-flag\" aria-hidden=\"true\" title=\"'' @ escape_html (upper code) @ ''\">'' @ emoji flag @ ''</span> '' else []);
          label = ''Add '' @ raw @ '' to break-glass list'';
          action = (if offers_break_glass offer readOnly cfg raw
            then '' <button type=\"button\" class=\"evu-btn evu-btn--ghost evu-btn--icon evu-btn--sm logs-breakglass-btn\" data-logs-breakglass=\"'' @
              escape_html raw @ ''\" aria-label=\"'' @ escape_html label @ ''\" title=\"'' @ escape_html label @ ''\">'' @
              LOGS_BREAKGLASS_ICON @ ''</button>'' else []) in
      ''<td class=\"'' @ (if code \<noteq> [] \<or> action \<noteq> [] then ''mono logs-col-ip'' else ''mono'') @ ''\">'' @ flagPart @
      (if raw = [] then mdash else escape_html raw) @ action @ ''</td>'')"

definition logs_cell :: "string \<Rightarrow> string" where
  "logs_cell v = (if v = [] then mdash else escape_html v)"

definition log_row_html :: "(nat list \<Rightarrow> string) \<Rightarrow> bool \<Rightarrow> json option \<Rightarrow> log_entry \<Rightarrow> string" where
  "log_row_html emoji readOnly cfg e =
     (let ts = (case ts_display e of Some t \<Rightarrow> if t = [] then mdash else t | None \<Rightarrow> mdash); v = log_first (log_kv e); fs = flags_str e in
      ''<tr>'' @ ''<td class=\"mono\">'' @ escape_html ts @ ''</td>'' @ ''<td class=\"logs-col-type\">'' @
      escape_html (firewall_log_kind_label (log_kind e)) @ ''</td>'' @
      logs_ip_cell emoji readOnly cfg (v ''SRC'') (src_cc e) (log_kind e = ''geo'') @ logs_ip_cell emoji readOnly cfg (v ''DST'') (dst_cc e) False @
      ''<td>'' @ logs_cell (v ''PROTO'') @ ''</td>'' @ ''<td class=\"mono\">'' @ logs_cell (v ''SPT'') @ ''</td>'' @
      ''<td class=\"mono\">'' @ logs_cell (v ''DPT'') @ ''</td>'' @ ''<td>'' @ logs_cell (v ''IN'') @ ''</td>'' @ ''<td>'' @ logs_cell (v ''OUT'') @
      ''</td>'' @ ''<td class=\"mono\">'' @ logs_cell (len_col e) @ ''</td>'' @ ''<td class=\"mono logs-col-flags\" title=\"'' @
      (if fs = mdash then [] else escape_html (trunc fs 400)) @ ''\">'' @ (if fs = mdash then mdash else escape_html (trunc fs 80)) @ ''</td>'' @ ''</tr>'')"

definition LOGS_EMPTY :: string where
  "LOGS_EMPTY = ''<div class=\"evu-empty\"><p class=\"evu-empty__title\">No log lines yet</p><p>Nothing matching EvuProxy drop prefixes since boot/rotation, or the API cannot read the kernel journal (non-root <code class=\"inline\">evuproxy-api</code> needs the <code class=\"inline\">systemd-journal</code> group). Check the Source line above.</p></div>''"

definition LOGS_NO_MATCH :: string where
  "LOGS_NO_MATCH = ''<div class=\"evu-empty\"><p class=\"evu-empty__title\">No lines match the current filters</p><p>Widen the time range or clear the filters to see more.</p><button type=\"button\" class=\"evu-btn evu-btn--outline\" id=\"logs-empty-clear\">Clear filters</button></div>''"

definition LOGS_TABLE_HEAD :: string where
  "LOGS_TABLE_HEAD = ''<table class=\"data logs-data\" aria-describedby=\"logs-count\"><thead><tr>'' @
     ''<th scope=\"col\">Time</th><th scope=\"col\">Type</th><th scope=\"col\">SRC</th><th scope=\"col\">DST</th><th scope=\"col\">Proto</th><th scope=\"col\">SPT</th><th scope=\"col\">DPT</th><th scope=\"col\">IN</th><th scope=\"col\">OUT</th><th scope=\"col\">LEN</th><th scope=\"col\">Flags</th>'' @
     ''</tr></thead><tbody>''"

text \<open>The view: a raw text in one mode, the table or one of its two empty states in the other; the element of the other mode is left as it was.\<close>

record logs_view =
  logs_raw_mode :: bool
  logs_count_shown :: string
  logs_pre :: string
  logs_table :: string

definition render_logs_view :: "(nat list \<Rightarrow> string) \<Rightarrow> bool \<Rightarrow> json option \<Rightarrow> log_filter \<Rightarrow> log_entry list \<Rightarrow> logs_view \<Rightarrow> logs_view" where
  "render_logs_view emoji readOnly cfg f entries v =
     (let filtered = filter_firewall_log_entries f entries;
          v1 = v\<lparr>logs_count_shown := logs_count_text (length filtered) (length entries)\<rparr> in
      if logs_raw_mode v then v1\<lparr>logs_pre := logs_raw_text entries filtered\<rparr>
      else v1\<lparr>logs_table :=
        (if entries = [] then LOGS_EMPTY else if filtered = [] then LOGS_NO_MATCH
         else LOGS_TABLE_HEAD @ concat (map (log_row_html emoji readOnly cfg) filtered) @ ''</tbody></table>'')\<rparr>)"

definition set_logs_view_mode :: "(nat list \<Rightarrow> string) \<Rightarrow> bool \<Rightarrow> json option \<Rightarrow> log_filter \<Rightarrow> log_entry list \<Rightarrow> string \<Rightarrow> logs_view \<Rightarrow> logs_view" where
  "set_logs_view_mode emoji readOnly cfg f entries mode v =
     render_logs_view emoji readOnly cfg f entries (v\<lparr>logs_raw_mode := mode = ''raw''\<rparr>)"

definition clear_logs_filters :: "(nat list \<Rightarrow> string) \<Rightarrow> bool \<Rightarrow> json option \<Rightarrow> log_entry list \<Rightarrow> logs_view \<Rightarrow> logs_view" where
  "clear_logs_filters emoji readOnly cfg entries v = render_logs_view emoji readOnly cfg (read_log_filter [] [] None None) entries v"

text \<open>The row that keeps the focus after its button is gone, unless the user has moved on.\<close>

definition focus_logs_row :: "bool \<Rightarrow> nat \<Rightarrow> nat \<Rightarrow> nat option" where
  "focus_logs_row focused rows i = (if focused then None else if i < rows then Some i else None)"

section \<open>Refreshes and the break-glass list\<close>

text \<open>
  Refreshes are numbered; an answer counts only while its number is the latest. A write to the
  break-glass list takes a number when it starts and when it has been saved, so that refreshes under way are dropped.
  \<open>logs_waiting\<close> are the refreshes whose requests are out.
\<close>

record logs_page =
  logs_refresh_seq :: nat
  logs_waiting :: "nat list"
  logs_entries :: "log_entry list"
  logs_config :: "json option"
  break_glass_busy :: bool
  logs_message :: "string \<times> bool"

text \<open>
  \<open>BreakGlassSaved c covered\<close>: the save is done; \<open>covered\<close> is the address when the edit found it covered already.
  \<open>BreakGlassEnd\<close>: the badge of pending changes has been read again; \<open>BreakGlassUndone\<close>: the Undo of the toast has been saved.
\<close>

datatype logs_event =
    LogsRefresh
  | LogsAnswer nat "string + log_entry list \<times> json option"
  | BreakGlassClick
  | BreakGlassFetched json
  | BreakGlassSaved json "string option"
  | BreakGlassEnd
  | BreakGlassFailed
  | BreakGlassUndone json

definition logs_answer :: "nat \<Rightarrow> string + log_entry list \<times> json option \<Rightarrow> logs_page \<Rightarrow> logs_page" where
  "logs_answer seq answer s =
     (if seq \<noteq> logs_refresh_seq s then s
      else (case answer of
          Inl m \<Rightarrow> s\<lparr>logs_message := (m, True)\<rparr>
        | Inr (entries, cfg) \<Rightarrow>
            s\<lparr>logs_entries := entries, logs_config := (case cfg of Some c \<Rightarrow> Some c | None \<Rightarrow> logs_config s)\<rparr>))"

definition logs_step :: "logs_event \<Rightarrow> logs_page \<Rightarrow> logs_page" where
  "logs_step e s =
     (case e of
        LogsRefresh \<Rightarrow> s\<lparr>logs_refresh_seq := logs_refresh_seq s + 1, logs_waiting := logs_waiting s @ [logs_refresh_seq s + 1],
          logs_message := ([], False)\<rparr>
      | LogsAnswer seq answer \<Rightarrow>
          if seq \<in> set (logs_waiting s) then logs_answer seq answer (s\<lparr>logs_waiting := remove1 seq (logs_waiting s)\<rparr>) else s
      | BreakGlassClick \<Rightarrow>
          if break_glass_busy s then s
          else s\<lparr>break_glass_busy := True, logs_refresh_seq := logs_refresh_seq s + 1, logs_message := (ellipsis, False)\<rparr>
      | BreakGlassFetched c \<Rightarrow> if break_glass_busy s then s\<lparr>logs_config := Some c\<rparr> else s
      | BreakGlassSaved c covered \<Rightarrow>
          if break_glass_busy s
          then s\<lparr>logs_config := Some c, logs_refresh_seq := logs_refresh_seq s + 1, break_glass_busy := covered = None,
            logs_message := (case covered of Some ip \<Rightarrow> ip @ '' is already covered by the break-glass list.'' | None \<Rightarrow> [], False)\<rparr> else s
      | BreakGlassUndone c \<Rightarrow> s\<lparr>logs_config := Some c, logs_refresh_seq := logs_refresh_seq s + 1, logs_message := ([], False)\<rparr>
      | BreakGlassEnd \<Rightarrow> s\<lparr>break_glass_busy := False\<rparr>
      | BreakGlassFailed \<Rightarrow> if break_glass_busy s then s\<lparr>break_glass_busy := False, logs_message := ([], True)\<rparr> else s)"

definition logs_run :: "logs_event list \<Rightarrow> logs_page \<Rightarrow> logs_page" where
  "logs_run es s = foldl (\<lambda>t e. logs_step e t) s es"

text \<open>The edit of a click on the shield, and the one of its Undo.\<close>

definition put_break_glass :: "json \<Rightarrow> string list \<Rightarrow> json" where
  "put_break_glass c xs = with_key c ''geo'' (with_key (geo_of c) ''break_glass_cidrs'' (JArr (map JStr xs)))"

definition add_break_glass :: "string \<Rightarrow> edit" where
  "add_break_glass ip c =
     (let c1 = (if truthy (member_json c ''geo'') then c else with_key c ''geo'' (JObj [])); lst = break_glass_cidrs c1 in
      if ipv4_covered_by_cidr_list ip lst then Inr (False, c1) else Inr (True, put_break_glass c1 (lst @ [ip @ ''/32''])))"

definition undo_add_break_glass :: "string \<Rightarrow> edit" where
  "undo_add_break_glass ip c =
     (let lst = break_glass_cidrs c in
      if ip @ ''/32'' \<notin> set lst then Inr (False, c) else Inr (True, put_break_glass c (filter (\<lambda>x. x \<noteq> ip @ ''/32'') lst)))"

section \<open>What the filters show\<close>

lemma filters_only_narrow:
  "set (filter_firewall_log_entries f entries) \<subseteq> set entries" "filter_firewall_log_entries no_log_filter entries = entries"
  "filter_firewall_log_entries f (filter_firewall_log_entries f entries) = filter_firewall_log_entries f entries"
proof -
  show "set (filter_firewall_log_entries f entries) \<subseteq> set entries" by (auto simp: filter_firewall_log_entries_def)
  show "filter_firewall_log_entries no_log_filter entries = entries"
    by (simp add: filter_firewall_log_entries_def log_entry_shown_def no_log_filter_def)
  show "filter_firewall_log_entries f (filter_firewall_log_entries f entries) = filter_firewall_log_entries f entries"
    by (simp add: filter_firewall_log_entries_def)
qed

text \<open>A line without a readable time is hidden by any range, and shown again without one.\<close>

lemma undated_lines:
  "parsed_time e = None \<Longrightarrow> log_entry_shown f e \<longleftrightarrow> lf_from f = None \<and> lf_to f = None \<and> log_entry_shown (f\<lparr>lf_from := None, lf_to := None\<rparr>) e"
  by (auto simp: log_entry_shown_def)

section \<open>A line read back\<close>

text \<open>What the kernel logs after the prefix: fields with a value, and bare flags.\<close>

definition item_text :: "(string \<times> string) + string \<Rightarrow> string" where
  "item_text i = (case i of Inl (k, v) \<Rightarrow> k @ ''='' @ v | Inr f \<Rightarrow> f)"

definition is_word :: "string \<Rightarrow> bool" where
  "is_word w \<longleftrightarrow> w \<noteq> [] \<and> list_all (\<lambda>c. \<not> is_ws c) w"

definition log_item :: "(string \<times> string) + string \<Rightarrow> bool" where
  "log_item i \<longleftrightarrow> is_word (item_text i) \<and>
     (case i of Inl (k, _) \<Rightarrow> k \<noteq> [] \<and> is_capital (hd k) \<and> list_all is_key_char k | Inr f \<Rightarrow> match_kv f = None)"

definition journal_line :: "string \<Rightarrow> string \<Rightarrow> string \<Rightarrow> ((string \<times> string) + string) list \<Rightarrow> string" where
  "journal_line ts host needle items =
     ts @ '' '' @ host @ KERNEL_MARKER @ needle @ '' '' @ join '' '' (map item_text items)"

definition values_for :: "string \<Rightarrow> ((string \<times> string) + string) list \<Rightarrow> string list" where
  "values_for k items = concat (map (\<lambda>i. case i of Inl (k', v) \<Rightarrow> if k' = k then [v] else [] | Inr _ \<Rightarrow> []) items)"

definition bare_flags :: "((string \<times> string) + string) list \<Rightarrow> string list" where
  "bare_flags items = concat (map (\<lambda>i. case i of Inl _ \<Rightarrow> [] | Inr f \<Rightarrow> [f]) items)"

lemma match_kv_item:
  "log_item i \<Longrightarrow> match_kv (item_text i) = (case i of Inl kv \<Rightarrow> Some kv | Inr _ \<Rightarrow> None)"
proof (cases i)
  case (Inl kv)
  obtain k v where kv: "kv = (k, v)" by (cases kv) auto
  assume "log_item i"
  then have "k \<noteq> []" "is_capital (hd k)" and k: "list_all is_key_char k" by (auto simp: log_item_def Inl kv)
  moreover have "\<not> is_key_char (CHR ''='')" by code_simp
  ultimately show ?thesis
    using k by (simp add: Inl kv item_text_def match_kv_def Let_def takeWhile_append dropWhile_append list_all_iff)
qed (simp add: log_item_def item_text_def)

lemma log_values_push: "log_values (push_kv k v kvs) k' = log_values kvs k' @ (if k' = k then [v] else [])"
  by (induction k v kvs rule: push_kv.induct) (auto simp: log_values_def split: option.splits)

lemma read_tokens:
  assumes "list_all log_item items" "foldl read_token (kv, fl) (map item_text items) = (kv', fl')"
  shows "log_values kv' k = log_values kv k @ values_for k items" "fl' = fl @ bare_flags items"
  using assms
proof (induction items arbitrary: kv fl)
  case Nil
  { case 1 then show ?case by (simp add: values_for_def) }
  { case 2 then show ?case by (simp add: bare_flags_def) }
next
  case (Cons i items)
  have i: "match_kv (item_text i) = (case i of Inl kv \<Rightarrow> Some kv | Inr _ \<Rightarrow> None)"
    if "list_all log_item (i # items)" using that match_kv_item by simp
  { case 1
    then show ?case
      using Cons.IH(1) [of "fst (read_token (kv, fl) (item_text i))" "snd (read_token (kv, fl) (item_text i))"] i
      by (cases i) (auto simp: read_token_def values_for_def log_values_push) }
  { case 2
    then show ?case
      using Cons.IH(2) [of "fst (read_token (kv, fl) (item_text i))" "snd (read_token (kv, fl) (item_text i))"] i
      by (cases i) (auto simp: read_token_def bare_flags_def item_text_def) }
qed

lemma split_runs_word: "is_word w \<Longrightarrow> split_runs is_ws b w = [w]"
proof -
  have "list_all (\<lambda>c. \<not> is_ws c) w \<Longrightarrow> split_runs is_ws b w = [w]" for b by (induction w arbitrary: b) auto
  then show "is_word w \<Longrightarrow> split_runs is_ws b w = [w]" by (simp add: is_word_def)
qed

lemma split_runs_word_space: "is_word w \<Longrightarrow> split_runs is_ws b (w @ CHR '' '' # s) = w # split_runs is_ws True s"
proof -
  have sp: "is_ws (CHR '' '')" by code_simp
  have "list_all (\<lambda>c. \<not> is_ws c) w \<Longrightarrow> split_runs is_ws False (w @ CHR '' '' # s) = w # split_runs is_ws True s" for w
    by (induction w) (auto simp: sp)
  then show "is_word w \<Longrightarrow> split_runs is_ws b (w @ CHR '' '' # s) = w # split_runs is_ws True s"
    by (cases w) (auto simp: is_word_def)
qed

lemma split_joined_words: "list_all is_word ws \<Longrightarrow> ws \<noteq> [] \<Longrightarrow> split_runs is_ws b (join '' '' ws) = ws"
  by (induction "'' ''" ws arbitrary: b rule: join.induct) (simp_all add: split_runs_word split_runs_word_space)

lemma joined_words_trimmed:
  assumes "list_all is_word ws"
  shows "trim ('' '' @ join '' '' ws) = join '' '' ws"
proof (cases "ws = []")
  case False
  have ends: "join '' '' ws \<noteq> [] \<and> \<not> is_ws (hd (join '' '' ws)) \<and> \<not> is_ws (last (join '' '' ws))"
    if "list_all is_word ws" "ws \<noteq> []" for ws
    using that by (induction "'' ''" ws rule: join.induct) (auto simp: is_word_def list_all_iff hd_append)
  have "is_ws (CHR '' '')" by code_simp
  moreover have "trim (join '' '' ws) = join '' '' ws" using ends [OF assms False] by (intro trim_no_ws_ends) simp
  ultimately show ?thesis by (simp add: trim_def)
qed (simp add: trim_def, code_simp)

lemma index_of_start: "index_of (q @ s) q = Some 0"
proof -
  have "prefix q (q @ s)" by simp
  then show ?thesis by (cases "q @ s") simp_all
qed

lemma index_of_not_start: "\<not> prefix q s \<Longrightarrow> index_of s q = None \<or> (\<exists>i. index_of s q = Some (Suc i))"
  by (cases s) (auto simp: option.map_sel not_None_eq)

lemma index_of_skip:
  assumes "list_all (\<lambda>c. c \<noteq> hd q) w" "q \<noteq> []"
  shows "index_of (w @ s) q = map_option (\<lambda>i. length w + i) (index_of s q)"
  using assms(1)
proof (induction w)
  case (Cons a w)
  then have "\<not> prefix q (a # w @ s)" using assms(2) by (cases q) auto
  with Cons show ?case by (cases "index_of s q") simp_all
qed (cases "index_of s q", simp_all)

lemma best_needle_at_start: "(k, n) \<in> set LOG_NEEDLES \<Longrightarrow> best_needle (n @ s) = Some (0, k, n)"
proof -
  assume n: "(k, n) \<in> set LOG_NEEDLES"
  have other: "index_of (n @ s) m = None \<or> (\<exists>i. index_of (n @ s) m = Some (Suc i))" if "(k', m) \<in> set LOG_NEEDLES" "k' \<noteq> k" for k' m
    by (rule index_of_not_start)
      (use n that in \<open>auto simp: LOG_NEEDLES_def LOG_PREFIX_GEO_def LOG_PREFIX_RATELIMIT_def LOG_PREFIX_FWD_def LOG_PREFIX_CROWDSEC_def\<close>)
  have keep: "better_needle (n @ s) (Some (0, p)) p' = Some (0, p)" for p p'
    by (simp add: better_needle_def split: option.split)
  have take: "better_needle (n @ s) b (k, n) = Some (0, k, n)" if "b = None \<or> (\<exists>i p. b = Some (Suc i, p))" for b
    using that by (auto simp: better_needle_def index_of_start)
  have skip: "better_needle (n @ s) b p = None \<or> (\<exists>i p'. better_needle (n @ s) b p = Some (Suc i, p'))"
    if "p \<in> set LOG_NEEDLES" "fst p \<noteq> k" "b = None \<or> (\<exists>i p'. b = Some (Suc i, p'))" for b p
  proof (cases "index_of (n @ s) (snd p)")
    case None then show ?thesis using that(3) by (simp add: better_needle_def)
  next
    case (Some j)
    have "\<exists>j'. j = Suc j'" using other [of "fst p" "snd p"] that(1,2) Some by auto
    then show ?thesis using Some that(3) by (cases b; cases p) (auto simp: better_needle_def split: if_splits)
  qed
  have "foldl (better_needle (n @ s)) b ps = Some (0, k, n)"
    if "(k, n) \<in> set ps" "set ps \<subseteq> set LOG_NEEDLES" "b = None \<or> (\<exists>i p. b = Some (Suc i, p))" for b ps
    using that
  proof (induction ps arbitrary: b)
    case (Cons p ps)
    have stay: "foldl (better_needle (n @ s)) (Some (0, q)) qs = Some (0, q)" for q qs by (induction qs) (simp_all add: keep)
    have same: "p = (k, n)" if "fst p = k"
      using that Cons.prems(2) n by (auto simp: LOG_NEEDLES_def)
    show ?case
    proof (cases "fst p = k")
      case True
      then show ?thesis using same take [OF Cons.prems(3)] stay by simp
    next
      case False
      then show ?thesis using Cons.IH [OF _ _ skip [of p b]] Cons.prems by auto
    qed
  qed simp
  then show ?thesis using n by (simp add: best_needle_def)
qed

lemma host_before_marker:
  assumes "is_word ts" "is_word host" "host \<noteq> ''kernel:''"
  shows "split_marker (ts @ '' '' @ host @ KERNEL_MARKER @ msg) = (Some ts, msg)"
proof -
  have sp: "is_ws (CHR '' '')" "\<And>w. is_word w \<Longrightarrow> list_all (\<lambda>c. c \<noteq> hd KERNEL_MARKER) w"
    by (code_simp, auto simp: is_word_def list_all_iff KERNEL_MARKER_def is_ws_def)
  have marker: "KERNEL_MARKER = CHR '' '' # ''kernel:'' @ '' ''" by (simp add: KERNEL_MARKER_def)
  have early: "\<not> prefix KERNEL_MARKER ('' '' @ host @ KERNEL_MARKER @ msg)"
  proof
    assume "prefix KERNEL_MARKER ('' '' @ host @ KERNEL_MARKER @ msg)"
    then obtain z where "''kernel:'' @ CHR '' '' # z = host @ CHR '' '' # (''kernel: '' @ msg)" by (auto simp: marker prefix_def)
    then have "takeWhile (\<lambda>c. c \<noteq> CHR '' '') (''kernel:'' @ CHR '' '' # z) = takeWhile (\<lambda>c. c \<noteq> CHR '' '') (host @ CHR '' '' # (''kernel: '' @ msg))" by (rule arg_cong)
    moreover have "\<forall>c\<in>set host. c \<noteq> CHR '' ''" using sp(2) [OF assms(2)] by (simp add: list_all_iff KERNEL_MARKER_def)
    ultimately have "''kernel:'' = host" by (simp add: takeWhile_append)
    then show False using assms(3) by simp
  qed
  have "index_of (KERNEL_MARKER @ msg) KERNEL_MARKER = Some 0" by (rule index_of_start)
  then have "index_of (host @ KERNEL_MARKER @ msg) KERNEL_MARKER = Some (length host)"
    using index_of_skip [OF sp(2) [OF assms(2)], of "KERNEL_MARKER @ msg"] by (simp add: marker)
  then have "index_of ('' '' @ host @ KERNEL_MARKER @ msg) KERNEL_MARKER = Some (Suc (length host))"
    using early by simp
  then have at: "index_of (ts @ '' '' @ host @ KERNEL_MARKER @ msg) KERNEL_MARKER = Some (length ts + Suc (length host))"
    using index_of_skip [OF sp(2) [OF assms(1)], of "'' '' @ host @ KERNEL_MARKER @ msg"] by (simp add: marker)
  have "trim (ts @ '' '' @ host) = ts @ '' '' @ host"
    by (rule trim_no_ws_ends) (use assms(1,2) in \<open>auto simp: is_word_def list_all_iff hd_append\<close>)
  moreover have "split_class is_ws (ts @ '' '' @ host) = [ts, host]"
    using assms(1,2) by (simp add: split_class_def split_runs_word_space split_runs_word)
  moreover have "take (length ts + Suc (length host)) (ts @ '' '' @ host @ KERNEL_MARKER @ msg) = ts @ '' '' @ host" by simp
  moreover have "drop (length ts + Suc (length host) + length KERNEL_MARKER) (ts @ '' '' @ host @ KERNEL_MARKER @ msg) = msg" by simp
  ultimately show ?thesis unfolding split_marker_def at by (simp del: drop_append take_append)
qed

text \<open>
  C19. A line the journal prints for one of the four drop prefixes is read back: its time, which rule dropped the
  packet, for every key its values in their order, and the bare flags, whatever the order of the fields.
\<close>

theorem log_line_read_back:
  assumes "is_word ts" and "is_word host" and "host \<noteq> ''kernel:''"
    and "(kind, needle) \<in> set LOG_NEEDLES" and "list_all log_item items"
  shows "let e = parse_firewall_log_line parse_date (journal_line ts host needle items) in
    ts_display e = Some ts \<and> parsed_time e = parse_date ts \<and> log_kind e = kind \<and>
    (\<forall>k. log_values (log_kv e) k = values_for k items) \<and> log_flags e = bare_flags items"
proof -
  have ts: "ts \<noteq> []" using assms(1) by (simp add: is_word_def)
  have words: "list_all is_word (map item_text items)" using assms(5) by (simp add: list_all_iff log_item_def)
  have msg: "best_needle (needle @ '' '' @ join '' '' (map item_text items)) = Some (0, kind, needle)"
    by (rule best_needle_at_start [OF assms(4)])
  have marker: "split_marker (journal_line ts host needle items) = (Some ts, needle @ '' '' @ join '' '' (map item_text items))"
    unfolding journal_line_def by (rule host_before_marker [OF assms(1-3)])
  have tokens: "log_tokens (trim ('' '' @ join '' '' (map item_text items))) = map item_text items"
  proof (cases "items = []")
    case True
    have "log_tokens (trim '' '') = []" by code_simp
    with True show ?thesis by simp
  next
    case False
    have "nonempty (map item_text items) = map item_text items"
      using words by (auto simp: nonempty_def filter_id_conv list_all_iff is_word_def)
    then show ?thesis
      using False joined_words_trimmed [OF words] split_joined_words [OF words] by (simp add: log_tokens_def split_class_def)
  qed
  obtain kv fl where read: "foldl read_token ([], []) (map item_text items) = (kv, fl)" by force
  note items_read = read_tokens [OF assms(5) read]
  have none: "log_values [] k = []" for k by (simp add: log_values_def)
  show ?thesis
    using msg tokens marker by (simp add: parse_firewall_log_line_def read ts items_read none Let_def)
qed

lemma log_line_read_back_witness:
  "log_values (log_kv (parse_firewall_log_line (\<lambda>_. Some 7) (journal_line ''12:00'' ''gw'' ''evuproxy-geo-block:''
     [Inl (''SRC'', ''1.2.3.4''), Inr ''SYN'', Inl (''LEN'', ''40''), Inl (''LEN'', ''20'')]))) ''LEN'' = [''40'', ''20'']"
proof -
  let ?items = "[Inl (''SRC'', ''1.2.3.4''), Inr ''SYN'', Inl (''LEN'', ''40''), Inl (''LEN'', ''20'')]"
  have ok: "is_word ''12:00''" "is_word ''gw''" "list_all log_item ?items" by code_simp+
  have needle: "(''geo'', ''evuproxy-geo-block:'') \<in> set LOG_NEEDLES" by (simp add: LOG_NEEDLES_def LOG_PREFIX_GEO_def)
  have "log_values (log_kv (parse_firewall_log_line (\<lambda>_. Some 7) (journal_line ''12:00'' ''gw'' ''evuproxy-geo-block:'' ?items))) ''LEN'' =
    values_for ''LEN'' ?items"
    using log_line_read_back [OF ok(1,2) _ needle ok(3), of "\<lambda>_. Some 7"] by (simp add: Let_def)
  then show ?thesis by (simp add: values_for_def)
qed

section \<open>A write to the list is not overwritten by an older refresh\<close>

definition logs_seq_ok :: "logs_page \<Rightarrow> bool" where
  "logs_seq_ok s \<longleftrightarrow> list_all (\<lambda>q. q \<le> logs_refresh_seq s) (logs_waiting s)"

lemma logs_step_seq_ok: "logs_seq_ok s \<Longrightarrow> logs_seq_ok (logs_step e s)"
proof (cases e)
  case (LogsAnswer q a)
  moreover assume "logs_seq_ok s"
  moreover have "set (remove1 q xs) \<subseteq> set xs" for xs :: "nat list" by (rule set_remove1_subset)
  ultimately show ?thesis
    by (fastforce simp: logs_step_def logs_seq_ok_def logs_answer_def list_all_iff split: sum.split)
qed (auto simp: logs_step_def logs_seq_ok_def list_all_iff)

text \<open>Events by which the page reads or writes the config again, apart from refreshes that were out before.\<close>

definition reads_again :: "logs_event \<Rightarrow> bool" where
  "reads_again e = (case e of LogsRefresh \<Rightarrow> True | BreakGlassClick \<Rightarrow> True | BreakGlassFetched _ \<Rightarrow> True
     | BreakGlassSaved _ _ \<Rightarrow> True | BreakGlassUndone _ \<Rightarrow> True | _ \<Rightarrow> False)"

lemma old_answers_dropped:
  assumes "list_all (\<lambda>q. q < logs_refresh_seq s) (logs_waiting s)" "list_all (\<lambda>e. \<not> reads_again e) es"
  shows "logs_config (logs_run es s) = logs_config s \<and> logs_entries (logs_run es s) = logs_entries s"
  using assms
proof (induction es arbitrary: s)
  case (Cons e es)
  have "list_all (\<lambda>q. q < logs_refresh_seq (logs_step e s)) (logs_waiting (logs_step e s)) \<and>
      logs_config (logs_step e s) = logs_config s \<and> logs_entries (logs_step e s) = logs_entries s"
  proof (cases e)
    case (LogsAnswer q a)
    have "set (remove1 q (logs_waiting s)) \<subseteq> set (logs_waiting s)" by (rule set_remove1_subset)
    then show ?thesis using Cons.prems(1) by (auto simp: LogsAnswer logs_step_def logs_answer_def list_all_iff)
  qed (use Cons.prems in \<open>auto simp: logs_step_def reads_again_def\<close>)
  then show ?case using Cons.IH [of "logs_step e s"] Cons.prems(2) by (simp add: logs_run_def)
qed (simp add: logs_run_def)

text \<open>
  C18. Once a break-glass write has been saved, the page keeps the saved config whatever refreshes that were sent
  before still answer, in whatever order and however often; until the user refreshes or writes again.
\<close>

theorem saved_break_glass_survives_old_refreshes:
  assumes "logs_seq_ok s" and "break_glass_busy s" and "list_all (\<lambda>e. \<not> reads_again e) es"
  shows "logs_config (logs_run (BreakGlassSaved c covered # es) s) = Some c"
proof -
  let ?s = "logs_step (BreakGlassSaved c covered) s"
  have "list_all (\<lambda>q. q < logs_refresh_seq ?s) (logs_waiting ?s)"
    using assms(1,2) by (auto simp: logs_step_def logs_seq_ok_def list_all_iff)
  from old_answers_dropped [OF this assms(3)] assms(2) show ?thesis
    by (simp add: logs_run_def logs_step_def)
qed

lemma saved_break_glass_survives_old_refreshes_witness:
  "logs_config (logs_run [BreakGlassSaved (JStr ''new'') None, LogsAnswer 1 (Inr ([], Some (JStr ''old'')))]
     (logs_run [LogsRefresh, BreakGlassClick] \<lparr>logs_refresh_seq = 0, logs_waiting = [], logs_entries = [], logs_config = None,
        break_glass_busy = False, logs_message = ([], False)\<rparr>)) = Some (JStr ''new'')"
  by (rule saved_break_glass_survives_old_refreshes)
    (simp_all add: logs_run_def logs_step_def logs_seq_ok_def reads_again_def)

section \<open>A source added to the break-glass list\<close>

lemma one_address_entry:
  assumes "ipv4_to_int ip = Some n" "list_all addr_char ip"
  shows "entry_covers m (ip @ ''/32'') \<longleftrightarrow> m = n"
proof -
  have ne: "ip \<noteq> []" using assms(1) by (auto simp: ipv4_to_int_def)
  have slash: "\<not> addr_char (CHR ''/'')" "is_digit (CHR ''3'')" "is_digit (CHR ''2'')" by (simp_all add: addr_char_def is_digit_def)
  have ws: "addr_char c \<Longrightarrow> \<not> is_ws c" for c using is_digit_not_ws [of c] by (auto simp: addr_char_def) (simp add: is_ws_def)
  have "trim (ip @ ''/32'') = ip @ ''/32''"
    by (rule trim_all_not_ws) (use assms(2) ws in \<open>auto simp: list_all_iff is_ws_def\<close>)
  moreover have "includes_str (xs @ ''/32'') ''/''" for xs by (induction xs) simp_all
  moreover have "cidr_parts (ip @ ''/32'') = Some (ip, ''32'')"
    using assms(2) ne slash by (simp add: cidr_parts_def takeWhile_append dropWhile_append list_all_iff)
  moreover have "parse_digits ''32'' = 32" by code_simp
  moreover have "x AND 0xffffffff = x" for x :: ipv4
  proof -
    have "(0xffffffff :: ipv4) = -1" by simp
    then show ?thesis by (metis and.right_neutral)
  qed
  ultimately show ?thesis
    using assms(1) ne by (auto simp: entry_covers_def parse_ipv4_cidr_def Let_def)
qed

lemma break_glass_put [simp]: "break_glass_cidrs (put_break_glass c xs) = xs"
  by (simp add: break_glass_cidrs_def put_break_glass_def string_items_texts)

text \<open>
  Adding a line's source to the break-glass list lets exactly that address through in addition to those the
  list had; nothing else of the config changes; and its Undo gives the list back as it was.
\<close>

theorem break_glass_adds_one_address:
  assumes "ipv4_to_int ip = Some n" and "list_all addr_char ip" and "add_break_glass ip c = Inr (True, c')"
  shows "(\<forall>a. ipv4_covered_by_cidr_list a (break_glass_cidrs c') \<longleftrightarrow>
      ipv4_covered_by_cidr_list a (break_glass_cidrs c) \<or> ipv4_to_int a = Some n) \<and>
    (\<forall>k. k \<noteq> ''geo'' \<longrightarrow> member_json c' k = member_json c k) \<and>
    (\<forall>k. k \<noteq> ''break_glass_cidrs'' \<longrightarrow> member_json (geo_of c') k = member_json (geo_of c) k) \<and>
    (\<exists>c2. undo_add_break_glass ip c' = Inr (True, c2) \<and> break_glass_cidrs c2 = break_glass_cidrs c \<and>
      (\<forall>k. k \<noteq> ''geo'' \<longrightarrow> member_json c2 k = member_json c k))"
proof -
  let ?cidr = "ip @ ''/32''"
  define c1 where "c1 = (if truthy (member_json c ''geo'') then c else with_key c ''geo'' (JObj []))"
  have geo: "geo_of c1 = geo_of c" by (simp add: c1_def geo_of_def truthy_def)
  have lst: "break_glass_cidrs c1 = break_glass_cidrs c" by (simp add: break_glass_cidrs_def geo)
  have free: "\<not> ipv4_covered_by_cidr_list ip (break_glass_cidrs c)" and c': "c' = put_break_glass c1 (break_glass_cidrs c @ [?cidr])"
    using assms(3) by (auto simp: add_break_glass_def c1_def [symmetric] lst Let_def split: if_splits)
  have covers: "entry_covers m ?cidr \<longleftrightarrow> m = n" for m by (rule one_address_entry [OF assms(1,2)])
  have "?cidr \<notin> set (break_glass_cidrs c)"
    using free assms(1) covers [of n] by (auto simp: covered_list_iff_some_entry list_ex_iff)
  then have undo: "filter (\<lambda>x. x \<noteq> ?cidr) (break_glass_cidrs c @ [?cidr]) = break_glass_cidrs c" by (auto simp: filter_id_conv)
  have list: "break_glass_cidrs c' = break_glass_cidrs c @ [?cidr]" by (simp add: c')
  have members: "k \<noteq> ''geo'' \<Longrightarrow> member_json c' k = member_json c k" for k by (simp add: c' put_break_glass_def c1_def)
  have "member_json (geo_of c') k = member_json (geo_of c) k" if "k \<noteq> ''break_glass_cidrs''" for k
    using that by (simp add: c' put_break_glass_def geo)
  moreover have "undo_add_break_glass ip c' = Inr (True, put_break_glass c' (break_glass_cidrs c))"
    using undo by (simp add: undo_add_break_glass_def list)
  moreover have "k \<noteq> ''geo'' \<Longrightarrow> member_json (put_break_glass c' xs) k = member_json c k" for k xs
    using members by (simp add: put_break_glass_def)
  ultimately show ?thesis
    using members by (auto simp: list covered_list_iff_some_entry covers)
qed

lemma break_glass_adds_one_address_witness:
  "\<exists>c'. add_break_glass ''10.0.0.9'' (JObj []) = Inr (True, c') \<and> ipv4_covered_by_cidr_list ''10.0.0.9'' (break_glass_cidrs c')"
proof -
  have ip: "ipv4_to_int ''10.0.0.9'' = Some 0x0A000009" "list_all addr_char ''10.0.0.9''" by code_simp+
  obtain c' where c': "add_break_glass ''10.0.0.9'' (JObj []) = Inr (True, c')"
    using ip(1) by (simp add: add_break_glass_def truthy_def break_glass_cidrs_def geo_of_def string_items_def rows_or_none_def list_of_def
        with_key_def ipv4_covered_by_cidr_list_def Let_def)
  from break_glass_adds_one_address [OF ip c'] ip(1) c' show ?thesis by blast
qed

end
