(* ===== verification/Settings.thy ===== *)
theory Settings
  imports Dirty Sidebar Json_Canon Config_Save Table_Cells Net Peers
begin

text \<open>
  \<open>pages/settings.js\<close>: the settings behind one save bar, kept in three stores; the switches that apply at once;
  loading the page; and replacing the whole config by an uploaded file.

  What the API answers is a parameter, as is \<open>JSON.parse\<close>. The preferences the API answers with are objects
  whose members are texts, as its handler writes them.
\<close>

section \<open>Content width\<close>

definition contentWidthCssValues :: "(string \<times> string) list" where
  "contentWidthCssValues = [(''small'', ''900px''), (''medium'', ''1200px''), (''large'', ''1400px''), (''full'', ''100%'')]"

definition get_content_width_preset :: "string option \<Rightarrow> string" where
  "get_content_width_preset stored =
     (case stored of Some v \<Rightarrow> if v \<in> {''small'', ''medium'', ''large'', ''full''} then v else ''medium'' | None \<Rightarrow> ''medium'')"

text \<open>The preset to store and the width applied.\<close>

definition apply_content_max_width :: "string \<Rightarrow> string" where
  "apply_content_max_width preset =
     (case map_of contentWidthCssValues preset of Some v \<Rightarrow> v | None \<Rightarrow> ''1200px'')"

definition set_content_width_preset :: "string \<Rightarrow> string \<times> string" where
  "set_content_width_preset preset =
     (let p = (if preset \<in> set (map fst contentWidthCssValues) then preset else ''medium'') in (p, apply_content_max_width p))"

lemma content_width_read_back:
  "get_content_width_preset (Some (fst (set_content_width_preset p))) = fst (set_content_width_preset p)"
  "snd (set_content_width_preset p) = apply_content_max_width (get_content_width_preset (Some (fst (set_content_width_preset p))))"
  by (auto simp: set_content_width_preset_def get_content_width_preset_def contentWidthCssValues_def Let_def)

section \<open>Preferences and the endpoint's warning\<close>

definition adopt_ui_prefs :: "json \<Rightarrow> ui_prefs" where
  "adopt_ui_prefs p =
     (let subnet = trim (str_or_empty (member_json p ''peer_tunnel_subnet_cidr'')) in
      \<lparr>peer_tunnel_subnet_cidr = (if subnet = [] then default_peer_subnet_cidr else subnet),
       wireguard_server_endpoint = trim (str_or_empty (member_json p ''wireguard_server_endpoint'')),
       metrics_collection_enabled = truthy (member_json p ''metrics_collection_enabled'')\<rparr>)"

definition is_endpoint_warning :: "json \<Rightarrow> bool" where
  "is_endpoint_warning w \<longleftrightarrow> truthy_json w \<and>
     member_json w ''code'' \<in> {Some (JStr ''wg_endpoint_host_mismatch''), Some (JStr ''wg_endpoint_dns_lookup_failed'')}"

text \<open>The warning shown, none without an overview.\<close>

definition refresh_endpoint_host_warning :: "json option \<Rightarrow> string option" where
  "refresh_endpoint_host_warning overview =
     (case overview of
        None \<Rightarrow> None
      | Some ov \<Rightarrow>
          (case find is_endpoint_warning (rows_or_none (member_json ov ''host_warnings'')) of
             None \<Rightarrow> None
           | Some hit \<Rightarrow>
               (let m = js_or (member_json hit ''message'') (member_json hit ''Message'') in
                if truthy m then Some (str_or_empty m) else None)))"

section \<open>The form\<close>

record settings_fields =
  sf_cidr :: string
  sf_endpoint :: string
  sf_interface :: string
  sf_notes :: string

definition text_control :: "string \<Rightarrow> string \<Rightarrow> string \<Rightarrow> control" where
  "text_control i ty v = \<lparr>ctl_id = i, ctl_type = ty, ctl_checked = False, ctl_value = v\<rparr>"

definition settings_controls :: "settings_fields \<Rightarrow> control list" where
  "settings_controls f =
     [text_control ''peer-subnet-cidr'' ''text'' (sf_cidr f), text_control ''settings-wg-endpoint'' ''text'' (sf_endpoint f),
      text_control ''settings-public-interface'' ''text'' (sf_interface f), text_control ''config-notes-body'' ''textarea'' (sf_notes f)]"

text \<open>The three stores, in the order a save writes them.\<close>

datatype settings_store = PrefsStore | ConfigStore | NotesStore

definition settings_store_fields :: "settings_store \<Rightarrow> string list" where
  "settings_store_fields st =
     (case st of PrefsStore \<Rightarrow> [''peer-subnet-cidr'', ''settings-wg-endpoint'']
      | ConfigStore \<Rightarrow> [''settings-public-interface''] | NotesStore \<Rightarrow> [''config-notes-body''])"

definition settings_store_label :: "settings_store \<Rightarrow> string" where
  "settings_store_label st = (case st of PrefsStore \<Rightarrow> ''Preferences'' | ConfigStore \<Rightarrow> ''Public interface'' | NotesStore \<Rightarrow> ''Notes'')"

datatype settings_request = PutPreferences string string | SavePublicInterface string | PutNotes string

definition settings_store_request :: "settings_fields \<Rightarrow> settings_store \<Rightarrow> settings_request" where
  "settings_store_request f st =
     (case st of PrefsStore \<Rightarrow> PutPreferences (trim (sf_cidr f)) (trim (sf_endpoint f))
      | ConfigStore \<Rightarrow> SavePublicInterface (valid_linux_iface_name (trim (sf_interface f))) | NotesStore \<Rightarrow> PutNotes (sf_notes f))"

record settings_page =
  sp_tracker :: tracker
  sp_prefs :: ui_prefs
  sp_interface_loaded :: "string option"
  sp_requests :: "settings_request list"  \<comment> \<open>the requests sent so far\<close>
  sp_prefs_fetched :: bool
  sp_metrics_checked :: bool
  sp_metrics_busy :: bool
  sp_confirm_checked :: bool

definition settings_dirty :: "settings_fields \<Rightarrow> settings_page \<Rightarrow> settings_store \<Rightarrow> bool" where
  "settings_dirty f s st = is_dirty (Some (settings_store_fields st)) (settings_controls f) (sp_tracker s)"

text \<open>What a store that has been written leaves in the page, besides its fields marked as saved.\<close>

definition settings_landed :: "settings_request \<Rightarrow> json \<Rightarrow> settings_page \<Rightarrow> settings_page" where
  "settings_landed r j s =
     (case r of PutPreferences _ _ \<Rightarrow> s\<lparr>sp_prefs := adopt_ui_prefs j\<rparr>
      | SavePublicInterface v \<Rightarrow> s\<lparr>sp_interface_loaded := Some v\<rparr> | PutNotes _ \<Rightarrow> s)"

definition write_store ::
  "(settings_request \<Rightarrow> string + json) \<Rightarrow> settings_fields \<Rightarrow> (settings_store \<Rightarrow> bool) \<Rightarrow>
     settings_page \<times> string list \<times> string list \<Rightarrow> settings_store \<Rightarrow> settings_page \<times> string list \<times> string list" where
  "write_store answer f dirty acc st = (case acc of (s, done_, failed) \<Rightarrow>
     if \<not> dirty st then acc
     else (let r = settings_store_request f st; s1 = s\<lparr>sp_requests := sp_requests s @ [r]\<rparr> in
       case answer r of
         Inl e \<Rightarrow> (s1, done_, failed @ [settings_store_label st @ '': '' @ e])
       | Inr j \<Rightarrow>
           (let s2 = settings_landed r j s1 in
            (s2\<lparr>sp_tracker := mark (Some (settings_store_fields st)) (Some (read_controls (settings_controls f))) (settings_controls f) (sp_tracker s2)\<rparr>,
             done_ @ [settings_store_label st], failed))))"

definition INVALID_CIDR :: string where "INVALID_CIDR = ''Invalid IPv4 CIDR (e.g. 10.100.0.0/24).''"

definition INVALID_INTERFACE :: string where
  "INVALID_INTERFACE = ''Invalid public interface name (1'' @ [CHR 0x96] @ ''15 chars: letters, digits, . _ -).''"

text \<open>What is wrong with the fields, if anything; nothing is written then.\<close>

definition settings_invalid :: "settings_fields \<Rightarrow> settings_page \<Rightarrow> string option" where
  "settings_invalid f s =
     (if trim (sf_cidr f) \<noteq> [] \<and> parse_ipv4_cidr (trim (sf_cidr f)) = None then Some INVALID_CIDR
      else if settings_dirty f s ConfigStore \<and> valid_linux_iface_name (trim (sf_interface f)) = []
      then Some (if trim (sf_interface f) \<noteq> [] then INVALID_INTERFACE else ''Public interface is required.'')
      else None)"

text \<open>\<open>f\<close> is what the fields held when Save was clicked; \<open>Inl\<close> is the message of the error thrown.\<close>

definition save_settings_form ::
  "(settings_request \<Rightarrow> string + json) \<Rightarrow> settings_fields \<Rightarrow> settings_page \<Rightarrow> (string + string) \<times> settings_page" where
  "save_settings_form answer f s =
     (case settings_invalid f s of
        Some m \<Rightarrow> (Inl m, s)
      | None \<Rightarrow>
          (case foldl (write_store answer f (settings_dirty f s)) (s, [], []) [PrefsStore, ConfigStore, NotesStore] of
             (s', done_, failed) \<Rightarrow>
               if failed \<noteq> []
               then (Inl (''Not saved. '' @ join '' '' failed @ (if done_ \<noteq> [] then '' Already saved: '' @ join '', '' done_ @ ''.'' else [])), s')
               else (Inr (if settings_dirty f s ConfigStore then ''Settings saved. The public interface needs Apply.'' else ''Settings saved''), s')))"

text \<open>Edits that set one key of one section of the config, made when it is not there: the public interface, and the switch of Apply's confirmation.\<close>

definition section_of :: "json \<Rightarrow> string \<Rightarrow> json" where
  "section_of c sec = (if truthy (member_json c sec) then the (member_json c sec) else JObj [])"

definition section_edit :: "string \<Rightarrow> string \<Rightarrow> json \<Rightarrow> edit" where
  "section_edit sec k v c = Inr (True, with_key c sec (with_key (section_of c sec) k v))"

definition public_interface_edit :: "string \<Rightarrow> edit" where
  "public_interface_edit v = section_edit ''network'' ''public_interface'' (JStr v)"

definition apply_confirm_edit :: "bool \<Rightarrow> edit" where
  "apply_confirm_edit v = section_edit ''apply'' ''confirm'' (JBool v)"

definition apply_confirm_text :: "bool \<Rightarrow> string" where
  "apply_confirm_text v = ''Revert Apply unless confirmed: '' @ (if v then ''on'' else ''off'')"

definition apply_confirm_of :: "json \<Rightarrow> bool" where
  "apply_confirm_of c = truthy (member_json (section_of c ''apply'') ''confirm'')"

lemma section_edit_only:
  assumes "section_edit sec k v c = Inr (True, c')"
  shows "member_json (section_of c' sec) k = Some v" "q \<noteq> k \<Longrightarrow> member_json (section_of c' sec) q = member_json (section_of c sec) q"
    "q \<noteq> sec \<Longrightarrow> member_json c' q = member_json c q"
proof -
  have c': "c' = with_key c sec (with_key (section_of c sec) k v)" using assms by (simp add: section_edit_def)
  have "truthy (Some (with_key x k v))" for x by (cases x) (simp_all add: truthy_def with_key_def)
  then have sec: "section_of c' sec = with_key (section_of c sec) k v" unfolding section_of_def [of c' sec] by (simp add: c')
  then show "member_json (section_of c' sec) k = Some v" by simp
  show "q \<noteq> k \<Longrightarrow> member_json (section_of c' sec) q = member_json (section_of c sec) q" by (simp add: sec)
  show "q \<noteq> sec \<Longrightarrow> member_json c' q = member_json c q" by (simp add: c')
qed

section \<open>Switches that apply at once\<close>

text \<open>The switch of the metrics: its start, its answer; a flip while a write is out is taken back.\<close>

definition set_metrics_collection :: "bool \<Rightarrow> settings_page \<Rightarrow> settings_page" where
  "set_metrics_collection on s = (if sp_metrics_busy s then s else s\<lparr>sp_metrics_busy := True, sp_metrics_checked := on\<rparr>)"

definition metrics_answer :: "bool \<Rightarrow> string + json \<Rightarrow> settings_page \<Rightarrow> settings_page" where
  "metrics_answer on answer s =
     (case answer of
        Inr j \<Rightarrow> s\<lparr>sp_prefs := adopt_ui_prefs j, sp_metrics_busy := False,
          sp_metrics_checked := metrics_collection_enabled (adopt_ui_prefs j)\<rparr>
      | Inl _ \<Rightarrow> s\<lparr>sp_metrics_busy := False, sp_metrics_checked := \<not> on\<rparr>)"

definition metrics_toggle_change :: "settings_page \<Rightarrow> settings_page" where
  "metrics_toggle_change s0 =
     (let s = s0\<lparr>sp_metrics_checked := \<not> sp_metrics_checked s0\<rparr> in
      if sp_metrics_busy s then s\<lparr>sp_metrics_checked := \<not> sp_metrics_checked s\<rparr> else set_metrics_collection (sp_metrics_checked s) s)"

text \<open>The switch shows what was asked for while the write is out, then what the host has, or what it was before.\<close>

lemma metrics_switch_follows_the_host:
  assumes "\<not> sp_metrics_busy s"
  shows "sp_metrics_checked ((metrics_toggle_change ^^ Suc n) s) = (\<not> sp_metrics_checked s)"
    "sp_metrics_checked (metrics_answer (\<not> sp_metrics_checked s) (Inl e) ((metrics_toggle_change ^^ Suc n) s)) = sp_metrics_checked s"
    "sp_tracker ((metrics_toggle_change ^^ Suc n) s) = sp_tracker s"
proof -
  have "(metrics_toggle_change ^^ Suc n) s = s\<lparr>sp_metrics_busy := True, sp_metrics_checked := \<not> sp_metrics_checked s\<rparr>"
    by (induction n) (simp_all add: metrics_toggle_change_def set_metrics_collection_def assms Let_def)
  then show "sp_metrics_checked ((metrics_toggle_change ^^ Suc n) s) = (\<not> sp_metrics_checked s)"
    "sp_metrics_checked (metrics_answer (\<not> sp_metrics_checked s) (Inl e) ((metrics_toggle_change ^^ Suc n) s)) = sp_metrics_checked s"
    "sp_tracker ((metrics_toggle_change ^^ Suc n) s) = sp_tracker s"
    by (simp_all add: metrics_answer_def del: funpow.simps)
qed

text \<open>The switch of Apply's confirmation after its save, its Undo or its failure.\<close>

definition apply_confirm_saved :: "bool \<Rightarrow> string + unit \<Rightarrow> settings_page \<Rightarrow> settings_page" where
  "apply_confirm_saved on answer s = (case answer of Inr _ \<Rightarrow> s\<lparr>sp_confirm_checked := on\<rparr> | Inl _ \<Rightarrow> s\<lparr>sp_confirm_checked := \<not> on\<rparr>)"

definition apply_confirm_undone :: "json \<Rightarrow> settings_page \<Rightarrow> settings_page" where
  "apply_confirm_undone c s = s\<lparr>sp_confirm_checked := apply_confirm_of c\<rparr>"

section \<open>Loading the page\<close>

text \<open>\<open>None\<close> is a request that failed; \<open>subnet\<close> and \<open>endpoint\<close> are what the browser keeps.\<close>

definition load_prefs :: "string option \<Rightarrow> string option \<Rightarrow> ui_prefs option \<Rightarrow> settings_page \<Rightarrow> settings_page" where
  "load_prefs subnet endpoint answer s =
     (case answer of
        Some p \<Rightarrow> s\<lparr>sp_prefs := fetch_ui_prefs_from_server subnet endpoint p, sp_prefs_fetched := True\<rparr>
      | None \<Rightarrow> if sp_prefs_fetched s then s else s\<lparr>sp_prefs := migrate_from_local_storage_if_empty subnet endpoint no_prefs\<rparr>)"

definition show_prefs :: "settings_fields \<times> settings_page \<Rightarrow> settings_fields \<times> settings_page" where
  "show_prefs fs = (case fs of (f, s) \<Rightarrow>
     (let p = sp_prefs s; cidr = trim (peer_tunnel_subnet_cidr p) in
      (f\<lparr>sf_cidr := (if cidr = [] then default_peer_subnet_cidr else cidr), sf_endpoint := trim (wireguard_server_endpoint p)\<rparr>,
       if sp_metrics_busy s then s else s\<lparr>sp_metrics_checked := metrics_collection_enabled p\<rparr>)))"

definition show_config :: "json option \<Rightarrow> settings_fields \<times> settings_page \<Rightarrow> settings_fields \<times> settings_page" where
  "show_config answer fs = (case fs of (f, s) \<Rightarrow>
     (case answer of
        Some c \<Rightarrow>
          if truthy_json c
          then (let v = trim (str_or_empty (member_json (section_of c ''network'') ''public_interface'')) in
            (f\<lparr>sf_interface := v\<rparr>, s\<lparr>sp_interface_loaded := Some v, sp_confirm_checked := apply_confirm_of c\<rparr>))
          else fs
      | None \<Rightarrow> if sp_interface_loaded s = None then (f\<lparr>sf_interface := []\<rparr>, s) else fs))"

definition show_notes :: "json option \<Rightarrow> settings_fields \<times> settings_page \<Rightarrow> settings_fields \<times> settings_page" where
  "show_notes answer fs = (case answer of Some n \<Rightarrow> ((fst fs)\<lparr>sf_notes := str_or_nothing (member_json n ''text'')\<rparr>, snd fs) | None \<Rightarrow> fs)"

definition load_settings_page ::
  "string option \<Rightarrow> string option \<Rightarrow> ui_prefs option \<Rightarrow> json option \<Rightarrow> json option \<Rightarrow> settings_fields \<Rightarrow> settings_page \<Rightarrow> settings_fields \<times> settings_page" where
  "load_settings_page subnet endpoint prefs config notes f s =
     (case show_notes notes (show_config config (show_prefs (f, load_prefs subnet endpoint prefs s))) of
        (f', s') \<Rightarrow> (f', s'\<lparr>sp_tracker := mark None None (settings_controls f') (sp_tracker s')\<rparr>))"

text \<open>A loaded page has nothing unsaved, and a failed load never blanks what an earlier one read.\<close>

lemma loaded_settings_are_clean:
  assumes "load_settings_page subnet endpoint prefs config notes f s = (f', s')"
  shows "\<not> is_dirty None (settings_controls f') (sp_tracker s')" "\<not> settings_dirty f' s' st"
    "config = None \<Longrightarrow> sp_interface_loaded s \<noteq> None \<Longrightarrow> sf_interface f' = sf_interface f"
    "notes = None \<Longrightarrow> sf_notes f' = sf_notes f"
    "prefs = None \<Longrightarrow> sp_prefs_fetched s \<Longrightarrow> sp_prefs s' = sp_prefs s"
proof -
  obtain g t where gt: "show_notes notes (show_config config (show_prefs (f, load_prefs subnet endpoint prefs s))) = (g, t)" by fastforce
  then have f': "g = f'" "s' = t\<lparr>sp_tracker := mark None None (settings_controls f') (sp_tracker t)\<rparr>"
    using assms by (auto simp: load_settings_page_def)
  then show "\<not> is_dirty None (settings_controls f') (sp_tracker s')" by simp
  have b: "sp_tracker s' = Some (read_controls (settings_controls f'))" by (simp add: f' mark_def split: option.split)
  show "\<not> settings_dirty f' s' st"
    unfolding settings_dirty_def is_dirty_def b by (simp add: Let_def list_ex_iff)
  show "config = None \<Longrightarrow> sp_interface_loaded s \<noteq> None \<Longrightarrow> sf_interface f' = sf_interface f"
    using gt by (auto simp: f' show_notes_def show_config_def show_prefs_def load_prefs_def Let_def split: option.splits if_splits prod.splits)
  show "notes = None \<Longrightarrow> sf_notes f' = sf_notes f"
    using gt by (auto simp: f' show_notes_def show_config_def show_prefs_def Let_def split: option.splits if_splits prod.splits)
  show "prefs = None \<Longrightarrow> sp_prefs_fetched s \<Longrightarrow> sp_prefs s' = sp_prefs s"
    using gt by (auto simp: f' show_notes_def show_config_def show_prefs_def load_prefs_def Let_def split: option.splits if_splits prod.splits)
qed

text \<open>For each of the three tabs: whether it is active, and whether its panel is hidden.\<close>

definition set_settings_editor_tab :: "string \<Rightarrow> (string \<times> bool \<times> bool) list" where
  "set_settings_editor_tab which = map (\<lambda>t. (t, which = t, which \<noteq> t)) [''prefs'', ''maint'', ''adv'']"

section \<open>What a save marks\<close>

lemma settings_fields_read:
  "value_at (read_controls (settings_controls f)) ''peer-subnet-cidr'' = Some (JStr (sf_cidr f))"
  "value_at (read_controls (settings_controls f)) ''settings-wg-endpoint'' = Some (JStr (sf_endpoint f))"
  "value_at (read_controls (settings_controls f)) ''settings-public-interface'' = Some (JStr (sf_interface f))"
  "value_at (read_controls (settings_controls f)) ''config-notes-body'' = Some (JStr (sf_notes f))"
  by (simp_all add: settings_controls_def text_control_def read_controls_def value_at_def is_read_def control_key_def
      control_json_def is_toggle_def upt_rec)

text \<open>What the fields of a store hold.\<close>

definition store_values :: "settings_fields \<Rightarrow> settings_store \<Rightarrow> string list" where
  "store_values f st = (case st of PrefsStore \<Rightarrow> [sf_cidr f, sf_endpoint f] | ConfigStore \<Rightarrow> [sf_interface f] | NotesStore \<Rightarrow> [sf_notes f])"

lemma value_at_put_key [simp]: "value_at (put_key k v b) i = (if i = k then v else value_at b i)"
  by (simp add: value_at_def)

lemma settings_dirty_baseline:
  assumes "sp_tracker s = Some b"
  shows "settings_dirty f s st \<longleftrightarrow> map (value_at b) (settings_store_fields st) \<noteq> map (\<lambda>v. Some (JStr v)) (store_values f st)"
  using assms by (cases st) (auto simp: settings_dirty_def is_dirty_def settings_store_fields_def settings_fields_read store_values_def)

lemma write_store_cases:
  assumes "write_store answer f dirty (s, dn, fl) st = (s', dn', fl')" "sp_tracker s = Some b"
  shows "\<exists>b'. sp_tracker s' = Some b' \<and>
    map (value_at b') (settings_store_fields st') =
      (if st' = st \<and> dirty st \<and> (\<exists>j. answer (settings_store_request f st) = Inr j) then map (\<lambda>v. Some (JStr v)) (store_values f st)
       else map (value_at b) (settings_store_fields st')) \<and>
    sp_requests s' = sp_requests s @ (if dirty st then [settings_store_request f st] else []) \<and>
    (fl' = [] \<longleftrightarrow> fl = [] \<and> (dirty st \<longrightarrow> (\<exists>j. answer (settings_store_request f st) = Inr j)))"
proof (cases "dirty st")
  case True
  show ?thesis
  proof (cases "answer (settings_store_request f st)")
    case (Inl e)
    then show ?thesis using assms True by (auto simp: write_store_def Let_def)
  next
    case (Inr j)
    have landed: "sp_tracker (settings_landed r j t) = sp_tracker t" "sp_requests (settings_landed r j t) = sp_requests t" for r t
      by (simp_all add: settings_landed_def split: settings_request.split)
    let ?b = "foldl (\<lambda>b i. put_key i (value_at (read_controls (settings_controls f)) i) b) b (settings_store_fields st)"
    have "sp_tracker s' = Some ?b" "sp_requests s' = sp_requests s @ [settings_store_request f st]" "fl' = fl"
      using assms True Inr by (auto simp: write_store_def Let_def landed mark_def)
    moreover have "map (value_at ?b) (settings_store_fields st') =
        (if st' = st then map (\<lambda>v. Some (JStr v)) (store_values f st) else map (value_at b) (settings_store_fields st'))"
      by (cases st; cases st') (simp_all add: settings_store_fields_def settings_fields_read store_values_def)
    ultimately show ?thesis using True Inr by auto
  qed
qed (use assms in \<open>auto simp: write_store_def\<close>)

lemma write_stores:
  assumes "foldl (write_store answer f dirty) (s, dn, fl) sts = (s', dn', fl')" "sp_tracker s = Some b" "distinct sts"
  shows "\<exists>b'. sp_tracker s' = Some b' \<and>
    (\<forall>st. map (value_at b') (settings_store_fields st) =
      (if st \<in> set sts \<and> dirty st \<and> (\<exists>j. answer (settings_store_request f st) = Inr j) then map (\<lambda>v. Some (JStr v)) (store_values f st)
       else map (value_at b) (settings_store_fields st))) \<and>
    sp_requests s' = sp_requests s @ map (settings_store_request f) (filter dirty sts) \<and>
    (fl' = [] \<longleftrightarrow> fl = [] \<and> list_all (\<lambda>st. dirty st \<longrightarrow> (\<exists>j. answer (settings_store_request f st) = Inr j)) sts)"
  using assms
proof (induction sts arbitrary: s dn fl b)
  case (Cons st sts)
  obtain s1 dn1 fl1 where w: "write_store answer f dirty (s, dn, fl) st = (s1, dn1, fl1)" by (metis prod_cases3)
  obtain b1 where b1: "sp_tracker s1 = Some b1" using write_store_cases [OF w Cons.prems(2)] by blast
  have step: "map (value_at b1) (settings_store_fields st') =
      (if st' = st \<and> dirty st \<and> (\<exists>j. answer (settings_store_request f st) = Inr j) then map (\<lambda>v. Some (JStr v)) (store_values f st)
       else map (value_at b) (settings_store_fields st'))"
    "sp_requests s1 = sp_requests s @ (if dirty st then [settings_store_request f st] else [])"
    "fl1 = [] \<longleftrightarrow> fl = [] \<and> (dirty st \<longrightarrow> (\<exists>j. answer (settings_store_request f st) = Inr j))" for st'
    using write_store_cases [OF w Cons.prems(2), of st'] b1 by auto
  have "foldl (write_store answer f dirty) (s1, dn1, fl1) sts = (s', dn', fl')" "distinct sts" "st \<notin> set sts"
    using Cons.prems(1,3) w by auto
  with Cons.IH [OF this(1) b1 this(2)] obtain b' where b': "sp_tracker s' = Some b'"
    "\<And>st'. map (value_at b') (settings_store_fields st') =
      (if st' \<in> set sts \<and> dirty st' \<and> (\<exists>j. answer (settings_store_request f st') = Inr j) then map (\<lambda>v. Some (JStr v)) (store_values f st')
       else map (value_at b1) (settings_store_fields st'))"
    "sp_requests s' = sp_requests s1 @ map (settings_store_request f) (filter dirty sts)"
    "fl' = [] \<longleftrightarrow> fl1 = [] \<and> list_all (\<lambda>st. dirty st \<longrightarrow> (\<exists>j. answer (settings_store_request f st) = Inr j)) sts" by blast
  have "map (value_at b') (settings_store_fields st') =
      (if st' \<in> set (st # sts) \<and> dirty st' \<and> (\<exists>j. answer (settings_store_request f st') = Inr j)
       then map (\<lambda>v. Some (JStr v)) (store_values f st') else map (value_at b) (settings_store_fields st'))" for st'
    using b'(2) [of st'] step(1) [of st'] by (cases "st' = st") auto
  moreover have "sp_requests s' = sp_requests s @ map (settings_store_request f) (filter dirty (st # sts))"
    using b'(3) step(2) by simp
  moreover have "fl' = [] \<longleftrightarrow> fl = [] \<and> list_all (\<lambda>st. dirty st \<longrightarrow> (\<exists>j. answer (settings_store_request f st) = Inr j)) (st # sts)"
    using b'(4) step(3) by auto
  ultimately show ?case using b'(1) by blast
qed simp

definition landed_in :: "(settings_request \<Rightarrow> string + json) \<Rightarrow> settings_fields \<Rightarrow> settings_page \<Rightarrow> settings_store \<Rightarrow> bool" where
  "landed_in answer f s st \<longleftrightarrow> settings_dirty f s st \<and> (case answer (settings_store_request f st) of Inl _ \<Rightarrow> False | Inr _ \<Rightarrow> True)"

abbreviation settings_stores :: "settings_store list" where
  "settings_stores \<equiv> [PrefsStore, ConfigStore, NotesStore]"

lemma all_settings_stores: "st \<in> set settings_stores"
  by (cases st) auto

text \<open>One save: what is sent, what reads as saved afterwards, and when it succeeds.\<close>

lemma save_settings_outcome:
  assumes "sp_tracker s = Some b" "settings_invalid f s = None" "save_settings_form answer f s = (r, s')"
  shows "sp_requests s' = sp_requests s @ map (settings_store_request f) (filter (settings_dirty f s) settings_stores)"
    and "settings_dirty g s' st \<longleftrightarrow> (if landed_in answer f s st then store_values g st \<noteq> store_values f st else settings_dirty g s st)"
    and "(\<exists>t. r = Inr t) \<longleftrightarrow> list_all (\<lambda>st. settings_dirty f s st \<longrightarrow> landed_in answer f s st) settings_stores"
    and "\<exists>b'. sp_tracker s' = Some b'"
proof -
  let ?d = "settings_dirty f s"
  obtain s1 dn fl where run: "foldl (write_store answer f ?d) (s, [], []) settings_stores = (s1, dn, fl)" by (metis prod_cases3)
  have s': "s' = s1" "(\<exists>t. r = Inr t) \<longleftrightarrow> fl = []"
    using assms(2,3) run by (auto simp: save_settings_form_def split: if_splits)
  have ok: "(\<exists>j. answer (settings_store_request f st) = Inr j) \<longleftrightarrow> (case answer (settings_store_request f st) of Inl _ \<Rightarrow> False | Inr _ \<Rightarrow> True)" for st
    by (simp split: sum.split)
  obtain b' where b': "sp_tracker s1 = Some b'"
    "\<And>st. map (value_at b') (settings_store_fields st) =
      (if landed_in answer f s st then map (\<lambda>v. Some (JStr v)) (store_values f st) else map (value_at b) (settings_store_fields st))"
    "sp_requests s1 = sp_requests s @ map (settings_store_request f) (filter ?d settings_stores)"
    "fl = [] \<longleftrightarrow> list_all (\<lambda>st. ?d st \<longrightarrow> landed_in answer f s st) settings_stores"
    using write_stores [OF run assms(1)] unfolding ok landed_in_def using all_settings_stores by auto
  show "sp_requests s' = sp_requests s @ map (settings_store_request f) (filter ?d settings_stores)" using b'(3) s' by simp
  show "(\<exists>t. r = Inr t) \<longleftrightarrow> list_all (\<lambda>st. ?d st \<longrightarrow> landed_in answer f s st) settings_stores" using b'(4) s' by simp
  show "\<exists>b'. sp_tracker s' = Some b'" using b'(1) s' by simp
  have texts: "map (\<lambda>v. Some (JStr v)) xs = map (\<lambda>v. Some (JStr v)) ys \<longleftrightarrow> xs = ys" for xs ys :: "string list"
    by (rule inj_map_eq_map) (simp add: inj_def)
  show "settings_dirty g s' st \<longleftrightarrow> (if landed_in answer f s st then store_values g st \<noteq> store_values f st else settings_dirty g s st)"
    using b'(2) [of st] settings_dirty_baseline [OF b'(1), of g st] settings_dirty_baseline [OF assms(1), of g st] texts
    by (auto simp: s')
qed

text \<open>
  C16. A save may land in some stores only. Whatever the API answers, exactly the changed stores are sent; what
  landed reads as saved, and only an edit made since makes it unsaved again, while what failed stays unsaved; the save
  succeeds when nothing failed; and saving again sends just what failed the first time.
\<close>

theorem settings_save_retries_only_what_failed:
  assumes "sp_tracker s = Some b" and "settings_invalid f s = None"
    and "save_settings_form answer f s = (r, s1)" and "save_settings_form answer' f s1 = (r', s2)"
  shows "(\<forall>g st. settings_dirty g s1 st \<longleftrightarrow>
      (if landed_in answer f s st then store_values g st \<noteq> store_values f st else settings_dirty g s st)) \<and>
    sp_requests s1 = sp_requests s @ map (settings_store_request f) (filter (settings_dirty f s) settings_stores) \<and>
    ((\<exists>t. r = Inr t) \<longleftrightarrow> list_all (\<lambda>st. settings_dirty f s st \<longrightarrow> landed_in answer f s st) settings_stores) \<and>
    sp_requests s2 = sp_requests s1 @
      map (settings_store_request f) (filter (\<lambda>st. settings_dirty f s st \<and> \<not> landed_in answer f s st) settings_stores)"
proof -
  note one = save_settings_outcome [OF assms(1-3)]
  obtain b1 where b1: "sp_tracker s1 = Some b1" using one(4) by blast
  have d: "settings_dirty f s1 st \<longleftrightarrow> settings_dirty f s st \<and> \<not> landed_in answer f s st" for st using one(2) [of f st] by auto
  have "settings_invalid f s1 = None" using assms(2) by (auto simp: settings_invalid_def d split: if_splits)
  from save_settings_outcome(1) [OF b1 this assms(4)] one show ?thesis by (simp add: d)
qed

definition toy_settings :: settings_page where
  "toy_settings = \<lparr>sp_tracker = mark None None (settings_controls \<lparr>sf_cidr = [], sf_endpoint = [], sf_interface = ''eth0'', sf_notes = []\<rparr>) None,
     sp_prefs = no_prefs, sp_interface_loaded = Some ''eth0'', sp_requests = [],
     sp_prefs_fetched = True, sp_metrics_checked = False, sp_metrics_busy = False, sp_confirm_checked = False\<rparr>"

lemma settings_save_retries_only_what_failed_witness:
  "sp_requests (snd (save_settings_form (\<lambda>_. Inr JNull) \<lparr>sf_cidr = [], sf_endpoint = ''vpn:1'', sf_interface = ''eth0'', sf_notes = ''why''\<rparr>
     (snd (save_settings_form (\<lambda>q. case q of PutNotes _ \<Rightarrow> Inl ''no answer'' | _ \<Rightarrow> Inr JNull)
       \<lparr>sf_cidr = [], sf_endpoint = ''vpn:1'', sf_interface = ''eth0'', sf_notes = ''why''\<rparr> toy_settings)))) =
   [PutPreferences [] ''vpn:1'', PutNotes ''why'', PutNotes ''why'']"
proof -
  let ?f = "\<lparr>sf_cidr = [], sf_endpoint = ''vpn:1'', sf_interface = ''eth0'', sf_notes = ''why''\<rparr>"
  let ?a = "\<lambda>q. case q of PutNotes _ \<Rightarrow> Inl ''no answer'' | _ \<Rightarrow> Inr JNull"
  have t: "sp_tracker toy_settings = Some (read_controls (settings_controls \<lparr>sf_cidr = [], sf_endpoint = [], sf_interface = ''eth0'', sf_notes = []\<rparr>))"
    by (simp add: toy_settings_def mark_def)
  have d: "settings_dirty ?f toy_settings st \<longleftrightarrow> st \<noteq> ConfigStore" for st
    unfolding settings_dirty_baseline [OF t] by (cases st) (simp_all add: settings_store_fields_def settings_fields_read store_values_def)
  have i: "settings_invalid ?f toy_settings = None" by (simp add: settings_invalid_def d trim_def)
  have ep: "trim ''vpn:1'' = ''vpn:1''" by code_simp
  obtain r s1 r' s2 where run: "save_settings_form ?a ?f toy_settings = (r, s1)" "save_settings_form (\<lambda>_. Inr JNull) ?f s1 = (r', s2)"
    by (metis prod.exhaust)
  from settings_save_retries_only_what_failed [OF t i run]
  show ?thesis by (simp add: run d landed_in_def settings_store_request_def ep) (simp add: toy_settings_def trim_def)
qed

end
