(* ===== verification/Config_Upload.thy ===== *)
theory Config_Upload
  imports Settings
begin

text \<open>
  \<open>pages/settings.js\<close>, the maintenance tab: replacing the whole config by an uploaded JSON file, restoring and
  backing up the host's files, and the name of a downloaded report.

  \<open>JSON.parse\<close> is a parameter, as are dates and the answers of the backup requests.
\<close>

section \<open>Comparing two configs\<close>

text \<open>Objects with their keys in order, at every depth.\<close>

primrec stable_sort_keys :: "json \<Rightarrow> json" where
  "stable_sort_keys JNull = JNull"
| "stable_sort_keys (JBool b) = JBool b"
| "stable_sort_keys (JNum n) = JNum n"
| "stable_sort_keys (JStr s) = JStr s"
| "stable_sort_keys (JArr xs) = JArr (map stable_sort_keys xs)"
| "stable_sort_keys (JObj kvs) = JObj (sort_key fst (map (map_prod id stable_sort_keys) kvs))"

definition stable_config_json :: "jsval \<Rightarrow> string" where
  "stable_config_json cfg = stringify (case cfg of None \<Rightarrow> JNull | Some j \<Rightarrow> stable_sort_keys j)"

text \<open>The reference: two values with the same members at every depth, whatever the order of their keys.\<close>

primrec same_members :: "json \<Rightarrow> json \<Rightarrow> bool" where
  "same_members JNull w = (w = JNull)"
| "same_members (JBool b) w = (w = JBool b)"
| "same_members (JNum n) w = (w = JNum n)"
| "same_members (JStr s) w = (w = JStr s)"
| "same_members (JArr xs) w =
     (case w of JArr ys \<Rightarrow> list_all2 (\<lambda>p y. p y) (map same_members xs) ys | _ \<Rightarrow> False)"
| "same_members (JObj kvs) w =
     (case w of
        JObj kws \<Rightarrow> length kvs = length kws \<and>
          list_all (\<lambda>(k, p). case map_of kws k of None \<Rightarrow> False | Some y \<Rightarrow> p y) (map (map_prod id same_members) kvs)
      | _ \<Rightarrow> False)"

lemma sort_key_members_eq_iff:
  fixes kvs ms :: "(string \<times> 'a) list"
  assumes "distinct (map fst kvs)" "distinct (map fst ms)"
  shows "sort_key fst kvs = sort_key fst ms \<longleftrightarrow> map_of kvs = map_of ms"
proof -
  have d: "distinct (map fst (sort_key fst xs))" "map_of (sort_key fst xs) = map_of xs" if "distinct (map fst xs)" for xs :: "(string \<times> 'a) list"
  proof -
    have "mset (map fst (sort_key fst xs)) = mset (map fst xs)" by simp
    then show d: "distinct (map fst (sort_key fst xs))" using that by (metis mset_eq_imp_distinct_iff)
    then show "map_of (sort_key fst xs) = map_of xs" using that by (subst map_of_inject_set) auto
  qed
  show ?thesis
  proof
    assume eq: "map_of kvs = map_of ms"
    then have set: "set (sort_key fst kvs) = set (sort_key fst ms)" using assms by (simp add: map_of_inject_set)
    then have "inj_on fst (set (sort_key fst kvs) \<union> set (sort_key fst ms))"
      using d(1) [OF assms(1)] by (simp add: distinct_map)
    then show "sort_key fst kvs = sort_key fst ms"
      using set d(1) [OF assms(1)] d(1) [OF assms(2)] by (intro map_sorted_distinct_set_unique) simp_all
  next
    assume "sort_key fst kvs = sort_key fst ms"
    then show "map_of kvs = map_of ms" using d(2) assms by metis
  qed
qed

lemma map_of_eq_iff_members:
  assumes "distinct (map fst kvs)" "distinct (map fst ms)"
  shows "map_of (map (map_prod id f) kvs) = map_of (map (map_prod id f) ms) \<longleftrightarrow>
    length kvs = length ms \<and> list_all (\<lambda>(k, v). case map_of ms k of None \<Rightarrow> False | Some y \<Rightarrow> f v = f y) kvs"
proof -
  have map: "map_of (map (map_prod id f) xs) k = map_option f (map_of xs k)" for xs :: "('a \<times> 'b) list" and k
    by (induction xs) auto
  have len: "card (dom (map_of xs)) = length xs" if "distinct (map fst xs)" for xs :: "('a \<times> 'b) list"
    using that by (metis dom_map_of_conv_image_fst distinct_card length_map set_map)
  show ?thesis
  proof
    assume eq: "map_of (map (map_prod id f) kvs) = map_of (map (map_prod id f) ms)"
    then have o: "map_option f (map_of kvs k) = map_option f (map_of ms k)" for k by (metis map)
    then have "map_of kvs k = None \<longleftrightarrow> map_of ms k = None" for k
      using o [of k] by (cases "map_of kvs k"; cases "map_of ms k") simp_all
    then have "dom (map_of kvs) = dom (map_of ms)" by (simp only: dom_def)
    then have "length kvs = length ms" using len [OF assms(1)] len [OF assms(2)] by simp
    moreover have "case map_of ms k of None \<Rightarrow> False | Some y \<Rightarrow> f v = f y" if "(k, v) \<in> set kvs" for k v
      using o [of k] map_of_is_SomeI [OF assms(1) that] by (cases "map_of ms k"; simp)
    ultimately show "length kvs = length ms \<and> list_all (\<lambda>(k, v). case map_of ms k of None \<Rightarrow> False | Some y \<Rightarrow> f v = f y) kvs"
      by (auto simp: list_all_iff)
  next
    assume r: "length kvs = length ms \<and> list_all (\<lambda>(k, v). case map_of ms k of None \<Rightarrow> False | Some y \<Rightarrow> f v = f y) kvs"
    then have sub: "\<exists>y. map_of ms k = Some y \<and> f v = f y" if "map_of kvs k = Some v" for k v
      using map_of_SomeD [OF that] by (auto simp: list_all_iff split: option.splits)
    then have "dom (map_of kvs) \<subseteq> dom (map_of ms)" by blast
    then have dom: "dom (map_of kvs) = dom (map_of ms)"
      using r len [OF assms(1)] len [OF assms(2)] by (intro card_subset_eq) (simp_all add: finite_dom_map_of)
    have "map_option f (map_of kvs k) = map_option f (map_of ms k)" for k
    proof (cases "map_of kvs k")
      case None
      then have "map_of ms k = None" using dom by (metis domIff)
      with None show ?thesis by simp
    next
      case (Some v)
      from sub [OF this] Some show ?thesis by auto
    qed
    then show "map_of (map (map_prod id f) kvs) = map_of (map (map_prod id f) ms)" by (simp add: fun_eq_iff map)
  qed
qed

lemma stable_sort_atom: "JNull = stable_sort_keys b \<longleftrightarrow> b = JNull" "JBool v = stable_sort_keys b \<longleftrightarrow> b = JBool v"
  "JNum n = stable_sort_keys b \<longleftrightarrow> b = JNum n" "JStr s = stable_sort_keys b \<longleftrightarrow> b = JStr s"
  by (cases b; auto)+

lemma stable_sort_keys_iff:
  "wf_json a \<Longrightarrow> wf_json b \<Longrightarrow> stable_sort_keys a = stable_sort_keys b \<longleftrightarrow> same_members a b"
proof (induction a arbitrary: b)
  case (JArr xs)
  show ?case
  proof (cases b)
    case (JArr ys)
    have elem: "stable_sort_keys x = stable_sort_keys y \<longleftrightarrow> same_members x y" if "x \<in> set xs" "y \<in> set ys" for x y
      using JArr.IH [OF that(1), of y] JArr.prems that unfolding \<open>b = JArr ys\<close> by (simp add: list_all_iff)
    have "map stable_sort_keys xs = map stable_sort_keys ys \<longleftrightarrow> list_all2 (\<lambda>x y. stable_sort_keys x = stable_sort_keys y) xs ys"
      by (auto simp: list_eq_iff_nth_eq list_all2_conv_all_nth)
    also have "\<dots> \<longleftrightarrow> list_all2 same_members xs ys"
      by (rule list.rel_cong [OF refl refl]) (rule elem)
    finally have "map stable_sort_keys xs = map stable_sort_keys ys \<longleftrightarrow> list_all2 same_members xs ys" .
    then show ?thesis by (simp add: JArr list_all2_map1)
  qed simp_all
next
  case (JObj kvs)
  show ?case
  proof (cases b)
    case (JObj kws)
    have d: "distinct (map fst kvs)" "distinct (map fst kws)" using JObj.prems \<open>b = JObj kws\<close> by simp_all
    then have ds: "distinct (map fst (map (map_prod id stable_sort_keys) kvs))" "distinct (map fst (map (map_prod id stable_sort_keys) kws))"
      by (simp_all add: comp_def)
    have wf: "wf_json v" if "(k, v) \<in> set kvs \<union> set kws" for k v
      using that JObj.prems unfolding \<open>b = JObj kws\<close> by (force simp: list_all_iff)
    have elem: "stable_sort_keys v = stable_sort_keys y \<longleftrightarrow> same_members v y" if "(k, v) \<in> set kvs" "map_of kws k = Some y" for k v y
      using JObj.IH [of "(k, v)" v y] that wf [of k v] wf [of k y] map_of_SomeD [OF that(2)] by simp
    have "list_all (\<lambda>(k, v). case map_of kws k of None \<Rightarrow> False | Some y \<Rightarrow> stable_sort_keys v = stable_sort_keys y) kvs \<longleftrightarrow>
        list_all (\<lambda>(k, v). case map_of kws k of None \<Rightarrow> False | Some y \<Rightarrow> same_members v y) kvs"
      by (rule list.pred_cong [OF refl]) (auto simp: elem split: option.split)
    also have "\<dots> \<longleftrightarrow> list_all (\<lambda>(k, p). case map_of kws k of None \<Rightarrow> False | Some y \<Rightarrow> p y) (map (map_prod id same_members) kvs)"
      by (auto simp: list_all_iff split: option.splits)
    finally show ?thesis
      by (simp add: JObj sort_key_members_eq_iff [OF ds] map_of_eq_iff_members [OF d])
  qed simp_all
qed (simp_all add: stable_sort_atom)

text \<open>
  An uploaded config is reported to match the server's exactly when the two have the same members with the same
  values at every depth, in whatever order their keys were written; the order of a list counts.
\<close>

theorem upload_matches_iff_same_members:
  assumes "wf_json a" and "wf_json b"
  shows "stable_config_json (Some a) = stable_config_json (Some b) \<longleftrightarrow> same_members a b"
  using stable_sort_keys_iff [OF assms] by (simp add: stable_config_json_def)

lemma upload_matches_iff_same_members_witness:
  "stable_config_json (Some (JObj [(''a'', JNum 1), (''b'', JObj [(''c'', JNull), (''d'', JArr [])])])) =
   stable_config_json (Some (JObj [(''b'', JObj [(''d'', JArr []), (''c'', JNull)]), (''a'', JNum 1)]))"
  by (subst upload_matches_iff_same_members) simp_all

section \<open>The preview and the save\<close>

text \<open>What an uploaded config holds, to confirm by.\<close>

definition counted_rows :: "jsval \<Rightarrow> string \<Rightarrow> string" where
  "counted_rows v one = (let n = length (rows_or_none v) in show_nat n @ '' '' @ one @ (if n = 1 then [] else ''s''))"

definition config_row_summary :: "json \<Rightarrow> string" where
  "config_row_summary c =
     join '', '' [counted_rows (member_json c ''peers'') ''peer'', counted_rows (member_json (section_of c ''forwarding'') ''routes'') ''route'',
       counted_rows (member_json c ''input_allows'') ''inbound rule'']"

record config_upload =
  cu_draft :: "json option"
  cu_revision :: string
  cu_current :: json
  cu_hint :: string
  cu_open :: bool
  cu_msg :: "string \<times> bool"
  cu_apply_msg :: "string \<times> bool"

datatype upload_event = FileRead string string | UploadSave | UploadCancel

definition close_config_upload_modal :: "config_upload \<Rightarrow> config_upload" where
  "close_config_upload_modal u = u\<lparr>cu_draft := None, cu_open := False, cu_apply_msg := ([], False)\<rparr>"

definition upload_hint :: "string \<Rightarrow> json \<Rightarrow> json \<Rightarrow> string" where
  "upload_hint nm cur parsed =
     (if stable_config_json (Some cur) = stable_config_json (Some parsed) then ''Uploaded JSON matches server config.''
      else ''Save replaces the saved config with '' @ nm @ '' ('' @ config_row_summary parsed @ ''). YAML comments are not preserved.'')"

definition is_json_object :: "json \<Rightarrow> bool" where
  "is_json_object j = (case j of JObj _ \<Rightarrow> True | JArr _ \<Rightarrow> True | _ \<Rightarrow> False)"

text \<open>A file has been read: its name and its text.\<close>

definition preview_upload :: "(string \<Rightarrow> string + json) \<Rightarrow> 'w getter \<Rightarrow> string \<Rightarrow> string \<Rightarrow> config_upload \<times> 'w \<Rightarrow> config_upload \<times> 'w" where
  "preview_upload parse get nm txt uw = (case uw of (u, w) \<Rightarrow>
     (case parse txt of
        Inl e \<Rightarrow> (u\<lparr>cu_msg := (''Invalid JSON: '' @ e, True)\<rparr>, w)
      | Inr parsed \<Rightarrow>
          if \<not> is_json_object parsed then (u\<lparr>cu_msg := (''JSON must be an object.'', True)\<rparr>, w)
          else (case get w of
              (Inl e, w1) \<Rightarrow> (u\<lparr>cu_msg := (message e, True)\<rparr>, w1)
            | (Inr cur, w1) \<Rightarrow>
                (u\<lparr>cu_draft := Some parsed, cu_revision := etag cur, cu_current := body cur,
                   cu_hint := upload_hint nm (body cur) parsed, cu_msg := ([], False), cu_open := True\<rparr>, w1))))"

definition CHANGED_SINCE_PREVIEW :: string where
  "CHANGED_SINCE_PREVIEW = ''The server config changed since this preview, so nothing was saved. The current config above is updated: Save again to replace it.''"

definition save_upload :: "'w getter \<Rightarrow> 'w putter \<Rightarrow> config_upload \<times> 'w \<Rightarrow> config_upload \<times> 'w" where
  "save_upload get put uw = (case uw of (u0, w) \<Rightarrow>
     (case cu_draft u0 of
        None \<Rightarrow> (u0\<lparr>cu_apply_msg := (''No file loaded.'', True)\<rparr>, w)
      | Some draft \<Rightarrow>
          (let u = u0\<lparr>cu_apply_msg := ([], False)\<rparr> in
           case put_config_at_revision get put draft (cu_revision u) w of
             (Inr _, w1) \<Rightarrow> (close_config_upload_modal u, w1)
           | (Inl e, w1) \<Rightarrow>
               if is_config_revision_mismatch e
               then (case get w1 of
                   (Inr cur, w2) \<Rightarrow> (u\<lparr>cu_revision := etag cur, cu_current := body cur, cu_apply_msg := (CHANGED_SINCE_PREVIEW, True)\<rparr>, w2)
                 | (Inl e2, w2) \<Rightarrow> (u\<lparr>cu_apply_msg := (message e2, True)\<rparr>, w2))
               else (u\<lparr>cu_apply_msg := (message e, True)\<rparr>, w1))))"

definition upload_step :: "(string \<Rightarrow> string + json) \<Rightarrow> 'w getter \<Rightarrow> 'w putter \<Rightarrow> upload_event \<Rightarrow> config_upload \<times> 'w \<Rightarrow> config_upload \<times> 'w" where
  "upload_step parse get put e uw =
     (case e of FileRead nm txt \<Rightarrow> preview_upload parse get nm txt uw
      | UploadSave \<Rightarrow> save_upload get put uw
      | UploadCancel \<Rightarrow> (close_config_upload_modal (fst uw), snd uw))"

definition no_upload :: config_upload where
  "no_upload = \<lparr>cu_draft = None, cu_revision = [], cu_current = JNull, cu_hint = [], cu_open = False, cu_msg = ([], False), cu_apply_msg = ([], False)\<rparr>"

text \<open>What the page goes through, with the host's turns between its requests.\<close>

inductive upload_reaches :: "(string \<Rightarrow> string + json) \<Rightarrow> config_io \<Rightarrow> host \<Rightarrow> config_upload \<times> host \<Rightarrow> bool"
  for parse io w0 where
  upload_start: "upload_reaches parse io w0 (no_upload, w0)"
| upload_next: "upload_reaches parse io w0 uw \<Longrightarrow>
    upload_reaches parse io w0 (upload_step parse (api_get_config io) (api_put_config io) e uw)"

context revision_store
begin

text \<open>With a draft at hand, the revision is that of a file with the config the preview shows.\<close>

definition shows_revision :: "config_upload \<Rightarrow> bool" where
  "shows_revision u \<longleftrightarrow> cu_draft u = None \<or> (\<exists>f. view f = Some (cu_current u) \<and> cu_revision u = tag_of f)"

lemma preview_shows_revision:
  "preview_upload parse get nm txt (u, w) = (u', w') \<Longrightarrow> shows_revision u \<Longrightarrow> shows_revision u' \<and> saved w' = saved w"
  using get_snapshot get_saves_nothing
  by (fastforce simp: preview_upload_def shows_revision_def split: sum.splits if_splits prod.splits)

lemma save_upload_log:
  assumes "save_upload get put (u, w) = (u', w')" "shows_revision u"
  shows "shows_revision u'"
    and "saved w' = saved w \<or> (\<exists>draft old new f. cu_draft u = Some draft \<and> saved w' = saved w @ [(old, new)] \<and> stores draft new \<and>
      view f = Some (cu_current u) \<and> digest_of old = digest_of f)"
    and "cu_draft u' = None \<Longrightarrow> cu_draft u \<noteq> None \<Longrightarrow> saved w' \<noteq> saved w"
proof -
  have "shows_revision u' \<and> (saved w' = saved w \<or> (\<exists>draft old new f. cu_draft u = Some draft \<and> saved w' = saved w @ [(old, new)] \<and>
      stores draft new \<and> view f = Some (cu_current u) \<and> digest_of old = digest_of f)) \<and>
      (cu_draft u' = None \<longrightarrow> cu_draft u \<noteq> None \<longrightarrow> saved w' \<noteq> saved w)"
  proof (cases "cu_draft u")
    case None
    then show ?thesis using assms by (auto simp: save_upload_def shows_revision_def)
  next
    case (Some draft)
    obtain f where f: "view f = Some (cu_current u)" "cu_revision u = tag_of f" using assms(2) Some by (auto simp: shows_revision_def)
    obtain r w1 where p: "put_config_at_revision get put draft (tag_of f) w = (r, w1)" by fastforce
    note log = put_config_log [OF p]
    have wrote: "saved w1 = saved w \<or> (\<exists>old new. saved w1 = saved w @ [(old, new)] \<and> stores draft new \<and> digest_of old = digest_of f)"
      using log(1) by blast
    show ?thesis
    proof (cases r)
      case (Inr snap)
      then have "u' = close_config_upload_modal (u\<lparr>cu_apply_msg := ([], False)\<rparr>)" "w' = w1"
        using assms(1) Some f p by (auto simp: save_upload_def Let_def)
      then show ?thesis using wrote Some f log(2) Inr by (auto simp: shows_revision_def close_config_upload_modal_def)
    next
      case (Inl e)
      show ?thesis
      proof (cases "is_config_revision_mismatch e")
        case True
        obtain g w2 where g: "get w1 = (g, w2)" by fastforce
        have quiet: "saved w2 = saved w" using log(3) [OF Inl True] get_saves_nothing [OF g] by simp
        have "w' = w2" "cu_draft u' = cu_draft u" "shows_revision u'"
          using assms(1) Some f p Inl True g get_snapshot [of w1 _ w2]
          by (auto simp: save_upload_def shows_revision_def Let_def split: sum.splits)
        then show ?thesis using quiet Some by simp
      next
        case False
        then have "w' = w1" "cu_draft u' = cu_draft u" "shows_revision u'"
          using assms Some f p Inl by (auto simp: save_upload_def shows_revision_def Let_def)
        then show ?thesis using wrote Some f by auto
      qed
    qed
  qed
  then show "shows_revision u'"
    and "saved w' = saved w \<or> (\<exists>draft old new f. cu_draft u = Some draft \<and> saved w' = saved w @ [(old, new)] \<and> stores draft new \<and>
      view f = Some (cu_current u) \<and> digest_of old = digest_of f)"
    and "cu_draft u' = None \<Longrightarrow> cu_draft u \<noteq> None \<Longrightarrow> saved w' \<noteq> saved w" by blast+
qed

end

lemma reached_upload_shows_revision: "upload_reaches parse io w0 uw \<Longrightarrow> host.shows_revision io (fst uw)"
proof (induction rule: upload_reaches.induct)
  case upload_start
  show ?case by (simp add: host.shows_revision_def no_upload_def)
next
  case (upload_next uw e)
  obtain u w u' w' where uw: "uw = (u, w)" "upload_step parse (api_get_config io) (api_put_config io) e (u, w) = (u', w')"
    by (metis prod.exhaust)
  with upload_next.IH have i: "host.shows_revision io u" by simp
  show ?case
  proof (cases e)
    case UploadCancel
    then show ?thesis using uw by (auto simp: upload_step_def host.shows_revision_def close_config_upload_modal_def)
  qed (use uw i host.preview_shows_revision host.save_upload_log(1) in \<open>force simp: upload_step_def\<close>)+
qed

text \<open>
  C15. However often a file was chosen, saved, refused and cancelled before, and whatever other tabs and the command line
  write in between: when Save replaces the host's file, it was the file with the config shown in the preview (up to a
  collision of the digest) and becomes the uploaded one; and Save reports success only if it did.
\<close>

theorem upload_replaces_only_what_was_shown:
  assumes "upload_reaches parse io w0 (u, w)" and "save_upload (api_get_config io) (api_put_config io) (u, w) = (u', w')"
  shows "(writes w' = writes w \<or>
      (\<exists>draft old new f. cu_draft u = Some draft \<and> writes w' = writes w @ [(old, new)] \<and> encode_yaml io draft = Inr new \<and>
        load_yaml io f = Some (cu_current u) \<and> sha256 io old = sha256 io f)) \<and>
    (cu_draft u \<noteq> None \<and> cu_draft u' = None \<longrightarrow> writes w' \<noteq> writes w)"
  using host.save_upload_log(2,3) [OF assms(2)] reached_upload_shows_revision [OF assms(1)] by auto

lemma upload_replaces_only_what_was_shown_witness:
  "\<exists>u w u' w'. upload_reaches (\<lambda>t. Inr (JArr [])) toy_io \<lparr>host_file = ''a'', schedule = [], writes = [], sent_puts = 0\<rparr> (u, w) \<and>
     cu_draft u = Some (JArr []) \<and> save_upload (api_get_config toy_io) (api_put_config toy_io) (u, w) = (u', w') \<and>
     (cu_draft u' \<noteq> None \<or> writes w' \<noteq> writes w)"
proof -
  let ?w = "\<lparr>host_file = ''a'', schedule = [], writes = [], sent_puts = 0\<rparr>"
  let ?parse = "\<lambda>t. Inr (JArr []) :: string + json"
  obtain u w where uw: "upload_step ?parse (api_get_config toy_io) (api_put_config toy_io) (FileRead ''f'' ''[]'') (no_upload, ?w) = (u, w)" by fastforce
  have r: "upload_reaches ?parse toy_io ?w (u, w)"
    unfolding uw [symmetric] by (rule upload_next [OF upload_start])
  have d: "cu_draft u = Some (JArr [])"
    using uw by (auto simp: upload_step_def preview_upload_def is_json_object_def api_get_config_def arrive_def toy_io_def)
  obtain u' w' where s: "save_upload (api_get_config toy_io) (api_put_config toy_io) (u, w) = (u', w')" by fastforce
  from upload_replaces_only_what_was_shown [OF r s] d r s show ?thesis by blast
qed

section \<open>Backup and restore\<close>

definition DEFAULT_BACKUP_PATH :: string where "DEFAULT_BACKUP_PATH = ''/var/backups/evuproxy-config.tgz''"

definition backup_path :: "string \<Rightarrow> string" where
  "backup_path v = (if trim v = [] then DEFAULT_BACKUP_PATH else trim v)"

definition path_dir :: "string \<Rightarrow> string" where
  "path_dir p = rev (dropWhile (\<lambda>c. c \<noteq> CHR ''/'') (rev p))"

definition path_name :: "string \<Rightarrow> string" where
  "path_name p = rev (takeWhile (\<lambda>c. c \<noteq> CHR ''/'') (rev p))"

text \<open>The text of an ISO date, which has one T, as it goes into a file name, to the second.\<close>

definition backup_stamp :: "string \<Rightarrow> string" where
  "backup_stamp isodate = take 15 (map (\<lambda>c. if c = CHR ''T'' then CHR ''-'' else c) (filter (\<lambda>c. c \<notin> {CHR ''-'', CHR '':''}) isodate))"

definition pre_restore_target :: "string \<Rightarrow> string \<Rightarrow> string" where
  "pre_restore_target path isodate = path_dir path @ ''evuproxy-pre-restore-'' @ backup_stamp isodate @ ''.tgz''"

datatype restore_start = RestoreRefused string | RestoreConfirm string string

text \<open>The archive's date, or the error of asking for it; only a missing archive stops the restore.\<close>

definition start_restore :: "string \<Rightarrow> (string \<Rightarrow> string + string) \<Rightarrow> restore_start" where
  "start_restore v info =
     (let path = trim v in
      if path = [] then RestoreRefused ''Set restore path (absolute, under the backup allow directory).''
      else (let ask = (\<lambda>dated. RestoreConfirm (''Restore '' @ path_name path @ ''?'')
                (''This replaces files under /etc/evuproxy with the archive '' @ path @ dated @ ''. Apply afterwards if needed.'')) in
        case info path of
          Inr date \<Rightarrow> ask ('', dated '' @ date)
        | Inl e \<Rightarrow> if e = ''archive not found'' then RestoreRefused (''No archive at '' @ path @ ''.'') else ask []))"

lemma path_parts: "path_dir p @ path_name p = p" "\<not> CHR ''/'' \<in> set (path_name p)"
proof -
  show "path_dir p @ path_name p = p"
    unfolding path_dir_def path_name_def by (metis rev_append rev_rev_ident takeWhile_dropWhile_id)
  show "\<not> CHR ''/'' \<in> set (path_name p)" by (auto simp: path_name_def dest: set_takeWhileD)
qed

text \<open>The backup made before a restore stands in the archive's directory; it is the archive itself only if it has that very name.\<close>

lemma pre_restore_beside_archive:
  "\<not> CHR ''/'' \<in> set isodate \<Longrightarrow> path_dir (pre_restore_target p isodate) = path_dir p"
  "pre_restore_target p isodate = p \<longleftrightarrow> path_name p = ''evuproxy-pre-restore-'' @ backup_stamp isodate @ ''.tgz''"
proof -
  let ?n = "''evuproxy-pre-restore-'' @ backup_stamp isodate @ ''.tgz''"
  show "pre_restore_target p isodate = p \<longleftrightarrow> path_name p = ?n"
    using path_parts(1) [of p] unfolding pre_restore_target_def by (metis append_same_eq same_append_eq)
  assume isodate: "\<not> CHR ''/'' \<in> set isodate"
  have "set (backup_stamp isodate) \<subseteq> insert (CHR ''-'') (set isodate)"
    by (auto simp: backup_stamp_def dest!: in_set_takeD)
  with isodate have n: "list_all (\<lambda>c. c \<noteq> CHR ''/'') ?n" by (auto simp: list_all_iff)
  have skip: "dropWhile (\<lambda>c. c \<noteq> CHR ''/'') (rev n @ xs) = dropWhile (\<lambda>c. c \<noteq> CHR ''/'') xs" if "list_all (\<lambda>c. c \<noteq> CHR ''/'') n" for n xs :: string
    using that by (subst dropWhile_append2) (auto simp: list_all_iff)
  have "path_dir (path_dir p @ ?n) = rev (dropWhile (\<lambda>c. c \<noteq> CHR ''/'') (rev (path_dir p)))"
    unfolding path_dir_def [of "path_dir p @ ?n"] rev_append [of "path_dir p" ?n] by (simp only: skip [OF n])
  also have "\<dots> = path_dir p" by (simp add: path_dir_def)
  finally show "path_dir (pre_restore_target p isodate) = path_dir p" by (simp add: pre_restore_target_def)
qed

section \<open>The name of a downloaded report\<close>

definition DIAGNOSTICS_NAME :: string where "DIAGNOSTICS_NAME = ''evuproxy-diagnostics.md''"

text \<open>The regular expression \<open>/filename="([^"]+)"/i\<close> on the header, at its first match.\<close>

fun match_filename :: "string \<Rightarrow> string option" where
  "match_filename [] = None"
| "match_filename (c # s) =
     (let t = c # s; q = drop 10 t; nm = takeWhile (\<lambda>x. x \<noteq> CHR 0x22) q in
      if lower (take 10 t) = ''filename='' @ [CHR 0x22] \<and> nm \<noteq> [] \<and> length nm < length q then Some nm else match_filename s)"

definition diagnostics_filename :: "string option \<Rightarrow> string" where
  "diagnostics_filename header = (case match_filename (case header of Some h \<Rightarrow> h | None \<Rightarrow> []) of Some nm \<Rightarrow> nm | None \<Rightarrow> DIAGNOSTICS_NAME)"

lemma diagnostics_name_is_the_attachments:
  assumes "nm \<noteq> []" "\<not> CHR 0x22 \<in> set nm"
  shows "diagnostics_filename (Some (''attachment; filename='' @ [CHR 0x22] @ nm @ [CHR 0x22])) = nm"
proof -
  have "takeWhile (\<lambda>x. x \<noteq> CHR 0x22) (nm @ [CHR 0x22]) = nm" using assms(2) by (subst takeWhile_append2) auto
  then show ?thesis using assms(1) by (simp add: diagnostics_filename_def Let_def lower_def lower_char_def)
qed

end
