(* ===== verification/Overview.thy ===== *)
theory Overview
  imports Settings Lockout
begin

text \<open>
  \<open>pages/overview.js\<close>: the page's passes over the API and what stays on screen when one fails, what needs attention,
  the setup checklist, the cards' texts, the recent events, the maintenance switch and the latency chart.

  \<open>Date.parse\<close>, the clock and the text of a time are parameters. A latency is a rational; the rounding of a floating
  point number is not modelled.
\<close>

section \<open>What needs attention\<close>

definition OVERVIEW_LATENCY_LAST10M_WARN_MS :: int where "OVERVIEW_LATENCY_LAST10M_WARN_MS = 500"

definition name_or :: "json \<Rightarrow> string \<Rightarrow> string" where
  "name_or p d = (if truthy (member_json p ''name'') then str_or_empty (member_json p ''name'') else d)"

text \<open>\<open>now\<close> is the clock, in milliseconds.\<close>

definition handshake_item :: "int \<Rightarrow> jsval \<Rightarrow> json \<Rightarrow> string option" where
  "handshake_item now st p =
     (if truthy (member_json p ''disabled'') then None
      else (case (case wg_peer_pub_key_map st (trim (str_or_empty (member_json p ''public_key''))) of
                None \<Rightarrow> None | Some row \<Rightarrow> member_json row ''latest_handshake_unix'') of
          Some (JNum h) \<Rightarrow>
            if h \<le> 0 then Some (''Peer \"'' @ name_or p ''unnamed'' @ ''\" has no WireGuard handshake yet.'')
            else if now div 1000 - h > PEER_ONLINE_MAX_HANDSHAKE_AGE_SEC
            then Some (''Peer \"'' @ name_or p ''unnamed'' @ ''\" looks offline (stale handshake).'') else None
        | _ \<Rightarrow> Some (''Peer \"'' @ name_or p ''unnamed'' @ ''\" has no WireGuard handshake yet.'')))"

definition route_label :: "json \<Rightarrow> string" where
  "route_label r =
     (let ports = rows_or_none (member_json r ''ports''); t = join '', '' (map js_string ports) in
      if t = [] then ''A route'' else ''The route on port'' @ (if length ports > 1 then ''s '' else '' '') @ t)"

text \<open>The disabled peers by their tunnel address; of two with one address the later.\<close>

definition disabled_peer_by_tunnel :: "json list \<Rightarrow> string \<Rightarrow> string option" where
  "disabled_peer_by_tunnel peers =
     foldl (\<lambda>m p. let th = tunnel_to_host (str_or_empty (member_json p ''tunnel_ip'')) in
         if truthy (member_json p ''disabled'') \<and> th \<noteq> []
         then m(th \<mapsto> (let nm = trim (str_or_empty (member_json p ''name'')) in if nm = [] then ''unnamed'' else nm)) else m)
       Map.empty peers"

definition disabled_target_item :: "(string \<Rightarrow> string option) \<Rightarrow> json \<Rightarrow> string option" where
  "disabled_target_item disabled r =
     (let tip = trim (str_or_empty (member_json r ''target_ip'')) in
      if truthy (member_json r ''disabled'') \<or> tip = [] then None
      else map_option (\<lambda>nm. route_label r @ '' targets disabled peer \"'' @ nm @ ''\" ('' @ tip @ '').'') (disabled tip))"

definition metrics_items :: "jsval \<Rightarrow> string list" where
  "metrics_items met =
     (if \<not> truthy met then []
      else (if \<not> truthy (at_member met ''collection_disabled'') \<and> rows_or_none (at_member met ''peers'') = []
            then [''Peer metrics collection is enabled but no samples are stored yet.''] else []) @
        (case at_member (at_member (at_member met ''dashboard'') ''last_10m'') ''avg_ms'' of
           Some (JNum n) \<Rightarrow>
             if at_member met ''collection_disabled'' \<noteq> Some (JBool True) \<and> n \<ge> OVERVIEW_LATENCY_LAST10M_WARN_MS
             then [''Average peer ICMP latency over the last 10 minutes is high ('' @ show_int n @ '' ms).''] else []
         | _ \<Rightarrow> []))"

definition host_warning_items :: "jsval \<Rightarrow> string list" where
  "host_warning_items ov =
     concat (map (\<lambda>w. let m = js_or (member_json w ''message'') (member_json w ''Message'') in
       if truthy m then [str_or_empty m] else []) (array_elems (at_member ov ''host_warnings'')))"

definition config_routes :: "jsval \<Rightarrow> json list" where
  "config_routes cfg = rows_or_none (at_member (at_member cfg ''forwarding'') ''routes'')"

definition build_overview_attention_items :: "int \<Rightarrow> jsval \<Rightarrow> jsval \<Rightarrow> jsval \<Rightarrow> jsval \<Rightarrow> string list" where
  "build_overview_attention_items now cfg ov st met =
     (let peers = rows_or_none (at_member cfg ''peers''); routes = config_routes cfg in
      List.map_filter (handshake_item now st) (if truthy st then peers else []) @
      List.map_filter (disabled_target_item (disabled_peer_by_tunnel peers)) routes @
      metrics_items met @
      (if truthy (at_member ov ''geo_enabled'') \<and> \<not> truthy (at_member ov ''geo_last_success_utc'')
       then [''Geoblocking is on but geo zone files have never loaded successfully on this host.''] else []) @
      (if truthy (at_member (at_member cfg ''forwarding'') ''maintenance_mode'')
       then [''Maintenance mode is on '' @ mdash @ '' public forwards are disabled until you turn it off and Apply.''] else []) @
      map (\<lambda>r. route_label r @ '' restricts sources to an allowlist.'')
        (filter (\<lambda>r. rows_or_none (member_json r ''source_allow_cidrs'') \<noteq> []) routes) @
      host_warning_items ov)"

text \<open>Without stats no peer is called offline; a disabled peer never is.\<close>

lemma no_stats_no_peer_items:
  "\<not> truthy st \<Longrightarrow> List.map_filter (handshake_item now st) (if truthy st then peers else []) = []"
  "truthy (member_json p ''disabled'') \<Longrightarrow> handshake_item now st p = None"
  by (simp_all add: List.map_filter_def handshake_item_def)

section \<open>The setup checklist\<close>

text \<open>A pass over the config: how many peers it has, and what is known of unapplied changes.\<close>

record setup_pass =
  setup_peers :: nat
  setup_pending :: jsval

definition settled_pass :: "setup_pass \<Rightarrow> bool" where
  "settled_pass p \<longleftrightarrow> setup_peers p \<noteq> 0 \<and> truthy (setup_pending p) \<and> \<not> truthy (at_member (setup_pending p) ''pending'')"

text \<open>The mark kept in the browser; the checklist shows while it is set.\<close>

definition first_run_mark :: "bool \<Rightarrow> setup_pass \<Rightarrow> bool" where
  "first_run_mark flag p = (if setup_peers p = 0 then True else if settled_pass p then False else flag)"

definition first_run_steps :: "string \<Rightarrow> nat \<Rightarrow> nat \<Rightarrow> (string \<times> string \<times> bool) list" where
  "first_run_steps endpoint peers routes =
     [(''Set the server endpoint'', ''#/settings'', trim endpoint \<noteq> []), (''Add a peer'', ''#/peers'', peers > 0),
      (''Add a route'', ''#/routes'', routes > 0), (''Apply'', ''#/pending'', False)]"

text \<open>
  The setup checklist appears while there are no peers, and stays until a peer exists and nothing is left to apply;
  a host that had peers all along never sees it, whatever edits are pending.
\<close>

theorem checklist_shows_from_no_peers_until_settled:
  "foldl first_run_mark False passes \<longleftrightarrow>
     (\<exists>i < length passes. setup_peers (passes ! i) = 0 \<and> (\<forall>j < length passes. i < j \<longrightarrow> \<not> settled_pass (passes ! j)))"
proof (induction passes rule: rev_induct)
  case (snoc p ps)
  have nth: "(ps @ [p]) ! j = (if j < length ps then ps ! j else p)" if "j < Suc (length ps)" for j
    using that by (auto simp: nth_append less_Suc_eq)
  have "(\<exists>i < Suc (length ps). setup_peers ((ps @ [p]) ! i) = 0 \<and> (\<forall>j < Suc (length ps). i < j \<longrightarrow> \<not> settled_pass ((ps @ [p]) ! j))) \<longleftrightarrow>
      setup_peers p = 0 \<or> \<not> settled_pass p \<and>
      (\<exists>i < length ps. setup_peers (ps ! i) = 0 \<and> (\<forall>j < length ps. i < j \<longrightarrow> \<not> settled_pass (ps ! j)))"
    by (auto simp: nth less_Suc_eq settled_pass_def)
  moreover have "foldl first_run_mark False (ps @ [p]) \<longleftrightarrow> setup_peers p = 0 \<or> \<not> settled_pass p \<and> foldl first_run_mark False ps"
    by (simp add: first_run_mark_def)
  ultimately show ?case using snoc by simp
qed simp

lemma checklist_shows_from_no_peers_until_settled_witness:
  "foldl first_run_mark False [\<lparr>setup_peers = 0, setup_pending = None\<rparr>, \<lparr>setup_peers = 1, setup_pending = Some (JObj [(''pending'', JBool True)])\<rparr>] \<and>
   \<not> foldl first_run_mark False [\<lparr>setup_peers = 2, setup_pending = Some (JObj [(''pending'', JBool True)])\<rparr>]"
proof -
  let ?ps = "[\<lparr>setup_peers = 0, setup_pending = None\<rparr>, \<lparr>setup_peers = 1, setup_pending = Some (JObj [(''pending'', JBool True)])\<rparr>]"
  have "\<exists>i < length ?ps. setup_peers (?ps ! i) = 0 \<and> (\<forall>j < length ?ps. i < j \<longrightarrow> \<not> settled_pass (?ps ! j))"
    by (rule exI [of _ 0]) (auto simp: settled_pass_def at_member_def truthy_def less_Suc_eq)
  with checklist_shows_from_no_peers_until_settled [of ?ps]
    checklist_shows_from_no_peers_until_settled [of "[\<lparr>setup_peers = 2, setup_pending = Some (JObj [(''pending'', JBool True)])\<rparr>]"]
  show ?thesis by simp
qed

section \<open>What a pass could check\<close>

definition CHECK_PARTS :: "(string \<times> string) list" where
  "CHECK_PARTS = [(''cfg'', ''the config''), (''st'', ''WireGuard stats''), (''met'', ''peer metrics'')]"

text \<open>The parts that failed but have an earlier value, and whether one has none.\<close>

definition checks_state :: "string set \<Rightarrow> (string \<Rightarrow> jsval) \<Rightarrow> string list \<times> bool" where
  "checks_state missed vals =
     (let failed = filter (\<lambda>(k, _). k \<in> missed) CHECK_PARTS in
      (map snd (filter (\<lambda>(k, _). truthy (vals k)) failed), list_ex (\<lambda>(k, _). \<not> truthy (vals k)) failed))"

record attention_card =
  ac_items :: "string list"
  ac_old :: "string list"
  ac_not_run :: bool

text \<open>The title and the lines of the right pane.\<close>

definition NO_WARNINGS :: string where "NO_WARNINGS = ''No warnings from this pass.''"

definition attention_pane :: "attention_card \<Rightarrow> string \<times> string list" where
  "attention_pane c =
     (if ac_items c \<noteq> [] then ''Needs attention'' else ''Status'',
      (if ac_items c \<noteq> [] then ac_items c else if ac_old c = [] \<and> \<not> ac_not_run c then [NO_WARNINGS] else []) @
      (if ac_old c \<noteq> [] then [''Based on an earlier load, because they could not be refreshed: '' @ join '', '' (ac_old c) @ ''.''] else []) @
      (if ac_not_run c then [''Some checks could not run, because their data could not be loaded.''] else []))"

lemma checks_complete_iff:
  "fst (checks_state missed vals) = [] \<and> \<not> snd (checks_state missed vals) \<longleftrightarrow> missed \<inter> {''cfg'', ''st'', ''met''} = {}"
  by (auto simp: checks_state_def CHECK_PARTS_def)

section \<open>Passes over the API\<close>

text \<open>The optional parts of a pass; a request that fails answers \<open>None\<close> and counts with its last value.\<close>

record overview_parts =
  p_met :: jsval
  p_cfg :: jsval
  p_st :: jsval
  p_ev :: jsval
  p_pending :: jsval

record overview_answers =
  a_met :: "jsval option"
  a_cfg :: "jsval option"
  a_st :: "jsval option"
  a_ev :: "jsval option"
  a_pending :: "jsval option"

definition or_last :: "jsval option \<Rightarrow> jsval \<Rightarrow> jsval" where
  "or_last a l = (case a of Some v \<Rightarrow> v | None \<Rightarrow> l)"

definition pass_parts :: "overview_answers \<Rightarrow> overview_parts \<Rightarrow> overview_parts" where
  "pass_parts a l = \<lparr>p_met = or_last (a_met a) (p_met l), p_cfg = or_last (a_cfg a) (p_cfg l), p_st = or_last (a_st a) (p_st l),
     p_ev = or_last (a_ev a) (p_ev l), p_pending = or_last (a_pending a) (p_pending l)\<rparr>"

definition missed_parts :: "overview_answers \<Rightarrow> string set" where
  "missed_parts a = (if a_met a = None then {''met''} else {}) \<union> (if a_cfg a = None then {''cfg''} else {}) \<union>
     (if a_st a = None then {''st''} else {}) \<union> (if a_ev a = None then {''evPack''} else {}) \<union> (if a_pending a = None then {''pending''} else {})"

record overview_cards =
  oc_checklist :: bool
  oc_events :: "json list option"
  oc_old_events :: bool
  oc_attention :: attention_card
  oc_overview :: json
  oc_metrics :: jsval
  oc_old_metrics :: bool

datatype overview_grid = NoGrid | Cards overview_cards | IssueCard string string bool

record overview_page =
  ov_seq :: nat
  ov_waiting :: "(nat \<times> overview_parts) list"
  ov_last :: overview_parts
  ov_loaded :: bool
  ov_grid :: overview_grid
  ov_connected :: bool
  ov_overview :: jsval
  ov_config :: jsval
  ov_msg :: "string \<times> bool"
  ov_first_run :: bool
  ov_checks :: nat  \<comment> \<open>connection checks asked for\<close>

text \<open>A pass loads, fails at the request of the overview (with the kind of failure, if it was the connection), or breaks on what it was answered.\<close>

datatype overview_result =
    OvLoaded json overview_answers
  | OvFailed string bool
  | OvBroken json overview_answers string

datatype overview_event = OvStart bool | OvAnswer nat int overview_result

definition NOT_CONNECTED_YET :: string where "NOT_CONNECTED_YET = ''Not connected: this browser has no API token yet.''"

definition ov_start :: "bool \<Rightarrow> overview_page \<Rightarrow> overview_page" where
  "ov_start has_token s0 =
     (let s = s0\<lparr>ov_seq := ov_seq s0 + 1, ov_msg := ([], False)\<rparr> in
      if has_token then s\<lparr>ov_waiting := ov_waiting s @ [(ov_seq s, ov_last s)]\<rparr>
      else s\<lparr>ov_connected := False, ov_loaded := False, ov_grid := IssueCard NOT_CONNECTED_YET [] True\<rparr>)"

definition ov_cards :: "int \<Rightarrow> json \<Rightarrow> overview_answers \<Rightarrow> overview_parts \<Rightarrow> bool \<Rightarrow> overview_cards" where
  "ov_cards now ov a p first_run =
     (let missed = missed_parts a; evs = (if truthy (p_ev p) then Some (rows_or_none (at_member (p_ev p) ''events'')) else None);
          vals = (\<lambda>k. if k = ''met'' then p_met p else if k = ''cfg'' then p_cfg p else p_st p) in
      \<lparr>oc_checklist = truthy (p_cfg p) \<and> first_run, oc_events = evs, oc_old_events = (evs \<noteq> None \<and> ''evPack'' \<in> missed),
       oc_attention = \<lparr>ac_items = build_overview_attention_items now (p_cfg p) (Some ov) (p_st p) (p_met p),
         ac_old = fst (checks_state missed vals), ac_not_run = snd (checks_state missed vals)\<rparr>,
       oc_overview = ov, oc_metrics = p_met p, oc_old_metrics = (truthy (p_met p) \<and> ''met'' \<in> missed)\<rparr>)"

definition ov_first_run_after :: "overview_answers \<Rightarrow> overview_parts \<Rightarrow> bool \<Rightarrow> bool" where
  "ov_first_run_after a p flag =
     (if truthy (p_cfg p)
      then first_run_mark flag \<lparr>setup_peers = length (rows_or_none (at_member (p_cfg p) ''peers'')),
        setup_pending = (if a_pending a = None then None else p_pending p)\<rparr> else flag)"

definition ov_connect :: "json \<Rightarrow> overview_parts \<Rightarrow> overview_page \<Rightarrow> overview_page" where
  "ov_connect ov p s = s\<lparr>ov_overview := Some ov, ov_config := js_or (p_cfg p) (ov_config s), ov_connected := True\<rparr>"

text \<open>The end of a pass that could not finish.\<close>

definition ov_fail :: "bool \<Rightarrow> bool \<Rightarrow> string \<Rightarrow> overview_page \<Rightarrow> overview_page" where
  "ov_fail fromRequest connectionKind m s0 =
     (let s = (if fromRequest then s0\<lparr>ov_connected := False, ov_checks := ov_checks s0 + 1\<rparr> else s0) in
      if ov_loaded s
      then (if fromRequest then s
            else s\<lparr>ov_msg := (''This page could not be updated, so what's shown is from an earlier load: '' @ m, True)\<rparr>)
      else s\<lparr>ov_grid := (if fromRequest
          then IssueCard ''Nothing has loaded yet. This page fills in as soon as the API answers.'' (if connectionKind then [] else m) True
          else IssueCard ''This page could not be displayed.'' m False)\<rparr>)"

definition ov_answer :: "int \<Rightarrow> overview_parts \<Rightarrow> overview_result \<Rightarrow> overview_page \<Rightarrow> overview_page" where
  "ov_answer now l r s =
     (case r of
        OvFailed m k \<Rightarrow> ov_fail True k m s
      | OvBroken ov a m \<Rightarrow> ov_fail False False m (ov_connect ov (pass_parts a l) s)
      | OvLoaded ov a \<Rightarrow>
          (let p = pass_parts a l; flag = ov_first_run_after a p (ov_first_run s) in
           (ov_connect ov p s)\<lparr>ov_first_run := flag, ov_grid := Cards (ov_cards now ov a p flag), ov_last := p, ov_loaded := True\<rparr>))"

text \<open>A pass goes on from the parts that were last when it started; a newer pass drops it.\<close>

definition ov_step :: "overview_event \<Rightarrow> overview_page \<Rightarrow> overview_page" where
  "ov_step e s =
     (case e of
        OvStart has_token \<Rightarrow> ov_start has_token s
      | OvAnswer seq now r \<Rightarrow>
          (case map_of (ov_waiting s) seq of
             None \<Rightarrow> s
           | Some l \<Rightarrow>
               (let s1 = s\<lparr>ov_waiting := filter (\<lambda>w. fst w \<noteq> seq) (ov_waiting s)\<rparr> in
                if seq = ov_seq s then ov_answer now l r s1 else s1)))"

definition ov_run :: "overview_event list \<Rightarrow> overview_page \<Rightarrow> overview_page" where
  "ov_run es s = foldl (\<lambda>t e. ov_step e t) s es"

definition no_parts :: overview_parts where
  "no_parts = \<lparr>p_met = None, p_cfg = None, p_st = None, p_ev = None, p_pending = None\<rparr>"

definition new_overview :: overview_page where
  "new_overview = \<lparr>ov_seq = 0, ov_waiting = [], ov_last = no_parts, ov_loaded = False, ov_grid = NoGrid, ov_connected = False,
     ov_overview = None, ov_config = None, ov_msg = ([], False), ov_first_run = False, ov_checks = 0\<rparr>"

text \<open>Cards are on screen exactly while the page counts as loaded.\<close>

definition ov_ok :: "overview_page \<Rightarrow> bool" where
  "ov_ok s \<longleftrightarrow> (ov_loaded s \<longleftrightarrow> (case ov_grid s of Cards _ \<Rightarrow> True | _ \<Rightarrow> False))"

text \<open>The passes that load, but for those that a newer pass had overtaken when they were answered.\<close>

definition loads_now :: "overview_event \<Rightarrow> overview_page \<Rightarrow> bool" where
  "loads_now e s = (case e of OvAnswer seq _ (OvLoaded _ _) \<Rightarrow> ov_seq s \<le> seq | _ \<Rightarrow> False)"

fun none_loads :: "overview_event list \<Rightarrow> overview_page \<Rightarrow> bool" where
  "none_loads [] s = True"
| "none_loads (e # es) s = (\<not> loads_now e s \<and> none_loads es (ov_step e s))"

lemma ov_fail_keeps_cards:
  "ov_loaded s \<Longrightarrow> ov_loaded (ov_fail q k m s)" "ov_loaded s \<Longrightarrow> ov_grid (ov_fail q k m s) = ov_grid s"
  by (simp_all add: ov_fail_def Let_def)

lemma ov_step_keeps_cards:
  assumes "ov_loaded s" "ov_ok s" "e \<noteq> OvStart False"
  shows "ov_loaded (ov_step e s) \<and> ov_ok (ov_step e s) \<and> (\<not> loads_now e s \<longrightarrow> ov_grid (ov_step e s) = ov_grid s)"
proof (cases e)
  case (OvStart t)
  then show ?thesis using assms by (auto simp: ov_step_def ov_start_def ov_ok_def Let_def)
next
  case (OvAnswer seq now r)
  show ?thesis
  proof (cases r)
    case (OvFailed m k)
    then show ?thesis
      using assms(1,2)
      by (simp add: ov_fail_keeps_cards OvAnswer ov_step_def ov_answer_def ov_ok_def Let_def split: option.split)
  next
    case (OvBroken ov a m)
    have "ov_loaded (ov_connect ov p t) = ov_loaded t" "ov_grid (ov_connect ov p t) = ov_grid t" for p t by (simp_all add: ov_connect_def)
    then show ?thesis
      using assms(1,2)
      by (simp add: ov_fail_keeps_cards OvAnswer OvBroken ov_step_def ov_answer_def ov_ok_def Let_def split: option.split)
  next
    case (OvLoaded ov a)
    then show ?thesis
      using assms(1,2) by (simp add: OvAnswer ov_step_def ov_answer_def ov_ok_def loads_now_def Let_def split: option.split)
  qed
qed


definition all_answered :: overview_answers where
  "all_answered = \<lparr>a_met = Some None, a_cfg = Some None, a_st = Some None, a_ev = Some None, a_pending = Some None\<rparr>"


text \<open>
  C20. The overview says that there are no warnings only when every check of this very pass ran on fresh data and found
  nothing: never on the strength of an older load or of data that is missing.
\<close>

theorem no_warnings_only_from_a_complete_pass:
  "NO_WARNINGS \<in> set (snd (attention_pane (oc_attention (ov_cards now ov a (pass_parts a l) flag)))) \<and>
     ac_items (oc_attention (ov_cards now ov a (pass_parts a l) flag)) = [] \<longleftrightarrow>
   a_cfg a \<noteq> None \<and> a_st a \<noteq> None \<and> a_met a \<noteq> None \<and>
     build_overview_attention_items now (the (a_cfg a)) (Some ov) (the (a_st a)) (the (a_met a)) = []"
proof -
  let ?p = "pass_parts a l"
  define vals where "vals = (\<lambda>k. if k = ''met'' then p_met ?p else if k = ''cfg'' then p_cfg ?p else p_st ?p)"
  define c where "c = oc_attention (ov_cards now ov a ?p flag)"
  have c: "ac_items c = build_overview_attention_items now (p_cfg ?p) (Some ov) (p_st ?p) (p_met ?p)"
    "ac_old c = fst (checks_state (missed_parts a) vals)" "ac_not_run c = snd (checks_state (missed_parts a) vals)"
    by (simp_all add: c_def ov_cards_def vals_def Let_def)
  have "missed_parts a \<inter> {''cfg'', ''st'', ''met''} = {} \<longleftrightarrow> a_cfg a \<noteq> None \<and> a_st a \<noteq> None \<and> a_met a \<noteq> None"
    by (auto simp: missed_parts_def)
  then have complete: "ac_old c = [] \<and> \<not> ac_not_run c \<longleftrightarrow> a_cfg a \<noteq> None \<and> a_st a \<noteq> None \<and> a_met a \<noteq> None"
    using checks_complete_iff [of "missed_parts a" vals] by (simp add: c)
  have pane: "NO_WARNINGS \<in> set (snd (attention_pane c)) \<longleftrightarrow> ac_old c = [] \<and> \<not> ac_not_run c" if "ac_items c = []"
    using that by (auto simp: attention_pane_def NO_WARNINGS_def)
  show ?thesis
    unfolding c_def [symmetric] using pane complete by (auto simp: c(1) pass_parts_def or_last_def)
qed

end
