(* ===== verification/Overview_Cards.thy ===== *)
theory Overview_Cards
  imports Overview
begin

text \<open>
  \<open>pages/overview.js\<close>, the cards: the latency chart, the texts of the latency and host cards, the last apply, the list of
  recent events with its polling, and the maintenance switch.

  \<open>time\<close> is the text \<open>timeHtml\<close> makes of a value, and \<open>parse_date\<close> is \<open>Date.parse\<close>.
\<close>

section \<open>The latency chart\<close>

text \<open>A bucket of the history: its average, none when it is not a finite number, and its time.\<close>

type_synonym ping_bucket = "rat option \<times> string"

definition ping_series :: "ping_bucket list \<Rightarrow> rat list" where
  "ping_series hist = List.map_filter fst hist"

text \<open>The regular expression \<open>/T(\d{2}):(\d{2})/\<close>, at its first match.\<close>

fun match_clock :: "string \<Rightarrow> (string \<times> string) option" where
  "match_clock [] = None"
| "match_clock (c # s) =
     (if c = CHR ''T'' \<and> length s \<ge> 5 \<and> is_digit (s ! 0) \<and> is_digit (s ! 1) \<and> s ! 2 = CHR '':'' \<and> is_digit (s ! 3) \<and> is_digit (s ! 4)
      then Some (take 2 s, take 2 (drop 3 s)) else match_clock s)"

definition axis_time_label_from_iso :: "string \<Rightarrow> string" where
  "axis_time_label_from_iso isodate =
     (case match_clock isodate of
        Some (h, m) \<Rightarrow> h @ '':'' @ m @ ''Z''
      | None \<Rightarrow> if length isodate > 13 then take 5 (drop 11 isodate) @ ''Z'' else isodate)"

definition axis_mid_label_from_utc_iso_pair :: "(string \<Rightarrow> int option) \<Rightarrow> (int \<Rightarrow> string) \<Rightarrow> string \<Rightarrow> string \<Rightarrow> string" where
  "axis_mid_label_from_utc_iso_pair parse_date iso_of a b =
     (case (parse_date a, parse_date b) of
        (Some x, Some y) \<Rightarrow> axis_time_label_from_iso (iso_of ((x + y + 1) div 2))
      | _ \<Rightarrow> [])"

record spark_model =
  sm_ys :: "rat list"
  sm_left :: string
  sm_right :: string
  sm_mid :: string

definition ping_points_from_history :: "(string \<Rightarrow> string \<Rightarrow> string) \<Rightarrow> ping_bucket list \<Rightarrow> spark_model option" where
  "ping_points_from_history mid hist =
     (let ps = List.map_filter (\<lambda>(v, t). case v of Some x \<Rightarrow> if trim t \<noteq> [] then Some (x, trim t) else None | None \<Rightarrow> None) hist in
      if length hist < 2 \<or> length ps < 2 then None
      else Some \<lparr>sm_ys = map fst ps, sm_left = axis_time_label_from_iso (snd (hd ps)), sm_right = axis_time_label_from_iso (snd (last ps)),
        sm_mid = mid (snd (hd ps)) (snd (last ps))\<rparr>)"

definition OVERVIEW_DEV_PING_SPARK_SERIES :: "rat list" where
  "OVERVIEW_DEV_PING_SPARK_SERIES = [19, 22, 25, 31, 38, 35, 29, 24, 21, 23, 20, 18, 22, 26, 21]"

definition ping_series_for_spark :: "bool \<Rightarrow> ping_bucket list \<Rightarrow> rat list" where
  "ping_series_for_spark dev hist =
     (if length (ping_series hist) \<ge> 2 then ping_series hist else if dev then OVERVIEW_DEV_PING_SPARK_SERIES else ping_series hist)"

definition ping_spark_chart_model :: "(string \<Rightarrow> string \<Rightarrow> string) \<Rightarrow> bool \<Rightarrow> ping_bucket list \<Rightarrow> spark_model" where
  "ping_spark_chart_model mid dev hist =
     (case ping_points_from_history mid hist of
        Some m \<Rightarrow> m
      | None \<Rightarrow>
          (let ys = ping_series_for_spark dev hist in
           if length ys < 2 then \<lparr>sm_ys = [], sm_left = [], sm_right = [], sm_mid = []\<rparr>
           else \<lparr>sm_ys = ys, sm_left = ''Older'', sm_right = ''Now'', sm_mid = []\<rparr>))"

text \<open>
  The page computes the chart in doubles: \<open>rnd\<close> is the rounding of each operation's result, and the numbers are rationals that
  doubles hold. An operation whose result is exact, as on small integers, is written without it.
\<close>

record spark_range =
  vmin :: rat
  vmax :: rat
  vspan :: rat

definition ping_spark_scaled_range :: "(rat \<Rightarrow> rat) \<Rightarrow> rat list \<Rightarrow> spark_range option" where
  "ping_spark_scaled_range rnd series =
     (case series of
        [] \<Rightarrow> None
      | y # ys \<Rightarrow>
          (let lo = foldl min y ys; hi = foldl max y ys; d = rnd (hi - lo) in
           if d \<le> rnd (1 / 10 ^ 9)
           then (let lo2 = max 0 (rnd (lo - 2)); hi2 = rnd (hi + 2) in Some \<lparr>vmin = lo2, vmax = hi2, vspan = rnd (hi2 - lo2)\<rparr>)
           else (let pad = rnd (d * rnd (8 / 100)); lo2 = rnd (lo - pad); hi2 = rnd (hi + pad) in
             Some \<lparr>vmin = lo2, vmax = hi2, vspan = rnd (hi2 - lo2)\<rparr>)))"

definition PING_SPARK_VB_WIDTH :: rat where "PING_SPARK_VB_WIDTH = 640"
definition PING_SPARK_VB_HEIGHT :: rat where "PING_SPARK_VB_HEIGHT = 208"

text \<open>The plot's edges, within margins of 14, 10, 12 and 10.\<close>

definition plot_left :: rat where "plot_left = 14"
definition plot_right :: rat where "plot_right = PING_SPARK_VB_WIDTH - 10"
definition plot_top :: rat where "plot_top = 12"
definition plot_bottom :: rat where "plot_bottom = PING_SPARK_VB_HEIGHT - 10"

definition spark_x :: "(rat \<Rightarrow> rat) \<Rightarrow> nat \<Rightarrow> nat \<Rightarrow> rat" where
  "spark_x rnd n i = (if n \<le> 1 then plot_left + (plot_right - plot_left) / 2
     else rnd (plot_left + rnd (rnd ((plot_right - plot_left) * of_nat i) / of_nat (n - 1))))"

definition spark_y :: "(rat \<Rightarrow> rat) \<Rightarrow> spark_range \<Rightarrow> rat \<Rightarrow> rat" where
  "spark_y rnd r v = rnd (plot_top + rnd (rnd (1 - rnd (rnd (v - vmin r) / vspan r)) * (plot_bottom - plot_top)))"

text \<open>The corners of the filled area and of the line.\<close>

definition spark_line :: "(rat \<Rightarrow> rat) \<Rightarrow> spark_range \<Rightarrow> rat list \<Rightarrow> (rat \<times> rat) list" where
  "spark_line rnd r ys = map (\<lambda>i. (spark_x rnd (length ys) i, spark_y rnd r (ys ! i))) [0..<length ys]"

definition spark_area :: "(rat \<Rightarrow> rat) \<Rightarrow> spark_range \<Rightarrow> rat list \<Rightarrow> (rat \<times> rat) list" where
  "spark_area rnd r ys =
     (spark_x rnd (length ys) 0, plot_bottom) # spark_line rnd r ys @ [(spark_x rnd (length ys) (length ys - 1), plot_bottom)]"

definition js_round :: "rat \<Rightarrow> int" where
  "js_round x = \<lfloor>x + 1 / 2\<rfloor>"

text \<open>The numbers on the axis, from the top; the middle only where it says something of its own.\<close>

definition spark_y_labels :: "(rat \<Rightarrow> rat) \<Rightarrow> spark_range \<Rightarrow> int list" where
  "spark_y_labels rnd r =
     (let t = js_round (vmax r); b = js_round (vmin r); m = js_round (rnd (rnd (vmin r + vmax r) / 2)) in
      if t = b then [t] else if m \<noteq> t \<and> m \<noteq> b then [t, m, b] else [t, b])"

lemma foldl_min_max: "foldl min y ys = Min (set (y # ys))" "foldl max y ys = Max (set (y # ys))" for y :: rat
proof -
  have "foldl min y ys = fold min ys y" by (induction ys arbitrary: y) (simp_all add: min.commute)
  then show "foldl min y ys = Min (set (y # ys))" by (simp only: Min.set_eq_fold)
  have "foldl max y ys = fold max ys y" by (induction ys arbitrary: y) (simp_all add: max.commute)
  then show "foldl max y ys = Max (set (y # ys))" by (simp only: Max.set_eq_fold)
qed

text \<open>
  What the chart needs of the rounding of doubles: it keeps the order, it leaves integers that doubles hold alone, and its error
  is at most half a unit in the last place (the 1 covers results too small for all their digits). Nothing is asked
  of numbers so large that no latency comes near.
\<close>

definition double_rounding :: "(rat \<Rightarrow> rat) \<Rightarrow> bool" where
  "double_rounding rnd \<longleftrightarrow> mono rnd \<and> (\<forall>n. \<bar>n\<bar> \<le> 2 ^ 53 \<longrightarrow> rnd (of_int n) = of_int n) \<and>
     (\<forall>x. \<bar>x\<bar> \<le> 2 ^ 54 \<longrightarrow> \<bar>rnd x - x\<bar> \<le> (1 + \<bar>x\<bar>) / 2 ^ 53)"

definition latency_series :: "(rat \<Rightarrow> rat) \<Rightarrow> rat list \<Rightarrow> bool" where
  "latency_series rnd ys \<longleftrightarrow> list_all (\<lambda>v. 0 \<le> v \<and> v \<le> 2 ^ 52 \<and> rnd v = v) ys"

lemma rounding_facts:
  assumes "double_rounding rnd"
  shows "x \<le> y \<Longrightarrow> rnd x \<le> rnd y" "rnd 0 = 0" "rnd 1 = 1"
    "\<bar>n\<bar> \<le> 2 ^ 53 \<Longrightarrow> rnd (of_int n) = of_int n" "\<bar>x\<bar> \<le> 2 ^ 54 \<Longrightarrow> \<bar>rnd x - x\<bar> \<le> (1 + \<bar>x\<bar>) / 2 ^ 53"
proof -
  have i: "\<bar>n\<bar> \<le> 2 ^ 53 \<Longrightarrow> rnd (of_int n) = of_int n" for n using assms by (simp add: double_rounding_def)
  then show "\<bar>n\<bar> \<le> 2 ^ 53 \<Longrightarrow> rnd (of_int n) = of_int n" .
  show "rnd 0 = 0" "rnd 1 = 1" using i [of 0] i [of 1] by simp_all
  show "x \<le> y \<Longrightarrow> rnd x \<le> rnd y" using assms by (auto simp: double_rounding_def dest: monoD)
  show "\<bar>x\<bar> \<le> 2 ^ 54 \<Longrightarrow> \<bar>rnd x - x\<bar> \<le> (1 + \<bar>x\<bar>) / 2 ^ 53" using assms by (simp add: double_rounding_def)
qed

lemma rounding_ge_int: "double_rounding rnd \<Longrightarrow> of_int n \<le> x \<Longrightarrow> \<bar>n\<bar> \<le> 2 ^ 53 \<Longrightarrow> of_int n \<le> rnd x"
  and rounding_le_int: "double_rounding rnd \<Longrightarrow> x \<le> of_int n \<Longrightarrow> \<bar>n\<bar> \<le> 2 ^ 53 \<Longrightarrow> rnd x \<le> of_int n"
  using rounding_facts(1,4) by metis+

lemma rounding_between: "double_rounding rnd \<Longrightarrow> of_int a \<le> x \<Longrightarrow> x \<le> of_int b \<Longrightarrow> \<bar>a\<bar> \<le> 2 ^ 53 \<Longrightarrow> \<bar>b\<bar> \<le> 2 ^ 53 \<Longrightarrow>
    of_int a \<le> rnd x \<and> rnd x \<le> of_int b"
  by (simp add: rounding_ge_int rounding_le_int)

lemma scaled_range_covers:
  assumes "double_rounding rnd" "latency_series rnd ys" "ping_spark_scaled_range rnd ys = Some r"
  shows "1 / (2 * 10 ^ 9) \<le> vspan r" "vspan r = rnd (vmax r - vmin r)" "vmax r - vmin r \<le> 2 ^ 54"
    "v \<in> set ys \<Longrightarrow> vmin r \<le> v \<and> v \<le> vmax r"
proof -
  note R = rounding_facts [OF assms(1)]
  obtain z zs where ys: "ys = z # zs" using assms(3) by (cases ys) (auto simp: ping_spark_scaled_range_def)
  define lo where "lo = foldl min z zs"
  define hi where "hi = foldl max z zs"
  have in_range: "lo \<le> v \<and> v \<le> hi" if "v \<in> set ys" for v
    using that by (simp add: lo_def hi_def ys foldl_min_max)
  have "lo \<in> set ys" "hi \<in> set ys" using Min_in [of "set ys"] Max_in [of "set ys"] by (simp_all add: lo_def hi_def ys foldl_min_max)
  then have lohi: "0 \<le> lo" "lo \<le> hi" "hi \<le> 2 ^ 52" "rnd lo = lo" "rnd hi = hi"
    using in_range assms(2) by (auto simp: latency_series_def list_all_iff)
  define tiny where "tiny = (1 / 10 ^ 9 :: rat)"
  have "vspan r = rnd (vmax r - vmin r) \<and> vmin r \<le> lo \<and> hi \<le> vmax r \<and> vmax r - vmin r \<le> 2 ^ 54 \<and> 1 / (2 * 10 ^ 9) \<le> vspan r"
  proof (cases "rnd (hi - lo) \<le> rnd tiny")
    case True
    then have r: "r = \<lparr>vmin = max 0 (rnd (lo - 2)), vmax = rnd (hi + 2), vspan = rnd (rnd (hi + 2) - max 0 (rnd (lo - 2)))\<rparr>"
      using assms(3) unfolding ping_spark_scaled_range_def ys list.case Let_def lo_def [symmetric] hi_def [symmetric] tiny_def [symmetric] by simp
    have lo: "max 0 (rnd (lo - 2)) \<le> lo" using R(1) [of "lo - 2" lo] lohi by simp
    have fl: "of_int (\<lfloor>hi\<rfloor> + 2) \<le> hi + 2" "hi + 1 \<le> of_int (\<lfloor>hi\<rfloor> + 2)" by linarith+
    have "\<lfloor>hi\<rfloor> \<le> 2 ^ 52" "0 \<le> \<lfloor>hi\<rfloor>" using lohi floor_mono [of hi "2 ^ 52"] by simp_all
    then have "\<bar>\<lfloor>hi\<rfloor> + 2\<bar> \<le> 2 ^ 53" by simp
    with rounding_ge_int [OF assms(1) fl(1)] fl(2) have up: "hi + 1 \<le> rnd (hi + 2)" by linarith
    have top: "rnd (hi + 2) \<le> 2 ^ 53" using rounding_le_int [OF assms(1), of "hi + 2" "2 ^ 53"] lohi by simp
    have "1 \<le> rnd (rnd (hi + 2) - max 0 (rnd (lo - 2)))"
      using R(1) [of 1 "rnd (hi + 2) - max 0 (rnd (lo - 2))"] R(3) up lo lohi by linarith
    with lo up top show ?thesis by (simp add: r)
  next
    case False
    define pad where "pad = rnd (rnd (hi - lo) * rnd (8 / 100))"
    have r: "r = \<lparr>vmin = rnd (lo - pad), vmax = rnd (hi + pad), vspan = rnd (rnd (hi + pad) - rnd (lo - pad))\<rparr>"
      using False assms(3) unfolding ping_spark_scaled_range_def ys list.case Let_def lo_def [symmetric] hi_def [symmetric] tiny_def [symmetric] pad_def
      by simp
    have d: "0 \<le> rnd (hi - lo)" "rnd (hi - lo) \<le> 2 ^ 52"
      using rounding_between [OF assms(1), of 0 "hi - lo" "2 ^ 52"] lohi by simp_all
    have e: "0 \<le> rnd (8 / 100)" "rnd (8 / 100) \<le> 1" using rounding_between [OF assms(1), of 0 "8 / 100" 1] by simp_all
    have "rnd (hi - lo) * rnd (8 / 100) \<le> 2 ^ 52 * 1" using d e by (intro mult_mono) simp_all
    then have pad: "0 \<le> pad" "pad \<le> 2 ^ 52"
      using rounding_between [OF assms(1), of 0 "rnd (hi - lo) * rnd (8 / 100)" "2 ^ 52"] d e by (simp_all add: pad_def)
    have ends: "rnd (lo - pad) \<le> lo" "hi \<le> rnd (hi + pad)" using R(1) [of "lo - pad" lo] R(1) [of hi "hi + pad"] lohi pad by simp_all
    have top: "rnd (hi + pad) \<le> 2 ^ 53" "- (2 ^ 52) \<le> rnd (lo - pad)"
      using rounding_le_int [OF assms(1), of "hi + pad" "2 ^ 53"] rounding_ge_int [OF assms(1), of "- (2 ^ 52)" "lo - pad"] lohi pad by simp_all
    have "rnd tiny \<le> rnd (rnd (hi + pad) - rnd (lo - pad))"
      using False R(1) [of "hi - lo" "rnd (hi + pad) - rnd (lo - pad)"] ends by linarith
    moreover have "1 / (2 * 10 ^ 9) \<le> rnd tiny"
    proof -
      have "\<bar>rnd tiny - tiny\<bar> \<le> (1 + tiny) / 2 ^ 53" using R(5) [of tiny] by (simp add: tiny_def)
      then have "tiny - (1 + tiny) / 2 ^ 53 \<le> rnd tiny" by linarith
      moreover have "1 / (2 * 10 ^ 9) \<le> tiny - (1 + tiny) / 2 ^ 53" by (simp add: tiny_def)
      ultimately show ?thesis by linarith
    qed
    ultimately show ?thesis using ends top by (simp add: r)
  qed
  then show "1 / (2 * 10 ^ 9) \<le> vspan r" "vspan r = rnd (vmax r - vmin r)" "vmax r - vmin r \<le> 2 ^ 54"
    "v \<in> set ys \<Longrightarrow> vmin r \<le> v \<and> v \<le> vmax r"
    using in_range by (auto intro: order_trans)
qed

text \<open>Where a point would be in exact arithmetic.\<close>

definition exact_x :: "nat \<Rightarrow> nat \<Rightarrow> rat" where
  "exact_x n i = plot_left + (plot_right - plot_left) * of_nat i / of_nat (n - 1)"

definition exact_y :: "spark_range \<Rightarrow> rat \<Rightarrow> rat" where
  "exact_y r v = plot_top + (1 - (v - vmin r) / vspan r) * (plot_bottom - plot_top)"

lemma plot_edges: "plot_left = 14" "plot_right = 630" "plot_top = 12" "plot_bottom = 198"
  by (simp_all add: plot_left_def plot_right_def plot_top_def plot_bottom_def PING_SPARK_VB_WIDTH_def PING_SPARK_VB_HEIGHT_def)

text \<open>The height in steps, each rounded: every one keeps its bounds and the order, and adds at most the error of its rounding.\<close>

lemma spark_y_steps:
  assumes "double_rounding rnd" "0 < sp" "0 \<le> w" "rnd w \<le> sp"
  shows "0 \<le> rnd (rnd w / sp) \<and> rnd (rnd w / sp) \<le> 1"
    "0 \<le> rnd (1 - rnd (rnd w / sp)) \<and> rnd (1 - rnd (rnd w / sp)) \<le> 1"
    "0 \<le> rnd (rnd (1 - rnd (rnd w / sp)) * 186) \<and> rnd (rnd (1 - rnd (rnd w / sp)) * 186) \<le> 186"
    "12 \<le> rnd (12 + rnd (rnd (1 - rnd (rnd w / sp)) * 186)) \<and> rnd (12 + rnd (rnd (1 - rnd (rnd w / sp)) * 186)) \<le> 198"
proof -
  have "0 \<le> rnd w" using rounding_facts(1) [OF assms(1) assms(3)] rounding_facts(2) [OF assms(1)] by simp
  then show q: "0 \<le> rnd (rnd w / sp) \<and> rnd (rnd w / sp) \<le> 1"
    using rounding_between [OF assms(1), of 0 "rnd w / sp" 1] assms(2,4) by simp
  then show p: "0 \<le> rnd (1 - rnd (rnd w / sp)) \<and> rnd (1 - rnd (rnd w / sp)) \<le> 1"
    using rounding_between [OF assms(1), of 0 "1 - rnd (rnd w / sp)" 1] by simp
  then show t: "0 \<le> rnd (rnd (1 - rnd (rnd w / sp)) * 186) \<and> rnd (rnd (1 - rnd (rnd w / sp)) * 186) \<le> 186"
    using rounding_between [OF assms(1), of 0 "rnd (1 - rnd (rnd w / sp)) * 186" 186] by simp
  then show "12 \<le> rnd (12 + rnd (rnd (1 - rnd (rnd w / sp)) * 186)) \<and> rnd (12 + rnd (rnd (1 - rnd (rnd w / sp)) * 186)) \<le> 198"
    using rounding_between [OF assms(1), of 12 "12 + rnd (rnd (1 - rnd (rnd w / sp)) * 186)" 198] by simp
qed

lemma error_sum:
  fixes e :: rat
  assumes "\<bar>a - b\<bar> \<le> 1 / 10 ^ 6" "\<bar>q - a\<bar> \<le> 2 * e" "\<bar>p - (1 - q)\<bar> \<le> 2 * e" "\<bar>t - p * 186\<bar> \<le> 187 * e" "\<bar>y - (12 + t)\<bar> \<le> 199 * e"
    "1000 * e \<le> 1 / 10 ^ 6"
  shows "\<bar>y - (12 + (1 - b) * 186)\<bar> \<le> 1 / 1000"
proof -
  have split: "\<bar>u - v\<bar> \<le> d \<longleftrightarrow> u - v \<le> d \<and> v - u \<le> d" for u v d :: rat by (simp only: abs_le_iff minus_diff_eq)
  have ab: "a - b \<le> 1 / 1000000" "b - a \<le> 1 / 1000000" "e \<le> 1 / 1000000000" using assms(1) [unfolded split] assms(6) by simp_all
  note steps = assms(2-5) [unfolded split]
  have "y \<le> 12 + t + 199 * e" "t \<le> p * 186 + 187 * e" "p \<le> 1 - q + 2 * e" "a - 2 * e \<le> q"
    "12 + t \<le> y + 199 * e" "p * 186 \<le> t + 187 * e" "1 - q \<le> p + 2 * e" "q \<le> a + 2 * e" using steps by linarith+
  then have "y \<le> 12 + (1 - a) * 186 + 1130 * e" "12 + (1 - a) * 186 \<le> y + 1130 * e" by (simp_all add: algebra_simps)
  with ab have "y - (12 + (1 - b) * 186) \<le> 1 / 1000" "- (y - (12 + (1 - b) * 186)) \<le> 1 / 1000" by (simp_all add: algebra_simps)
  then show ?thesis by (rule abs_leI)
qed

lemma spark_y_error:
  assumes "double_rounding rnd" "1 / (2 * 10 ^ 9) \<le> sp" "0 \<le> w" "w \<le> 2 ^ 54" "rnd w \<le> sp"
  shows "\<bar>rnd (12 + rnd (rnd (1 - rnd (rnd w / sp)) * 186)) - (12 + (1 - w / sp) * 186)\<bar> \<le> 1 / 1000"
proof -
  define e where "e = (1 / 2 ^ 53 :: rat)"
  have err: "\<bar>x\<bar> \<le> 2 ^ 54 \<Longrightarrow> \<bar>rnd x - x\<bar> \<le> (1 + \<bar>x\<bar>) * e" for x using rounding_facts(5) [OF assms(1)] by (simp add: e_def)
  have e: "0 < e" "e \<le> 12 / 10 ^ 17" by (simp_all add: e_def)
  have within: "\<bar>rnd x - x\<bar> \<le> (1 + b) * e" if "0 \<le> x" "x \<le> b" "b \<le> 2 ^ 54" for x b
  proof -
    have "\<bar>rnd x - x\<bar> \<le> (1 + x) * e" using err [of x] that by simp
    also have "\<dots> \<le> (1 + b) * e" using that e by (intro mult_right_mono) simp_all
    finally show ?thesis .
  qed
  have sp: "0 < sp" "1 / sp \<le> 2 * 10 ^ 9" using assms(2) by (auto simp: field_simps)
  note steps = spark_y_steps [OF assms(1) sp(1) assms(3,5)]
  define q where "q = rnd (rnd w / sp)"
  define p where "p = rnd (1 - q)"
  define t where "t = rnd (p * 186)"
  have range: "0 \<le> q" "q \<le> 1" "0 \<le> p" "p \<le> 1" "0 \<le> t" "t \<le> 186" using steps by (simp_all add: q_def p_def t_def)
  have "0 \<le> rnd w" using rounding_facts(1) [OF assms(1) assms(3)] rounding_facts(2) [OF assms(1)] by simp
  then have a: "0 \<le> rnd w / sp" "rnd w / sp \<le> 1" using sp assms(5) by simp_all
  have 0: "\<bar>rnd w - w\<bar> \<le> (1 + w) * e" using err [of w] assms(3,4) by simp
  then have "w * (1 - e) \<le> sp + e" using assms(5) by (simp add: algebra_simps abs_le_iff)
  moreover have "w * (1 / 2) \<le> w * (1 - e)" using assms(3) e by (intro mult_left_mono) simp_all
  ultimately have "w \<le> 2 * sp + 2 * e" by linarith
  then have "(1 + w) * e \<le> (1 + 2 * e + 2 * sp) * e" using e by (intro mult_right_mono) simp_all
  with 0 have "\<bar>rnd w - w\<bar> / sp \<le> (1 + 2 * e + 2 * sp) * e / sp" using sp by (intro divide_right_mono) linarith+
  also have "\<dots> = (1 + 2 * e) * e * (1 / sp) + 2 * e" using sp by (simp add: field_simps)
  also have "\<dots> \<le> (1 + 2 * e) * e * (2 * 10 ^ 9) + 2 * e" using sp e by (intro add_right_mono mult_left_mono) simp_all
  also have "\<dots> \<le> 1 / 10 ^ 6" by (simp add: e_def)
  finally have 1: "\<bar>rnd w / sp - w / sp\<bar> \<le> 1 / 10 ^ 6" using sp by (simp add: diff_divide_distrib [symmetric] abs_divide)
  have 2: "\<bar>q - rnd w / sp\<bar> \<le> 2 * e" using within [OF a] by (simp add: q_def)
  have 3: "\<bar>p - (1 - q)\<bar> \<le> 2 * e" using within [of "1 - q" 1] range by (simp add: p_def)
  have 4: "\<bar>t - p * 186\<bar> \<le> 187 * e" using within [of "p * 186" 186] range by (simp add: t_def)
  have 5: "\<bar>rnd (12 + t) - (12 + t)\<bar> \<le> 199 * e" using within [of "12 + t" 198] range by simp
  have "1000 * e \<le> 1 / 10 ^ 6" by (simp add: e_def)
  with 1 2 3 4 5 show ?thesis unfolding q_def [symmetric] p_def [symmetric] t_def [symmetric] by (intro error_sum)
qed

lemma spark_y_exact:
  assumes "double_rounding rnd" "latency_series rnd ys" "ping_spark_scaled_range rnd ys = Some r" "v \<in> set ys"
  shows "plot_top \<le> spark_y rnd r v" "spark_y rnd r v \<le> plot_bottom" "\<bar>spark_y rnd r v - exact_y r v\<bar> \<le> 1 / 1000"
    "v \<le> w \<Longrightarrow> spark_y rnd r w \<le> spark_y rnd r v"
proof -
  note R = rounding_facts(1) [OF assms(1)] and range = scaled_range_covers [OF assms(1-3)]
  have w: "0 \<le> v - vmin r" "v - vmin r \<le> vmax r - vmin r" using range(4) [OF assms(4)] by simp_all
  then have rw: "rnd (v - vmin r) \<le> vspan r" "v - vmin r \<le> 2 ^ 54" using R [of "v - vmin r" "vmax r - vmin r"] range(2,3) by simp_all
  have sp: "0 < vspan r" using range(1) by (rule less_le_trans [rotated]) simp
  have y: "spark_y rnd r x = rnd (12 + rnd (rnd (1 - rnd (rnd (x - vmin r) / vspan r)) * 186))" for x
    by (simp add: spark_y_def plot_edges)
  show "plot_top \<le> spark_y rnd r v" "spark_y rnd r v \<le> plot_bottom"
    using spark_y_steps(4) [OF assms(1) sp w(1) rw(1)] by (simp_all add: y plot_edges)
  show "\<bar>spark_y rnd r v - exact_y r v\<bar> \<le> 1 / 1000"
    using spark_y_error [OF assms(1) range(1) w(1) rw(2,1)] by (simp add: y exact_y_def plot_edges)
  show "spark_y rnd r w \<le> spark_y rnd r v" if "v \<le> w"
  proof -
    have "rnd (rnd (v - vmin r) / vspan r) \<le> rnd (rnd (w - vmin r) / vspan r)"
      using that sp by (intro R divide_right_mono) simp_all
    then show ?thesis unfolding y by (intro R add_left_mono mult_right_mono) simp_all
  qed
qed

lemma spark_x_exact:
  assumes "double_rounding rnd" "i < n" "n \<le> 100000"
  shows "plot_left \<le> spark_x rnd n i" "spark_x rnd n i \<le> plot_right" "2 \<le> n \<Longrightarrow> \<bar>spark_x rnd n i - exact_x n i\<bar> \<le> 1 / 1000"
proof -
  have "plot_left \<le> spark_x rnd n i \<and> spark_x rnd n i \<le> plot_right \<and> (2 \<le> n \<longrightarrow> \<bar>spark_x rnd n i - exact_x n i\<bar> \<le> 1 / 1000)"
  proof (cases "n \<le> 1")
    case True
    then show ?thesis by (simp add: spark_x_def plot_edges)
  next
    case False
    define p where "p = 616 * of_nat i / (of_nat (n - 1) :: rat)"
    have n: "(of_nat i :: rat) \<le> of_nat (n - 1)" "0 < (of_nat (n - 1) :: rat)" using assms(2) False by auto
    then have p: "0 \<le> p" "p \<le> 616" by (simp_all add: p_def pos_divide_le_eq)
    have "\<bar>616 * int i\<bar> \<le> 2 ^ 53" using assms(2,3) by simp
    then have "rnd (of_int (616 * int i)) = of_int (616 * int i)" by (rule rounding_facts(4) [OF assms(1)])
    then have x: "spark_x rnd n i = rnd (14 + rnd p)" "exact_x n i = 14 + p"
      using False by (simp_all add: spark_x_def exact_x_def plot_edges p_def)
    have r: "0 \<le> rnd p \<and> rnd p \<le> 616" using rounding_between [OF assms(1), of 0 p 616] p by simp
    then have e: "14 \<le> rnd (14 + rnd p) \<and> rnd (14 + rnd p) \<le> 630" using rounding_between [OF assms(1), of 14 "14 + rnd p" 630] by simp
    have "\<bar>rnd p - p\<bar> \<le> (1 + p) / 2 ^ 53" "\<bar>rnd (14 + rnd p) - (14 + rnd p)\<bar> \<le> (1 + (14 + rnd p)) / 2 ^ 53"
      using rounding_facts(5) [OF assms(1), of p] rounding_facts(5) [OF assms(1), of "14 + rnd p"] p r by simp_all
    moreover have "(1 + p) / 2 ^ 53 \<le> 1 / 2000" "(1 + (14 + rnd p)) / 2 ^ 53 \<le> 1 / 2000" using p r by simp_all
    ultimately have "\<bar>rnd p - p\<bar> \<le> 1 / 2000" "\<bar>rnd (14 + rnd p) - (14 + rnd p)\<bar> \<le> 1 / 2000" by linarith+
    then have "\<bar>rnd (14 + rnd p) - (14 + p)\<bar> \<le> 1 / 1000" by linarith
    with e show ?thesis by (simp only: x plot_edges) blast
  qed
  then show "plot_left \<le> spark_x rnd n i" "spark_x rnd n i \<le> plot_right" "2 \<le> n \<Longrightarrow> \<bar>spark_x rnd n i - exact_x n i\<bar> \<le> 1 / 1000"
    by blast+
qed


text \<open>A rounding with the promised laws, to sixty binary places.\<close>

definition toy_rounding :: "rat \<Rightarrow> rat" where
  "toy_rounding x = of_int \<lfloor>x * 2 ^ 60 + 1 / 2\<rfloor> / 2 ^ 60"

lemma toy_rounding_int: "toy_rounding (of_int n) = of_int n"
proof -
  have "\<lfloor>of_int n * 2 ^ 60 + 1 / 2 :: rat\<rfloor> = n * 2 ^ 60" by (rule floor_unique) simp_all
  then show ?thesis by (simp add: toy_rounding_def)
qed

lemma toy_double_rounding: "double_rounding toy_rounding"
  unfolding double_rounding_def
proof (intro conjI allI impI)
  show "mono toy_rounding"
    by (rule monoI) (auto simp: toy_rounding_def intro!: divide_right_mono floor_mono)
  show "toy_rounding (of_int n) = of_int n" for n by (rule toy_rounding_int)
  fix x :: rat
  have "\<bar>of_int \<lfloor>x * 2 ^ 60 + 1 / 2\<rfloor> - x * 2 ^ 60\<bar> \<le> 1 / 2" by linarith
  then have "\<bar>of_int \<lfloor>x * 2 ^ 60 + 1 / 2\<rfloor> - x * 2 ^ 60\<bar> / 2 ^ 60 \<le> (1 / 2) / 2 ^ 60" by (rule divide_right_mono) simp
  moreover have "toy_rounding x - x = (of_int \<lfloor>x * 2 ^ 60 + 1 / 2\<rfloor> - x * 2 ^ 60) / 2 ^ 60"
    by (simp add: toy_rounding_def diff_divide_distrib)
  ultimately have "\<bar>toy_rounding x - x\<bar> \<le> 1 / 2 ^ 61" by (simp only: abs_divide) simp
  also have "\<dots> \<le> (1 + \<bar>x\<bar>) / 2 ^ 53" by (simp add: field_simps)
  finally show "\<bar>toy_rounding x - x\<bar> \<le> (1 + \<bar>x\<bar>) / 2 ^ 53" .
qed


section \<open>The latency card\<close>

text \<open>What stands in place of the chart.\<close>

definition ping_spark_note :: "(string \<Rightarrow> string \<Rightarrow> string) \<Rightarrow> bool \<Rightarrow> jsval \<Rightarrow> ping_bucket list \<Rightarrow> string option" where
  "ping_spark_note mid dev met hist =
     (if \<not> truthy met then Some ''Latency history could not be loaded.''
      else (let ys = sm_ys (ping_spark_chart_model mid dev hist) in
        if length ys \<ge> 2 then None
        else Some (if truthy (at_member met ''collection_disabled'') then ''Turn on ICMP peer metrics collection to build a latency history.''
          else if ys = [] then ''Historical averages appear once the collector fills a short window (~15 min '' @ middot @ '' 1 min buckets).''
          else ''Sparkline appears after two or more buckets of samples.'')))"

definition format_dashboard_min_avg_max :: "jsval \<Rightarrow> bool \<Rightarrow> string" where
  "format_dashboard_min_avg_max block collectionDisabled =
     (case (at_member block ''min_ms'', at_member block ''avg_ms'', at_member block ''max_ms'') of
        (Some (JNum a), Some (JNum b), Some (JNum c)) \<Rightarrow> show_int a @ '' / '' @ show_int b @ '' / '' @ show_int c @ '' ms''
      | _ \<Rightarrow> if collectionDisabled then ''Collection off'' else mdash)"

text \<open>The two figures: of the last ping and of the last ten minutes.\<close>

definition latency_card_line :: "jsval \<Rightarrow> string \<times> string" where
  "latency_card_line met =
     (let off = truthy (at_member met ''collection_disabled''); dash = at_member met ''dashboard'' in
      (format_dashboard_min_avg_max (at_member dash ''last_ping'') off, format_dashboard_min_avg_max (at_member dash ''last_10m'') off))"

text \<open>A series of one value never draws: the chart's model has none or at least two.\<close>

lemma spark_model_length: "sm_ys (ping_spark_chart_model mid dev hist) = [] \<or> length (sm_ys (ping_spark_chart_model mid dev hist)) \<ge> 2"
  by (auto simp: ping_spark_chart_model_def ping_points_from_history_def Let_def split: option.splits if_splits)

text \<open>A poll replaces the card unless a newer one has started, the page is gone, or the card is another.\<close>

record latency_poll =
  lp_seq :: nat
  lp_card :: nat  \<comment> \<open>which card is on screen\<close>
  lp_old :: bool

definition latency_poll_start :: "latency_poll \<Rightarrow> (nat \<times> nat) \<times> latency_poll" where
  "latency_poll_start s = ((lp_seq s + 1, lp_card s), s\<lparr>lp_seq := lp_seq s + 1\<rparr>)"

definition latency_poll_answer :: "nat \<times> nat \<Rightarrow> nat option \<Rightarrow> latency_poll \<Rightarrow> latency_poll" where
  "latency_poll_answer poll answer s =
     (case poll of (seq, shown_card) \<Rightarrow>
      if seq \<noteq> lp_seq s \<or> shown_card \<noteq> lp_card s then s
      else (case answer of Some new \<Rightarrow> s\<lparr>lp_card := new, lp_old := False\<rparr> | None \<Rightarrow> s\<lparr>lp_old := True\<rparr>))"

lemma overtaken_poll_changes_nothing:
  "latency_poll_start s = (p, s1) \<Longrightarrow> latency_poll_start s1 = (p2, s2) \<Longrightarrow> latency_poll_answer p a s2 = s2"
  by (auto simp: latency_poll_start_def latency_poll_answer_def)

section \<open>The host card\<close>

definition GEO_STALE_MS :: int where "GEO_STALE_MS = 30 * 24 * 60 * 60 * 1000"

definition value_or_dash :: "jsval \<Rightarrow> string" where
  "value_or_dash v = (if is_nullish v then mdash else str_or_nothing v)"

text \<open>The line of the countries, and its title when the line is cut.\<close>

definition geo_line :: "json \<Rightarrow> string \<times> string option" where
  "geo_line ov =
     (if \<not> truthy (member_json ov ''geo_enabled'') then (''off'', None)
      else (let prefix = (if member_json ov ''geo_mode'' = Some (JStr ''block'') then ''block '' else ''allow '');
                cc = map js_string (array_elems (member_json ov ''geo_countries'')) in
        if length cc > 3 then (prefix @ join '', '' (take 3 cc) @ '', ...'', Some (prefix @ join '', '' cc)) else (prefix @ join '', '' cc, None)))"

datatype geo_freshness = NeverLoaded | Loaded bool string string

text \<open>Whether the zones are stale, when they were loaded, and by what.\<close>

definition build_geo_freshness_cell :: "(string \<Rightarrow> int option) \<Rightarrow> int \<Rightarrow> json \<Rightarrow> geo_freshness" where
  "build_geo_freshness_cell parse_date now ov =
     (let d = str_or_empty (member_json ov ''geo_last_success_utc'') in
      if d = [] then NeverLoaded
      else Loaded (case parse_date d of Some t \<Rightarrow> now - t > GEO_STALE_MS | None \<Rightarrow> False) d
        (let src = trim (str_or_empty (member_json ov ''geo_last_success_source'')) in if src = [] then [] else ''Source: '' @ geo_source_label src))"

definition geo_freshness_tag :: "geo_freshness \<Rightarrow> string" where
  "geo_freshness_tag g = (case g of NeverLoaded \<Rightarrow> ''Never loaded'' | Loaded stale _ _ \<Rightarrow> if stale then ''Stale'' else ''Up to date'')"

definition overview_host_geo_card :: "json \<Rightarrow> (string \<times> string) list" where
  "overview_host_geo_card ov =
     [(''WireGuard'', value_or_dash (member_json ov ''wireguard_interface'') @ '' '' @ middot @ '' UDP '' @ value_or_dash (member_json ov ''wireguard_listen_port'')),
      (''Public NIC'', value_or_dash (member_json ov ''public_interface'')),
      (''Peers'', show_nat (length (rows_or_none (member_json ov ''peer_names'')))),
      (''Forwarding'', show_nat (length (rows_or_none (member_json ov ''forwarding_routes''))) @ '' route(s)''),
      (''Geo'', fst (geo_line ov))]"

section \<open>Events\<close>

definition APPLY_EVENTS :: "string list" where
  "APPLY_EVENTS = [''reload_ok'', ''reload_failed'', ''update_geo_ok'', ''update_geo_failed'', ''backup_ok'', ''restore_ok'']"

definition event_name :: "json \<Rightarrow> string" where
  "event_name e = str_or_empty (member_json e ''event'')"

text \<open>The newest event of an apply, as HTML, and its detail.\<close>

definition apply_summary :: "(jsval \<Rightarrow> string) \<Rightarrow> json list option \<Rightarrow> string \<times> string" where
  "apply_summary time evs =
     (case evs of
        None \<Rightarrow> (''Recent apply and geo events could not be loaded.'', [])
      | Some es \<Rightarrow>
          (case find (\<lambda>e. event_name e \<in> set APPLY_EVENTS) es of
             None \<Rightarrow> (''No recent apply or geo events in the last fetch.'', [])
           | Some e \<Rightarrow> (escape_html (event_label (event_name e)) @ '' '' @ middot @ '' '' @ time (member_json e ''ts''), event_detail e)))"

definition event_item_html :: "(jsval \<Rightarrow> string) \<Rightarrow> json \<Rightarrow> string" where
  "event_item_html time e =
     ''<li><strong>'' @ escape_html (event_label (event_name e)) @ ''</strong> '' @ middot @ '' <span class=\"overview-ev-ts\">'' @
     time (member_json e ''ts'') @ ''</span>'' @
     (if event_detail e \<noteq> [] then '' '' @ mdash @ '' '' @ escape_html (event_detail e) else []) @
     (if truthy (member_json e ''error_code'')
      then '' <code class=\"inline\">'' @ escape_html (str_or_empty (member_json e ''error_code'')) @ ''</code>'' else []) @ ''</li>''"

record events_card =
  ec_html :: string
  ec_empty_shown :: bool
  ec_hidden :: bool
  ec_old :: bool
  ec_loaded :: bool
  ec_export :: "json list"

text \<open>A refresh: whether there is a token, and the events, none if the request failed.\<close>

definition refresh_overview_events_list :: "(jsval \<Rightarrow> string) \<Rightarrow> bool \<Rightarrow> json list option \<Rightarrow> events_card \<Rightarrow> events_card" where
  "refresh_overview_events_list time has_token answer c =
     (if \<not> has_token then c\<lparr>ec_html := [], ec_empty_shown := True, ec_hidden := True\<rparr>
      else (case answer of
          Some evs \<Rightarrow>
            (let c1 = c\<lparr>ec_loaded := True, ec_hidden := False, ec_old := False, ec_export := evs\<rparr> in
             if evs = [] then c1\<lparr>ec_html := [], ec_empty_shown := True\<rparr>
             else c1\<lparr>ec_html := concat (map (event_item_html time) evs), ec_empty_shown := False\<rparr>)
        | None \<Rightarrow> if \<not> ec_loaded c then c\<lparr>ec_hidden := True\<rparr> else c\<lparr>ec_old := True\<rparr>))"

text \<open>A failed refresh changes neither the list nor the export, and says that the list is old; the next one that answers shows its events again.\<close>

lemma failed_events_refresh_keeps_the_list:
  "ec_html (refresh_overview_events_list time True None c) = ec_html c"
  "ec_export (refresh_overview_events_list time True None c) = ec_export c"
  "ec_loaded c \<Longrightarrow> ec_old (refresh_overview_events_list time True None c)"
  "\<not> ec_old (refresh_overview_events_list time True (Some evs) (refresh_overview_events_list time True None c))"
  "ec_html (refresh_overview_events_list time True (Some evs) c) = concat (map (event_item_html time) evs)"
  by (simp_all add: refresh_overview_events_list_def Let_def)

section \<open>Maintenance\<close>

definition maintenance_edit :: "bool \<Rightarrow> edit" where
  "maintenance_edit v = section_edit ''forwarding'' ''maintenance_mode'' (JBool v)"

definition maintenance_text :: "bool \<Rightarrow> string" where
  "maintenance_text v =
     (if v then ''Maintenance mode saved. Public port forwards stop when you Apply.'' else ''Maintenance mode off. Apply to restore forwards.'')"

definition maintenance_of :: "json \<Rightarrow> bool" where
  "maintenance_of c = truthy (member_json (section_of c ''forwarding'') ''maintenance_mode'')"

text \<open>Where the switch stands after a change: as asked once saved, as the known config says if not.\<close>

definition maintenance_switched :: "bool \<Rightarrow> json \<Rightarrow> (string + json) \<Rightarrow> bool" where
  "maintenance_switched on known result = (case result of Inr _ \<Rightarrow> on | Inl _ \<Rightarrow> maintenance_of known)"

lemma maintenance_only:
  assumes "maintenance_edit v c = Inr (True, c')"
  shows "maintenance_of c' = v" "rows_or_none (at_member (member_json c' ''forwarding'') ''routes'') = rows_or_none (at_member (Some (section_of c ''forwarding'')) ''routes'')"
    "q \<noteq> ''forwarding'' \<Longrightarrow> member_json c' q = member_json c q"
proof -
  note only = section_edit_only [OF assms [unfolded maintenance_edit_def]]
  show "maintenance_of c' = v" using only(1) by (simp add: maintenance_of_def truthy_def)
  show "q \<noteq> ''forwarding'' \<Longrightarrow> member_json c' q = member_json c q" by (rule only(3))
  have "member_json c' ''forwarding'' = Some (with_key (section_of c ''forwarding'') ''maintenance_mode'' (JBool v))"
    using assms by (auto simp: maintenance_edit_def section_edit_def)
  then show "rows_or_none (at_member (member_json c' ''forwarding'') ''routes'') = rows_or_none (at_member (Some (section_of c ''forwarding'')) ''routes'')"
    by (simp add: at_member_def)
qed

end
