(* ===== verification/Token_Stats.thy ===== *)
theory Token_Stats
  imports Api Dirty Peers Lockout
begin

text \<open>
  \<open>pages/token.js\<close> and \<open>pages/stats.js\<close>: what Connect stores and what requests then use; the tables of WireGuard peers and
  nftables counters.

  The texts of sizes, counts and times are parameters, as \<open>Intl\<close> makes them.
\<close>

section \<open>The token page\<close>

text \<open>What the browser keeps: per key, the value of the session and the lasting one.\<close>

record token_store =
  ts_session_token :: "string option"
  ts_local_token :: "string option"
  ts_session_base :: "string option"
  ts_local_base :: "string option"

record token_page =
  tp_store :: token_store
  tp_token :: string
  tp_base :: string
  tp_tracker :: tracker
  tp_msg :: "string \<times> bool"
  tp_notice :: bool
  tp_connected :: bool
  tp_hash :: string

definition token_controls :: "string \<Rightarrow> string \<Rightarrow> control list" where
  "token_controls t b =
     [\<lparr>ctl_id = ''token'', ctl_type = ''password'', ctl_checked = False, ctl_value = t\<rparr>,
      \<lparr>ctl_id = ''api-base'', ctl_type = ''text'', ctl_checked = False, ctl_value = b\<rparr>]"

definition refresh_token_page :: "token_page \<Rightarrow> token_page" where
  "refresh_token_page s =
     (let st = tp_store s; saved = saved_token (ts_session_token st) (ts_local_token st);
          base = (case or_text (ts_session_base st) (ts_local_base st) of Some b \<Rightarrow> trim b | None \<Rightarrow> []) in
      s\<lparr>tp_token := saved, tp_notice := saved = [], tp_base := base, tp_tracker := mark None None (token_controls saved base) (tp_tracker s)\<rparr>)"

definition ENTER_TOKEN :: string where "ENTER_TOKEN = ''Enter an API token to connect.''"

text \<open>Connect, up to its request; no request is sent without a token.\<close>

definition token_connect :: "token_page \<Rightarrow> token_page option" where
  "token_connect s =
     (let t = trim (tp_token s); b = trim (tp_base s); st = (tp_store s)\<lparr>ts_local_token := Some t\<rparr> in
      if t = [] then None
      else Some (s\<lparr>tp_store := (if b \<noteq> [] then st\<lparr>ts_local_base := Some (normalize_api_base b)\<rparr>
            else st\<lparr>ts_local_base := None, ts_session_base := None\<rparr>),
          tp_tracker := mark None None (token_controls (tp_token s) (tp_base s)) (tp_tracker s), tp_msg := (''Connecting'' @ ellipsis, False)\<rparr>))"

text \<open>The overview's answer: the scope of the token, or the error.\<close>

definition token_connected :: "string + string \<Rightarrow> bool \<Rightarrow> token_page \<Rightarrow> token_page" where
  "token_connected answer wasConnected s0 =
     (let s = (case answer of
          Inr scope \<Rightarrow> s0\<lparr>tp_connected := True, tp_msg :=
            (if is_read_only_token scope
             then ''Connected with the read-only token, which is saved in this browser. Overview, Stats and Logs are available, and nothing can be changed.''
             else ''Connected. The token is saved in this browser.'', False)\<rparr>
        | Inl e \<Rightarrow> s0\<lparr>tp_connected := False, tp_msg := (''Could not connect: '' @ e, True)\<rparr>) in
      (s\<lparr>tp_notice := False\<rparr>)\<lparr>tp_hash := (if tp_connected s \<and> \<not> wasConnected then ''#/overview'' else tp_hash s)\<rparr>)"

text \<open>
  After Connect the requests carry the token and the address typed, in a browser whose session keeps none; the page read
  back shows what was stored, and nothing on it is unsaved.
\<close>

lemma connect_is_used:
  assumes "token_connect s = Some s'" "or_text (ts_session_token (tp_store s)) None = None"
    and "or_text (ts_session_base (tp_store s)) None = None"
  shows "saved_token (ts_session_token (tp_store s')) (ts_local_token (tp_store s')) = trim (tp_token s)"
    "get_api_base (ts_session_base (tp_store s')) (ts_local_base (tp_store s')) configured =
      (if trim (tp_base s) = [] then get_default_api_base configured else get_api_base None (Some (normalize_api_base (trim (tp_base s)))) configured)"
    "\<not> is_dirty None (token_controls (tp_token s') (tp_base s')) (tp_tracker s')"
    "tp_token (refresh_token_page s') = trim (tp_token s) \<and> \<not> tp_notice (refresh_token_page s')"
proof -
  have t: "trim (tp_token s) \<noteq> []" using assms(1) by (auto simp: token_connect_def Let_def split: if_splits)
  have s': "ts_session_token (tp_store s') = ts_session_token (tp_store s)" "ts_local_token (tp_store s') = Some (trim (tp_token s))"
    "ts_local_base (tp_store s') = (if trim (tp_base s) = [] then None else Some (normalize_api_base (trim (tp_base s))))"
    "ts_session_base (tp_store s') = (if trim (tp_base s) = [] then None else ts_session_base (tp_store s))"
    "tp_token s' = tp_token s" "tp_base s' = tp_base s"
    "tp_tracker s' = mark None None (token_controls (tp_token s) (tp_base s)) (tp_tracker s)"
    using assms(1) by (auto simp: token_connect_def Let_def split: if_splits)
  have session: "or_text (ts_session_token (tp_store s)) l = l" "or_text (ts_session_base (tp_store s)) l = l" for l
    using assms(2,3) by (auto simp: or_text_def split: option.splits if_splits)
  have none: "or_text None l = l" for l by (simp add: or_text_def)
  show saved: "saved_token (ts_session_token (tp_store s')) (ts_local_token (tp_store s')) = trim (tp_token s)"
    by (simp add: saved_token_def s' session)
  show "get_api_base (ts_session_base (tp_store s')) (ts_local_base (tp_store s')) configured =
      (if trim (tp_base s) = [] then get_default_api_base configured else get_api_base None (Some (normalize_api_base (trim (tp_base s)))) configured)"
    using none by (simp add: get_api_base_def s' session)
  show "\<not> is_dirty None (token_controls (tp_token s') (tp_base s')) (tp_tracker s')" by (simp add: s')
  show "tp_token (refresh_token_page s') = trim (tp_token s) \<and> \<not> tp_notice (refresh_token_page s')"
    using saved t by (simp add: refresh_token_page_def Let_def)
qed

section \<open>The stats page\<close>

text \<open>The names of the config's peers by public key; of two with one key the later.\<close>

definition peer_names_by_public_key :: "jsval \<Rightarrow> string \<Rightarrow> string option" where
  "peer_names_by_public_key cfg =
     foldl (\<lambda>m p. let key = trim (str_or_empty (member_json p ''public_key'')); nm = trim (str_or_empty (member_json p ''name'')) in
         if key \<noteq> [] \<and> nm \<noteq> [] then m(key \<mapsto> nm) else m)
       Map.empty (array_elems (at_member cfg ''peers''))"

definition handshake_html :: "(int \<Rightarrow> string) \<Rightarrow> jsval \<Rightarrow> string" where
  "handshake_html time u = (case u of Some (JNum n) \<Rightarrow> if n \<noteq> 0 then time (n * 1000) else ''never'' | _ \<Rightarrow> ''never'')"

definition stats_peer_row :: "(int \<Rightarrow> string) \<Rightarrow> (jsval \<Rightarrow> string) \<Rightarrow> (string \<Rightarrow> string option) \<Rightarrow> json \<Rightarrow> string" where
  "stats_peer_row time bytes names p =
     ''<tr><td>'' @ escape_html (case names (trim (str_or_empty (member_json p ''public_key''))) of Some nm \<Rightarrow> nm | None \<Rightarrow> mdash) @
     ''</td><td class=\"mono\">'' @ escape_html (trunc (str_or_empty (member_json p ''public_key'')) 24) @ ''</td><td>'' @
     escape_html (if truthy (member_json p ''endpoint'') then str_or_empty (member_json p ''endpoint'') else mdash) @ ''</td><td>'' @
     handshake_html time (member_json p ''latest_handshake_unix'') @ ''</td><td>'' @ escape_html (bytes (member_json p ''transfer_rx'')) @ '' / '' @
     escape_html (bytes (member_json p ''transfer_tx'')) @ ''</td></tr>''"

definition STATS_WG_FAILED :: string where
  "STATS_WG_FAILED = ''<div class=\"evu-empty\"><p class=\"evu-empty__title\">WireGuard stats unavailable</p><p><code>wg show</code> failed '' @ mdash @
     '' the interface is missing, permission was denied, or the tools are not installed.</p></div>''"

definition STATS_NO_PEERS :: string where
  "STATS_NO_PEERS = ''<div class=\"evu-empty\"><p class=\"evu-empty__title\">No peers on this interface</p><p>WireGuard responded, but the tunnel has no peers yet.</p></div>''"

definition STATS_NO_COUNTERS :: string where
  "STATS_NO_COUNTERS = ''<div class=\"evu-empty\"><p class=\"evu-empty__title\">No counters to show</p><p>Set <code>stats.drop_counters: true</code> in the config and apply to count drops here. If it is already on, <code>nft</code> is unavailable on this host.</p></div>''"

definition stats_wg_html :: "(int \<Rightarrow> string) \<Rightarrow> (jsval \<Rightarrow> string) \<Rightarrow> jsval \<Rightarrow> json \<Rightarrow> string" where
  "stats_wg_html time bytes cfg st =
     (let ps = rows_or_none (member_json st ''wireguard_peers'') in
      if truthy (member_json st ''wireguard_dump_failed'') then STATS_WG_FAILED
      else if ps \<noteq> []
      then ''<table class=\"data\"><thead><tr><th scope=\"col\">Peer</th><th scope=\"col\">Public key</th><th scope=\"col\">Endpoint</th><th scope=\"col\">Handshake</th><th scope=\"col\">RX / TX</th></tr></thead><tbody>'' @
        concat (map (stats_peer_row time bytes (peer_names_by_public_key cfg)) ps) @ ''</tbody></table>''
      else STATS_NO_PEERS)"

text \<open>\<open>String(v)\<close> of any value.\<close>

definition any_text :: "jsval \<Rightarrow> string" where
  "any_text v = (case v of None \<Rightarrow> ''undefined'' | Some j \<Rightarrow> js_string j)"

definition stats_counter_row :: "(jsval \<Rightarrow> string) \<Rightarrow> (jsval \<Rightarrow> string) \<Rightarrow> json \<Rightarrow> string" where
  "stats_counter_row bytes counts r =
     ''<tr><td>'' @ escape_html (any_text (member_json r ''family'')) @ ''</td><td>'' @ escape_html (any_text (member_json r ''table'')) @
     ''</td><td>'' @ escape_html (counts (member_json r ''packets'')) @ ''</td><td>'' @ escape_html (bytes (member_json r ''bytes'')) @
     ''</td><td class=\"mono stats-nft-rule\">'' @ escape_html (any_text (member_json r ''line'')) @ ''</td></tr>''"

definition stats_nft_html :: "(jsval \<Rightarrow> string) \<Rightarrow> (jsval \<Rightarrow> string) \<Rightarrow> json \<Rightarrow> string" where
  "stats_nft_html bytes counts st =
     (let rs = rows_or_none (member_json st ''nftables_counters'') in
      if rs \<noteq> []
      then ''<table class=\"data\"><thead><tr><th scope=\"col\">Family</th><th scope=\"col\">Table</th><th scope=\"col\">Packets</th><th scope=\"col\">Bytes</th><th scope=\"col\">Rule</th></tr></thead><tbody>'' @
        concat (map (stats_counter_row bytes counts) rs) @ ''</tbody></table>''
      else STATS_NO_COUNTERS)"

record stats_page =
  sx_wg :: string
  sx_nft :: string
  sx_config :: jsval
  sx_metrics :: jsval
  sx_msg :: "string \<times> bool"

text \<open>A refresh: the stats or their error; the metrics and the config are optional.\<close>

definition refresh_stats_page ::
  "(int \<Rightarrow> string) \<Rightarrow> (jsval \<Rightarrow> string) \<Rightarrow> (jsval \<Rightarrow> string) \<Rightarrow> string + json \<Rightarrow> jsval \<Rightarrow> jsval \<Rightarrow> stats_page \<Rightarrow> stats_page" where
  "refresh_stats_page time bytes counts st mp cfg s0 =
     (let s = s0\<lparr>sx_msg := ([], False), sx_config := (case cfg of Some c \<Rightarrow> Some c | None \<Rightarrow> sx_config s0)\<rparr> in
      case st of
        Inl e \<Rightarrow> s\<lparr>sx_msg := (e, True)\<rparr>
      | Inr j \<Rightarrow> s\<lparr>sx_metrics := mp, sx_wg := stats_wg_html time bytes (sx_config s) j, sx_nft := stats_nft_html bytes counts j\<rparr>)"

text \<open>The export of the metrics, refused before a refresh brought some.\<close>

definition stats_export_metrics :: "stats_page \<Rightarrow> string + json list" where
  "stats_export_metrics s =
     (if \<not> truthy (sx_metrics s) then Inl ''Refresh Stats first (no metrics data).'' else Inr (array_elems (at_member (sx_metrics s) ''peers'')))"

lemma peer_names_are_the_configs:
  "peer_names_by_public_key cfg key = Some nm \<Longrightarrow>
     \<exists>p \<in> set (array_elems (at_member cfg ''peers'')). trim (str_or_empty (member_json p ''public_key'')) = key \<and>
       trim (str_or_empty (member_json p ''name'')) = nm \<and> nm \<noteq> []"
proof -
  let ?f = "\<lambda>m p. let key = trim (str_or_empty (member_json p ''public_key'')); nm = trim (str_or_empty (member_json p ''name'')) in
    if key \<noteq> [] \<and> nm \<noteq> [] then m(key \<mapsto> nm) else m"
  have "foldl ?f m ps key = Some nm \<Longrightarrow> m key = Some nm \<or> (\<exists>p \<in> set ps. trim (str_or_empty (member_json p ''public_key'')) = key \<and>
      trim (str_or_empty (member_json p ''name'')) = nm \<and> nm \<noteq> [])" for m ps
  proof (induction ps arbitrary: m)
    case (Cons p ps)
    from Cons.IH [of "?f m p"] Cons.prems show ?case by (auto simp: Let_def split: if_splits)
  qed simp
  from this [of Map.empty "array_elems (at_member cfg ''peers'')"]
  show "peer_names_by_public_key cfg key = Some nm \<Longrightarrow> ?thesis" by (simp add: peer_names_by_public_key_def)
qed

text \<open>A failed refresh leaves both tables and the export as they were.\<close>

lemma failed_stats_refresh_keeps_tables:
  "sx_wg (refresh_stats_page time bytes counts (Inl e) mp cfg s) = sx_wg s"
  "sx_nft (refresh_stats_page time bytes counts (Inl e) mp cfg s) = sx_nft s"
  "stats_export_metrics (refresh_stats_page time bytes counts (Inl e) mp cfg s) = stats_export_metrics s"
  by (simp_all add: refresh_stats_page_def stats_export_metrics_def Let_def)

end
