(* ===== verification/Topology.thy ===== *)
theory Topology
  imports Peers Table_Sort Lockout Sidebar
begin

text \<open>
  \<open>pages/topology.js\<close>, the graph's data: which peer a route leads to, the rows and the groups of a large config, what is
  collapsed, and where the cards stand.

  The collator that sorts groups is a parameter.
\<close>

section \<open>Routes and their targets\<close>

definition topology_peer_for_host :: "json list \<Rightarrow> string \<Rightarrow> json option" where
  "topology_peer_for_host peers host = find (\<lambda>p. tunnel_to_host (str_or_empty (member_json p ''tunnel_ip'')) = host) peers"

definition ORPHAN :: string where "ORPHAN = ''orphan:''"

definition topology_peer_key :: "json option \<Rightarrow> string \<Rightarrow> string" where
  "topology_peer_key peer host =
     (case peer of
        Some p \<Rightarrow> (let k = trim (str_or_empty (member_json p ''public_key'')) in if k = [] then ''peer-empty-key'' else k)
      | None \<Rightarrow> ORPHAN @ host)"

definition route_host :: "json \<Rightarrow> string" where
  "route_host r = trim (str_or_empty (member_json r ''target_ip''))"

record topology_slot =
  sl_peer :: "json option"
  sl_orphan :: string
  sl_anchor :: nat
  sl_key :: string

definition slot_of :: "json list \<Rightarrow> nat \<Rightarrow> json \<Rightarrow> topology_slot" where
  "slot_of peers i r =
     (let host = route_host r; peer = topology_peer_for_host peers host in
      \<lparr>sl_peer = peer, sl_orphan = (if peer = None then host else []), sl_anchor = i, sl_key = topology_peer_key peer host\<rparr>)"

definition add_slot :: "topology_slot list \<Rightarrow> topology_slot \<Rightarrow> topology_slot list" where
  "add_slot slots s = (if sl_key s \<in> set (map sl_key slots) then slots else slots @ [s])"

text \<open>One slot per target, in the order of the first route to it.\<close>

definition build_topology_peer_slots :: "json list \<Rightarrow> json list \<Rightarrow> topology_slot list" where
  "build_topology_peer_slots peers routes = foldl add_slot [] (map (\<lambda>i. slot_of peers i (routes ! i)) [0..<length routes])"

definition slot_matches :: "string \<Rightarrow> topology_slot \<Rightarrow> bool" where
  "slot_matches h s =
     (case sl_peer s of Some p \<Rightarrow> tunnel_to_host (str_or_empty (member_json p ''tunnel_ip'')) = h | None \<Rightarrow> sl_orphan s = h)"

definition peer_slot_index_for_route :: "topology_slot list \<Rightarrow> string \<Rightarrow> nat" where
  "peer_slot_index_for_route slots h =
     (let n = length (takeWhile (\<lambda>s. \<not> slot_matches h s) slots) in if n < length slots then n else length slots - 1)"

section \<open>Large configs\<close>

definition TOPO_SCALE_ROUTES :: nat where "TOPO_SCALE_ROUTES = 16"

record topology_state =
  ts_filter :: string
  ts_expanded :: "string set"
  ts_filter_collapsed :: "string set"

definition topology_group_expanded :: "topology_state \<Rightarrow> string \<Rightarrow> bool" where
  "topology_group_expanded s k = (if trim (ts_filter s) \<noteq> [] then k \<notin> ts_filter_collapsed s else k \<in> ts_expanded s)"

definition set_topology_group_expanded :: "string \<Rightarrow> bool \<Rightarrow> topology_state \<Rightarrow> topology_state" where
  "set_topology_group_expanded k opened s =
     (let filtering = trim (ts_filter s) \<noteq> []; upd = (\<lambda>S. if opened = filtering then S - {k} else insert k S) in
      if filtering then s\<lparr>ts_filter_collapsed := upd (ts_filter_collapsed s)\<rparr> else s\<lparr>ts_expanded := upd (ts_expanded s)\<rparr>)"

definition topology_filter_input :: "string \<Rightarrow> topology_state \<Rightarrow> topology_state" where
  "topology_filter_input v s = s\<lparr>ts_filter := v, ts_filter_collapsed := {}\<rparr>"

definition route_matches_topology_filter :: "json \<Rightarrow> json option \<Rightarrow> string \<Rightarrow> bool" where
  "route_matches_topology_filter r peer q =
     includes_str (lower (join '' ''
       [str_or_nothing (member_json r ''name''), route_proto_plain_text (str_or_empty (member_json r ''proto'')),
        join '', '' (map js_string (rows_or_none (member_json r ''ports''))), str_or_nothing (member_json r ''target_ip''),
        str_or_nothing (at_member peer ''name''), str_or_nothing (at_member peer ''tunnel_ip'')])) q"

record topology_group =
  tg_key :: string
  tg_label :: string
  tg_routes :: "json list"

definition add_to_group :: "string \<Rightarrow> string \<Rightarrow> json list \<Rightarrow> topology_group list \<Rightarrow> topology_group list" where
  "add_to_group k label rs gs =
     (if k \<in> set (map tg_key gs) then map (\<lambda>g. if tg_key g = k then g\<lparr>tg_routes := tg_routes g @ rs\<rparr> else g) gs
      else gs @ [\<lparr>tg_key = k, tg_label = label, tg_routes = rs\<rparr>])"

definition group_step :: "json list \<Rightarrow> string \<Rightarrow> topology_group list \<Rightarrow> json \<Rightarrow> topology_group list" where
  "group_step peers q gs r =
     (let host = route_host r; peer = topology_peer_for_host peers host in
      add_to_group (topology_peer_key peer host) (case peer of Some p \<Rightarrow> str_or_empty (member_json p ''name'') | None \<Rightarrow> host)
        (if q = [] \<or> route_matches_topology_filter r peer q then [r] else []) gs)"

definition build_topology_groups :: "(string \<Rightarrow> string \<Rightarrow> rat) \<Rightarrow> string \<Rightarrow> json list \<Rightarrow> json list \<Rightarrow> topology_group list" where
  "build_topology_groups collate flt peers routes =
     (let q = lower (trim flt) in
      js_sort (\<lambda>a b. collate (tg_label a) (tg_label b))
        (filter (\<lambda>g. tg_routes g \<noteq> []) (foldl (group_step peers q) [] routes)))"

text \<open>The row that stands for the routes of a collapsed group.\<close>

definition stand_in :: "topology_group \<Rightarrow> json" where
  "stand_in g =
     JObj ([(''topologyGroupCount'', JNum (int (length (tg_routes g)))), (''proto'', JStr []),
       (''ports'', JArr (concat (map (\<lambda>r. rows_or_none (member_json r ''ports'')) (tg_routes g))))] @
       (case member_json (hd (tg_routes g)) ''target_ip'' of Some t \<Rightarrow> [(''target_ip'', t)] | None \<Rightarrow> []) @
       [(''disabled'', JBool (list_all (\<lambda>r. truthy (member_json r ''disabled'')) (tg_routes g)))])"

definition topology_scale_rows :: "topology_state \<Rightarrow> topology_group list \<Rightarrow> json list" where
  "topology_scale_rows s gs = concat (map (\<lambda>g. if topology_group_expanded s (tg_key g) then tg_routes g else [stand_in g]) gs)"

definition route_count_text :: "nat \<Rightarrow> string" where
  "route_count_text n = show_nat n @ (if n = 1 then '' route'' else '' routes'')"

definition topology_scale_summary_text :: "topology_state \<Rightarrow> topology_group list \<Rightarrow> nat \<Rightarrow> string" where
  "topology_scale_summary_text s gs n =
     (let shown = sum_list (map (\<lambda>g. length (tg_routes g)) gs) in
      if trim (ts_filter s) \<noteq> []
      then show_nat shown @ '' of '' @ route_count_text n @ '' match, on '' @ show_nat (length gs) @ '' peer(s)''
      else route_count_text n @ '' on '' @ show_nat (length gs) @ '' peer(s)'')"

section \<open>Where the cards stand\<close>

definition ROW_GAP_SAME_PEER :: int where "ROW_GAP_SAME_PEER = 52"
definition row_gap_new_peer :: "bool \<Rightarrow> int" where "row_gap_new_peer atScale = (if atScale then 66 else 92)"
definition PEER_NODE_H :: int where "PEER_NODE_H = 58"
definition ROUTE_NODE_H :: int where "ROUTE_NODE_H = 34"
definition TOPO_ROW_H :: int where "TOPO_ROW_H = max ROUTE_NODE_H PEER_NODE_H"
definition TOPO_PAD :: int where "TOPO_PAD = 36"

text \<open>The top of each row's band, from the slots of the rows.\<close>

fun tops_after :: "int \<Rightarrow> int \<Rightarrow> nat \<Rightarrow> nat list \<Rightarrow> int list" where
  "tops_after gap t p [] = []"
| "tops_after gap t p (q # qs) =
     (let t' = t + (if p = q then ROW_GAP_SAME_PEER else gap) in t' # tops_after gap t' q qs)"

fun band_tops :: "int \<Rightarrow> nat list \<Rightarrow> int list" where
  "band_tops gap [] = []"
| "band_tops gap (p # ps) = TOPO_PAD # tops_after gap TOPO_PAD p ps"

definition row_slots :: "topology_slot list \<Rightarrow> json list \<Rightarrow> nat list" where
  "row_slots slots rows = map (\<lambda>r. peer_slot_index_for_route slots (route_host r)) rows"

definition band_top :: "bool \<Rightarrow> topology_slot list \<Rightarrow> json list \<Rightarrow> nat \<Rightarrow> int" where
  "band_top atScale slots rows i = band_tops (row_gap_new_peer atScale) (row_slots slots rows) ! i"

definition topology_total_height :: "bool \<Rightarrow> topology_slot list \<Rightarrow> json list \<Rightarrow> int" where
  "topology_total_height atScale slots rows = band_top atScale slots rows (length rows - 1) + TOPO_ROW_H + 24"

text \<open>The upper edges of a route's card and of the card of a slot's peer.\<close>

definition route_card_y :: "bool \<Rightarrow> topology_slot list \<Rightarrow> json list \<Rightarrow> nat \<Rightarrow> int" where
  "route_card_y atScale slots rows i = band_top atScale slots rows i + (TOPO_ROW_H - ROUTE_NODE_H) div 2"

definition peer_card_y :: "bool \<Rightarrow> topology_slot list \<Rightarrow> json list \<Rightarrow> nat \<Rightarrow> int" where
  "peer_card_y atScale slots rows j = band_top atScale slots rows (sl_anchor (slots ! j)) + (TOPO_ROW_H - PEER_NODE_H) div 2"

definition route_mid_y :: "bool \<Rightarrow> topology_slot list \<Rightarrow> json list \<Rightarrow> nat \<Rightarrow> int" where
  "route_mid_y atScale slots rows i = band_top atScale slots rows i + TOPO_ROW_H div 2"

section \<open>A route leads to its own target\<close>

text \<open>Peers with public keys of their own, none of which looks like an unknown target.\<close>

definition keyed_peers :: "json list \<Rightarrow> bool" where
  "keyed_peers peers \<longleftrightarrow> (let ks = map (\<lambda>p. trim (str_or_empty (member_json p ''public_key''))) peers in
     distinct ks \<and> list_all (\<lambda>k. k \<noteq> [] \<and> \<not> prefix ORPHAN k) ks)"

lemma peer_for_host_SomeD: "topology_peer_for_host peers h = Some p \<Longrightarrow> p \<in> set peers \<and> tunnel_to_host (str_or_empty (member_json p ''tunnel_ip'')) = h"
  by (auto simp: topology_peer_for_host_def find_Some_iff)

lemma peer_key_host:
  assumes "keyed_peers peers" "topology_peer_key (topology_peer_for_host peers h) h = topology_peer_key (topology_peer_for_host peers h') h'"
  shows "h = h'"
proof -
  let ?k = "\<lambda>p. trim (str_or_empty (member_json p ''public_key''))"
  have inj: "inj_on ?k (set peers)" and ok: "\<And>p. p \<in> set peers \<Longrightarrow> ?k p \<noteq> [] \<and> \<not> prefix ORPHAN (?k p)"
    using assms(1) by (auto simp: keyed_peers_def Let_def distinct_map list_all_iff)
  show ?thesis
  proof (cases "topology_peer_for_host peers h"; cases "topology_peer_for_host peers h'")
    fix p p' assume p: "topology_peer_for_host peers h = Some p" "topology_peer_for_host peers h' = Some p'"
    note d = peer_for_host_SomeD [OF p(1)] peer_for_host_SomeD [OF p(2)]
    have "?k p = ?k p'" using assms(2) p ok d by (auto simp: topology_peer_key_def Let_def)
    then have "p = p'" using inj d by (auto dest: inj_onD)
    then show ?thesis using d by auto
  next
    fix p assume p: "topology_peer_for_host peers h = Some p" "topology_peer_for_host peers h' = None"
    then have "?k p = ORPHAN @ h'" using assms(2) ok peer_for_host_SomeD [OF p(1)] by (auto simp: topology_peer_key_def Let_def)
    then have False using ok [of p] peer_for_host_SomeD [OF p(1)] by (metis prefixI)
    then show ?thesis ..
  next
    fix p assume p: "topology_peer_for_host peers h' = Some p" "topology_peer_for_host peers h = None"
    then have "?k p = ORPHAN @ h" using assms(2) ok peer_for_host_SomeD [OF p(1)] by (auto simp: topology_peer_key_def Let_def)
    then have False using ok [of p] peer_for_host_SomeD [OF p(1)] by (metis prefixI)
    then show ?thesis ..
  qed (use assms(2) in \<open>simp add: topology_peer_key_def\<close>)
qed

lemma add_slots_keys:
  "distinct (map sl_key acc) \<Longrightarrow> distinct (map sl_key (foldl add_slot acc ss))"
  "set (foldl add_slot acc ss) \<subseteq> set acc \<union> set ss"
  "sl_key ` set (foldl add_slot acc ss) = sl_key ` (set acc \<union> set ss)"
proof (induction ss arbitrary: acc)
  case (Cons s ss)
  { case 1 then show ?case using Cons.IH(1) [of "add_slot acc s"] by (auto simp: add_slot_def) }
  { case 2 then show ?case using Cons.IH(2) [of "add_slot acc s"] by (auto simp: add_slot_def split: if_splits) }
  { case 3 then show ?case using Cons.IH(3) [of "add_slot acc s"] by (auto simp: add_slot_def split: if_splits) }
qed simp_all

lemma slots_of_routes:
  "distinct (map sl_key (build_topology_peer_slots peers routes))"
  "s \<in> set (build_topology_peer_slots peers routes) \<Longrightarrow> sl_anchor s < length routes \<and> s = slot_of peers (sl_anchor s) (routes ! sl_anchor s)"
  "i < length routes \<Longrightarrow> sl_key (slot_of peers i (routes ! i)) \<in> sl_key ` set (build_topology_peer_slots peers routes)"
proof -
  let ?ss = "map (\<lambda>i. slot_of peers i (routes ! i)) [0..<length routes]"
  have ss: "set ?ss = {slot_of peers i (routes ! i) | i. i < length routes}"
    by auto
  show "distinct (map sl_key (build_topology_peer_slots peers routes))"
    unfolding build_topology_peer_slots_def by (rule add_slots_keys(1)) simp
  show "s \<in> set (build_topology_peer_slots peers routes) \<Longrightarrow> sl_anchor s < length routes \<and> s = slot_of peers (sl_anchor s) (routes ! sl_anchor s)"
    using add_slots_keys(2) [of "[]" ?ss] ss unfolding build_topology_peer_slots_def by (auto simp: slot_of_def Let_def)
  show "i < length routes \<Longrightarrow> sl_key (slot_of peers i (routes ! i)) \<in> sl_key ` set (build_topology_peer_slots peers routes)"
    using add_slots_keys(3) [of "[]" ?ss] ss unfolding build_topology_peer_slots_def by auto
qed

lemma slot_matches_host: "slot_matches h (slot_of peers i r) \<longleftrightarrow> route_host r = h"
  using peer_for_host_SomeD [of peers "route_host r"] by (auto simp: slot_matches_def slot_of_def Let_def split: option.split)

lemma route_is_drawn:
  assumes "keyed_peers peers" and "i < length routes"
    and "j = peer_slot_index_for_route (build_topology_peer_slots peers routes) (route_host (routes ! i))"
  shows "j < length (build_topology_peer_slots peers routes) \<and>
    (let s = build_topology_peer_slots peers routes ! j in
      sl_peer s = topology_peer_for_host peers (route_host (routes ! i)) \<and> (sl_peer s = None \<longrightarrow> sl_orphan s = route_host (routes ! i)) \<and>
      sl_anchor s < length routes \<and> route_host (routes ! sl_anchor s) = route_host (routes ! i))"
proof -
  let ?h = "route_host (routes ! i)"
  define slots where "slots = build_topology_peer_slots peers routes"
  note of_routes = slots_of_routes [where peers = peers and routes = routes, folded slots_def]
  obtain s0 where s0: "s0 \<in> set slots" "sl_key s0 = sl_key (slot_of peers i (routes ! i))"
    using of_routes(3) [OF assms(2)] by auto
  have s0': "s0 = slot_of peers (sl_anchor s0) (routes ! sl_anchor s0)" using of_routes(2) [OF s0(1)] by blast
  have "sl_key s0 = topology_peer_key (topology_peer_for_host peers (route_host (routes ! sl_anchor s0))) (route_host (routes ! sl_anchor s0))"
    by (subst s0') (simp add: slot_of_def Let_def)
  then have "route_host (routes ! sl_anchor s0) = ?h"
    using s0(2) by - (rule peer_key_host [OF assms(1)], simp add: slot_of_def Let_def)
  then have "slot_matches ?h s0" using slot_matches_host [of ?h peers "sl_anchor s0" "routes ! sl_anchor s0", folded s0'] by simp
  then have "\<not> (\<forall>s \<in> set slots. \<not> slot_matches ?h s)" using s0(1) by blast
  then have n: "length (takeWhile (\<lambda>s. \<not> slot_matches ?h s) slots) < length slots"
    by (metis (mono_tags, lifting) length_takeWhile_le le_neq_implies_less takeWhile_eq_all_conv takeWhile_eq_take take_all_iff order_refl)
  have j: "j = length (takeWhile (\<lambda>s. \<not> slot_matches ?h s) slots)"
    using assms(3) n by (simp add: peer_slot_index_for_route_def slots_def Let_def)
  have m: "slot_matches ?h (slots ! j)" using nth_length_takeWhile [OF n] j by simp
  have jn: "j < length slots" using n j by simp
  have sj: "sl_anchor (slots ! j) < length routes" "slots ! j = slot_of peers (sl_anchor (slots ! j)) (routes ! sl_anchor (slots ! j))"
    using of_routes(2) [of "slots ! j"] jn by auto
  have h: "route_host (routes ! sl_anchor (slots ! j)) = ?h"
    using m slot_matches_host [of ?h peers "sl_anchor (slots ! j)" "routes ! sl_anchor (slots ! j)"] sj(2) by simp
  have "sl_peer (slots ! j) = topology_peer_for_host peers ?h" "sl_orphan (slots ! j) = (if topology_peer_for_host peers ?h = None then ?h else [])"
    by (subst sj(2), simp add: slot_of_def h Let_def)+
  then show ?thesis using jn sj(1) h by (simp add: slots_def Let_def)
qed

text \<open>
  In a config whose peers have public keys of their own every route is drawn to its own target: to the peer that has
  its address, or to the one unknown target with that address; that card stands at the height of the first route to it.
\<close>

theorem route_is_drawn_to_its_target:
  assumes "keyed_peers peers" and "i < length routes"
    and "j = peer_slot_index_for_route (build_topology_peer_slots peers routes) (route_host (routes ! i))"
  shows "j < length (build_topology_peer_slots peers routes) \<and>
    (let s = build_topology_peer_slots peers routes ! j in
      sl_peer s = topology_peer_for_host peers (route_host (routes ! i)) \<and> (sl_peer s = None \<longrightarrow> sl_orphan s = route_host (routes ! i)) \<and>
      sl_anchor s < length routes \<and> route_host (routes ! sl_anchor s) = route_host (routes ! i))"
  using route_is_drawn [OF assms] .

definition toy_topology_peers :: "json list" where
  "toy_topology_peers = [JObj [(''public_key'', JStr ''k1''), (''tunnel_ip'', JStr ''10.0.0.2/32'')], JObj [(''public_key'', JStr ''k2''), (''tunnel_ip'', JStr ''10.0.0.3/32'')]]"

definition toy_topology_routes :: "json list" where
  "toy_topology_routes = [JObj [(''target_ip'', JStr ''10.0.0.3'')], JObj [(''target_ip'', JStr ''10.0.0.9'')]]"

lemma toy_topology_keyed: "keyed_peers toy_topology_peers"
  by code_simp

lemma route_is_drawn_to_its_target_witness:
  "\<exists>j. j < length (build_topology_peer_slots toy_topology_peers toy_topology_routes) \<and>
     sl_peer (build_topology_peer_slots toy_topology_peers toy_topology_routes ! j) = Some (toy_topology_peers ! 1)"
proof -
  let ?s = "build_topology_peer_slots toy_topology_peers toy_topology_routes"
  have "topology_peer_for_host toy_topology_peers (route_host (toy_topology_routes ! 0)) = Some (toy_topology_peers ! 1)" by code_simp
  with route_is_drawn_to_its_target [OF toy_topology_keyed _ refl, of 0 toy_topology_routes] show ?thesis
    by (auto simp: toy_topology_routes_def Let_def)
qed

section \<open>The groups hold every route once\<close>

lemma mset_js_sort_any: "mset (js_sort cmp xs) = mset xs"
proof -
  have "mset (js_insert cmp x ys) = add_mset x (mset ys)" for x ys by (induction ys) auto
  then show ?thesis by (induction xs) (simp_all add: js_sort_def)
qed

definition route_key :: "json list \<Rightarrow> json \<Rightarrow> string" where
  "route_key peers r = topology_peer_key (topology_peer_for_host peers (route_host r)) (route_host r)"

definition route_kept :: "json list \<Rightarrow> string \<Rightarrow> json \<Rightarrow> bool" where
  "route_kept peers q r \<longleftrightarrow> q = [] \<or> route_matches_topology_filter r (topology_peer_for_host peers (route_host r)) q"

lemma add_to_group_keys: "map tg_key (add_to_group k l rs gs) = map tg_key gs @ (if k \<in> set (map tg_key gs) then [] else [k])"
  by (auto simp: add_to_group_def)

lemma group_steps:
  "distinct (map tg_key (foldl (group_step peers q) [] routes))"
  "set (map tg_key (foldl (group_step peers q) [] routes)) = route_key peers ` set routes"
  "g \<in> set (foldl (group_step peers q) [] routes) \<Longrightarrow>
     tg_routes g = filter (\<lambda>r. route_key peers r = tg_key g \<and> route_kept peers q r) routes"
proof (induction routes arbitrary: g rule: rev_induct)
  case (snoc r routes)
  let ?gs = "foldl (group_step peers q) [] routes"
  obtain l where step: "foldl (group_step peers q) [] (routes @ [r]) =
      add_to_group (route_key peers r) l (if route_kept peers q r then [r] else []) ?gs"
    by (simp add: group_step_def route_key_def route_kept_def Let_def)
  { case 1 show ?case unfolding step add_to_group_keys using snoc.IH(1) by auto }
  { case 2 show ?case unfolding step add_to_group_keys set_append snoc.IH(2) by auto }
  { case 3
    have keys: "g0 \<in> set ?gs \<Longrightarrow> tg_key g0 \<in> route_key peers ` set routes" for g0 using snoc.IH(2) by auto
    from 3 consider (old) g0 where "g0 \<in> set ?gs" "tg_key g = tg_key g0"
        "tg_routes g = tg_routes g0 @ (if tg_key g0 = route_key peers r \<and> route_kept peers q r then [r] else [])"
      | (new) "route_key peers r \<notin> route_key peers ` set routes" "tg_key g = route_key peers r" "tg_routes g = (if route_kept peers q r then [r] else [])"
    proof (cases "route_key peers r \<in> route_key peers ` set routes")
      case True
      then show ?thesis using 3 old unfolding step add_to_group_def snoc.IH(2) by (auto split: if_splits)
    next
      case False
      then have "g \<in> set ?gs \<or> g = \<lparr>tg_key = route_key peers r, tg_label = l, tg_routes = if route_kept peers q r then [r] else []\<rparr>"
        using 3 unfolding step add_to_group_def snoc.IH(2) by (auto split: if_splits)
      then show ?thesis
      proof
        assume g: "g \<in> set ?gs"
        with keys False have "tg_key g \<noteq> route_key peers r" by metis
        then show ?thesis using old [OF g] by simp
      qed (use new False in simp)
    qed
    then show ?case
    proof cases
      case old
      then show ?thesis using snoc.IH(3) [OF old(1)] by auto
    next
      case new
      then have "filter (\<lambda>x. route_key peers x = tg_key g \<and> route_kept peers q x) routes = []"
        unfolding filter_empty_conv by (metis image_eqI)
      then show ?thesis using new by simp
    qed }
qed simp_all

lemma mset_by_key:
  "distinct ks \<Longrightarrow> mset (concat (map (\<lambda>k. filter (\<lambda>r. f r = k \<and> P r) rs) ks)) = mset (filter (\<lambda>r. P r \<and> f r \<in> set ks) rs)"
proof (induction ks)
  case (Cons k ks)
  let ?M = "mset (filter (\<lambda>r. P r \<and> f r \<in> set (k # ks)) rs)"
  have "?M = filter_mset (\<lambda>r. f r = k) ?M + filter_mset (\<lambda>r. f r \<noteq> k) ?M" by (rule multiset_partition)
  also have "filter_mset (\<lambda>r. f r = k) ?M = filter_mset (\<lambda>r. f r = k \<and> P r) (mset rs)"
    by (simp add: filter_filter_mset) (rule filter_mset_cong, auto)
  also have "filter_mset (\<lambda>r. f r \<noteq> k) ?M = filter_mset (\<lambda>r. P r \<and> f r \<in> set ks) (mset rs)"
    using Cons.prems by (simp add: filter_filter_mset) (rule filter_mset_cong, auto)
  finally have "?M = filter_mset (\<lambda>r. f r = k \<and> P r) (mset rs) + filter_mset (\<lambda>r. P r \<and> f r \<in> set ks) (mset rs)" .
  with Cons show ?case by simp
qed (simp add: filter_False)

text \<open>
  The groups of a large config hold each route that the filter keeps once, in the order of the config, under the peer it
  leads to; no group is empty and no peer has two.
\<close>

theorem topology_groups_hold_each_route_once:
  "distinct (map tg_key (build_topology_groups collate flt peers routes)) \<and>
   list_all (\<lambda>g. tg_routes g \<noteq> [] \<and>
     tg_routes g = filter (\<lambda>r. route_key peers r = tg_key g \<and> route_kept peers (lower (trim flt)) r) routes) (build_topology_groups collate flt peers routes) \<and>
   mset (concat (map tg_routes (build_topology_groups collate flt peers routes))) = mset (filter (route_kept peers (lower (trim flt))) routes)"
proof -
  let ?q = "lower (trim flt)"
  let ?gs = "foldl (group_step peers ?q) [] routes"
  let ?built = "build_topology_groups collate flt peers routes"
  let ?part = "\<lambda>k. filter (\<lambda>r. route_key peers r = k \<and> route_kept peers ?q r) routes"
  note steps = group_steps [where peers = peers and q = ?q and routes = routes]
  have m: "mset ?built = mset (filter (\<lambda>g. tg_routes g \<noteq> []) ?gs)"
    by (simp add: build_topology_groups_def Let_def mset_js_sort_any)
  then have set: "set ?built = {g \<in> set ?gs. tg_routes g \<noteq> []}" by (metis mset_eq_setD set_filter)
  have keys: "mset (map tg_key ?built) = mset (map tg_key (filter (\<lambda>g. tg_routes g \<noteq> []) ?gs))" using m by (simp only: mset_map)
  have d: "distinct (map tg_key ?built)"
    using mset_eq_imp_distinct_iff [OF keys] steps(1) by (simp add: distinct_map_filter)
  have part: "tg_routes g = ?part (tg_key g)" if "g \<in> set ?built" for g using steps(3) [of g] that set by simp
  have "map tg_routes ?built = map ?part (map tg_key ?built)" unfolding map_map comp_def by (rule map_cong [OF refl]) (rule part)
  then have "mset (concat (map tg_routes ?built)) = mset (filter (\<lambda>r. route_kept peers ?q r \<and> route_key peers r \<in> set (map tg_key ?built)) routes)"
    using mset_by_key [OF d, of "route_key peers" "route_kept peers ?q" routes] by (simp only:)
  moreover have "route_key peers r \<in> set (map tg_key ?built)" if "r \<in> set routes" "route_kept peers ?q r" for r
  proof -
    have "route_key peers r \<in> set (map tg_key ?gs)" using steps(2) that(1) by blast
    then obtain g where g: "g \<in> set ?gs" "tg_key g = route_key peers r" by auto
    then have "r \<in> set (tg_routes g)" using steps(3) [OF g(1)] that by simp
    then show ?thesis using g set by force
  qed
  then have "filter (\<lambda>r. route_kept peers ?q r \<and> route_key peers r \<in> set (map tg_key ?built)) routes = filter (route_kept peers ?q) routes"
    by - (rule filter_cong [OF refl], blast)
  ultimately have all: "mset (concat (map tg_routes ?built)) = mset (filter (route_kept peers ?q) routes)" by (simp only:)
  have "tg_routes g \<noteq> []" if "g \<in> set ?built" for g using that set by blast
  then have "list_all (\<lambda>g. tg_routes g \<noteq> [] \<and> tg_routes g = ?part (tg_key g)) ?built" unfolding list_all_iff using part by blast
  with d all show ?thesis by blast
qed

section \<open>Cards do not overlap\<close>

lemma length_tops: "length (band_tops gap ps) = length ps"
proof -
  have "length (tops_after gap t p qs) = length qs" for t p qs by (induction gap t p qs rule: tops_after.induct) (simp_all add: Let_def)
  then show ?thesis by (cases ps) simp_all
qed

lemma band_tops_step:
  assumes "Suc i < length ps"
  shows "band_tops gap ps ! Suc i = band_tops gap ps ! i + (if ps ! i = ps ! Suc i then ROW_GAP_SAME_PEER else gap)"
proof -
  have "tops_after gap t p qs ! i = (t # tops_after gap t p qs) ! i + (if (p # qs) ! i = qs ! i then ROW_GAP_SAME_PEER else gap)"
    if "i < length qs" for t p qs i
    using that
  proof (induction gap t p qs arbitrary: i rule: tops_after.induct)
    case (2 gap t p q qs)
    then show ?case by (cases i) (auto simp: Let_def)
  qed simp
  then show ?thesis using assms by (cases ps) simp_all
qed

lemma band_tops_apart:
  assumes "52 \<le> gap" "i < j" "j < length ps"
  shows "band_tops gap ps ! i + 52 \<le> band_tops gap ps ! j" "ps ! i \<noteq> ps ! j \<Longrightarrow> band_tops gap ps ! i + gap \<le> band_tops gap ps ! j"
proof -
  have "band_tops gap ps ! i + 52 \<le> band_tops gap ps ! j \<and> (ps ! i \<noteq> ps ! j \<longrightarrow> band_tops gap ps ! i + gap \<le> band_tops gap ps ! j)"
    using assms(2,3)
  proof (induction j)
    case (Suc j)
    show ?case
    proof (cases "i = j")
      case True
      then show ?thesis using band_tops_step [of j ps gap] Suc.prems assms(1) by (simp add: ROW_GAP_SAME_PEER_def)
    next
      case False
      then have IH: "band_tops gap ps ! i + 52 \<le> band_tops gap ps ! j" "ps ! i \<noteq> ps ! j \<longrightarrow> band_tops gap ps ! i + gap \<le> band_tops gap ps ! j"
        using Suc by auto
      then show ?thesis using band_tops_step [of j ps gap] Suc.prems assms(1) by (auto simp: ROW_GAP_SAME_PEER_def split: if_splits)
    qed
  qed simp
  then show "band_tops gap ps ! i + 52 \<le> band_tops gap ps ! j" "ps ! i \<noteq> ps ! j \<Longrightarrow> band_tops gap ps ! i + gap \<le> band_tops gap ps ! j"
    by blast+
qed

text \<open>The row a slot is anchored at is one of its own.\<close>

lemma anchor_slot:
  assumes "keyed_peers peers" "j < length (build_topology_peer_slots peers routes)"
  shows "sl_anchor (build_topology_peer_slots peers routes ! j) < length routes"
    "row_slots (build_topology_peer_slots peers routes) routes ! sl_anchor (build_topology_peer_slots peers routes ! j) = j"
proof -
  define slots where "slots = build_topology_peer_slots peers routes"
  define a where "a = sl_anchor (slots ! j)"
  have s: "a < length routes" "slots ! j = slot_of peers a (routes ! a)"
    using slots_of_routes(2) [of "slots ! j" peers routes] assms(2) by (auto simp: slots_def a_def)
  then show "sl_anchor (build_topology_peer_slots peers routes ! j) < length routes" by (simp add: slots_def a_def)
  define i where "i = peer_slot_index_for_route slots (route_host (routes ! a))"
  have drawn: "i < length slots" "sl_anchor (slots ! i) < length routes" "route_host (routes ! sl_anchor (slots ! i)) = route_host (routes ! a)"
    using route_is_drawn [OF assms(1) s(1), of i] by (simp_all add: i_def slots_def Let_def)
  have si: "slots ! i = slot_of peers (sl_anchor (slots ! i)) (routes ! sl_anchor (slots ! i))"
    using slots_of_routes(2) [of "slots ! i" peers routes] drawn(1) by (simp add: slots_def)
  have "sl_key (slots ! i) = sl_key (slot_of peers (sl_anchor (slots ! i)) (routes ! sl_anchor (slots ! i)))" using si by (rule arg_cong)
  also have "\<dots> = sl_key (slots ! j)" using drawn(3) s(2) by (simp add: slot_of_def Let_def)
  finally have "i = j"
    using slots_of_routes(1) [of peers routes] drawn(1) assms(2) by (simp add: slots_def distinct_conv_nth) (metis nth_map)
  then show "row_slots (build_topology_peer_slots peers routes) routes ! sl_anchor (build_topology_peer_slots peers routes ! j) = j"
    using s(1) by (simp add: row_slots_def i_def a_def slots_def)
qed

text \<open>
  No two cards of the graph overlap: of two routes the later stands below the earlier, the cards of two peers stand
  apart in the order of their first routes, and every card stands within the graph's height.
\<close>

theorem topology_cards_do_not_overlap:
  assumes "keyed_peers peers" and "slots = build_topology_peer_slots peers rows"
  shows "(\<forall>i j. i < j \<longrightarrow> j < length rows \<longrightarrow> route_card_y big slots rows i + ROUTE_NODE_H \<le> route_card_y big slots rows j) \<and>
    (\<forall>a b. a < length slots \<longrightarrow> b < length slots \<longrightarrow> sl_anchor (slots ! a) < sl_anchor (slots ! b) \<longrightarrow>
       peer_card_y big slots rows a + PEER_NODE_H \<le> peer_card_y big slots rows b) \<and>
    (\<forall>i < length rows. TOPO_PAD \<le> band_top big slots rows i \<and>
       band_top big slots rows i + TOPO_ROW_H \<le> topology_total_height big slots rows)"
proof -
  let ?gap = "row_gap_new_peer big"
  let ?ps = "row_slots slots rows"
  have gap: "58 \<le> ?gap" by (simp add: row_gap_new_peer_def)
  have len: "length ?ps = length rows" by (simp add: row_slots_def)
  have rows: "band_top big slots rows i + 52 \<le> band_top big slots rows j" if "i < j" "j < length rows" for i j
    using band_tops_apart(1) [of ?gap i j ?ps] gap that len by (simp add: band_top_def)
  have peers: "band_top big slots rows (sl_anchor (slots ! a)) + 58 \<le> band_top big slots rows (sl_anchor (slots ! b))"
    if "a < length slots" "b < length slots" "sl_anchor (slots ! a) < sl_anchor (slots ! b)" for a b
  proof -
    have at: "?ps ! sl_anchor (slots ! a) = a" "?ps ! sl_anchor (slots ! b) = b" "sl_anchor (slots ! b) < length rows"
      using anchor_slot [OF assms(1), of a rows] anchor_slot [OF assms(1), of b rows] that unfolding assms(2) [symmetric] by auto
    have "a \<noteq> b" using that(3) by auto
    then have "?ps ! sl_anchor (slots ! a) \<noteq> ?ps ! sl_anchor (slots ! b)" using at by simp
    from band_tops_apart(2) [OF _ that(3) _ this, of ?gap] gap at(3) len show ?thesis by (simp add: band_top_def)
  qed
  have first: "rows \<noteq> [] \<Longrightarrow> band_top big slots rows 0 = TOPO_PAD" using len by (cases ?ps) (auto simp: band_top_def)
  have low: "TOPO_PAD \<le> band_top big slots rows i" if "i < length rows" for i
  proof (cases "i = 0")
    case False
    with rows [of 0 i] that have "band_top big slots rows 0 + 52 \<le> band_top big slots rows i" by simp
    moreover have "band_top big slots rows 0 = TOPO_PAD" using that by (intro first) auto
    ultimately show ?thesis by simp
  qed (use first that in auto)
  have high: "band_top big slots rows i + TOPO_ROW_H \<le> topology_total_height big slots rows" if "i < length rows" for i
  proof (cases "i = length rows - 1")
    case False
    then have "band_top big slots rows i + 52 \<le> band_top big slots rows (length rows - 1)" using that by (intro rows) auto
    then show ?thesis by (simp add: topology_total_height_def)
  qed (simp add: topology_total_height_def)
  show ?thesis
    using rows peers low high by (auto simp: route_card_y_def peer_card_y_def ROUTE_NODE_H_def PEER_NODE_H_def) (fastforce+)?
qed

lemma topology_cards_do_not_overlap_witness:
  "route_card_y False (build_topology_peer_slots toy_topology_peers toy_topology_routes) toy_topology_routes 0 + ROUTE_NODE_H \<le>
   route_card_y False (build_topology_peer_slots toy_topology_peers toy_topology_routes) toy_topology_routes 1"
  using topology_cards_do_not_overlap [OF toy_topology_keyed refl, of toy_topology_routes False] by (simp add: toy_topology_routes_def)

section \<open>Opening and closing groups\<close>

text \<open>A toggle sets the group it names and no other; without a filter it never touches what a filter has closed, and the other way round.\<close>

lemma group_toggle:
  "topology_group_expanded (set_topology_group_expanded k b s) k' = (if k' = k then b else topology_group_expanded s k')"
  "trim (ts_filter s) \<noteq> [] \<Longrightarrow> ts_expanded (set_topology_group_expanded k b s) = ts_expanded s"
  "trim (ts_filter s) = [] \<Longrightarrow> ts_filter_collapsed (set_topology_group_expanded k b s) = ts_filter_collapsed s"
  by (auto simp: topology_group_expanded_def set_topology_group_expanded_def Let_def)

text \<open>Typing a filter opens every group that matches; clearing it shows the groups as they were before.\<close>

lemma filter_opens_groups:
  "trim v \<noteq> [] \<Longrightarrow> topology_group_expanded (topology_filter_input v s) k"
  "topology_group_expanded (topology_filter_input [] (foldl (\<lambda>t (k, b). set_topology_group_expanded k b t) (topology_filter_input v s) toggles)) k' =
     (k' \<in> ts_expanded s)" if "trim v \<noteq> []"
proof -
  show "trim v \<noteq> [] \<Longrightarrow> topology_group_expanded (topology_filter_input v s) k"
    by (simp add: topology_group_expanded_def topology_filter_input_def)
  have "trim (ts_filter t) \<noteq> [] \<Longrightarrow> ts_expanded (foldl (\<lambda>t (k, b). set_topology_group_expanded k b t) t toggles) = ts_expanded t" for t
  proof (induction toggles arbitrary: t)
    case (Cons x xs)
    have "ts_filter (set_topology_group_expanded (fst x) (snd x) t) = ts_filter t" by (simp add: set_topology_group_expanded_def Let_def)
    then show ?case using Cons group_toggle(2) [of t "fst x" "snd x"] by (simp add: split_def)
  qed simp
  from this [of "topology_filter_input v s"] that
  show "topology_group_expanded (topology_filter_input [] (foldl (\<lambda>t (k, b). set_topology_group_expanded k b t) (topology_filter_input v s) toggles)) k' =
     (k' \<in> ts_expanded s)"
    by (simp add: topology_group_expanded_def topology_filter_input_def trim_def)
qed

end
