(* ===== verification/Topology_View.thy ===== *)
theory Topology_View
  imports Topology
begin

text \<open>
  \<open>pages/topology.js\<close>, the graph on screen: the state of a peer and of an edge, the texts of the cards, panning and zooming,
  and refreshes.

  Coordinates are rationals; the factor of a wheel turn, the widths the browser measures and the clock are parameters.
\<close>

section \<open>Peers and edges\<close>

datatype wg_state = WgUnknown | WgNa | WgOn | WgOff

text \<open>\<open>now\<close> is the clock, in milliseconds.\<close>

definition peer_wg_topology_state :: "int \<Rightarrow> json option \<Rightarrow> jsval \<Rightarrow> wg_state" where
  "peer_wg_topology_state now peer st =
     (case peer of
        None \<Rightarrow> WgUnknown
      | Some p \<Rightarrow>
          if truthy (member_json p ''disabled'') then WgNa
          else if \<not> truthy st \<or> truthy (at_member st ''wireguard_dump_failed'') then WgUnknown
          else (case wg_peer_pub_key_map st (trim (str_or_empty (member_json p ''public_key''))) of
              None \<Rightarrow> WgUnknown
            | Some row \<Rightarrow>
                (case member_json row ''latest_handshake_unix'' of
                   Some (JNum h) \<Rightarrow> if h > 0 \<and> now div 1000 - h \<le> PEER_ONLINE_MAX_HANDSHAKE_AGE_SEC then WgOn else WgOff
                 | _ \<Rightarrow> WgOff)))"

definition topo_edge_class :: "int \<Rightarrow> jsval \<Rightarrow> string set \<Rightarrow> json option \<Rightarrow> json \<Rightarrow> string" where
  "topo_edge_class now st active peer r =
     (let pk = trim (str_or_empty (at_member peer ''public_key'')) in
      if truthy (member_json r ''disabled'') then ''topo-edge topo-edge--muted''
      else if peer_wg_topology_state now peer st = WgOn \<and> pk \<noteq> [] \<and> pk \<in> active then ''topo-edge topo-edge--on topo-edge--pulse''
      else ''topo-edge topo-edge--neutral'')"

text \<open>The control points of an edge.\<close>

definition topo_bezier_path :: "rat \<Rightarrow> rat \<Rightarrow> rat \<Rightarrow> rat \<Rightarrow> (rat \<times> rat) list" where
  "topo_bezier_path x1 y1 x2 y2 = (let dx = max 40 ((x2 - x1) * 45 / 100) in [(x1, y1), (x1 + dx, y1), (x2 - dx, y2), (x2, y2)])"

text \<open>Bytes moved since the last refresh make a peer's edges pulse.\<close>

definition row_bytes :: "json \<Rightarrow> int" where
  "row_bytes row = (let n = (\<lambda>k. case member_json row k of Some (JNum v) \<Rightarrow> v | _ \<Rightarrow> 0) in n ''transfer_rx'' + n ''transfer_tx'')"

definition count_activity :: "(string \<Rightarrow> int option) \<times> string set \<Rightarrow> json \<Rightarrow> (string \<Rightarrow> int option) \<times> string set" where
  "count_activity acc row = (case acc of (prev, active) \<Rightarrow>
     (let pk = trim (str_or_empty (member_json row ''public_key'')); cur = row_bytes row in
      if pk = [] then acc
      else (prev(pk \<mapsto> cur), case prev pk of Some b \<Rightarrow> if cur - b \<ge> 128 then insert pk active else active | None \<Rightarrow> active)))"

definition topology_activity :: "jsval \<Rightarrow> (string \<Rightarrow> int option) \<Rightarrow> (string \<Rightarrow> int option) \<times> string set" where
  "topology_activity st prev =
     (if truthy st \<and> \<not> truthy (at_member st ''wireguard_dump_failed'')
      then foldl count_activity (prev, {}) (array_elems (at_member st ''wireguard_peers'')) else (prev, {}))"

text \<open>On a first refresh nothing pulses, and an unchanged count never does.\<close>

lemma activity_needs_growth:
  assumes "distinct (map (\<lambda>row. trim (str_or_empty (member_json row ''public_key''))) (array_elems (at_member st ''wireguard_peers'')))"
  shows "pk \<in> snd (topology_activity st prev) \<Longrightarrow>
    \<exists>row \<in> set (array_elems (at_member st ''wireguard_peers'')). \<exists>b. trim (str_or_empty (member_json row ''public_key'')) = pk \<and>
      prev pk = Some b \<and> b + 128 \<le> row_bytes row"
proof -
  let ?k = "\<lambda>row. trim (str_or_empty (member_json row ''public_key''))"
  have main: "pk \<in> snd (foldl count_activity (m, A) rows) \<Longrightarrow>
      pk \<in> A \<or> (\<exists>row \<in> set rows. \<exists>b. ?k row = pk \<and> m pk = Some b \<and> b + 128 \<le> row_bytes row)"
    if "distinct (map ?k rows)" for m A rows
    using that
  proof (induction rows arbitrary: m A)
    case (Cons row rows)
    obtain m' A' where step: "count_activity (m, A) row = (m', A')" by (cases "count_activity (m, A) row")
    have m': "m' pk = m pk" if "?k row \<noteq> pk" using step that by (auto simp: count_activity_def Let_def split: if_splits)
    have A': "pk \<in> A' \<Longrightarrow> pk \<in> A \<or> (\<exists>b. ?k row = pk \<and> m pk = Some b \<and> b + 128 \<le> row_bytes row)"
      using step by (auto simp: count_activity_def Let_def split: if_splits option.splits)
    from Cons.IH [of m' A'] Cons.prems step
    have "pk \<in> A' \<or> (\<exists>row \<in> set rows. \<exists>b. ?k row = pk \<and> m' pk = Some b \<and> b + 128 \<le> row_bytes row)" by simp
    then show ?case
    proof
      assume "pk \<in> A'"
      with A' show ?thesis by auto
    next
      assume "\<exists>row \<in> set rows. \<exists>b. ?k row = pk \<and> m' pk = Some b \<and> b + 128 \<le> row_bytes row"
      moreover from this have "?k row \<noteq> pk" using Cons.prems(2) by force
      ultimately show ?thesis using m' by auto
    qed
  qed simp
  assume "pk \<in> snd (topology_activity st prev)"
  then show ?thesis using main [OF assms, of prev "{}"] by (auto simp: topology_activity_def split: if_splits)
qed

section \<open>The texts of the cards\<close>

definition card_ports :: "json \<Rightarrow> string list" where
  "card_ports r = nonempty (map (\<lambda>x. trim (js_string x)) (rows_or_none (member_json r ''ports'')))"

definition is_stand_in :: "json \<Rightarrow> bool" where
  "is_stand_in r = truthy (member_json r ''topologyGroupCount'')"

definition stand_in_count :: "json \<Rightarrow> nat" where
  "stand_in_count r = (case member_json r ''topologyGroupCount'' of Some (JNum n) \<Rightarrow> nat n | _ \<Rightarrow> 0)"

definition route_proto_text :: "json \<Rightarrow> string" where
  "route_proto_text r = route_proto_plain_text (str_or_empty (member_json r ''proto''))"

definition route_topology_proto_upper_escaped :: "json \<Rightarrow> string" where
  "route_topology_proto_upper_escaped r = (if route_proto_text r = mdash then mdash else escape_html (upper (route_proto_text r)))"

definition route_topology_ports_display_escaped :: "json \<Rightarrow> string" where
  "route_topology_ports_display_escaped r =
     (let ports = card_ports r in
      if ports = [] then escape_html mdash
      else if is_stand_in r then escape_html (hd ports @ (if length ports > 1 then '', ...'' else []))
      else if length ports \<le> 2 then escape_html (join '', '' ports) else escape_html (join '', '' (take 2 ports) @ '', ...''))"

definition route_topology_aria_label :: "json \<Rightarrow> string" where
  "route_topology_aria_label r =
     (let ports = (if card_ports r = [] then mdash else join '', '' (card_ports r));
          nm = trim (str_or_empty (member_json r ''name'')); off = truthy (member_json r ''disabled'') in
      if is_stand_in r
      then escape_html (route_count_text (stand_in_count r) @ '' collapsed, ports '' @ ports @ (if off then '' (all disabled)'' else []))
      else escape_html (''Forwarding route'' @ (if nm \<noteq> [] then '' '' @ nm else []) @ '', '' @ route_proto_text r @ '', ports '' @ ports @
        (if off then '' (disabled)'' else [])))"

definition topology_route_card_html :: "json \<Rightarrow> string" where
  "topology_route_card_html r =
     (let nm = trim (str_or_empty (member_json r ''name'')); off = truthy (member_json r ''disabled'');
          lead = (if is_stand_in r then ''<span class=\"topology-route-proto\">'' @ escape_html (route_count_text (stand_in_count r)) @ ''</span>''
            else if nm \<noteq> []
            then ''<span class=\"topology-route-name\" title=\"'' @ escape_html nm @ '' ('' @ route_topology_proto_upper_escaped r @ '')\">'' @ escape_html nm @ ''</span>''
            else ''<span class=\"topology-route-proto\">'' @ route_topology_proto_upper_escaped r @ ''</span>'') in
      ''<div class=\"topology-node topology-node--route'' @ (if off then '' topology-node--disabled'' else '' topology-node--outline-on'') @
      ''\" role=\"group\" aria-label=\"'' @ route_topology_aria_label r @ ''\"><div class=\"topology-route-split\">'' @ lead @
      ''<span class=\"topology-node-vbar\" aria-hidden=\"true\"></span><span class=\"topology-route-ports\">'' @
      route_topology_ports_display_escaped r @ ''</span></div></div>'')"

text \<open>What stands for a peer's ping, and its title. \<open>metrics\<close>: whether they are collected; the map is none before the first answer.\<close>

definition topology_peer_ping_parts :: "bool \<Rightarrow> (string \<Rightarrow> json option) option \<Rightarrow> json option \<Rightarrow> string \<times> string" where
  "topology_peer_ping_parts metrics pings peer =
     (if \<not> metrics then (mdash, ''Enable peer ICMP metrics in Settings to show ping here.'')
      else (case peer of
          None \<Rightarrow> (mdash, [])
        | Some p \<Rightarrow>
            if truthy (member_json p ''disabled'') then (mdash, ''Peer disabled'')
            else (case pings of
                None \<Rightarrow> (ellipsis, ''Loading metrics'')
              | Some m \<Rightarrow>
                  (let th = tunnel_host_only (str_or_empty (member_json p ''tunnel_ip'')) in
                   case (if th \<noteq> [] then m th else None) of
                     None \<Rightarrow> (mdash, ''No ping data'')
                   | Some row \<Rightarrow>
                       if truthy (member_json row ''ok'')
                       then ((case member_json row ''latency_ms'' of Some v \<Rightarrow> js_string v | None \<Rightarrow> ''undefined'') @ '' ms'', ''Last ICMP ping (evuproxy metrics)'')
                       else (mdash, if truthy (member_json row ''error'') then str_or_empty (member_json row ''error'') else ''unreachable'')))))"

text \<open>The name and the address on a slot's card.\<close>

definition slot_title :: "topology_slot \<Rightarrow> string" where
  "slot_title s = (case sl_peer s of
     Some p \<Rightarrow> (let nm = trim (str_or_empty (member_json p ''name'')) in if nm = [] then ''Peer'' else nm) | None \<Rightarrow> ''Unknown target'')"

definition slot_address :: "topology_slot \<Rightarrow> string" where
  "slot_address s = (case sl_peer s of Some p \<Rightarrow> trim (str_or_empty (member_json p ''tunnel_ip'')) | None \<Rightarrow> trim (sl_orphan s))"

definition slot_aria :: "string \<Rightarrow> topology_slot \<Rightarrow> string" where
  "slot_aria ping s = escape_html (slot_title s @ '', '' @ slot_address s @ '', ping '' @ ping)"

definition group_toggle_label :: "topology_state \<Rightarrow> topology_group list \<Rightarrow> topology_slot \<Rightarrow> string" where
  "group_toggle_label s gs sl =
     (let n = (case find (\<lambda>g. tg_key g = sl_key sl) gs of Some g \<Rightarrow> length (tg_routes g) | None \<Rightarrow> 0) in
      escape_html ((if topology_group_expanded s (sl_key sl) then ''Collapse '' else ''Expand '') @ route_count_text n @ '' to '' @ slot_title sl))"

definition topology_summary :: "int \<Rightarrow> bool \<Rightarrow> topology_state \<Rightarrow> topology_group list \<Rightarrow> nat \<Rightarrow> jsval \<Rightarrow> topology_slot list \<Rightarrow> string" where
  "topology_summary now atScale s gs n st slots =
     (if atScale then topology_scale_summary_text s gs n
      else show_nat n @ '' route(s), '' @ show_nat (length slots) @ '' peer target(s)'') @ '', '' @
     show_nat (length (filter (\<lambda>sl. sl_peer sl \<noteq> None \<and> peer_wg_topology_state now (sl_peer sl) st = WgOn) slots)) @ '' online peer link(s)''"

text \<open>The lines of the server's card, and its height.\<close>

definition server_lines :: "jsval \<Rightarrow> jsval \<Rightarrow> string list" where
  "server_lines cfg st =
     (let wg = at_member cfg ''wireguard'';
          ifc = js_or (at_member wg ''interface'') (js_or (at_member st ''wireguard_interface'') (Some (JStr ''wg0'')));
          addr = str_or_empty (at_member wg ''address''); pub = str_or_empty (at_member (at_member cfg ''network'') ''public_interface'') in
      [''EvuProxy'', str_or_empty ifc] @ (if addr \<noteq> [] then [addr] else []) @ (if pub \<noteq> [] then [''wan '' @ pub] else []))"

definition server_node_height :: "jsval \<Rightarrow> jsval \<Rightarrow> int" where
  "server_node_height cfg st = max PEER_NODE_H (22 + int (length (server_lines cfg st)) * 19)"

text \<open>The width of a route's card where the browser cannot measure it, and the bounds on a measured one.\<close>

definition topology_max_card_width :: "rat \<Rightarrow> rat \<Rightarrow> rat" where
  "topology_max_card_width routeX peerX = max 88 (peerX - routeX - 24)"

definition estimate_topology_route_chip_width :: "json \<Rightarrow> rat \<Rightarrow> rat \<Rightarrow> rat" where
  "estimate_topology_route_chip_width r routeX peerX =
     (let ports = card_ports r;
          shown = (if ports = [] then mdash else if length ports \<le> 2 then join '', '' ports else join '', '' (take 2 ports) @ '', ...'');
          proto = (if route_proto_text r = mdash then mdash else upper (route_proto_text r));
          w = (2 :: rat) + 26 + of_nat (length proto) * 7 + 16 + of_nat (max (length shown) 1) * 66 / 10 + 26 in
      max 68 (min (of_int \<lceil>w\<rceil>) (topology_max_card_width routeX peerX)))"

definition measured_topology_route_chip_width :: "rat \<Rightarrow> json \<Rightarrow> rat \<Rightarrow> rat \<Rightarrow> rat" where
  "measured_topology_route_chip_width w r routeX peerX =
     (if w > 1 then max 52 (min (of_int \<lceil>w\<rceil>) (topology_max_card_width routeX peerX)) else estimate_topology_route_chip_width r routeX peerX)"

text \<open>The cards of a peer's routes are as wide as the widest.\<close>

definition slot_widths :: "nat list \<Rightarrow> rat list \<Rightarrow> rat list" where
  "slot_widths row_slot ws = map (\<lambda>j. foldl max 0 (map snd (filter (\<lambda>(k, _). k = j) (zip row_slot ws)))) row_slot"

definition ROUTE_X :: rat where "ROUTE_X = 268"
definition PEER_X :: rat where "PEER_X = 492"

lemma cards_end_before_the_peers:
  "ROUTE_X + estimate_topology_route_chip_width r ROUTE_X PEER_X \<le> PEER_X - 24"
  "ROUTE_X + measured_topology_route_chip_width w r ROUTE_X PEER_X \<le> PEER_X - 24"
  by (auto simp: measured_topology_route_chip_width_def estimate_topology_route_chip_width_def topology_max_card_width_def
      ROUTE_X_def PEER_X_def Let_def max_def min_def)

section \<open>Panning and zooming\<close>

definition TOPO_ZOOM_MIN :: rat where "TOPO_ZOOM_MIN = 1 / 4"
definition TOPO_ZOOM_MAX :: rat where "TOPO_ZOOM_MAX = 4"
definition TOPO_GRAPH_W :: rat where "TOPO_GRAPH_W = 780"

record topology_view =
  tv_pan_x :: rat
  tv_pan_y :: rat
  tv_zoom :: rat
  tv_at_scale :: bool
  tv_content_h :: rat
  tv_drag :: "(nat \<times> (rat \<times> rat) \<times> (rat \<times> rat)) option"  \<comment> \<open>pointer, where it went down, the pan then\<close>

text \<open>The view box for a wrap of \<open>w\<close> by \<open>h\<close> pixels.\<close>

definition topology_scale_view_box :: "rat \<Rightarrow> rat \<Rightarrow> rat \<times> rat" where
  "topology_scale_view_box w h = (let vw = max TOPO_GRAPH_W w in (vw, of_int \<lfloor>h * vw / w + 1 / 2\<rfloor>))"

definition clamp_topology_pan_y :: "rat \<Rightarrow> rat \<Rightarrow> topology_view \<Rightarrow> rat" where
  "clamp_topology_pan_y y viewH v = (let lowest = min 0 (viewH - tv_content_h v * tv_zoom v) in min 0 (max lowest y))"

definition limit_topology_pan_y :: "rat \<Rightarrow> rat \<Rightarrow> topology_view \<Rightarrow> rat" where
  "limit_topology_pan_y y viewH v = (if tv_at_scale v then clamp_topology_pan_y y viewH v else y)"

definition reset_topology_view :: "rat \<Rightarrow> topology_view \<Rightarrow> topology_view" where
  "reset_topology_view viewW v =
     v\<lparr>tv_pan_x := (if tv_at_scale v then (viewW - TOPO_GRAPH_W) / 2 else 0), tv_pan_y := 0, tv_zoom := 1, tv_drag := None\<rparr>"

datatype topology_gesture =
    WheelScroll rat rat
  | WheelZoom rat rat rat  \<comment> \<open>the point under the cursor, the factor asked for\<close>
  | PointerDown nat rat rat
  | PointerMove nat rat rat
  | PointerEnd nat
  | FilterTyped
  | Reveal rat rat  \<comment> \<open>a card's place and height\<close>

definition zoom_to :: "rat \<Rightarrow> rat" where
  "zoom_to k = (if k < TOPO_ZOOM_MIN then TOPO_ZOOM_MIN else if k > TOPO_ZOOM_MAX then TOPO_ZOOM_MAX else k)"

definition topology_gesture_step :: "rat \<Rightarrow> topology_gesture \<Rightarrow> topology_view \<Rightarrow> topology_view" where
  "topology_gesture_step viewH g v =
     (case g of
        WheelScroll dx dy \<Rightarrow>
          if tv_at_scale v then v\<lparr>tv_pan_x := tv_pan_x v - dx, tv_pan_y := clamp_topology_pan_y (tv_pan_y v - dy) viewH v\<rparr> else v
      | WheelZoom mx my scale \<Rightarrow>
          (let k1 = tv_zoom v; k2 = zoom_to (k1 * scale); r = k2 / k1; v1 = v\<lparr>tv_zoom := k2\<rparr> in
           if \<bar>k2 - k1\<bar> < 1 / 10 ^ 9 then v
           else v1\<lparr>tv_pan_x := mx - r * (mx - tv_pan_x v), tv_pan_y := limit_topology_pan_y (my - r * (my - tv_pan_y v)) viewH v1\<rparr>)
      | PointerDown p x y \<Rightarrow> v\<lparr>tv_drag := Some (p, (x, y), (tv_pan_x v, tv_pan_y v))\<rparr>
      | PointerMove p x y \<Rightarrow>
          (case tv_drag v of
             Some (q, (x0, y0), (tx, ty)) \<Rightarrow>
               if q = p then v\<lparr>tv_pan_x := tx + (x - x0), tv_pan_y := limit_topology_pan_y (ty + (y - y0)) viewH v\<rparr> else v
           | None \<Rightarrow> v)
      | PointerEnd p \<Rightarrow> (case tv_drag v of Some (q, _) \<Rightarrow> if q = p then v\<lparr>tv_drag := None\<rparr> else v | None \<Rightarrow> v)
      | FilterTyped \<Rightarrow> v\<lparr>tv_pan_y := 0\<rparr>
      | Reveal cardY h \<Rightarrow>
          (let t = cardY * tv_zoom v + tv_pan_y v; b = t + h * tv_zoom v in
           if \<not> tv_at_scale v \<or> (t \<ge> 0 \<and> b \<le> viewH) then v
           else v\<lparr>tv_pan_y := clamp_topology_pan_y (tv_pan_y v + (if t < 0 then - t else viewH - b)) viewH v\<rparr>))"

definition view_ok :: "rat \<Rightarrow> topology_view \<Rightarrow> bool" where
  "view_ok viewH v \<longleftrightarrow> TOPO_ZOOM_MIN \<le> tv_zoom v \<and> tv_zoom v \<le> TOPO_ZOOM_MAX \<and>
     (tv_at_scale v \<longrightarrow> tv_pan_y v \<le> 0 \<and> min 0 (viewH - tv_content_h v * tv_zoom v) \<le> tv_pan_y v)"

lemma clamped: "clamp_topology_pan_y y viewH v \<le> 0" "min 0 (viewH - tv_content_h v * tv_zoom v) \<le> clamp_topology_pan_y y viewH v"
  by (simp_all add: clamp_topology_pan_y_def Let_def)

lemma zoom_to_range: "TOPO_ZOOM_MIN \<le> zoom_to k" "zoom_to k \<le> TOPO_ZOOM_MAX" "0 < zoom_to k"
  by (auto simp: zoom_to_def TOPO_ZOOM_MIN_def TOPO_ZOOM_MAX_def)

lemma clamp_zoom_indep: "clamp_topology_pan_y y viewH (v\<lparr>tv_pan_x := x, tv_pan_y := z\<rparr>) = clamp_topology_pan_y y viewH v"
  by (simp add: clamp_topology_pan_y_def)

text \<open>
  However the graph is scrolled, zoomed, dragged, filtered and walked through by keyboard, it stays in reach: the zoom keeps
  within its limits, and a large graph is never moved past its top or its end.
\<close>

lemma gestures_keep_view:
  assumes "view_ok viewH v"
  shows "view_ok viewH (foldl (\<lambda>u g. topology_gesture_step viewH g u) v gs)"
  using assms
proof (induction gs arbitrary: v)
  case (Cons g gs)
  have "view_ok viewH (topology_gesture_step viewH g v)"
  proof (cases g)
    case (WheelScroll dx dy)
    then show ?thesis using Cons.prems clamped [where y = "tv_pan_y v - dy" and viewH = viewH and v = v] by (simp add: topology_gesture_step_def view_ok_def)
  next
    case (WheelZoom mx my scale)
    let ?k = "zoom_to (tv_zoom v * scale)"
    let ?y = "my - ?k / tv_zoom v * (my - tv_pan_y v)"
    show ?thesis
      using Cons.prems zoom_to_range [of "tv_zoom v * scale"] clamped [where y = ?y and viewH = viewH and v = "v\<lparr>tv_zoom := ?k\<rparr>"]
      by (simp add: WheelZoom topology_gesture_step_def view_ok_def limit_topology_pan_y_def Let_def)
  next
    case (PointerMove p x y)
    show ?thesis
    proof (cases "tv_drag v")
      case (Some d)
      then obtain q x0 y0 tx ty where "tv_drag v = Some (q, (x0, y0), (tx, ty))" by (cases d) (metis prod.exhaust)
      then show ?thesis
        using Cons.prems clamped [where y = "ty + (y - y0)" and viewH = viewH and v = v]
        by (simp add: PointerMove topology_gesture_step_def view_ok_def limit_topology_pan_y_def)
    qed (use Cons.prems in \<open>simp add: PointerMove topology_gesture_step_def\<close>)
  next
    case (PointerEnd p)
    then show ?thesis using Cons.prems by (simp add: topology_gesture_step_def view_ok_def split: option.split)
  next
    case (Reveal cardY h)
    let ?t = "cardY * tv_zoom v + tv_pan_y v"
    let ?y = "tv_pan_y v + (if ?t < 0 then - ?t else viewH - (?t + h * tv_zoom v))"
    show ?thesis
      using Cons.prems clamped [where y = ?y and viewH = viewH and v = v]
      by (simp add: Reveal topology_gesture_step_def view_ok_def Let_def)
  qed (use Cons.prems in \<open>simp_all add: topology_gesture_step_def view_ok_def\<close>)
  then show ?case using Cons.IH by simp
qed simp

lemma gestures_keep_view_example:
  "view_ok 400 (foldl (\<lambda>u g. topology_gesture_step 400 g u)
     \<lparr>tv_pan_x = 0, tv_pan_y = 0, tv_zoom = 1, tv_at_scale = True, tv_content_h = 2000, tv_drag = None\<rparr>
     [WheelScroll 0 9000, WheelZoom 10 10 100, PointerDown 1 5 5, PointerMove 1 5 900])"
  by (rule gestures_keep_view) (simp add: view_ok_def TOPO_ZOOM_MIN_def TOPO_ZOOM_MAX_def)

text \<open>Zooming keeps the point under the cursor where it is, unless the graph meets its limit.\<close>

lemma zoom_keeps_the_point:
  assumes "v' = topology_gesture_step viewH (WheelZoom mx my scale) v" "0 < tv_zoom v"
  shows "(mx - tv_pan_x v') / tv_zoom v' = (mx - tv_pan_x v) / tv_zoom v"
    "\<not> tv_at_scale v \<Longrightarrow> (my - tv_pan_y v') / tv_zoom v' = (my - tv_pan_y v) / tv_zoom v"
proof -
  have k: "0 < zoom_to (tv_zoom v * scale)" by (rule zoom_to_range(3))
  show "(mx - tv_pan_x v') / tv_zoom v' = (mx - tv_pan_x v) / tv_zoom v"
    using k assms by (simp add: topology_gesture_step_def Let_def)
  show "(my - tv_pan_y v') / tv_zoom v' = (my - tv_pan_y v) / tv_zoom v" if "\<not> tv_at_scale v"
    using k assms that by (simp add: topology_gesture_step_def limit_topology_pan_y_def Let_def)
qed

section \<open>Refreshes\<close>

record topology_page =
  tp_in_flight :: bool
  tp_prev_bytes :: "string \<Rightarrow> int option"
  tp_last_pings :: "(string \<Rightarrow> json option) option"
  tp_shown :: "(json \<times> json \<times> string set \<times> (string \<Rightarrow> json option) option) option"
  tp_msg :: "string \<times> bool"

text \<open>A refresh while one is out does nothing.\<close>

definition topology_refresh_start :: "topology_page \<Rightarrow> topology_page option" where
  "topology_refresh_start s = (if tp_in_flight s then None else Some (s\<lparr>tp_in_flight := True, tp_msg := ([], False)\<rparr>))"

definition PINGS_OLD :: string where "PINGS_OLD = ''Latency could not be refreshed, so it's from an earlier load.''"

text \<open>The config and the stats, or the error; and the metrics, asked for only if they are collected.\<close>

definition topology_refresh_answer :: "bool \<Rightarrow> string + json \<times> json \<Rightarrow> (string \<Rightarrow> json option) option \<Rightarrow> topology_page \<Rightarrow> topology_page" where
  "topology_refresh_answer metrics answer pings s0 =
     (let s = s0\<lparr>tp_in_flight := False\<rparr> in
      case answer of
        Inl e \<Rightarrow> s\<lparr>tp_msg := (e, True)\<rparr>
      | Inr (cfg, st) \<Rightarrow>
          (let s1 = (if \<not> metrics then s
              else (case pings of
                  Some m \<Rightarrow> s\<lparr>tp_last_pings := Some m\<rparr>
                | None \<Rightarrow> if tp_last_pings s \<noteq> None then s\<lparr>tp_msg := (PINGS_OLD, False)\<rparr> else s));
            shown = (if metrics then tp_last_pings s1 else None); act = topology_activity (Some st) (tp_prev_bytes s) in
          s1\<lparr>tp_prev_bytes := fst act, tp_shown := Some (cfg, st, snd act, shown)\<rparr>))"

text \<open>One refresh at a time, each lets the next one start, and a failed one leaves the graph.\<close>

lemma topology_refreshes:
  "topology_refresh_start s = Some s1 \<Longrightarrow> topology_refresh_start s1 = None"
  "topology_refresh_start (topology_refresh_answer metrics answer pings s) \<noteq> None"
  "tp_shown (topology_refresh_answer metrics (Inl e) pings s) = tp_shown s"
  "tp_prev_bytes (topology_refresh_answer metrics (Inl e) pings s) = tp_prev_bytes s"
  by (auto simp: topology_refresh_start_def topology_refresh_answer_def Let_def split: if_splits sum.splits option.splits)

end
