(* ===== verification/Topology_Page.thy ===== *)
theory Topology_Page
  imports Topology_View Table_Cells
begin

text \<open>
  \<open>pages/topology.js\<close>, the page: the whole drawing as the markup the code writes, and the screen as a machine over refreshes,
  redraws, the filter, the groups' toggles, gestures and changes of size.

  \<open>num\<close> writes a number as the language does, \<open>measure\<close> is the width the browser gives a card, \<open>caret\<close> the mark of an open or a
  closed group; \<open>collate\<close> is \<open>localeCompare\<close>.
\<close>

section \<open>The drawing\<close>

record draw_env =
  num :: "rat \<Rightarrow> string"
  measure_card :: "string \<Rightarrow> rat"
  caret :: "bool \<Rightarrow> string"
  collate :: "string \<Rightarrow> string \<Rightarrow> rat"

definition foreign_object :: "draw_env \<Rightarrow> rat \<Rightarrow> rat \<Rightarrow> rat \<Rightarrow> rat \<Rightarrow> string \<Rightarrow> string \<Rightarrow> string" where
  "foreign_object env x y w h kind inner =
     ''<foreignObject x=\"'' @ num env x @ ''\" y=\"'' @ num env y @ ''\" width=\"'' @ num env w @ ''\" height=\"'' @ num env h @
     ''\"><div xmlns=\"http://www.w3.org/1999/xhtml\" class=\"topology-foreign-inner topology-foreign-inner--'' @ kind @ ''\">'' @ inner @
     ''</div></foreignObject>''"

definition path_text :: "draw_env \<Rightarrow> (rat \<times> rat) list \<Rightarrow> string" where
  "path_text env ps = (case map (\<lambda>(x, y). num env x @ '' '' @ num env y) ps of
     p # qs \<Rightarrow> ''M '' @ p @ '' C '' @ join '', '' qs | [] \<Rightarrow> [])"

definition edge_html :: "draw_env \<Rightarrow> string \<Rightarrow> (rat \<times> rat) list \<Rightarrow> string" where
  "edge_html env cls ps = ''<path class=\"'' @ cls @ ''\" d=\"'' @ path_text env ps @ ''\" fill=\"none\" />''"

definition server_html :: "jsval \<Rightarrow> jsval \<Rightarrow> string" where
  "server_html cfg st =
     (let wg = at_member cfg ''wireguard'';
          ifc = js_or (at_member wg ''interface'') (js_or (at_member st ''wireguard_interface'') (Some (JStr ''wg0'')));
          addr = str_or_empty (at_member wg ''address''); pub = str_or_empty (at_member (at_member cfg ''network'') ''public_interface'') in
      ''<div class=\"topology-node topology-node--server\"><p class=\"topology-node-title\">EvuProxy</p><p class=\"topology-node-meta mono\">'' @
      escape_html (str_or_empty ifc) @ ''</p>'' @
      (if addr \<noteq> [] then ''<p class=\"topology-node-detail mono\">'' @ escape_html addr @ ''</p>'' else []) @
      (if pub \<noteq> [] then ''<p class=\"topology-node-detail meta\">wan '' @ escape_html pub @ ''</p>'' else []) @ ''</div>'')"

definition group_toggle_html :: "draw_env \<Rightarrow> topology_state \<Rightarrow> topology_group list \<Rightarrow> topology_slot \<Rightarrow> string" where
  "group_toggle_html env s gs sl =
     (let opened = topology_group_expanded s (sl_key sl) in
      ''<button type=\"button\" class=\"topology-peer-toggle\" data-topo-toggle=\"'' @ escape_html (sl_key sl) @ ''\" aria-expanded=\"'' @
      (if opened then ''true'' else ''false'') @ ''\" aria-label=\"'' @ group_toggle_label s gs sl @ ''\"><span aria-hidden=\"true\">'' @
      caret env opened @ ''</span></button>'')"

definition peer_card_html :: "int \<Rightarrow> bool \<Rightarrow> (string \<Rightarrow> json option) option \<Rightarrow> jsval \<Rightarrow> string \<Rightarrow> topology_slot \<Rightarrow> string" where
  "peer_card_html now metrics pings st toggle sl =
     (case topology_peer_ping_parts metrics pings (sl_peer sl) of (ping, title) \<Rightarrow>
       ''<div class=\"topology-node topology-node--peer'' @
       (if sl_peer sl \<noteq> None \<and> peer_wg_topology_state now (sl_peer sl) st = WgOn then '' topology-node--outline-on'' else []) @
       ''\" role=\"group\" aria-label=\"'' @ slot_aria ping sl @ ''\"><div class=\"topology-peer-split\">'' @ toggle @
       ''<div class=\"topology-peer-main\"><p class=\"topology-node-title\">'' @ escape_html (slot_title sl) @
       ''</p><p class=\"topology-node-meta mono\">'' @ escape_html (slot_address sl) @
       ''</p></div><span class=\"topology-node-vbar\" aria-hidden=\"true\"></span><span class=\"topology-peer-ping mono\"'' @
       (if title \<noteq> [] then '' title=\"'' @ escape_html title @ ''\"'' else []) @ ''>'' @ escape_html ping @ ''</span></div></div>'')"

definition SERVER_X :: rat where "SERVER_X = 36"
definition SERVER_W :: rat where "SERVER_W = 176"
definition PEER_W :: rat where "PEER_W = 200"

text \<open>At scale the host stands at the top, otherwise in the middle.\<close>

definition server_mid_y :: "bool \<Rightarrow> int \<Rightarrow> rat" where
  "server_mid_y atScale totalH = (if atScale then of_int TOPO_PAD + of_int PEER_NODE_H / 2 + 14 else of_int totalH / 2)"

definition route_card_widths :: "draw_env \<Rightarrow> topology_slot list \<Rightarrow> json list \<Rightarrow> rat list" where
  "route_card_widths env slots rows =
     slot_widths (row_slots slots rows) (map (\<lambda>r. measured_topology_route_chip_width (measure_card env (topology_route_card_html r)) r ROUTE_X PEER_X) rows)"

text \<open>The two edges of a row: from the host to the route's card, and from there to the card of its target.\<close>

definition row_edges_html :: "draw_env \<Rightarrow> int \<Rightarrow> bool \<Rightarrow> jsval \<Rightarrow> string set \<Rightarrow> topology_slot list \<Rightarrow> json list \<Rightarrow> nat \<Rightarrow> string" where
  "row_edges_html env now atScale st active slots rows i =
     (let r = rows ! i; sl = slots ! peer_slot_index_for_route slots (route_host r);
          cls = topo_edge_class now st active (sl_peer sl) r; y = of_int (route_mid_y atScale slots rows i) in
      edge_html env cls (topo_bezier_path (SERVER_X + SERVER_W) (server_mid_y atScale (topology_total_height atScale slots rows)) ROUTE_X y) @
      edge_html env cls (topo_bezier_path (ROUTE_X + route_card_widths env slots rows ! i) y PEER_X
        (of_int (route_mid_y atScale slots rows (sl_anchor sl)))))"

definition topology_nodes_html :: "draw_env \<Rightarrow> int \<Rightarrow> bool \<Rightarrow> bool \<Rightarrow> topology_state \<Rightarrow> topology_group list \<Rightarrow> jsval \<Rightarrow> jsval \<Rightarrow>
    (string \<Rightarrow> json option) option \<Rightarrow> topology_slot list \<Rightarrow> json list \<Rightarrow> string" where
  "topology_nodes_html env now metrics atScale s gs cfg st pings slots rows =
     (let h = server_node_height cfg st in
      foreign_object env SERVER_X (server_mid_y atScale (topology_total_height atScale slots rows) - of_int h / 2) SERVER_W (of_int h) ''server''
        (server_html cfg st) @
      concat (map (\<lambda>i. foreign_object env ROUTE_X (of_int (route_card_y atScale slots rows i)) (route_card_widths env slots rows ! i)
        (of_int ROUTE_NODE_H) ''route'' (topology_route_card_html (rows ! i))) [0..<length rows]) @
      concat (map (\<lambda>j. foreign_object env PEER_X (of_int (peer_card_y atScale slots rows j)) PEER_W (of_int PEER_NODE_H) ''peer''
        (peer_card_html now metrics pings st (if atScale then group_toggle_html env s gs (slots ! j) else []) (slots ! j))) [0..<length slots]))"

definition EMPTY_GRAPH :: "bool \<Rightarrow> string" where
  "EMPTY_GRAPH atScale = (if atScale then ''No routes match this filter'' else ''No routes in config'')"

definition graph_frame :: "string \<Rightarrow> string \<Rightarrow> string \<Rightarrow> string" where
  "graph_frame title height inner =
     ''<title id=\"topology-svg-title\">'' @ title @
     ''</title><g id=\"topology-pan-zoom-layer\" class=\"topology-pan-zoom-layer\"><rect class=\"topology-grid-bg\" x=\"0\" y=\"0\" width=\"780\" height=\"'' @
     height @ ''\" fill=\"#000000\" fill-opacity=\"0\" stroke=\"none\" aria-hidden=\"true\" />'' @ inner"

definition empty_graph_html :: "bool \<Rightarrow> string" where
  "empty_graph_html atScale =
     graph_frame (EMPTY_GRAPH atScale) ''120''
       (''<text x=\"390\" y=\"60\" text-anchor=\"middle\" class=\"topology-empty-text\">'' @ EMPTY_GRAPH atScale @ ''</text></g>'')"

definition graph_html :: "draw_env \<Rightarrow> int \<Rightarrow> bool \<Rightarrow> bool \<Rightarrow> topology_state \<Rightarrow> topology_group list \<Rightarrow> nat \<Rightarrow> jsval \<Rightarrow> jsval \<Rightarrow> string set \<Rightarrow>
    (string \<Rightarrow> json option) option \<Rightarrow> topology_slot list \<Rightarrow> json list \<Rightarrow> string" where
  "graph_html env now metrics atScale s gs n cfg st active pings slots rows =
     graph_frame (escape_html (topology_summary now atScale s gs n st slots)) (num env (of_int (topology_total_height atScale slots rows)))
       (''<g class=\"topology-edges\" aria-hidden=\"true\">'' @
        concat (map (row_edges_html env now atScale st active slots rows) [0..<length rows]) @ ''</g><g class=\"topology-nodes\">'' @
        topology_nodes_html env now metrics atScale s gs cfg st pings slots rows @ ''</g></g>'')"

section \<open>The screen\<close>

record topology_screen =
  sc_page :: topology_page
  sc_state :: topology_state
  sc_view :: topology_view
  sc_wrap :: "rat \<times> rat"
  sc_view_box :: "rat \<times> rat"
  sc_html :: string
  sc_role :: string
  sc_controls_hidden :: bool
  sc_filter_box :: string
  sc_summary :: string
  sc_api :: "bool \<times> string"
  sc_loaded :: bool

text \<open>The wrap's size, with the code's defaults for one that has none.\<close>

definition wrap_view_box :: "topology_screen \<Rightarrow> rat \<times> rat" where
  "wrap_view_box s =
     (case sc_wrap s of (w, h) \<Rightarrow> topology_scale_view_box (if w = 0 then TOPO_GRAPH_W else w) (if h = 0 then 480 else h))"

definition sync_topology_scale_controls :: "bool \<Rightarrow> topology_group list \<Rightarrow> nat \<Rightarrow> topology_screen \<Rightarrow> topology_screen" where
  "sync_topology_scale_controls atScale gs n s =
     (let s1 = s\<lparr>sc_controls_hidden := \<not> atScale\<rparr> in
      if \<not> atScale then s1\<lparr>sc_filter_box := []\<rparr> else s1\<lparr>sc_summary := topology_scale_summary_text (sc_state s) gs n\<rparr>)"

definition render_topology_graph :: "draw_env \<Rightarrow> int \<Rightarrow> bool \<Rightarrow> json \<Rightarrow> json \<Rightarrow> string set \<Rightarrow> (string \<Rightarrow> json option) option \<Rightarrow>
    topology_screen \<Rightarrow> topology_screen" where
  "render_topology_graph env now metrics cfg st active pings s =
     (let routes = routes_of cfg; atScale = length routes \<ge> TOPO_SCALE_ROUTES;
          ts = (if atScale then sc_state s else (sc_state s)\<lparr>ts_filter := []\<rparr>);
          gs = (if atScale then build_topology_groups (collate env) (ts_filter ts) (config_peers cfg) routes else []);
          s1 = (sync_topology_scale_controls atScale gs (length routes) (s\<lparr>sc_state := ts\<rparr>))\<lparr>sc_role := if atScale then ''group'' else ''img''\<rparr>;
          v = sc_view s;
          v1 = (if atScale \<noteq> tv_at_scale v then reset_topology_view (fst (wrap_view_box s)) (v\<lparr>tv_at_scale := atScale\<rparr>) else v);
          rows = (if atScale then topology_scale_rows ts gs else routes);
          slots = build_topology_peer_slots (config_peers cfg) rows in
      if rows = [] then s1\<lparr>sc_view := v1, sc_view_box := (780, 120), sc_html := empty_graph_html atScale\<rparr>
      else
        (let totalH = topology_total_height atScale slots rows;
             v2 = (if atScale then (let u = v1\<lparr>tv_content_h := of_int totalH\<rparr> in
                     u\<lparr>tv_pan_y := clamp_topology_pan_y (tv_pan_y u) (snd (wrap_view_box s)) u\<rparr>) else v1) in
         s1\<lparr>sc_view := v2, sc_view_box := (if atScale then wrap_view_box s else (780, of_int totalH)),
            sc_html := graph_html env now metrics atScale ts gs (length routes) (Some cfg) (Some st) active pings slots rows\<rparr>))"

definition redraw_topology :: "draw_env \<Rightarrow> int \<Rightarrow> bool \<Rightarrow> topology_screen \<Rightarrow> topology_screen" where
  "redraw_topology env now metrics s = (case tp_shown (sc_page s) of
     None \<Rightarrow> s
   | Some (cfg, st, active, pings) \<Rightarrow> render_topology_graph env now metrics cfg st active pings s)"

definition set_all_groups :: "bool \<Rightarrow> topology_group list \<Rightarrow> topology_state \<Rightarrow> topology_state" where
  "set_all_groups opened gs ts = fold (\<lambda>g. set_topology_group_expanded (tg_key g) opened) gs ts"

datatype topology_screen_event =
    TopologyRefresh
  | TopologyAnswer "string + json \<times> json" "(string \<Rightarrow> json option) option"
  | TopologyFilter string | GroupToggled string | AllGroups bool | CenterClicked
  | Gesture topology_gesture
  | Resized rat rat

definition topology_screen_step :: "draw_env \<Rightarrow> int \<Rightarrow> bool \<Rightarrow> topology_screen_event \<Rightarrow> topology_screen \<Rightarrow> topology_screen" where
  "topology_screen_step env now metrics e s = (case e of
     TopologyRefresh \<Rightarrow> (case topology_refresh_start (sc_page s) of None \<Rightarrow> s | Some p \<Rightarrow> s\<lparr>sc_page := p\<rparr>)
   | TopologyAnswer answer pings \<Rightarrow>
       (let s1 = s\<lparr>sc_page := topology_refresh_answer metrics answer pings (sc_page s)\<rparr> in
        case answer of
          Inl m \<Rightarrow> s1\<lparr>sc_api := (False, m)\<rparr>
        | Inr _ \<Rightarrow> (redraw_topology env now metrics s1)\<lparr>sc_api := (True, []), sc_loaded := True\<rparr>)
   | TopologyFilter q \<Rightarrow>
       redraw_topology env now metrics
         (s\<lparr>sc_filter_box := q, sc_state := topology_filter_input q (sc_state s), sc_view := (sc_view s)\<lparr>tv_pan_y := 0\<rparr>\<rparr>)
   | GroupToggled k \<Rightarrow>
       redraw_topology env now metrics
         (s\<lparr>sc_state := set_topology_group_expanded k (\<not> topology_group_expanded (sc_state s) k) (sc_state s)\<rparr>)
   | AllGroups opened \<Rightarrow>
       (case tp_shown (sc_page s) of
          None \<Rightarrow> s
        | Some (cfg, _) \<Rightarrow> redraw_topology env now metrics
            (s\<lparr>sc_state := set_all_groups opened (build_topology_groups (collate env) (ts_filter (sc_state s)) (config_peers cfg) (routes_of cfg))
                (sc_state s)\<rparr>))
   | CenterClicked \<Rightarrow> s\<lparr>sc_view := reset_topology_view (fst (wrap_view_box s)) (sc_view s)\<rparr>
   | Gesture g \<Rightarrow> s\<lparr>sc_view := topology_gesture_step (snd (wrap_view_box s)) g (sc_view s)\<rparr>
   | Resized w h \<Rightarrow>
       (let s1 = s\<lparr>sc_wrap := (w, h)\<rparr>; v = sc_view s in
        if \<not> tv_at_scale v then s1
        else s1\<lparr>sc_view_box := wrap_view_box s1,
               sc_view := v\<lparr>tv_pan_x := tv_pan_x v + (fst (wrap_view_box s1) - fst (sc_view_box s)) / 2,
                            tv_pan_y := clamp_topology_pan_y (tv_pan_y v) (snd (wrap_view_box s1)) v\<rparr>\<rparr>))"

section \<open>The diagram stays in reach\<close>

definition screen_ok :: "topology_screen \<Rightarrow> bool" where
  "screen_ok s \<longleftrightarrow> view_ok (snd (wrap_view_box s)) (sc_view s)"

lemma clamped_view: "\<lbrakk>TOPO_ZOOM_MIN \<le> tv_zoom v; tv_zoom v \<le> TOPO_ZOOM_MAX\<rbrakk> \<Longrightarrow>
    view_ok h (v\<lparr>tv_pan_x := x, tv_pan_y := clamp_topology_pan_y y h v\<rparr>)" "\<lbrakk>TOPO_ZOOM_MIN \<le> tv_zoom v; tv_zoom v \<le> TOPO_ZOOM_MAX\<rbrakk> \<Longrightarrow>
    view_ok h (v\<lparr>tv_pan_y := clamp_topology_pan_y y h v\<rparr>)"
  using clamped [where y = y and viewH = h and v = v] by (simp_all add: view_ok_def)

lemma reset_view_ok: "view_ok h (reset_topology_view w v)"
  by (simp add: view_ok_def reset_topology_view_def TOPO_ZOOM_MIN_def TOPO_ZOOM_MAX_def)

lemma drawn_wrap [simp]: "sc_wrap (render_topology_graph env now metrics cfg st active pings s) = sc_wrap s"
  by (simp add: render_topology_graph_def sync_topology_scale_controls_def Let_def)

lemma same_wrap: "sc_wrap t = sc_wrap s \<Longrightarrow> wrap_view_box t = wrap_view_box s"
  by (simp add: wrap_view_box_def)

lemma drawn_view:
  assumes "screen_ok s"
  shows "screen_ok (render_topology_graph env now metrics cfg st active pings s)"
proof -
  let ?vb = "wrap_view_box s"
  define atScale where "atScale \<longleftrightarrow> length (routes_of cfg) \<ge> TOPO_SCALE_ROUTES"
  define v1 where "v1 = (if atScale \<noteq> tv_at_scale (sc_view s) then reset_topology_view (fst ?vb) ((sc_view s)\<lparr>tv_at_scale := atScale\<rparr>) else sc_view s)"
  have v1: "view_ok (snd ?vb) v1" using assms by (simp add: v1_def screen_ok_def reset_view_ok)
  have sc: "tv_at_scale v1 = atScale" by (simp add: v1_def reset_topology_view_def)
  have "view_ok (snd ?vb) (let u = v1\<lparr>tv_content_h := c\<rparr> in u\<lparr>tv_pan_y := clamp_topology_pan_y (tv_pan_y u) (snd ?vb) u\<rparr>)" for c
    using v1 by (simp add: Let_def clamped_view(2) view_ok_def [of _ v1])
  with v1 have "\<exists>v. sc_view (render_topology_graph env now metrics cfg st active pings s) = v \<and> view_ok (snd ?vb) v"
    unfolding render_topology_graph_def Let_def atScale_def [symmetric] v1_def [symmetric] by (simp add: Let_def)
  then show ?thesis by (simp add: screen_ok_def same_wrap [OF drawn_wrap])
qed

lemma redrawn_view:
  assumes "screen_ok s"
  shows "screen_ok (redraw_topology env now metrics s)"
proof (cases "tp_shown (sc_page s)")
  case (Some x)
  obtain cfg st active pings where "x = (cfg, st, active, pings)" by (metis surj_pair)
  with Some show ?thesis using drawn_view [OF assms] by (simp add: redraw_topology_def)
qed (use assms in \<open>simp add: redraw_topology_def\<close>)

lemma wrap_updates [simp]:
  "wrap_view_box (s\<lparr>sc_view := v\<rparr>) = wrap_view_box s" "wrap_view_box (s\<lparr>sc_state := ts\<rparr>) = wrap_view_box s"
  "wrap_view_box (s\<lparr>sc_filter_box := q\<rparr>) = wrap_view_box s" "wrap_view_box (s\<lparr>sc_view_box := b\<rparr>) = wrap_view_box s"
  by (simp_all add: wrap_view_box_def)

lemma screen_ok_updates [simp]:
  "screen_ok (s\<lparr>sc_page := p\<rparr>) = screen_ok s" "screen_ok (s\<lparr>sc_state := ts\<rparr>) = screen_ok s" "screen_ok (s\<lparr>sc_api := a\<rparr>) = screen_ok s"
  "screen_ok (s\<lparr>sc_loaded := b\<rparr>) = screen_ok s" "screen_ok (s\<lparr>sc_filter_box := q\<rparr>) = screen_ok s"
  by (simp_all add: screen_ok_def wrap_view_box_def)

lemma screen_step_ok:
  assumes "screen_ok s"
  shows "screen_ok (topology_screen_step env now metrics e s)"
proof (cases e)
  case (TopologyAnswer answer pings)
  then show ?thesis using assms
    by (cases answer) (simp_all add: topology_screen_step_def redrawn_view)
next
  case (TopologyFilter q)
  have "view_ok (snd (wrap_view_box s)) ((sc_view s)\<lparr>tv_pan_y := 0\<rparr>)" using assms by (simp add: screen_ok_def view_ok_def)
  then have "screen_ok (s\<lparr>sc_filter_box := q, sc_state := ts, sc_view := (sc_view s)\<lparr>tv_pan_y := 0\<rparr>\<rparr>)" for ts
    by (simp add: screen_ok_def)
  from redrawn_view [OF this] show ?thesis by (simp add: TopologyFilter topology_screen_step_def)
next
  case (AllGroups b)
  show ?thesis
  proof (cases "tp_shown (sc_page s)")
    case (Some x)
    then show ?thesis using assms by (cases x) (simp add: AllGroups topology_screen_step_def redrawn_view)
  qed (use assms in \<open>simp add: AllGroups topology_screen_step_def\<close>)
next
  case CenterClicked
  then show ?thesis by (simp add: topology_screen_step_def screen_ok_def reset_view_ok)
next
  case (Gesture g)
  have "view_ok (snd (wrap_view_box s)) (topology_gesture_step (snd (wrap_view_box s)) g (sc_view s))"
    using gestures_keep_view [of "snd (wrap_view_box s)" "sc_view s" "[g]"] assms by (simp add: screen_ok_def)
  then show ?thesis by (simp add: Gesture topology_screen_step_def screen_ok_def)
next
  case (Resized w h)
  let ?s1 = "s\<lparr>sc_wrap := (w, h)\<rparr>"
  have z: "TOPO_ZOOM_MIN \<le> tv_zoom (sc_view s)" "tv_zoom (sc_view s) \<le> TOPO_ZOOM_MAX" using assms by (simp_all add: screen_ok_def view_ok_def)
  show ?thesis
    using clamped_view(1) [OF z] z by (simp add: Resized topology_screen_step_def screen_ok_def Let_def) (simp add: view_ok_def)
qed (use assms in \<open>simp_all add: topology_screen_step_def redrawn_view split: option.split\<close>)

text \<open>
  C26. Whatever reaches the topology page, in any order, the diagram stays in reach: refreshes that draw other routes, the filter
  and the groups that change its height, a change of the window's size, scrolling, zooming, dragging and the keyboard. The
  zoom keeps within its limits, and a large diagram is never moved past its top or its end.
\<close>

theorem topology_page_stays_in_reach:
  assumes "screen_ok s"
  shows "let t = fold (topology_screen_step env now metrics) es s; v = sc_view t; viewH = snd (wrap_view_box t) in
    TOPO_ZOOM_MIN \<le> tv_zoom v \<and> tv_zoom v \<le> TOPO_ZOOM_MAX \<and>
    (\<not> tv_at_scale v \<or> tv_pan_y v \<le> 0 \<and> min 0 (viewH - tv_content_h v * tv_zoom v) \<le> tv_pan_y v)"
proof -
  have "screen_ok (fold (topology_screen_step env now metrics) es s)"
    using assms by (induction es arbitrary: s) (simp_all add: screen_step_ok)
  then show ?thesis by (auto simp: screen_ok_def view_ok_def Let_def)
qed

definition toy_screen :: topology_screen where
  "toy_screen = \<lparr>sc_page = \<lparr>tp_in_flight = False, tp_prev_bytes = \<lambda>_. None, tp_last_pings = None, tp_shown = None, tp_msg = ([], False)\<rparr>,
     sc_state = \<lparr>ts_filter = [], ts_expanded = {}, ts_filter_collapsed = {}\<rparr>,
     sc_view = \<lparr>tv_pan_x = 0, tv_pan_y = 0, tv_zoom = 1, tv_at_scale = False, tv_content_h = 0, tv_drag = None\<rparr>, sc_wrap = (900, 500),
     sc_view_box = (0, 0), sc_html = [], sc_role = [], sc_controls_hidden = True, sc_filter_box = [], sc_summary = [], sc_api = (True, []),
     sc_loaded = False\<rparr>"

definition toy_env :: draw_env where
  "toy_env = \<lparr>num = (\<lambda>q. show_int \<lfloor>q\<rfloor>), measure_card = (\<lambda>s. of_nat (length s)), caret = (\<lambda>b. []), collate = (\<lambda>_ _. 0)\<rparr>"

lemma topology_page_stays_in_reach_witness:
  "tv_zoom (sc_view (fold (topology_screen_step toy_env 0 False)
     [TopologyRefresh, TopologyAnswer (Inr (JObj [], JObj [])) None, Gesture (WheelZoom 1 1 100), Resized 500 300] toy_screen)) \<le> TOPO_ZOOM_MAX"
proof -
  have "screen_ok toy_screen" by (simp add: screen_ok_def toy_screen_def view_ok_def TOPO_ZOOM_MIN_def TOPO_ZOOM_MAX_def)
  from topology_page_stays_in_reach [OF this, of toy_env 0 False
      "[TopologyRefresh, TopologyAnswer (Inr (JObj [], JObj [])) None, Gesture (WheelZoom 1 1 100), Resized 500 300]"]
  show ?thesis unfolding Let_def by blast
qed

section \<open>All groups at once\<close>

lemma set_groups_filter [simp]: "ts_filter (set_topology_group_expanded k b ts) = ts_filter ts" "ts_filter (set_all_groups b gs ts) = ts_filter ts"
proof -
  show one: "ts_filter (set_topology_group_expanded k b ts) = ts_filter ts" for k ts by (simp add: set_topology_group_expanded_def Let_def)
  show "ts_filter (set_all_groups b gs ts) = ts_filter ts"
    unfolding set_all_groups_def by (induction gs arbitrary: ts) (simp_all add: one)
qed

lemma set_group_expanded: "topology_group_expanded (set_topology_group_expanded k b ts) j = (if j = k then b else topology_group_expanded ts j)"
  by (auto simp: set_topology_group_expanded_def topology_group_expanded_def Let_def)

lemma set_all_expanded: "topology_group_expanded (set_all_groups b gs ts) j = (if j \<in> tg_key ` set gs then b else topology_group_expanded ts j)"
  unfolding set_all_groups_def by (induction gs arbitrary: ts) (auto simp: set_group_expanded)

text \<open>
  On a large config "Expand all" shows every route that the filter keeps, each once, and "Collapse all" one row for every peer
  that has such a route, with the number of them.
\<close>

theorem all_groups_at_once:
  "let gs = build_topology_groups collation (ts_filter ts) peers routes in
     mset (topology_scale_rows (set_all_groups True gs ts) gs) = mset (filter (route_kept peers (lower (trim (ts_filter ts)))) routes) \<and>
     map stand_in_count (topology_scale_rows (set_all_groups False gs ts) gs) = map (\<lambda>g. length (tg_routes g)) gs"
proof -
  let ?gs = "build_topology_groups collation (ts_filter ts) peers routes"
  have "topology_scale_rows (set_all_groups True ?gs ts) ?gs = concat (map tg_routes ?gs)"
    by (simp add: topology_scale_rows_def set_all_expanded cong: map_cong)
  moreover have "topology_scale_rows (set_all_groups False ?gs ts) ?gs = map stand_in ?gs"
  proof -
    have "topology_scale_rows (set_all_groups False ?gs ts) ?gs = concat (map (\<lambda>g. [stand_in g]) ?gs)"
      unfolding topology_scale_rows_def by (rule arg_cong [where f = concat], rule map_cong [OF refl]) (simp add: set_all_expanded)
    then show ?thesis by simp
  qed
  moreover have "stand_in_count (stand_in g) = length (tg_routes g)" for g by (simp add: stand_in_count_def stand_in_def)
  ultimately show ?thesis
    using topology_groups_hold_each_route_once [where collate = collation and flt = "ts_filter ts" and peers = peers and routes = routes]
    by (simp add: Let_def)
qed

section \<open>Markup\<close>

text \<open>What peers and the config say becomes text only: a card's tags do not depend on it.\<close>

lemma peer_card_markup:
  assumes "snd (topology_peer_ping_parts metrics pings (sl_peer sl)) = [] \<longleftrightarrow> snd (topology_peer_ping_parts metrics' pings' (sl_peer sl')) = []"
  shows "markup (peer_card_html now metrics pings st t sl) = markup (peer_card_html now' metrics' pings' st' t sl')"
proof -
  have cls: "markup (if b then '' topology-node--outline-on'' else []) = []" for b by (simp add: markup_eval)
  obtain p q where l: "topology_peer_ping_parts metrics pings (sl_peer sl) = (p, q)" by fastforce
  obtain p' q' where r: "topology_peer_ping_parts metrics' pings' (sl_peer sl') = (p', q')" by fastforce
  have title: "markup (if q \<noteq> [] then '' title=\"'' @ escape_html q @ ''\"'' else []) = markup (if q' \<noteq> [] then '' title=\"'' @ escape_html q' @ ''\"'' else [])"
    using assms by (simp only: l r snd_conv markup_append markup_escape split: if_split) simp
  show ?thesis unfolding peer_card_html_def l r prod.case slot_aria_def
    by (simp only: markup_append markup_escape cls title append_Nil)
qed

lemma toggle_markup:
  assumes "\<And>b. markup (caret env b) = []"
  shows "markup (group_toggle_html env s gs sl) = markup (group_toggle_html env s' gs' sl')"
proof -
  have b: "markup (if b then ''true'' else ''false'') = []" for b by (simp add: markup_eval)
  show ?thesis by (simp only: group_toggle_html_def group_toggle_label_def Let_def markup_append markup_escape b assms)
qed

end
