(* ===== verification/Base64.thy ===== *)
theory Base64
  imports Onboarding
begin

text \<open>
  Bytes as text in \<open>pages/peers.js\<close>: base64 by the browser's \<open>btoa\<close> and \<open>atob\<close>, the URL alphabet of a JSON Web
  Key, hexadecimal, and the key pair and bundle that arrive as such text. A byte is an 8-bit word; \<open>None\<close>
  is the exception that \<open>atob\<close> throws.
\<close>

section \<open>The browser's base64\<close>

definition b64_char :: "nat \<Rightarrow> char" where
  "b64_char n = (if n < 26 then char_of (65 + n) else if n < 52 then char_of (71 + n)
     else if n < 62 then char_of (n - 4) else if n = 62 then CHR ''+'' else CHR ''/'')"

definition b64_val :: "char \<Rightarrow> nat option" where
  "b64_val c = (let n = of_char c :: nat in
     if 65 \<le> n \<and> n \<le> 90 then Some (n - 65) else if 97 \<le> n \<and> n \<le> 122 then Some (n - 71)
     else if 48 \<le> n \<and> n \<le> 57 then Some (n + 4) else if c = CHR ''+'' then Some 62 else if c = CHR ''/'' then Some 63 else None)"

fun encode64 :: "nat list \<Rightarrow> string" where
  "encode64 (a # b # c # xs) =
     [b64_char (a div 4), b64_char (a mod 4 * 16 + b div 16), b64_char (b mod 16 * 4 + c div 64), b64_char (c mod 64)] @ encode64 xs"
| "encode64 [a, b] = [b64_char (a div 4), b64_char (a mod 4 * 16 + b div 16), b64_char (b mod 16 * 4), CHR ''='']"
| "encode64 [a] = [b64_char (a div 4), b64_char (a mod 4 * 16), CHR ''='', CHR ''='']"
| "encode64 [] = []"

text \<open>Bits left over at the end are dropped.\<close>

fun decode64 :: "nat list \<Rightarrow> nat list" where
  "decode64 (a # b # c # d # xs) = [a * 4 + b div 16, b mod 16 * 16 + c div 4, c mod 4 * 64 + d] @ decode64 xs"
| "decode64 [a, b, c] = [a * 4 + b div 16, b mod 16 * 16 + c div 4]"
| "decode64 [a, b] = [a * 4 + b div 16]"
| "decode64 _ = []"

definition btoa :: "string \<Rightarrow> string" where
  "btoa s = encode64 (map of_char s)"

definition b64_ws :: "char \<Rightarrow> bool" where
  "b64_ws c \<longleftrightarrow> (of_char c :: nat) \<in> {9, 10, 12, 13, 32}"

text \<open>\<open>s\<close> without the one or two \<open>=\<close> that fill its last group of four.\<close>

definition unpad :: "string \<Rightarrow> string" where
  "unpad s = (if length s mod 4 \<noteq> 0 then s
     else if suffix ''=='' s then take (length s - 2) s
     else if suffix ''='' s then take (length s - 1) s else s)"

definition atob :: "string \<Rightarrow> string option" where
  "atob text =
     (let s = unpad (filter (\<lambda>c. \<not> b64_ws c) text) in
      if length s mod 4 = 1 then None
      else if list_ex (\<lambda>c. b64_val c = None) s then None
      else Some (map char_of (decode64 (map (\<lambda>c. the (b64_val c)) s))))"

section \<open>What the page does with it\<close>

definition u8_to_b64 :: "bytes \<Rightarrow> string" where
  "u8_to_b64 u8 = btoa (map (\<lambda>w. char_of (unat w)) u8)"

definition b64_to_u8 :: "string \<Rightarrow> bytes option" where
  "b64_to_u8 b64 = map_option (map (\<lambda>c. word_of_nat (of_char c))) (atob b64)"

definition base64_url_to_bytes :: "string \<Rightarrow> bytes option" where
  "base64_url_to_bytes b64url =
     (let s = replace_char (CHR ''_'') ''/'' (replace_char (CHR ''-'') ''+'' b64url); pad = length s mod 4 in
      b64_to_u8 (if pad \<noteq> 0 then s @ take (4 - pad) ''===='' else s))"

text \<open>\<open>u[i].toString(16).padStart(2, "0")\<close>\<close>

definition hex_digit :: "nat \<Rightarrow> char" where
  "hex_digit n = (if n < 10 then digit_char n else char_of (87 + n))"

definition byte_hex :: "8 word \<Rightarrow> string" where
  "byte_hex w = [hex_digit (unat w div 16), hex_digit (unat w mod 16)]"

definition random_unlock_passphrase_hex :: "bytes \<Rightarrow> string" where
  "random_unlock_passphrase_hex u = concat (map byte_hex u)"

text \<open>
  A key pair made in the browser: \<open>d\<close> is the private key of the exported JWK, \<open>pubRaw\<close> the exported public
  key; a failed \<open>atob\<close> is an error like the others.
\<close>

definition generate_peer_keypair_browser :: "string \<Rightarrow> bool \<Rightarrow> string option \<Rightarrow> bytes \<Rightarrow> string + string \<times> string" where
  "generate_peer_keypair_browser atobError canGenerate d pubRaw =
     (if \<not> canGenerate then Inl ''Web Crypto not available (use HTTPS or a modern browser).''
      else (case d of
          None \<Rightarrow> Inl ''Could not export X25519 private key (JWK).''
        | Some t \<Rightarrow>
            if t = [] then Inl ''Could not export X25519 private key (JWK).''
            else (case base64_url_to_bytes t of
                None \<Rightarrow> Inl atobError
              | Some privRaw \<Rightarrow>
                  if length privRaw \<noteq> 32 \<or> length pubRaw \<noteq> 32 then Inl ''Unexpected X25519 key length.''
                  else Inr (u8_to_b64 privRaw, u8_to_b64 pubRaw))))"

text \<open>Over plain HTTP the API makes the pair; its answer is an error or a body.\<close>

definition generate_peer_keypair :: "(string + string \<times> string) option \<Rightarrow> string + json \<Rightarrow> string + string \<times> string" where
  "generate_peer_keypair browser answer = (case browser of
     Some r \<Rightarrow> r
   | None \<Rightarrow> (case answer of
        Inl e \<Rightarrow> Inl e
      | Inr reply \<Rightarrow>
          if \<not> truthy (member_json reply ''private_key'') \<or> \<not> truthy (member_json reply ''public_key'')
          then Inl ''API key generation returned an incomplete response.''
          else Inr (str_or_empty (member_json reply ''private_key''), str_or_empty (member_json reply ''public_key''))))"

text \<open>The request that has the API seal the bundle, and the bundle's bytes, wherever it was sealed.\<close>

definition onboard_bundle_request :: "string \<Rightarrow> wg_params \<Rightarrow> json" where
  "onboard_bundle_request passphrase r = JObj
    [(''passphrase'', JStr passphrase), (''peer_private_key'', JStr (wg_priv r)), (''peer_tunnel_address'', JStr (wg_tip r)),
     (''server_public_key'', JStr (wg_server_key r)), (''endpoint'', JStr (wg_endpoint r)), (''allowed_ips'', JStr (wg_subnet r)),
     (''interface_name'', JStr ''evuproxy'')]"

definition peer_bundle_bytes :: "string \<Rightarrow> (string + bytes) option \<Rightarrow> string + json \<Rightarrow> string + bytes" where
  "peer_bundle_bytes atobError browser answer = (case browser of
     Some r \<Rightarrow> r
   | None \<Rightarrow> (case answer of
        Inl e \<Rightarrow> Inl e
      | Inr reply \<Rightarrow>
          if \<not> truthy (member_json reply ''blob_base64'') then Inl ''API onboard bundle returned an incomplete response.''
          else (case b64_to_u8 (str_or_empty (member_json reply ''blob_base64'')) of None \<Rightarrow> Inl atobError | Some b \<Rightarrow> Inr b)))"

section \<open>Reading back\<close>

lemma of_b64_char: "n < 64 \<Longrightarrow> (of_char (b64_char n) :: nat) =
    (if n < 26 then 65 + n else if n < 52 then 71 + n else if n < 62 then n - 4 else if n = 62 then 43 else 47)"
  by (auto simp: b64_char_def of_char_of)

lemma b64_val_char: "n < 64 \<Longrightarrow> b64_val (b64_char n) = Some n"
proof -
  assume n: "n < 64"
  have "b64_char 62 = CHR ''+''" "b64_char 63 = CHR ''/''" by (simp_all add: b64_char_def)
  moreover have "n < 62 \<or> n = 62 \<or> n = 63" using n by linarith
  ultimately show ?thesis using of_b64_char [OF n] by (auto simp: b64_val_def Let_def)
qed

lemma b64_char_plain: "n < 64 \<Longrightarrow> \<not> b64_ws (b64_char n) \<and> b64_char n \<noteq> CHR ''=''"
proof -
  assume n: "n < 64"
  have "(of_char (b64_char n) :: nat) \<noteq> 61" using of_b64_char [OF n] n by auto
  then have "(of_char (b64_char n) :: nat) \<noteq> of_char (CHR ''='')" by simp
  moreover have "\<not> b64_ws (b64_char n)" using of_b64_char [OF n] n by (auto simp: b64_ws_def)
  ultimately show ?thesis by metis
qed

text \<open>The digits of a text of bytes, without the filling.\<close>

fun digits64 :: "nat list \<Rightarrow> nat list" where
  "digits64 (a # b # c # xs) = [a div 4, a mod 4 * 16 + b div 16, b mod 16 * 4 + c div 64, c mod 64] @ digits64 xs"
| "digits64 [a, b] = [a div 4, a mod 4 * 16 + b div 16, b mod 16 * 4]"
| "digits64 [a] = [a div 4, a mod 4 * 16]"
| "digits64 [] = []"

definition filling :: "nat \<Rightarrow> string" where
  "filling n = (if n mod 3 = 1 then ''=='' else if n mod 3 = 2 then ''='' else [])"

lemma encode64_digits: "encode64 xs = map b64_char (digits64 xs) @ filling (length xs)"
  by (induction xs rule: encode64.induct) (simp_all add: filling_def)

lemma digits64_small: "list_all (\<lambda>x. x < 256) xs \<Longrightarrow> list_all (\<lambda>d. d < 64) (digits64 xs)"
  by (induction xs rule: digits64.induct) auto

lemma digits64_length: "length (digits64 xs) mod 4 = (if length xs mod 3 = 0 then 0 else Suc (length xs mod 3))"
  by (induction xs rule: digits64.induct) (auto simp: mod_Suc)

lemma decode_digits64: "list_all (\<lambda>x. x < 256) xs \<Longrightarrow> decode64 (digits64 xs) = xs"
proof (induction xs rule: digits64.induct)
  case (1 a b c xs)
  have "a mod 4 * 16 + b div 16 < 64" "(a mod 4 * 16 + b div 16) div 16 = a mod 4" "(a mod 4 * 16 + b div 16) mod 16 = b div 16"
    "(b mod 16 * 4 + c div 64) div 4 = b mod 16" "(b mod 16 * 4 + c div 64) mod 4 = c div 64"
    using 1 by auto
  with 1 show ?case by (simp add: div_mult_mod_eq mult.commute)
next
  case (2 a b)
  have "(a mod 4 * 16 + b div 16) div 16 = a mod 4" "(a mod 4 * 16 + b div 16) mod 16 = b div 16" using 2 by auto
  then show ?case by simp
qed simp_all

lemma decode_encoded:
  assumes "list_all (\<lambda>x. x < 256) xs"
  shows "atob (map b64_char (digits64 xs) @ filling (length xs)) = Some (map char_of xs)"
proof -
  let ?d = "map b64_char (digits64 xs)"
  note small = digits64_small [OF assms] and len = digits64_length [of xs]
  have plain: "\<not> b64_ws c \<and> c \<noteq> CHR ''=''" if "c \<in> set ?d" for c
    using that small b64_char_plain by (auto simp: list_all_iff)
  have keep: "filter (\<lambda>c. \<not> b64_ws c) (?d @ filling (length xs)) = ?d @ filling (length xs)"
    using plain by (auto simp: filter_id_conv filling_def b64_ws_def)
  define d where "d = ?d"
  have nd: "CHR ''='' \<notin> set d" using plain unfolding d_def by blast
  have "\<not> suffix ''='' d" "\<not> suffix ''=='' d" using nd by (auto simp: suffix_def)
  moreover have "\<not> suffix ''=='' (d @ ''='')"
  proof
    assume "suffix ''=='' (d @ ''='')"
    then obtain u where "d @ ''='' = u @ ''==''" by (auto simp: suffix_def)
    then have "d = u @ ''=''" using append_same_eq [of d "''=''" "u @ ''=''"] by simp
    with nd show False by simp
  qed
  moreover have "length xs mod 3 < 3" by simp
  then have "length xs mod 3 = 0 \<or> length xs mod 3 = 1 \<or> length xs mod 3 = 2" by linarith
  ultimately have un: "unpad (?d @ filling (length xs)) = ?d"
    using len suffixI [of "d @ ''==''" d "''==''"] suffixI [of "d @ ''=''" d "''=''"] unfolding d_def by (auto simp: unpad_def filling_def mod_Suc)
  have val: "map (\<lambda>c. the (b64_val c)) ?d = digits64 xs"
    using small b64_val_char by (auto simp: list_all_iff intro: map_idI)
  have ok: "\<not> list_ex (\<lambda>c. b64_val c = None) ?d" using small b64_val_char by (auto simp: list_all_iff list_ex_iff)
  have "length ?d mod 4 \<noteq> 1" using len by simp
  then show ?thesis unfolding atob_def Let_def keep un val decode_digits64 [OF assms] using ok by simp
qed

lemma unat_byte: "unat (w :: 8 word) < 256"
  using unsigned_less [of w] by simp

lemma bytes_below: "list_all (\<lambda>x. x < 256) (map unat (bs :: bytes))"
  by (simp add: list_all_iff unat_byte)

lemma u8_to_b64_digits: "u8_to_b64 bs = map b64_char (digits64 (map unat bs)) @ filling (length bs)"
proof -
  have "map (of_char \<circ> (\<lambda>w :: 8 word. char_of (unat w))) bs = map unat bs"
    using bytes_below [of bs] by (auto simp: list_all_iff of_char_of comp_def)
  then show ?thesis by (simp only: u8_to_b64_def btoa_def encode64_digits map_map length_map)
qed

lemma bytes_of_chars: "map (\<lambda>c. word_of_nat (of_char c)) (map char_of (map unat (bs :: bytes))) = bs"
  using bytes_below [of bs] by (auto simp: list_all_iff of_char_of intro: map_idI)

text \<open>
  The bytes of a bundle survive their way through the command line's text: \<open>b64ToU8\<close> reads back what
  \<open>u8ToB64\<close> wrote, whatever the bytes.
\<close>

theorem base64_roundtrip: "b64_to_u8 (u8_to_b64 bs) = Some bs"
  using decode_encoded [OF bytes_below, of bs] bytes_of_chars [of bs]
  by (simp add: b64_to_u8_def u8_to_b64_digits del: map_map)

text \<open>A JSON Web Key's text of bytes: the URL alphabet, without filling.\<close>

definition base64_url :: "bytes \<Rightarrow> string" where
  "base64_url bs = map (\<lambda>c. if c = CHR ''+'' then CHR ''-'' else if c = CHR ''/'' then CHR ''_'' else c) (filter (\<lambda>c. c \<noteq> CHR ''='') (u8_to_b64 bs))"

lemma b64_char_not_url: "n < 64 \<Longrightarrow> b64_char n \<noteq> CHR ''-'' \<and> b64_char n \<noteq> CHR ''_''"
proof -
  assume n: "n < 64"
  have "(of_char (b64_char n) :: nat) \<noteq> 45" "(of_char (b64_char n) :: nat) \<noteq> 95" using of_b64_char [OF n] n by auto
  then have "(of_char (b64_char n) :: nat) \<noteq> of_char (CHR ''-'')" "(of_char (b64_char n) :: nat) \<noteq> of_char (CHR ''_'')" by simp_all
  then show ?thesis by metis
qed

lemma url_alphabet_back:
  assumes "\<forall>c \<in> set t. c \<noteq> CHR ''-'' \<and> c \<noteq> CHR ''_''"
  shows "replace_char (CHR ''_'') ''/'' (replace_char (CHR ''-'') ''+''
     (map (\<lambda>c. if c = CHR ''+'' then CHR ''-'' else if c = CHR ''/'' then CHR ''_'' else c) t)) = t"
  using assms by (induction t) (auto simp: replace_char_def)

text \<open>
  The private key exported in the URL alphabet without filling is read as its bytes.
\<close>

theorem base64_url_roundtrip: "base64_url_to_bytes (base64_url bs) = Some bs"
proof -
  let ?d = "map b64_char (digits64 (map unat bs))"
  have small: "\<forall>n \<in> set (digits64 (map unat bs)). n < 64" using digits64_small [OF bytes_below] by (simp add: list_all_iff)
  have "filter (\<lambda>c. c \<noteq> CHR ''='') ?d = ?d" using small b64_char_plain by (auto simp: filter_id_conv)
  then have "filter (\<lambda>c. c \<noteq> CHR ''='') (u8_to_b64 bs) = ?d" by (simp add: u8_to_b64_digits filling_def)
  moreover have "\<forall>c \<in> set ?d. c \<noteq> CHR ''-'' \<and> c \<noteq> CHR ''_''" using small b64_char_not_url by auto
  ultimately have read: "replace_char (CHR ''_'') ''/'' (replace_char (CHR ''-'') ''+'' (base64_url bs)) = ?d"
    by (simp add: base64_url_def url_alphabet_back del: map_map)
  have len: "length ?d mod 4 = (if length bs mod 3 = 0 then 0 else Suc (length bs mod 3))"
    using digits64_length [of "map unat bs"] by simp
  have "length bs mod 3 < 3" by simp
  then have "length bs mod 3 = 0 \<or> length bs mod 3 = 1 \<or> length bs mod 3 = 2" by linarith
  then have "(if length ?d mod 4 \<noteq> 0 then ?d @ take (4 - length ?d mod 4) ''===='' else ?d) = u8_to_b64 bs"
    unfolding len u8_to_b64_digits by (auto simp: filling_def)
  then show ?thesis using base64_roundtrip [of bs] by (simp add: base64_url_to_bytes_def read Let_def)
qed

text \<open>So a key pair made in the browser is the exported one, in the alphabet that WireGuard reads.\<close>

lemma browser_keypair:
  assumes "length priv = 32" "length pub = 32"
  shows "generate_peer_keypair_browser e True (Some (base64_url priv)) pub = Inr (u8_to_b64 priv, u8_to_b64 pub)"
proof -
  have "base64_url_to_bytes [] = Some []"
    unfolding base64_url_to_bytes_def b64_to_u8_def atob_def unpad_def replace_char_def Let_def by simp
  then have "base64_url priv \<noteq> []"
    using base64_url_roundtrip [of priv] assms(1) by (metis length_0_conv option.inject zero_neq_numeral)
  then show ?thesis
    unfolding generate_peer_keypair_browser_def base64_url_roundtrip option.case using assms by simp
qed

text \<open>The API's bundle is used as it was sent, and a passphrase has two hexadecimal digits for each of its bytes.\<close>

lemma api_bundle_read:
  "member_json reply ''blob_base64'' = Some (JStr (u8_to_b64 bs)) \<Longrightarrow> u8_to_b64 bs \<noteq> [] \<Longrightarrow> peer_bundle_bytes e None (Inr reply) = Inr bs"
  by (simp add: peer_bundle_bytes_def base64_roundtrip truthy_def)

lemma hex_digit_inj: "m < 16 \<Longrightarrow> n < 16 \<Longrightarrow> hex_digit m = hex_digit n \<Longrightarrow> m = n"
proof -
  have digit: "(of_char (hex_digit k) :: nat) = (if k < 10 then 48 + k else 87 + k)" if "k < 16" for k
    using that by (simp add: hex_digit_def digit_char_def of_char_of)
  assume mn: "m < 16" "n < 16" "hex_digit m = hex_digit n"
  then have "(if m < 10 then 48 + m else 87 + m) = (if n < 10 then 48 + n else 87 + n)"
    using digit [OF mn(1)] digit [OF mn(2)] by simp
  then show "m = n" using mn(1,2) by (simp split: if_splits)
qed

lemma byte_hex_inj: "byte_hex v = byte_hex w \<Longrightarrow> v = w"
proof -
  assume e: "byte_hex v = byte_hex w"
  have lt: "unat v div 16 < 16" "unat w div 16 < 16" using unat_byte [of v] unat_byte [of w] by auto
  have "unat v div 16 = unat w div 16" "unat v mod 16 = unat w mod 16"
    using e lt by (auto simp: byte_hex_def intro: hex_digit_inj)
  then have "unat v = unat w" by (metis div_mult_mod_eq)
  then show ?thesis by (rule unsigned_word_eqI)
qed

text \<open>No two draws share a passphrase.\<close>

theorem passphrases_differ: "random_unlock_passphrase_hex u = random_unlock_passphrase_hex v \<longleftrightarrow> u = v"
proof
  show "random_unlock_passphrase_hex u = random_unlock_passphrase_hex v \<Longrightarrow> u = v"
  proof (induction u arbitrary: v)
    case Nil
    then show ?case by (cases v) (simp_all add: random_unlock_passphrase_hex_def byte_hex_def)
  next
    case (Cons a u)
    then obtain b v' where v: "v = b # v'" by (cases v) (auto simp: random_unlock_passphrase_hex_def byte_hex_def)
    have "byte_hex a @ random_unlock_passphrase_hex u = byte_hex b @ random_unlock_passphrase_hex v'"
      using Cons.prems v by (simp add: random_unlock_passphrase_hex_def)
    moreover have "length (byte_hex a) = length (byte_hex b)" by (simp add: byte_hex_def)
    ultimately show ?case using Cons.IH [of v'] byte_hex_inj [of a b] v by simp
  qed
qed simp

end
