(* ===== verification/Peer_Editor.thy ===== *)
theory Peer_Editor
  imports Inbound Base64 Dirty
begin

text \<open>
  \<open>pages/peers.js\<close>: the peer editor. First its form, from a peer to the controls and back into the config;
  then the dialog as a machine over clicks, timers and answers: the key pair generated for a new peer, the
  overview read for it, and the encrypted bundle that is rebuilt as the form changes.
\<close>

section \<open>The form\<close>

record peer_form =
  pf_index :: "nat option"
  pf_base :: string
  pf_name :: string
  pf_tunnel :: string
  pf_pub :: string
  pf_enabled :: bool
  pf_endpoint :: string
  pf_priv :: string

definition peers_or_none :: "json \<Rightarrow> json list option" where
  "peers_or_none c = list_of (member_json c ''peers'')"

definition peer_at :: "json \<Rightarrow> nat \<Rightarrow> json option" where
  "peer_at cfg i = (if i < length (config_peers cfg) \<and> truthy (Some (config_peers cfg ! i)) then Some (config_peers cfg ! i) else None)"

definition server_endpoint_display :: "ui_prefs \<Rightarrow> string" where
  "server_endpoint_display prefs = trim (wireguard_server_endpoint prefs)"

definition edit_peer_form :: "ui_prefs \<Rightarrow> nat \<Rightarrow> json \<Rightarrow> peer_form" where
  "edit_peer_form prefs i p =
     \<lparr>pf_index = Some i, pf_base = stringify p, pf_name = str_or_empty (member_json p ''name''),
      pf_tunnel = str_or_empty (member_json p ''tunnel_ip''), pf_pub = str_or_empty (member_json p ''public_key''),
      pf_enabled = (\<not> truthy (member_json p ''disabled'')), pf_endpoint = server_endpoint_display prefs, pf_priv = []\<rparr>"

text \<open>The base of an earlier edit stays while a peer is added; it is not looked at then.\<close>

definition add_peer_form :: "ui_prefs \<Rightarrow> json \<Rightarrow> peer_form \<Rightarrow> peer_form" where
  "add_peer_form prefs cfg f =
     f\<lparr>pf_index := None, pf_name := [], pf_tunnel := suggested_peer_tunnel_ip prefs cfg, pf_pub := [], pf_enabled := True,
       pf_endpoint := server_endpoint_display prefs, pf_priv := []\<rparr>"

definition peer_entry :: "peer_form \<Rightarrow> json" where
  "peer_entry f = JObj
    [(''name'', JStr (trim (pf_name f))), (''tunnel_ip'', JStr (trim (pf_tunnel f))), (''public_key'', JStr (trim (pf_pub f))),
     (''disabled'', JBool (\<not> pf_enabled f))]"

text \<open>The first field left empty, with its message.\<close>

definition peer_missing :: "peer_form \<Rightarrow> (string \<times> string) option" where
  "peer_missing f = map_option snd (find (\<lambda>(v, _). v = [])
     [(trim (pf_name f), (''peer-f-name'', ''Name is required.'')),
      (trim (pf_tunnel f), (''peer-f-tunnel'', ''Tunnel IP is required.'')),
      (trim (pf_pub f), (''peer-f-pub'', ''Public key is required.''))])"

definition save_peer_edit :: "nat option \<Rightarrow> string \<Rightarrow> json \<Rightarrow> edit" where
  "save_peer_edit index base entry c =
     (case index of
        None \<Rightarrow> Inr (True, with_peers c (config_peers c @ [entry]))
      | Some i \<Rightarrow>
          (case find_config_row (Some (config_peers c)) (int i) base stringify ''peer'' of
             Inl e \<Rightarrow> Inl e
           | Inr j \<Rightarrow> Inr (True, with_peers c ((config_peers c)[j := entry]))))"

text \<open>A click on Save: the field to mark and its message, or the edit to save.\<close>

definition save_peer_editor :: "peer_form \<Rightarrow> (string \<times> string) + edit" where
  "save_peer_editor f = (case peer_missing f of
     Some m \<Rightarrow> Inl m
   | None \<Rightarrow> Inr (save_peer_edit (pf_index f) (pf_base f) (peer_entry f)))"

definition peer_saved_toast :: "peer_form \<Rightarrow> string" where
  "peer_saved_toast f = (if pf_index f = None then ''Peer added.'' else ''Peer saved.'')"

text \<open>What the editor says when the save fails: after a merge failure the values are still in the form.\<close>

definition KEEP_YOUR_VALUES :: string where
  "KEEP_YOUR_VALUES = '' Your values are still in this form: note them, press Cancel, and edit the latest version.''"

definition peer_save_failed :: "(api_error \<Rightarrow> string) \<Rightarrow> save_error \<Rightarrow> string" where
  "peer_save_failed say e = (case e of MergeError m \<Rightarrow> m @ KEEP_YOUR_VALUES | ApiError a \<Rightarrow> say a)"

section \<open>What saving does\<close>

lemma with_peers_read [simp]:
  "peers_or_none (with_peers c ps) = Some ps" "config_peers (with_peers c ps) = ps"
  "k \<noteq> ''peers'' \<Longrightarrow> member_json (with_peers c ps) k = member_json c k"
  by (simp_all add: peers_or_none_def config_peers_def with_peers_def list_of_def rows_or_none_def)

interpretation peers: editable_rows peers_or_none with_peers config_peers with_peers
proof
  fix c rs xs ys
  assume c: "peers_or_none c = Some rs"
  then show "with_peers c rs = c"
    by (cases c) (auto simp: peers_or_none_def with_peers_def list_of_def with_key_def put_key_same split: option.splits json.splits)
  show "config_peers c = rs" using c by (simp add: peers_or_none_def config_peers_def rows_or_none_def)
  show "with_peers (with_peers c xs) ys = with_peers c ys"
    by (cases c) (simp_all add: with_peers_def with_key_def put_key_twice)
qed simp_all

text \<open>
  Saving the peer editor replaces one row, and only if it is still the peer that was opened: whatever the
  config has become, a row equal to that peer is replaced by the form's entry and all else stays, or nothing
  is saved. A new peer is added at the end.
\<close>

theorem peer_save_replaces_the_row_as_opened:
  assumes "case index of None \<Rightarrow> f = add_peer_form prefs cfg g | Some i \<Rightarrow> peer_at cfg i = Some p \<and> f = edit_peer_form prefs i p"
  shows "case index of
     None \<Rightarrow> \<exists>c'. save_peer_edit (pf_index f) (pf_base f) entry c = Inr (True, c') \<and> config_peers c' = config_peers c @ [entry] \<and>
        (\<forall>k. k \<noteq> ''peers'' \<longrightarrow> member_json c' k = member_json c k)
   | Some i \<Rightarrow> (case save_peer_edit (pf_index f) (pf_base f) entry c of
        Inl _ \<Rightarrow> i < length (config_peers c) \<longrightarrow> config_peers c ! i \<noteq> p
      | Inr (changed, c') \<Rightarrow> changed \<and> (\<exists>j < length (config_peers c). config_peers c ! j = p \<and>
          config_peers c' = (config_peers c)[j := entry]) \<and> (\<forall>k. k \<noteq> ''peers'' \<longrightarrow> member_json c' k = member_json c k))"
proof (cases index)
  case None
  then show ?thesis using assms by (simp add: add_peer_form_def save_peer_edit_def)
next
  case (Some i)
  then have p: "peer_at cfg i = Some p" "pf_index f = Some i" "pf_base f = stringify p" using assms by (simp_all add: edit_peer_form_def)
  have nn: "p \<noteq> JNull" using p(1) by (auto simp: peer_at_def truthy_def split: if_splits)
  show ?thesis
  proof (cases "find_config_row (Some (config_peers c)) (int i) (stringify p) stringify ''peer''")
    case (Inl e)
    then have "i < length (config_peers c) \<longrightarrow> config_peers c ! i \<noteq> p"
      using nn find_config_row_hit [of i "config_peers c" stringify "stringify p" "''peer''"] by auto
    with Some p Inl show ?thesis by (simp add: save_peer_edit_def)
  next
    case (Inr j)
    then have "j < length (config_peers c)" "config_peers c ! j = p" using find_config_row_found [OF Inr] by auto
    with Some p Inr show ?thesis by (auto simp: save_peer_edit_def)
  qed
qed

definition toy_peer :: json where
  "toy_peer = JObj [(''name'', JStr ''nas''), (''tunnel_ip'', JStr ''10.9.0.2/32''), (''public_key'', JStr ''k1''), (''disabled'', JBool False)]"

lemma peer_save_replaces_the_row_as_opened_witness:
  "\<exists>c'. save_peer_edit (Some 0) (stringify toy_peer) JNull (JObj [(''peers'', JArr [toy_peer])]) = Inr (True, c') \<and> config_peers c' = [JNull]"
proof -
  let ?c = "JObj [(''peers'', JArr [toy_peer])]"
  have rows: "config_peers ?c = [toy_peer]" "peer_at ?c 0 = Some toy_peer"
    by (simp_all add: config_peers_def rows_or_none_def list_of_def peer_at_def toy_peer_def truthy_def)
  have "find_config_row (Some [toy_peer]) (int 0) (stringify toy_peer) stringify ''peer'' = Inr 0"
    by (rule find_config_row_hit) (simp_all add: toy_peer_def)
  then obtain c' where "save_peer_edit (Some 0) (stringify toy_peer) JNull ?c = Inr (True, c')" by (simp add: save_peer_edit_def rows)
  with peer_save_replaces_the_row_as_opened [where index = "Some 0" and f = "edit_peer_form no_prefs 0 toy_peer" and prefs = no_prefs
      and cfg = ?c and p = toy_peer and entry = JNull and c = ?c] rows
  show ?thesis by (auto simp: edit_peer_form_def)
qed

text \<open>A peer as the API writes it: the three texts are there and trimmed.\<close>

definition plain_peer :: "json \<Rightarrow> bool" where
  "plain_peer p \<longleftrightarrow> (\<forall>k. k \<notin> {''name'', ''tunnel_ip'', ''public_key'', ''disabled''} \<longrightarrow> member_json p k = None) \<and>
     (\<forall>k \<in> {''name'', ''tunnel_ip'', ''public_key''}. \<exists>t. member_json p k = Some (JStr t) \<and> t \<noteq> [] \<and> trim t = t)"

text \<open>
  Opening a peer and saving it as it is passes every check and writes the same members; it stays switched on
  or off.
\<close>

theorem untouched_peer_is_saved_as_it_was:
  assumes "plain_peer p" "f = edit_peer_form prefs i p"
  shows "save_peer_editor f = Inr (save_peer_edit (Some i) (stringify p) (peer_entry f)) \<and>
    (\<forall>k. k \<noteq> ''disabled'' \<longrightarrow> member_json (peer_entry f) k = member_json p k) \<and>
    truthy (member_json (peer_entry f) ''disabled'') = truthy (member_json p ''disabled'')"
proof -
  obtain n t k where m: "member_json p ''name'' = Some (JStr n)" "member_json p ''tunnel_ip'' = Some (JStr t)"
      "member_json p ''public_key'' = Some (JStr k)" and ok: "n \<noteq> []" "trim n = n" "t \<noteq> []" "trim t = t" "k \<noteq> []" "trim k = k"
    using assms(1) unfolding plain_peer_def by auto
  have f: "pf_index f = Some i" "pf_base f = stringify p" "pf_name f = n" "pf_tunnel f = t" "pf_pub f = k"
    "pf_enabled f = (\<not> truthy (member_json p ''disabled''))"
    using m by (simp_all add: assms(2) edit_peer_form_def)
  have "member_json (peer_entry f) x = member_json p x" if "x \<noteq> ''disabled''" for x
  proof (cases "x \<in> {''name'', ''tunnel_ip'', ''public_key''}")
    case True
    then show ?thesis using m ok by (auto simp: peer_entry_def f)
  next
    case False
    with that assms(1) have "member_json p x = None" by (simp add: plain_peer_def)
    with False that show ?thesis by (simp add: peer_entry_def)
  qed
  then show ?thesis using ok by (simp add: save_peer_editor_def peer_missing_def f) (simp add: peer_entry_def f truthy_def)
qed

lemma untouched_peer_is_saved_as_it_was_witness:
  "\<exists>e. save_peer_editor (edit_peer_form no_prefs 0 toy_peer) = Inr e"
proof -
  have "plain_peer toy_peer" by (simp add: plain_peer_def toy_peer_def trim_def is_ws_def)
  from untouched_peer_is_saved_as_it_was [OF this refl] show ?thesis by blast
qed

end
