(* ===== verification/Peer_Dialog.thy ===== *)
theory Peer_Dialog
  imports Peer_Editor
begin

text \<open>
  \<open>pages/peers.js\<close>: the peer editor as a dialog. Its state holds the form, what is on screen, the timers,
  and the numbers by which answers overtaken by newer requests are told; a step is one handler, up to its next
  await, with the requests it sends. Bytes drawn at random come with the step.
\<close>

section \<open>State\<close>

record peer_dialog =
  pd_open :: bool
  pd_form :: peer_form
  pd_tracker :: tracker
  pd_onboard_tab :: bool
  pd_other_tab :: bool
  pd_priv_shown :: bool
  pd_out :: "string option"
  pd_msg :: string
  pd_error :: "string option"
  pd_page_msg :: string
  pd_hint :: "string option"
  pd_overview :: "json option"
  pd_fetch_seq :: nat
  pd_fetch_timer :: bool
  pd_bundle_timer :: bool
  pd_bundle :: bundle_panel

record peer_env =
  pe_prefs :: ui_prefs
  pe_url :: string

datatype peer_field = FName | FTunnel | FPub | FEndpoint | FPriv

datatype peer_dialog_event =
    AddClicked "json option" | EditClicked "json option" nat
  | AddKeys "string + string \<times> string"
  | ClearKeysClicked | ClearedKeys "string + string \<times> string"
  | Typed peer_field string | Toggled bool
  | OverviewDue | BundleDue
  | OverviewRead nat "string + json" | BundleSealed nat "string + bytes"
  | OverviewSeen "json option"
  | RegenerateClicked | BuildClicked
  | PrivShown | TabChosen bool | MethodChosen bool
  | SaveRefused string
  | EditorClosing

datatype peer_request = GenerateForAdd | GenerateForClear | ReadOverview nat | SealBundle nat string wg_params

section \<open>Controls\<close>

text \<open>The inputs in the dialog, in the order of the page.\<close>

definition peer_text_control :: "string \<Rightarrow> string \<Rightarrow> string \<Rightarrow> control" where
  "peer_text_control i ty v = \<lparr>ctl_id = i, ctl_type = ty, ctl_checked = False, ctl_value = v\<rparr>"

definition peer_controls :: "bool \<Rightarrow> peer_form \<Rightarrow> control list" where
  "peer_controls privShown f =
     [peer_text_control ''peer-edit-index'' ''hidden'' (case pf_index f of None \<Rightarrow> [] | Some i \<Rightarrow> show_nat i),
      peer_text_control ''peer-f-name'' ''text'' (pf_name f), peer_text_control ''peer-f-tunnel'' ''text'' (pf_tunnel f),
      peer_text_control ''peer-f-pub'' ''text'' (pf_pub f),
      \<lparr>ctl_id = ''peer-f-disabled'', ctl_type = ''checkbox'', ctl_checked = pf_enabled f, ctl_value = ''on''\<rparr>,
      peer_text_control ''onboard-endpoint'' ''text'' (pf_endpoint f),
      peer_text_control ''onboard-client-priv'' (if privShown then ''text'' else ''password'') (pf_priv f)]"

definition dialog_controls :: "peer_dialog \<Rightarrow> control list" where
  "dialog_controls s = peer_controls (pd_priv_shown s) (pd_form s)"

definition GENERATED_KEY_FIELDS :: "string list" where
  "GENERATED_KEY_FIELDS = [''peer-f-pub'', ''onboard-client-priv'']"

definition type_field :: "peer_field \<Rightarrow> string \<Rightarrow> peer_form \<Rightarrow> peer_form" where
  "type_field x v f = (case x of FName \<Rightarrow> f\<lparr>pf_name := v\<rparr> | FTunnel \<Rightarrow> f\<lparr>pf_tunnel := v\<rparr> | FPub \<Rightarrow> f\<lparr>pf_pub := v\<rparr>
     | FEndpoint \<Rightarrow> f\<lparr>pf_endpoint := v\<rparr> | FPriv \<Rightarrow> f\<lparr>pf_priv := v\<rparr>)"

section \<open>What the handlers share\<close>

definition dialog_params :: "peer_env \<Rightarrow> peer_dialog \<Rightarrow> string + wg_params" where
  "dialog_params env s = peer_onboard_wireguard_params
     \<lparr>form_name = pf_name (pd_form s), form_tunnel = pf_tunnel (pd_form s), form_pub = pf_pub (pd_form s),
      form_priv = pf_priv (pd_form s), form_endpoint = pf_endpoint (pd_form s)\<rparr>
     (pd_overview s) (peer_subnet_cidr (pe_prefs env))"

definition update_server_hint :: "json option \<Rightarrow> string option" where
  "update_server_hint ov = (case ov of
     None \<Rightarrow> None
   | Some o' \<Rightarrow>
       if \<not> truthy (member_json o' ''server_public_key'') then None
       else (let key = str_or_empty (member_json o' ''server_public_key'');
                 pubShort = (if 28 < length key then take 14 key @ ellipsis @ drop (length key - 10) key else key) in
         Some (''Server public key: '' @ pubShort @ '' '' @ middot @ '' Listen UDP '' @
           (case member_json o' ''wireguard_listen_port'' of None \<Rightarrow> ''undefined'' | Some p \<Rightarrow> js_string p) @ '' '' @ middot @ '' Tunnel '' @
           (if truthy (member_json o' ''tunnel_subnet'') then str_or_empty (member_json o' ''tunnel_subnet'') else ''(unknown)'') @ ''.'')))"

definition rebuild_bundle :: "peer_env \<Rightarrow> string \<Rightarrow> bool \<Rightarrow> peer_dialog \<Rightarrow> peer_dialog \<times> peer_request list" where
  "rebuild_bundle env fresh force s =
     (let r = dialog_params env s; b = bundle_step (pe_url env) (Rebuild force r fresh) (pd_bundle s) in
      (s\<lparr>pd_bundle := b\<rparr>, case r of Inl _ \<Rightarrow> [] | Inr p \<Rightarrow> [SealBundle (rebuild_seq b) (unlock_pass b) p]))"

definition fetch_peer_overview :: "peer_dialog \<Rightarrow> peer_dialog \<times> peer_request list" where
  "fetch_peer_overview s =
     (if \<not> pd_open s then (s, [])
      else (s\<lparr>pd_fetch_seq := Suc (pd_fetch_seq s)\<rparr>, [ReadOverview (Suc (pd_fetch_seq s))]))"

definition rebuild_and_fetch :: "peer_env \<Rightarrow> string \<Rightarrow> peer_dialog \<Rightarrow> peer_dialog \<times> peer_request list" where
  "rebuild_and_fetch env fresh s =
     (let (s1, q1) = rebuild_bundle env fresh False s; (s2, q2) = fetch_peer_overview s1 in (s2, q1 @ q2))"

definition reset_peer_onboard_extras :: "peer_dialog \<Rightarrow> peer_dialog" where
  "reset_peer_onboard_extras s =
     s\<lparr>pd_error := None, pd_bundle := (pd_bundle s)\<lparr>unlock_pass := [], panel_snippet := None\<rparr>,
       pd_form := (pd_form s)\<lparr>pf_priv := []\<rparr>, pd_priv_shown := False, pd_out := None, pd_msg := [], pd_other_tab := False\<rparr>"

text \<open>\<open>openModal\<close> marks the form, unless the dialog is open already; then the tab is chosen.\<close>

definition show_peer_dialog :: "peer_dialog \<Rightarrow> peer_dialog" where
  "show_peer_dialog s =
     s\<lparr>pd_tracker := (if pd_open s then pd_tracker s else mark None None (dialog_controls s) (pd_tracker s)), pd_open := True,
       pd_onboard_tab := False\<rparr>"

definition put_keys :: "string \<times> string \<Rightarrow> peer_dialog \<Rightarrow> peer_dialog" where
  "put_keys kp s =
     (let s1 = s\<lparr>pd_form := (pd_form s)\<lparr>pf_pub := snd kp, pf_priv := fst kp\<rparr>\<rparr> in
      s1\<lparr>pd_tracker := mark (Some GENERATED_KEY_FIELDS) None (dialog_controls s1) (pd_tracker s1)\<rparr>)"

definition field_activity :: "peer_dialog \<Rightarrow> peer_dialog" where
  "field_activity s = (if pd_open s then s\<lparr>pd_bundle_timer := True, pd_fetch_timer := True\<rparr> else s)"

definition close_peer_editor :: "string \<Rightarrow> peer_dialog \<Rightarrow> peer_dialog" where
  "close_peer_editor url s =
     s\<lparr>pd_fetch_seq := Suc (pd_fetch_seq s), pd_fetch_timer := False, pd_bundle_timer := False,
       pd_bundle := bundle_step url EditorClosed (pd_bundle s), pd_open := False, pd_tracker := clear_tracker (pd_tracker s),
       pd_form := (pd_form s)\<lparr>pf_index := None\<rparr>\<rparr>"

section \<open>The handlers\<close>

definition add_clicked :: "peer_env \<Rightarrow> json option \<Rightarrow> peer_dialog \<Rightarrow> peer_dialog \<times> peer_request list" where
  "add_clicked env lastConfig s = (case lastConfig of
     None \<Rightarrow> (s, [])
   | Some cfg \<Rightarrow>
       (show_peer_dialog (reset_peer_onboard_extras (s\<lparr>pd_form := add_peer_form (pe_prefs env) cfg (pd_form s)\<rparr>)), [GenerateForAdd]))"

definition edit_clicked :: "peer_env \<Rightarrow> string \<Rightarrow> json option \<Rightarrow> nat \<Rightarrow> peer_dialog \<Rightarrow> peer_dialog \<times> peer_request list" where
  "edit_clicked env fresh lastConfig i s = (case lastConfig of
     None \<Rightarrow> (s, [])
   | Some cfg \<Rightarrow> (case peer_at cfg i of
        None \<Rightarrow> (s, [])
      | Some p \<Rightarrow> rebuild_and_fetch env fresh
          (show_peer_dialog ((reset_peer_onboard_extras s)\<lparr>pd_form := edit_peer_form (pe_prefs env) i p\<rparr>))))"

definition add_keys :: "peer_env \<Rightarrow> string \<Rightarrow> string + string \<times> string \<Rightarrow> peer_dialog \<Rightarrow> peer_dialog \<times> peer_request list" where
  "add_keys env fresh r s = rebuild_and_fetch env fresh (case r of Inl e \<Rightarrow> s\<lparr>pd_page_msg := e\<rparr> | Inr kp \<Rightarrow> put_keys kp s)"

definition clear_keys_clicked :: "peer_env \<Rightarrow> string \<Rightarrow> peer_dialog \<Rightarrow> peer_dialog \<times> peer_request list" where
  "clear_keys_clicked env fresh s =
     (let s1 = s\<lparr>pd_form := (pd_form s)\<lparr>pf_pub := [], pf_priv := []\<rparr>\<rparr> in
      if pf_index (pd_form s) \<noteq> None then rebuild_bundle env fresh False (s1\<lparr>pd_msg := ''Keys cleared.''\<rparr>)
      else (s1\<lparr>pd_msg := ellipsis\<rparr>, [GenerateForClear]))"

definition cleared_keys :: "peer_env \<Rightarrow> string \<Rightarrow> string + string \<times> string \<Rightarrow> peer_dialog \<Rightarrow> peer_dialog \<times> peer_request list" where
  "cleared_keys env fresh r s = (case r of
     Inl e \<Rightarrow> (s\<lparr>pd_msg := e\<rparr>, [])
   | Inr kp \<Rightarrow> rebuild_bundle env fresh False ((put_keys kp s)\<lparr>pd_msg := ''New keypair generated.''\<rparr>))"

definition overview_read :: "peer_env \<Rightarrow> string \<Rightarrow> nat \<Rightarrow> string + json \<Rightarrow> peer_dialog \<Rightarrow> peer_dialog \<times> peer_request list" where
  "overview_read env fresh n r s =
     (if n \<noteq> pd_fetch_seq s then (s, [])
      else (case r of
          Inl e \<Rightarrow> (s\<lparr>pd_msg := e\<rparr>, [])
        | Inr j \<Rightarrow> rebuild_bundle env fresh False
            (s\<lparr>pd_overview := Some j, pd_hint := update_server_hint (Some j), pd_bundle_timer := False\<rparr>)))"

definition bundle_sealed :: "peer_env \<Rightarrow> nat \<Rightarrow> string + bytes \<Rightarrow> peer_dialog \<Rightarrow> peer_dialog" where
  "bundle_sealed env n r s =
     (let s1 = s\<lparr>pd_bundle := bundle_step (pe_url env) (BundleReady n (map_sum id u8_to_b64 r)) (pd_bundle s)\<rparr> in
      case r of Inl e \<Rightarrow> if n = rebuild_seq (pd_bundle s) then s1\<lparr>pd_msg := e\<rparr> else s1 | Inr _ \<Rightarrow> s1)"

definition build_clicked :: "peer_env \<Rightarrow> peer_dialog \<Rightarrow> peer_dialog" where
  "build_clicked env s = (case dialog_params env s of
     Inl e \<Rightarrow> s\<lparr>pd_msg := e\<rparr>
   | Inr r \<Rightarrow> s\<lparr>pd_out := Some (onboard_block r), pd_msg := ''Output below.''\<rparr>)"

definition peer_dialog_step :: "peer_env \<Rightarrow> string \<Rightarrow> peer_dialog_event \<Rightarrow> peer_dialog \<Rightarrow> peer_dialog \<times> peer_request list" where
  "peer_dialog_step env fresh e s = (case e of
     AddClicked c \<Rightarrow> add_clicked env c s
   | EditClicked c i \<Rightarrow> edit_clicked env fresh c i s
   | AddKeys r \<Rightarrow> add_keys env fresh r s
   | ClearKeysClicked \<Rightarrow> clear_keys_clicked env fresh s
   | ClearedKeys r \<Rightarrow> cleared_keys env fresh r s
   | Typed x v \<Rightarrow> (field_activity (s\<lparr>pd_form := type_field x v (pd_form s)\<rparr>), [])
   | Toggled on \<Rightarrow> (field_activity (s\<lparr>pd_form := (pd_form s)\<lparr>pf_enabled := on\<rparr>\<rparr>), [])
   | OverviewDue \<Rightarrow> (if pd_fetch_timer s then fetch_peer_overview (s\<lparr>pd_fetch_timer := False\<rparr>) else (s, []))
   | BundleDue \<Rightarrow> (if pd_bundle_timer s then rebuild_bundle env fresh False (s\<lparr>pd_bundle_timer := False\<rparr>) else (s, []))
   | OverviewRead n r \<Rightarrow> overview_read env fresh n r s
   | BundleSealed n r \<Rightarrow> (bundle_sealed env n r s, [])
   | OverviewSeen j \<Rightarrow> (s\<lparr>pd_overview := j\<rparr>, [])
   | RegenerateClicked \<Rightarrow> rebuild_bundle env fresh True (s\<lparr>pd_bundle := (pd_bundle s)\<lparr>unlock_pass := []\<rparr>\<rparr>)
   | BuildClicked \<Rightarrow> (build_clicked env s, [])
   | PrivShown \<Rightarrow> (s\<lparr>pd_priv_shown := \<not> pd_priv_shown s\<rparr>, [])
   | TabChosen onboarding \<Rightarrow> (s\<lparr>pd_onboard_tab := onboarding\<rparr>, [])
   | MethodChosen other \<Rightarrow> (s\<lparr>pd_other_tab := other\<rparr>, [])
   | SaveRefused m \<Rightarrow> (s\<lparr>pd_error := Some m\<rparr>, [])
   | EditorClosing \<Rightarrow> (close_peer_editor (pe_url env) s, []))"

section \<open>What a run of the dialog can see\<close>

text \<open>
  Which events can come in a state with the requests sent so far: the dialog covers the page's buttons, and an
  answer needs its request; a key pair may well arrive after the dialog it was asked for is closed. \<open>seal\<close> is
  the bundle that comes of a passphrase and parameters.
\<close>

definition peer_event_possible :: "(string \<Rightarrow> wg_params \<Rightarrow> bytes) \<Rightarrow> peer_dialog \<Rightarrow> peer_request set \<Rightarrow> peer_dialog_event \<Rightarrow> bool" where
  "peer_event_possible seal s js e \<longleftrightarrow> (case e of
     AddClicked _ \<Rightarrow> \<not> pd_open s
   | EditClicked _ _ \<Rightarrow> \<not> pd_open s
   | AddKeys _ \<Rightarrow> GenerateForAdd \<in> js
   | ClearedKeys _ \<Rightarrow> GenerateForClear \<in> js
   | OverviewRead n _ \<Rightarrow> ReadOverview n \<in> js
   | BundleSealed n r \<Rightarrow> (\<exists>q \<in> js. case q of SealBundle m p w \<Rightarrow> m = n \<and> (case r of Inl _ \<Rightarrow> True | Inr b \<Rightarrow> b = seal p w) | _ \<Rightarrow> False)
   | OverviewDue \<Rightarrow> True
   | BundleDue \<Rightarrow> True
   | OverviewSeen _ \<Rightarrow> True
   | EditorClosing \<Rightarrow> True
   | _ \<Rightarrow> pd_open s)"

lemma sealed_possible:
  "peer_event_possible seal s js (BundleSealed n r) \<longleftrightarrow>
     (\<exists>p w. SealBundle n p w \<in> js \<and> (case r of Inl _ \<Rightarrow> True | Inr b \<Rightarrow> b = seal p w))"
proof -
  have "(case q of SealBundle m p w \<Rightarrow> m = n \<and> (case r of Inl _ \<Rightarrow> True | Inr b \<Rightarrow> b = seal p w) | _ \<Rightarrow> False) \<longleftrightarrow>
      (\<exists>p w. q = SealBundle n p w \<and> (case r of Inl _ \<Rightarrow> True | Inr b \<Rightarrow> b = seal p w))" for q
    by (cases q) auto
  then show ?thesis by (simp add: peer_event_possible_def) blast
qed

definition page_start :: peer_dialog where
  "page_start = \<lparr>pd_open = False, pd_form = \<lparr>pf_index = None, pf_base = [], pf_name = [], pf_tunnel = [], pf_pub = [], pf_enabled = False,
       pf_endpoint = [], pf_priv = []\<rparr>, pd_tracker = None, pd_onboard_tab = False, pd_other_tab = False, pd_priv_shown = False,
     pd_out = None, pd_msg = [], pd_error = None, pd_page_msg = [], pd_hint = None, pd_overview = None, pd_fetch_seq = 0,
     pd_fetch_timer = False, pd_bundle_timer = False, pd_bundle = \<lparr>rebuild_seq = 0, unlock_pass = [], panel_snippet = None\<rparr>\<rparr>"

text \<open>A key pair, or the failure to make one, that finds no dialog open.\<close>

definition late_keys :: "peer_dialog \<Rightarrow> peer_dialog_event \<Rightarrow> bool" where
  "late_keys s e \<longleftrightarrow> \<not> pd_open s \<and> (case e of AddKeys _ \<Rightarrow> True | ClearedKeys _ \<Rightarrow> True | _ \<Rightarrow> False)"

text \<open>The states a run can get to, with the requests sent so far and whether keys ever came late.\<close>

inductive peer_dialog_run :: "peer_env \<Rightarrow> (string \<Rightarrow> wg_params \<Rightarrow> bytes) \<Rightarrow> peer_dialog \<Rightarrow> peer_request set \<Rightarrow> bool \<Rightarrow> bool" for env seal where
  start: "peer_dialog_run env seal page_start {} False"
| step: "peer_dialog_run env seal s js late \<Longrightarrow> peer_event_possible seal s js e \<Longrightarrow> fresh \<noteq> [] \<Longrightarrow>
    peer_dialog_step env fresh e s = (s', q) \<Longrightarrow> peer_dialog_run env seal s' (js \<union> set q) (late \<or> late_keys s e)"

text \<open>
  What holds of every state: requests are numbered up to now; the newest bundle asked for is sealed with the passphrase at hand, which late keys
  can leave empty; what is shown was asked for; and without late keys nothing current is left over when the dialog is closed.
\<close>

definition dialog_inv :: "peer_env \<Rightarrow> (string \<Rightarrow> wg_params \<Rightarrow> bytes) \<Rightarrow> bool \<Rightarrow> peer_dialog \<Rightarrow> peer_request set \<Rightarrow> bool" where
  "dialog_inv env seal late s js \<longleftrightarrow>
     (\<forall>n p w. SealBundle n p w \<in> js \<longrightarrow> n \<le> rebuild_seq (pd_bundle s) \<and> p \<noteq> [] \<and>
        (n = rebuild_seq (pd_bundle s) \<longrightarrow>
           (pd_open s \<or> late) \<and> (p = unlock_pass (pd_bundle s) \<or> late \<and> unlock_pass (pd_bundle s) = []))) \<and>
     (\<forall>n. ReadOverview n \<in> js \<longrightarrow> n \<le> pd_fetch_seq s \<and> (n = pd_fetch_seq s \<longrightarrow> pd_open s)) \<and>
     (\<not> pd_open s \<longrightarrow> \<not> pd_fetch_timer s \<and> \<not> pd_bundle_timer s) \<and>
     (case panel_snippet (pd_bundle s) of
        None \<Rightarrow> True
      | Some (n, t) \<Rightarrow> \<exists>p p' w. SealBundle n p w \<in> js \<and> t = build_peer_two_line_snippet (pe_url env) p' (u8_to_b64 (seal p w)) \<and>
          (p' = p \<or> late \<and> p' = []))"

lemma inv_late: "dialog_inv env seal late s js \<Longrightarrow> (late \<longrightarrow> late') \<Longrightarrow> dialog_inv env seal late' s js"
  by (auto simp: dialog_inv_def split: option.splits)

lemma inv_more: "dialog_inv env seal late s js \<Longrightarrow> q = [] \<or> q = [GenerateForAdd] \<or> q = [GenerateForClear] \<Longrightarrow> dialog_inv env seal late s (js \<union> set q)"
  by (auto simp: dialog_inv_def split: option.splits)

text \<open>The invariant looks at these parts only.\<close>

lemma inv_cong:
  "pd_open s' = pd_open s \<Longrightarrow> pd_bundle s' = pd_bundle s \<Longrightarrow> pd_fetch_seq s' = pd_fetch_seq s \<Longrightarrow>
   (\<not> pd_open s \<longrightarrow> \<not> pd_fetch_timer s' \<and> \<not> pd_bundle_timer s') \<Longrightarrow> dialog_inv env seal late s js \<Longrightarrow> dialog_inv env seal late s' js"
  by (simp add: dialog_inv_def)

lemma rebuild_inv:
  assumes "dialog_inv env seal late s js" "pd_open s \<or> late" "fresh \<noteq> []" "rebuild_bundle env fresh force s = (s', q)"
  shows "dialog_inv env seal late s' (js \<union> set q)"
proof -
  define b where "b = bundle_step (pe_url env) (Rebuild force (dialog_params env s) fresh) (pd_bundle s)"
  have s': "s' = s\<lparr>pd_bundle := b\<rparr>" using assms(4) by (simp add: rebuild_bundle_def Let_def b_def)
  have seq: "rebuild_seq b = Suc (rebuild_seq (pd_bundle s))" by (simp add: b_def bundle_step_def Let_def split: sum.split)
  have old: "SealBundle n p w \<in> js \<Longrightarrow> n \<noteq> Suc (rebuild_seq (pd_bundle s))" for n p w using assms(1) by (fastforce simp: dialog_inv_def)
  have q: "q = (case dialog_params env s of Inl _ \<Rightarrow> [] | Inr r \<Rightarrow> [SealBundle (rebuild_seq b) (unlock_pass b) r])"
    using assms(4) unfolding b_def rebuild_bundle_def Let_def by simp
  show ?thesis
  proof (cases "dialog_params env s")
    case (Inl e)
    then have "panel_snippet b = None" "q = []" by (simp_all add: b_def bundle_step_def Let_def q)
    then show ?thesis using assms(1,2) old by (fastforce simp: dialog_inv_def s' seq)
  next
    case (Inr r)
    then have "panel_snippet b = panel_snippet (pd_bundle s)" "unlock_pass b \<noteq> []" "q = [SealBundle (rebuild_seq b) (unlock_pass b) r]"
      using assms(3) by (auto simp: b_def bundle_step_def Let_def q)
    then show ?thesis using assms(1,2) old by (fastforce simp: dialog_inv_def s' seq split: option.splits)
  qed
qed

lemma fetch_inv:
  assumes "dialog_inv env seal late s js" "fetch_peer_overview s = (s', q)"
  shows "dialog_inv env seal late s' (js \<union> set q)"
  using assms by (fastforce simp: dialog_inv_def fetch_peer_overview_def split: if_splits option.splits)

lemma rebuild_and_fetch_inv:
  assumes "dialog_inv env seal late s js" "pd_open s \<or> late" "fresh \<noteq> []" "rebuild_and_fetch env fresh s = (s', q)"
  shows "dialog_inv env seal late s' (js \<union> set q)"
proof -
  obtain s1 q1 where r: "rebuild_bundle env fresh False s = (s1, q1)" by (rule prod.exhaust)
  obtain s2 q2 where f: "fetch_peer_overview s1 = (s2, q2)" by (rule prod.exhaust)
  have "dialog_inv env seal late s2 (js \<union> set q1 \<union> set q2)" using fetch_inv [OF rebuild_inv [OF assms(1-3) r] f] .
  then show ?thesis using assms(4) r f by (auto simp: rebuild_and_fetch_def Un_assoc)
qed

text \<open>Opening: nothing sealed is current, so forgetting the passphrase and the commands loses nothing.\<close>

lemma open_inv:
  assumes "dialog_inv env seal late s js" "\<not> pd_open s"
  shows "dialog_inv env seal late (show_peer_dialog (reset_peer_onboard_extras (s\<lparr>pd_form := f\<rparr>))) js"
    "dialog_inv env seal late (show_peer_dialog ((reset_peer_onboard_extras s)\<lparr>pd_form := f\<rparr>)) js"
  using assms by (auto simp: dialog_inv_def show_peer_dialog_def reset_peer_onboard_extras_def)

lemma put_keys_parts [simp]:
  "pd_open (put_keys kp s) = pd_open s" "pd_bundle (put_keys kp s) = pd_bundle s" "pd_fetch_seq (put_keys kp s) = pd_fetch_seq s"
  "pd_fetch_timer (put_keys kp s) = pd_fetch_timer s" "pd_bundle_timer (put_keys kp s) = pd_bundle_timer s"
  by (simp_all add: put_keys_def Let_def)

lemma close_inv: "dialog_inv env seal late s js \<Longrightarrow> dialog_inv env seal late (close_peer_editor url s) js"
  by (fastforce simp: dialog_inv_def close_peer_editor_def bundle_step_def split: option.splits)

lemma sealed_inv:
  assumes "dialog_inv env seal late s js" "SealBundle n p w \<in> js" "case r of Inl _ \<Rightarrow> True | Inr b \<Rightarrow> b = seal p w"
  shows "dialog_inv env seal late (bundle_sealed env n r s) js"
proof (cases "n = rebuild_seq (pd_bundle s)")
  case False
  then have "bundle_sealed env n r s = s" by (simp add: bundle_sealed_def bundle_step_def split: sum.split)
  then show ?thesis using assms(1) by simp
next
  case True
  then have p: "p = unlock_pass (pd_bundle s) \<or> late \<and> unlock_pass (pd_bundle s) = []" using assms(1,2) unfolding dialog_inv_def by blast
  show ?thesis
  proof (cases r)
    case (Inl e)
    then show ?thesis using True assms(1) by (simp add: bundle_sealed_def bundle_step_def dialog_inv_def)
  next
    case (Inr b)
    define t where "t = build_peer_two_line_snippet (pe_url env) (unlock_pass (pd_bundle s)) (u8_to_b64 b)"
    have e: "bundle_sealed env n r s = s\<lparr>pd_bundle := (pd_bundle s)\<lparr>panel_snippet := Some (n, t)\<rparr>\<rparr>"
      using True Inr by (simp add: bundle_sealed_def bundle_step_def t_def)
    have "\<exists>p p' w. SealBundle n p w \<in> js \<and> t = build_peer_two_line_snippet (pe_url env) p' (u8_to_b64 (seal p w)) \<and> (p' = p \<or> late \<and> p' = [])"
      using assms(2,3) Inr p by (auto simp: t_def)
    then show ?thesis using assms(1) unfolding e dialog_inv_def by simp
  qed
qed

lemma dialog_step_inv:
  assumes inv: "dialog_inv env seal late s js" and late: "late_keys s e \<longrightarrow> late" and ok: "peer_event_possible seal s js e" and "fresh \<noteq> []" and st: "peer_dialog_step env fresh e s = (s', q)"
  shows "dialog_inv env seal late s' (js \<union> set q)"
proof (cases e)
  case (AddClicked c)
  then show ?thesis using ok st inv_more [OF inv, of q] inv_more [OF open_inv(1) [OF inv], of q]
    by (auto simp: peer_event_possible_def peer_dialog_step_def add_clicked_def split: option.splits)
next
  case (EditClicked c i)
  then have closed: "\<not> pd_open s" using ok by (simp add: peer_event_possible_def)
  show ?thesis
  proof (cases "\<exists>cfg p. c = Some cfg \<and> peer_at cfg i = Some p")
    case True
    then obtain cfg p where cp: "c = Some cfg" "peer_at cfg i = Some p" by blast
    let ?s = "show_peer_dialog ((reset_peer_onboard_extras s)\<lparr>pd_form := edit_peer_form (pe_prefs env) i p\<rparr>)"
    have "pd_open ?s" by (simp add: show_peer_dialog_def)
    moreover have "rebuild_and_fetch env fresh ?s = (s', q)" using EditClicked st cp by (simp add: peer_dialog_step_def edit_clicked_def)
    ultimately show ?thesis using rebuild_and_fetch_inv [OF open_inv(2) [OF inv closed] _ assms(4)] by blast
  next
    case False
    then have "s' = s" "q = []" using EditClicked st by (auto simp: peer_dialog_step_def edit_clicked_def split: option.splits)
    then show ?thesis using inv by simp
  qed
next
  case (AddKeys r)
  let ?s = "case r of Inl e \<Rightarrow> s\<lparr>pd_page_msg := e\<rparr> | Inr kp \<Rightarrow> put_keys kp s"
  have o: "pd_open s \<or> late" using AddKeys late by (auto simp: late_keys_def)
  have "\<not> pd_open s \<Longrightarrow> \<not> pd_fetch_timer s \<and> \<not> pd_bundle_timer s" using inv by (simp add: dialog_inv_def)
  then have "dialog_inv env seal late ?s js" "pd_open ?s \<or> late" using o by (auto intro!: inv_cong [OF _ _ _ _ inv] split: sum.split)
  then show ?thesis using AddKeys st assms(4) by (intro rebuild_and_fetch_inv) (auto simp: peer_dialog_step_def add_keys_def)
next
  case ClearKeysClicked
  let ?s = "s\<lparr>pd_form := (pd_form s)\<lparr>pf_pub := [], pf_priv := []\<rparr>\<rparr>"
  have o: "pd_open s" using ClearKeysClicked ok by (simp add: peer_event_possible_def)
  have i: "dialog_inv env seal late (?s\<lparr>pd_msg := m\<rparr>) js" for m using o by (auto intro!: inv_cong [OF _ _ _ _ inv])
  show ?thesis
  proof (cases "pf_index (pd_form s) = None")
    case True
    then show ?thesis using ClearKeysClicked st inv_more [OF i, of q] by (auto simp: peer_dialog_step_def clear_keys_clicked_def Let_def)
  next
    case False
    then show ?thesis using ClearKeysClicked st rebuild_inv [OF i _ assms(4), of "''Keys cleared.''" False s' q] o
      by (auto simp: peer_dialog_step_def clear_keys_clicked_def Let_def)
  qed
next
  case (ClearedKeys r)
  have o: "pd_open s \<or> late" using ClearedKeys late by (auto simp: late_keys_def)
  have t: "\<not> pd_open s \<Longrightarrow> \<not> pd_fetch_timer s \<and> \<not> pd_bundle_timer s" using inv by (simp add: dialog_inv_def)
  show ?thesis
  proof (cases r)
    case (Inl m)
    then show ?thesis using ClearedKeys st t by (auto simp: peer_dialog_step_def cleared_keys_def intro!: inv_cong [OF _ _ _ _ inv])
  next
    case (Inr kp)
    have "dialog_inv env seal late ((put_keys kp s)\<lparr>pd_msg := m\<rparr>) js" for m using t by (auto intro!: inv_cong [OF _ _ _ _ inv])
    with Inr ClearedKeys st o show ?thesis using rebuild_inv [OF _ _ assms(4), of env seal late "(put_keys kp s)\<lparr>pd_msg := ''New keypair generated.''\<rparr>" js False s' q]
      by (auto simp: peer_dialog_step_def cleared_keys_def)
  qed
next
  case (OverviewRead n r)
  then have j: "ReadOverview n \<in> js" using ok by (simp add: peer_event_possible_def)
  show ?thesis
  proof (cases "n = pd_fetch_seq s \<and> (\<exists>j. r = Inr j)")
    case True
    then obtain k where k: "r = Inr k" by blast
    have o: "pd_open s" using inv j True by (auto simp: dialog_inv_def)
    let ?s = "s\<lparr>pd_overview := Some k, pd_hint := update_server_hint (Some k), pd_bundle_timer := False\<rparr>"
    have "dialog_inv env seal late ?s js" using o by (auto intro!: inv_cong [OF _ _ _ _ inv])
    then show ?thesis using rebuild_inv [of env seal late ?s js fresh False s' q] o OverviewRead True k st assms(4)
      by (simp add: peer_dialog_step_def overview_read_def)
  next
    case False
    then have "q = [] \<and> (s' = s \<or> (\<exists>m. s' = s\<lparr>pd_msg := m\<rparr>))" using OverviewRead st
      by (auto simp: peer_dialog_step_def overview_read_def split: if_splits sum.splits)
    moreover have "dialog_inv env seal late (s\<lparr>pd_msg := m\<rparr>) js" for m using inv by (simp add: dialog_inv_def)
    ultimately show ?thesis using inv by auto
  qed
next
  case (BundleSealed n r)
  then show ?thesis using ok st sealed_inv [OF inv] by (auto simp: sealed_possible peer_dialog_step_def)
next
  case OverviewDue
  have "dialog_inv env seal late (s\<lparr>pd_fetch_timer := False\<rparr>) js" using inv by (simp add: dialog_inv_def)
  then show ?thesis using OverviewDue st inv fetch_inv [of env seal late "s\<lparr>pd_fetch_timer := False\<rparr>" js s' q]
    by (cases "pd_fetch_timer s") (simp_all add: peer_dialog_step_def)
next
  case BundleDue
  show ?thesis
  proof (cases "pd_bundle_timer s")
    case True
    then have "pd_open s" using inv by (auto simp: dialog_inv_def)
    moreover then have "dialog_inv env seal late (s\<lparr>pd_bundle_timer := False\<rparr>) js" by (auto intro!: inv_cong [OF _ _ _ _ inv])
    ultimately show ?thesis using rebuild_inv [of env seal late "s\<lparr>pd_bundle_timer := False\<rparr>" js fresh False s' q] BundleDue True st assms(4)
      by (simp add: peer_dialog_step_def)
  next
    case False
    then show ?thesis using BundleDue st inv by (simp add: peer_dialog_step_def)
  qed
next
  case (OverviewSeen j)
  have "dialog_inv env seal late (s\<lparr>pd_overview := j\<rparr>) js" using inv by (simp add: dialog_inv_def)
  then show ?thesis using OverviewSeen st by (auto simp: peer_dialog_step_def)
next
  case RegenerateClicked
  have o: "pd_open s" using RegenerateClicked ok by (simp add: peer_event_possible_def)
  let ?s = "s\<lparr>pd_bundle := (pd_bundle s)\<lparr>unlock_pass := []\<rparr>\<rparr>"
  have eq: "rebuild_bundle env fresh True ?s = rebuild_bundle env fresh True s"
    by (simp add: rebuild_bundle_def dialog_params_def bundle_step_def Let_def split: sum.split)
  show ?thesis using rebuild_inv [OF inv disjI1 [OF o] assms(4), of True s' q] RegenerateClicked st by (simp add: peer_dialog_step_def eq)
next
  case EditorClosing
  then show ?thesis using st close_inv [OF inv] by (auto simp: peer_dialog_step_def)
qed (use ok st in \<open>auto simp: peer_event_possible_def peer_dialog_step_def field_activity_def build_clicked_def
      split: if_splits sum.splits intro!: inv_cong [OF _ _ _ _ inv]\<close>)

lemma run_inv: "peer_dialog_run env seal s js late \<Longrightarrow> dialog_inv env seal late s js"
proof (induction rule: peer_dialog_run.induct)
  case start
  show ?case by (simp add: dialog_inv_def page_start_def)
next
  case (step s js late e fresh s' q)
  from inv_late [OF step.IH, of "late \<or> late_keys s e"] step.hyps show ?case by (intro dialog_step_inv) auto
qed


text \<open>
  Without late keys a closed peer editor is quiet: no timer is left, and of the answers to what the dialog asked for only a key pair, which is
  then the first late one, changes anything until it is opened again.
\<close>

theorem closed_peer_editor_is_quiet:
  assumes "peer_dialog_run env seal s js False" "\<not> pd_open s" "peer_event_possible seal s js e" "\<not> late_keys s e"
  shows "peer_dialog_step env fresh e s = (s, []) \<or>
    (case e of AddClicked _ \<Rightarrow> True | EditClicked _ _ \<Rightarrow> True | OverviewSeen _ \<Rightarrow> True | EditorClosing \<Rightarrow> True | _ \<Rightarrow> False)"
proof -
  note inv = run_inv [OF assms(1)]
  have timers: "\<not> pd_fetch_timer s" "\<not> pd_bundle_timer s" using inv assms(2) by (auto simp: dialog_inv_def)
  show ?thesis
  proof (cases e)
    case (BundleSealed n r)
    then obtain p w where "SealBundle n p w \<in> js" using assms(3) sealed_possible by blast
    then have "n \<noteq> rebuild_seq (pd_bundle s)" using inv assms(2) by (auto simp: dialog_inv_def)
    then have "bundle_sealed env n r s = s" by (simp add: bundle_sealed_def bundle_step_def split: sum.split)
    then show ?thesis by (simp add: BundleSealed peer_dialog_step_def)
  next
    case (OverviewRead n r)
    then have "n \<noteq> pd_fetch_seq s" using inv assms(2,3) by (auto simp: dialog_inv_def peer_event_possible_def)
    then show ?thesis by (simp add: OverviewRead peer_dialog_step_def overview_read_def)
  next
    case (AddClicked x)
    then show ?thesis using assms(2-4) timers by simp
  next
    case (EditClicked x y)
    then show ?thesis using assms(2-4) timers by simp
  next
    case (AddKeys x)
    then show ?thesis using assms(2) assms(4) by (simp add: late_keys_def)
  next
    case (ClearedKeys x)
    then show ?thesis using assms(2) assms(4) by (simp add: late_keys_def)
  next
    case (ClearKeysClicked)
    then show ?thesis using assms(2,3) by (simp add: peer_event_possible_def)
  next
    case (Typed x y)
    then show ?thesis using assms(2,3) by (simp add: peer_event_possible_def)
  next
    case (Toggled x)
    then show ?thesis using assms(2,3) by (simp add: peer_event_possible_def)
  next
    case (OverviewDue)
    then show ?thesis using timers by (simp add: peer_dialog_step_def)
  next
    case (BundleDue)
    then show ?thesis using timers by (simp add: peer_dialog_step_def)
  next
    case (OverviewSeen x)
    then show ?thesis by simp
  next
    case (EditorClosing)
    then show ?thesis by simp
  qed (use assms(2,3) in \<open>simp_all add: peer_event_possible_def\<close>)
qed
section \<open>Generated keys\<close>

lemma read_peer_controls: "read_controls (peer_controls b f) =
    [(''peer-f-name'', Some (JStr (pf_name f))), (''peer-f-tunnel'', Some (JStr (pf_tunnel f))), (''peer-f-pub'', Some (JStr (pf_pub f))),
     (''peer-f-disabled'', Some (JBool (pf_enabled f))), (''onboard-endpoint'', Some (JStr (pf_endpoint f))),
     (''onboard-client-priv'', Some (JStr (pf_priv f)))]"
  by (simp add: read_controls_def peer_controls_def peer_text_control_def is_read_def control_key_def control_json_def is_toggle_def upt_rec)

lemma peer_form_dirty: "is_dirty None (peer_controls b f) (Some (read_controls (peer_controls b' g))) \<longleftrightarrow>
    \<not> (pf_name f = pf_name g \<and> pf_tunnel f = pf_tunnel g \<and> pf_pub f = pf_pub g \<and> pf_enabled f = pf_enabled g \<and>
       pf_endpoint f = pf_endpoint g \<and> pf_priv f = pf_priv g)"
proof -
  have "values_text (read_controls (peer_controls b f)) = values_text (read_controls (peer_controls b' g)) \<longleftrightarrow>
      read_controls (peer_controls b f) = read_controls (peer_controls b' g)"
    by (rule values_text_inject) (simp add: read_peer_controls)
  then show ?thesis by (simp add: is_dirty_def Let_def) (simp add: read_peer_controls)
qed

text \<open>
  A generated key pair is no edit: after it is put into the form, the dialog asks before it closes exactly if
  one of the other fields differs from what it opened with.
\<close>

theorem generated_keys_are_no_edits:
  assumes "pd_tracker s = Some (read_controls (peer_controls b g))"
  shows "is_dirty None (dialog_controls (put_keys kp s)) (pd_tracker (put_keys kp s)) \<longleftrightarrow>
    \<not> (pf_name (pd_form s) = pf_name g \<and> pf_tunnel (pd_form s) = pf_tunnel g \<and> pf_enabled (pd_form s) = pf_enabled g \<and>
       pf_endpoint (pd_form s) = pf_endpoint g)"
proof -
  let ?f = "(pd_form s)\<lparr>pf_pub := snd kp, pf_priv := fst kp\<rparr>" and ?g = "g\<lparr>pf_pub := snd kp, pf_priv := fst kp\<rparr>"
  have c: "dialog_controls (put_keys kp s) = peer_controls (pd_priv_shown s) ?f"
    by (simp add: dialog_controls_def put_keys_def Let_def)
  have "pd_tracker (put_keys kp s) = Some (read_controls (peer_controls b ?g))"
    using assms by (simp add: put_keys_def Let_def mark_def GENERATED_KEY_FIELDS_def dialog_controls_def value_at_def read_peer_controls)
  then show ?thesis unfolding c by (simp add: peer_form_dirty)
qed

lemma generated_keys_are_no_edits_witness:
  "\<exists>s. \<not> is_dirty None (dialog_controls (put_keys (''priv'', ''pub'') s)) (pd_tracker (put_keys (''priv'', ''pub'') s)) \<and> pd_open s"
proof -
  let ?s = "show_peer_dialog page_start"
  have "pd_tracker ?s = Some (read_controls (peer_controls False (pd_form page_start)))"
    by (simp add: show_peer_dialog_def page_start_def mark_def Let_def dialog_controls_def)
  from generated_keys_are_no_edits [OF this, of "(''priv'', ''pub'')"] show ?thesis
    by (intro exI [of _ ?s]) (simp add: show_peer_dialog_def)
qed

text \<open>
  The page does not ask which dialog a key pair was generated for: one that arrives after another peer was opened
  for editing replaces that peer's public key in the form, and Save writes it.
\<close>

lemma late_keys_reach_another_peer:
  assumes "pf_index (pd_form s) = Some i" "add_keys env fresh (Inr kp) s = (s', q)"
  shows "pf_index (pd_form s') = Some i \<and> member_json (peer_entry (pd_form s')) ''public_key'' = Some (JStr (trim (snd kp)))"
  using assms by (auto simp: add_keys_def rebuild_and_fetch_def rebuild_bundle_def fetch_peer_overview_def put_keys_def peer_entry_def Let_def
      split: if_splits)

section \<open>A run that shows commands\<close>

definition toy_overview :: json where
  "toy_overview = JObj [(''server_public_key'', JStr ''srv'')]"

definition toy_env :: peer_env where
  "toy_env = \<lparr>pe_prefs = no_prefs\<lparr>wireguard_server_endpoint := ''vpn:1''\<rparr>, pe_url = ''https://x''\<rparr>"

text \<open>A run as a list of events with the same drawn passphrase, and the requests it sends.\<close>

fun dialog_after :: "peer_env \<Rightarrow> peer_dialog_event list \<Rightarrow> peer_dialog \<Rightarrow> peer_request list \<Rightarrow> bool \<Rightarrow> peer_dialog \<times> peer_request list \<times> bool" where
  "dialog_after env [] s qs late = (s, qs, late)"
| "dialog_after env (e # es) s qs late =
     (case peer_dialog_step env ''p'' e s of (s1, q) \<Rightarrow> dialog_after env es s1 (qs @ q) (late \<or> late_keys s e))"

fun all_possible :: "peer_env \<Rightarrow> bytes \<Rightarrow> peer_dialog_event list \<Rightarrow> peer_dialog \<Rightarrow> peer_request list \<Rightarrow> bool" where
  "all_possible env b [] s qs \<longleftrightarrow> True"
| "all_possible env b (e # es) s qs \<longleftrightarrow> peer_event_possible (\<lambda>_ _. b) s (set qs) e \<and>
     (case peer_dialog_step env ''p'' e s of (s1, q) \<Rightarrow> all_possible env b es s1 (qs @ q))"

lemma listed_run:
  "\<lbrakk>peer_dialog_run env (\<lambda>_ _. b) s (set qs) late; all_possible env b es s qs; dialog_after env es s qs late = (s', qs', late')\<rbrakk> \<Longrightarrow>
     peer_dialog_run env (\<lambda>_ _. b) s' (set qs') late'"
proof (induction es arbitrary: s qs late)
  case (Cons e es)
  obtain s1 q where st: "peer_dialog_step env ''p'' e s = (s1, q)" by (rule prod.exhaust)
  have "peer_event_possible (\<lambda>_ _. b) s (set qs) e" using Cons.prems(2) by simp
  from peer_dialog_run.step [OF Cons.prems(1) this _ st]
  have "peer_dialog_run env (\<lambda>_ _. b) s1 (set (qs @ q)) (late \<or> late_keys s e)" by simp
  from Cons.IH [OF this] Cons.prems(2,3) st show ?case by simp
qed simp

text \<open>A run of the tests below that starts where the page starts.\<close>

lemma listed_page_run:
  assumes "all_possible env b es page_start []"
  shows "case dialog_after env es page_start [] False of (s, qs, late) \<Rightarrow> peer_dialog_run env (\<lambda>_ _. b) s (set qs) late"
  using listed_run [OF _ assms] peer_dialog_run.start [of env "\<lambda>_ _. b"] by (simp split: prod.split)

definition typed_in_run :: "peer_dialog_event list" where
  "typed_in_run = [OverviewSeen (Some toy_overview), EditClicked (Some (JObj [(''peers'', JArr [toy_peer])])) 0, Typed FPriv ''s'', BundleDue,
     BundleSealed 2 (Inr [1, 2])]"


lemma closed_peer_editor_is_quiet_witness:
  "\<exists>s js. peer_dialog_run toy_env (\<lambda>_ _. [1, 2]) s js False \<and> ReadOverview 1 \<in> js \<and>
     peer_dialog_step toy_env ''p'' (OverviewRead 1 (Inr toy_overview)) s = (s, [])"
proof -
  let ?es = "take 2 typed_in_run @ [EditorClosing]"
  have "all_possible toy_env [1, 2] ?es page_start []" by code_simp
  note r = listed_page_run [OF this]
  obtain s qs l where a: "dialog_after toy_env ?es page_start [] False = (s, qs, l)" by (metis prod_cases3)
  have "\<not> snd (snd (dialog_after toy_env ?es page_start [] False))" "\<not> pd_open (fst (dialog_after toy_env ?es page_start [] False))"
    "ReadOverview 1 \<in> set (fst (snd (dialog_after toy_env ?es page_start [] False)))" by code_simp+
  then have st: "peer_dialog_run toy_env (\<lambda>_ _. [1, 2]) s (set qs) False" "\<not> pd_open s" "ReadOverview 1 \<in> set qs" using r a by auto
  from closed_peer_editor_is_quiet [OF st(1,2), of "OverviewRead 1 (Inr toy_overview)" "''p''"] st show ?thesis
    by (fastforce simp: peer_event_possible_def late_keys_def)
qed

text \<open>
  The exception happens. A peer is named and its dialog closed before the key pair has come; the pair then starts a bundle with no dialog open,
  and opening the dialog for another peer forgets the passphrase without overtaking that bundle. Its commands come up under an empty passphrase,
  with which no bundle opens.
\<close>

definition late_keys_run :: "peer_dialog_event list" where
  "late_keys_run =
     (let cfg = JObj [(''peers'', JArr [])] in
      [OverviewSeen (Some toy_overview), AddClicked (Some cfg), Typed FName ''a'', Typed FTunnel ''10.0.0.2/32'', EditorClosing,
       AddKeys (Inr (''priv'', ''pub'')), AddClicked (Some cfg), BundleSealed 2 (Inr [1, 2])])"

lemma late_keys_show_an_empty_passphrase:
  "\<exists>s js. peer_dialog_run toy_env (\<lambda>_ _. [1, 2]) s js True \<and> pd_open s \<and>
     panel_snippet (pd_bundle s) = Some (2, build_peer_two_line_snippet ''https://x'' [] (u8_to_b64 [1, 2]))"
proof -
  have "all_possible toy_env [1, 2] late_keys_run page_start []" by code_simp
  note r = listed_page_run [OF this]
  obtain s qs l where a: "dialog_after toy_env late_keys_run page_start [] False = (s, qs, l)" by (metis prod_cases3)
  have "snd (snd (dialog_after toy_env late_keys_run page_start [] False))" "pd_open (fst (dialog_after toy_env late_keys_run page_start [] False))"
    "panel_snippet (pd_bundle (fst (dialog_after toy_env late_keys_run page_start [] False))) =
       Some (2, build_peer_two_line_snippet ''https://x'' [] (u8_to_b64 [1, 2]))" by code_simp+
  with r a show ?thesis by auto
qed

end
