(* ===== verification/Polling.thy ===== *)
theory Polling
  imports Main
begin

text \<open>
  A page that polls keeps one interval of the browser: it remembers the interval, clears it, and sets a new one
  only after clearing. \<open>poll_id\<close> is the interval remembered, \<open>poll_live\<close> those the browser runs, \<open>poll_new\<close> the
  number of the next. The interface \<open>polled_page\<close> says what a page's steps do with it.
\<close>

record polling =
  poll_id :: "nat option"
  poll_live :: "nat list"
  poll_new :: nat

definition no_polling :: polling where
  "no_polling = \<lparr>poll_id = None, poll_live = [], poll_new = 0\<rparr>"

definition stop_polling :: "polling \<Rightarrow> polling" where
  "stop_polling p = (case poll_id p of
     None \<Rightarrow> p
   | Some t \<Rightarrow> p\<lparr>poll_live := filter (\<lambda>u. u \<noteq> t) (poll_live p), poll_id := None\<rparr>)"

definition restart_polling :: "polling \<Rightarrow> polling" where
  "restart_polling p =
     (let q = stop_polling p in
      q\<lparr>poll_id := Some (poll_new q), poll_live := poll_live q @ [poll_new q], poll_new := Suc (poll_new q)\<rparr>)"

text \<open>The browser runs the interval that is remembered and no other.\<close>

definition one_poll :: "polling \<Rightarrow> bool" where
  "one_poll p \<longleftrightarrow> poll_live p = (case poll_id p of None \<Rightarrow> [] | Some t \<Rightarrow> [t])"

lemma no_polling_ok [simp]: "one_poll no_polling"
  by (simp add: one_poll_def no_polling_def)

lemma stop_polling_ok [simp]: "one_poll p \<Longrightarrow> one_poll (stop_polling p) \<and> poll_live (stop_polling p) = [] \<and> poll_id (stop_polling p) = None"
  by (auto simp: one_poll_def stop_polling_def split: option.splits)

lemma restart_polling_ok [simp]: "one_poll p \<Longrightarrow> one_poll (restart_polling p)"
  using stop_polling_ok [of p] by (simp add: restart_polling_def one_poll_def Let_def)

definition polls_ok :: "polling \<Rightarrow> bool \<Rightarrow> bool" where
  "polls_ok p away \<longleftrightarrow> one_poll p \<and> (away \<longrightarrow> poll_live p = [])"

locale polled_page =
  fixes poll_of :: "'s \<Rightarrow> polling" and away :: "'s \<Rightarrow> bool" and step :: "'e \<Rightarrow> 's \<Rightarrow> 's"
  assumes step_polls: "poll_of (step e s) = poll_of s \<and> (away (step e s) \<longrightarrow> away s) \<or> poll_of (step e s) = stop_polling (poll_of s) \<or>
      poll_of (step e s) = restart_polling (poll_of s) \<and> \<not> away (step e s)"
begin

lemma step_keeps: "polls_ok (poll_of s) (away s) \<Longrightarrow> polls_ok (poll_of (step e s)) (away (step e s))"
  using step_polls [of e s] by (auto simp: polls_ok_def)

lemma run_keeps: "polls_ok (poll_of s) (away s) \<Longrightarrow> polls_ok (poll_of (fold step es s)) (away (fold step es s))"
  by (induction es arbitrary: s) (simp_all add: step_keeps)

end

end
