(* ===== verification/Peers_Page.thy ===== *)
theory Peers_Page
  imports Peer_Dialog Polling
begin

text \<open>
  \<open>pages/peers.js\<close>: the page around the editor: the whole table, the refresh with its poll of latencies, what the
  onboarding tab copies and downloads, and the QR dialog.
\<close>

section \<open>The table\<close>

definition NO_PEERS :: string where
  "NO_PEERS = ''<div class=\"evu-empty\"><p class=\"evu-empty__title\">No peers configured</p><p>Add a peer to hand out a WireGuard tunnel address and keys.</p><button type=\"button\" class=\"evu-btn evu-btn--primary\" id=\"peers-empty-add\">Add peer</button></div>''"

definition WG_WARN :: string where
  "WG_WARN = ''<p class=\"hint\">WireGuard peer status unavailable (<code>wg show</code> failed '' @ mdash @ '' interface down or tools missing).</p>''"

definition peers_table_html :: "string comparing \<Rightarrow> (rat \<Rightarrow> string) \<Rightarrow> sorts \<Rightarrow> int \<Rightarrow> bool \<Rightarrow> row_errors \<Rightarrow> json \<Rightarrow> jsval \<Rightarrow>
    (string \<rightharpoonup> json) option \<Rightarrow> string" where
  "peers_table_html coll str sorts now pingOn errs cfg wgStats pingByTunnel =
     (if config_peers cfg = [] then NO_PEERS
      else (if truthy (at_member wgStats ''wireguard_dump_failed'') then WG_WARN else []) @ ''<table class=\"data\"><thead><tr>'' @
        sort_header_html sorts ''peers'' ''name'' ''Name'' @ sort_header_html sorts ''peers'' ''tunnel'' ''Tunnel IP'' @
        ''<th scope=\"col\">Public key</th>'' @ (if pingOn then sort_header_html sorts ''peers'' ''ping'' ''Ping'' else []) @
        sort_header_html sorts ''peers'' ''status'' ''Status'' @ sort_header_html sorts ''peers'' ''enabled'' ''Enabled'' @
        ''<th scope=\"col\"><span class=\"evu-sr-only\">Actions</span></th></tr></thead><tbody>'' @
        concat (peer_rows_html coll str sorts now pingOn (wg_peer_pub_key_map wgStats) pingByTunnel errs cfg) @ ''</tbody></table>'')"

section \<open>The refresh and its poll\<close>

text \<open>
  \<open>pp_poll\<close> is the poll of the latencies, \<open>pp_shown\<close> what the table was last drawn from.
\<close>

record peers_page =
  pp_config :: "json option"
  pp_stats :: jsval
  pp_pings :: "(string \<rightharpoonup> json) option"
  pp_metrics :: bool
  pp_hidden :: bool
  pp_msg :: "string \<times> bool"
  pp_api :: "bool \<times> string"
  pp_loaded :: bool
  pp_loading :: nat
  pp_poll :: polling
  pp_shown :: "(json \<times> jsval \<times> (string \<rightharpoonup> json) option) option"

definition LIVE_VALUES_OLD :: string where
  "LIVE_VALUES_OLD = ''Some live values could not be refreshed, so handshakes, traffic or latency may be from an earlier load.''"

definition stop_peers_ping_polling :: "peers_page \<Rightarrow> peers_page" where
  "stop_peers_ping_polling s = s\<lparr>pp_poll := stop_polling (pp_poll s)\<rparr>"

definition draw_peers :: "(string \<rightharpoonup> json) option \<Rightarrow> peers_page \<Rightarrow> peers_page" where
  "draw_peers pings s = (case pp_config s of None \<Rightarrow> s | Some c \<Rightarrow> s\<lparr>pp_shown := Some (c, pp_stats s, pings)\<rparr>)"

definition refresh_peers_started :: "peers_page \<Rightarrow> peers_page" where
  "refresh_peers_started s = stop_peers_ping_polling (s\<lparr>pp_msg := ([], False), pp_loading := Suc (pp_loading s)\<rparr>)"

text \<open>The end of a refresh that read the config.\<close>

definition refresh_peers_landed :: "bool \<Rightarrow> peers_page \<Rightarrow> peers_page" where
  "refresh_peers_landed stale s0 =
     (let s1 = (draw_peers (pp_pings s0) s0)\<lparr>pp_loaded := True\<rparr>;
          s2 = (if stale then s1\<lparr>pp_msg := (LIVE_VALUES_OLD, True)\<rparr> else s1);
          s3 = (if pp_metrics s2 \<and> \<not> pp_hidden s2 then s2\<lparr>pp_poll := restart_polling (pp_poll s2)\<rparr> else stop_peers_ping_polling s2) in
      s3\<lparr>pp_loading := pp_loading s0 - 1\<rparr>)"

datatype peers_event =
    RefreshClicked
  | ConfigSettled "string + json" "json option"
  | PingsSettled bool "(string \<rightharpoonup> json) option"
  | PollAnswered "(string \<rightharpoonup> json) option"
  | LeftPage | ShownPage | MetricsSwitched bool

text \<open>
  The answers to the config and the stats come together; if latencies are collected the refresh then waits for
  them, and \<open>PingsSettled\<close> carries on with whether the stats had failed. An answer of none is a failure.
\<close>

definition peers_step :: "peers_event \<Rightarrow> peers_page \<Rightarrow> peers_page" where
  "peers_step e s = (case e of
     RefreshClicked \<Rightarrow> refresh_peers_started s
   | ConfigSettled (Inl m) _ \<Rightarrow> s\<lparr>pp_api := (False, m), pp_msg := (m, True), pp_loading := pp_loading s - 1\<rparr>
   | ConfigSettled (Inr c) st \<Rightarrow>
       (let s1 = s\<lparr>pp_config := Some c, pp_stats := (if st = None then pp_stats s else st), pp_api := (True, [])\<rparr> in
        if pp_metrics s then s1 else refresh_peers_landed (st = None) (s1\<lparr>pp_pings := None\<rparr>))
   | PingsSettled statsFailed m \<Rightarrow>
       refresh_peers_landed (statsFailed \<or> m = None) (if m = None then s else s\<lparr>pp_pings := m\<rparr>)
   | PollAnswered m \<Rightarrow> (if m = None then s else draw_peers m (s\<lparr>pp_pings := m\<rparr>))
   | LeftPage \<Rightarrow> (stop_peers_ping_polling s)\<lparr>pp_hidden := True\<rparr>
   | ShownPage \<Rightarrow> s\<lparr>pp_hidden := False\<rparr>
   | MetricsSwitched on \<Rightarrow> s\<lparr>pp_metrics := on\<rparr>)"

lemma draw_parts [simp]:
  "pp_poll (draw_peers p s) = pp_poll s" "pp_hidden (draw_peers p s) = pp_hidden s" "pp_metrics (draw_peers p s) = pp_metrics s"
  by (simp_all add: draw_peers_def split: option.split)

interpretation peers_polled: polled_page pp_poll pp_hidden peers_step
proof
  fix e s
  show "pp_poll (peers_step e s) = pp_poll s \<and> (pp_hidden (peers_step e s) \<longrightarrow> pp_hidden s) \<or>
      pp_poll (peers_step e s) = stop_polling (pp_poll s) \<or> pp_poll (peers_step e s) = restart_polling (pp_poll s) \<and> \<not> pp_hidden (peers_step e s)"
  proof (cases e)
    case (ConfigSettled r st)
    then show ?thesis by (cases r) (simp_all add: peers_step_def refresh_peers_landed_def stop_peers_ping_polling_def Let_def)
  qed (simp_all add: peers_step_def refresh_peers_started_def refresh_peers_landed_def stop_peers_ping_polling_def Let_def)
qed

text \<open>
  C27. However refreshes, polls, answers and visits overlap, at most one poll of the latencies runs, it is the one the
  page will stop, and none runs for a page that was left.
\<close>

theorem one_latency_poll_at_most:
  assumes "polls_ok (pp_poll s) (pp_hidden s)"
  shows "polls_ok (pp_poll (fold peers_step es s)) (pp_hidden (fold peers_step es s))"
  using assms by (rule peers_polled.run_keeps)

definition toy_page_state :: peers_page where
  "toy_page_state = \<lparr>pp_config = None, pp_stats = None, pp_pings = None, pp_metrics = True, pp_hidden = False, pp_msg = ([], False),
     pp_api = (True, []), pp_loaded = False, pp_loading = 0, pp_poll = no_polling, pp_shown = None\<rparr>"

lemma one_latency_poll_at_most_witness:
  "poll_live (pp_poll (fold peers_step [RefreshClicked, RefreshClicked, ConfigSettled (Inr JNull) None, PingsSettled True (Some Map.empty),
     ConfigSettled (Inr JNull) None, PingsSettled True None] toy_page_state)) = [1] \<and>
   one_poll (pp_poll (fold peers_step [RefreshClicked, LeftPage, ConfigSettled (Inr JNull) None, PingsSettled False None] toy_page_state))"
proof
  have "polls_ok (pp_poll toy_page_state) (pp_hidden toy_page_state)" by (simp add: polls_ok_def toy_page_state_def)
  from one_latency_poll_at_most [OF this]
  show "one_poll (pp_poll (fold peers_step [RefreshClicked, LeftPage, ConfigSettled (Inr JNull) None, PingsSettled False None] toy_page_state))"
    unfolding polls_ok_def by blast
qed (simp add: peers_step_def refresh_peers_started_def refresh_peers_landed_def stop_peers_ping_polling_def restart_polling_def stop_polling_def
    draw_peers_def toy_page_state_def no_polling_def Let_def)

text \<open>A refresh whose config cannot be read leaves the table as it is; one whose stats cannot be read keeps the last ones and says so.\<close>

lemma failed_refresh_keeps_the_table:
  "pp_shown (peers_step (ConfigSettled (Inl m) st) s) = pp_shown s" "pp_msg (peers_step (ConfigSettled (Inl m) st) s) = (m, True)"
  by (simp_all add: peers_step_def)

lemma stale_stats_are_kept_and_told:
  "\<not> pp_metrics s \<Longrightarrow> pp_shown (peers_step (ConfigSettled (Inr c) None) s) = Some (c, pp_stats s, None) \<and>
     pp_msg (peers_step (ConfigSettled (Inr c) None) s) = (LIVE_VALUES_OLD, True)"
  by (simp add: peers_step_def refresh_peers_landed_def draw_peers_def stop_peers_ping_polling_def Let_def split: option.split)

section \<open>Copying and downloading\<close>

definition onboarding_bundle_placeholder :: string where
  "onboarding_bundle_placeholder = ''Fill peer fields & private key and load Overview (API). Scripts appear below when onboarding data is ready '' @ mdash @ '' Regenerate rotates the encrypted bundle.''"

definition snippet_text :: "bundle_panel \<Rightarrow> string" where
  "snippet_text b = (case panel_snippet b of None \<Rightarrow> onboarding_bundle_placeholder | Some (_, t) \<Rightarrow> t)"

text \<open>A message, or the text to put on the clipboard (whose answer is the message shown).\<close>

definition copy_onboarding_field_or_cmd :: "string \<Rightarrow> bool \<Rightarrow> string \<Rightarrow> string + string" where
  "copy_onboarding_field_or_cmd shown clipboard missingMsg =
     (let t = trim shown in
      if t = [] \<or> t = onboarding_bundle_placeholder then Inl missingMsg
      else if \<not> clipboard then Inl ''Clipboard is not available in this context (try HTTPS or localhost).'' else Inr t)"

definition download_conf :: "string \<Rightarrow> string option \<Rightarrow> string + string \<times> string" where
  "download_conf name out =
     (let conf = extract_onboard_conf (case out of None \<Rightarrow> [] | Some t \<Rightarrow> t) in
      if conf = [] then Inl ''Build YAML + WireGuard config first.'' else Inr (conf_file_name name, conf))"

definition download_onboard_sh :: "string \<Rightarrow> bundle_panel \<Rightarrow> string + string \<times> string" where
  "download_onboard_sh name b =
     (let txt = trim (snippet_text b) in
      if txt = [] \<or> txt = onboarding_bundle_placeholder
      then Inl (''Onboarding bundle not ready '' @ mdash @ '' fill peer fields and wait for Overview.'')
      else Inr (''evuproxy-peer-'' @ safe_file_name False (if trim name = [] then ''peer'' else trim name) @ ''-onboard.sh'', txt @ nl))"

text \<open>No commands, no copy and no file.\<close>

lemma placeholder_trimmed: "trim onboarding_bundle_placeholder = onboarding_bundle_placeholder"
  by (simp add: onboarding_bundle_placeholder_def trim_def is_ws_def mdash_def)

lemma placeholder_is_not_handed_out:
  "panel_snippet b = None \<Longrightarrow> copy_onboarding_field_or_cmd (snippet_text b) clip m = Inl m \<and> (\<exists>e. download_onboard_sh name b = Inl e)"
  by (simp add: copy_onboarding_field_or_cmd_def download_onboard_sh_def snippet_text_def placeholder_trimmed)

section \<open>The QR dialog\<close>

record 'b qr_dialog =
  qr_open :: bool
  qr_images :: "'b list"
  qr_msg :: string

text \<open>A click: a message for the onboarding tab, or the request.\<close>

definition open_peer_qr_modal :: "string option \<Rightarrow> nat option \<Rightarrow> 'b qr_dialog \<Rightarrow> string + 'b qr_dialog \<times> string \<times> string" where
  "open_peer_qr_modal out index q =
     (let conf = extract_onboard_conf (case out of None \<Rightarrow> [] | Some t \<Rightarrow> t) in
      if conf = [] then Inl ''Build YAML + WireGuard config first.''
      else (case index of
          None \<Rightarrow> Inl ''Save the peer first to show a stable QR.''
        | Some i \<Rightarrow> Inr (q\<lparr>qr_images := [], qr_msg := ''Loading'' @ ellipsis, qr_open := True\<rparr>, ''/v1/peers/'' @ show_nat i @ ''/qr.png'', conf)))"

definition qr_answered :: "string + 'b \<Rightarrow> 'b qr_dialog \<Rightarrow> 'b qr_dialog" where
  "qr_answered r q = (case r of Inl e \<Rightarrow> q\<lparr>qr_msg := e\<rparr> | Inr b \<Rightarrow> q\<lparr>qr_images := qr_images q @ [b], qr_msg := []\<rparr>)"

definition close_peer_qr_modal :: "'b qr_dialog \<Rightarrow> 'b qr_dialog" where
  "close_peer_qr_modal q = q\<lparr>qr_images := [], qr_open := False, qr_msg := []\<rparr>"

text \<open>The config sent for the code is the one on screen: its part from \<open>[Interface]\<close>.\<close>

lemma qr_request:
  "open_peer_qr_modal (Some out) (Some i) q = Inr (q', path, conf) \<Longrightarrow> conf = extract_onboard_conf out \<and> qr_images (qr_answered (Inr b) q') = [b]"
  by (auto simp: open_peer_qr_modal_def qr_answered_def Let_def split: if_splits)

text \<open>
  An answer is not matched with the dialog that asked: a code that arrives after its dialog was closed and opened for another peer
  stands there beside that peer's own.
\<close>

lemma late_qr_code_is_shown:
  assumes "open_peer_qr_modal out1 i1 q = Inr (q1, r1)" "open_peer_qr_modal out2 i2 (close_peer_qr_modal q1) = Inr (q2, r2)"
  shows "qr_open (qr_answered (Inr b2) (qr_answered (Inr b1) q2)) \<and> qr_images (qr_answered (Inr b2) (qr_answered (Inr b1) q2)) = [b1, b2]"
  using assms by (auto simp: open_peer_qr_modal_def qr_answered_def Let_def split: if_splits option.splits)

end
