(* ===== verification/Routes_Page.thy ===== *)
theory Routes_Page
  imports Routes_Table Route_Ports Polling Config_Rows Peers_Table
begin

text \<open>
  \<open>pages/routes.js\<close>: the page around the route editor: the whole table, the refresh and the polls for paused routes
  and accepted traffic, what a failed switch says and where, what a removal and its Undo say, and the probe of a route.
\<close>

section \<open>The table\<close>

definition NO_ROUTES :: string where
  "NO_ROUTES = ''<div class=\"evu-empty\"><p class=\"evu-empty__title\">No forwarding routes yet</p><p>Add a route to forward a public port to a peer on the tunnel.</p><button type=\"button\" class=\"evu-btn evu-btn--primary\" id=\"routes-empty-add\">Add route</button></div>''"

definition routes_table_html :: "string comparing \<Rightarrow> (rat \<Rightarrow> string) \<Rightarrow> sorts \<Rightarrow> (string \<rightharpoonup> json) \<Rightarrow> row_errors \<Rightarrow> json \<Rightarrow> string" where
  "routes_table_html coll str sorts accepted errs cfg =
     (if routes_of cfg = [] then NO_ROUTES
      else ''<table class=\"data\"><thead><tr>'' @
        (if list_ex (\<lambda>r. route_name r \<noteq> []) (routes_of cfg) then sort_header_html sorts ''routes'' ''name'' ''Name'' else []) @
        concat (map (\<lambda>(col, label). sort_header_html sorts ''routes'' col label)
          [(''proto'', ''Proto''), (''ports'', ''Ports''), (''target'', ''Target''), (''source'', ''Source''), (''accepted'', ''Accepted''),
           (''enabled'', ''Enabled'')]) @
        ''<th scope=\"col\"><span class=\"evu-sr-only\">Actions</span></th></tr></thead><tbody>'' @
        concat (route_rows_html coll str sorts accepted errs cfg) @ ''</tbody></table>'')"

section \<open>A switch that failed\<close>

text \<open>
  The row's error or the page's message. A merge failure is about no row; otherwise the row is looked up again, in the
  config that the failed save may have adopted.
\<close>

definition switch_failed :: "bool \<Rightarrow> json list option \<Rightarrow> int \<Rightarrow> string \<Rightarrow> (json \<Rightarrow> string) \<Rightarrow> string \<Rightarrow> (nat \<times> string) option \<times> string" where
  "switch_failed merge rows index identity identityOf m =
     (let i = (if merge then -1 else resolve_list_index rows index identity identityOf) in
      if 0 \<le> i then (Some (nat i, m), []) else (None, m))"

text \<open>
  The message of a failed switch is never lost and never lands on another row: it stands under a row of the config now
  on screen that is the one switched, or on the page if that row is gone, not unique or was refused by the merge.
\<close>

theorem failed_switch_reports_on_its_row:
  "case switch_failed merge rows index identity identityOf m of
     (Some (i, t), p) \<Rightarrow> p = [] \<and> t = m \<and> \<not> merge \<and> (\<exists>rs. rows = Some rs \<and> i < length rs \<and> identityOf (rs ! i) = identity)
   | (None, p) \<Rightarrow> p = m"
proof -
  have "\<exists>rs. rows = Some rs \<and> nat i < length rs \<and> identityOf (rs ! nat i) = identity"
    if "resolve_list_index rows index identity identityOf = i" "0 \<le> i" for i
  proof -
    have "find_config_row rows index identity identityOf [] = Inr (nat i)" using that by (simp add: find_config_row_def)
    from find_config_row_found [OF this] show ?thesis .
  qed
  then show ?thesis by (auto simp: switch_failed_def Let_def)
qed

section \<open>Saying what was done\<close>

definition route_switch_label :: "bool \<Rightarrow> string" where
  "route_switch_label off = (if off then ''Route disabled'' else ''Route enabled'')"

definition removed_route_label :: "json \<Rightarrow> json \<Rightarrow> string" where
  "removed_route_label cfg removed =
     (let targetHost = trim (str_or_empty (member_json removed ''target_ip'')); peer = peer_name_for_target_host (Some cfg) targetHost;
          target = (if peer \<noteq> [] then peer else if targetHost \<noteq> [] then targetHost else mdash);
          ports = comma_list (member_json removed ''ports'');
          detail = proto_text removed @ '' '' @ (if ports \<noteq> [] then ports else mdash) @ '' to '' @ target in
      if route_name removed \<noteq> [] then route_name removed @ '': '' @ detail else detail)"

definition route_removed_toast :: "json \<Rightarrow> json \<Rightarrow> string \<times> string" where
  "route_removed_toast cfg removed =
     (''Removed route '' @ removed_route_label cfg removed @ ''.'', ''Restored route '' @ removed_route_label cfg removed @ ''.'')"

definition route_saved_toast :: "route_form \<Rightarrow> string" where
  "route_saved_toast f = (if f_index f = None then ''Route added.'' else ''Route saved.'')"

text \<open>One removal at a time: a click while one is under way, or on a row that is gone, does nothing.\<close>

definition remove_route_click :: "bool \<Rightarrow> json \<Rightarrow> nat \<Rightarrow> (int \<times> string) option" where
  "remove_route_click busy cfg i =
     (if busy then None
      else (case routes_or_none cfg of
          None \<Rightarrow> None
        | Some rs \<Rightarrow> if i < length rs \<and> truthy (Some (rs ! i)) then Some (int i, route_identity (rs ! i)) else None))"

section \<open>The page\<close>

text \<open>
  \<open>rp_rows\<close>: the config the rows were drawn from and the counts they were sorted on; \<open>rp_cells\<close>: the counts in the
  cells; \<open>rp_badges\<close>: the paused routes that the badges were put on for.
\<close>

record routes_page =
  rp_config :: "json option"
  rp_msg :: "string \<times> bool"
  rp_api :: "bool \<times> string"
  rp_loading :: nat
  rp_loaded :: bool
  rp_accepted :: "(string \<rightharpoonup> json) \<times> bool"
  rp_paused :: "json list"
  rp_banner :: paused_banner
  rp_sorted_by_accepted :: bool
  rp_rows :: "(json \<times> (string \<rightharpoonup> json)) option"
  rp_cells :: "(string \<rightharpoonup> json) \<times> bool"
  rp_badges :: "json list"
  rp_poll :: polling

definition draw_routes :: "routes_page \<Rightarrow> routes_page" where
  "draw_routes s = (case rp_config s of
     None \<Rightarrow> s
   | Some c \<Rightarrow> s\<lparr>rp_rows := Some (c, fst (rp_accepted s)), rp_cells := rp_accepted s, rp_badges := rp_paused s\<rparr>)"

definition stop_routes_polling :: "routes_page \<Rightarrow> routes_page" where
  "stop_routes_polling s = s\<lparr>rp_poll := stop_polling (rp_poll s)\<rparr>"

definition restart_routes_polling :: "routes_page \<Rightarrow> routes_page" where
  "restart_routes_polling s = s\<lparr>rp_poll := restart_polling (rp_poll s)\<rparr>"

datatype routes_event =
    RoutesRefreshClicked
  | RoutesRead "string + json"
  | PausedRead "json list option"
  | AcceptedRead "json list option"
  | AcceptedFollowsRefresh
  | SortedByAccepted bool
  | PollingStopped | PollingStarted

text \<open>
  The answers to the polls come in on their own, so each is an event. \<open>AcceptedFollowsRefresh\<close>: a refresh and the
  counts that it asked for are both in.
\<close>

definition routes_step :: "routes_event \<Rightarrow> routes_page \<Rightarrow> routes_page" where
  "routes_step e s = (case e of
     RoutesRefreshClicked \<Rightarrow> s\<lparr>rp_msg := ([], False), rp_loading := Suc (rp_loading s)\<rparr>
   | RoutesRead (Inl m) \<Rightarrow> s\<lparr>rp_api := (False, m), rp_msg := (m, True), rp_loading := rp_loading s - 1\<rparr>
   | RoutesRead (Inr c) \<Rightarrow>
       (draw_routes (s\<lparr>rp_config := Some c, rp_api := (True, [])\<rparr>))\<lparr>rp_loaded := True, rp_loading := rp_loading s - 1\<rparr>
   | PausedRead answer \<Rightarrow>
       (case refresh_auto_paused answer (rp_paused s) of (ps, changed) \<Rightarrow>
          if changed then s\<lparr>rp_paused := ps, rp_banner := render_auto_paused_banner ps, rp_badges := ps\<rparr> else s)
   | AcceptedRead answer \<Rightarrow>
       (if answer = None \<and> snd (rp_accepted s) then s
        else (let a = refresh_route_accepted answer (rp_accepted s) in s\<lparr>rp_accepted := a, rp_cells := a\<rparr>))
   | AcceptedFollowsRefresh \<Rightarrow> (if rp_sorted_by_accepted s then draw_routes s else s)
   | SortedByAccepted b \<Rightarrow> s\<lparr>rp_sorted_by_accepted := b\<rparr>
   | PollingStopped \<Rightarrow> stop_routes_polling s
   | PollingStarted \<Rightarrow> restart_routes_polling s)"

lemma draw_routes_parts [simp]:
  "rp_poll (draw_routes s) = rp_poll s" "rp_accepted (draw_routes s) = rp_accepted s" "rp_paused (draw_routes s) = rp_paused s"
  "rp_banner (draw_routes s) = rp_banner s" "rp_config (draw_routes s) = rp_config s"
  by (simp_all add: draw_routes_def split: option.split)

interpretation routes_polled: polled_page rp_poll "\<lambda>_. False" routes_step
proof
  fix e s
  show "rp_poll (routes_step e s) = rp_poll s \<and> (False \<longrightarrow> False) \<or> rp_poll (routes_step e s) = stop_polling (rp_poll s) \<or>
      rp_poll (routes_step e s) = restart_polling (rp_poll s) \<and> \<not> False"
  proof (cases e)
    case (RoutesRead r)
    then show ?thesis by (cases r) (simp_all add: routes_step_def)
  qed (auto simp: routes_step_def stop_routes_polling_def restart_routes_polling_def Let_def split: prod.split)
qed

text \<open>
  What is on screen is the newest that was heard: the counts in the cells, the badges and the banner, whichever of the
  refreshes and polls brought it, and one poll at most runs.
\<close>

definition routes_page_ok :: "routes_page \<Rightarrow> bool" where
  "routes_page_ok s \<longleftrightarrow> rp_cells s = rp_accepted s \<and> rp_badges s = rp_paused s \<and> rp_banner s = render_auto_paused_banner (rp_paused s) \<and>
     polls_ok (rp_poll s) False"

theorem routes_page_shows_the_newest: "routes_page_ok s \<Longrightarrow> routes_page_ok (fold routes_step es s)"
proof (induction es arbitrary: s)
  case (Cons e es)
  have "polls_ok (rp_poll (routes_step e s)) False"
    using routes_polled.step_keeps [of s e] Cons.prems by (simp add: routes_page_ok_def)
  moreover have "rp_cells (routes_step e s) = rp_accepted (routes_step e s) \<and> rp_badges (routes_step e s) = rp_paused (routes_step e s) \<and>
      rp_banner (routes_step e s) = render_auto_paused_banner (rp_paused (routes_step e s))"
  proof (cases e)
    case (RoutesRead r)
    then show ?thesis using Cons.prems by (cases r) (auto simp: routes_step_def draw_routes_def routes_page_ok_def)
  qed (use Cons.prems in \<open>auto simp: routes_step_def draw_routes_def routes_page_ok_def Let_def stop_routes_polling_def restart_routes_polling_def
      split: prod.split option.split\<close>)
  ultimately show ?case using Cons.IH by (simp add: routes_page_ok_def)
qed simp

text \<open>A poll never moves rows: only a refresh, or the counts that follow one, draws them anew.\<close>

lemma polls_keep_the_rows:
  "rp_rows (routes_step (PausedRead a) s) = rp_rows s" "rp_rows (routes_step (AcceptedRead b) s) = rp_rows s"
  "rp_rows (routes_step (RoutesRead (Inl m)) s) = rp_rows s"
  by (simp_all add: routes_step_def Let_def split: prod.split)

section \<open>The probe\<close>

record route_probe_dialog =
  pr_pending :: "(nat \<times> nat list) option"
  pr_open :: bool
  pr_port :: string
  pr_hint :: string
  pr_msg :: "string \<times> bool"

definition probe_hint_html :: "json \<Rightarrow> nat list \<Rightarrow> string" where
  "probe_hint_html r ps = ''Target <span class=\"mono\">'' @ escape_html (str_or_empty (member_json r ''target_ip'')) @ ''</span> '' @ mdash @ '' '' @
     escape_html (format_route_proto_cell (str_or_empty (member_json r ''proto''))) @ '' '' @ mdash @ '' <strong>'' @ show_nat (length ps) @ ''</strong> ports.''"

text \<open>What a probe's answer says.\<close>

definition probe_result_text :: "json \<Rightarrow> string" where
  "probe_result_text res =
     (let parts = map (\<lambda>r. string_of (member_json r ''proto'') @ '' port '' @ string_of (member_json r ''port'') @ '': '' @ string_of (member_json r ''status'') @
            (if truthy (member_json r ''error_detail'') then '' '' @ mdash @ '' '' @ str_or_empty (member_json r ''error_detail'') else []))
          (rows_or_none (member_json res ''results'')); t = join ''; '' parts in
      if t = [] then ''No results.'' else t)"

datatype probe_event = ProbeClicked nat | ProbeRun string | ProbeClosed | ProbeAnswered "string + json"

definition probe_route :: "json \<Rightarrow> nat \<Rightarrow> (bool \<times> string list) option" where
  "probe_route cfg i = map_option (\<lambda>r. (truthy (member_json r ''disabled''), texts_of (member_json r ''ports''))) (route_at cfg i)"

text \<open>A step with the request it sends: a route's position and the port to probe.\<close>

definition probe_step :: "json \<Rightarrow> probe_event \<Rightarrow> route_probe_dialog \<Rightarrow> route_probe_dialog \<times> (nat \<times> nat) option" where
  "probe_step cfg e s = (case e of
     ProbeClicked i \<Rightarrow> (case open_route_probe (probe_route cfg i) of
        NoSuchRoute \<Rightarrow> (s, None)
      | ProbeMessage m \<Rightarrow> (s\<lparr>pr_msg := (m, True)\<rparr>, None)
      | ProbePort n \<Rightarrow> (s\<lparr>pr_msg := (ellipsis, False)\<rparr>, Some (i, n))
      | AskWhichPort ps \<Rightarrow> (s\<lparr>pr_pending := Some (i, ps), pr_open := True, pr_port := show_nat (hd ps),
          pr_hint := probe_hint_html (the (route_at cfg i)) ps\<rparr>, None))
   | ProbeRun typed \<Rightarrow> (case pr_pending s of
        None \<Rightarrow> (s, None)
      | Some (i, ps) \<Rightarrow> (case run_route_probe ps typed of
           ProbePort n \<Rightarrow> (s\<lparr>pr_pending := None, pr_open := False, pr_msg := (ellipsis, False)\<rparr>, Some (i, n))
         | ProbeMessage m \<Rightarrow> (s\<lparr>pr_msg := (m, True)\<rparr>, None)
         | _ \<Rightarrow> (s, None)))
   | ProbeClosed \<Rightarrow> (s\<lparr>pr_pending := None, pr_open := False\<rparr>, None)
   | ProbeAnswered (Inl m) \<Rightarrow> (s\<lparr>pr_msg := (m, True)\<rparr>, None)
   | ProbeAnswered (Inr res) \<Rightarrow> (s\<lparr>pr_msg := (probe_result_text res, False)\<rparr>, None))"

definition no_probe :: route_probe_dialog where
  "no_probe = \<lparr>pr_pending = None, pr_open = False, pr_port = [], pr_hint = [], pr_msg = ([], False)\<rparr>"

text \<open>A run of clicks over configs that may change between them, with the request of the last step.\<close>

inductive probe_run :: "json set \<Rightarrow> route_probe_dialog \<Rightarrow> (nat \<times> nat) option \<Rightarrow> bool" where
  probe_start: "probe_run {} no_probe None"
| probe_next: "probe_run cs s q \<Longrightarrow> probe_step cfg e s = (s', q') \<Longrightarrow> probe_run (insert cfg cs) s' q'"

definition probeable :: "json set \<Rightarrow> nat \<Rightarrow> nat \<Rightarrow> bool" where
  "probeable cs i n \<longleftrightarrow> (\<exists>cfg \<in> cs. \<exists>ports. probe_route cfg i = Some (False, ports) \<and> route_covers ports n)"

lemma probe_run_inv: "probe_run cs s q \<Longrightarrow>
    (\<forall>i ps. pr_pending s = Some (i, ps) \<longrightarrow> (\<exists>cfg \<in> cs. \<exists>ports. probe_route cfg i = Some (False, ports) \<and> open_route_probe (Some (False, ports)) = AskWhichPort ps)) \<and>
    (\<forall>i n. q = Some (i, n) \<longrightarrow> probeable cs i n)"
proof (induction rule: probe_run.induct)
  case probe_start
  then show ?case by (simp add: no_probe_def)
next
  case (probe_next cs s q cfg e s' q')
  show ?case
  proof (cases e)
    case (ProbeClicked i)
    show ?thesis
    proof (cases "probe_route cfg i")
      case None
      then show ?thesis using probe_next ProbeClicked by (auto simp: probe_step_def open_route_probe_def)
    next
      case (Some r)
      obtain off ports where r: "r = (off, ports)" by (cases r)
      show ?thesis
      proof (cases "open_route_probe (Some (off, ports))")
        case (ProbePort n)
        then have "\<not> off" "route_covers ports n" using probed_port_belongs_to_the_route(1) by blast+
        then show ?thesis using probe_next ProbeClicked Some r ProbePort by (fastforce simp: probe_step_def probeable_def)
      next
        case (AskWhichPort ps)
        then have "\<not> off" by (auto simp: open_route_probe_def split: if_splits)
        then show ?thesis using probe_next ProbeClicked Some r AskWhichPort by (auto simp: probe_step_def)
      qed (use probe_next ProbeClicked Some r in \<open>auto simp: probe_step_def\<close>)
    qed
  next
    case (ProbeRun typed)
    show ?thesis
    proof (cases "pr_pending s")
      case None
      then show ?thesis using probe_next ProbeRun by (auto simp: probe_step_def)
    next
      case (Some p)
      obtain i ps where p: "p = (i, ps)" by (cases p)
      then obtain c ports where c: "c \<in> cs" "probe_route c i = Some (False, ports)" "open_route_probe (Some (False, ports)) = AskWhichPort ps"
        using probe_next.IH Some by blast
      have "run_route_probe ps typed = ProbePort n \<Longrightarrow> probeable (insert cfg cs) i n" for n
        using probed_port_belongs_to_the_route(2) [OF c(3)] c(1,2) unfolding probeable_def by blast
      then show ?thesis using probe_next ProbeRun Some p by (auto simp: probe_step_def split: route_probe.splits)
    qed
  next
    case ProbeClosed
    then show ?thesis using probe_next by (auto simp: probe_step_def)
  next
    case (ProbeAnswered r)
    then show ?thesis using probe_next by (cases r) (auto simp: probe_step_def)
  qed
qed

text \<open>
  A probe is only sent to a port that the route at that position covered, in a config that was on screen, while it was
  enabled: whatever is clicked, typed or closed in between.
\<close>

theorem probes_stay_on_the_route:
  assumes "probe_run cs s (Some (i, n))"
  shows "\<exists>cfg \<in> cs. \<exists>ports. probe_route cfg i = Some (False, ports) \<and> route_covers ports n"
  using probe_run_inv [OF assms] by (simp add: probeable_def)

definition one_port_routes :: json where
  "one_port_routes = JObj [(''forwarding'', JObj [(''routes'', JArr [JObj [(''ports'', JArr [JStr ''8080''])]])])]"

lemma probes_stay_on_the_route_witness:
  "\<exists>cs s n. probe_run cs s (Some (0, n)) \<and> route_covers [''8080''] n"
proof -
  have at: "probe_route one_port_routes 0 = Some (False, [''8080''])"
    by (simp add: probe_route_def route_at_def one_port_routes_def routes_of_def at_member_def rows_or_none_def list_of_def truthy_def texts_of_def)
  have "{n. route_covers [''8080''] n} = {8080}"
  proof -
    have "token_range (trim ''8080'') = Some (8080, 8080)" "entry_tokens ''8080'' = [''8080'']" by code_simp+
    then show ?thesis by (auto simp: route_covers_def token_covers_def)
  qed
  then have "open_route_probe (Some (False, [''8080''])) = ProbePort 8080"
    by (simp add: open_route_probe_def expanded_ports)
  then obtain s where "probe_step one_port_routes (ProbeClicked 0) no_probe = (s, Some (0, 8080))" by (simp add: probe_step_def at)
  from probe_next [OF probe_start this] have r: "probe_run {one_port_routes} s (Some (0, 8080))" by simp
  from probes_stay_on_the_route [OF this] at r show ?thesis by auto
qed

end
