(* ===== verification/Geo_Page.thy ===== *)
theory Geo_Page
  imports Geo_Picker Dirty Widgets Text_Output
begin

text \<open>
  \<open>pages/geoblocking.js\<close>: the page as a machine. Its state is the form's tab, the switches, the picker, the check of an address,
  the zone table and the save bar; a step is one handler, up to its next await, with the requests it sends and the toasts and
  prompts it raises.
\<close>

section \<open>State\<close>

record geo_page =
  gp_tab :: geo_tab
  gp_switches :: geo_switches
  gp_config :: "json option"
  gp_catalog :: "(country list \<times> (string \<rightharpoonup> country)) option"
  gp_explainer :: string
  gp_picker :: bool
  gp_draft :: "string list"
  gp_search :: string
  gp_hint :: string
  gp_msg :: "string \<times> bool"
  gp_detected :: "string option"
  gp_ip :: string
  gp_check :: ip_check_view
  gp_checking :: bool
  gp_zones :: string
  gp_zones_msg :: "string \<times> bool"
  gp_tabs :: tab_group
  gp_bar :: save_bar
  gp_sent :: "geo_snapshot option"
  gp_api :: "bool \<times> string"
  gp_page_loaded :: bool
  gp_loading :: nat
  gp_zones_loading :: nat

datatype geo_effect =
    FetchCatalog | FetchConfig | FetchSummary | FetchAddressForList | FetchAddressForCheck
  | PostCheck string json | PostUpdate | SaveGeoForm | SaveGeoSwitch nat bool
  | AskRefresh | AskDiscard | AskPickerDiscard | GeoToast string | GeoBadge

datatype geo_event =
    GeoRefreshClicked | GeoRefreshAgreed | GeoShown
  | CatalogSettled "json list option"
  | GeoConfigRead "string + json"
  | ConfigSavedElsewhere json
  | GeoEdited "geo_form \<Rightarrow> geo_form"
  | ModeClicked bool
  | ChipRemoved string
  | TabClicked string
  | GeoSaveClicked | GeoSaveAttempt json | GeoSaveSettled "string + json"
  | GeoDiscardClicked | GeoDiscardAgreed
  | GeoLeft
  | SwitchFlipped nat bool | SwitchSaved nat bool json | SwitchFailed nat bool string
  | PickerOpened | PickerSearched string | CountryChecked string bool | PickerDone | PickerDismissed | PickerDiscardAgreed
  | AddressAdding | AddressForList "string + json"
  | AddressTyped string | CheckPressed bool | CheckAnswered "string + json" | MinePressed | AddressForCheck "string + json"
  | UpdatePressed | UpdateSettled "string + json"
  | SummaryRead "string + json"

section \<open>Parts of steps\<close>

definition names_of :: "geo_page \<Rightarrow> string \<rightharpoonup> country" where
  "names_of s = (case gp_catalog s of Some (_, byCode) \<Rightarrow> byCode | None \<Rightarrow> Map.empty)"

definition geo_bar_suppressed :: "geo_page \<Rightarrow> bool" where
  "geo_bar_suppressed s \<longleftrightarrow> snd (gp_tabs s) = ''zones''"

definition sync_geo_save_bar :: "geo_page \<Rightarrow> geo_page" where
  "sync_geo_save_bar s = s\<lparr>gp_bar := sync_bar (is_geo_form_dirty (gp_tab s)) (geo_bar_suppressed s) (gp_bar s)\<rparr>"

definition MODE_EXPLAINER :: "bool \<Rightarrow> string" where
  "MODE_EXPLAINER allow =
     (if allow then ''Listed countries may reach public ports; others are dropped (logged).''
      else ''Listed countries are blocked from public ports; others are allowed.'')"

definition PICKER_HINT :: "bool \<Rightarrow> string" where
  "PICKER_HINT allow =
     (if allow then ''Check countries to allow. Search filters the list.'' else ''Check countries to block. Search filters the list.'')"

definition show_geo_list_mode :: "bool \<Rightarrow> geo_page \<Rightarrow> geo_page" where
  "show_geo_list_mode allow s = s\<lparr>gp_explainer := MODE_EXPLAINER allow, gp_hint := (if gp_picker s then PICKER_HINT allow else gp_hint s)\<rparr>"

definition set_geo_list_mode :: "bool \<Rightarrow> geo_page \<Rightarrow> geo_page" where
  "set_geo_list_mode allow s =
     show_geo_list_mode allow (s\<lparr>gp_tab := (gp_tab s)\<lparr>geo_form_of := (geo_form_of (gp_tab s))\<lparr>g_allow := allow\<rparr>\<rparr>\<rparr>)"

text \<open>The form taken from a config, with all that shows it: switches that are not being saved, the mode's texts, the bar.\<close>

definition fill_geo_page :: "json \<Rightarrow> geo_page \<Rightarrow> geo_page" where
  "fill_geo_page c s =
     (let s1 = s\<lparr>gp_tab := load_geo_form c (gp_tab s), gp_switches := sync_geo_switches c (gp_switches s)\<rparr> in
      sync_geo_save_bar (show_geo_list_mode (allow_mode (geo_of c)) s1))"

definition set_codes :: "string list \<Rightarrow> geo_page \<Rightarrow> geo_page" where
  "set_codes cs s =
     sync_geo_save_bar (s\<lparr>gp_tab := (gp_tab s)\<lparr>geo_form_of := (geo_form_of (gp_tab s))\<lparr>g_codes := cs\<rparr>\<rparr>\<rparr>)"

definition start_zones :: "geo_page \<Rightarrow> geo_page" where
  "start_zones s = s\<lparr>gp_zones_msg := ([], False), gp_zones_loading := gp_zones_loading s + 1\<rparr>"

definition start_geo_refresh :: "geo_page \<Rightarrow> geo_page \<times> geo_effect list" where
  "start_geo_refresh s =
     (s\<lparr>gp_msg := ([], False), gp_check := no_ip_check (gp_check s), gp_loading := gp_loading s + 1\<rparr>,
      if gp_catalog s = None then [FetchCatalog] else [FetchConfig])"

definition NO_ADDRESS :: string where
  "NO_ADDRESS = ''Could not detect your IPv4 address.''"

definition detected_line :: "json \<Rightarrow> string" where
  "detected_line info =
     (let ip = str_or_empty (member_json info ''detected_client_ip'') in
      ''Detected: '' @ (if ip = [] then ''unknown'' else ip) @ '' ('' @ client_ip_source_label (str_or_empty (member_json info ''ip_detection_source'')) @ '')'')"

definition check_address :: "geo_page \<Rightarrow> geo_page \<times> geo_effect list" where
  "check_address s = (case run_geo_ip_check (gp_ip s) (gp_config s) (geo_form_of (gp_tab s)) of
     AskForAddress v \<Rightarrow> (s\<lparr>gp_check := v\<rparr>, [])
   | LoadFirst m \<Rightarrow> (s\<lparr>gp_msg := (m, True)\<rparr>, [])
   | CheckRequest ip c \<Rightarrow> (s\<lparr>gp_checking := True\<rparr>, [PostCheck ip c]))"

section \<open>Steps\<close>

text \<open>Clicks, input and changes inside the page reach the save bar after their own handler.\<close>

definition in_page :: "geo_page \<times> geo_effect list \<Rightarrow> geo_page \<times> geo_effect list" where
  "in_page r = (case r of (s, q) \<Rightarrow> (sync_geo_save_bar s, q))"

text \<open>The refresh: country names are a convenience, so the config is read whether or not the catalog came.\<close>

definition geo_refresh_step :: "string comparing \<Rightarrow> bool \<Rightarrow> geo_event \<Rightarrow> geo_page \<Rightarrow> geo_page \<times> geo_effect list" where
  "geo_refresh_step coll advanced e s = (case e of
     GeoRefreshClicked \<Rightarrow> in_page (if is_geo_form_dirty (gp_tab s) then (s, [AskRefresh]) else start_geo_refresh s)
   | CatalogSettled raw \<Rightarrow>
       (s\<lparr>gp_catalog := (if gp_catalog s \<noteq> None then gp_catalog s else map_option (load_geo_country_catalog coll) raw)\<rparr>, [FetchConfig])
   | GeoConfigRead r \<Rightarrow>
       (let s1 = (case r of
              Inl m \<Rightarrow> s\<lparr>gp_api := (False, m), gp_msg := (m, True)\<rparr>
            | Inr c \<Rightarrow> (fill_geo_page c (s\<lparr>gp_config := Some c, gp_api := (True, [])\<rparr>))\<lparr>gp_page_loaded := True\<rparr>);
            s2 = s1\<lparr>gp_loading := gp_loading s - 1,
                    gp_tabs := snd (sync_advanced_tabs_gating advanced (([], []), gp_tabs s1))\<rparr> in
        (start_zones s2, [FetchSummary]))
   | _ \<Rightarrow> start_geo_refresh s)"

definition geo_form_step :: "bool \<Rightarrow> geo_event \<Rightarrow> geo_page \<Rightarrow> geo_page \<times> geo_effect list" where
  "geo_form_step advanced e s = (case e of
     GeoEdited f \<Rightarrow> in_page (s\<lparr>gp_tab := (gp_tab s)\<lparr>geo_form_of := f (geo_form_of (gp_tab s))\<rparr>\<rparr>, [])
   | ModeClicked allow \<Rightarrow> in_page (set_geo_list_mode allow s, [])
   | ChipRemoved code \<Rightarrow> in_page (set_codes (remove_geo_tag code (g_codes (geo_form_of (gp_tab s)))) s, [])
   | TabClicked name \<Rightarrow> in_page (s\<lparr>gp_tabs := set_geo_editor_tab advanced name (gp_tabs s)\<rparr>, [])
   | PickerOpened \<Rightarrow>
       in_page (s\<lparr>gp_picker := True, gp_draft := open_geo_country_modal (g_codes (geo_form_of (gp_tab s))), gp_search := [],
          gp_hint := PICKER_HINT (g_allow (geo_form_of (gp_tab s)))\<rparr>, [])
   | PickerSearched q \<Rightarrow> (s\<lparr>gp_search := q\<rparr>, [])
   | CountryChecked code on \<Rightarrow> (s\<lparr>gp_draft := check_country code on (gp_draft s)\<rparr>, [])
   | PickerDone \<Rightarrow> ((set_codes (gp_draft s) s)\<lparr>gp_picker := False\<rparr>, [])
   | PickerDismissed \<Rightarrow>
       (if geo_modal_dirty (g_codes (geo_form_of (gp_tab s))) (gp_draft s) then (s, [AskPickerDiscard]) else (s\<lparr>gp_picker := False\<rparr>, []))
   | PickerDiscardAgreed \<Rightarrow> (s\<lparr>gp_picker := False\<rparr>, [])
   | _ \<Rightarrow> (s, []))"

definition geo_save_step :: "geo_event \<Rightarrow> geo_page \<Rightarrow> geo_page \<times> geo_effect list" where
  "geo_save_step e s = (case e of
     GeoSaveClicked \<Rightarrow>
       (case click_save (gp_bar s) of (b, starts) \<Rightarrow>
         if starts then (s\<lparr>gp_bar := b, gp_sent := Some (geo_form_snapshot (geo_form_of (gp_tab s)))\<rparr>, [SaveGeoForm]) else (s, []))
   | GeoSaveAttempt c \<Rightarrow> (if gp_sent s = None then s else s\<lparr>gp_tab := geo_base_after (gp_tab s) c\<rparr>, [])
   | GeoSaveSettled r \<Rightarrow>
       (case gp_sent s of
          None \<Rightarrow> (s, [])
        | Some sent \<Rightarrow>
            (let s0 = s\<lparr>gp_sent := None\<rparr> in
             case r of
               Inl m \<Rightarrow> (s0\<lparr>gp_bar := save_finished (Some m) (is_geo_form_dirty (gp_tab s)) (geo_bar_suppressed s) (gp_bar s)\<rparr>, [])
             | Inr c \<Rightarrow>
                 (let s1 = s0\<lparr>gp_config := Some c\<rparr>;
                      s2 = (if geo_form_snapshot (geo_form_of (gp_tab s)) = sent then fill_geo_page c s1
                            else s1\<lparr>gp_tab := set_geo_baseline c (gp_tab s), gp_switches := sync_geo_switches c (gp_switches s)\<rparr>);
                      s3 = start_zones (s2\<lparr>gp_msg := ([], False), gp_api := (True, [])\<rparr>) in
                  (s3\<lparr>gp_bar := save_finished None (is_geo_form_dirty (gp_tab s3)) (geo_bar_suppressed s3) (gp_bar s3)\<rparr>,
                   [GeoBadge, FetchSummary, GeoToast ''Geoblocking saved.'']))))
   | GeoDiscardClicked \<Rightarrow> (s, [AskDiscard])
   | GeoDiscardAgreed \<Rightarrow>
       (sync_geo_save_bar (fill_geo_page (case gp_config s of Some c \<Rightarrow> c | None \<Rightarrow> JNull) (s\<lparr>gp_msg := ([], False)\<rparr>)), [])
   | GeoLeft \<Rightarrow> (sync_geo_save_bar (s\<lparr>gp_tab := (gp_tab s)\<lparr>geo_loaded := False\<rparr>\<rparr>), [])
   | _ \<Rightarrow> (s, []))"

text \<open>A switch saves on its own; a form that is clean then takes in whatever else that save brought along.\<close>

definition geo_switch_step :: "geo_event \<Rightarrow> geo_page \<Rightarrow> geo_page \<times> geo_effect list" where
  "geo_switch_step e s = (case e of
     SwitchFlipped i on \<Rightarrow>
       (case set_geo_switch i on (gp_switches s) of (sw, edit) \<Rightarrow>
         in_page (s\<lparr>gp_switches := sw\<rparr>, if edit = None then [] else [SaveGeoSwitch i on]))
   | SwitchSaved i on c \<Rightarrow>
       (case geo_switch_saved i on c (gp_switches s, gp_tab s) of ((sw, t), toast) \<Rightarrow>
         (let s1 = s\<lparr>gp_config := Some c, gp_api := (True, []), gp_switches := sw, gp_tab := t\<rparr>;
              s2 = (if i = 0 then start_zones s1 else s1);
              s3 = (if is_geo_form_dirty (gp_tab s) then s2 else sync_geo_save_bar (show_geo_list_mode (allow_mode (geo_of c)) s2)) in
          (s3, GeoBadge # (if i = 0 then [FetchSummary] else []) @ [GeoToast toast])))
   | SwitchFailed i on m \<Rightarrow> (s\<lparr>gp_switches := geo_switch_failed i on (gp_config s) m (gp_switches s)\<rparr>, [])
   | _ \<Rightarrow> (s, []))"

text \<open>
  Addresses: the visitor's own for the break-glass list or for the check, and the check. A key press runs the check as well
  as the button, which alone is disabled while one is out.
\<close>

definition geo_address_step :: "geo_event \<Rightarrow> geo_page \<Rightarrow> geo_page \<times> geo_effect list" where
  "geo_address_step e s = (case e of
     AddressAdding \<Rightarrow> in_page (s, [FetchAddressForList])
   | AddressForList (Inl m) \<Rightarrow> (s\<lparr>gp_msg := (m, True)\<rparr>, [])
   | AddressForList (Inr info) \<Rightarrow>
       (let f = geo_form_of (gp_tab s); s1 = s\<lparr>gp_detected := Some (detected_line info)\<rparr> in
        case geo_add_detected_ip info (g_break_glass f) of (list, m, bad) \<Rightarrow>
          (if bad then s1\<lparr>gp_msg := (m, True)\<rparr>
           else (sync_geo_save_bar (s1\<lparr>gp_tab := (gp_tab s)\<lparr>geo_form_of := f\<lparr>g_break_glass := list\<rparr>\<rparr>\<rparr>))\<lparr>gp_msg := (m, False)\<rparr>, []))
   | AddressTyped t \<Rightarrow> in_page (s\<lparr>gp_ip := t\<rparr>, [])
   | CheckPressed byKey \<Rightarrow> (if gp_checking s \<and> \<not> byKey then (s, []) else in_page (check_address s))
   | CheckAnswered (Inl m) \<Rightarrow> (s\<lparr>gp_check := no_ip_check (gp_check s), gp_msg := (m, True), gp_checking := False\<rparr>, [])
   | CheckAnswered (Inr res) \<Rightarrow>
       (s\<lparr>gp_check := render_geo_ip_check_result (names_of s) res, gp_api := (True, []), gp_checking := False\<rparr>, [])
   | MinePressed \<Rightarrow> in_page (s, [FetchAddressForCheck])
   | AddressForCheck (Inl m) \<Rightarrow> (s\<lparr>gp_msg := (m, True)\<rparr>, [])
   | AddressForCheck (Inr info) \<Rightarrow>
       (let ip = str_or_empty (member_json info ''detected_client_ip'') in
        if ip = [] then (s\<lparr>gp_msg := (NO_ADDRESS, True)\<rparr>, []) else check_address (s\<lparr>gp_ip := ip\<rparr>))
   | _ \<Rightarrow> (s, []))"

definition geo_zones_step :: "(nat list \<Rightarrow> string) \<Rightarrow> geo_event \<Rightarrow> geo_page \<Rightarrow> geo_page \<times> geo_effect list" where
  "geo_zones_step emoji e s = (case e of
     UpdatePressed \<Rightarrow> in_page (s\<lparr>gp_msg := (ellipsis, False)\<rparr>, [PostUpdate])
   | UpdateSettled (Inl m) \<Rightarrow> (s\<lparr>gp_msg := (m, True)\<rparr>, [])
   | UpdateSettled (Inr res) \<Rightarrow>
       (start_zones (s\<lparr>gp_msg := ([], False), gp_api := (True, [])\<rparr>), [FetchSummary, GeoToast (geo_updated_message (Some res))])
   | SummaryRead (Inl m) \<Rightarrow> (s\<lparr>gp_zones_msg := (m, True), gp_zones_loading := gp_zones_loading s - 1\<rparr>, [])
   | SummaryRead (Inr r) \<Rightarrow> (s\<lparr>gp_zones := geo_zones_html emoji (names_of s) r, gp_zones_loading := gp_zones_loading s - 1\<rparr>, [])
   | _ \<Rightarrow> (s, []))"

definition geo_step :: "string comparing \<Rightarrow> (nat list \<Rightarrow> string) \<Rightarrow> bool \<Rightarrow> geo_event \<Rightarrow> geo_page \<Rightarrow> geo_page \<times> geo_effect list" where
  "geo_step coll emoji advanced e s = (case e of
     GeoRefreshClicked \<Rightarrow> geo_refresh_step coll advanced e s | GeoRefreshAgreed \<Rightarrow> geo_refresh_step coll advanced e s
   | GeoShown \<Rightarrow> geo_refresh_step coll advanced e s | CatalogSettled _ \<Rightarrow> geo_refresh_step coll advanced e s
   | GeoConfigRead _ \<Rightarrow> geo_refresh_step coll advanced e s
   | ConfigSavedElsewhere c \<Rightarrow> (s\<lparr>gp_config := Some c\<rparr>, [])
   | GeoEdited _ \<Rightarrow> geo_form_step advanced e s | ModeClicked _ \<Rightarrow> geo_form_step advanced e s | ChipRemoved _ \<Rightarrow> geo_form_step advanced e s
   | TabClicked _ \<Rightarrow> geo_form_step advanced e s | PickerOpened \<Rightarrow> geo_form_step advanced e s | PickerSearched _ \<Rightarrow> geo_form_step advanced e s
   | CountryChecked _ _ \<Rightarrow> geo_form_step advanced e s | PickerDone \<Rightarrow> geo_form_step advanced e s
   | PickerDismissed \<Rightarrow> geo_form_step advanced e s | PickerDiscardAgreed \<Rightarrow> geo_form_step advanced e s
   | SwitchFlipped _ _ \<Rightarrow> geo_switch_step e s | SwitchSaved _ _ _ \<Rightarrow> geo_switch_step e s | SwitchFailed _ _ _ \<Rightarrow> geo_switch_step e s
   | AddressAdding \<Rightarrow> geo_address_step e s | AddressForList _ \<Rightarrow> geo_address_step e s | AddressTyped _ \<Rightarrow> geo_address_step e s
   | CheckPressed _ \<Rightarrow> geo_address_step e s | CheckAnswered _ \<Rightarrow> geo_address_step e s | MinePressed \<Rightarrow> geo_address_step e s
   | AddressForCheck _ \<Rightarrow> geo_address_step e s
   | UpdatePressed \<Rightarrow> geo_zones_step emoji e s | UpdateSettled _ \<Rightarrow> geo_zones_step emoji e s | SummaryRead _ \<Rightarrow> geo_zones_step emoji e s
   | _ \<Rightarrow> geo_save_step e s)"

section \<open>The save bar\<close>

definition geo_bar_ok :: "geo_page \<Rightarrow> bool" where
  "geo_bar_ok s \<longleftrightarrow> (save_bar_hidden (gp_bar s) \<longleftrightarrow> \<not> is_geo_form_dirty (gp_tab s) \<or> geo_bar_suppressed s)"

text \<open>What the bar depends on: a step that leaves it alone keeps the bar right.\<close>

lemma geo_bar_frame:
  "\<lbrakk>geo_bar_ok s; save_bar_hidden (gp_bar s') = save_bar_hidden (gp_bar s); is_geo_form_dirty (gp_tab s') = is_geo_form_dirty (gp_tab s);
    geo_bar_suppressed s' = geo_bar_suppressed s\<rbrakk> \<Longrightarrow> geo_bar_ok s'"
  by (simp add: geo_bar_ok_def)

lemma synced_bar [simp]: "geo_bar_ok (sync_geo_save_bar s)"
  by (simp add: geo_bar_ok_def sync_geo_save_bar_def sync_bar_def geo_bar_suppressed_def Let_def)

lemma in_page_ok [simp]: "geo_bar_ok (fst (in_page r))"
  by (cases r) (simp add: in_page_def)

lemma saved_bar [simp]: "geo_bar_ok (s\<lparr>gp_bar := save_finished m (is_geo_form_dirty (gp_tab s)) (geo_bar_suppressed s) b\<rparr>)"
  by (simp add: geo_bar_ok_def save_finished_def sync_bar_def geo_bar_suppressed_def Let_def split: option.split)

lemma geo_bar_ok_updates [simp]:
  "geo_bar_ok (s\<lparr>gp_msg := a\<rparr>) = geo_bar_ok s" "geo_bar_ok (s\<lparr>gp_api := b\<rparr>) = geo_bar_ok s" "geo_bar_ok (s\<lparr>gp_check := v\<rparr>) = geo_bar_ok s"
  "geo_bar_ok (s\<lparr>gp_loading := n\<rparr>) = geo_bar_ok s" "geo_bar_ok (s\<lparr>gp_picker := p\<rparr>) = geo_bar_ok s" "geo_bar_ok (s\<lparr>gp_page_loaded := p\<rparr>) = geo_bar_ok s"
  "geo_bar_ok (s\<lparr>gp_search := t\<rparr>) = geo_bar_ok s" "geo_bar_ok (s\<lparr>gp_draft := d\<rparr>) = geo_bar_ok s" "geo_bar_ok (s\<lparr>gp_config := c\<rparr>) = geo_bar_ok s"
  "geo_bar_ok (s\<lparr>gp_catalog := k\<rparr>) = geo_bar_ok s" "geo_bar_ok (s\<lparr>gp_ip := t\<rparr>) = geo_bar_ok s" "geo_bar_ok (s\<lparr>gp_checking := p\<rparr>) = geo_bar_ok s"
  "geo_bar_ok (s\<lparr>gp_zones := t\<rparr>) = geo_bar_ok s" "geo_bar_ok (s\<lparr>gp_zones_msg := a\<rparr>) = geo_bar_ok s" "geo_bar_ok (s\<lparr>gp_zones_loading := n\<rparr>) = geo_bar_ok s"
  "geo_bar_ok (s\<lparr>gp_switches := sw\<rparr>) = geo_bar_ok s" "geo_bar_ok (s\<lparr>gp_sent := x\<rparr>) = geo_bar_ok s" "geo_bar_ok (s\<lparr>gp_detected := y\<rparr>) = geo_bar_ok s"
  by (simp_all add: geo_bar_ok_def geo_bar_suppressed_def)

lemma start_zones_bar [simp]: "geo_bar_ok (start_zones s) = geo_bar_ok s"
  by (simp add: start_zones_def)

lemma filled_bar [simp]: "geo_bar_ok (fill_geo_page c s)"
  by (simp add: fill_geo_page_def Let_def)

lemma gated_zones: "snd (snd (sync_advanced_tabs_gating on (([], []), g))) = ''zones'' \<longleftrightarrow> snd g = ''zones''"
  by (cases g) (simp add: sync_advanced_tabs_gating_def set_geo_editor_tab_def select_editor_tab_def)

lemma gated_bar [simp]: "geo_bar_ok (s\<lparr>gp_tabs := snd (sync_advanced_tabs_gating on (([], []), gp_tabs s))\<rparr>) = geo_bar_ok s"
  by (simp add: geo_bar_ok_def geo_bar_suppressed_def gated_zones)

lemma geo_base_after_dirty [simp]: "is_geo_form_dirty (geo_base_after t c) = is_geo_form_dirty t"
  by (simp add: geo_base_after_def is_geo_form_dirty_def)

lemma geo_refresh_bar: "geo_bar_ok s \<Longrightarrow> geo_bar_ok (fst (geo_refresh_step coll adv e s))"
proof (cases e)
  case (GeoConfigRead r)
  assume ok: "geo_bar_ok s"
  define s1 where "s1 = (case r of Inl m \<Rightarrow> s\<lparr>gp_api := (False, m), gp_msg := (m, True)\<rparr>
    | Inr c \<Rightarrow> (fill_geo_page c (s\<lparr>gp_config := Some c, gp_api := (True, [])\<rparr>))\<lparr>gp_page_loaded := True\<rparr>)"
  have "geo_bar_ok s1" using ok by (simp add: s1_def split: sum.split)
  then have "geo_bar_ok (s1\<lparr>gp_loading := gp_loading s - 1\<rparr>)" by simp
  then have "geo_bar_ok ((s1\<lparr>gp_loading := gp_loading s - 1\<rparr>)\<lparr>gp_tabs := snd (sync_advanced_tabs_gating adv (([], []), gp_tabs (s1\<lparr>gp_loading := gp_loading s - 1\<rparr>)))\<rparr>)"
    by (simp only: gated_bar)
  then show ?thesis unfolding GeoConfigRead geo_refresh_step_def by (simp add: Let_def s1_def [symmetric])
qed (auto simp: geo_refresh_step_def start_geo_refresh_def)

lemma geo_form_bar: "geo_bar_ok s \<Longrightarrow> geo_bar_ok (fst (geo_form_step adv e s))"
  by (cases e) (auto simp: geo_form_step_def set_codes_def)

lemma geo_save_bar: "geo_bar_ok s \<Longrightarrow> geo_bar_ok (fst (geo_save_step e s))"
proof (cases e)
  case GeoSaveClicked
  assume "geo_bar_ok s"
  then show ?thesis unfolding GeoSaveClicked
    by (auto simp: geo_save_step_def click_save_def geo_bar_ok_def geo_bar_suppressed_def split: prod.split if_splits)
next
  case (GeoSaveAttempt c)
  assume "geo_bar_ok s"
  then show ?thesis unfolding GeoSaveAttempt by (auto simp: geo_save_step_def geo_bar_ok_def geo_bar_suppressed_def)
next
  case (GeoSaveSettled r)
  assume ok: "geo_bar_ok s"
  show ?thesis
  proof (cases r)
    case (Inl m)
    then show ?thesis using ok saved_bar [where s = "s\<lparr>gp_sent := None\<rparr>"]
      by (cases "gp_sent s") (simp_all add: GeoSaveSettled geo_save_step_def Let_def geo_bar_suppressed_def)
  next
    case (Inr c)
    then show ?thesis using ok by (cases "gp_sent s") (simp_all add: GeoSaveSettled geo_save_step_def Let_def)
  qed
qed (auto simp: geo_save_step_def)

lemma geo_switch_bar: "geo_bar_ok s \<Longrightarrow> geo_bar_ok (fst (geo_switch_step e s))"
proof (cases e)
  case (SwitchSaved i on c)
  assume ok: "geo_bar_ok s"
  show ?thesis
  proof (cases "is_geo_form_dirty (gp_tab s)")
    case True
    then have t: "snd (fst (geo_switch_saved i on c (gp_switches s, gp_tab s))) = gp_tab s" by (simp add: geo_switch_saved_def Let_def)
    have "geo_bar_ok (s\<lparr>gp_config := a, gp_api := b, gp_switches := sw, gp_tab := gp_tab s\<rparr>)" for a b sw
      using ok by (simp add: geo_bar_ok_def geo_bar_suppressed_def)
    then show ?thesis using t True unfolding SwitchSaved
      by (simp add: geo_switch_step_def Let_def split: prod.split) (auto simp: geo_bar_ok_def geo_bar_suppressed_def)
  qed (simp add: SwitchSaved geo_switch_step_def Let_def split: prod.split)
qed (auto simp: geo_switch_step_def split: prod.split)

lemma check_address_bar: "geo_bar_ok s \<Longrightarrow> geo_bar_ok (fst (check_address s))"
  by (simp add: check_address_def split: ip_check.split)

lemma geo_address_bar: "geo_bar_ok s \<Longrightarrow> geo_bar_ok (fst (geo_address_step e s))"
proof (cases e)
  case (AddressForList r)
  then show "geo_bar_ok s \<Longrightarrow> ?thesis" by (cases r) (simp_all add: geo_address_step_def Let_def split: prod.split)
next
  case (AddressForCheck r)
  then show "geo_bar_ok s \<Longrightarrow> ?thesis" by (cases r) (simp_all add: geo_address_step_def Let_def check_address_bar)
next
  case (CheckAnswered r)
  then show "geo_bar_ok s \<Longrightarrow> ?thesis" by (cases r) (simp_all add: geo_address_step_def)
qed (auto simp: geo_address_step_def)

lemma geo_zones_bar: "geo_bar_ok s \<Longrightarrow> geo_bar_ok (fst (geo_zones_step emoji e s))"
  by (auto simp: geo_zones_step_def split: geo_event.split sum.split)

lemma geo_step_bar: "geo_bar_ok s \<Longrightarrow> geo_bar_ok (fst (geo_step coll emoji adv e s))"
  by (cases e) (simp_all add: geo_step_def geo_refresh_bar geo_form_bar geo_save_bar geo_switch_bar geo_address_bar geo_zones_bar)

fun geo_run :: "string comparing \<Rightarrow> (nat list \<Rightarrow> string) \<Rightarrow> bool \<Rightarrow> geo_event list \<Rightarrow> geo_page \<Rightarrow> geo_page" where
  "geo_run coll emoji adv [] s = s"
| "geo_run coll emoji adv (e # es) s = geo_run coll emoji adv es (fst (geo_step coll emoji adv e s))"

definition toy_geo_page :: geo_page where
  "toy_geo_page = \<lparr>gp_tab = \<lparr>geo_form_of = toy_geo_form, geo_loaded = True, geo_base = geo_form_owned JNull,
       geo_loaded_snapshot = (geo_form_snapshot toy_geo_form)\<lparr>sn_zone_dir := ''old''\<rparr>\<rparr>,
     gp_switches = \<lparr>shown_on = \<lambda>_. False, switch_busy = {}, switch_msg = \<lambda>_. []\<rparr>, gp_config = Some (JObj []), gp_catalog = None, gp_explainer = [],
     gp_picker = False, gp_draft = [], gp_search = [], gp_hint = [], gp_msg = ([], False), gp_detected = None, gp_ip = ''192.0.2.7'',
     gp_check = \<lparr>ipc_hidden = True, ipc_tone = None, ipc_summary = [], ipc_detail = []\<rparr>, gp_checking = False, gp_zones = [], gp_zones_msg = ([], False),
     gp_tabs = ([''default'', ''advanced'', ''zones''], ''default''), gp_bar = new_save_bar\<lparr>save_bar_hidden := False\<rparr>, gp_sent = None,
     gp_api = (True, []), gp_page_loaded = True, gp_loading = 0, gp_zones_loading = 0\<rparr>"

lemma toy_geo_page_dirty: "is_geo_form_dirty (gp_tab toy_geo_page)"
proof -
  have "geo_form_snapshot toy_geo_form \<noteq> (geo_form_snapshot toy_geo_form)\<lparr>sn_zone_dir := ''old''\<rparr>"
  proof
    assume "geo_form_snapshot toy_geo_form = (geo_form_snapshot toy_geo_form)\<lparr>sn_zone_dir := ''old''\<rparr>"
    from arg_cong [OF this, of sn_zone_dir] show False by (simp add: geo_form_snapshot_def toy_geo_form_def trim_def)
  qed
  then show ?thesis by (simp add: toy_geo_page_def is_geo_form_dirty_def)
qed

text \<open>
  Whatever the operator does and in whatever order the answers come, the save bar of the Geoblocking page is up exactly while
  the form differs from what it was filled from and the tab on screen is not the read-only one.
\<close>

theorem geo_save_bar_is_right:
  assumes "save_bar_hidden (gp_bar s) \<longleftrightarrow> \<not> is_geo_form_dirty (gp_tab s) \<or> geo_bar_suppressed s"
  shows "let t = geo_run coll emoji adv es s in save_bar_hidden (gp_bar t) \<longleftrightarrow> \<not> is_geo_form_dirty (gp_tab t) \<or> geo_bar_suppressed t"
  using assms unfolding geo_bar_ok_def [symmetric] Let_def by (induction es arbitrary: s) (simp_all add: geo_step_bar)

lemma geo_save_bar_is_right_witness:
  "save_bar_hidden (gp_bar (geo_run (\<lambda>_ _. 0) (\<lambda>_. []) True [TabClicked ''zones''] toy_geo_page))"
proof -
  have "save_bar_hidden (gp_bar toy_geo_page) \<longleftrightarrow> \<not> is_geo_form_dirty (gp_tab toy_geo_page) \<or> geo_bar_suppressed toy_geo_page"
    using toy_geo_page_dirty by (simp add: geo_bar_suppressed_def) (simp add: toy_geo_page_def)
  from geo_save_bar_is_right [OF this, of "\<lambda>_ _. 0" "\<lambda>_. []" True "[TabClicked ''zones'']"]
  show ?thesis by (simp add: Let_def geo_bar_suppressed_def geo_step_def geo_form_step_def in_page_def sync_geo_save_bar_def)
      (simp add: toy_geo_page_def set_geo_editor_tab_def select_editor_tab_def)
qed

section \<open>Edits\<close>

lemma form_frame [simp]:
  "gp_tab (sync_geo_save_bar s) = gp_tab s" "gp_tab (start_zones s) = gp_tab s" "gp_tab (show_geo_list_mode m s) = gp_tab s"
  "gp_tab (fst (check_address s)) = gp_tab s" "gp_tab (fst (start_geo_refresh s)) = gp_tab s" "gp_tab (fst (in_page r)) = gp_tab (fst r)"
  by (simp_all add: sync_geo_save_bar_def start_zones_def show_geo_list_mode_def check_address_def start_geo_refresh_def in_page_def
      split: ip_check.split prod.split)

lemma base_after_form [simp]: "geo_form_of (geo_base_after t c) = geo_form_of t" "geo_form_of (set_geo_baseline c t) = geo_form_of t"
  by (simp_all add: geo_base_after_def set_geo_baseline_def)

lemma switch_keeps_dirty_form: "is_geo_form_dirty t \<Longrightarrow> snd (fst (geo_switch_saved i on c (sw, t))) = t"
  by (simp add: geo_switch_saved_def Let_def)

definition edits_or_agrees :: "geo_event \<Rightarrow> geo_page \<Rightarrow> bool" where
  "edits_or_agrees e s = (case e of
     GeoEdited _ \<Rightarrow> True | ModeClicked _ \<Rightarrow> True | ChipRemoved _ \<Rightarrow> True | PickerDone \<Rightarrow> True | AddressForList _ \<Rightarrow> True
   | GeoDiscardAgreed \<Rightarrow> True | GeoConfigRead (Inr _) \<Rightarrow> True
   | GeoSaveSettled (Inr _) \<Rightarrow> gp_sent s = Some (geo_form_snapshot (geo_form_of (gp_tab s))) | _ \<Rightarrow> False)"

text \<open>
  C22. Unsaved edits of the Geoblocking form stay in its fields until the operator changes them, agrees to drop them, asks for
  the config again, or they are saved as they stand: no switch, no Undo of one, no failed or older save, no check and no
  update of the lists touches them.
\<close>

theorem geo_edits_stay:
  assumes "is_geo_form_dirty (gp_tab s)" "\<not> edits_or_agrees e s"
  shows "geo_form_of (gp_tab (fst (geo_step coll emoji adv e s))) = geo_form_of (gp_tab s)"
proof (cases e)
  case (SwitchSaved i on c)
  then show ?thesis using switch_keeps_dirty_form [OF assms(1), of i on c "gp_switches s"]
    by (auto simp: geo_step_def geo_switch_step_def Let_def split: prod.split)
next
  case (GeoSaveSettled r)
  then show ?thesis using assms(2)
    by (cases r; cases "gp_sent s") (auto simp: geo_step_def geo_save_step_def edits_or_agrees_def Let_def)
next
  case (GeoConfigRead r)
  then show ?thesis using assms(2)
    by (cases r) (simp_all add: geo_step_def geo_refresh_step_def edits_or_agrees_def Let_def)
next
  case (CheckAnswered r)
  then show ?thesis by (cases r) (simp_all add: geo_step_def geo_address_step_def)
next
  case (AddressForCheck r)
  then show ?thesis by (cases r) (simp_all add: geo_step_def geo_address_step_def Let_def)
next
  case (UpdateSettled r)
  then show ?thesis by (cases r) (simp_all add: geo_step_def geo_zones_step_def)
next
  case (SummaryRead r)
  then show ?thesis by (cases r) (simp_all add: geo_step_def geo_zones_step_def)
qed (use assms(2) in \<open>auto simp: geo_step_def geo_refresh_step_def geo_form_step_def geo_save_step_def geo_switch_step_def geo_address_step_def
      geo_zones_step_def edits_or_agrees_def split: prod.split\<close>)

lemma geo_edits_stay_witness:
  "g_zone_dir (geo_form_of (gp_tab (fst (geo_step (\<lambda>_ _. 0) (\<lambda>_. []) True (SwitchSaved 0 True (JObj [])) toy_geo_page)))) = g_zone_dir toy_geo_form"
  using geo_edits_stay [OF toy_geo_page_dirty, of "SwitchSaved 0 True (JObj [])" "\<lambda>_ _. 0" "\<lambda>_. []" True]
  by (simp add: edits_or_agrees_def) (simp add: toy_geo_page_def)

text \<open>
  A refresh asks only when it starts. What is typed while it is under way is replaced by the config it reads, with no prompt.
\<close>

lemma late_refresh_replaces_edits:
  assumes "\<not> is_geo_form_dirty (gp_tab s)"
  shows "geo_form_of (gp_tab (geo_run coll emoji adv [GeoRefreshClicked, GeoEdited f, GeoConfigRead (Inr c)] s)) =
      geo_form_from_config c (f (geo_form_of (gp_tab s)))"
    "AskRefresh \<notin> set (snd (geo_step coll emoji adv GeoRefreshClicked s))"
    "snd (geo_step coll emoji adv (GeoConfigRead (Inr c)) s) = [FetchSummary]"
  using assms by (simp_all add: geo_step_def geo_refresh_step_def geo_form_step_def fill_geo_page_def load_geo_form_def Let_def)
    (simp add: in_page_def start_geo_refresh_def split: prod.split)

section \<open>The check of an address\<close>

text \<open>
  An address is checked against the very config that Save would write: the request carries the last config with the form
  as it stands, and where Save's own precondition holds on that config, Save puts exactly this.
\<close>

theorem checked_config_is_the_one_saved:
  assumes "PostCheck ip c \<in> set (snd (geo_step coll emoji adv e s))"
  shows "\<exists>cfg. gp_config s = Some cfg \<and> ip \<noteq> [] \<and> c = apply_geo_form (geo_form_of (gp_tab s)) cfg \<and>
    (geo_form_owned cfg = geo_base (gp_tab s) \<longrightarrow> save_geo_edit (gp_tab s) cfg = Inr (True, c))"
proof -
  have ask: "\<exists>cfg. gp_config t = Some cfg \<and> ip \<noteq> [] \<and> c = apply_geo_form (geo_form_of (gp_tab t)) cfg"
    if "PostCheck ip c \<in> set (snd (check_address t))" for t
    using that by (auto simp: check_address_def run_geo_ip_check_def Let_def split: if_splits option.splits)
  have "\<exists>cfg. gp_config s = Some cfg \<and> ip \<noteq> [] \<and> c = apply_geo_form (geo_form_of (gp_tab s)) cfg"
  proof (cases e)
    case (CheckPressed k)
    then show ?thesis using assms ask [of s] by (auto simp: geo_step_def geo_address_step_def in_page_def split: if_splits prod.splits)
  next
    case (AddressForCheck r)
    then show ?thesis using assms ask [of "s\<lparr>gp_ip := t\<rparr>" for t]
      by (cases r) (auto simp: geo_step_def geo_address_step_def Let_def split: if_splits)
  qed (use assms in \<open>auto simp: geo_step_def geo_refresh_step_def geo_form_step_def geo_save_step_def geo_switch_step_def geo_address_step_def
      geo_zones_step_def in_page_def start_geo_refresh_def Let_def split: prod.splits if_splits option.splits sum.splits\<close>)
  then show ?thesis by (auto simp: save_geo_edit_def)
qed

lemma checked_config_is_the_one_saved_witness:
  "\<exists>c. PostCheck ''192.0.2.7'' c \<in> set (snd (geo_step (\<lambda>_ _. 0) (\<lambda>_. []) True (CheckPressed True) toy_geo_page)) \<and> c = apply_geo_form toy_geo_form (JObj [])"
proof -
  have "PostCheck ''192.0.2.7'' (apply_geo_form toy_geo_form (JObj [])) \<in> set (snd (geo_step (\<lambda>_ _. 0) (\<lambda>_. []) True (CheckPressed True) toy_geo_page))"
    by (simp add: geo_step_def geo_address_step_def in_page_def check_address_def run_geo_ip_check_def toy_geo_page_def trim_def is_ws_def)
  from checked_config_is_the_one_saved [OF this] this show ?thesis by blast
qed

text \<open>
  Answers are not matched with their checks. With a second check sent by key, the answer that comes last stands, and it may be
  the older address's.
\<close>

lemma older_check_can_stand:
  assumes "gp_config s = Some cfg" "trim (gp_ip s) \<noteq> []" "trim t \<noteq> []"
  shows "let u = geo_run coll emoji adv [CheckPressed False, AddressTyped t, CheckPressed True, CheckAnswered (Inr new), CheckAnswered (Inr old)] s in
    gp_ip u = t \<and> gp_check u = render_geo_ip_check_result (names_of u) old"
  using assms by (simp add: geo_step_def geo_address_step_def in_page_def check_address_def run_geo_ip_check_def sync_geo_save_bar_def names_of_def Let_def)

end
