(* ===== verification/Overview_Dom.thy ===== *)
theory Overview_Dom
  imports Overview_Cards Polling
begin

text \<open>
  \<open>pages/overview.js\<close>, the elements: the trees the cards are built as, the note on old data, and the two polls of the page.

  An element is its tag, its attributes and its children; a text stands for \<open>textContent\<close>, \<open>Markup\<close> for \<open>innerHTML\<close>. A handler or a style
  set from the theme is an attribute. \<open>cg_num\<close> writes a number as the language does, \<open>cg_color\<close> reads a colour of the theme with its
  fallback, \<open>cg_round\<close> rounds a result to a double, \<open>cg_about\<close> is the sign for an approximate value.
\<close>

section \<open>Elements\<close>

datatype dom = El string "(string \<times> string) list" "dom list" | Txt string | Markup string

fun dom_texts :: "dom \<Rightarrow> string list" where
  "dom_texts (El tag attrs kids) = concat (map dom_texts kids)"
| "dom_texts (Txt s) = (if s = [] then [] else [s])"
| "dom_texts (Markup s) = [s]"

fun dom_attr :: "string \<Rightarrow> dom \<Rightarrow> string option" where
  "dom_attr a (El tag attrs kids) = map_of attrs a"
| "dom_attr a (Txt s) = None"
| "dom_attr a (Markup s) = None"

fun dom_kids :: "dom \<Rightarrow> dom list" where
  "dom_kids (El tag attrs kids) = kids"
| "dom_kids (Txt s) = []"
| "dom_kids (Markup s) = []"

fun with_kids :: "dom list \<Rightarrow> dom \<Rightarrow> dom" where
  "with_kids ks (El tag attrs kids) = El tag attrs ks"
| "with_kids ks (Txt s) = Txt s"
| "with_kids ks (Markup s) = Markup s"

definition el_class :: "string \<Rightarrow> string \<Rightarrow> dom list \<Rightarrow> dom" where
  "el_class tag cls kids = El tag [(''class'', cls)] kids"

definition el_text :: "string \<Rightarrow> string \<Rightarrow> string \<Rightarrow> dom" where
  "el_text tag cls t = el_class tag cls [Txt t]"

lemma el_texts [simp]: "dom_texts (el_class tag cls ks) = concat (map dom_texts ks)" "dom_texts (el_text tag cls t) = (if t = [] then [] else [t])"
  by (simp_all add: el_class_def el_text_def)

section \<open>The note on old data\<close>

definition OLD_NOTE :: string where "OLD_NOTE = ''This could not be refreshed, so it's from an earlier load.''"

definition is_old_note :: "dom \<Rightarrow> bool" where
  "is_old_note d \<longleftrightarrow> dom_attr ''class'' d = Some ''meta overview-old-data''"

text \<open>\<open>querySelector\<close> finds the first.\<close>

fun drop_first_note :: "dom list \<Rightarrow> dom list" where
  "drop_first_note [] = []"
| "drop_first_note (d # ds) = (if is_old_note d then ds else d # drop_first_note ds)"

definition set_old_data_note :: "bool \<Rightarrow> dom \<Rightarrow> dom" where
  "set_old_data_note on d =
     (if \<not> on then with_kids (drop_first_note (dom_kids d)) d
      else if list_ex is_old_note (dom_kids d) then d
      else with_kids (dom_kids d @ [el_text ''p'' ''meta overview-old-data'' OLD_NOTE]) d)"

definition old_notes :: "dom \<Rightarrow> nat" where
  "old_notes d = length (filter is_old_note (dom_kids d))"

lemma dropped_note: "length (filter is_old_note (drop_first_note ds)) = length (filter is_old_note ds) - 1"
  by (induction ds) auto

lemma old_note_is_note: "is_old_note (el_text ''p'' ''meta overview-old-data'' t)"
  by (simp add: is_old_note_def el_text_def el_class_def)

lemma kids_of_with_kids: "dom_kids (with_kids ks d) = (case d of El _ _ _ \<Rightarrow> ks | _ \<Rightarrow> [])"
  by (cases d) simp_all

text \<open>However often an element is told, it has one note exactly while what it shows is old.\<close>

lemma one_old_note:
  assumes "old_notes d \<le> 1" "d = El tag attrs kids"
  shows "old_notes (set_old_data_note on d) = (if on then 1 else 0)"
  using assms dropped_note [of kids]
  by (auto simp: old_notes_def set_old_data_note_def kids_of_with_kids old_note_is_note list_ex_iff filter_empty_conv le_Suc_eq)

section \<open>An issue instead of the cards\<close>

definition overview_api_issue_card :: "string \<Rightarrow> string \<Rightarrow> bool \<Rightarrow> dom" where
  "overview_api_issue_card m detail tokenHint =
     el_class ''div'' ''evu-card card overview-api-issue-card''
       ([El ''p'' [] [Txt m]] @
        (if tokenHint then [El ''p'' [(''class'', ''hint''), (''style.marginTop'', ''0.75rem'')]
           [El ''a'' [(''href'', ''#/token'')] [Txt ''Open API token''], Txt '' to set the token and optional API base URL.'']] else []) @
        (if detail \<noteq> [] then [El ''p'' [(''class'', ''hint meta''), (''style.marginTop'', ''0.5rem'')] [Txt detail]] else []))"

section \<open>The chart\<close>

record chart_env =
  cg_num :: "rat \<Rightarrow> string"
  cg_round :: "rat \<Rightarrow> rat"
  cg_color :: "string \<Rightarrow> string \<Rightarrow> string"
  cg_about :: string

definition chart_stroke :: "chart_env \<Rightarrow> (string \<times> string) list" where
  "chart_stroke env = [(''stroke'', cg_color env ''--evu-border'' ''hsl(220 6% 20%)''), (''stroke-width'', ''1''), (''vector-effect'', ''non-scaling-stroke'')]"

definition grid_line :: "chart_env \<Rightarrow> nat \<Rightarrow> dom" where
  "grid_line env g =
     (let y = cg_num env (plot_top + (plot_bottom - plot_top) * of_nat g / 4) in
      El ''line'' ([(''x1'', cg_num env plot_left), (''x2'', cg_num env plot_right), (''y1'', y), (''y2'', y)] @ chart_stroke env) [])"

definition points_text :: "chart_env \<Rightarrow> (rat \<times> rat) list \<Rightarrow> string" where
  "points_text env ps = join '' '' (map (\<lambda>(x, y). cg_num env x @ '','' @ cg_num env y) ps)"

definition tick_path :: "chart_env \<Rightarrow> rat \<Rightarrow> dom" where
  "tick_path env y =
     El ''path'' ((''d'', ''M '' @ cg_num env (plot_left - 4) @ '' '' @ cg_num env y @ '' H '' @ cg_num env plot_left) # chart_stroke env) []"

definition axis_path :: "chart_env \<Rightarrow> string \<Rightarrow> rat \<Rightarrow> dom" where
  "axis_path env dir to =
     El ''path'' ([(''d'', ''M '' @ cg_num env plot_left @ '' '' @ cg_num env (if dir = ''V'' then plot_top else plot_bottom) @ '' '' @ dir @ '' '' @ cg_num env to),
       (''fill'', ''none'')] @ chart_stroke env) []"

definition build_ping_spark_plot_svg :: "chart_env \<Rightarrow> rat list \<Rightarrow> spark_range \<Rightarrow> bool \<Rightarrow> dom" where
  "build_ping_spark_plot_svg env ys r showYMidTick =
     El ''svg'' [(''viewBox'', ''0 0 '' @ cg_num env PING_SPARK_VB_WIDTH @ '' '' @ cg_num env PING_SPARK_VB_HEIGHT), (''class'', ''overview-ping-spark-plot''),
         (''preserveAspectRatio'', ''none''), (''focusable'', ''false''), (''width'', ''100%''), (''height'', ''100%'')]
       ([El ''g'' [(''class'', ''overview-ping-spark-grid'')] (map (grid_line env) [1, 2, 3]),
         El ''polygon'' [(''points'', points_text env (spark_area (cg_round env) r ys)), (''fill'', cg_color env ''--evu-primary'' ''hsl(246 76% 68%)''), (''fill-opacity'', ''0.15'')] [],
         El ''polyline'' [(''fill'', ''none''), (''stroke'', cg_color env ''--evu-secondary'' ''hsl(217 80% 68%)''), (''stroke-width'', ''2''), (''stroke-linecap'', ''round''),
           (''stroke-linejoin'', ''round''), (''vector-effect'', ''non-scaling-stroke''), (''points'', points_text env (spark_line (cg_round env) r ys))] [],
         axis_path env ''V'' plot_bottom, axis_path env ''H'' plot_right, tick_path env plot_top, tick_path env plot_bottom] @
        (if showYMidTick then [tick_path env (plot_top + (plot_bottom - plot_top) / 2)] else []))"

definition or_question :: "string \<Rightarrow> string" where
  "or_question s = (if s = [] then ''?'' else s)"

definition spark_aria :: "chart_env \<Rightarrow> spark_model \<Rightarrow> spark_range \<Rightarrow> string" where
  "spark_aria env m r =
     ''Average peer latency spark: '' @ show_nat (length (sm_ys m)) @ '' buckets from '' @ or_question (sm_left m) @ '' to '' @ or_question (sm_right m) @
     (if sm_mid m \<noteq> [] then '', time midpoint '' @ sm_mid m else []) @
     (if length (spark_y_labels (cg_round env) r) = 3 then ''; latency midpoint ~'' @ show_int (spark_y_labels (cg_round env) r ! 1) @ '' ms'' else [])"

definition dom_ping_spark_chart :: "chart_env \<Rightarrow> spark_model \<Rightarrow> dom" where
  "dom_ping_spark_chart env m =
     (case ping_spark_scaled_range (cg_round env) (sm_ys m) of
        None \<Rightarrow> el_text ''div'' ''overview-ping-spark-empty meta'' ''Could not derive latency axis range.''
      | Some r \<Rightarrow>
          El ''div'' [(''class'', ''overview-ping-spark-layout''), (''role'', ''img''), (''aria-label'', spark_aria env m r)]
            [El ''div'' [(''class'', ''overview-ping-spark-y-axis'' @ (if length (spark_y_labels (cg_round env) r) = 1 then '' overview-ping-spark-y-axis-single'' else [])), (''aria-hidden'', ''true'')]
               (map (\<lambda>v. el_text ''div'' ''overview-ping-spark-y-tick'' (show_int v @ '' ms'')) (spark_y_labels (cg_round env) r)),
             el_class ''div'' ''overview-ping-spark-plot-wrap'' [build_ping_spark_plot_svg env (sm_ys m) r (length (spark_y_labels (cg_round env) r) = 3)],
             El ''div'' [(''class'', ''overview-ping-spark-x-axis meta''), (''aria-hidden'', ''true'')]
               [el_class ''div'' ''overview-ping-spark-x-row'' [el_text ''span'' ''overview-ping-spark-x-start'' (sm_left m),
                  el_text ''span'' ''overview-ping-spark-x-mid'' (sm_mid m), el_text ''span'' ''overview-ping-spark-x-end'' (sm_right m)]],
             El ''div'' [(''class'', ''overview-ping-spark-x-caption meta''), (''aria-hidden'', ''true'')] [Txt ''Time (UTC)'']])"

definition append_ping_spark_into :: "chart_env \<Rightarrow> (string \<Rightarrow> string \<Rightarrow> string) \<Rightarrow> bool \<Rightarrow> jsval \<Rightarrow> ping_bucket list \<Rightarrow> dom" where
  "append_ping_spark_into env mid dev met hist =
     (case ping_spark_note mid dev met hist of
        Some t \<Rightarrow> el_text ''p'' ''meta overview-ping-spark-empty'' t
      | None \<Rightarrow> dom_ping_spark_chart env (ping_spark_chart_model mid dev hist))"

definition overview_latency_card :: "chart_env \<Rightarrow> (string \<Rightarrow> string \<Rightarrow> string) \<Rightarrow> bool \<Rightarrow> jsval \<Rightarrow> ping_bucket list \<Rightarrow> dom" where
  "overview_latency_card env mid dev met hist =
     (let seg = (\<lambda>k v. el_class ''span'' ''overview-latency-seg'' [el_text ''span'' ''overview-latency-key'' k, el_text ''span'' ''overview-latency-val'' v]) in
      El ''div'' [(''id'', ''overview-latency-card''), (''class'', ''evu-card card overview-dash-card overview-dash-latency''), (''role'', ''group''),
          (''aria-label'', ''Peer ICMP latency summary and rolling average chart'')]
        [El ''h3'' [] [Txt ''Peer ICMP latency''],
         el_class ''div'' ''meta overview-latency-line'' [seg ''Last ping'' (fst (latency_card_line met)), el_text ''span'' ''overview-latency-sep meta'' middot,
           seg ''Last 10 min'' (snd (latency_card_line met))],
         el_text ''p'' ''meta overview-spark-caption'' (''Rolling avg across peers ('' @ cg_about env @ ''last 15 min '' @ middot @ '' 1 min buckets)''),
         el_class ''div'' ''overview-ping-spark-wrap'' [append_ping_spark_into env mid dev met hist]])"

section \<open>The host card\<close>

definition kv_row :: "string \<Rightarrow> string \<Rightarrow> string option \<Rightarrow> dom list" where
  "kv_row label v title =
     [el_text ''div'' ''overview-kv-label'' label,
      El ''div'' ((''class'', ''overview-kv-val'') # (case title of Some t \<Rightarrow> [(''title'', t)] | None \<Rightarrow> [])) [Txt v]]"

text \<open>How fresh the zones are; \<open>time\<close> is \<open>timeHtml\<close>.\<close>

definition geo_freshness_dom :: "(string \<Rightarrow> string) \<Rightarrow> geo_freshness \<Rightarrow> dom" where
  "geo_freshness_dom time g =
     (case g of
        NeverLoaded \<Rightarrow> el_class ''div'' ''overview-geo-fresh''
          [el_text ''span'' ''overview-geo-fresh-tag overview-geo-fresh-tag--never'' (geo_freshness_tag g),
           el_text ''div'' ''overview-geo-fresh-meta'' ''Run Update geo lists from the Overview actions.'']
      | Loaded stale loadedAt src \<Rightarrow> el_class ''div'' ''overview-geo-fresh''
          [el_class ''div'' ''overview-geo-fresh-head''
             [el_text ''span'' (''overview-geo-fresh-tag '' @ (if stale then ''overview-geo-fresh-tag--stale'' else ''overview-geo-fresh-tag--ok'')) (geo_freshness_tag g),
              el_class ''span'' ''overview-geo-fresh-age'' [Markup (''Loaded '' @ time loadedAt)]],
           el_class ''div'' ''overview-geo-fresh-meta'' (if src = [] then [] else [El ''span'' [] [Txt src]])])"

definition host_geo_dom :: "(string \<Rightarrow> string) \<Rightarrow> (string \<Rightarrow> int option) \<Rightarrow> int \<Rightarrow> json \<Rightarrow> dom" where
  "host_geo_dom time parse_date now ov =
     (let ifc = value_or_dash (member_json ov ''wireguard_interface''); udp = ''UDP '' @ value_or_dash (member_json ov ''wireguard_listen_port'');
          row = (\<lambda>k. kv_row k (the (map_of (overview_host_geo_card ov) k))) in
      el_class ''div'' ''evu-card card overview-dash-card overview-dash-host''
        [El ''h3'' [] [Txt ''Tunnel, forwarding & geo''],
         el_class ''div'' ''overview-kv-grid''
           ([el_text ''div'' ''overview-kv-label'' ''WireGuard'',
             El ''div'' [(''class'', ''overview-kv-wg-stack overview-kv-val''), (''title'', ifc @ '' '' @ middot @ '' '' @ udp)]
               [el_text ''div'' ''overview-kv-wg-iface'' ifc, el_text ''div'' ''overview-kv-wg-listen'' udp]] @
            row ''Public NIC'' None @ row ''Peers'' None @ row ''Forwarding'' None @ row ''Geo'' (snd (geo_line ov)) @
            (if truthy (member_json ov ''geo_enabled'')
             then [el_text ''div'' ''overview-kv-label overview-geo-fresh-label'' ''Geo zones freshness'',
                   geo_freshness_dom time (build_geo_freshness_cell parse_date now ov)] else []))])"

section \<open>Activity and attention\<close>

definition activity_pane :: "string \<Rightarrow> dom list \<Rightarrow> dom" where
  "activity_pane title content =
     El ''section'' [(''class'', ''evu-panel overview-activity-pane'')]
       [el_class ''div'' ''evu-panel__head'' [el_text ''h3'' ''overview-pane-title'' title], el_class ''div'' ''evu-panel__body'' content]"

definition apply_summary_dom :: "(jsval \<Rightarrow> string) \<Rightarrow> json list option \<Rightarrow> dom list" where
  "apply_summary_dom time evs =
     (case evs of
        Some es \<Rightarrow>
          (case find (\<lambda>e. event_name e \<in> set APPLY_EVENTS) es of
             Some e \<Rightarrow> el_class ''p'' ''meta'' [Markup (fst (apply_summary time evs))] #
               (if event_detail e \<noteq> [] then [el_text ''p'' ''meta'' (event_detail e)] else [])
           | None \<Rightarrow> [el_text ''p'' ''meta'' (fst (apply_summary time evs))])
      | None \<Rightarrow> [el_text ''p'' ''meta'' (fst (apply_summary time evs))])"

definition attention_body :: "attention_card \<Rightarrow> dom list" where
  "attention_body c =
     (if ac_items c \<noteq> [] then [el_class ''ul'' ''attention-list'' (map (\<lambda>t. El ''li'' [] [Txt t]) (ac_items c))]
      else if ac_old c = [] \<and> \<not> ac_not_run c then [el_text ''p'' ''meta'' NO_WARNINGS] else []) @
     (if ac_old c \<noteq> []
      then [el_text ''p'' ''meta overview-old-data'' (''Based on an earlier load, because they could not be refreshed: '' @ join '', '' (ac_old c) @ ''.'')] else []) @
     (if ac_not_run c then [el_text ''p'' ''meta'' ''Some checks could not run, because their data could not be loaded.''] else [])"

definition activity_attention_dom :: "(jsval \<Rightarrow> string) \<Rightarrow> json list option \<Rightarrow> bool \<Rightarrow> attention_card \<Rightarrow> dom" where
  "activity_attention_dom time evs oldEvents c =
     el_class ''div'' ''evu-card card overview-dash-card overview-dash-activity''
       [el_class ''div'' ''overview-activity-merge-inner''
         [(case activity_pane ''Last apply activity'' (apply_summary_dom time evs) of
             El tag attrs [head, content] \<Rightarrow> El tag attrs [head, set_old_data_note oldEvents content] | d \<Rightarrow> d),
          activity_pane (if ac_items c \<noteq> [] then ''Needs attention'' else ''Status'') (attention_body c)]]"

definition step_hint :: "string \<Rightarrow> string" where
  "step_hint title =
     (if title = ''Set the server endpoint'' then ''The public host:port that clients connect to.''
      else if title = ''Add a peer'' then ''A machine on the tunnel that will receive traffic.''
      else if title = ''Add a route'' then ''Forward a public port to that peer.''
      else ''Saved changes reach the host only when you apply them.'')"

definition first_run_dom :: "string \<Rightarrow> nat \<Rightarrow> nat \<Rightarrow> dom" where
  "first_run_dom endpoint peers routes =
     el_class ''div'' ''evu-card card overview-dash-card overview-first-run''
       [El ''h3'' [] [Txt ''Get started''],
        el_class ''ol'' ''first-run-steps''
          (map (\<lambda>(title, href, ready). el_class ''li'' (if ready then ''first-run-step is-done'' else ''first-run-step'')
             ([El ''a'' [(''href'', href)] [Txt title]] @ (if ready then [el_text ''span'' ''evu-sr-only'' '' (done)''] else []) @
              [el_text ''p'' ''meta'' (step_hint title)])) (first_run_steps endpoint peers routes))]"

section \<open>The grid\<close>

text \<open>The browser and the clock, as far as the cards use them.\<close>

record grid_env =
  ge_chart :: chart_env
  ge_mid :: "string \<Rightarrow> string \<Rightarrow> string"
  ge_dev :: bool
  ge_time :: "jsval \<Rightarrow> string"
  ge_parse_date :: "string \<Rightarrow> int option"
  ge_now :: int
  ge_endpoint :: string
  ge_history :: "jsval \<Rightarrow> ping_bucket list"

definition overview_grid_dom :: "grid_env \<Rightarrow> json \<Rightarrow> overview_grid \<Rightarrow> dom list" where
  "overview_grid_dom env cfg g =
     (case g of
        NoGrid \<Rightarrow> []
      | IssueCard m detail hint \<Rightarrow> [overview_api_issue_card m detail hint]
      | Cards c \<Rightarrow>
          (if oc_checklist c then [first_run_dom (ge_endpoint env) (length (config_peers cfg)) (length (routes_of cfg))] else []) @
          [activity_attention_dom (ge_time env) (oc_events c) (oc_old_events c) (oc_attention c),
           host_geo_dom (\<lambda>loadedAt. ge_time env (Some (JStr loadedAt))) (ge_parse_date env) (ge_now env) (oc_overview c),
           set_old_data_note (oc_old_metrics c)
             (overview_latency_card (ge_chart env) (ge_mid env) (ge_dev env) (oc_metrics c) (ge_history env (oc_metrics c)))])"

definition all_texts :: "dom list \<Rightarrow> string list" where
  "all_texts ds = concat (map dom_texts ds)"

lemma attention_texts: "list_all (\<lambda>t. t \<noteq> []) (ac_items c) \<Longrightarrow> all_texts (attention_body c) = snd (attention_pane c)"
proof -
  have items: "list_all (\<lambda>t. t \<noteq> []) ts \<Longrightarrow> concat (map (\<lambda>t. dom_texts (El ''li'' [] [Txt t])) ts) = ts" for ts
    by (induction ts) auto
  assume "list_all (\<lambda>t. t \<noteq> []) (ac_items c)"
  then show ?thesis
    by (auto simp: all_texts_def attention_body_def attention_pane_def NO_WARNINGS_def comp_def items [simplified])
qed

text \<open>
  What is old is said to be old, once, on the card that shows it, whatever a pass could and could not load; and the pane beside it says
  what its summary says.
\<close>

lemma latency_card_notes: "old_notes (set_old_data_note on (overview_latency_card env mid dev met hist)) = (if on then 1 else 0)"
proof -
  let ?d = "overview_latency_card env mid dev met hist"
  obtain tag attrs kids where d: "?d = El tag attrs kids" by (simp add: overview_latency_card_def Let_def)
  have "old_notes ?d = 0"
    by (simp add: overview_latency_card_def Let_def old_notes_def is_old_note_def el_class_def el_text_def)
  then show ?thesis using one_old_note [OF _ d] by simp
qed

lemma activity_pane_notes:
  "\<exists>attrs head content. activity_attention_dom time evs old c =
      el_class ''div'' ''evu-card card overview-dash-card overview-dash-activity''
        [el_class ''div'' ''overview-activity-merge-inner'' [El ''section'' attrs [head, content],
           activity_pane (if ac_items c \<noteq> [] then ''Needs attention'' else ''Status'') (attention_body c)]] \<and>
      old_notes content = (if old then 1 else 0)"
proof -
  let ?b = "el_class ''div'' ''evu-panel__body'' (apply_summary_dom time evs)"
  have "old_notes ?b = 0"
    by (auto simp: old_notes_def is_old_note_def el_class_def el_text_def apply_summary_dom_def split: option.split)
  moreover obtain tag attrs kids where "?b = El tag attrs kids" by (simp add: el_class_def)
  ultimately have "old_notes (set_old_data_note old ?b) = (if old then 1 else 0)" using one_old_note [of ?b] by simp
  then show ?thesis unfolding activity_attention_dom_def activity_pane_def
    by (simp only: dom.case list.case) (intro exI conjI, rule refl)
qed

lemma overview_says_what_is_old:
  assumes "list_all (\<lambda>t. t \<noteq> []) (ac_items (oc_attention c))"
  shows "old_notes (last (overview_grid_dom env cfg (Cards c))) = (if oc_old_metrics c then 1 else 0)"
    "all_texts (attention_body (oc_attention c)) = snd (attention_pane (oc_attention c))"
  using attention_texts [OF assms] by (simp_all add: overview_grid_dom_def latency_card_notes)

text \<open>The figures on the latency card are those of its summary, and nothing else stands beside the chart.\<close>

lemma latency_card_texts:
  "dom_texts (overview_latency_card env mid dev met hist) =
     [''Peer ICMP latency'', ''Last ping''] @ (if fst (latency_card_line met) = [] then [] else [fst (latency_card_line met)]) @ [middot, ''Last 10 min''] @
     (if snd (latency_card_line met) = [] then [] else [snd (latency_card_line met)]) @
     [''Rolling avg across peers ('' @ cg_about env @ ''last 15 min '' @ middot @ '' 1 min buckets)''] @
     dom_texts (append_ping_spark_into env mid dev met hist)"
  by (simp add: overview_latency_card_def Let_def middot_def)

lemma no_chart_without_two_values:
  assumes "ping_spark_note mid dev met hist = Some t" "t \<noteq> []"
  shows "dom_texts (append_ping_spark_into env mid dev met hist) = [t]"
  using assms by (simp add: append_ping_spark_into_def)

section \<open>The two polls\<close>

record overview_polls =
  op_latency :: polling
  op_events :: polling
  op_away :: bool

datatype overview_visit = OverviewEntered | PageLeft

definition overview_polls_step :: "overview_visit \<Rightarrow> overview_polls \<Rightarrow> overview_polls" where
  "overview_polls_step e s = (case e of
     OverviewEntered \<Rightarrow> s\<lparr>op_events := restart_polling (op_events s), op_latency := restart_polling (op_latency s), op_away := False\<rparr>
   | PageLeft \<Rightarrow> s\<lparr>op_events := stop_polling (op_events s), op_latency := stop_polling (op_latency s), op_away := True\<rparr>)"

interpretation latency_polled: polled_page op_latency op_away overview_polls_step
  by unfold_locales (simp add: overview_polls_step_def split: overview_visit.split)

interpretation events_polled: polled_page op_events op_away overview_polls_step
  by unfold_locales (simp add: overview_polls_step_def split: overview_visit.split)

text \<open>However often the page is entered and left, it runs one poll of each kind at most, and none once it is left.\<close>

lemma overview_polls_once:
  assumes "polls_ok (op_latency s) (op_away s)" "polls_ok (op_events s) (op_away s)"
  shows "polls_ok (op_latency (fold overview_polls_step es s)) (op_away (fold overview_polls_step es s))"
    "polls_ok (op_events (fold overview_polls_step es s)) (op_away (fold overview_polls_step es s))"
  using latency_polled.run_keeps [OF assms(1)] events_polled.run_keeps [OF assms(2)] .

end
