(* ===== verification/Settings_Host.thy ===== *)
theory Settings_Host
  imports Config_Upload
begin

text \<open>
  \<open>pages/settings.js\<close>, the host's files: downloads of the config and of the report, the status text, a backup, and the restore with
  its prompt. A step is one handler up to its next await, with the requests it sends. \<open>pretty\<close> is \<open>JSON.stringify\<close> with an
  indent of two.
\<close>

section \<open>State\<close>

record host_files =
  hf_yaml_msg :: "string \<times> bool"
  hf_status :: string
  hf_report_msg :: "string \<times> bool"
  hf_backup_msg :: "string \<times> bool"
  hf_prompt :: "(string \<times> string \<times> string) option"  \<comment> \<open>the path, the prompt's title and its text\<close>
  hf_config :: "json option"
  hf_api :: "bool \<times> string"

text \<open>What a download answers: a file, with its header, or a status that is not ok with its body, or no answer.\<close>

datatype download_answer = FileSent "string option" | NotOk nat string string | NoAnswer string

datatype files_event =
    YamlPressed | YamlAnswered download_answer
  | StatusPressed | StatusAnswered "string + json"
  | ReportPressed | ReportAnswered download_answer
  | BackupPressed string | BackupAnswered string "string + unit"
  | RestorePressed string | ArchiveInfo string "string + string"
  | PreBackupPressed string | PreBackupAnswered
  | RestoreConfirmed | RestoreCancelled | RestoreAnswered "string + unit" | RestoredConfig "string + json"

datatype host_effect =
    FetchYaml | FetchStatus | FetchReport | SaveFile string | SendBackup string | AskArchive string | SendRestore string | ReadConfig
  | HostToast string | RefreshEvents | RefreshOverview | RefreshBadge | ForgetPrefs

text \<open>\<open>String(e.message || e)\<close> of an error made with a message.\<close>

definition thrown_text :: "string \<Rightarrow> string" where
  "thrown_text m = (if m = [] then ''Error'' else m)"

definition yaml_answered :: "download_answer \<Rightarrow> host_files \<Rightarrow> host_files \<times> host_effect list" where
  "yaml_answered a s = (case a of
     FileSent _ \<Rightarrow> (s\<lparr>hf_yaml_msg := (''Download started.'', False)\<rparr>, [SaveFile ''config.yaml''])
   | NotOk _ t statusText \<Rightarrow> (s\<lparr>hf_yaml_msg := (thrown_text (if t \<noteq> [] then t else statusText), True)\<rparr>, [])
   | NoAnswer m \<Rightarrow> (s\<lparr>hf_yaml_msg := (thrown_text m, True)\<rparr>, []))"

text \<open>Here the body of \<open>NotOk\<close> is the error of its JSON, if it has one.\<close>

definition report_answered :: "download_answer \<Rightarrow> host_files \<Rightarrow> host_files \<times> host_effect list" where
  "report_answered a s =
     (let failed = (\<lambda>m. (s\<lparr>hf_report_msg := (m, True), hf_api := (False, m)\<rparr>, [])) in
      case a of
        FileSent header \<Rightarrow>
          (let nm = diagnostics_filename header in
           (s\<lparr>hf_report_msg := (''Download started ('' @ nm @ '').'', False), hf_api := (True, [])\<rparr>, [SaveFile nm]))
      | NotOk n e statusText \<Rightarrow>
          failed (let t = (if e \<noteq> [] then e else statusText) in if t \<noteq> [] then t else ''HTTP '' @ show_nat n)
      | NoAnswer m \<Rightarrow> failed (thrown_text m))"

definition status_text :: "(json \<Rightarrow> string) \<Rightarrow> json \<Rightarrow> string" where
  "status_text pretty j = (if truthy (member_json j ''report'') then str_or_empty (member_json j ''report'') else pretty j)"

definition archive_answered :: "string \<Rightarrow> string + string \<Rightarrow> host_files \<Rightarrow> host_files" where
  "archive_answered path r s = (case start_restore path (\<lambda>_. r) of
     RestoreRefused m \<Rightarrow> s\<lparr>hf_backup_msg := (m, True)\<rparr>
   | RestoreConfirm t m \<Rightarrow> s\<lparr>hf_prompt := Some (trim path, t, m)\<rparr>)"

definition host_step :: "(json \<Rightarrow> string) \<Rightarrow> files_event \<Rightarrow> host_files \<Rightarrow> host_files \<times> host_effect list" where
  "host_step pretty e s = (case e of
     YamlPressed \<Rightarrow> (s\<lparr>hf_yaml_msg := ([], False)\<rparr>, [FetchYaml])
   | YamlAnswered a \<Rightarrow> yaml_answered a s
   | StatusPressed \<Rightarrow> (s\<lparr>hf_status := ellipsis\<rparr>, [FetchStatus])
   | StatusAnswered (Inl m) \<Rightarrow> (s\<lparr>hf_status := m, hf_api := (False, m)\<rparr>, [])
   | StatusAnswered (Inr j) \<Rightarrow> (s\<lparr>hf_status := status_text pretty j, hf_api := (True, [])\<rparr>, [])
   | ReportPressed \<Rightarrow> (s\<lparr>hf_report_msg := ([], False)\<rparr>, [FetchReport])
   | ReportAnswered a \<Rightarrow> report_answered a s
   | BackupPressed v \<Rightarrow> (s\<lparr>hf_backup_msg := ([], False)\<rparr>, [SendBackup (backup_path v)])
   | BackupAnswered path (Inl m) \<Rightarrow> (s\<lparr>hf_backup_msg := (m, True)\<rparr>, [])
   | BackupAnswered path (Inr _) \<Rightarrow> (s\<lparr>hf_api := (True, [])\<rparr>, [HostToast (''Backup created: '' @ path), RefreshEvents])
   | RestorePressed v \<Rightarrow>
       (if trim v = [] then (archive_answered v (Inl []) s, []) else (s, [AskArchive (trim v)]))
   | ArchiveInfo path r \<Rightarrow> (archive_answered path r s, [])
   | PreBackupPressed isodate \<Rightarrow>
       (case hf_prompt s of Some (path, _) \<Rightarrow> (s, [SendBackup (pre_restore_target path isodate)]) | None \<Rightarrow> (s, []))
   | PreBackupAnswered \<Rightarrow> (s, [RefreshEvents])
   | RestoreConfirmed \<Rightarrow>
       (case hf_prompt s of
          Some (path, _) \<Rightarrow> (s\<lparr>hf_prompt := None, hf_backup_msg := ([], False)\<rparr>, [SendRestore path])
        | None \<Rightarrow> (s, []))
   | RestoreCancelled \<Rightarrow> (s\<lparr>hf_prompt := None\<rparr>, [])
   | RestoreAnswered (Inl m) \<Rightarrow> (s\<lparr>hf_backup_msg := (m, True)\<rparr>, [])
   | RestoreAnswered (Inr _) \<Rightarrow>
       (s\<lparr>hf_api := (True, [])\<rparr>, [HostToast ''Restore finished. Review config and Apply if needed.'', ForgetPrefs, ReadConfig])
   | RestoredConfig (Inl m) \<Rightarrow> (s\<lparr>hf_backup_msg := (m, True)\<rparr>, [])
   | RestoredConfig (Inr c) \<Rightarrow> (s\<lparr>hf_config := Some c\<rparr>, [RefreshOverview, RefreshEvents, RefreshBadge]))"

section \<open>Restores\<close>

definition host_run :: "(json \<Rightarrow> string) \<Rightarrow> files_event list \<Rightarrow> host_files \<Rightarrow> host_files" where
  "host_run pretty es s = fold (\<lambda>e u. fst (host_step pretty e u)) es s"

definition prompt_ok :: "host_files \<Rightarrow> bool" where
  "prompt_ok s \<longleftrightarrow> (case hf_prompt s of
     None \<Rightarrow> True
   | Some (p, t, m) \<Rightarrow> p \<noteq> [] \<and> t = ''Restore '' @ path_name p @ ''?'' \<and>
       prefix (''This replaces files under /etc/evuproxy with the archive '' @ p) m)"

lemma archive_prompt: "prompt_ok s \<Longrightarrow> prompt_ok (archive_answered path r s)"
  by (auto simp: archive_answered_def start_restore_def prompt_ok_def Let_def prefix_def split: sum.split if_splits)

lemma prompt_frame: "\<lbrakk>prompt_ok s; hf_prompt t = hf_prompt s\<rbrakk> \<Longrightarrow> prompt_ok t"
  by (simp add: prompt_ok_def)

lemma no_prompt_ok: "hf_prompt t = None \<Longrightarrow> prompt_ok t"
  by (simp add: prompt_ok_def)

lemma prompt_step:
  assumes "prompt_ok s"
  shows "prompt_ok (fst (host_step pretty e s))"
proof (cases e)
  case (RestorePressed v)
  then show ?thesis using assms archive_prompt [OF assms] by (simp add: host_step_def)
next
  case (ArchiveInfo path r)
  then show ?thesis using archive_prompt [OF assms] by (simp add: host_step_def)
next
  case RestoreConfirmed
  then show ?thesis by (intro no_prompt_ok) (simp add: host_step_def split: option.split prod.split)
next
  case RestoreCancelled
  then show ?thesis by (intro no_prompt_ok) (simp add: host_step_def)
qed (rule prompt_frame [OF assms], auto simp: host_step_def yaml_answered_def report_answered_def Let_def
    split: sum.split download_answer.split option.split)+

text \<open>
  C21. Files of the host are replaced only after a prompt that named the archive: a restore is sent at a confirmation alone, for the
  path in the prompt on screen, whatever was typed into the field or answered about other archives meanwhile.
\<close>

theorem restore_replaces_what_was_asked:
  assumes "prompt_ok s" "SendRestore p \<in> set (snd (host_step pretty e (host_run pretty es s)))"
  shows "e = RestoreConfirmed \<and> (\<exists>m. hf_prompt (host_run pretty es s) = Some (p, ''Restore '' @ path_name p @ ''?'', m) \<and>
    prefix (''This replaces files under /etc/evuproxy with the archive '' @ p) m)"
proof -
  define u where "u = host_run pretty es s"
  have ok: "prompt_ok u"
    using assms(1) unfolding u_def host_run_def by (induction es arbitrary: s) (simp_all add: prompt_step)
  have e: "e = RestoreConfirmed"
    using assms(2) by (cases e) (auto simp: host_step_def yaml_answered_def report_answered_def Let_def split: if_splits option.splits sum.splits download_answer.splits)
  with assms(2) ok show ?thesis
    by (auto simp: u_def [symmetric] host_step_def prompt_ok_def split: option.splits prod.splits)
qed

definition toy_host :: host_files where
  "toy_host = \<lparr>hf_yaml_msg = ([], False), hf_status = [], hf_report_msg = ([], False), hf_backup_msg = ([], False), hf_prompt = None, hf_config = None,
     hf_api = (True, [])\<rparr>"

lemma restore_replaces_what_was_asked_witness:
  "SendRestore ''/b/x.tgz'' \<in> set (snd (host_step (\<lambda>_. []) RestoreConfirmed (host_run (\<lambda>_. []) [RestorePressed ''/b/x.tgz'', ArchiveInfo ''/b/x.tgz'' (Inr ''today'')] toy_host))) \<and>
   (\<exists>t m. hf_prompt (host_run (\<lambda>_. []) [RestorePressed ''/b/x.tgz'', ArchiveInfo ''/b/x.tgz'' (Inr ''today'')] toy_host) = Some (''/b/x.tgz'', t, m))"
proof -
  let ?es = "[RestorePressed ''/b/x.tgz'', ArchiveInfo ''/b/x.tgz'' (Inr ''today'')]"
  have t: "trim ''/b/x.tgz'' = ''/b/x.tgz''" by (simp add: trim_def is_ws_def)
  have sent: "SendRestore ''/b/x.tgz'' \<in> set (snd (host_step (\<lambda>_. []) RestoreConfirmed (host_run (\<lambda>_. []) ?es toy_host)))"
    by (simp add: host_run_def host_step_def archive_answered_def start_restore_def t Let_def)
  have "prompt_ok toy_host" by (simp add: prompt_ok_def toy_host_def)
  from restore_replaces_what_was_asked [OF this sent] sent show ?thesis by blast
qed

text \<open>
  Not so the messages: a backup and a restore share one, and a config that cannot be read after a restore is reported there as if the
  restore had failed, though the files are replaced.
\<close>

lemma restored_config_unread:
  "hf_backup_msg (host_run pretty [RestoreAnswered (Inr ()), RestoredConfig (Inl m)] s) = (m, True)"
  "hf_backup_msg (host_run pretty [RestoreAnswered (Inl m)] s) = (m, True)"
  by (simp_all add: host_run_def host_step_def)

end
