(* ===== verification/Theme.thy ===== *)
theory Theme
  imports Js_Base
begin

text \<open>
  Colour scheme and palette: \<open>theme-boot.js\<close>, which paints them before the first frame, and the vendored
  \<open>evu/theme.js\<close> and \<open>evu/theme-autoload.js\<close>, which own the switches. The three read the same stored values and
  must agree, or the page would flash.
\<close>

section \<open>Stored values\<close>

text \<open>
  \<open>ls_items\<close> is none where reading the storage throws, \<open>ls_writable\<close> whether writing it works. \<open>media\<close> is what
  \<open>matchMedia\<close> says of a dark preference, none without \<open>matchMedia\<close>.
\<close>

record theme_store =
  ls_items :: "(string \<rightharpoonup> string) option"
  ls_writable :: bool

definition SCHEME_KEY :: string where "SCHEME_KEY = ''evu-color-scheme''"
definition PALETTE_KEY :: string where "PALETTE_KEY = ''evu-palette''"

definition SCHEMES :: "string list" where "SCHEMES = [''light'', ''dark'', ''system'']"
definition PALETTES :: "string list" where "PALETTES = [''indigo'', ''blue'']"

definition stored_one_of :: "string list \<Rightarrow> string \<Rightarrow> string \<Rightarrow> theme_store \<Rightarrow> string" where
  "stored_one_of allowed key dflt st = (case ls_items st of
     None \<Rightarrow> dflt
   | Some m \<Rightarrow> (case m key of Some v \<Rightarrow> if v \<in> set allowed then v else dflt | None \<Rightarrow> dflt))"

definition get_stored_scheme :: "theme_store \<Rightarrow> string" where
  "get_stored_scheme = stored_one_of SCHEMES SCHEME_KEY ''system''"

definition get_stored_palette :: "theme_store \<Rightarrow> string" where
  "get_stored_palette = stored_one_of PALETTES PALETTE_KEY ''indigo''"

definition store_item :: "string \<Rightarrow> string \<Rightarrow> theme_store \<Rightarrow> theme_store" where
  "store_item key v st = (if ls_writable st then st\<lparr>ls_items := map_option (\<lambda>m. m(key \<mapsto> v)) (ls_items st)\<rparr> else st)"

definition set_stored_scheme :: "string \<Rightarrow> theme_store \<Rightarrow> theme_store" where
  "set_stored_scheme = store_item SCHEME_KEY"

definition set_stored_palette :: "string \<Rightarrow> theme_store \<Rightarrow> theme_store" where
  "set_stored_palette = store_item PALETTE_KEY"

section \<open>What is painted\<close>

record theme_root =
  root_dark :: bool
  root_color_scheme :: string
  root_scheme :: "string option"
  root_resolved :: "string option"
  root_palette :: "string option"

definition resolve_scheme :: "bool option \<Rightarrow> string \<Rightarrow> string" where
  "resolve_scheme media scheme =
     (if scheme = ''light'' \<or> scheme = ''dark'' then scheme
      else (case media of Some prefersDark \<Rightarrow> if prefersDark then ''dark'' else ''light'' | None \<Rightarrow> ''dark''))"

text \<open>The classic script's copy falls back to light.\<close>

definition autoload_resolve_scheme :: "bool option \<Rightarrow> string \<Rightarrow> string" where
  "autoload_resolve_scheme media scheme =
     (if scheme = ''light'' \<or> scheme = ''dark'' then scheme
      else if media = Some True then ''dark'' else ''light'')"

definition apply_scheme :: "(bool option \<Rightarrow> string \<Rightarrow> string) \<Rightarrow> bool option \<Rightarrow> string \<Rightarrow> theme_root \<Rightarrow> theme_root" where
  "apply_scheme resolve media scheme r =
     (let resolved = resolve media scheme in
      r\<lparr>root_dark := (resolved = ''dark''), root_color_scheme := resolved, root_scheme := Some scheme, root_resolved := Some resolved\<rparr>)"

definition apply_palette :: "string \<Rightarrow> theme_root \<Rightarrow> theme_root" where
  "apply_palette palette r = r\<lparr>root_palette := Some palette\<rparr>"

text \<open>
  The boot script: what throws on the way, reading the storage or the missing \<open>matchMedia\<close>, ends it where it is.
  \<open>matchMedia\<close> is asked only for a scheme that is neither dark nor light.
\<close>

definition theme_boot :: "theme_store \<Rightarrow> bool option \<Rightarrow> theme_root \<Rightarrow> theme_root" where
  "theme_boot st media r = (case ls_items st of
     None \<Rightarrow> r
   | Some m \<Rightarrow>
       (let s = (case m SCHEME_KEY of Some v \<Rightarrow> if v = [] then ''system'' else v | None \<Rightarrow> ''system'');
            d = (if s = ''dark'' then Some True else if s = ''light'' then Some False else media) in
        case d of
          None \<Rightarrow> r
        | Some dark \<Rightarrow>
            (let p = m PALETTE_KEY in
             r\<lparr>root_dark := dark, root_color_scheme := (if dark then ''dark'' else ''light''),
               root_palette := (if p = Some ''blue'' \<or> p = Some ''indigo'' then p else Some ''indigo'')\<rparr>)))"

section \<open>The switches\<close>

text \<open>The buttons by their value, with \<open>aria-pressed\<close>.\<close>

record theme =
  th_store :: theme_store
  th_media :: "bool option"
  th_root :: theme_root
  th_schemes :: "(string \<times> bool) list"
  th_palettes :: "(string \<times> bool) list"

datatype theme_event = SchemeClicked string | PaletteClicked string | MediaChanged bool

definition press :: "string \<Rightarrow> (string \<times> bool) list \<Rightarrow> (string \<times> bool) list" where
  "press current bs = map (\<lambda>(v, _). (v, v = current)) bs"

definition bind_theme_controls :: "(bool option \<Rightarrow> string \<Rightarrow> string) \<Rightarrow> theme \<Rightarrow> theme" where
  "bind_theme_controls resolve t =
     (let s = get_stored_scheme (th_store t); p = get_stored_palette (th_store t) in
      t\<lparr>th_root := apply_palette p (apply_scheme resolve (th_media t) s (th_root t)),
        th_schemes := press s (th_schemes t), th_palettes := press p (th_palettes t)\<rparr>)"

definition theme_step :: "(bool option \<Rightarrow> string \<Rightarrow> string) \<Rightarrow> theme_event \<Rightarrow> theme \<Rightarrow> theme" where
  "theme_step resolve e t = (case e of
     SchemeClicked v \<Rightarrow>
       (if v \<in> set SCHEMES
        then (let st = set_stored_scheme v (th_store t) in
          t\<lparr>th_store := st, th_root := apply_scheme resolve (th_media t) v (th_root t), th_schemes := press (get_stored_scheme st) (th_schemes t)\<rparr>)
        else t)
   | PaletteClicked v \<Rightarrow>
       (if v \<in> set PALETTES
        then (let st = set_stored_palette v (th_store t) in
          t\<lparr>th_store := st, th_root := apply_palette v (th_root t), th_palettes := press (get_stored_palette st) (th_palettes t)\<rparr>)
        else t)
   | MediaChanged d \<Rightarrow>
       (let t1 = t\<lparr>th_media := Some d\<rparr> in
        if get_stored_scheme (th_store t) = ''system'' then t1\<lparr>th_root := apply_scheme resolve (Some d) ''system'' (th_root t)\<rparr> else t1))"

section \<open>Agreement\<close>

lemma resolvers_agree: "media \<noteq> None \<Longrightarrow> autoload_resolve_scheme media = resolve_scheme media"
  by (auto simp: fun_eq_iff resolve_scheme_def autoload_resolve_scheme_def split: option.splits)

text \<open>
  C31. The page does not flash: whatever is stored, even a value that no version of the page wrote, the boot script
  paints what both theme scripts paint once they have loaded.
\<close>

theorem boot_paints_what_the_theme_applies:
  assumes "ls_items st = Some m" "media = Some prefersDark"
  shows "let b = theme_boot st media r; a = apply_palette (get_stored_palette st) (apply_scheme resolve_scheme media (get_stored_scheme st) r) in
     root_dark b = root_dark a \<and> root_color_scheme b = root_color_scheme a \<and> root_palette b = root_palette a \<and>
     apply_scheme autoload_resolve_scheme media (get_stored_scheme st) r = apply_scheme resolve_scheme media (get_stored_scheme st) r"
proof -
  have "apply_scheme autoload_resolve_scheme media = apply_scheme resolve_scheme media"
    using resolvers_agree [of media] assms(2) by (simp add: fun_eq_iff apply_scheme_def Let_def)
  then show ?thesis
    using assms by (auto simp: theme_boot_def get_stored_scheme_def get_stored_palette_def stored_one_of_def apply_palette_def
        apply_scheme_def resolve_scheme_def SCHEMES_def PALETTES_def Let_def split: option.splits)
qed

definition bare_root :: theme_root where
  "bare_root = \<lparr>root_dark = False, root_color_scheme = [], root_scheme = None, root_resolved = None, root_palette = None\<rparr>"

lemma boot_paints_what_the_theme_applies_witness:
  "root_dark (theme_boot \<lparr>ls_items = Some [SCHEME_KEY \<mapsto> ''sepia''], ls_writable = True\<rparr> (Some True) bare_root) =
   root_dark (apply_scheme resolve_scheme (Some True) (get_stored_scheme \<lparr>ls_items = Some [SCHEME_KEY \<mapsto> ''sepia''], ls_writable = True\<rparr>) bare_root)"
  using boot_paints_what_the_theme_applies [of "\<lparr>ls_items = Some [SCHEME_KEY \<mapsto> ''sepia''], ls_writable = True\<rparr>" _ "Some True" True bare_root]
  by (simp add: Let_def apply_palette_def)

text \<open>The page shows what is stored.\<close>

definition theme_ok :: "(bool option \<Rightarrow> string \<Rightarrow> string) \<Rightarrow> theme \<Rightarrow> bool" where
  "theme_ok resolve t \<longleftrightarrow>
     ls_writable (th_store t) \<and> ls_items (th_store t) \<noteq> None \<and>
     (let s = get_stored_scheme (th_store t); p = get_stored_palette (th_store t) in
      root_dark (th_root t) = (resolve (th_media t) s = ''dark'') \<and> root_color_scheme (th_root t) = resolve (th_media t) s \<and>
      root_scheme (th_root t) = Some s \<and> root_palette (th_root t) = Some p \<and>
      list_all (\<lambda>(v, on). on = (v = s)) (th_schemes t) \<and> list_all (\<lambda>(v, on). on = (v = p)) (th_palettes t))"

lemma press_ok [simp]: "list_all (\<lambda>(v, on). on = (v = s)) (press s bs)"
  by (auto simp: press_def list_all_iff)

lemma stored_scheme_read [simp]:
  "ls_writable st \<Longrightarrow> ls_items st \<noteq> None \<Longrightarrow> v \<in> set SCHEMES \<Longrightarrow> get_stored_scheme (set_stored_scheme v st) = v"
  "get_stored_palette (set_stored_scheme v st) = get_stored_palette st"
  by (auto simp: get_stored_scheme_def get_stored_palette_def set_stored_scheme_def store_item_def stored_one_of_def SCHEME_KEY_def PALETTE_KEY_def
      split: option.splits)

lemma stored_palette_read [simp]:
  "ls_writable st \<Longrightarrow> ls_items st \<noteq> None \<Longrightarrow> v \<in> set PALETTES \<Longrightarrow> get_stored_palette (set_stored_palette v st) = v"
  "get_stored_scheme (set_stored_palette v st) = get_stored_scheme st"
  by (auto simp: get_stored_scheme_def get_stored_palette_def set_stored_palette_def store_item_def stored_one_of_def SCHEME_KEY_def PALETTE_KEY_def
      split: option.splits)

lemma store_stays [simp]:
  "ls_writable (set_stored_scheme v st) = ls_writable st" "ls_writable (set_stored_palette v st) = ls_writable st"
  "(ls_items (set_stored_scheme v st) = None) = (ls_items st = None)" "(ls_items (set_stored_palette v st) = None) = (ls_items st = None)"
  by (simp_all add: set_stored_scheme_def set_stored_palette_def store_item_def)

lemma resolved_plainly:
  "resolve \<in> {resolve_scheme, autoload_resolve_scheme} \<Longrightarrow> get_stored_scheme st \<noteq> ''system'' \<Longrightarrow>
     resolve media (get_stored_scheme st) = resolve media' (get_stored_scheme st)"
  by (auto simp: get_stored_scheme_def stored_one_of_def SCHEMES_def resolve_scheme_def autoload_resolve_scheme_def split: option.splits if_splits)

lemma theme_step_ok:
  assumes "resolve \<in> {resolve_scheme, autoload_resolve_scheme}" "theme_ok resolve u"
  shows "theme_ok resolve (theme_step resolve e u)"
proof (cases e)
  case (MediaChanged d)
  then show ?thesis using assms(2) resolved_plainly [OF assms(1), of "th_store u" "Some d" "th_media u"]
    by (auto simp: theme_ok_def theme_step_def apply_scheme_def Let_def)
qed (use assms(2) in \<open>simp_all add: theme_ok_def theme_step_def apply_scheme_def apply_palette_def Let_def del: not_None_eq\<close>)

text \<open>
  While the storage works, the page shows what is stored: the scheme and palette painted, and the buttons pressed, after
  any clicks and changes of the system's preference.
\<close>

theorem theme_shows_what_is_stored:
  assumes "resolve \<in> {resolve_scheme, autoload_resolve_scheme}" "ls_writable (th_store t)" "ls_items (th_store t) \<noteq> None"
  shows "theme_ok resolve (fold (theme_step resolve) es (bind_theme_controls resolve t))"
proof -
  have "theme_ok resolve (bind_theme_controls resolve t)"
    using assms(2,3) by (simp add: theme_ok_def bind_theme_controls_def apply_scheme_def apply_palette_def Let_def)
  moreover have "theme_ok resolve u \<Longrightarrow> theme_ok resolve (fold (theme_step resolve) es u)" for u
    by (induction es arbitrary: u) (simp_all add: theme_step_ok [OF assms(1)])
  ultimately show ?thesis by blast
qed

lemma theme_shows_what_is_stored_witness:
  "theme_ok autoload_resolve_scheme (fold (theme_step autoload_resolve_scheme) [SchemeClicked ''dark'', MediaChanged False, PaletteClicked ''blue'']
     (bind_theme_controls autoload_resolve_scheme
       \<lparr>th_store = \<lparr>ls_items = Some Map.empty, ls_writable = True\<rparr>, th_media = Some True, th_root = bare_root,
        th_schemes = [(''light'', False), (''dark'', False), (''system'', False)], th_palettes = []\<rparr>))"
  by (rule theme_shows_what_is_stored) simp_all

text \<open>
  Where the storage cannot be written, the scheme chosen is painted, but the buttons still show the stored one.
\<close>

lemma unwritable_storage_splits_button_and_page:
  assumes "\<not> ls_writable (th_store t)" "v \<in> set SCHEMES"
  shows "root_scheme (th_root (theme_step resolve (SchemeClicked v) t)) = Some v"
    "th_schemes (theme_step resolve (SchemeClicked v) t) = press (get_stored_scheme (th_store t)) (th_schemes t)"
  using assms by (simp_all add: theme_step_def apply_scheme_def set_stored_scheme_def store_item_def Let_def)

end
