(* ===== verification/Startup.thy ===== *)
theory Startup
  imports Router
begin

text \<open>
  \<open>main.js\<close>: what it handles itself, around the pages: the navigation drawer of narrow windows, the keys
  that work everywhere, the help dialogs, leaving the window, and what is refreshed after an Apply.
\<close>

section \<open>The drawer\<close>

record shell =
  nav_open :: bool
  nav_expanded :: bool
  nav_label :: string
  backdrop_hidden :: bool
  nav_trapped :: bool

datatype shell_effect = FocusFirstItem | FocusMenuButton

definition set_shell_nav_open :: "bool \<Rightarrow> bool \<Rightarrow> bool \<Rightarrow> shell \<Rightarrow> shell \<times> shell_effect list" where
  "set_shell_nav_open opening hasItems focusInside s =
     (let s1 = s\<lparr>nav_open := opening, nav_expanded := opening, nav_label := (if opening then ''Close navigation'' else ''Open navigation''),
                 backdrop_hidden := \<not> opening\<rparr> in
      if opening = nav_open s then (s1, [])
      else if opening then (s1\<lparr>nav_trapped := True\<rparr>, if hasItems then [FocusFirstItem] else [])
      else (s1\<lparr>nav_trapped := False\<rparr>, if focusInside then [FocusMenuButton] else []))"

text \<open>Tab in the open drawer.\<close>

definition on_nav_trap :: "'e list \<Rightarrow> 'e \<Rightarrow> bool \<Rightarrow> bool \<Rightarrow> 'e trap" where
  "on_nav_trap items active inside shift =
     (if items = [] then LetBrowser
      else if shift then (if \<not> inside \<or> active = hd items then FocusControl (last items) else LetBrowser)
      else (if \<not> inside \<or> active = last items then FocusControl (hd items) else LetBrowser))"

datatype shell_event = MenuClicked | BackdropClicked | WindowWidened bool | LinkClicked bool string

text \<open>A click on a link: a disabled one does nothing, another closes the drawer and names the page to go to.\<close>

definition shell_step :: "bool \<Rightarrow> bool \<Rightarrow> shell_event \<Rightarrow> shell \<Rightarrow> shell \<times> shell_effect list \<times> string option" where
  "shell_step hasItems focusInside e s = (case e of
     MenuClicked \<Rightarrow> (case set_shell_nav_open (\<not> nav_open s) hasItems focusInside s of (s1, q) \<Rightarrow> (s1, q, None))
   | BackdropClicked \<Rightarrow> (case set_shell_nav_open False hasItems focusInside s of (s1, q) \<Rightarrow> (s1, q, None))
   | WindowWidened wide \<Rightarrow>
       (if wide then (case set_shell_nav_open False hasItems focusInside s of (s1, q) \<Rightarrow> (s1, q, None)) else (s, [], None))
   | LinkClicked disabled route \<Rightarrow>
       (if disabled then (s, [], None)
        else (case set_shell_nav_open False hasItems focusInside s of (s1, q) \<Rightarrow> (s1, q, Some route))))"

definition shell_ok :: "shell \<Rightarrow> bool" where
  "shell_ok s \<longleftrightarrow> nav_expanded s = nav_open s \<and> backdrop_hidden s = (\<not> nav_open s) \<and> nav_trapped s = nav_open s"

lemma set_shell_nav_open_ok: "shell_ok s \<Longrightarrow> shell_ok (fst (set_shell_nav_open b i f s)) \<and> nav_open (fst (set_shell_nav_open b i f s)) = b"
  by (auto simp: set_shell_nav_open_def shell_ok_def Let_def)

text \<open>The keyboard is held in the drawer exactly while it covers the page.\<close>

lemma shell_step_ok: "shell_ok s \<Longrightarrow> shell_ok (fst (shell_step i f e s)) \<and> (snd (snd (shell_step i f e s)) \<noteq> None \<longrightarrow> \<not> nav_open (fst (shell_step i f e s)))"
  by (cases e) (simp_all add: shell_step_def case_prod_beta set_shell_nav_open_ok)

lemma nav_trap_is_the_dialogs: "items \<noteq> [] \<Longrightarrow> on_nav_trap items active inside shift = on_modal_trap items active inside shift"
  by (simp add: on_nav_trap_def on_modal_trap_def)

section \<open>Keys\<close>

record key_press =
  key_name :: string
  key_mod :: bool
  key_shift :: bool
  in_text :: bool

datatype key_action = NothingDone | FocusFilter | ShowShortcuts

text \<open>\<open>/\<close> and \<open>?\<close>: not with a modifier and not while typing; \<open>hasFilter\<close>: the page on screen has a filter.\<close>

definition on_shell_key :: "bool \<Rightarrow> key_press \<Rightarrow> key_action" where
  "on_shell_key hasFilter k =
     (if key_name k = ''/'' \<and> \<not> key_mod k then (if in_text k \<or> \<not> hasFilter then NothingDone else FocusFilter)
      else if (key_name k = ''?'' \<or> (key_shift k \<and> key_name k = ''/'')) \<and> \<not> key_mod k \<and> \<not> in_text k then ShowShortcuts
      else NothingDone)"

text \<open>The second way to ask for help is never reached: a slash is always taken by the first case.\<close>

lemma only_the_question_mark_helps: "on_shell_key hasFilter k = ShowShortcuts \<longleftrightarrow> key_name k = ''?'' \<and> \<not> key_mod k \<and> \<not> in_text k"
  by (auto simp: on_shell_key_def)

text \<open>Escape: the topmost dialog, else the drawer. Beside the state it gives the callbacks that run and whether the key was used.\<close>

definition on_escape :: "bool \<Rightarrow> bool \<Rightarrow> shell \<times> dialogs \<Rightarrow> (shell \<times> dialogs) \<times> shell_effect list \<times> nat list \<times> bool" where
  "on_escape hasItems focusInside st = (case st of (s, d) \<Rightarrow>
     (case close_top_modal d of
        Some (d1, cbs) \<Rightarrow> ((s, d1), [], cbs, True)
      | None \<Rightarrow>
          if nav_open s then (case set_shell_nav_open False hasItems focusInside s of (s1, q) \<Rightarrow> ((s1, d), q, [], True))
          else (st, [], [], False)))"

lemma filter_last: "distinct (map fst xs) \<Longrightarrow> xs \<noteq> [] \<Longrightarrow> filter (\<lambda>e. fst e \<noteq> fst (last xs)) xs = butlast xs"
  by (induction xs) (auto simp: filter_id_conv)

text \<open>
  C34. Escape takes one thing off, the one on top. With a dialog open the drawer stays; a dialog with unsaved edits asks first; any other
  goes, the dialogs underneath it stay, and no callback runs. A prompt goes too, answered with a no: its OK can do nothing any more and what
  it was to do when cancelled is done (closing the dialog it names, or the page's callback). Only with no dialog open does the drawer close.
\<close>

theorem escape_takes_the_topmost:
  assumes "dialogs_ok d" "on_escape i f (s, d) = ((s', d'), q, cbs, used)"
  shows "if open_stack d = [] then d' = d \<and> \<not> nav_open s' \<and> used = nav_open s
    else s' = s \<and> used \<and> (let t = fst (last (open_stack d)); under = butlast (open_stack d) in
      if is_modal_dirty t d then d' = confirm_discard (CloseDialog t) None d \<and> cbs = []
      else \<not> is_open t d' \<and> t \<notin> visible d' \<and>
        (if t = CONFIRM
         then on_confirm d' = None \<and> on_cancel d' = None \<and>
           open_stack d' = (case on_cancel d of Some (CloseDialog x) \<Rightarrow> filter (\<lambda>e. fst e \<noteq> x) under | _ \<Rightarrow> under) \<and>
           cbs = (case on_cancel d of Some (PageCallback n) \<Rightarrow> [n] | _ \<Rightarrow> [])
         else open_stack d' = under \<and> cbs = []))"
proof (cases "open_stack d = []")
  case True
  then show ?thesis using assms(2)
    by (auto simp: on_escape_def close_top_modal_def top_modal_def set_shell_nav_open_def Let_def split: if_splits)
next
  case False
  define t where "t = fst (last (open_stack d))"
  have top: "top_modal d = Some t" using False by (simp add: top_modal_def t_def)
  have under: "filter (\<lambda>e. fst e \<noteq> t) (open_stack d) = butlast (open_stack d)"
    using filter_last [OF _ False] assms(1) by (simp add: dialogs_ok_def t_def)
  then have gone: "t \<notin> fst ` set (butlast (open_stack d))" by (auto simp flip: under)
  then have gone': "(t, b) \<notin> set (butlast (open_stack d))" for b by force
  obtain e: "s' = s" "used" "dismiss_modal t d = (d', cbs)"
    using assms(2) top by (auto simp: on_escape_def close_top_modal_def split: prod.splits)
  show ?thesis
  proof (cases "is_modal_dirty t d \<or> t \<noteq> CONFIRM")
    case True
    then show ?thesis using False e under gone' unfolding t_def [symmetric] Let_def
      by (auto simp: dismiss_modal_def run_modal_closer_def is_open_def)
  next
    case prompt: False
    then have t: "t = CONFIRM" "\<not> is_modal_dirty CONFIRM d" by auto
    with e(3) have "close_confirm_modal False d = (d', cbs)" by (simp add: dismiss_modal_def run_modal_closer_def)
    then show ?thesis using False prompt e under gone unfolding t_def [symmetric] Let_def
      by (auto simp: close_confirm_modal_def Let_def run_callback_def is_open_def reset_confirm_def split: option.splits callback.splits if_splits)
  qed
qed

lemma escape_takes_the_topmost_witness:
  "let d = open_modal ''qr'' (open_modal ''peer'' (no_dialogs {}));
       s = \<lparr>nav_open = True, nav_expanded = True, nav_label = [], backdrop_hidden = False, nav_trapped = True\<rparr> in
   fst (fst (on_escape True True (s, d))) = s \<and> map fst (open_stack (snd (fst (on_escape True True (s, d))))) = [''peer'']"
proof -
  define d where "d = open_modal ''qr'' (open_modal ''peer'' (no_dialogs {}))"
  define s :: shell where "s = \<lparr>nav_open = True, nav_expanded = True, nav_label = [], backdrop_hidden = False, nav_trapped = True\<rparr>"
  have ok: "dialogs_ok d" unfolding d_def by (intro open_modal_ok dialogs_ok_start)
  have st: "map fst (open_stack d) = [''peer'', ''qr'']" "\<not> is_modal_dirty ''qr'' d"
    by (simp_all add: d_def open_modal_def no_dialogs_def is_open_def forget_form_def sync_background_def is_modal_dirty_def Let_def)
  then have st': "open_stack d \<noteq> []" "fst (last (open_stack d)) = ''qr''" by (auto simp: last_map [symmetric])
  obtain s' d' q cbs used where e: "on_escape True True (s, d) = ((s', d'), q, cbs, used)" by (metis prod.exhaust)
  from escape_takes_the_topmost [OF ok e] st st' have "s' = s" "open_stack d' = butlast (open_stack d)"
    by (auto simp: CONFIRM_def Let_def)
  then have "map fst (open_stack d') = [''peer'']" using st(1) by (simp add: map_butlast)
  with e \<open>s' = s\<close> show ?thesis by (simp add: d_def [symmetric] s_def [symmetric] Let_def)
qed

section \<open>Help, leaving, and after an Apply\<close>

definition help_title :: "string option \<Rightarrow> string" where
  "help_title attr = (case attr of None \<Rightarrow> ''Help'' | Some t \<Rightarrow> if trim t = [] then ''Help'' else trim t)"

text \<open>The browser is to ask before the window is left.\<close>

definition before_unload :: "router \<Rightarrow> bool" where
  "before_unload s = has_unsaved_edits None s"

text \<open>After an Apply: always the count of changes, then the two pages that show it, if one is on screen.\<close>

definition after_apply :: "string set \<Rightarrow> string list" where
  "after_apply hiddenPages = [''badge''] @ filter (\<lambda>p. p \<notin> hiddenPages) [''pending'', ''overview'']"

lemma leaving_asks: "before_unload s \<longleftrightarrow> form_is_dirty s \<or> any_open_modal_dirty (dialogs_of s)"
  by (simp add: before_unload_def has_unsaved_edits_def)

end
