(* ===== verification/Shell_Dom.thy ===== *)
theory Shell_Dom
  imports Text_Output Widgets
begin

text \<open>
  What the shell does to elements that a page has drawn: tables read as cards (\<open>core/table_sort.js\<close>), the row an address points to
  (\<open>core/router.js\<close>), the tags of a page (\<open>core/connection.js\<close>), the focus of a row's switch, copy buttons and leaving rows
  (\<open>core/dom.js\<close>), a dialog's focusable elements (\<open>core/modal.js\<close>), the window's title (\<open>core/title.js\<close>), a failed download
  (\<open>core/api.js\<close>).
\<close>

section \<open>Tables as cards\<close>

record table_cell =
  cell_text :: string
  cell_span :: nat
  cell_role :: "string option"
  cell_label :: "string option"

record drawn_table =
  table_heads :: "string list"
  table_rows :: "table_cell list list"
  table_roles :: bool  \<comment> \<open>the roles of the table, its groups, rows and column headers\<close>

definition label_cell :: "string list \<Rightarrow> nat \<Rightarrow> table_cell \<Rightarrow> table_cell" where
  "label_cell heads i c =
     (let c1 = c\<lparr>cell_role := Some ''cell''\<rparr> in
      if cell_span c = 1 \<and> i < length heads then c1\<lparr>cell_label := Some (trim (heads ! i))\<rparr> else c1)"

definition prepare_table_cards :: "drawn_table \<Rightarrow> drawn_table" where
  "prepare_table_cards t =
     t\<lparr>table_roles := True, table_rows := map (\<lambda>r. map (\<lambda>i. label_cell (table_heads t) i (r ! i)) [0..<length r]) (table_rows t)\<rparr>"

text \<open>Every value of a row carries the name of its own column, a message across the row none, and doing it again changes nothing.\<close>

lemma cards_are_labelled:
  assumes "r < length (table_rows t)" "i < length (table_rows t ! r)" "cell_label (table_rows t ! r ! i) = None"
  shows "cell_label (table_rows (prepare_table_cards t) ! r ! i) =
      (if cell_span (table_rows t ! r ! i) = 1 \<and> i < length (table_heads t) then Some (trim (table_heads t ! i)) else None)"
    "cell_text (table_rows (prepare_table_cards t) ! r ! i) = cell_text (table_rows t ! r ! i)"
  using assms by (simp_all add: prepare_table_cards_def label_cell_def Let_def)

lemma label_cell_twice: "label_cell heads i (label_cell heads i c) = label_cell heads i c"
  by (simp add: label_cell_def Let_def)

lemma prepared_once: "prepare_table_cards (prepare_table_cards t) = prepare_table_cards t"
proof -
  have "map (\<lambda>i. label_cell hs i (map (\<lambda>i. label_cell hs i (r ! i)) [0..<length r] ! i)) [0..<length r] = map (\<lambda>i. label_cell hs i (r ! i)) [0..<length r]" for hs r
    by (rule map_cong [OF refl]) (simp add: label_cell_twice)
  then show ?thesis by (simp add: prepare_table_cards_def)
qed

section \<open>The row an address points to\<close>

text \<open>The rows that can be edited, by the index of their button, and those highlighted. \<open>params\<close> are the hash's parameters.\<close>

record page_rows =
  rows_shown :: bool
  rows_edit :: "int list"
  rows_lit :: "int set"

definition light_row :: "string option \<Rightarrow> page_rows \<Rightarrow> page_rows" where
  "light_row param p = (case param of
     None \<Rightarrow> p
   | Some t \<Rightarrow>
       if \<not> rows_shown p then p
       else (case parse_int t of Some i \<Rightarrow> if i \<in> set (rows_edit p) then p\<lparr>rows_lit := insert i (rows_lit p)\<rparr> else p | None \<Rightarrow> p))"

definition apply_hash_highlight :: "(string \<Rightarrow> string option) \<Rightarrow> page_rows \<times> page_rows \<Rightarrow> page_rows \<times> page_rows" where
  "apply_hash_highlight params ps = (case ps of (peers, routes) \<Rightarrow>
     (light_row (params ''peer'') (peers\<lparr>rows_lit := {}\<rparr>), light_row (params ''route'') (routes\<lparr>rows_lit := {}\<rparr>)))"

text \<open>At most one row of a table is lit, only one that is there, and only on the page on screen; an older highlight never stays.\<close>

lemma one_row_lit:
  assumes "apply_hash_highlight params (peers, routes) = (peers', routes')"
  shows "rows_lit peers' = (case params ''peer'' of Some t \<Rightarrow> {i. rows_shown peers \<and> i \<in> set (rows_edit peers) \<and> parse_int t = Some i} | None \<Rightarrow> {})"
    "rows_lit routes' = (case params ''route'' of Some t \<Rightarrow> {i. rows_shown routes \<and> i \<in> set (rows_edit routes) \<and> parse_int t = Some i} | None \<Rightarrow> {})"
  using assms by (auto simp: apply_hash_highlight_def light_row_def split: option.splits if_splits)

lemma address_lights_the_row:
  "\<lbrakk>rows_shown peers; int n \<in> set (rows_edit peers); params ''peer'' = Some (show_nat n)\<rbrakk> \<Longrightarrow>
   rows_lit (fst (apply_hash_highlight params (peers, routes))) = {int n}"
  by (simp add: apply_hash_highlight_def light_row_def)

section \<open>Tags of a page\<close>

definition set_page_tag :: "string \<Rightarrow> bool \<Rightarrow> string list \<Rightarrow> string list" where
  "set_page_tag cls on tags = (if \<not> on then remove1 cls tags else if cls \<in> set tags then tags else tags @ [cls])"

lemma page_tag_once:
  assumes "distinct tags"
  shows "distinct (set_page_tag cls on tags)" "cls \<in> set (set_page_tag cls on tags) \<longleftrightarrow> on"
    "x \<noteq> cls \<Longrightarrow> x \<in> set (set_page_tag cls on tags) \<longleftrightarrow> x \<in> set tags"
  using assms by (auto simp: set_page_tag_def)

section \<open>Focus\<close>

text \<open>Where the focus of a row's switch goes after a redraw: \<open>there\<close> are the switches drawn, in order.\<close>

definition restore_row_switch_focus :: "bool \<Rightarrow> bool \<Rightarrow> nat \<Rightarrow> nat list \<Rightarrow> nat option" where
  "restore_row_switch_focus elsewhere force i there =
     (if \<not> force \<and> elsewhere then None
      else if i \<in> set there then Some i
      else if there = [] then None else Some (last there))"

lemma switch_focus_stays_in_the_table: "restore_row_switch_focus elsewhere force i there = Some j \<Longrightarrow> j \<in> set there"
  by (auto simp: restore_row_switch_focus_def split: if_splits)

record panel_element =
  in_hidden :: bool
  css_display :: string
  css_visibility :: string

definition modal_focusables :: "panel_element list \<Rightarrow> panel_element list" where
  "modal_focusables els = filter (\<lambda>e. \<not> in_hidden e \<and> css_display e \<noteq> ''none'' \<and> css_visibility e \<noteq> ''hidden'') els"

text \<open>Motion is skipped for what the keyboard drives: the last key or pointer press decides.\<close>

datatype input_event = KeyPressed | PointerPressed

definition last_input_was_keyboard :: "input_event list \<Rightarrow> bool" where
  "last_input_was_keyboard es \<longleftrightarrow> es \<noteq> [] \<and> last es = KeyPressed"

definition row_fades :: "bool \<Rightarrow> input_event list \<Rightarrow> bool" where
  "row_fades inDocument es \<longleftrightarrow> inDocument \<and> \<not> last_input_was_keyboard es"

section \<open>Copy buttons\<close>

record copy_button =
  cb_text :: string
  cb_title :: string
  cb_copied :: bool
  cb_timer :: "(nat \<times> string) option"  \<comment> \<open>the timer that runs, and the title it puts back\<close>
  cb_timers :: nat

datatype copy_answer = NoClipboard | CopyFailed string | Copied

definition NO_CLIPBOARD :: string where
  "NO_CLIPBOARD = ''Clipboard is not available in this context (try HTTPS or localhost).''"

text \<open>A click, up to its end, with the message for the page if any.\<close>

definition copy_clicked :: "copy_answer \<Rightarrow> copy_button \<Rightarrow> copy_button \<times> string option" where
  "copy_clicked a b =
     (if cb_text b = [] then (b, None)
      else (case a of
          NoClipboard \<Rightarrow> (b, Some NO_CLIPBOARD)
        | CopyFailed m \<Rightarrow> (b, Some m)
        | Copied \<Rightarrow> (b\<lparr>cb_copied := True, cb_title := ''Copied'', cb_timer := Some (cb_timers b, cb_title b), cb_timers := cb_timers b + 1\<rparr>, None)))"

definition copy_timer_fired :: "nat \<Rightarrow> copy_button \<Rightarrow> copy_button" where
  "copy_timer_fired n b = (case cb_timer b of
     Some (k, title) \<Rightarrow> if k = n then b\<lparr>cb_copied := False, cb_title := title, cb_timer := None\<rparr> else b
   | None \<Rightarrow> b)"

text \<open>One copy says so for a while and then the button is as before.\<close>

lemma copied_and_back:
  assumes "cb_timer b = None" "cb_text b \<noteq> []" "\<not> cb_copied b"
  shows "copy_timer_fired (cb_timers b) (fst (copy_clicked Copied b)) = b\<lparr>cb_timers := cb_timers b + 1\<rparr>"
  using assms by (simp add: copy_clicked_def copy_timer_fired_def)

text \<open>
  A second copy within that time takes the first one's "Copied" for the title to put back: once its timer has fired the button says
  "Copied" for good.
\<close>

lemma second_copy_stays_copied:
  assumes "cb_timer b = None" "cb_text b \<noteq> []"
  shows "let c = fst (copy_clicked Copied (fst (copy_clicked Copied b))) in
    cb_title (copy_timer_fired (cb_timers b + 1) c) = ''Copied'' \<and> \<not> cb_copied (copy_timer_fired (cb_timers b + 1) c) \<and>
    cb_timer (copy_timer_fired (cb_timers b + 1) c) = None"
  using assms by (simp add: copy_clicked_def copy_timer_fired_def Let_def)

section \<open>The window's title\<close>

record window_title =
  wt_page :: string
  wt_pending :: nat

definition set_title_page :: "string option \<Rightarrow> window_title \<Rightarrow> window_title" where
  "set_title_page heading t = t\<lparr>wt_page := (case heading of Some h \<Rightarrow> trim h | None \<Rightarrow> [])\<rparr>"

definition set_title_pending_count :: "nat \<Rightarrow> window_title \<Rightarrow> window_title" where
  "set_title_pending_count n t = t\<lparr>wt_pending := n\<rparr>"

definition window_title_text :: "window_title \<Rightarrow> string" where
  "window_title_text t = render_title (wt_page t) (wt_pending t)"

text \<open>The page and the count are independent: in either order the title is the same.\<close>

lemma title_parts_commute: "set_title_page h (set_title_pending_count n t) = set_title_pending_count n (set_title_page h t)"
  by (simp add: set_title_page_def set_title_pending_count_def)

section \<open>A failed download\<close>

text \<open>\<open>parsed\<close> is the body as JSON, if it is any. A body of \<open>null\<close> has no members, and the error of reading one is dropped.\<close>

definition blob_error :: "string \<Rightarrow> json option \<Rightarrow> string" where
  "blob_error t parsed = (case parsed of
     Some j \<Rightarrow> if truthy (member_json j ''error'') then str_or_empty (member_json j ''error'') else t
   | None \<Rightarrow> t)"

end
