(* ===== verification/Inbound_Page.thy ===== *)
theory Inbound_Page
  imports Routes_Page Peer_Editor
begin

text \<open>
  \<open>pages/inbound.js\<close>, the page: refreshes, the editor, switching and removing rules, as a machine over clicks and answers. A save is a
  request of the machine; what it does to the config is the edit that \<open>Inbound\<close> models. How a table is sorted comes with the step.
\<close>

section \<open>State\<close>

record inbound_page =
  ip_config :: "json option"
  ip_html :: string
  ip_errs :: row_errors
  ip_msg :: "string \<times> bool"
  ip_api :: "bool \<times> string"
  ip_loaded :: bool
  ip_loading :: nat
  ip_open :: bool
  ip_title :: string
  ip_form :: inbound_form
  ip_editor_msg :: string
  ip_removing :: bool

datatype inbound_effect =
    ReadInbound bool  \<comment> \<open>whether the editor for a new rule follows\<close>
  | SaveInbound "nat option" string json
  | PatchInbound nat string bool
  | RemoveInbound nat string
  | InboundToast string | InboundUndo string | InboundBadge

text \<open>
  An answer of a save that failed comes with whether a merge refused it. \<open>InboundConfigIs\<close> is any save that brought the config at hand up
  to date, a failed one included.
\<close>

datatype inbound_event =
    InboundRefreshPressed | InboundAddPressed | InboundRead bool "string + json"
  | InboundConfigIs json
  | InboundEditPressed nat
  | InboundTyped inbound_form
  | InboundSavePressed
  | InboundSaved "nat option" "(bool \<times> string) + json"
  | InboundCancelled
  | InboundSwitched nat bool | InboundPatched nat string bool "(bool \<times> string) + json"
  | InboundRemovePressed nat nat | InboundRemoved "string + json \<times> json"
  | InboundUndone json

type_synonym table_order = "string comparing \<times> (rat \<Rightarrow> string) \<times> sorts"

definition draw_inbound :: "table_order \<Rightarrow> json \<Rightarrow> inbound_page \<Rightarrow> inbound_page" where
  "draw_inbound ord c s = (case ord of (coll, str, sorts) \<Rightarrow> s\<lparr>ip_html := inbound_table_html coll str sorts (ip_errs s) c\<rparr>)"

definition draw_last_inbound :: "table_order \<Rightarrow> inbound_page \<Rightarrow> inbound_page" where
  "draw_last_inbound ord s = (case ip_config s of Some c \<Rightarrow> draw_inbound ord c s | None \<Rightarrow> s)"

definition INBOUND_SWITCH :: string where "INBOUND_SWITCH = ''data-inbound-disabled''"

definition set_inbound_msg :: "string \<Rightarrow> bool \<Rightarrow> inbound_page \<Rightarrow> inbound_page" where
  "set_inbound_msg t err s =
     s\<lparr>ip_msg := (t, err), ip_errs := (if t = [] then clear_row_error INBOUND_SWITCH (ip_errs s) else ip_errs s)\<rparr>"

section \<open>Steps\<close>

definition start_inbound_refresh :: "bool \<Rightarrow> inbound_page \<Rightarrow> inbound_page \<times> inbound_effect list" where
  "start_inbound_refresh thenAdd s = ((set_inbound_msg [] False s)\<lparr>ip_loading := ip_loading s + 1\<rparr>, [ReadInbound thenAdd])"

definition show_inbound_editor :: "nat option \<Rightarrow> inbound_page \<Rightarrow> inbound_page" where
  "show_inbound_editor index s = (case ip_config s of
     None \<Rightarrow> s
   | Some c \<Rightarrow>
       (case open_inbound_editor c index (ip_form s) of
          (c', Some f) \<Rightarrow> s\<lparr>ip_config := Some c', ip_editor_msg := [], ip_title := (if index = None then ''Add rule'' else ''Edit rule''),
              ip_form := f, ip_open := True\<rparr>
        | (c', None) \<Rightarrow> s\<lparr>ip_config := Some c', ip_editor_msg := []\<rparr>))"

definition inbound_read :: "table_order \<Rightarrow> bool \<Rightarrow> string + json \<Rightarrow> inbound_page \<Rightarrow> inbound_page" where
  "inbound_read ord thenAdd r s =
     (let s1 = (case r of
            Inl m \<Rightarrow> set_inbound_msg m True (s\<lparr>ip_api := (False, m)\<rparr>)
          | Inr c \<Rightarrow> (draw_inbound ord c (s\<lparr>ip_config := Some c, ip_api := (True, [])\<rparr>))\<lparr>ip_loaded := True\<rparr>);
          s2 = s1\<lparr>ip_loading := ip_loading s - 1\<rparr> in
      if thenAdd then show_inbound_editor None s2 else s2)"

definition save_inbound_editor :: "inbound_page \<Rightarrow> inbound_page \<times> inbound_effect list" where
  "save_inbound_editor s = (case inbound_entry (ip_form s) of
     Inl m \<Rightarrow> (s\<lparr>ip_editor_msg := m\<rparr>, [])
   | Inr entry \<Rightarrow> (s\<lparr>ip_editor_msg := []\<rparr>, [SaveInbound (ib_index (ip_form s)) (ib_base (ip_form s)) entry]))"

definition inbound_saved :: "table_order \<Rightarrow> nat option \<Rightarrow> (bool \<times> string) + json \<Rightarrow> inbound_page \<Rightarrow> inbound_page \<times> inbound_effect list" where
  "inbound_saved ord index r s = (case r of
     Inr c \<Rightarrow>
       ((draw_inbound ord c ((set_inbound_msg [] False s)\<lparr>ip_config := Some c, ip_open := False\<rparr>))\<lparr>ip_api := (True, [])\<rparr>,
        [InboundBadge, InboundToast (if index = None then ''Inbound rule added.'' else ''Inbound rule saved.'')])
   | Inl (merge, m) \<Rightarrow>
       (if merge then (draw_last_inbound ord (s\<lparr>ip_editor_msg := m @ KEEP_YOUR_VALUES\<rparr>), []) else (s\<lparr>ip_editor_msg := m\<rparr>, [])))"

definition inbound_switched :: "table_order \<Rightarrow> nat \<Rightarrow> bool \<Rightarrow> inbound_page \<Rightarrow> inbound_page \<times> inbound_effect list" where
  "inbound_switched ord idx want s =
     (let s1 = s\<lparr>ip_errs := clear_row_error INBOUND_SWITCH (ip_errs s)\<rparr> in
      case ip_config s of
        None \<Rightarrow> (s1, [])
      | Some c \<Rightarrow>
          (case switch_inbound c idx want of
             Inl m \<Rightarrow> (draw_inbound ord c (s1\<lparr>ip_errs := set_row_error INBOUND_SWITCH idx m (ip_errs s1)\<rparr>), [])
           | Inr _ \<Rightarrow> (s1, case rule_at c idx of Some r \<Rightarrow> [PatchInbound idx (inbound_rule_identity r) (\<not> want)] | None \<Rightarrow> [])))"

definition inbound_switch_label :: "bool \<Rightarrow> string" where
  "inbound_switch_label off = (if off then ''Inbound rule disabled'' else ''Inbound rule enabled'')"

definition inbound_patched :: "table_order \<Rightarrow> nat \<Rightarrow> string \<Rightarrow> bool \<Rightarrow> (bool \<times> string) + json \<Rightarrow> inbound_page \<Rightarrow> inbound_page \<times> inbound_effect list" where
  "inbound_patched ord idx identity off r s = (case r of
     Inr c \<Rightarrow> (draw_inbound ord c ((set_inbound_msg [] False s)\<lparr>ip_config := Some c, ip_api := (True, [])\<rparr>), [InboundBadge, InboundUndo (inbound_switch_label off)])
   | Inl (merge, m) \<Rightarrow>
       (let rows = (case ip_config s of Some c \<Rightarrow> inbound_or_none c | None \<Rightarrow> None); s1 = set_inbound_msg [] False s in
        case switch_failed merge rows (int idx) identity inbound_rule_identity m of
          (Some (i, t), _) \<Rightarrow> (draw_last_inbound ord (s1\<lparr>ip_errs := set_row_error INBOUND_SWITCH i t (ip_errs s1)\<rparr>), [])
        | (None, t) \<Rightarrow> (draw_last_inbound ord (set_inbound_msg t True s1), [])))"

text \<open>\<open>clicks\<close> is the event's count: the second click of a double click finds another row under the pointer.\<close>

definition inbound_remove_pressed :: "nat \<Rightarrow> nat \<Rightarrow> inbound_page \<Rightarrow> inbound_page \<times> inbound_effect list" where
  "inbound_remove_pressed clicks idx s =
     (case (clicks \<le> 1 \<and> \<not> ip_removing s, ip_config s) of
        (True, Some c) \<Rightarrow>
          (case rule_at c idx of
             Some r \<Rightarrow> (s\<lparr>ip_removing := True\<rparr>, [RemoveInbound idx (inbound_rule_identity r)])
           | None \<Rightarrow> (s, []))
      | _ \<Rightarrow> (s, []))"

definition inbound_removed :: "table_order \<Rightarrow> string + json \<times> json \<Rightarrow> inbound_page \<Rightarrow> inbound_page \<times> inbound_effect list" where
  "inbound_removed ord r s =
     (let s0 = s\<lparr>ip_removing := False\<rparr> in
      case r of
        Inr (c, removed) \<Rightarrow>
          (draw_inbound ord c ((set_inbound_msg [] False s0)\<lparr>ip_config := Some c, ip_api := (True, [])\<rparr>),
           [InboundBadge, InboundUndo (''Removed inbound rule '' @ removed_inbound_label removed @ ''.'')])
      | Inl m \<Rightarrow> (draw_last_inbound ord (set_inbound_msg m True s0), []))"

definition inbound_step :: "table_order \<Rightarrow> inbound_event \<Rightarrow> inbound_page \<Rightarrow> inbound_page \<times> inbound_effect list" where
  "inbound_step ord e s = (case e of
     InboundRefreshPressed \<Rightarrow> start_inbound_refresh False s
   | InboundAddPressed \<Rightarrow> (if ip_config s = None then start_inbound_refresh True s else (show_inbound_editor None s, []))
   | InboundRead thenAdd r \<Rightarrow> (inbound_read ord thenAdd r s, [])
   | InboundConfigIs c \<Rightarrow> (s\<lparr>ip_config := Some c\<rparr>, [])
   | InboundEditPressed i \<Rightarrow> (show_inbound_editor (Some i) s, [])
   | InboundTyped f \<Rightarrow> (s\<lparr>ip_form := f\<rparr>, [])
   | InboundSavePressed \<Rightarrow> save_inbound_editor s
   | InboundSaved index r \<Rightarrow> inbound_saved ord index r s
   | InboundCancelled \<Rightarrow> (s\<lparr>ip_open := False\<rparr>, [])
   | InboundSwitched idx want \<Rightarrow> inbound_switched ord idx want s
   | InboundPatched idx identity off r \<Rightarrow> inbound_patched ord idx identity off r s
   | InboundRemovePressed clicks idx \<Rightarrow> inbound_remove_pressed clicks idx s
   | InboundRemoved r \<Rightarrow> inbound_removed ord r s
   | InboundUndone c \<Rightarrow> (draw_inbound ord c ((set_inbound_msg [] False s)\<lparr>ip_config := Some c\<rparr>), [InboundBadge]))"

section \<open>One removal at a time, of the rule that was clicked\<close>

lemma drawn_inbound [simp]:
  "ip_removing (draw_inbound ord c s) = ip_removing s" "ip_removing (draw_last_inbound ord s) = ip_removing s"
  "ip_removing (set_inbound_msg t b s) = ip_removing s" "ip_removing (show_inbound_editor i s) = ip_removing s"
  "ip_open (draw_inbound ord c s) = ip_open s" "ip_open (draw_last_inbound ord s) = ip_open s" "ip_open (set_inbound_msg t b s) = ip_open s"
  "ip_form (draw_inbound ord c s) = ip_form s" "ip_form (draw_last_inbound ord s) = ip_form s" "ip_form (set_inbound_msg t b s) = ip_form s"
  by (simp_all add: draw_inbound_def draw_last_inbound_def set_inbound_msg_def show_inbound_editor_def split: prod.split option.split)

definition is_removal :: "inbound_effect \<Rightarrow> bool" where
  "is_removal q = (case q of RemoveInbound _ _ \<Rightarrow> True | _ \<Rightarrow> False)"

lemma removal_step:
  assumes "inbound_step ord e s = (s', qs)"
  shows "length (filter is_removal qs) + (if ip_removing s then 1 else 0) =
    (if (\<exists>r. e = InboundRemoved r) \<and> ip_removing s then 1 else 0) + (if ip_removing s' then 1 else 0)"
proof (cases e)
  case (InboundRemovePressed clicks idx)
  then show ?thesis using assms
    by (auto simp: inbound_step_def inbound_remove_pressed_def is_removal_def split: bool.splits option.splits)
next
  case (InboundSaved index r)
  then show ?thesis using assms by (auto simp: inbound_step_def inbound_saved_def is_removal_def split: sum.splits if_splits)
next
  case (InboundPatched idx identity off r)
  then show ?thesis using assms
    by (auto simp: inbound_step_def inbound_patched_def is_removal_def Let_def split: sum.splits if_splits option.splits prod.splits)
next
  case (InboundRemoved r)
  then show ?thesis using assms by (auto simp: inbound_step_def inbound_removed_def is_removal_def Let_def split: sum.splits)
next
  case (InboundSwitched idx want)
  then show ?thesis using assms
    by (auto simp: inbound_step_def inbound_switched_def is_removal_def Let_def split: sum.splits option.splits)
next
  case InboundSavePressed
  then show ?thesis using assms by (auto simp: inbound_step_def save_inbound_editor_def is_removal_def split: sum.splits)
next
  case (InboundRead a r)
  then show ?thesis using assms by (auto simp: inbound_step_def inbound_read_def Let_def split: sum.splits if_splits)
qed (use assms in \<open>auto simp: inbound_step_def start_inbound_refresh_def is_removal_def split: if_splits\<close>)

fun inbound_run :: "table_order \<Rightarrow> inbound_event list \<Rightarrow> inbound_page \<Rightarrow> inbound_page \<times> inbound_effect list" where
  "inbound_run ord [] s = (s, [])"
| "inbound_run ord (e # es) s =
     (case inbound_step ord e s of (s1, q1) \<Rightarrow> case inbound_run ord es s1 of (s2, q2) \<Rightarrow> (s2, q1 @ q2))"

lemma removals_counted:
  "length (filter is_removal (snd (inbound_run ord es s))) + (if ip_removing s then 1 else 0) \<le>
     length (filter (\<lambda>e. case e of InboundRemoved _ \<Rightarrow> True | _ \<Rightarrow> False) es) + (if ip_removing (fst (inbound_run ord es s)) then 1 else 0)"
proof (induction es arbitrary: s)
  case (Cons e es)
  obtain s1 q1 where st: "inbound_step ord e s = (s1, q1)" by fastforce
  obtain s2 q2 where run: "inbound_run ord es s1 = (s2, q2)" by fastforce
  have "(\<exists>r. e = InboundRemoved r) \<longleftrightarrow> (case e of InboundRemoved _ \<Rightarrow> True | _ \<Rightarrow> False)" by (cases e) simp_all
  with removal_step [OF st] Cons.IH [of s1] show ?case by (auto simp: st run split: if_splits)
qed simp

text \<open>A click that sends a removal: alone, while none is under way, for the rule that stands in its row, by what identifies it.\<close>

definition removes_its_rule :: "inbound_event \<Rightarrow> inbound_page \<Rightarrow> nat \<Rightarrow> string \<Rightarrow> bool" where
  "removes_its_rule e s i identity \<longleftrightarrow> (case e of
     InboundRemovePressed clicks j \<Rightarrow> clicks \<le> 1 \<and> j = i \<and> \<not> ip_removing s \<and>
       (case ip_config s of Some c \<Rightarrow> map_option inbound_rule_identity (rule_at c i) = Some identity | None \<Rightarrow> False)
   | _ \<Rightarrow> False)"

lemma removal_origin:
  assumes "RemoveInbound i identity \<in> set (snd (inbound_step ord e s))"
  shows "removes_its_rule e s i identity"
proof (cases e)
  case (InboundRemovePressed clicks idx)
  then show ?thesis using assms
    by (auto simp: inbound_step_def inbound_remove_pressed_def removes_its_rule_def split: bool.splits option.splits if_splits)
next
  case (InboundSwitched idx want)
  then show ?thesis using assms by (auto simp: inbound_step_def inbound_switched_def Let_def split: sum.splits option.splits)
qed (use assms in \<open>auto simp: inbound_step_def start_inbound_refresh_def save_inbound_editor_def inbound_saved_def inbound_patched_def
      inbound_removed_def Let_def split: if_splits sum.splits option.splits prod.splits\<close>)


definition toy_inbound_page :: inbound_page where
  "toy_inbound_page = \<lparr>ip_config = Some toy_inbound, ip_html = [], ip_errs = (\<lambda>_. None), ip_msg = ([], False), ip_api = (True, []), ip_loaded = True,
     ip_loading = 0, ip_open = False, ip_title = [], ip_form = \<lparr>ib_index = None, ib_base = [], ib_proto = [], ib_dport = [], ib_note = [], ib_enabled = False\<rparr>,
     ip_editor_msg = [], ip_removing = False\<rparr>"


text \<open>A switch is sent likewise, for the rule that stands in its row in the config at hand, by what identifies it.\<close>

lemma switch_names_the_rule_clicked:
  assumes "PatchInbound i identity off \<in> set (snd (inbound_step ord e s))"
  shows "\<exists>c r. ip_config s = Some c \<and> rule_at c i = Some r \<and> identity = inbound_rule_identity r"
proof (cases e)
  case (InboundRemovePressed clicks idx)
  then show ?thesis using assms by (auto simp: inbound_step_def inbound_remove_pressed_def split: bool.splits option.splits)
next
  case (InboundSwitched idx want)
  then show ?thesis using assms
    by (auto simp: inbound_step_def inbound_switched_def Let_def split: sum.splits option.splits dest!: sym [where s = "Some _"])
qed (use assms in \<open>auto simp: inbound_step_def start_inbound_refresh_def save_inbound_editor_def inbound_saved_def inbound_patched_def inbound_removed_def
      Let_def split: if_splits sum.splits option.splits prod.splits\<close>)

section \<open>The editor\<close>

text \<open>A save that fails keeps the form open with its values and says why; one that lands closes it.\<close>

lemma failed_save_keeps_the_form:
  assumes "inbound_step ord (InboundSaved index (Inl (merge, m))) s = (s', q)"
  shows "ip_form s' = ip_form s" "ip_open s' = ip_open s" "prefix m (ip_editor_msg s')" "q = []"
  using assms
  by (auto simp: inbound_step_def inbound_saved_def draw_last_inbound_def draw_inbound_def split: if_splits option.splits prod.splits)

text \<open>
  It closes whatever the editor holds by then: a form cancelled during its save and reopened on another rule is closed with that
  rule's edits when the save lands. And Save has no guard of its own: the second click of a double click sends a second save,
  which adds a new rule twice.
\<close>

lemma late_save_closes_another_edit:
  "\<not> ip_open (fst (inbound_run ord [InboundSavePressed, InboundCancelled, InboundEditPressed j, InboundTyped g, InboundSaved index (Inr c)] s))"
  by (simp add: inbound_step_def inbound_saved_def split: prod.split)

lemma double_save_adds_twice:
  assumes "inbound_entry (ip_form s) = Inr entry" "ib_index (ip_form s) = None"
  shows "snd (inbound_run ord [InboundSavePressed, InboundSavePressed] s) = [SaveInbound None (ib_base (ip_form s)) entry, SaveInbound None (ib_base (ip_form s)) entry]"
    "save_inbound_edit None b entry c = Inr (True, c1) \<Longrightarrow> save_inbound_edit None b entry c1 = Inr (True, c2) \<Longrightarrow> inbound_rules c2 = inbound_rules c @ [entry, entry]"
  using assms by (auto simp: inbound_step_def save_inbound_editor_def save_inbound_edit_def Let_def)

end
