(* ===== verification/Spec2Isabelle.thy ===== *)
theory Spec2Isabelle
  imports Pending Config_Revert Apply_Bar Dirty Modal Connection Router Toast Widgets Peers_Table Onboarding Save_Refinement
    Config_Types Route_Ports Routes_Table Inbound Logs Config_Upload Overview_Cards Token_Stats
    Topology_Page Peers_Page Routes_Page Geo_Page Overview_Dom Settings_Host Theme Startup Shell_Dom Inbound_Page
begin

text \<open>
  EvuProxy's admin UI: the JavaScript under \<open>src/web/static/js\<close>, which edits the host's configuration over a JSON API
  and applies it.

  \<^bold>\<open>How the parts interact.\<close> The host keeps one config file. A page reads it as JSON with an ETag, shows rows and forms over
  it, and saves an edit, a function on configs, at the revision the edit was computed from (\<open>core/config_save.js\<close>); a
  mismatch re-reads the config and applies the edit again. A saved config is not live before Apply: the Pending page lists
  what differs (\<open>core/config_changes.js\<close>), each change can be taken back alone, and the Apply bar checks, asks for
  acknowledgement where access could be lost (\<open>core/lockout.js\<close>), sends the reload and counts down the confirmation
  (\<open>core/apply_session.js\<close>). Around it: navigation with a guard on unsaved edits (\<open>core/router.js\<close>, \<open>core/dirty.js\<close>),
  dialogs, toasts with Undo, and the watch over the connection. A page's operation is thus an edit, or a step of a machine
  whose events are clicks, timers and answers; both are definitions here, and the requests are their outputs.

  \<^bold>\<open>Theories, by the code they model.\<close>
  \<^item> \<open>Js_Base\<close>, \<open>Js_Json\<close>, \<open>Json_Canon\<close>: the language's strings (a character is a code point below 256), JSON values with
    \<open>JSON.stringify\<close> and truthiness, and the canonical text by which \<open>core/config_changes.js\<close> compares.
  \<^item> \<open>Net\<close> (\<open>core/net.js\<close>: addresses are 32-bit words), \<open>Text_Output\<close> (\<open>core/dom.js\<close>, \<open>core/format.js\<close>),
    \<open>Table_Sort\<close>, \<open>Table_Cells\<close> (\<open>core/table_sort.js\<close>, cells shared by pages).
  \<^item> \<open>Config_Save\<close> (\<open>core/config_save.js\<close> and the API's handler), \<open>Save_Refinement\<close> (its abstract specification: a register
    whose edits are atomic), \<open>Config_Changes\<close>, \<open>Config_Review\<close>, \<open>Config_Revert\<close>, \<open>Config_Types\<close>
    (\<open>core/config_changes.js\<close>: listing, completeness of the list, taking a change back, well-formedness).
  \<^item> \<open>Lockout\<close>, \<open>Apply_Session\<close>, \<open>Apply_Bar\<close> (the core files of these names): the check, the countdown, the machine of Apply.
  \<^item> \<open>Line_Diff\<close>, \<open>Pending_Diff\<close>, \<open>Pending\<close> (\<open>pages/pending.js\<close>).
  \<^item> \<open>Dirty\<close>, \<open>Modal\<close>, \<open>Router\<close>, \<open>Connection\<close>, \<open>Api\<close>, \<open>Toast\<close>, \<open>Widgets\<close>, \<open>Sidebar\<close>, \<open>Shell_Dom\<close>: the shell in \<open>core/\<close>
    (the last: the elements it marks, labels and moves the focus to).
  \<^item> \<open>Peers\<close>, \<open>Peers_Table\<close>, \<open>Onboarding\<close>, \<open>Base64\<close>, \<open>Peer_Editor\<close>, \<open>Peer_Dialog\<close>, \<open>Peers_Page\<close> (\<open>pages/peers.js\<close> and
    \<open>scripts/evuproxy-peer-bundle-apply.sh\<close>); \<open>Route_Editor\<close>, \<open>Route_Ports\<close>, \<open>Routes_Table\<close>, \<open>Routes_Page\<close>
    (\<open>pages/routes.js\<close>); \<open>Config_Rows\<close> (what the row editors share), \<open>Polling\<close> (what the polling pages share);
    \<open>Inbound\<close>, \<open>Inbound_Page\<close> (\<open>pages/inbound.js\<close>: its edits, the page); \<open>Geoblocking\<close>, \<open>Geo_Picker\<close>, \<open>Geo_Page\<close> (\<open>pages/geoblocking.js\<close>); \<open>Logs\<close> (\<open>pages/logs.js\<close>);
    \<open>Settings\<close>, \<open>Config_Upload\<close>, \<open>Settings_Host\<close> (\<open>pages/settings.js\<close>: the form, the upload, the host's files);
    \<open>Overview\<close>, \<open>Overview_Cards\<close>, \<open>Overview_Dom\<close> (\<open>pages/overview.js\<close>: passes, texts, elements);
    \<open>Topology\<close>, \<open>Topology_View\<close>, \<open>Topology_Page\<close> (\<open>pages/topology.js\<close>: layout, pan and zoom, the drawing and the page);
    \<open>Token_Stats\<close> (\<open>pages/token.js\<close>, \<open>pages/stats.js\<close>).
  \<^item> \<open>Startup\<close> (\<open>main.js\<close>: drawer, keys, Escape, leaving), \<open>Theme\<close> (\<open>theme-boot.js\<close>, \<open>evu/theme.js\<close>,
    \<open>evu/theme-autoload.js\<close>).

  \<^bold>\<open>State and operations.\<close> A module's variables and the DOM state its code reads back are a record; a handler or a step
  between two awaits is a function on it, or a case of a step function over a datatype of events, in the order of the
  code. An error thrown is the left of a sum, with its message. Names follow the code: \<open>saveConfigEdit\<close> is
  \<open>save_config_edit\<close>. Markup the code builds as text is a string here too; elements it builds through the DOM are read off
  as their texts and flags.

  \<^bold>\<open>Interfaces.\<close> \<open>revision_store\<close> and \<open>counted_store\<close> (a store with revisions, provided by the modelled host) carry saving and
  the upload; \<open>guarded_form\<close> the guard on edits; \<open>editable_rows\<close> the editors of the route, the inbound and the peer
  list; \<open>polled_page\<close> the pages that keep an interval of the browser. Each is interpreted on the model of the code that provides it.

  \<^bold>\<open>What the lemmas show.\<close> No save, retry, undo, restore or upload loses someone else's change, and the tab refines an atomic
  register; the review is complete, and taking a change back touches exactly what it names, or refuses; no Apply is sent
  without its check and acknowledgement, at most one per click, and every Apply ends; sessions, outages and pages overtaken by
  newer requests settle; edits are dropped only by agreement; a form is dirty exactly while it differs from what was saved,
  also when a save lands only in part; what editors, bundles, log lines and forms write reads back; texts of the config add
  no markup; diffs, sorted tables, port expansions and config comparisons agree with their plain definitions; points of
  a chart stay within it, every route is drawn to its target, and the diagram cannot be lost from view; the commands shown
  for a new peer open the bundle they were shown with, a closed editor is quiet, a page runs one poll at most and none once
  left, Escape takes off one thing, and the boot script paints what the theme paints; a host's files are restored only after
  their prompt, geoblocking edits stay while the page is at work, and removals of inbound rules never overlap.

  \<^bold>\<open>Termination, bounds and fuel.\<close> Every function is total. A save tries \<open>MAX_SAVE_ATTEMPTS\<close> times, the code's own bound, and
  fails with \<open>KEPT_CHANGING\<close> after it. Where a loop is not structural a measure is given (\<open>scale_bytes\<close>, the diff's
  walk back). There is no fuel.

  \<^bold>\<open>Parameters.\<close> YAML and SHA-256 of the host (the digest is a 256-bit word, and statements hold up to its collisions),
  AES and the key derivation of the bundle, \<open>Intl\<close> formats and collation, \<open>Date.parse\<close>, \<open>JSON.parse\<close>, the clock, and every
  answer of the API. Numbers in JSON are integers, and the chart's latencies are rationals: floating point is not modelled.

  \<^bold>\<open>Not modelled.\<close> Event wiring (the init functions, and \<open>main.js\<close>' calls of them), scrolling, downloads, file reading, timers and
  requests as such: they call what is modelled and have no logic of their own. The focus is modelled where the code decides
  which control takes it, not what the browser does with it. The QR code is built by the host. The Go daemon, its scripts and the
  development tools are another program; the UI relies on its revision check, which is modelled.
\<close>

end
